(* ===== verification/Go_Prelude.thy ===== *)
theory Go_Prelude
  imports Main "HOL-Library.Sublist" "HOL-Library.Char_ord" "HOL-Library.List_Lexorder"
begin

text \<open>
  What the components share: Go's \<^verbatim>\<open>string\<close> as a list of bytes with the functions of
  \<^verbatim>\<open>strings\<close> and \<^verbatim>\<open>strconv\<close> the program calls, \<^verbatim>\<open>time.Time\<close> and \<^verbatim>\<open>time.Duration\<close>
  as integers counting nanoseconds, sorted directories as association lists, and the
  collections of rewrite rules the component proofs use.

  Case mapping and white space are those of ASCII: a byte above 127 is neither a letter nor a
  space. Go applies the Unicode tables to such bytes; the components say where that could matter.
\<close>

named_theorems go_string "rewrite rules for Go's string functions"
named_theorems dir_simps "rewrite rules for directories as sorted association lists"

section \<open>Strings\<close>

definition is_space :: "char \<Rightarrow> bool" where
  "is_space c \<longleftrightarrow> c \<in> {CHR '' '', CHR 0x09, CHR 0x0A, CHR 0x0B, CHR 0x0C, CHR 0x0D}"

definition trim_left :: "(char \<Rightarrow> bool) \<Rightarrow> string \<Rightarrow> string" where
  "trim_left p s = dropWhile p s"

definition trim_right :: "(char \<Rightarrow> bool) \<Rightarrow> string \<Rightarrow> string" where
  "trim_right p s = rev (dropWhile p (rev s))"

text \<open>\<^verbatim>\<open>strings.TrimSpace\<close>\<close>
definition trim_space :: "string \<Rightarrow> string" where
  "trim_space s = trim_right is_space (trim_left is_space s)"

definition is_upper :: "char \<Rightarrow> bool" where
  "is_upper c \<longleftrightarrow> CHR ''A'' \<le> c \<and> c \<le> CHR ''Z''"

definition is_lower :: "char \<Rightarrow> bool" where
  "is_lower c \<longleftrightarrow> CHR ''a'' \<le> c \<and> c \<le> CHR ''z''"

definition is_digit :: "char \<Rightarrow> bool" where
  "is_digit c \<longleftrightarrow> CHR ''0'' \<le> c \<and> c \<le> CHR ''9''"

definition lower_char :: "char \<Rightarrow> char" where
  "lower_char c = (if is_upper c then char_of (of_char c + 32 :: nat) else c)"

definition upper_char :: "char \<Rightarrow> char" where
  "upper_char c = (if is_lower c then char_of (of_char c - 32 :: nat) else c)"

text \<open>\<^verbatim>\<open>strings.ToLower\<close>, \<^verbatim>\<open>strings.ToUpper\<close>, \<^verbatim>\<open>strings.EqualFold\<close>\<close>
definition to_lower :: "string \<Rightarrow> string" where
  "to_lower s = map lower_char s"

definition to_upper :: "string \<Rightarrow> string" where
  "to_upper s = map upper_char s"

definition equal_fold :: "string \<Rightarrow> string \<Rightarrow> bool" where
  "equal_fold a b \<longleftrightarrow> to_lower a = to_lower b"

text \<open>\<^verbatim>\<open>strings.HasPrefix\<close>, \<^verbatim>\<open>strings.HasSuffix\<close>, \<^verbatim>\<open>strings.TrimSuffix\<close>\<close>
definition has_prefix :: "string \<Rightarrow> string \<Rightarrow> bool" where
  "has_prefix s p \<longleftrightarrow> take (length p) s = p"

definition has_suffix :: "string \<Rightarrow> string \<Rightarrow> bool" where
  "has_suffix s p \<longleftrightarrow> length p \<le> length s \<and> drop (length s - length p) s = p"

definition trim_suffix :: "string \<Rightarrow> string \<Rightarrow> string" where
  "trim_suffix s p = (if has_suffix s p then take (length s - length p) s else s)"

text \<open>\<^verbatim>\<open>strings.IndexByte\<close>: \<open>None\<close> for Go's \<open>-1\<close>\<close>
fun index_byte :: "string \<Rightarrow> char \<Rightarrow> nat option" where
  "index_byte [] c = None"
| "index_byte (x # xs) c = (if x = c then Some 0 else map_option Suc (index_byte xs c))"

text \<open>\<^verbatim>\<open>strings.ContainsAny\<close>\<close>
definition contains_any :: "string \<Rightarrow> string \<Rightarrow> bool" where
  "contains_any s cs \<longleftrightarrow> list_ex (\<lambda>c. c \<in> set cs) s"

text \<open>\<^verbatim>\<open>strings.Split\<close> with a one-byte separator\<close>
fun split_on :: "char \<Rightarrow> string \<Rightarrow> string list" where
  "split_on c [] = [[]]"
| "split_on c (x # xs) =
     (if x = c then [] # split_on c xs
      else (case split_on c xs of [] \<Rightarrow> [[x]] | y # ys \<Rightarrow> (x # y) # ys))"

text \<open>\<^verbatim>\<open>strings.SplitN (s, sep, 2)\<close>: the parts before and after the first separator\<close>
definition split_2 :: "char \<Rightarrow> string \<Rightarrow> string \<times> string option" where
  "split_2 c s = (case index_byte s c of None \<Rightarrow> (s, None)
                  | Some i \<Rightarrow> (take i s, Some (drop (Suc i) s)))"

text \<open>\<^verbatim>\<open>strings.Fields\<close>\<close>
fun fields_acc :: "string \<Rightarrow> string \<Rightarrow> string list" where
  "fields_acc acc [] = (if acc = [] then [] else [rev acc])"
| "fields_acc acc (x # xs) =
     (if is_space x then (if acc = [] then fields_acc [] xs else rev acc # fields_acc [] xs)
      else fields_acc (x # acc) xs)"

definition split_fields :: "string \<Rightarrow> string list" where
  "split_fields s = fields_acc [] s"

text \<open>\<^verbatim>\<open>strings.Index\<close> and \<^verbatim>\<open>strings.Contains\<close>\<close>
fun index_str :: "string \<Rightarrow> string \<Rightarrow> nat option" where
  "index_str [] p = (if p = [] then Some 0 else None)"
| "index_str (x # xs) p = (if has_prefix (x # xs) p then Some 0 else map_option Suc (index_str xs p))"

definition contains_str :: "string \<Rightarrow> string \<Rightarrow> bool" where
  "contains_str s p \<longleftrightarrow> index_str s p \<noteq> None"

text \<open>\<^verbatim>\<open>strings.ReplaceAll (s, "\r\n", "\n")\<close>\<close>
fun crlf_to_lf :: "string \<Rightarrow> string" where
  "crlf_to_lf (a # b # xs) =
     (if a = CHR 0x0D \<and> b = CHR 0x0A then CHR 0x0A # crlf_to_lf xs else a # crlf_to_lf (b # xs))"
| "crlf_to_lf xs = xs"

text \<open>\<^verbatim>\<open>strings.Join\<close>\<close>
fun join :: "string \<Rightarrow> string list \<Rightarrow> string" where
  "join sep [] = []"
| "join sep [x] = x"
| "join sep (x # y # ys) = x @ sep @ join sep (y # ys)"

definition crlf :: string where "crlf = [CHR 0x0D, CHR 0x0A]"

section \<open>Decimal numbers\<close>

definition digit_char :: "nat \<Rightarrow> char" where
  "digit_char d = char_of (48 + d)"

fun show_nat :: "nat \<Rightarrow> string" where
  "show_nat n = (if n < 10 then [digit_char n] else show_nat (n div 10) @ [digit_char (n mod 10)])"

declare show_nat.simps [simp del]

definition show_int :: "int \<Rightarrow> string" where
  "show_int i = (if i < 0 then ''-'' @ show_nat (nat (- i)) else show_nat (nat i))"

section \<open>Time\<close>

type_synonym time = int
type_synonym duration = int

text \<open>\<^verbatim>\<open>time.Time{}\<close> is midnight of January 1 of the year 1, in nanoseconds from the Unix epoch.\<close>
definition zero_time :: time where
  "zero_time = - 62135596800000000000"

abbreviation is_zero :: "time \<Rightarrow> bool" where
  "is_zero t \<equiv> t = zero_time"

definition max_int64 :: int where "max_int64 = 9223372036854775807"
definition min_int64 :: int where "min_int64 = - 9223372036854775808"

text \<open>The value of an integer expression at 64 bits\<close>
definition wrap64 :: "int \<Rightarrow> int" where
  "wrap64 i = (i + 9223372036854775808) mod 18446744073709551616 - 9223372036854775808"

text \<open>Go's integer division truncates towards zero.\<close>
definition go_div :: "int \<Rightarrow> int \<Rightarrow> int" where
  "go_div a b = sgn a * sgn b * (\<bar>a\<bar> div \<bar>b\<bar>)"

text \<open>\<^verbatim>\<open>Time.Sub\<close> saturates at the range of a \<^verbatim>\<open>Duration\<close>.\<close>
definition time_sub :: "time \<Rightarrow> time \<Rightarrow> duration" where
  "time_sub a b = max min_int64 (min max_int64 (a - b))"

definition millisecond :: duration where "millisecond = 1000000"
definition second :: duration where "second = 1000000000"
definition minute :: duration where "minute = 60 * second"
definition hour :: duration where "hour = 60 * minute"

section \<open>Directories\<close>

text \<open>
  A directory, or a Go map whose iteration order is fixed by sorting, is an association list in
  strictly ascending order of its keys.
\<close>

fun dput :: "'k::linorder \<Rightarrow> 'v \<Rightarrow> ('k \<times> 'v) list \<Rightarrow> ('k \<times> 'v) list" where
  "dput k v [] = [(k, v)]"
| "dput k v ((k', v') # xs) =
     (if k < k' then (k, v) # (k', v') # xs
      else if k = k' then (k, v) # xs
      else (k', v') # dput k v xs)"

definition ddel :: "'k \<Rightarrow> ('k \<times> 'v) list \<Rightarrow> ('k \<times> 'v) list" where
  "ddel k xs = filter (\<lambda>p. fst p \<noteq> k) xs"

definition dwf :: "('k::linorder \<times> 'v) list \<Rightarrow> bool" where
  "dwf xs \<longleftrightarrow> sorted_wrt (<) (map fst xs)"

lemma dput_keys: "set (map fst (dput k v xs)) = insert k (set (map fst xs))"
  by (induction k v xs rule: dput.induct) auto

lemma dput_dwf [simp, intro]: "dwf xs \<Longrightarrow> dwf (dput k v xs)"
proof (induction k v xs rule: dput.induct)
  case (2 k v k' v' xs)
  have "k' < k \<Longrightarrow> dwf (dput k v xs)"
    using 2 by (auto simp: dwf_def)
  moreover have "\<forall>x \<in> set (map fst (dput k v xs)). k' < x" if "k' < k"
    using 2(2) that by (simp only: dput_keys) (auto simp: dwf_def)
  ultimately show ?case
    using 2(2) by (auto simp: dwf_def)
qed (simp add: dwf_def)

lemma ddel_dwf [simp, intro]: "dwf xs \<Longrightarrow> dwf (ddel k xs)"
  unfolding dwf_def ddel_def by (induction xs) auto

lemma dwf_Nil [simp]: "dwf []"
  by (simp add: dwf_def)

lemma dwf_distinct: "dwf xs \<Longrightarrow> distinct (map fst xs)"
  unfolding dwf_def by (simp add: strict_sorted_iff)

lemma dput_lookup [dir_simps, simp]: "map_of (dput k v xs) = (map_of xs)(k \<mapsto> v)"
  by (induction k v xs rule: dput.induct) auto

lemma ddel_lookup [dir_simps, simp]: "map_of (ddel k xs) = (map_of xs)(k := None)"
  unfolding ddel_def by (induction xs) (auto simp: fun_eq_iff)

lemma dwf_lookup: "dwf xs \<Longrightarrow> (k, v) \<in> set xs \<longleftrightarrow> map_of xs k = Some v"
  by (meson dwf_distinct map_of_SomeD map_of_is_SomeI)

lemma dput_length: "dwf xs \<Longrightarrow>
    length (dput k v xs) = (if map_of xs k = None then Suc (length xs) else length xs)"
proof (induction k v xs rule: dput.induct)
  case (2 k v k' v' xs)
  have "map_of xs k = None" if "k < k'"
    using 2(2) that by (force simp: dwf_def map_of_eq_None_iff)
  moreover have "dwf xs" using 2(2) by (simp add: dwf_def)
  ultimately show ?case using 2 by auto
qed simp

lemma set_dput: "p \<in> set (dput k v xs) \<Longrightarrow> p = (k, v) \<or> p \<in> set xs"
  by (induction k v xs rule: dput.induct) (auto split: if_splits)

lemma ddel_absent: "map_of xs k = None \<Longrightarrow> ddel k xs = xs"
  unfolding ddel_def by (rule filter_True) (auto simp: map_of_eq_None_iff rev_image_eqI)

lemma ddel_length: "length (ddel k xs) \<le> length xs"
  by (simp add: ddel_def)

lemma ddel_subset: "set (ddel k xs) \<subseteq> set xs"
  by (auto simp: ddel_def)

section \<open>Facts about the string functions\<close>

lemma has_suffix_append [simp, go_string]: "has_suffix (s @ p) p"
  by (simp add: has_suffix_def)

lemma has_prefix_iff_prefix: "has_prefix s p \<longleftrightarrow> prefix p s"
  by (auto simp: has_prefix_def prefix_def) (metis append_take_drop_id)

lemma has_suffix_iff_suffix: "has_suffix s p \<longleftrightarrow> suffix p s"
proof
  assume "has_suffix s p"
  then have "s = take (length s - length p) s @ p"
    unfolding has_suffix_def by (metis append_take_drop_id)
  then show "suffix p s" by (rule suffixI)
next
  assume "suffix p s"
  then show "has_suffix s p" by (auto simp: suffix_def)
qed

lemma trim_right_suffix_free: "trim_right p s = [] \<or> \<not> p (last (trim_right p s))"
proof (cases "dropWhile p (rev s)")
  case Nil
  then show ?thesis by (simp add: trim_right_def)
next
  case (Cons x xs)
  then have "\<not> p x" using hd_dropWhile [of p "rev s"] by simp
  with Cons show ?thesis by (simp add: trim_right_def)
qed

lemma lower_char_not_upper [simp, go_string]: "\<not> is_upper (lower_char c)"
proof (cases "is_upper c")
  case True
  have "65 \<le> (of_char c :: nat)" "(of_char c :: nat) \<le> 90"
    using True by (simp_all add: is_upper_def less_eq_char_def)
  then show ?thesis
    by (simp add: lower_char_def True is_upper_def less_eq_char_def)
qed (simp add: lower_char_def)

lemma lower_char_idem [simp, go_string]: "lower_char (lower_char c) = lower_char c"
  using lower_char_not_upper [of c] by (simp only: lower_char_def [of "lower_char c"]) simp

lemma to_lower_idem [simp, go_string]: "to_lower (to_lower s) = to_lower s"
  by (simp add: to_lower_def)

lemma to_lower_Nil [simp, go_string]: "to_lower s = [] \<longleftrightarrow> s = []"
  by (simp add: to_lower_def)

lemma to_lower_append [go_string]: "to_lower (s @ t) = to_lower s @ to_lower t"
  by (simp add: to_lower_def)

lemma length_to_lower [simp, go_string]: "length (to_lower s) = length s"
  by (simp add: to_lower_def)

lemma equal_fold_refl [simp]: "equal_fold a a"
  by (simp add: equal_fold_def)

lemma equal_fold_sym: "equal_fold a b \<Longrightarrow> equal_fold b a"
  by (simp add: equal_fold_def)

lemma split_on_ne [simp, go_string]: "split_on c s \<noteq> []"
  by (induction c s rule: split_on.induct) (auto split: list.splits)

lemma split_on_no_sep: "\<forall>p \<in> set (split_on c s). c \<notin> set p"
  by (induction c s rule: split_on.induct) (auto split: list.splits)

lemma split_on_absent: "c \<notin> set s \<Longrightarrow> split_on c s = [s]"
  by (induction c s rule: split_on.induct) auto

lemma split_on_append: "c \<notin> set s \<Longrightarrow> split_on c (s @ c # t) = s # split_on c t"
  by (induction s) auto

text \<open>Splitting and joining with the same separator is the identity.\<close>
lemma join_split_on: "join [c] (split_on c s) = s"
proof (induction c s rule: split_on.induct)
  case (2 c x xs)
  obtain y ys where "split_on c xs = y # ys"
    by (meson split_on_ne list.exhaust)
  with 2 show ?case by (cases ys) auto
qed simp

lemma set_join: "c \<in> set (join sep xs) \<Longrightarrow> c \<in> set sep \<or> (\<exists>x \<in> set xs. c \<in> set x)"
  by (induction sep xs rule: join.induct) auto

lemma split_on_chars: "c \<in> set s \<Longrightarrow> c = sep \<or> (\<exists>x \<in> set (split_on sep s). c \<in> set x)"
  using set_join [of c "[sep]" "split_on sep s"] by (simp add: join_split_on)

text \<open>Trimming does nothing to a string whose ends are not trimmed.\<close>
lemma trim_left_id: "s = [] \<or> \<not> p (hd s) \<Longrightarrow> trim_left p s = s"
  by (cases s) (auto simp: trim_left_def)

lemma trim_right_id: "s = [] \<or> \<not> p (last s) \<Longrightarrow> trim_right p s = s"
  by (cases s rule: rev_cases) (auto simp: trim_right_def)

lemma trim_space_id: "s = [] \<or> \<not> is_space (hd s) \<and> \<not> is_space (last s) \<Longrightarrow> trim_space s = s"
  by (auto simp: trim_space_def trim_left_id trim_right_id)

lemma trim_right_append: "p x \<Longrightarrow> trim_right p (s @ [x]) = trim_right p s"
  by (simp add: trim_right_def)

lemma trim_right_keep: "\<not> p x \<Longrightarrow> trim_right p (s @ [x]) = s @ [x]"
  by (simp add: trim_right_def)

lemma trim_left_head: "trim_left p s = [] \<or> \<not> p (hd (trim_left p s))"
  using hd_dropWhile [of p s] by (auto simp: trim_left_def)

lemma trim_right_head: "trim_right p s \<noteq> [] \<Longrightarrow> hd (trim_right p s) = hd s"
proof (induction s rule: rev_induct)
  case (snoc x xs)
  show ?case
  proof (cases "p x")
    case True
    then have "trim_right p xs \<noteq> []" using snoc.prems by (simp add: trim_right_append)
    moreover from this have "xs \<noteq> []" by (auto simp: trim_right_def)
    ultimately show ?thesis using snoc.IH True by (simp add: trim_right_append)
  qed (simp add: trim_right_keep)
qed (simp add: trim_right_def)

lemma trim_space_ends: "trim_space s = [] \<or> \<not> is_space (hd (trim_space s)) \<and> \<not> is_space (last (trim_space s))"
  unfolding trim_space_def
  using trim_right_head [of is_space "trim_left is_space s"] trim_left_head [of is_space s]
    trim_right_suffix_free [of is_space "trim_left is_space s"]
  by (cases "trim_left is_space s = []"; cases "trim_right is_space (trim_left is_space s) = []")
     (simp_all add: trim_right_def [of _ "[]"])

lemma trim_space_idem [simp, go_string]: "trim_space (trim_space s) = trim_space s"
  by (rule trim_space_id) (rule trim_space_ends)

lemma trim_space_Nil [simp, go_string]: "trim_space [] = []"
  by (simp add: trim_space_def trim_left_def trim_right_def)

lemma trim_space_lower: "to_lower (trim_space x) = trim_space (to_lower x)"
proof -
  have sp: "is_space (lower_char c) = is_space c" for c
  proof (cases "is_upper c")
    case True
    have "65 \<le> (of_char c :: nat)" "(of_char c :: nat) \<le> 90"
      using True by (simp_all add: is_upper_def less_eq_char_def)
    then have "(of_char (lower_char c) :: nat) = of_char c + 32" "65 \<le> (of_char c :: nat)"
      by (simp_all add: lower_char_def True)
    then show ?thesis by (auto simp: is_space_def)
  qed (simp add: lower_char_def)
  have "is_space \<circ> lower_char = is_space" by (simp add: fun_eq_iff sp)
  then show ?thesis
    by (simp add: trim_space_def trim_left_def trim_right_def to_lower_def dropWhile_map rev_map)
qed

lemma wrap64_id: "min_int64 \<le> i \<Longrightarrow> i \<le> max_int64 \<Longrightarrow> wrap64 i = i"
  by (simp add: wrap64_def min_int64_def max_int64_def)

lemma wrap64_range: "min_int64 \<le> wrap64 i" "wrap64 i \<le> max_int64"
proof -
  have "0 \<le> (i + 9223372036854775808) mod (18446744073709551616 :: int)"
    "(i + 9223372036854775808) mod (18446744073709551616 :: int) < 18446744073709551616"
    by simp_all
  then show "min_int64 \<le> wrap64 i" "wrap64 i \<le> max_int64"
    unfolding wrap64_def min_int64_def max_int64_def by linarith+
qed

lemma index_byte_Some:
  "index_byte s c = Some i \<Longrightarrow> i < length s \<and> s ! i = c \<and> c \<notin> set (take i s)"
proof (induction s c arbitrary: i rule: index_byte.induct)
  case (2 x xs c)
  show ?case
  proof (cases "x = c")
    case True
    with 2 show ?thesis by auto
  next
    case False
    with 2 obtain j where "i = Suc j" "index_byte xs c = Some j" by auto
    with 2 False show ?thesis by auto
  qed
qed simp

lemma index_byte_None: "index_byte s c = None \<longleftrightarrow> c \<notin> set s"
  by (induction s c rule: index_byte.induct) auto

text \<open>The rules that evaluate the string functions on literals.\<close>
lemmas go_eval = to_lower_def to_upper_def trim_space_def trim_left_def trim_right_def
  is_space_def lower_char_def upper_char_def is_upper_def is_lower_def is_digit_def
  less_eq_char_def less_char_def char_of_def bit_Suc_0_iff has_prefix_def has_suffix_def
  trim_suffix_def contains_any_def split_fields_def equal_fold_def show_nat.simps show_int_def
  digit_char_def

end
