(* ===== verification/Message.thy ===== *)
theory Message
  imports Go_Prelude
begin

text \<open>
  The queued message of \<^verbatim>\<open>internal/model/message.go\<close> and the address helpers of
  \<^verbatim>\<open>internal/util/address.go\<close>. Go's nil pointers are \<open>None\<close>; the recipient map of a DSN
  request is an association list sorted by address.
\<close>

section \<open>The message\<close>

record dsn_recipient_options =
  notify :: "string list"
  original_recipient :: string

record dsn_params =
  dsn_return :: string
  envelope_id :: string
  dsn_recipients :: "(string \<times> dsn_recipient_options) list"

record quarantine_info =
  q_reason :: string
  q_expires_at :: time

record signing_identity =
  signing_domain :: string

record message =
  m_id :: string
  created_at :: time
  updated_at :: time
  remote_addr :: string
  m_helo :: string
  mail_from :: string
  rcpt_to :: "string list"
  m_dsn :: "dsn_params option"
  require_tls :: bool
  m_data :: string
  trace_parent :: string
  trace_state :: string
  attempts :: int
  next_attempt :: time
  last_error :: string
  tenant :: string
  traffic_class :: string
  m_quarantine :: "quarantine_info option"
  m_signing :: "signing_identity option"

definition empty_dsn :: dsn_params where
  "empty_dsn = \<lparr>dsn_return = [], envelope_id = [], dsn_recipients = []\<rparr>"

text \<open>\<^verbatim>\<open>&model.Message{ID: id}\<close>: every other field has its zero value.\<close>
definition new_message :: "string \<Rightarrow> message" where
  "new_message i = \<lparr>m_id = i, created_at = zero_time, updated_at = zero_time, remote_addr = [],
     m_helo = [], mail_from = [], rcpt_to = [], m_dsn = None, require_tls = False, m_data = [],
     trace_parent = [], trace_state = [], attempts = 0, next_attempt = zero_time,
     last_error = [], tenant = [], traffic_class = [], m_quarantine = None, m_signing = None\<rparr>"

section \<open>Addresses\<close>

datatype addr_error = InvalidMailboxPath | MailboxMissingAt

text \<open>\<^verbatim>\<open>NormalizePath\<close>\<close>
definition normalize_path :: "string \<Rightarrow> addr_error + string" where
  "normalize_path path =
     (let s0 = trim_space path;
          s = (if has_prefix s0 ''<'' \<and> has_suffix s0 ''>''
               then (let t = trim_suffix s0 ''>'' in if has_prefix t ''<'' then drop 1 t else t)
               else s0)
      in if contains_any s [CHR '' '', CHR 0x09, CHR 0x0D, CHR 0x0A] then Inl InvalidMailboxPath
         else if s = [] then Inr []
         else if CHR ''@'' \<notin> set s then Inl MailboxMissingAt
         else Inr (to_lower s))"

text \<open>\<^verbatim>\<open>DomainOf\<close>: \<open>None\<close> for the pair \<^verbatim>\<open>("", false)\<close>\<close>
definition domain_of :: "string \<Rightarrow> string option" where
  "domain_of addr =
     (case split_on CHR ''@'' addr of
        [_, d] \<Rightarrow> (if d = [] then None else Some (to_lower d))
      | _ \<Rightarrow> None)"

text \<open>The first component of \<^verbatim>\<open>DomainOf\<close> when the caller ignores the second.\<close>
definition domain_or_empty :: "string \<Rightarrow> string" where
  "domain_or_empty addr = (case domain_of addr of None \<Rightarrow> [] | Some d \<Rightarrow> d)"

lemma at_not_upper [simp]: "lower_char CHR ''@'' = CHR ''@''"
  by (simp add: lower_char_def is_upper_def less_eq_char_def)

lemma lower_char_at: "lower_char c = CHR ''@'' \<longleftrightarrow> c = CHR ''@''"
proof (cases "is_upper c")
  case True
  have b: "65 \<le> (of_char c :: nat)" "(of_char c :: nat) \<le> 90"
    using True by (simp_all add: is_upper_def less_eq_char_def)
  have "(of_char (lower_char c) :: nat) = of_char c + 32"
    using b by (simp add: lower_char_def True)
  with b have "lower_char c \<noteq> CHR ''@''" by auto
  moreover have "c \<noteq> CHR ''@''" using b by auto
  ultimately show ?thesis by simp
qed (simp add: lower_char_def)

lemma at_in_to_lower: "CHR ''@'' \<in> set (to_lower s) \<longleftrightarrow> CHR ''@'' \<in> set s"
  by (simp add: to_lower_def image_iff) (metis lower_char_at)

text \<open>What every accepted path looks like.\<close>
lemma normalize_path_Inr:
  assumes "normalize_path p = Inr a"
  shows "to_lower a = a" and "a \<noteq> [] \<Longrightarrow> CHR ''@'' \<in> set a"
proof -
  from assms consider "a = []" | s where "a = to_lower s" "CHR ''@'' \<in> set s"
    unfolding normalize_path_def Let_def by (auto split: if_splits)
  then show "to_lower a = a" and "a \<noteq> [] \<Longrightarrow> CHR ''@'' \<in> set a"
    by (cases; simp add: at_in_to_lower)+
qed

lemma split_two:
  assumes "split_on c s = [u, d]"
  shows "s = u @ c # d" and "c \<notin> set u" and "c \<notin> set d"
proof -
  show "s = u @ c # d"
    using join_split_on [of c s] assms by simp
  show "c \<notin> set u" and "c \<notin> set d"
    using split_on_no_sep [of c s] assms by auto
qed

text \<open>\<^verbatim>\<open>DomainOf\<close> succeeds exactly on addresses with one at sign and a nonempty domain.\<close>
lemma domain_of_Some_iff:
  "domain_of a = Some d \<longleftrightarrow>
     (\<exists>u v. a = u @ CHR ''@'' # v \<and> CHR ''@'' \<notin> set u \<and> CHR ''@'' \<notin> set v \<and> v \<noteq> [] \<and> d = to_lower v)"
    (is "?l \<longleftrightarrow> ?r")
proof
  assume ?l
  then obtain u v where uv: "split_on CHR ''@'' a = [u, v]" "v \<noteq> []" "d = to_lower v"
    unfolding domain_of_def by (auto split: list.splits if_splits)
  from split_two [OF uv(1)] uv show ?r by blast
next
  assume ?r
  then obtain u v where "a = u @ CHR ''@'' # v" "CHR ''@'' \<notin> set u" "CHR ''@'' \<notin> set v"
    "v \<noteq> []" "d = to_lower v" by blast
  then show ?l
    by (simp add: domain_of_def split_on_append split_on_absent)
qed

lemma domain_of_lower: "domain_of a = Some d \<Longrightarrow> to_lower d = d \<and> d \<noteq> []"
  unfolding domain_of_Some_iff by auto

end
