(* ===== verification/Queue_Types.thy ===== *)
theory Queue_Types
  imports Message
begin

text \<open>
  The on-disk state of the local queue (\<^verbatim>\<open>internal/queue/store.go\<close>): its directories, the
  files in them, and the file primitives \<^verbatim>\<open>Store.read\<close> and \<^verbatim>\<open>Store.write\<close>. A directory maps file
  names to contents in the order of \<^verbatim>\<open>os.ReadDir\<close>. A content is either the encoding of a
  message, bytes that \<^verbatim>\<open>json.Unmarshal\<close> rejects, or the payload that
  \<^verbatim>\<open>quarantinePoison\<close> writes. Message identifiers are single file-name components.

  Every system call can fail: the environment of an operation says which call fails on which
  file, so a property stated for all environments covers every partial failure. The
  environment also holds the clock, the size \<^verbatim>\<open>json.MarshalIndent\<close> yields (or its error) and
  the free space of the disk. Metrics, which nothing reads back, are left out.
\<close>

datatype qdir = Inbound | RetryDir | LegacyPending | Sent | Dlq | Poison

datatype fsop = OpStat | OpReadDir | OpRead | OpWriteFile | OpRename | OpRemove | OpPoisonRead

datatype qerror =
    ErrMessageNotFound
  | ErrInvalidStateTransition
  | ErrCapacity
  | ErrIdRequired
  | ErrUnknownState string
  | ErrNotExist
  | ErrIO fsop
  | ErrDecode
  | ErrEncode
  | ErrStatfs

datatype fcontent = JsonMsg message | Raw string | PoisonOf qerror fcontent

record capacity_limits =
  max_messages :: int
  max_bytes :: int
  min_free_bytes :: int
  low_percent :: int

record store =
  limits :: capacity_limits
  paused :: bool
  files :: "qdir \<Rightarrow> (string \<times> fcontent) list"

record env =
  now :: time
  io_fails :: "fsop \<Rightarrow> qdir \<Rightarrow> string \<Rightarrow> bool"
  json_len :: "message \<Rightarrow> int option"
  free_bytes :: "int option"

definition json_name :: "string \<Rightarrow> string" where
  "json_name i = i @ ''.json''"

definition tmp_name :: "string \<Rightarrow> string" where
  "tmp_name n = n @ ''.tmp''"

definition is_json :: "string \<Rightarrow> bool" where
  "is_json n \<longleftrightarrow> has_suffix n ''.json''"

definition fs_put :: "store \<Rightarrow> qdir \<Rightarrow> string \<Rightarrow> fcontent \<Rightarrow> store" where
  "fs_put s d n c = s\<lparr>files := (files s)(d := dput n c (files s d))\<rparr>"

definition fs_del :: "store \<Rightarrow> qdir \<Rightarrow> string \<Rightarrow> store" where
  "fs_del s d n = s\<lparr>files := (files s)(d := ddel n (files s d))\<rparr>"

text \<open>The file of a message in a directory.\<close>
definition file_at :: "store \<Rightarrow> qdir \<Rightarrow> string \<Rightarrow> fcontent option" where
  "file_at s d n = map_of (files s d) n"

text \<open>
  \<^verbatim>\<open>os.WriteFile\<close> and \<^verbatim>\<open>os.Remove\<close>. A failing write leaves the file truncated, the worst the
  call can do; a failing removal leaves the file.
\<close>
definition os_write_file :: "env \<Rightarrow> store \<Rightarrow> qdir \<Rightarrow> string \<Rightarrow> fcontent \<Rightarrow> store \<times> qerror option" where
  "os_write_file e s d n c =
     (if io_fails e OpWriteFile d n then (fs_put s d n (Raw []), Some (ErrIO OpWriteFile))
      else (fs_put s d n c, None))"

definition os_remove :: "env \<Rightarrow> store \<Rightarrow> qdir \<Rightarrow> string \<Rightarrow> store \<times> qerror option" where
  "os_remove e s d n =
     (if io_fails e OpRemove d n then (s, Some (ErrIO OpRemove))
      else if file_at s d n = None then (s, Some ErrNotExist)
      else (fs_del s d n, None))"

text \<open>\<^verbatim>\<open>Store.read\<close>\<close>
definition store_read :: "env \<Rightarrow> store \<Rightarrow> qdir \<Rightarrow> string \<Rightarrow> qerror + message" where
  "store_read e s d n =
     (if io_fails e OpRead d n then Inl (ErrIO OpRead)
      else (case file_at s d n of
              None \<Rightarrow> Inl ErrNotExist
            | Some (JsonMsg m) \<Rightarrow> Inr m
            | Some _ \<Rightarrow> Inl ErrDecode))"

text \<open>
  \<^verbatim>\<open>Store.write\<close>: the message goes to a temporary file that is renamed over the target; the
  deferred removal of the temporary file runs on every path and its result is ignored.
\<close>
definition store_write :: "env \<Rightarrow> store \<Rightarrow> qdir \<Rightarrow> string \<Rightarrow> message \<Rightarrow> store \<times> qerror option" where
  "store_write e s d n m =
     (let tmp = tmp_name n in
      case json_len e m of
        None \<Rightarrow> (fst (os_remove e s d tmp), Some ErrEncode)
      | Some _ \<Rightarrow>
          (let w = os_write_file e s d tmp (JsonMsg m) in
           if snd w \<noteq> None then (fst (os_remove e (fst w) d tmp), snd w)
           else if io_fails e OpRename d n
           then (fst (os_remove e (fst w) d tmp), Some (ErrIO OpRename))
           else (fst (os_remove e (fs_put (fs_del (fst w) d tmp) d n (JsonMsg m)) d tmp), None)))"

section \<open>Facts about the primitives\<close>

lemma file_at_put [simp]:
  "file_at (fs_put s d n c) d' n' = (if d' = d \<and> n' = n then Some c else file_at s d' n')"
  by (simp add: file_at_def fs_put_def)

lemma file_at_del [simp]:
  "file_at (fs_del s d n) d' n' = (if d' = d \<and> n' = n then None else file_at s d' n')"
  by (simp add: file_at_def fs_del_def)

lemma put_del_frame [simp]:
  "limits (fs_put s d n c) = limits s" "paused (fs_put s d n c) = paused s"
  "limits (fs_del s d n) = limits s" "paused (fs_del s d n) = paused s"
  by (simp_all add: fs_put_def fs_del_def)

lemma os_remove_frame [simp]:
  "limits (fst (os_remove e s d n)) = limits s" "paused (fst (os_remove e s d n)) = paused s"
  by (simp_all add: os_remove_def)

lemma os_remove_file_at:
  "file_at (fst (os_remove e s d n)) d' n' =
     (if d' = d \<and> n' = n \<and> \<not> io_fails e OpRemove d n then None else file_at s d' n')"
  by (auto simp: os_remove_def)

lemma os_remove_other [simp]:
  "(d', n') \<noteq> (d, n) \<Longrightarrow> file_at (fst (os_remove e s d n)) d' n' = file_at s d' n'"
  by (auto simp: os_remove_file_at)

lemma is_json_name [simp]: "is_json (json_name i)"
  by (simp add: is_json_def json_name_def)

lemma json_name_inject [simp]: "json_name i = json_name j \<longleftrightarrow> i = j"
  by (simp add: json_name_def)

lemma is_json_iff: "is_json n \<longleftrightarrow> (\<exists>i. n = json_name i)"
  by (auto simp: is_json_def json_name_def has_suffix_iff_suffix suffix_def)

lemma tmp_not_json [simp]: "\<not> is_json (tmp_name n)"
proof
  assume "is_json (tmp_name n)"
  then obtain i where "n @ ''.tmp'' = i @ ''.json''"
    by (auto simp: is_json_iff json_name_def tmp_name_def)
  then have "last (n @ ''.tmp'') = last (i @ ''.json'')" by simp
  then show False by simp
qed

lemma json_not_tmp [simp]: "json_name i \<noteq> tmp_name n" "tmp_name n \<noteq> json_name i"
  using tmp_not_json [of n] by (metis is_json_name)+

lemma tmp_name_neq [simp]: "tmp_name n \<noteq> n"
  by (simp add: tmp_name_def)

text \<open>
  The whole effect of a write on the files the queue reads: on success exactly the target holds
  the message; on failure nothing changed.
\<close>
lemma store_write_file_at:
  assumes "is_json n'"
  shows "file_at (fst (store_write e s d n m)) d' n' =
     (if d' = d \<and> n' = n \<and> snd (store_write e s d n m) = None then Some (JsonMsg m)
      else file_at s d' n')"
proof -
  have "n' \<noteq> tmp_name n" using assms by auto
  then show ?thesis
    by (auto simp: store_write_def Let_def os_write_file_def os_remove_file_at
             split: option.splits prod.splits)
qed

lemma store_write_frame [simp]:
  "limits (fst (store_write e s d n m)) = limits s"
  "paused (fst (store_write e s d n m)) = paused s"
  by (auto simp: store_write_def Let_def os_write_file_def split: option.splits prod.splits)

lemma store_write_ok:
  "snd (store_write e s d n m) = None \<longleftrightarrow>
     json_len e m \<noteq> None \<and> \<not> io_fails e OpWriteFile d (tmp_name n) \<and> \<not> io_fails e OpRename d n"
  by (auto simp: store_write_def Let_def os_write_file_def split: option.splits prod.splits)

lemma store_read_Inr:
  "store_read e s d n = Inr m \<longleftrightarrow> \<not> io_fails e OpRead d n \<and> file_at s d n = Some (JsonMsg m)"
  by (auto simp: store_read_def split: option.splits fcontent.splits)

lemma store_read_cong:
  "file_at s d n = file_at s' d n \<Longrightarrow> store_read e s d n = store_read e s' d n"
  by (simp add: store_read_def)

end
