(* ===== verification/Queue_Capacity.thy ===== *)
theory Queue_Capacity
  imports Queue_Types
begin

text \<open>
  Admission control of the local queue (\<^verbatim>\<open>internal/queue/capacity.go\<close>): the usage scan over
  the pending directories, the low watermark and \<^verbatim>\<open>admit\<close>, which runs under the store's lock
  before every write that adds a pending message.
\<close>

section \<open>Definitions\<close>

definition capacity_enabled :: "capacity_limits \<Rightarrow> bool" where
  "capacity_enabled l \<longleftrightarrow> max_messages l \<noteq> 0 \<or> max_bytes l \<noteq> 0 \<or> min_free_bytes l \<noteq> 0"

text \<open>\<^verbatim>\<open>validate\<close>: \<open>True\<close> for no error\<close>
definition capacity_validate :: "capacity_limits \<Rightarrow> bool" where
  "capacity_validate l \<longleftrightarrow>
     \<not> (max_messages l < 0 \<or> max_bytes l < 0 \<or> min_free_bytes l < 0 \<or> low_percent l < 0 \<or> 100 \<le> low_percent l)"

text \<open>\<^verbatim>\<open>os.ReadDir\<close>: the names in a directory, sorted; a missing directory reads as empty here,
  as all callers treat it.\<close>
definition os_read_dir :: "env \<Rightarrow> store \<Rightarrow> qdir \<Rightarrow> qerror + string list" where
  "os_read_dir e s d =
     (if io_fails e OpReadDir d [] then Inl (ErrIO OpReadDir) else Inr (map fst (files s d)))"

definition pending_dirs :: "qdir list" where
  "pending_dirs = [Inbound, RetryDir, LegacyPending]"

fun usage_entries :: "env \<Rightarrow> store \<Rightarrow> qdir \<Rightarrow> string list \<Rightarrow> int \<times> int \<Rightarrow> qerror + int \<times> int" where
  "usage_entries e s d [] acc = Inr acc"
| "usage_entries e s d (n # ns) (count, bytes) =
     (if \<not> is_json n then usage_entries e s d ns (count, bytes)
      else (case store_read e s d n of
              Inl err \<Rightarrow> Inl err
            | Inr m \<Rightarrow> usage_entries e s d ns (count + 1, bytes + int (length (m_data m)))))"

fun usage_dirs :: "env \<Rightarrow> store \<Rightarrow> qdir list \<Rightarrow> int \<times> int \<Rightarrow> qerror + int \<times> int" where
  "usage_dirs e s [] acc = Inr acc"
| "usage_dirs e s (d # ds) acc =
     (case os_read_dir e s d of
        Inl err \<Rightarrow> Inl err
      | Inr ns \<Rightarrow> (case usage_entries e s d ns acc of
                     Inl err \<Rightarrow> Inl err
                   | Inr acc' \<Rightarrow> usage_dirs e s ds acc'))"

definition usage :: "env \<Rightarrow> store \<Rightarrow> qerror + int \<times> int" where
  "usage e s = usage_dirs e s pending_dirs (0, 0)"

definition effective_low :: "capacity_limits \<Rightarrow> int" where
  "effective_low l = (if low_percent l = 0 then 80 else low_percent l)"

text \<open>The closure \<^verbatim>\<open>below\<close> of \<^verbatim>\<open>admit\<close>, with its order of operations.\<close>
definition below :: "int \<Rightarrow> int \<Rightarrow> int \<Rightarrow> bool" where
  "below low n mx \<longleftrightarrow> mx = 0 \<or> n \<le> mx div 100 * low + mx mod 100 * low div 100"

text \<open>The disk check of \<^verbatim>\<open>admit\<close>; sizes are unsigned.\<close>
definition disk_check :: "env \<Rightarrow> capacity_limits \<Rightarrow> message \<Rightarrow> qerror + bool" where
  "disk_check e l m =
     (if min_free_bytes l > 0 then
        (case free_bytes e of
           None \<Rightarrow> Inl ErrStatfs
         | Some free \<Rightarrow>
             (case json_len e m of
                None \<Rightarrow> Inl ErrEncode
              | Some enc \<Rightarrow> Inr (min_free_bytes l \<le> free \<and> enc \<le> free - min_free_bytes l)))
      else Inr True)"

text \<open>\<^verbatim>\<open>admit\<close>: \<open>None\<close> admits. The flag \<^verbatim>\<open>paused\<close> is the only state it changes.\<close>
definition admit :: "env \<Rightarrow> store \<Rightarrow> message \<Rightarrow> store \<times> qerror option" where
  "admit e s m =
     (let l = limits s in
      if \<not> capacity_enabled l then (s, None)
      else
        (case usage e s of
           Inl err \<Rightarrow> (s, Some err)
         | Inr (count, bytes) \<Rightarrow>
             (let low = effective_low l in
              case disk_check e l m of
                Inl err \<Rightarrow> (s, Some err)
              | Inr disk_ok \<Rightarrow>
                  (let p = (paused s \<and>
                            \<not> (below low count (max_messages l) \<and> below low bytes (max_bytes l) \<and> disk_ok))
                   in if p \<or> (0 < max_messages l \<and> max_messages l \<le> count)
                         \<or> (0 < max_bytes l \<and> max_bytes l - bytes < int (length (m_data m)))
                         \<or> \<not> disk_ok
                      then (s\<lparr>paused := True\<rparr>, Some ErrCapacity)
                      else (s\<lparr>paused := False\<rparr>, None)))))"

section \<open>The low watermark\<close>

text \<open>
  The split product of \<^verbatim>\<open>below\<close> is the floor of \<open>max * low / 100\<close>, and unlike that product
  none of its steps exceeds \<open>max\<close>, so it cannot overflow where the limit fits.
\<close>
lemma watermark_exact:
  fixes mx low :: int
  assumes "0 \<le> mx" "0 \<le> low"
  shows "mx div 100 * low + mx mod 100 * low div 100 = mx * low div 100"
proof -
  have "mx * low = (mx mod 100) * low + 100 * (mx div 100 * low)"
    by (metis distrib_right mod_mult_div_eq mult.assoc)
  then show ?thesis
    using div_mult_self2 [of 100 "(mx mod 100) * low" "mx div 100 * low"] by simp
qed

lemma watermark_steps_bounded:
  fixes mx low :: int
  assumes "0 \<le> mx" "0 \<le> low" "low < 100"
  shows "mx div 100 * low \<in> {0..mx}" "mx mod 100 * low \<in> {0..9801}"
    "mx div 100 * low + mx mod 100 * low div 100 \<in> {0..mx}"
proof -
  have "mx div 100 * low \<le> mx div 100 * 100"
    using assms by (intro mult_left_mono) (auto simp: pos_imp_zdiv_nonneg_iff)
  also have "\<dots> \<le> mx" using assms by simp
  finally show "mx div 100 * low \<in> {0..mx}"
    using assms by (auto simp: pos_imp_zdiv_nonneg_iff)
  have "mx mod 100 * low \<le> 99 * 99"
    using assms by (intro mult_mono) auto
  then show "mx mod 100 * low \<in> {0..9801}" using assms by simp
  have "mx * low div 100 \<le> mx * 100 div 100"
    using assms by (intro zdiv_mono1 mult_left_mono) auto
  then show "mx div 100 * low + mx mod 100 * low div 100 \<in> {0..mx}"
    using assms by (simp add: watermark_exact pos_imp_zdiv_nonneg_iff)
qed

section \<open>What admission guarantees\<close>

text \<open>The messages that a scan of a directory counts.\<close>
definition json_entries :: "store \<Rightarrow> qdir \<Rightarrow> (string \<times> fcontent) list" where
  "json_entries s d = filter (\<lambda>p. is_json (fst p)) (files s d)"

fun content_bytes :: "fcontent \<Rightarrow> int" where
  "content_bytes (JsonMsg m) = int (length (m_data m))"
| "content_bytes _ = 0"

definition pending_count :: "store \<Rightarrow> int" where
  "pending_count s = (\<Sum>d \<leftarrow> pending_dirs. int (length (json_entries s d)))"

definition pending_bytes :: "store \<Rightarrow> int" where
  "pending_bytes s = (\<Sum>d \<leftarrow> pending_dirs. \<Sum>p \<leftarrow> json_entries s d. content_bytes (snd p))"

definition store_wf :: "store \<Rightarrow> bool" where
  "store_wf s \<longleftrightarrow> (\<forall>d. dwf (files s d))"

lemma usage_entries_sound:
  assumes "dwf (files s d)" "set ps \<subseteq> set (files s d)"
    and "usage_entries e s d (map fst ps) (c, b) = Inr (c', b')"
  shows "c' = c + int (length (filter (\<lambda>p. is_json (fst p)) ps)) \<and>
         b' = b + (\<Sum>p \<leftarrow> filter (\<lambda>p. is_json (fst p)) ps. content_bytes (snd p))"
  using assms(2,3)
proof (induction ps arbitrary: c b)
  case (Cons p ps)
  obtain n f where p: "p = (n, f)" by (cases p)
  show ?case
  proof (cases "is_json n")
    case True
    with Cons.prems p obtain m where m: "store_read e s d n = Inr m"
      and rest: "usage_entries e s d (map fst ps) (c + 1, b + int (length (m_data m))) = Inr (c', b')"
      by (auto split: sum.splits)
    have "map_of (files s d) n = Some f"
      using Cons.prems(1) p assms(1) dwf_lookup by force
    with m have "f = JsonMsg m"
      by (simp add: store_read_Inr file_at_def)
    with Cons.IH [OF _ rest] Cons.prems(1) True p show ?thesis by simp
  next
    case False
    with Cons p show ?thesis by simp
  qed
qed simp

lemma usage_dirs_sound:
  assumes "store_wf s" and "usage_dirs e s ds (c, b) = Inr (c', b')"
  shows "c' = c + (\<Sum>d \<leftarrow> ds. int (length (json_entries s d))) \<and>
         b' = b + (\<Sum>d \<leftarrow> ds. \<Sum>p \<leftarrow> json_entries s d. content_bytes (snd p))"
  using assms(2)
proof (induction ds arbitrary: c b)
  case (Cons d ds)
  then obtain c1 b1 where u: "usage_entries e s d (map fst (files s d)) (c, b) = Inr (c1, b1)"
    and rest: "usage_dirs e s ds (c1, b1) = Inr (c', b')"
    by (auto simp: os_read_dir_def split: sum.splits if_splits)
  have "dwf (files s d)" using assms(1) by (simp add: store_wf_def)
  from usage_entries_sound [OF this subset_refl u] Cons.IH [OF rest] show ?case
    by (simp add: json_entries_def)
qed simp

text \<open>A usage scan that succeeds returns the number and the size of the pending messages.\<close>
lemma usage_sound:
  "store_wf s \<Longrightarrow> usage e s = Inr (c, b) \<Longrightarrow> c = pending_count s \<and> b = pending_bytes s"
  using usage_dirs_sound [of s e pending_dirs 0 0 c b]
  by (simp add: usage_def pending_count_def pending_bytes_def)

lemma admit_files [simp]:
  "files (fst (admit e s m)) = files s" "limits (fst (admit e s m)) = limits s"
  by (auto simp: admit_def Let_def split: sum.splits prod.splits)

lemma admit_file_at [simp]: "file_at (fst (admit e s m)) d n = file_at s d n"
  by (simp add: file_at_def)

lemma admit_accepts:
  assumes "admit e s m = (s', None)" and "store_wf s"
  shows "0 < max_messages (limits s) \<longrightarrow> pending_count s < max_messages (limits s)"
    and "0 < max_bytes (limits s) \<longrightarrow> pending_bytes s + int (length (m_data m)) \<le> max_bytes (limits s)"
    and "0 < min_free_bytes (limits s) \<longrightarrow>
           (\<exists>free enc. free_bytes e = Some free \<and> json_len e m = Some enc \<and>
              min_free_bytes (limits s) + enc \<le> free)"
    and "capacity_enabled (limits s) \<Longrightarrow> \<not> paused s'"
proof -
  have all: "(0 < max_messages (limits s) \<longrightarrow> pending_count s < max_messages (limits s)) \<and>
    (0 < max_bytes (limits s) \<longrightarrow> pending_bytes s + int (length (m_data m)) \<le> max_bytes (limits s)) \<and>
    (0 < min_free_bytes (limits s) \<longrightarrow>
           (\<exists>free enc. free_bytes e = Some free \<and> json_len e m = Some enc \<and>
              min_free_bytes (limits s) + enc \<le> free)) \<and>
    (capacity_enabled (limits s) \<longrightarrow> \<not> paused s')"
  proof (cases "capacity_enabled (limits s)")
    case False
    then show ?thesis by (auto simp: capacity_enabled_def)
  next
    case True
    with assms(1) obtain c b where u: "usage e s = Inr (c, b)"
      and d: "disk_check e (limits s) m = Inr True"
      and g: "\<not> (0 < max_messages (limits s) \<and> max_messages (limits s) \<le> c)"
        "\<not> (0 < max_bytes (limits s) \<and> max_bytes (limits s) - b < int (length (m_data m)))"
        "\<not> paused s'"
      by (auto simp: admit_def Let_def split: sum.splits prod.splits if_splits)
    have "c = pending_count s" "b = pending_bytes s"
      using usage_sound [OF assms(2) u] by auto
    with g d show ?thesis
      by (auto simp: disk_check_def split: if_splits option.splits)
  qed
  then show "0 < max_messages (limits s) \<longrightarrow> pending_count s < max_messages (limits s)"
    and "0 < max_bytes (limits s) \<longrightarrow> pending_bytes s + int (length (m_data m)) \<le> max_bytes (limits s)"
    and "0 < min_free_bytes (limits s) \<longrightarrow>
           (\<exists>free enc. free_bytes e = Some free \<and> json_len e m = Some enc \<and>
              min_free_bytes (limits s) + enc \<le> free)"
    and "capacity_enabled (limits s) \<Longrightarrow> \<not> paused s'"
    by blast+
qed

text \<open>Once paused, nothing is admitted before usage is at or below the low watermark.\<close>
lemma admit_hysteresis:
  assumes "paused s" "store_wf s" "capacity_enabled (limits s)"
    and "\<not> below (effective_low (limits s)) (pending_count s) (max_messages (limits s)) \<or>
         \<not> below (effective_low (limits s)) (pending_bytes s) (max_bytes (limits s))"
  shows "snd (admit e s m) \<noteq> None \<and> paused (fst (admit e s m))"
proof (cases "usage e s")
  case (Inr cb)
  obtain c b where cb: "cb = (c, b)" by (cases cb)
  have "c = pending_count s" "b = pending_bytes s"
    using usage_sound [OF assms(2)] Inr cb by auto
  with assms Inr cb show ?thesis
    by (auto simp: admit_def Let_def split: sum.splits)
qed (use assms in \<open>auto simp: admit_def Let_def\<close>)

end
