(* ===== verification/Queue_Store.thy ===== *)
theory Queue_Store
  imports Queue_Capacity
begin

text \<open>
  The operations of the local queue (\<^verbatim>\<open>internal/queue/store.go\<close>, \<^verbatim>\<open>quarantine.go\<close>,
  \<^verbatim>\<open>pause_stats.go\<close>). Each runs under the store's mutex, so a concurrent execution is a
  sequence of these operations. An operation takes the environment of the call and the store
  and returns the store, the message as the caller's pointer sees it afterwards (where the
  operation changes it) and the error, \<open>None\<close> for nil.
\<close>

section \<open>The state of a message\<close>

datatype mstate = StInbound | StRetry | StPending | StSent | StDlq | StQuarantine | StNone

definition state_order :: "(mstate \<times> qdir) list" where
  "state_order = [(StInbound, Inbound), (StRetry, RetryDir), (StPending, LegacyPending),
                  (StSent, Sent), (StDlq, Dlq)]"

fun message_state_in :: "env \<Rightarrow> store \<Rightarrow> string \<Rightarrow> (mstate \<times> qdir) list \<Rightarrow> qerror + mstate" where
  "message_state_in e s i [] = Inr StNone"
| "message_state_in e s i ((st, d) # ps) =
     (if io_fails e OpStat d (json_name i) then Inl (ErrIO OpStat)
      else if file_at s d (json_name i) = None then message_state_in e s i ps
      else if st = StInbound then
        (case store_read e s d (json_name i) of
           Inl err \<Rightarrow> Inl err
         | Inr m \<Rightarrow> Inr (if m_quarantine m \<noteq> None then StQuarantine else st))
      else Inr st)"

text \<open>\<^verbatim>\<open>messageState\<close>\<close>
definition message_state :: "env \<Rightarrow> store \<Rightarrow> string \<Rightarrow> qerror + mstate" where
  "message_state e s i = message_state_in e s i state_order"

text \<open>\<^verbatim>\<open>dirForState\<close>\<close>
definition dir_for_state :: "string \<Rightarrow> qerror + qdir" where
  "dir_for_state state =
     (let st = to_lower (trim_space state) in
      if st = ''inbound'' \<or> st = ''quarantine'' then Inr Inbound
      else if st = ''retry'' then Inr RetryDir
      else if st = ''dlq'' then Inr Dlq
      else if st = ''sent'' then Inr Sent
      else Inl (ErrUnknownState state))"

text \<open>\<^verbatim>\<open>removePendingExcept\<close>: stops at the first removal that fails; a missing file is no failure.\<close>
fun remove_pending_in :: "env \<Rightarrow> store \<Rightarrow> string \<Rightarrow> qdir \<Rightarrow> qdir list \<Rightarrow> store \<times> qerror option" where
  "remove_pending_in e s i ex [] = (s, None)"
| "remove_pending_in e s i ex (d # ds) =
     (if d = ex then remove_pending_in e s i ex ds
      else (let r = os_remove e s d (json_name i) in
            if snd r \<noteq> None \<and> snd r \<noteq> Some ErrNotExist then r
            else remove_pending_in e (fst r) i ex ds))"

definition remove_pending_except :: "env \<Rightarrow> store \<Rightarrow> string \<Rightarrow> qdir \<Rightarrow> store \<times> qerror option" where
  "remove_pending_except e s i ex = remove_pending_in e s i ex pending_dirs"

section \<open>Operations of the delivery worker\<close>

text \<open>\<^verbatim>\<open>Enqueue\<close>: a known identifier is ignored.\<close>
definition enqueue :: "env \<Rightarrow> store \<Rightarrow> message \<Rightarrow> store \<times> message \<times> qerror option" where
  "enqueue e s m =
     (if trim_space (m_id m) = [] then (s, m, Some ErrIdRequired)
      else
        (case message_state e s (m_id m) of
           Inl err \<Rightarrow> (s, m, Some err)
         | Inr st \<Rightarrow>
             if st \<noteq> StNone then (s, m, None)
             else
               (let m' = m\<lparr>created_at := now e, updated_at := now e, next_attempt := now e\<rparr> in
                let a = admit e s m' in
                if snd a \<noteq> None then (fst a, m', snd a)
                else (let w = store_write e (fst a) Inbound (json_name (m_id m)) m'
                      in (fst w, m', snd w)))))"

text \<open>Writing a message into a directory and removing its other pending files: the common tail
  of \<^verbatim>\<open>AckSent\<close>, \<^verbatim>\<open>Retry\<close>, \<^verbatim>\<open>Defer\<close> and \<^verbatim>\<open>Fail\<close>.\<close>
definition move_to :: "env \<Rightarrow> store \<Rightarrow> qdir \<Rightarrow> string \<Rightarrow> message \<Rightarrow> store \<times> qerror option" where
  "move_to e s d i m =
     (let r = store_write e s d (json_name i) m in
      if snd r \<noteq> None then r else remove_pending_except e (fst r) i d)"

definition ack_sent :: "env \<Rightarrow> store \<Rightarrow> string \<Rightarrow> message \<Rightarrow> store \<times> message \<times> qerror option" where
  "ack_sent e s i m =
     (case message_state e s i of
        Inl err \<Rightarrow> (s, m, Some err)
      | Inr StSent \<Rightarrow> (s, m, None)
      | Inr StDlq \<Rightarrow> (s, m, Some ErrInvalidStateTransition)
      | Inr StQuarantine \<Rightarrow> (s, m, Some ErrInvalidStateTransition)
      | Inr StNone \<Rightarrow> (s, m, Some ErrMessageNotFound)
      | Inr _ \<Rightarrow>
          (let m' = m\<lparr>updated_at := now e\<rparr> in
           let r = move_to e s Sent i m' in (fst r, m', snd r)))"

definition retry_msg :: "env \<Rightarrow> store \<Rightarrow> message \<Rightarrow> duration \<Rightarrow> string \<Rightarrow> store \<times> message \<times> qerror option" where
  "retry_msg e s m delay reason =
     (case message_state e s (m_id m) of
        Inl err \<Rightarrow> (s, m, Some err)
      | Inr StSent \<Rightarrow> (s, m, Some ErrInvalidStateTransition)
      | Inr StDlq \<Rightarrow> (s, m, Some ErrInvalidStateTransition)
      | Inr StQuarantine \<Rightarrow> (s, m, Some ErrInvalidStateTransition)
      | Inr StNone \<Rightarrow> (s, m, Some ErrMessageNotFound)
      | Inr _ \<Rightarrow>
          (let m' = m\<lparr>attempts := attempts m + 1, last_error := reason, updated_at := now e,
                      next_attempt := now e + delay\<rparr> in
           let r = move_to e s RetryDir (m_id m) m' in (fst r, m', snd r)))"

definition defer_msg :: "env \<Rightarrow> store \<Rightarrow> message \<Rightarrow> duration \<Rightarrow> store \<times> message \<times> qerror option" where
  "defer_msg e s m delay =
     (case message_state e s (m_id m) of
        Inl err \<Rightarrow> (s, m, Some err)
      | Inr StSent \<Rightarrow> (s, m, Some ErrInvalidStateTransition)
      | Inr StDlq \<Rightarrow> (s, m, Some ErrInvalidStateTransition)
      | Inr StQuarantine \<Rightarrow> (s, m, Some ErrInvalidStateTransition)
      | Inr StNone \<Rightarrow> (s, m, Some ErrMessageNotFound)
      | Inr _ \<Rightarrow>
          (let m' = m\<lparr>updated_at := now e, next_attempt := now e + delay\<rparr> in
           let r = move_to e s RetryDir (m_id m) m' in (fst r, m', snd r)))"

definition fail_msg :: "env \<Rightarrow> store \<Rightarrow> message \<Rightarrow> string \<Rightarrow> store \<times> message \<times> qerror option" where
  "fail_msg e s m reason =
     (case message_state e s (m_id m) of
        Inl err \<Rightarrow> (s, m, Some err)
      | Inr StDlq \<Rightarrow> (s, m, None)
      | Inr StSent \<Rightarrow> (s, m, Some ErrInvalidStateTransition)
      | Inr StQuarantine \<Rightarrow> (s, m, Some ErrInvalidStateTransition)
      | Inr StNone \<Rightarrow> (s, m, Some ErrMessageNotFound)
      | Inr _ \<Rightarrow>
          (let m' = m\<lparr>attempts := attempts m + 1, last_error := reason, updated_at := now e\<rparr> in
           let r = move_to e s Dlq (m_id m) m' in (fst r, m', snd r)))"

section \<open>Due messages\<close>

text \<open>\<^verbatim>\<open>quarantineExpired\<close>\<close>
definition quarantine_expired :: "message \<Rightarrow> time \<Rightarrow> bool" where
  "quarantine_expired m t =
     (case m_quarantine m of
        None \<Rightarrow> False
      | Some q \<Rightarrow> \<not> is_zero (q_expires_at q) \<and> q_expires_at q \<le> t)"

definition poison_name :: "env \<Rightarrow> string \<Rightarrow> string" where
  "poison_name e n = show_int (now e) @ ''_'' @ trim_suffix n ''.json'' @ ''.bad''"

text \<open>\<^verbatim>\<open>quarantinePoison\<close>; the caller ignores its error.\<close>
definition quarantine_poison :: "env \<Rightarrow> store \<Rightarrow> qdir \<Rightarrow> string \<Rightarrow> qerror \<Rightarrow> store" where
  "quarantine_poison e s d n cause =
     (if io_fails e OpPoisonRead d n then s
      else (case file_at s d n of
              None \<Rightarrow> s
            | Some c \<Rightarrow>
                (let w = os_write_file e s Poison (poison_name e n) (PoisonOf cause c) in
                 if snd w \<noteq> None then fst w else fst (os_remove e (fst w) d n))))"

text \<open>The loop of \<^verbatim>\<open>dueFromDir\<close> over the entries read at its start.\<close>
fun due_entries :: "env \<Rightarrow> store \<Rightarrow> qdir \<Rightarrow> string list \<Rightarrow> message list \<Rightarrow> store \<times> (qerror + message list)" where
  "due_entries e s d [] acc = (s, Inr acc)"
| "due_entries e s d (n # ns) acc =
     (if \<not> is_json n then due_entries e s d ns acc
      else (case store_read e s d n of
              Inl err \<Rightarrow> due_entries e (quarantine_poison e s d n err) d ns acc
            | Inr m \<Rightarrow>
                if quarantine_expired m (now e) then
                  (let r = os_remove e s d n in
                   case snd r of
                     Some err \<Rightarrow> (fst r, Inl err)
                   | None \<Rightarrow> due_entries e (fst r) d ns acc)
                else if m_quarantine m \<noteq> None then due_entries e s d ns acc
                else if now e < next_attempt m then due_entries e s d ns acc
                else due_entries e s d ns (acc @ [m])))"

definition due_from_dir :: "env \<Rightarrow> store \<Rightarrow> qdir \<Rightarrow> store \<times> (qerror + message list)" where
  "due_from_dir e s d =
     (case os_read_dir e s d of
        Inl err \<Rightarrow> (s, Inl err)
      | Inr ns \<Rightarrow> due_entries e s d ns [])"

fun due_dirs :: "env \<Rightarrow> store \<Rightarrow> qdir list \<Rightarrow> message list \<Rightarrow> store \<times> (qerror + message list)" where
  "due_dirs e s [] out = (s, Inr out)"
| "due_dirs e s (d # ds) out =
     (let r = due_from_dir e s d in
      case snd r of
        Inl err \<Rightarrow> (fst r, Inl err)
      | Inr ms \<Rightarrow> due_dirs e (fst r) ds (out @ ms))"

text \<open>\<^verbatim>\<open>Due\<close>. Go's \<^verbatim>\<open>sort.Slice\<close> leaves the order of messages with equal \<^verbatim>\<open>NextAttempt\<close>
  open; here they keep the order of the scan.\<close>
definition due :: "env \<Rightarrow> store \<Rightarrow> nat \<Rightarrow> store \<times> (qerror + message list)" where
  "due e s limit =
     (let r = due_dirs e s pending_dirs [] in
      case snd r of
        Inl err \<Rightarrow> (fst r, Inl err)
      | Inr out \<Rightarrow> (fst r, Inr (take limit (sort_key next_attempt out))))"

section \<open>Operations of the administrator\<close>

text \<open>\<^verbatim>\<open>filepath.Base\<close>\<close>
definition path_base :: "string \<Rightarrow> string" where
  "path_base p =
     (if p = [] then ''.''
      else (let q = trim_right (\<lambda>c. c = CHR ''/'') p in
            if q = [] then ''/'' else last (split_on CHR ''/'' q)))"

definition bad_id :: "string \<Rightarrow> bool" where
  "bad_id i \<longleftrightarrow> i = [] \<or> path_base i \<noteq> i \<or> contains_any i [CHR ''/'', CHR 0x5C]"

fun list_entries :: "env \<Rightarrow> store \<Rightarrow> qdir \<Rightarrow> bool \<Rightarrow> string list \<Rightarrow> qerror + message list" where
  "list_entries e s d wantq [] = Inr []"
| "list_entries e s d wantq (n # ns) =
     (if \<not> is_json n then list_entries e s d wantq ns
      else (case store_read e s d n of
              Inl err \<Rightarrow> Inl err
            | Inr m \<Rightarrow>
                (case list_entries e s d wantq ns of
                   Inl err \<Rightarrow> Inl err
                 | Inr ms \<Rightarrow> Inr (if wantq \<noteq> (m_quarantine m \<noteq> None) then ms else m # ms))))"

text \<open>\<^verbatim>\<open>ListState\<close>: newest first. The filter compares the state as the caller wrote it.\<close>
definition list_state :: "env \<Rightarrow> store \<Rightarrow> string \<Rightarrow> nat \<Rightarrow> qerror + message list" where
  "list_state e s state limit =
     (case dir_for_state state of
        Inl err \<Rightarrow> Inl err
      | Inr d \<Rightarrow>
          (case os_read_dir e s d of
             Inl err \<Rightarrow> Inl err
           | Inr ns \<Rightarrow>
               (case list_entries e s d (state = ''quarantine'') ns of
                  Inl err \<Rightarrow> Inl err
                | Inr ms \<Rightarrow>
                    (let out = sort_key (\<lambda>m. - updated_at m) ms
                     in Inr (if 0 < limit then take limit out else out)))))"

text \<open>\<^verbatim>\<open>RequeueFromState\<close>; the time is an argument of the call.\<close>
definition requeue_from_state :: "env \<Rightarrow> store \<Rightarrow> string \<Rightarrow> string \<Rightarrow> time \<Rightarrow> store \<times> (qerror + message)" where
  "requeue_from_state e s state0 i t =
     (if bad_id i then (s, Inl ErrMessageNotFound)
      else
        (let state = to_lower (trim_space state0) in
         case dir_for_state state of
           Inl err \<Rightarrow> (s, Inl err)
         | Inr d \<Rightarrow>
             (case store_read e s d (json_name i) of
                Inl err \<Rightarrow> (s, Inl (if err = ErrNotExist then ErrMessageNotFound else err))
              | Inr m \<Rightarrow>
                  if (state = ''quarantine'') \<noteq> (m_quarantine m \<noteq> None)
                  then (s, Inl ErrInvalidStateTransition)
                  else if quarantine_expired m t then (s, Inl ErrInvalidStateTransition)
                  else
                    (let m' = m\<lparr>m_quarantine := None, updated_at := t, next_attempt := t\<rparr>;
                         a = (if d = Sent \<or> d = Dlq then admit e s m' else (s, None))
                     in case snd a of
                          Some err \<Rightarrow> (fst a, Inl err)
                        | None \<Rightarrow>
                            (let w = store_write e (fst a) Inbound (json_name i) m' in
                             case snd w of
                               Some err \<Rightarrow> (fst w, Inl err)
                             | None \<Rightarrow>
                                 if d = Inbound then (fst w, Inr m')
                                 else (let r = os_remove e (fst w) d (json_name i) in
                                       case snd r of
                                         None \<Rightarrow> (fst r, Inr m')
                                       | Some err \<Rightarrow>
                                           (fst r, if err = ErrNotExist then Inr m' else Inl err)))))))"

text \<open>\<^verbatim>\<open>DeleteQuarantined\<close>\<close>
definition delete_quarantined :: "env \<Rightarrow> store \<Rightarrow> string \<Rightarrow> bool \<Rightarrow> store \<times> qerror option" where
  "delete_quarantined e s i dry_run =
     (if bad_id i then (s, Some ErrMessageNotFound)
      else
        (case store_read e s Inbound (json_name i) of
           Inl err \<Rightarrow> (s, Some (if err = ErrNotExist then ErrMessageNotFound else err))
         | Inr m \<Rightarrow>
             if m_quarantine m = None then (s, Some ErrInvalidStateTransition)
             else if dry_run then (s, None)
             else os_remove e s Inbound (json_name i)))"

section \<open>Pause statistics\<close>

fun pause_entries :: "env \<Rightarrow> store \<Rightarrow> qdir \<Rightarrow> (string \<Rightarrow> bool) \<Rightarrow> time \<Rightarrow> string list \<Rightarrow> int \<times> duration
    \<Rightarrow> qerror + int \<times> duration" where
  "pause_entries e s d held t [] acc = Inr acc"
| "pause_entries e s d held t (n # ns) (count, oldest) =
     (if \<not> is_json n then pause_entries e s d held t ns (count, oldest)
      else (case store_read e s d n of
              Inl err \<Rightarrow> Inl err
            | Inr m \<Rightarrow>
                if m_quarantine m \<noteq> None then pause_entries e s d held t ns (count, oldest)
                else if list_ex (\<lambda>r. held (domain_or_empty r)) (rcpt_to m) then
                  pause_entries e s d held t ns
                    (count + 1,
                     if is_zero (created_at m) then oldest
                     else max oldest (time_sub t (created_at m)))
                else pause_entries e s d held t ns (count, oldest)))"

fun pause_dirs :: "env \<Rightarrow> store \<Rightarrow> qdir list \<Rightarrow> (string \<Rightarrow> bool) \<Rightarrow> time \<Rightarrow> int \<times> duration
    \<Rightarrow> qerror + int \<times> duration" where
  "pause_dirs e s [] held t acc = Inr acc"
| "pause_dirs e s (d # ds) held t acc =
     (case os_read_dir e s d of
        Inl err \<Rightarrow> Inl err
      | Inr ns \<Rightarrow> (case pause_entries e s d held t ns acc of
                     Inl err \<Rightarrow> Inl err
                   | Inr acc' \<Rightarrow> pause_dirs e s ds held t acc'))"

text \<open>\<^verbatim>\<open>PauseStats\<close>\<close>
definition pause_stats :: "env \<Rightarrow> store \<Rightarrow> (string \<Rightarrow> bool) \<Rightarrow> time \<Rightarrow> qerror + int \<times> duration" where
  "pause_stats e s held t = pause_dirs e s pending_dirs held t (0, 0)"

end
