(* ===== verification/Queue_Effects.thy ===== *)
theory Queue_Effects
  imports Queue_Store
begin

text \<open>
  What the queue operations do to the files, under every environment: which files can change,
  that directories stay sorted, and that no operation but an expiry, an administrator's delete
  or a move to the poison directory takes away the last file of a message.
\<close>

section \<open>Directories stay sorted\<close>

lemma wf_put [simp, intro]: "store_wf s \<Longrightarrow> store_wf (fs_put s d n c)"
  by (simp add: store_wf_def fs_put_def)

lemma wf_del [simp, intro]: "store_wf s \<Longrightarrow> store_wf (fs_del s d n)"
  by (simp add: store_wf_def fs_del_def)

lemma wf_remove [simp, intro]: "store_wf s \<Longrightarrow> store_wf (fst (os_remove e s d n))"
  by (simp add: os_remove_def)

lemma wf_write_file [simp, intro]: "store_wf s \<Longrightarrow> store_wf (fst (os_write_file e s d n c))"
  by (simp add: os_write_file_def)

lemma wf_write [simp, intro]: "store_wf s \<Longrightarrow> store_wf (fst (store_write e s d n m))"
  by (auto simp: store_write_def Let_def split: option.splits)

lemma wf_admit [simp, intro]: "store_wf s \<Longrightarrow> store_wf (fst (admit e s m))"
  by (simp add: store_wf_def)

lemma wf_poison [simp, intro]: "store_wf s \<Longrightarrow> store_wf (quarantine_poison e s d n c)"
  by (auto simp: quarantine_poison_def Let_def split: option.splits)

lemma wf_remove_pending [simp, intro]:
  "store_wf s \<Longrightarrow> store_wf (fst (remove_pending_in e s i ex ds))"
  by (induction ds arbitrary: s) (auto simp: Let_def)

lemma wf_move_to [simp, intro]: "store_wf s \<Longrightarrow> store_wf (fst (move_to e s d i m))"
  by (auto simp: move_to_def Let_def remove_pending_except_def)

lemma wf_due_entries [simp, intro]: "store_wf s \<Longrightarrow> store_wf (fst (due_entries e s d ns acc))"
  by (induction e s d ns acc rule: due_entries.induct) (auto simp: Let_def split: sum.splits option.splits)

lemma wf_due_from_dir [simp, intro]: "store_wf s \<Longrightarrow> store_wf (fst (due_from_dir e s d))"
  by (auto simp: due_from_dir_def split: sum.splits)

lemma wf_due_dirs [simp, intro]: "store_wf s \<Longrightarrow> store_wf (fst (due_dirs e s ds out))"
  by (induction e s ds out rule: due_dirs.induct) (auto simp: Let_def split: sum.splits)

section \<open>Removing the other pending files\<close>

lemma remove_pending_other:
  "n \<noteq> json_name i \<or> d = ex \<or> d \<notin> set ds \<Longrightarrow>
     file_at (fst (remove_pending_in e s i ex ds)) d n = file_at s d n"
  by (induction ds arbitrary: s) (auto simp: Let_def os_remove_file_at)

lemma remove_pending_none_new:
  "file_at (fst (remove_pending_in e s i ex ds)) d n = Some c \<Longrightarrow> file_at s d n = Some c"
proof (induction ds arbitrary: s)
  case (Cons d' ds)
  let ?r = "os_remove e s d' (json_name i)"
  have "file_at (fst ?r) d n = Some c \<Longrightarrow> file_at s d n = Some c"
    by (simp add: os_remove_file_at split: if_splits)
  then show ?case
    using Cons.prems Cons.IH [of s] Cons.IH [of "fst ?r"]
    by (simp add: Let_def split: if_splits)
qed simp

lemma os_remove_gone:
  "snd (os_remove e s d n) = None \<or> snd (os_remove e s d n) = Some ErrNotExist \<Longrightarrow>
     file_at (fst (os_remove e s d n)) d n = None"
  by (auto simp: os_remove_def split: if_splits)

lemma remove_pending_done:
  "snd (remove_pending_in e s i ex ds) = None \<Longrightarrow> d \<in> set ds \<Longrightarrow> d \<noteq> ex \<Longrightarrow>
     file_at (fst (remove_pending_in e s i ex ds)) d (json_name i) = None"
proof (induction ds arbitrary: s)
  case (Cons d' ds)
  show ?case
  proof (cases "d' = ex")
    case True
    with Cons show ?thesis by auto
  next
    case False
    let ?r = "os_remove e s d' (json_name i)"
    have ok: "snd ?r = None \<or> snd ?r = Some ErrNotExist"
      using Cons.prems(1) False by (auto simp: Let_def split: if_splits)
    then have tail: "remove_pending_in e s i ex (d' # ds) = remove_pending_in e (fst ?r) i ex ds"
      using False by (auto simp: Let_def)
    have "file_at (fst (remove_pending_in e (fst ?r) i ex ds)) d' (json_name i) = None"
      using remove_pending_none_new [of e "fst ?r" i ex ds d' "json_name i"] os_remove_gone [OF ok]
      by (metis not_None_eq)
    moreover have "file_at (fst (remove_pending_in e (fst ?r) i ex ds)) d (json_name i) = None"
      if "d \<noteq> d'"
      using Cons.IH [of "fst ?r"] Cons.prems that by (simp only: tail) auto
    ultimately show ?thesis by (metis tail)
  qed
qed simp

lemma remove_pending_ok:
  "(\<forall>d n. \<not> io_fails e OpRemove d n) \<Longrightarrow> snd (remove_pending_in e s i ex ds) = None"
  by (induction ds arbitrary: s) (auto simp: Let_def os_remove_def)

lemma remove_pending_limits [simp]: "limits (fst (remove_pending_in e s i ex ds)) = limits s"
  by (induction ds arbitrary: s) (auto simp: Let_def)

lemma remove_pending_paused [simp]: "paused (fst (remove_pending_in e s i ex ds)) = paused s"
  by (induction ds arbitrary: s) (auto simp: Let_def)

section \<open>Moving a message\<close>

lemma move_to_other:
  assumes "is_json n" "n \<noteq> json_name i"
  shows "file_at (fst (move_to e s d i m)) d' n = file_at s d' n"
  using assms
  by (simp add: move_to_def Let_def remove_pending_except_def remove_pending_other store_write_file_at)

lemma move_to_target:
  "snd (store_write e s d (json_name i) m) = None \<Longrightarrow>
     file_at (fst (move_to e s d i m)) d (json_name i) = Some (JsonMsg m)"
  by (simp add: move_to_def Let_def remove_pending_except_def remove_pending_other store_write_file_at)

lemma move_to_unwritten:
  "snd (store_write e s d (json_name i) m) \<noteq> None \<Longrightarrow> is_json n \<Longrightarrow>
     file_at (fst (move_to e s d i m)) d' n = file_at s d' n"
  by (auto simp: move_to_def Let_def store_write_file_at)

lemma move_to_nonpending:
  "d' \<notin> set pending_dirs \<Longrightarrow> d' \<noteq> d \<Longrightarrow> is_json n \<Longrightarrow>
     file_at (fst (move_to e s d i m)) d' n = file_at s d' n"
  by (simp add: move_to_def Let_def remove_pending_except_def remove_pending_other store_write_file_at)

lemma move_to_done:
  assumes "snd (move_to e s d i m) = None"
  shows "file_at (fst (move_to e s d i m)) d (json_name i) = Some (JsonMsg m)"
    and "d' \<in> set pending_dirs \<Longrightarrow> d' \<noteq> d \<Longrightarrow>
           file_at (fst (move_to e s d i m)) d' (json_name i) = None"
proof -
  have w: "snd (store_write e s d (json_name i) m) = None"
    using assms by (auto simp: move_to_def Let_def split: if_splits)
  then show "file_at (fst (move_to e s d i m)) d (json_name i) = Some (JsonMsg m)"
    by (rule move_to_target)
  show "file_at (fst (move_to e s d i m)) d' (json_name i) = None"
    if "d' \<in> set pending_dirs" "d' \<noteq> d"
    using assms w that by (simp add: move_to_def Let_def remove_pending_except_def remove_pending_done)
qed

lemma move_to_frame [simp]:
  "limits (fst (move_to e s d i m)) = limits s" "paused (fst (move_to e s d i m)) = paused s"
  by (simp_all add: move_to_def Let_def remove_pending_except_def)

end
