(* ===== verification/Queue_Safety.thy ===== *)
theory Queue_Safety
  imports Queue_Effects
begin

text \<open>
  Safety of the local queue under every failure of its system calls: the step relation of a
  store shared by concurrent callers, the invariant that directories stay sorted, and the fact
  that a message the queue holds stays in it unless its undecodable file was copied to the
  poison directory, its quarantine expired, or an administrator deleted it from quarantine.
\<close>

definition live_dirs :: "qdir list" where
  "live_dirs = [Inbound, RetryDir, LegacyPending, Sent, Dlq]"

definition held :: "store \<Rightarrow> string \<Rightarrow> bool" where
  "held s i \<longleftrightarrow> (\<exists>d \<in> set live_dirs. file_at s d (json_name i) \<noteq> None)"

text \<open>How a scan for due messages may end the life of a message of \<open>s0\<close>.\<close>
definition accounted :: "env \<Rightarrow> store \<Rightarrow> store \<Rightarrow> string \<Rightarrow> bool" where
  "accounted e s0 s i \<longleftrightarrow>
     (\<exists>d \<in> set live_dirs. \<exists>c. file_at s0 d (json_name i) = Some c \<and>
        ((\<exists>cause. file_at s Poison (poison_name e (json_name i)) = Some (PoisonOf cause c)) \<or>
         (\<exists>m. c = JsonMsg m \<and> quarantine_expired m (now e))))"

definition due_rel :: "env \<Rightarrow> store \<Rightarrow> store \<Rightarrow> bool" where
  "due_rel e s0 s \<longleftrightarrow>
     (\<forall>d \<in> set live_dirs. \<forall>i c. file_at s d (json_name i) = Some c \<longrightarrow> file_at s0 d (json_name i) = Some c) \<and>
     (\<forall>i. held s0 i \<longrightarrow> held s i \<or> accounted e s0 s i)"

lemma pending_live: "d \<in> set pending_dirs \<Longrightarrow> d \<in> set live_dirs"
  by (auto simp: pending_dirs_def live_dirs_def)

lemma Poison_not_live [simp]: "Poison \<notin> set live_dirs"
  by (simp add: live_dirs_def)

lemma live_simps [simp]: "Inbound \<in> set live_dirs" "RetryDir \<in> set live_dirs"
  "LegacyPending \<in> set live_dirs" "Sent \<in> set live_dirs" "Dlq \<in> set live_dirs"
  by (simp_all add: live_dirs_def)

lemma due_rel_refl: "due_rel e s s"
  by (simp add: due_rel_def)

lemma poison_name_inject [simp]:
  "poison_name e (json_name i) = poison_name e (json_name j) \<longleftrightarrow> i = j"
  by (simp add: poison_name_def trim_suffix_def json_name_def)

text \<open>Removing one file: every other message is untouched.\<close>
lemma held_del_other: "i \<noteq> j \<Longrightarrow> held (fs_del s d (json_name j)) i = held s i"
  by (simp add: held_def)

lemma held_remove_other: "i \<noteq> j \<Longrightarrow> held (fst (os_remove e s d (json_name j))) i = held s i"
  by (simp add: os_remove_def held_del_other)

lemma held_put_other: "d \<notin> set live_dirs \<Longrightarrow> held (fs_put s d n c) i = held s i"
  by (auto simp: held_def)

lemma due_rel_poison:
  assumes rel: "due_rel e s0 s" and d: "d \<in> set live_dirs"
  shows "due_rel e s0 (quarantine_poison e s d (json_name j) err)"
proof (cases "io_fails e OpPoisonRead d (json_name j) \<or> file_at s d (json_name j) = None")
  case True
  then show ?thesis using rel by (auto simp: quarantine_poison_def split: option.splits)
next
  case False
  then obtain c where c: "file_at s d (json_name j) = Some c" by auto
  have c0: "file_at s0 d (json_name j) = Some c" using rel d c by (auto simp: due_rel_def)
  let ?pn = "poison_name e (json_name j)"
  have nP: "d \<noteq> Poison" using d by auto
  show ?thesis
  proof (cases "io_fails e OpWriteFile Poison ?pn")
    case True
    then have q: "quarantine_poison e s d (json_name j) err = fs_put s Poison ?pn (Raw [])"
      using False c by (simp add: quarantine_poison_def os_write_file_def)
    have "held (fs_put s Poison ?pn (Raw [])) j"
      using c d nP by (auto simp: held_def)
    then show ?thesis
      using rel unfolding q
      by (auto simp: due_rel_def accounted_def held_put_other split: if_splits)
  next
    case wok: False
    let ?s1 = "fs_put s Poison ?pn (PoisonOf err c)"
    have q: "quarantine_poison e s d (json_name j) err = fst (os_remove e ?s1 d (json_name j))"
      using False c wok by (simp add: quarantine_poison_def os_write_file_def)
    have sub: "file_at (fst (os_remove e ?s1 d (json_name j))) d' (json_name i) = Some c' \<Longrightarrow>
        d' \<in> set live_dirs \<Longrightarrow> file_at s0 d' (json_name i) = Some c'" for d' i c'
      using rel by (auto simp: os_remove_file_at due_rel_def split: if_splits)
    have pj: "file_at (fst (os_remove e ?s1 d (json_name j))) Poison ?pn = Some (PoisonOf err c)"
      using nP by (simp add: os_remove_file_at)
    have "accounted e s0 (fst (os_remove e ?s1 d (json_name j))) j"
      unfolding accounted_def using d c0 pj by blast
    moreover have "held s0 i \<Longrightarrow> i \<noteq> j \<Longrightarrow>
        held (fst (os_remove e ?s1 d (json_name j))) i \<or> accounted e s0 (fst (os_remove e ?s1 d (json_name j))) i" for i
      using rel nP
      by (auto simp: due_rel_def accounted_def held_remove_other held_put_other os_remove_file_at)
    ultimately show ?thesis
      unfolding q due_rel_def using sub by blast
  qed
qed

lemma due_rel_expire:
  assumes rel: "due_rel e s0 s" and d: "d \<in> set live_dirs"
    and m: "file_at s d (json_name j) = Some (JsonMsg m)" "quarantine_expired m (now e)"
  shows "due_rel e s0 (fst (os_remove e s d (json_name j)))"
proof -
  have nP: "d \<noteq> Poison" using d by auto
  have "file_at s0 d (json_name j) = Some (JsonMsg m)" using rel d m by (auto simp: due_rel_def)
  then have "accounted e s0 (fst (os_remove e s d (json_name j))) j"
    unfolding accounted_def using d m(2) by blast
  moreover have "held s0 i \<Longrightarrow> i \<noteq> j \<Longrightarrow>
      held (fst (os_remove e s d (json_name j))) i \<or> accounted e s0 (fst (os_remove e s d (json_name j))) i" for i
    using rel nP by (auto simp: due_rel_def accounted_def held_remove_other os_remove_file_at)
  moreover have "file_at (fst (os_remove e s d (json_name j))) d' (json_name i) = Some c' \<Longrightarrow>
      d' \<in> set live_dirs \<Longrightarrow> file_at s0 d' (json_name i) = Some c'" for d' i c'
    using rel by (auto simp: os_remove_file_at due_rel_def split: if_splits)
  ultimately show ?thesis unfolding due_rel_def by blast
qed

lemma due_rel_entries:
  "due_rel e s0 s \<Longrightarrow> d \<in> set live_dirs \<Longrightarrow> due_rel e s0 (fst (due_entries e s d ns acc))"
proof (induction ns arbitrary: s acc)
  case (Cons n ns)
  show ?case
  proof (cases "is_json n")
    case False
    with Cons show ?thesis by simp
  next
    case True
    then obtain j where n: "n = json_name j" by (auto simp: is_json_iff)
    show ?thesis
    proof (cases "store_read e s d n")
      case (Inl err)
      then show ?thesis
        using Cons.IH [OF due_rel_poison [OF Cons.prems, of j err] Cons.prems(2)] True n by simp
    next
      case (Inr m)
      then have "file_at s d (json_name j) = Some (JsonMsg m)" using n by (simp add: store_read_Inr)
      then show ?thesis
        using Inr True n Cons.IH Cons.prems due_rel_expire [OF Cons.prems, of j m]
        by (auto simp: Let_def split: option.splits)
    qed
  qed
qed simp

lemma due_rel_dirs:
  "due_rel e s0 s \<Longrightarrow> set ds \<subseteq> set live_dirs \<Longrightarrow> due_rel e s0 (fst (due_dirs e s ds out))"
proof (induction ds arbitrary: s out)
  case (Cons d ds)
  have "due_rel e s0 (fst (due_from_dir e s d))"
    using Cons.prems due_rel_entries by (auto simp: due_from_dir_def split: sum.splits)
  with Cons show ?case by (auto simp: Let_def split: sum.splits)
qed simp

lemma due_due_rel: "due_rel e s (fst (due e s limit))"
proof -
  have "set pending_dirs \<subseteq> set live_dirs" by (auto simp: pending_live)
  from due_rel_dirs [OF due_rel_refl this, of e s "[]"] show ?thesis
    by (auto simp: due_def Let_def split: sum.splits)
qed

section \<open>The other operations keep every message\<close>

lemma held_admit [simp]: "held (fst (admit e s m)) i = held s i"
  by (simp add: held_def)

lemma held_write: "d \<in> set live_dirs \<Longrightarrow> held s i \<Longrightarrow> held (fst (store_write e s d n m)) i"
  by (auto simp: held_def store_write_file_at)

lemma held_move_to:
  assumes "d \<in> set live_dirs" "held s i"
  shows "held (fst (move_to e s d j m)) i"
proof (cases "snd (store_write e s d (json_name j) m) = None \<and> i = j")
  case True
  then have "file_at (fst (move_to e s d j m)) d (json_name i) \<noteq> None"
    by (simp add: move_to_target)
  with assms(1) show ?thesis by (auto simp: held_def)
next
  case False
  then have "file_at (fst (move_to e s d j m)) d' (json_name i) = file_at s d' (json_name i)" for d'
    by (cases "i = j") (simp_all add: move_to_unwritten move_to_other)
  with assms(2) show ?thesis by (simp add: held_def)
qed

lemma held_enqueue: "held s i \<Longrightarrow> held (fst (enqueue e s m)) i"
  by (auto simp: enqueue_def Let_def held_write split: sum.splits)

lemma held_ack_sent: "held s i \<Longrightarrow> held (fst (ack_sent e s j m)) i"
  by (auto simp: ack_sent_def Let_def held_move_to split: sum.splits mstate.splits)

lemma held_retry: "held s i \<Longrightarrow> held (fst (retry_msg e s m dl r)) i"
  by (auto simp: retry_msg_def Let_def held_move_to split: sum.splits mstate.splits)

lemma held_defer: "held s i \<Longrightarrow> held (fst (defer_msg e s m dl)) i"
  by (auto simp: defer_msg_def Let_def held_move_to split: sum.splits mstate.splits)

lemma held_fail: "held s i \<Longrightarrow> held (fst (fail_msg e s m r)) i"
  by (auto simp: fail_msg_def Let_def held_move_to split: sum.splits mstate.splits)

lemma held_write_remove:
  assumes "snd (store_write e s Inbound (json_name j) m) = None" "d \<noteq> Inbound" "held s i"
  shows "held (fst (os_remove e (fst (store_write e s Inbound (json_name j) m)) d (json_name j))) i"
proof (cases "i = j")
  case True
  have "file_at (fst (os_remove e (fst (store_write e s Inbound (json_name j) m)) d (json_name j)))
      Inbound (json_name i) \<noteq> None"
    using assms True by (simp add: store_write_file_at)
  then show ?thesis by (auto simp: held_def)
next
  case False
  then show ?thesis using assms(3) by (simp add: held_remove_other held_write)
qed

lemma held_requeue: "held s i \<Longrightarrow> held (fst (requeue_from_state e s st j t)) i"
  by (auto simp: requeue_from_state_def Let_def held_write held_write_remove
           split: sum.splits option.splits)

lemma held_delete_quarantined:
  assumes "held s i" "\<not> held (fst (delete_quarantined e s j dry)) i"
  shows "i = j \<and> \<not> dry \<and> (\<exists>m. file_at s Inbound (json_name i) = Some (JsonMsg m) \<and> m_quarantine m \<noteq> None)"
proof -
  from assms obtain m where m: "store_read e s Inbound (json_name j) = Inr m"
      "m_quarantine m \<noteq> None" "\<not> dry"
    and gone: "\<not> held (fst (os_remove e s Inbound (json_name j))) i"
    by (auto simp: delete_quarantined_def split: sum.splits if_splits)
  have "i = j" using gone assms(1) held_remove_other by blast
  with m show ?thesis by (auto simp: store_read_Inr)
qed

section \<open>The step relation\<close>

datatype qop =
    QEnqueue message
  | QAckSent string message
  | QRetry message duration string
  | QDefer message duration
  | QFail message string
  | QDue nat
  | QRequeue string string time
  | QDeleteQuarantined string bool

inductive qstep :: "env \<Rightarrow> qop \<Rightarrow> store \<Rightarrow> store \<Rightarrow> bool" where
  q_enqueue: "qstep e (QEnqueue m) s (fst (enqueue e s m))"
| q_ack: "qstep e (QAckSent i m) s (fst (ack_sent e s i m))"
| q_retry: "qstep e (QRetry m dl r) s (fst (retry_msg e s m dl r))"
| q_defer: "qstep e (QDefer m dl) s (fst (defer_msg e s m dl))"
| q_fail: "qstep e (QFail m r) s (fst (fail_msg e s m r))"
| q_due: "qstep e (QDue l) s (fst (due e s l))"
| q_requeue: "qstep e (QRequeue st i t) s (fst (requeue_from_state e s st i t))"
| q_delete: "qstep e (QDeleteQuarantined i dry) s (fst (delete_quarantined e s i dry))"

inductive qrun :: "store \<Rightarrow> store \<Rightarrow> bool" where
  qrun_refl: "qrun s s"
| qrun_step: "qrun s s' \<Longrightarrow> qstep e op s' s'' \<Longrightarrow> qrun s s''"

text \<open>The three ways a message may leave the queue in one step.\<close>
definition leaves :: "env \<Rightarrow> qop \<Rightarrow> store \<Rightarrow> store \<Rightarrow> string \<Rightarrow> bool" where
  "leaves e op s s' i \<longleftrightarrow>
     ((\<exists>l. op = QDue l) \<and> accounted e s s' i) \<or>
     (op = QDeleteQuarantined i False \<and>
        (\<exists>m. file_at s Inbound (json_name i) = Some (JsonMsg m) \<and> m_quarantine m \<noteq> None))"

lemma qstep_held: "qstep e op s s' \<Longrightarrow> held s i \<Longrightarrow> held s' i \<or> leaves e op s s' i"
proof (induction rule: qstep.induct)
  case (q_due e l s)
  then show ?case using due_due_rel [of e s l] by (auto simp: due_rel_def leaves_def)
next
  case (q_delete e j dry s)
  then show ?case using held_delete_quarantined [of s i e j dry] by (auto simp: leaves_def)
qed (auto intro: held_enqueue held_ack_sent held_retry held_defer held_fail held_requeue)

lemma qrun_held:
  "qrun s s' \<Longrightarrow> held s i \<Longrightarrow>
     held s' i \<or> (\<exists>e op s1 s2. qrun s s1 \<and> qstep e op s1 s2 \<and> qrun s2 s' \<and> held s1 i \<and> leaves e op s1 s2 i)"
proof (induction rule: qrun.induct)
  case (qrun_step s s' e op s'')
  from qrun_step.IH [OF qrun_step.prems] show ?case
  proof
    assume "held s' i"
    from qstep_held [OF qrun_step.hyps(2) this] show ?thesis
      using qrun_step.hyps \<open>held s' i\<close> qrun_refl by blast
  next
    assume "\<exists>e op s1 s2. qrun s s1 \<and> qstep e op s1 s2 \<and> qrun s2 s' \<and> held s1 i \<and> leaves e op s1 s2 i"
    then show ?thesis using qrun_step.hyps(2) qrun.qrun_step by metis
  qed
qed simp

lemma qstep_wf: "qstep e op s s' \<Longrightarrow> store_wf s \<Longrightarrow> store_wf s'"
proof (induction rule: qstep.induct)
  case (q_due e l s)
  then have "store_wf (fst (due_dirs e s pending_dirs []))" by simp
  then show ?case by (auto simp: due_def Let_def split: sum.splits)
next
  case (q_requeue e st i t s)
  then show ?case
    by (auto simp: requeue_from_state_def Let_def split: sum.splits option.splits)
next
  case (q_delete e i dry s)
  then show ?case by (auto simp: delete_quarantined_def split: sum.splits)
qed (auto simp: enqueue_def ack_sent_def retry_msg_def defer_msg_def fail_msg_def Let_def
          split: sum.splits mstate.splits)

lemma qrun_wf: "qrun s s' \<Longrightarrow> store_wf s \<Longrightarrow> store_wf s'"
  by (induction rule: qrun.induct) (auto intro: qstep_wf)

end
