(* ===== verification/Queue_Refinement.thy ===== *)
theory Queue_Refinement
  imports Queue_Safety
begin

text \<open>
  The life cycle of a message as an abstract state, and the proof that the worker's operations on the store, when
  no system call fails, change it as their specification says: every file of a message is in one directory, and
  the directory is the abstract state.
\<close>

section \<open>The abstract states\<close>

type_synonym aqueue = "string \<Rightarrow> mstate"

definition pending_states :: "mstate set" where
  "pending_states = {StInbound, StRetry, StPending}"

text \<open>The outcome the worker's operations promise for the state they find.\<close>
fun spec_ack :: "mstate \<Rightarrow> mstate \<times> qerror option" where
  "spec_ack StSent = (StSent, None)"
| "spec_ack StDlq = (StDlq, Some ErrInvalidStateTransition)"
| "spec_ack StQuarantine = (StQuarantine, Some ErrInvalidStateTransition)"
| "spec_ack StNone = (StNone, Some ErrMessageNotFound)"
| "spec_ack _ = (StSent, None)"

fun spec_retry :: "mstate \<Rightarrow> mstate \<times> qerror option" where
  "spec_retry StSent = (StSent, Some ErrInvalidStateTransition)"
| "spec_retry StDlq = (StDlq, Some ErrInvalidStateTransition)"
| "spec_retry StQuarantine = (StQuarantine, Some ErrInvalidStateTransition)"
| "spec_retry StNone = (StNone, Some ErrMessageNotFound)"
| "spec_retry _ = (StRetry, None)"

fun spec_fail :: "mstate \<Rightarrow> mstate \<times> qerror option" where
  "spec_fail StDlq = (StDlq, None)"
| "spec_fail StSent = (StSent, Some ErrInvalidStateTransition)"
| "spec_fail StQuarantine = (StQuarantine, Some ErrInvalidStateTransition)"
| "spec_fail StNone = (StNone, Some ErrMessageNotFound)"
| "spec_fail _ = (StDlq, None)"

section \<open>The abstraction\<close>

fun inbound_state :: "fcontent \<Rightarrow> mstate" where
  "inbound_state (JsonMsg m) = (if m_quarantine m \<noteq> None then StQuarantine else StInbound)"
| "inbound_state _ = StInbound"

definition abs_state :: "store \<Rightarrow> aqueue" where
  "abs_state s i =
     (case file_at s Inbound (json_name i) of
        Some c \<Rightarrow> inbound_state c
      | None \<Rightarrow>
          if file_at s RetryDir (json_name i) \<noteq> None then StRetry
          else if file_at s LegacyPending (json_name i) \<noteq> None then StPending
          else if file_at s Sent (json_name i) \<noteq> None then StSent
          else if file_at s Dlq (json_name i) \<noteq> None then StDlq
          else StNone)"

definition no_faults :: "env \<Rightarrow> bool" where
  "no_faults e \<longleftrightarrow> (\<forall>op d n. \<not> io_fails e op d n) \<and> (\<forall>m. json_len e m \<noteq> None)"

definition readable :: "store \<Rightarrow> bool" where
  "readable s \<longleftrightarrow> (\<forall>d \<in> set live_dirs. \<forall>i c. file_at s d (json_name i) = Some c \<longrightarrow> (\<exists>m. c = JsonMsg m))"

definition one_place :: "store \<Rightarrow> bool" where
  "one_place s \<longleftrightarrow> (\<forall>i. \<forall>d \<in> set live_dirs. \<forall>d' \<in> set live_dirs.
     file_at s d (json_name i) \<noteq> None \<longrightarrow> file_at s d' (json_name i) \<noteq> None \<longrightarrow> d = d')"

definition good_store :: "store \<Rightarrow> bool" where
  "good_store s \<longleftrightarrow> store_wf s \<and> readable s \<and> one_place s"

lemma no_faults_simps [simp]:
  "no_faults e \<Longrightarrow> \<not> io_fails e op d n" "no_faults e \<Longrightarrow> json_len e m \<noteq> None"
  by (simp_all add: no_faults_def)

lemma message_state_abs:
  assumes "no_faults e" "readable s"
  shows "message_state e s i = Inr (abs_state s i)"
proof (cases "file_at s Inbound (json_name i)")
  case (Some c)
  with assms(2) obtain m where "c = JsonMsg m" unfolding readable_def by (meson live_simps(1))
  with Some assms(1) show ?thesis
    by (simp add: message_state_def state_order_def abs_state_def store_read_def)
qed (use assms(1) in \<open>auto simp: message_state_def state_order_def abs_state_def\<close>)

text \<open>The abstract state names the directory that holds the message.\<close>
fun dir_of :: "mstate \<Rightarrow> qdir option" where
  "dir_of StInbound = Some Inbound" | "dir_of StQuarantine = Some Inbound"
| "dir_of StRetry = Some RetryDir" | "dir_of StPending = Some LegacyPending"
| "dir_of StSent = Some Sent" | "dir_of StDlq = Some Dlq" | "dir_of StNone = None"

lemma dir_of_inbound [simp]: "dir_of (inbound_state c) = Some Inbound"
  by (cases c) auto

lemma abs_dir:
  assumes "one_place s" "d \<in> set live_dirs"
  shows "file_at s d (json_name i) \<noteq> None \<longleftrightarrow> dir_of (abs_state s i) = Some d"
proof -
  have uniq: "file_at s d1 (json_name i) \<noteq> None \<Longrightarrow> file_at s d2 (json_name i) \<noteq> None \<Longrightarrow>
      d1 \<in> set live_dirs \<Longrightarrow> d2 \<in> set live_dirs \<Longrightarrow> d1 = d2" for d1 d2
    using assms(1) unfolding one_place_def by blast
  show ?thesis
    using assms(2) uniq [of Inbound d] uniq [of RetryDir d] uniq [of LegacyPending d]
      uniq [of Sent d] uniq [of Dlq d]
    by (auto simp: abs_state_def live_dirs_def split: option.splits)
qed

lemma abs_cong:
  "(\<And>d. d \<in> set live_dirs \<Longrightarrow> file_at s d (json_name i) = file_at s' d (json_name i)) \<Longrightarrow>
     abs_state s i = abs_state s' i"
proof -
  assume h: "\<And>d. d \<in> set live_dirs \<Longrightarrow> file_at s d (json_name i) = file_at s' d (json_name i)"
  show ?thesis
    unfolding abs_state_def h [OF live_simps(1)] h [OF live_simps(2)] h [OF live_simps(3)]
      h [OF live_simps(4)] h [OF live_simps(5)] by (rule refl)
qed

section \<open>One message moves\<close>

text \<open>A message \<open>i\<close> sits in directory \<open>d\<close> only, with content \<open>m\<close>; the others are as before.\<close>
definition placed :: "store \<Rightarrow> store \<Rightarrow> string \<Rightarrow> qdir \<Rightarrow> message \<Rightarrow> bool" where
  "placed s s' i d m \<longleftrightarrow>
     (\<forall>d' \<in> set live_dirs. file_at s' d' (json_name i) = (if d' = d then Some (JsonMsg m) else None)) \<and>
     (\<forall>j d'. j \<noteq> i \<longrightarrow> d' \<in> set live_dirs \<longrightarrow> file_at s' d' (json_name j) = file_at s d' (json_name j))"

definition state_in :: "qdir \<Rightarrow> message \<Rightarrow> mstate" where
  "state_in d m = (case d of Inbound \<Rightarrow> inbound_state (JsonMsg m) | RetryDir \<Rightarrow> StRetry
     | LegacyPending \<Rightarrow> StPending | Sent \<Rightarrow> StSent | Dlq \<Rightarrow> StDlq | Poison \<Rightarrow> StNone)"

lemma placed_abs:
  assumes "placed s s' i d m" "d \<in> set live_dirs"
  shows "abs_state s' = (abs_state s)(i := state_in d m)"
proof
  fix j
  show "abs_state s' j = ((abs_state s)(i := state_in d m)) j"
  proof (cases "j = i")
    case True
    then show ?thesis
      using assms by (cases d) (auto simp: placed_def abs_state_def state_in_def)
  next
    case False
    then have "abs_state s' j = abs_state s j"
      using assms(1) by (intro abs_cong) (simp add: placed_def)
    with False show ?thesis by simp
  qed
qed

lemma placed_good:
  assumes "placed s s' i d m" "good_store s" "store_wf s'"
  shows "good_store s'"
proof -
  have "readable s'"
    unfolding readable_def
  proof (intro ballI allI impI)
    fix d' j c assume "d' \<in> set live_dirs" "file_at s' d' (json_name j) = Some c"
    then show "\<exists>m. c = JsonMsg m"
      using assms(1,2) by (cases "j = i") (auto simp: placed_def good_store_def readable_def split: if_splits)
  qed
  moreover have "one_place s'"
    unfolding one_place_def
  proof (intro allI ballI impI)
    fix j d1 d2 assume "d1 \<in> set live_dirs" "d2 \<in> set live_dirs"
      "file_at s' d1 (json_name j) \<noteq> None" "file_at s' d2 (json_name j) \<noteq> None"
    then show "d1 = d2"
      using assms(1,2) by (cases "j = i") (auto simp: placed_def good_store_def one_place_def split: if_splits)
  qed
  ultimately show ?thesis using assms(3) by (simp add: good_store_def)
qed

lemma move_to_placed:
  assumes "no_faults e" "one_place s" "abs_state s i \<in> pending_states" "d \<in> {RetryDir, Sent, Dlq}"
  shows "snd (move_to e s d i m) = None" and "placed s (fst (move_to e s d i m)) i d m"
proof -
  have ok: "snd (store_write e s d (json_name i) m) = None"
    using assms(1) by (simp add: store_write_ok)
  show none: "snd (move_to e s d i m) = None"
    using ok assms(1) by (simp add: move_to_def Let_def remove_pending_except_def remove_pending_ok)
  have absent: "file_at s d' (json_name i) = None" if "d' \<in> {Sent, Dlq}" for d'
    using abs_dir [OF assms(2), of d' i] assms(3) that
    by (auto simp: pending_states_def)
  have "file_at (fst (move_to e s d i m)) d' (json_name i) =
      (if d' = d then Some (JsonMsg m) else None)" if d': "d' \<in> set live_dirs" for d'
  proof (cases "d' = d")
    case True
    then show ?thesis using move_to_done(1) [OF none] by simp
  next
    case False
    show ?thesis
    proof (cases "d' \<in> set pending_dirs")
      case True
      then show ?thesis using False move_to_done(2) [OF none] by simp
    next
      case np: False
      then have "d' \<in> {Sent, Dlq}" using d' by (auto simp: live_dirs_def pending_dirs_def)
      then show ?thesis using np False absent by (simp add: move_to_nonpending)
    qed
  qed
  then show "placed s (fst (move_to e s d i m)) i d m"
    by (simp add: placed_def move_to_other)
qed

lemma write_placed:
  assumes "no_faults e" "abs_state s i \<in> {StNone, StInbound, StQuarantine}" "one_place s"
  shows "snd (store_write e s Inbound (json_name i) m) = None"
    and "placed s (fst (store_write e s Inbound (json_name i) m)) i Inbound m"
proof -
  show none: "snd (store_write e s Inbound (json_name i) m) = None"
    using assms(1) by (simp add: store_write_ok)
  have "file_at s d (json_name i) = None" if "d \<in> set live_dirs" "d \<noteq> Inbound" for d
    using abs_dir [OF assms(3) that(1), of i] assms(2) that(2) by auto
  with none show "placed s (fst (store_write e s Inbound (json_name i) m)) i Inbound m"
    by (auto simp: placed_def store_write_file_at)
qed

section \<open>Functional refinement of the worker's operations\<close>

lemma move_refines:
  assumes "no_faults e" "good_store s" "abs_state s i \<in> pending_states" "d \<in> {RetryDir, Sent, Dlq}"
  shows "abs_state (fst (move_to e s d i m)) = (abs_state s)(i := state_in d m) \<and>
         snd (move_to e s d i m) = None \<and> good_store (fst (move_to e s d i m))"
proof -
  have one: "one_place s" using assms(2) by (simp add: good_store_def)
  note p = move_to_placed [OF assms(1) one assms(3,4), of m]
  have "store_wf (fst (move_to e s d i m))" using assms(2) by (simp add: good_store_def)
  then show ?thesis
    using p placed_abs [OF p(2)] placed_good [OF p(2) assms(2)] assms(4) by auto
qed

text \<open>The four operations refine their specifications, errors included.\<close>
lemma worker_refines:
  assumes "no_faults e" "good_store s"
  shows "abs_state (fst (ack_sent e s i m)) = (abs_state s)(i := fst (spec_ack (abs_state s i))) \<and>
         snd (snd (ack_sent e s i m)) = snd (spec_ack (abs_state s i)) \<and>
         good_store (fst (ack_sent e s i m))" (is ?ack)
    and "abs_state (fst (retry_msg e s m dl r)) = (abs_state s)(m_id m := fst (spec_retry (abs_state s (m_id m)))) \<and>
         snd (snd (retry_msg e s m dl r)) = snd (spec_retry (abs_state s (m_id m))) \<and>
         good_store (fst (retry_msg e s m dl r))" (is ?retry)
    and "abs_state (fst (defer_msg e s m dl)) = (abs_state s)(m_id m := fst (spec_retry (abs_state s (m_id m)))) \<and>
         snd (snd (defer_msg e s m dl)) = snd (spec_retry (abs_state s (m_id m))) \<and>
         good_store (fst (defer_msg e s m dl))" (is ?defer)
    and "abs_state (fst (fail_msg e s m r)) = (abs_state s)(m_id m := fst (spec_fail (abs_state s (m_id m)))) \<and>
         snd (snd (fail_msg e s m r)) = snd (spec_fail (abs_state s (m_id m))) \<and>
         good_store (fst (fail_msg e s m r))" (is ?fail)
proof -
  have st: "message_state e s j = Inr (abs_state s j)" for j
    using assms message_state_abs by (simp add: good_store_def)
  note mv = move_refines [OF assms]
  show ?ack
    using mv [of i Sent] assms(2)
    by (cases "abs_state s i") (simp_all add: ack_sent_def st Let_def pending_states_def state_in_def fun_upd_idem)
  show ?retry
    using mv [of "m_id m" RetryDir] assms(2)
    by (cases "abs_state s (m_id m)")
       (simp_all add: retry_msg_def st Let_def pending_states_def state_in_def fun_upd_idem)
  show ?defer
    using mv [of "m_id m" RetryDir] assms(2)
    by (cases "abs_state s (m_id m)")
       (simp_all add: defer_msg_def st Let_def pending_states_def state_in_def fun_upd_idem)
  show ?fail
    using mv [of "m_id m" Dlq] assms(2)
    by (cases "abs_state s (m_id m)")
       (simp_all add: fail_msg_def st Let_def pending_states_def state_in_def fun_upd_idem)
qed

end
