(* ===== verification/Queue_Simulation.thy ===== *)
theory Queue_Simulation
  imports Queue_Refinement
begin

text \<open>
  Functional refinement of the whole store, when no system call fails. The abstract queue is a book: a map from
  identifiers to the directory and the message filed under them, without file names, temporary files, copies and
  removals. Each operation has one meaning on the book, errors included; only the verdict of the capacity check is taken from
  the store. The store implements the book operation by operation.
\<close>

section \<open>The book\<close>

type_synonym book = "string \<Rightarrow> (qdir \<times> message) option"

definition book_of :: "store \<Rightarrow> book" where
  "book_of s i =
     (case find (\<lambda>d. file_at s d (json_name i) \<noteq> None) live_dirs of
        None \<Rightarrow> None
      | Some d \<Rightarrow> (case file_at s d (json_name i) of Some (JsonMsg m) \<Rightarrow> Some (d, m) | _ \<Rightarrow> None))"

fun stage :: "(qdir \<times> message) option \<Rightarrow> mstate" where
  "stage None = StNone"
| "stage (Some (d, m)) = state_in d m"

text \<open>An operation of the worker moves a pending message; on any other its specification says what the caller is told.\<close>
definition book_move :: "(mstate \<Rightarrow> mstate \<times> qerror option) \<Rightarrow> qdir \<Rightarrow> string \<Rightarrow> message \<Rightarrow> book \<Rightarrow> book \<times> qerror option" where
  "book_move spec d i m b =
     (if stage (b i) \<in> pending_states then (b(i \<mapsto> (d, m)), None) else (b, snd (spec (stage (b i)))))"

definition book_due :: "time \<Rightarrow> book \<Rightarrow> book" where
  "book_due t b i =
     (case b i of None \<Rightarrow> None
      | Some (d, m) \<Rightarrow> if d \<in> set pending_dirs \<and> quarantine_expired m t then None else Some (d, m))"

definition book_requeue :: "(message \<Rightarrow> qerror option) \<Rightarrow> string \<Rightarrow> string \<Rightarrow> time \<Rightarrow> book \<Rightarrow> book \<times> qerror option" where
  "book_requeue verdict state0 i t b =
     (if bad_id i then (b, Some ErrMessageNotFound)
      else
        (let state = to_lower (trim_space state0) in
         case dir_for_state state of
           Inl err \<Rightarrow> (b, Some err)
         | Inr d \<Rightarrow>
             (case b i of
                None \<Rightarrow> (b, Some ErrMessageNotFound)
              | Some (d', m) \<Rightarrow>
                  if d' \<noteq> d then (b, Some ErrMessageNotFound)
                  else if (state = ''quarantine'') \<noteq> (m_quarantine m \<noteq> None) \<or> quarantine_expired m t
                  then (b, Some ErrInvalidStateTransition)
                  else
                    (let m' = m\<lparr>m_quarantine := None, updated_at := t, next_attempt := t\<rparr> in
                     case (if d = Sent \<or> d = Dlq then verdict m' else None) of
                       Some err \<Rightarrow> (b, Some err)
                     | None \<Rightarrow> (b(i \<mapsto> (Inbound, m')), None)))))"

text \<open>The meaning of every operation of the queue.\<close>
fun book_op :: "time \<Rightarrow> (message \<Rightarrow> qerror option) \<Rightarrow> qop \<Rightarrow> book \<Rightarrow> book \<times> qerror option" where
  "book_op t verdict (QEnqueue m) b =
     (let m' = m\<lparr>created_at := t, updated_at := t, next_attempt := t\<rparr> in
      if trim_space (m_id m) = [] then (b, Some ErrIdRequired)
      else if b (m_id m) \<noteq> None then (b, None)
      else (case verdict m' of Some err \<Rightarrow> (b, Some err) | None \<Rightarrow> (b(m_id m \<mapsto> (Inbound, m')), None)))"
| "book_op t verdict (QAckSent i m) b = book_move spec_ack Sent i (m\<lparr>updated_at := t\<rparr>) b"
| "book_op t verdict (QRetry m dl r) b =
     book_move spec_retry RetryDir (m_id m)
       (m\<lparr>attempts := attempts m + 1, last_error := r, updated_at := t, next_attempt := t + dl\<rparr>) b"
| "book_op t verdict (QDefer m dl) b =
     book_move spec_retry RetryDir (m_id m) (m\<lparr>updated_at := t, next_attempt := t + dl\<rparr>) b"
| "book_op t verdict (QFail m r) b =
     book_move spec_fail Dlq (m_id m) (m\<lparr>attempts := attempts m + 1, last_error := r, updated_at := t\<rparr>) b"
| "book_op t verdict (QDue l) b = (book_due t b, None)"
| "book_op t verdict (QRequeue st i t') b = book_requeue verdict st i t' b"
| "book_op t verdict (QDeleteQuarantined i dry) b =
     (case b i of
        Some (Inbound, m) \<Rightarrow>
          if bad_id i then (b, Some ErrMessageNotFound)
          else if m_quarantine m = None then (b, Some ErrInvalidStateTransition)
          else (if dry then b else b(i := None), None)
      | _ \<Rightarrow> (b, Some ErrMessageNotFound))"

text \<open>The error an operation on the store reports.\<close>
fun q_error :: "env \<Rightarrow> qop \<Rightarrow> store \<Rightarrow> qerror option" where
  "q_error e (QEnqueue m) s = snd (snd (enqueue e s m))"
| "q_error e (QAckSent i m) s = snd (snd (ack_sent e s i m))"
| "q_error e (QRetry m dl r) s = snd (snd (retry_msg e s m dl r))"
| "q_error e (QDefer m dl) s = snd (snd (defer_msg e s m dl))"
| "q_error e (QFail m r) s = snd (snd (fail_msg e s m r))"
| "q_error e (QDue l) s = (case snd (due e s l) of Inl err \<Rightarrow> Some err | Inr _ \<Rightarrow> None)"
| "q_error e (QRequeue st i t) s = (case snd (requeue_from_state e s st i t) of Inl err \<Rightarrow> Some err | Inr _ \<Rightarrow> None)"
| "q_error e (QDeleteQuarantined i dry) s = snd (delete_quarantined e s i dry)"

section \<open>Stores and books\<close>

lemma book_of_cong:
  "(\<And>d. d \<in> set live_dirs \<Longrightarrow> file_at s d (json_name i) = file_at s' d (json_name i)) \<Longrightarrow> book_of s i = book_of s' i"
  by (simp add: book_of_def live_dirs_def)

lemma book_of_iff:
  assumes "good_store s"
  shows "book_of s i = Some (d, m) \<longleftrightarrow> d \<in> set live_dirs \<and> file_at s d (json_name i) = Some (JsonMsg m)"
proof -
  have rd: "file_at s d' (json_name i) = Some c \<Longrightarrow> d' \<in> set live_dirs \<Longrightarrow> \<exists>m. c = JsonMsg m" for d' c
    using assms unfolding good_store_def readable_def by blast
  have uniq: "file_at s d1 (json_name i) \<noteq> None \<Longrightarrow> file_at s d2 (json_name i) \<noteq> None \<Longrightarrow>
      d1 \<in> set live_dirs \<Longrightarrow> d2 \<in> set live_dirs \<Longrightarrow> d1 = d2" for d1 d2
    using assms unfolding good_store_def one_place_def by blast
  show ?thesis
  proof (cases "find (\<lambda>d. file_at s d (json_name i) \<noteq> None) live_dirs")
    case None
    then have "book_of s i = None" "\<forall>d \<in> set live_dirs. file_at s d (json_name i) = None"
      by (simp_all only: book_of_def option.case) (auto simp: find_None_iff)
    then show ?thesis by auto
  next
    case (Some d1)
    then have d1: "d1 \<in> set live_dirs" "file_at s d1 (json_name i) \<noteq> None"
      by (auto simp: find_Some_iff in_set_conv_nth)
    then obtain m1 where m1: "file_at s d1 (json_name i) = Some (JsonMsg m1)" using rd by blast
    have "book_of s i = Some (d1, m1)" by (simp only: book_of_def Some option.case m1 fcontent.case)
    with m1 d1(1) uniq [OF d1(2), of d] show ?thesis by auto
  qed
qed

lemma book_of_None:
  assumes "good_store s"
  shows "book_of s i = None \<longleftrightarrow> (\<forall>d \<in> set live_dirs. file_at s d (json_name i) = None)"
proof -
  have "file_at s d (json_name i) = Some c \<Longrightarrow> d \<in> set live_dirs \<Longrightarrow> \<exists>m. c = JsonMsg m" for d c
    using assms unfolding good_store_def readable_def by blast
  then show ?thesis
    using book_of_iff [OF assms] by (metis not_None_eq surj_pair)
qed

lemma stage_book:
  assumes "good_store s"
  shows "stage (book_of s i) = abs_state s i"
proof (cases "book_of s i")
  case None
  then have "\<forall>d \<in> set live_dirs. file_at s d (json_name i) = None" using book_of_None [OF assms] by simp
  with None show ?thesis by (simp add: abs_state_def)
next
  case (Some p)
  obtain d m where p: "p = (d, m)" by force
  then have f: "d \<in> set live_dirs" "file_at s d (json_name i) = Some (JsonMsg m)"
    using book_of_iff [OF assms] Some by auto
  have "file_at s d' (json_name i) = None" if "d' \<in> set live_dirs" "d' \<noteq> d" for d'
    using assms f that unfolding good_store_def one_place_def by (metis option.distinct(1))
  then show ?thesis using Some p f by (cases d) (simp_all add: abs_state_def state_in_def)
qed

lemma good_store_files:
  assumes "files s' = files s"
  shows "good_store s' = good_store s" and "book_of s' = book_of s"
proof -
  have f: "file_at s' = file_at s" using assms by (simp add: file_at_def fun_eq_iff)
  show "good_store s' = good_store s"
    by (simp add: good_store_def store_wf_def readable_def one_place_def f assms)
  show "book_of s' = book_of s" by (rule ext, rule book_of_cong) (simp add: f)
qed

lemma placed_book:
  assumes "placed s s' i d m" "d \<in> set live_dirs"
  shows "book_of s' = (book_of s)(i \<mapsto> (d, m))"
proof
  fix j
  show "book_of s' j = ((book_of s)(i \<mapsto> (d, m))) j"
  proof (cases "j = i")
    case True
    then show ?thesis using assms by (cases d) (auto simp: placed_def book_of_def live_dirs_def)
  next
    case False
    then have "book_of s' j = book_of s j" using assms(1) by (intro book_of_cong) (simp add: placed_def)
    with False show ?thesis by simp
  qed
qed

section \<open>Removing a message\<close>

definition dropped :: "store \<Rightarrow> store \<Rightarrow> string \<Rightarrow> bool" where
  "dropped s s' i \<longleftrightarrow>
     (\<forall>d \<in> set live_dirs. file_at s' d (json_name i) = None) \<and>
     (\<forall>j d. j \<noteq> i \<longrightarrow> d \<in> set live_dirs \<longrightarrow> file_at s' d (json_name j) = file_at s d (json_name j))"

lemma dropped_book: "dropped s s' i \<Longrightarrow> book_of s' = (book_of s)(i := None)"
proof
  fix j assume d: "dropped s s' i"
  show "book_of s' j = ((book_of s)(i := None)) j"
  proof (cases "j = i")
    case True
    with d show ?thesis by (simp add: dropped_def book_of_def live_dirs_def)
  next
    case False
    then have "book_of s' j = book_of s j" using d by (intro book_of_cong) (simp add: dropped_def)
    with False show ?thesis by simp
  qed
qed

lemma dropped_good:
  assumes "dropped s s' i" "good_store s" "store_wf s'"
  shows "good_store s'"
proof -
  have sub: "file_at s' d (json_name j) = Some c \<Longrightarrow> file_at s d (json_name j) = Some c" if "d \<in> set live_dirs" for d j c
    using assms(1) that by (cases "j = i") (auto simp: dropped_def)
  have "readable s'"
    unfolding readable_def using sub assms(2) by (meson good_store_def readable_def)
  moreover have "one_place s'"
    unfolding one_place_def
  proof (intro allI ballI impI)
    fix j d1 d2 assume d: "d1 \<in> set live_dirs" "d2 \<in> set live_dirs"
      "file_at s' d1 (json_name j) \<noteq> None" "file_at s' d2 (json_name j) \<noteq> None"
    then have "file_at s d1 (json_name j) \<noteq> None" "file_at s d2 (json_name j) \<noteq> None"
      using sub by blast+
    with d assms(2) show "d1 = d2" by (auto simp: good_store_def one_place_def)
  qed
  ultimately show ?thesis using assms(3) by (simp add: good_store_def)
qed

lemma remove_dropped:
  assumes "no_faults e" "good_store s" "book_of s i = Some (d, m)"
  shows "snd (os_remove e s d (json_name i)) = None"
    and "book_of (fst (os_remove e s d (json_name i))) = (book_of s)(i := None)"
    and "good_store (fst (os_remove e s d (json_name i)))"
proof -
  have f: "d \<in> set live_dirs" "file_at s d (json_name i) = Some (JsonMsg m)"
    using assms(3) book_of_iff [OF assms(2)] by auto
  show "snd (os_remove e s d (json_name i)) = None" using assms(1) f by (simp add: os_remove_def)
  have "file_at s d' (json_name i) = None" if "d' \<in> set live_dirs" "d' \<noteq> d" for d'
    using assms(2) f that unfolding good_store_def one_place_def by (metis option.distinct(1))
  then have d: "dropped s (fst (os_remove e s d (json_name i))) i"
    using assms(1) by (auto simp: dropped_def os_remove_file_at)
  show "book_of (fst (os_remove e s d (json_name i))) = (book_of s)(i := None)" by (rule dropped_book [OF d])
  show "good_store (fst (os_remove e s d (json_name i)))"
    using dropped_good [OF d assms(2)] assms(2) by (simp add: good_store_def)
qed

section \<open>The operations\<close>

text \<open>The store implements one operation: the book afterwards and the reported error are those of the specification.\<close>
definition implements_book :: "env \<Rightarrow> store \<Rightarrow> qop \<Rightarrow> store \<Rightarrow> bool" where
  "implements_book e s op s' \<longleftrightarrow>
     book_op (now e) (\<lambda>m. snd (admit e s m)) op (book_of s) = (book_of s', q_error e op s) \<and> good_store s'"

lemma read_book:
  assumes "no_faults e" "good_store s" "d \<in> set live_dirs"
  shows "store_read e s d (json_name i) =
     (case book_of s i of Some (d', m) \<Rightarrow> if d' = d then Inr m else Inl ErrNotExist | None \<Rightarrow> Inl ErrNotExist)"
proof (cases "file_at s d (json_name i)")
  case None
  with assms(1) have "store_read e s d (json_name i) = Inl ErrNotExist" by (simp add: store_read_def)
  moreover have "book_of s i \<noteq> Some (d, m)" for m using None book_of_iff [OF assms(2)] by simp
  ultimately show ?thesis by (auto split: option.splits)
next
  case (Some c)
  then obtain m where "file_at s d (json_name i) = Some (JsonMsg m)"
    using assms(2,3) unfolding good_store_def readable_def by blast
  with assms show ?thesis by (simp add: store_read_def book_of_iff [OF assms(2), of i d m, THEN iffD2])
qed

lemma admit_good [simp]: "good_store (fst (admit e s m)) = good_store s" "book_of (fst (admit e s m)) = book_of s"
  by (rule good_store_files, simp)+

lemma impl_enqueue:
  assumes "no_faults e" "good_store s"
  shows "implements_book e s (QEnqueue m) (fst (enqueue e s m))"
proof -
  let ?m = "m\<lparr>created_at := now e, updated_at := now e, next_attempt := now e\<rparr>"
  let ?a = "admit e s ?m"
  have st: "message_state e s (m_id m) = Inr (stage (book_of s (m_id m)))"
    using assms by (simp add: message_state_abs good_store_def stage_book)
  have "\<forall>p. book_of s (m_id m) \<noteq> Some (Poison, p)" using book_of_iff [OF assms(2), of "m_id m" Poison] by simp
  then have st': "stage (book_of s (m_id m)) = StNone \<longleftrightarrow> book_of s (m_id m) = None"
    by (cases "book_of s (m_id m)") (auto simp: state_in_def split: qdir.splits if_splits)
  show ?thesis
  proof (cases "trim_space (m_id m) = [] \<or> book_of s (m_id m) \<noteq> None \<or> snd ?a \<noteq> None")
    case True
    then show ?thesis
      using assms(2) st st' by (auto simp: implements_book_def enqueue_def Let_def)
  next
    case False
    have b: "book_of s (m_id m) = None" using False by blast
    have none: "abs_state (fst ?a) (m_id m) \<in> {StNone, StInbound, StQuarantine}"
      using b stage_book [of "fst ?a" "m_id m", symmetric] assms(2) by simp
    have one: "one_place (fst ?a)" using assms(2) admit_good(1) [of e s ?m] by (simp add: good_store_def)
    note w = write_placed [OF assms(1) none one, of ?m]
    have "good_store (fst (store_write e (fst ?a) Inbound (json_name (m_id m)) ?m))"
      using placed_good [OF w(2)] admit_good(1) [of e s ?m] assms(2) by (auto simp: good_store_def)
    then show ?thesis
      using False b st st' w placed_book [OF w(2)]
      by (simp add: implements_book_def enqueue_def Let_def)
  qed
qed

lemma move_book:
  assumes "no_faults e" "good_store s" "stage (book_of s i) \<in> pending_states" "d \<in> {RetryDir, Sent, Dlq}"
  shows "book_of (fst (move_to e s d i m)) = (book_of s)(i \<mapsto> (d, m))" "snd (move_to e s d i m) = None"
    "good_store (fst (move_to e s d i m))"
proof -
  have st: "abs_state s i \<in> pending_states" and one: "one_place s"
    using assms(2,3) by (simp_all add: stage_book good_store_def)
  note p = move_to_placed [OF assms(1) one st assms(4), of m]
  show "book_of (fst (move_to e s d i m)) = (book_of s)(i \<mapsto> (d, m))"
    using placed_book [OF p(2)] assms(4) by auto
  show "snd (move_to e s d i m) = None" by (rule p(1))
  show "good_store (fst (move_to e s d i m))"
    using placed_good [OF p(2) assms(2)] assms(2) by (simp add: good_store_def)
qed

lemma impl_worker:
  assumes "no_faults e" "good_store s"
  shows "implements_book e s (QAckSent i m) (fst (ack_sent e s i m))"
    and "implements_book e s (QRetry m dl r) (fst (retry_msg e s m dl r))"
    and "implements_book e s (QDefer m dl) (fst (defer_msg e s m dl))"
    and "implements_book e s (QFail m r) (fst (fail_msg e s m r))"
proof -
  have st: "message_state e s j = Inr (stage (book_of s j))" for j
    using assms by (simp add: message_state_abs good_store_def stage_book)
  note mv = move_book [OF assms]
  note defs = implements_book_def book_move_def pending_states_def ack_sent_def retry_msg_def defer_msg_def fail_msg_def st Let_def
  show "implements_book e s (QAckSent i m) (fst (ack_sent e s i m))"
    using mv [of i Sent] assms(2) by (cases "stage (book_of s i)") (simp_all add: defs)
  show "implements_book e s (QRetry m dl r) (fst (retry_msg e s m dl r))"
    using mv [of "m_id m" RetryDir] assms(2) by (cases "stage (book_of s (m_id m))") (simp_all add: defs)
  show "implements_book e s (QDefer m dl) (fst (defer_msg e s m dl))"
    using mv [of "m_id m" RetryDir] assms(2) by (cases "stage (book_of s (m_id m))") (simp_all add: defs)
  show "implements_book e s (QFail m r) (fst (fail_msg e s m r))"
    using mv [of "m_id m" Dlq] assms(2) by (cases "stage (book_of s (m_id m))") (simp_all add: defs)
qed

lemma impl_delete:
  assumes "no_faults e" "good_store s"
  shows "implements_book e s (QDeleteQuarantined i dry) (fst (delete_quarantined e s i dry))"
proof (cases "book_of s i")
  case None
  then show ?thesis
    using assms read_book [OF assms, of Inbound i] by (simp add: implements_book_def delete_quarantined_def)
next
  case (Some p)
  obtain d m where p: "p = (d, m)" by force
  note rd = read_book [OF assms live_simps(1), of i, unfolded Some p, simplified]
  show ?thesis
    using Some p rd assms remove_dropped [OF assms, of i d m]
    by (cases d) (auto simp: implements_book_def delete_quarantined_def)
qed

section \<open>Requeueing\<close>

lemma requeue_placed:
  assumes "no_faults e" "one_place s" "d \<in> {RetryDir, Sent, Dlq}" "file_at s d (json_name i) \<noteq> None"
  shows "placed s (fst (os_remove e (fst (store_write e s Inbound (json_name i) m)) d (json_name i))) i Inbound m"
proof -
  have d: "d \<in> set live_dirs" "d \<noteq> Inbound" using assms(3) by auto
  have "file_at s d' (json_name i) = None" if "d' \<in> set live_dirs" "d' \<noteq> d" for d'
    using assms(2,4) d that unfolding one_place_def by blast
  moreover have "snd (store_write e s Inbound (json_name i) m) = None"
    using assms(1) by (simp add: store_write_ok)
  ultimately show ?thesis
    using d assms(1) by (auto simp: placed_def os_remove_file_at store_write_file_at)
qed

lemma dir_for_state_cases:
  "dir_for_state st = Inr d \<Longrightarrow> d \<in> {Inbound, RetryDir, Dlq, Sent}"
  by (auto simp: dir_for_state_def Let_def split: if_splits)

text \<open>The tail of a requeue: the message is written into the inbound directory and its old file removed.\<close>
definition refiled :: "env \<Rightarrow> store \<Rightarrow> qdir \<Rightarrow> string \<Rightarrow> message \<Rightarrow> store" where
  "refiled e s d i m =
     (let w = store_write e s Inbound (json_name i) m
      in if d = Inbound then fst w else fst (os_remove e (fst w) d (json_name i)))"

lemma refiled_book:
  assumes "no_faults e" "good_store s" "d \<in> {Inbound, RetryDir, Dlq, Sent}" "book_of s i = Some (d, m0)"
  shows "book_of (refiled e s d i m) = (book_of s)(i \<mapsto> (Inbound, m))" "good_store (refiled e s d i m)"
proof -
  have f: "file_at s d (json_name i) = Some (JsonMsg m0)" using assms(4) book_of_iff [OF assms(2)] by simp
  have one: "one_place s" using assms(2) by (simp add: good_store_def)
  have p: "placed s (refiled e s d i m) i Inbound m"
  proof (cases "d = Inbound")
    case True
    then have "abs_state s i \<in> {StNone, StInbound, StQuarantine}"
      using f by (simp add: abs_state_def)
    from write_placed(2) [OF assms(1) this one, of m] True show ?thesis by (simp add: refiled_def)
  next
    case False
    with requeue_placed [OF assms(1) one, of d i m] assms(3) f show ?thesis by (auto simp: refiled_def Let_def)
  qed
  show "book_of (refiled e s d i m) = (book_of s)(i \<mapsto> (Inbound, m))" using placed_book [OF p] by simp
  show "good_store (refiled e s d i m)"
    using placed_good [OF p assms(2)] assms(2) by (simp add: refiled_def Let_def good_store_def)
qed

lemma requeue_tail:
  assumes "no_faults e" "good_store s" "book_of s i = Some (d, m)"
    and "\<not> bad_id i" "dir_for_state (to_lower (trim_space st)) = Inr d"
    and "(to_lower (trim_space st) = ''quarantine'') = (m_quarantine m \<noteq> None)" "\<not> quarantine_expired m t"
  defines "m' \<equiv> m\<lparr>m_quarantine := None, updated_at := t, next_attempt := t\<rparr>"
  defines "a \<equiv> (if d = Sent \<or> d = Dlq then admit e s m' else (s, None))"
  shows "requeue_from_state e s st i t =
     (case snd a of Some err \<Rightarrow> (fst a, Inl err) | None \<Rightarrow> (refiled e (fst a) d i m', Inr m'))"
proof -
  have dl: "d \<in> set live_dirs" using assms(3) book_of_iff [OF assms(2)] by simp
  have rd: "store_read e s d (json_name i) = Inr m" using read_book [OF assms(1,2) dl, of i] assms(3) by simp
  have f: "file_at (fst a) d (json_name i) \<noteq> None"
    using assms(3) book_of_iff [OF assms(2)] by (simp add: a_def file_at_def)
  have w: "snd (store_write e s' Inbound (json_name i) m') = None" for s'
    using assms(1) by (simp add: store_write_ok)
  have ain: "d = Inbound \<Longrightarrow> a = (s, None)" by (simp add: a_def)
  have r: "snd (os_remove e (fst (store_write e (fst a) Inbound (json_name i) m')) d (json_name i)) = None" if "d \<noteq> Inbound"
    using f w assms(1) that by (simp add: os_remove_def store_write_file_at)
  have "requeue_from_state e s st i t =
     (case snd a of Some err \<Rightarrow> (fst a, Inl err)
      | None \<Rightarrow> if d = Inbound then (fst (store_write e (fst a) Inbound (json_name i) m'), Inr m')
          else (case snd (os_remove e (fst (store_write e (fst a) Inbound (json_name i) m')) d (json_name i)) of
            None \<Rightarrow> (refiled e (fst a) d i m', Inr m')
          | Some err \<Rightarrow> (refiled e (fst a) d i m', if err = ErrNotExist then Inr m' else Inl err)))"
    unfolding requeue_from_state_def
    using assms(4-7) rd
    by (cases "d = Inbound") (simp_all add: Let_def m'_def [symmetric] a_def [symmetric] w refiled_def ain cong: option.case_cong)
  with r show ?thesis by (cases "d = Inbound") (simp_all add: refiled_def split: option.splits)
qed

lemma impl_requeue:
  assumes "no_faults e" "good_store s"
  shows "implements_book e s (QRequeue st i t) (fst (requeue_from_state e s st i t))"
proof (cases "bad_id i \<or> (\<exists>err. dir_for_state (to_lower (trim_space st)) = Inl err)")
  case True
  then show ?thesis
    using assms(2) by (auto simp: implements_book_def book_requeue_def requeue_from_state_def Let_def)
next
  case False
  then obtain d where d: "dir_for_state (to_lower (trim_space st)) = Inr d" and bi: "\<not> bad_id i"
    by (cases "dir_for_state (to_lower (trim_space st))") auto
  have dl: "d \<in> {Inbound, RetryDir, Dlq, Sent}" by (rule dir_for_state_cases [OF d])
  then have live: "d \<in> set live_dirs" by auto
  note rd = read_book [OF assms live, of i]
  show ?thesis
  proof (cases "\<exists>m. book_of s i = Some (d, m)")
    case no: False
    then have "store_read e s d (json_name i) = Inl ErrNotExist"
      using rd by (auto split: option.splits)
    with no d bi assms(2) show ?thesis
      by (auto simp: implements_book_def book_requeue_def requeue_from_state_def Let_def split: option.splits)
  next
    case True
    then obtain m where m: "book_of s i = Some (d, m)" by blast
    show ?thesis
    proof (cases "(to_lower (trim_space st) = ''quarantine'') \<noteq> (m_quarantine m \<noteq> None) \<or> quarantine_expired m t")
      case True
      with d bi m rd assms(2) show ?thesis
        by (auto simp: implements_book_def book_requeue_def requeue_from_state_def Let_def)
    next
      case ok: False
      let ?m = "m\<lparr>m_quarantine := None, updated_at := t, next_attempt := t\<rparr>"
      let ?a = "if d = Sent \<or> d = Dlq then admit e s ?m else (s, None)"
      have a: "good_store (fst ?a)" "book_of (fst ?a) = book_of s" using assms(2) by auto
      from ok have "requeue_from_state e s st i t =
          (case snd ?a of Some err \<Rightarrow> (fst ?a, Inl err) | None \<Rightarrow> (refiled e (fst ?a) d i ?m, Inr ?m))"
        by (intro requeue_tail [OF assms m bi d]) auto
      then show ?thesis
        using ok d bi m a refiled_book [OF assms(1) a(1) dl, of i m ?m]
        by (auto simp: implements_book_def book_requeue_def Let_def split: option.splits)
    qed
  qed
qed

section \<open>The scan for due messages\<close>

text \<open>The book after the entries \<open>ns\<close> of a directory were scanned.\<close>
definition book_scanned :: "time \<Rightarrow> qdir \<Rightarrow> string list \<Rightarrow> book \<Rightarrow> book" where
  "book_scanned t d ns b i =
     (case b i of Some (d', m) \<Rightarrow> if d' = d \<and> json_name i \<in> set ns \<and> quarantine_expired m t then None else Some (d', m)
      | None \<Rightarrow> None)"

lemma due_entries_book:
  assumes "no_faults e" "d \<in> set live_dirs"
  shows "good_store s \<Longrightarrow> book_of (fst (due_entries e s d ns acc)) = book_scanned (now e) d ns (book_of s) \<and>
         good_store (fst (due_entries e s d ns acc)) \<and> (\<exists>ms. snd (due_entries e s d ns acc) = Inr ms)"
proof (induction ns arbitrary: s acc)
  case Nil
  then show ?case by (auto simp: book_scanned_def fun_eq_iff split: option.splits)
next
  case (Cons n ns)
  show ?case
  proof (cases "is_json n")
    case False
    then have "n \<noteq> json_name i" for i by auto
    then have "json_name i \<in> set (n # ns) \<longleftrightarrow> json_name i \<in> set ns" for i by auto
    then have "book_scanned (now e) d (n # ns) (book_of s) = book_scanned (now e) d ns (book_of s)"
      by (simp only: book_scanned_def fun_eq_iff) simp
    with False Cons show ?thesis by simp
  next
    case True
    then obtain i where n: "n = json_name i" by (auto simp: is_json_iff)
    note rd = read_book [OF assms(1) Cons.prems assms(2), of i]
    show ?thesis
    proof (cases "\<exists>m. book_of s i = Some (d, m) \<and> quarantine_expired m (now e)")
      case True
      then obtain m where m: "book_of s i = Some (d, m)" "quarantine_expired m (now e)" by blast
      note dr = remove_dropped [OF assms(1) Cons.prems m(1)]
      have "book_scanned (now e) d (n # ns) (book_of s) = book_scanned (now e) d ns ((book_of s)(i := None))"
        using m n by (auto simp: book_scanned_def fun_eq_iff split: option.splits)
      with Cons.IH [OF dr(3)] dr(1,2) m rd n show ?thesis by (simp add: Let_def fun_upd_def)
    next
      case False
      have bs: "book_scanned (now e) d (n # ns) (book_of s) = book_scanned (now e) d ns (book_of s)"
        using False n by (auto simp: book_scanned_def fun_eq_iff split: option.splits)
      show ?thesis
      proof (cases "store_read e s d n")
        case (Inl err)
        have "file_at s d n = None"
          using rd Inl n book_of_None [OF Cons.prems, of i] book_of_iff [OF Cons.prems, of i d] assms(2) Cons.prems
          unfolding good_store_def readable_def by (cases "file_at s d n") (fastforce split: option.splits)+
        then have "quarantine_poison e s d n err = s" by (simp add: quarantine_poison_def)
        with Inl n Cons bs show ?thesis by simp
      next
        case (Inr m)
        then have "\<not> quarantine_expired m (now e)" using False rd n by (auto split: option.splits if_splits)
        with Inr n Cons bs show ?thesis by simp
      qed
    qed
  qed
qed

lemma due_from_dir_book:
  assumes "no_faults e" "d \<in> set live_dirs" "good_store s"
  defines "r \<equiv> due_from_dir e s d"
  shows "book_of (fst r) i = (case book_of s i of Some (d', m) \<Rightarrow>
      if d' = d \<and> quarantine_expired m (now e) then None else Some (d', m) | None \<Rightarrow> None)"
    and "good_store (fst r)" and "\<exists>ms. snd r = Inr ms"
proof -
  have r: "r = due_entries e s d (map fst (files s d)) []"
    using assms(1) by (simp add: r_def due_from_dir_def os_read_dir_def)
  note de = due_entries_book [OF assms(1,2,3), of "map fst (files s d)" "[]", folded r]
  have "json_name i \<in> set (map fst (files s d))" if "book_of s i = Some (d, m)" for m
    using that book_of_iff [OF assms(3), of i d m] by (force simp: file_at_def dest: map_of_SomeD)
  then show "book_of (fst r) i = (case book_of s i of Some (d', m) \<Rightarrow>
      if d' = d \<and> quarantine_expired m (now e) then None else Some (d', m) | None \<Rightarrow> None)"
    using de by (auto simp: book_scanned_def split: option.splits)
  show "good_store (fst r)" "\<exists>ms. snd r = Inr ms" using de by auto
qed

lemma due_dirs_book:
  assumes "no_faults e" "set ds \<subseteq> set live_dirs"
  shows "good_store s \<Longrightarrow>
    (\<forall>i. book_of (fst (due_dirs e s ds out)) i = (case book_of s i of Some (d', m) \<Rightarrow>
      if d' \<in> set ds \<and> quarantine_expired m (now e) then None else Some (d', m) | None \<Rightarrow> None)) \<and>
    good_store (fst (due_dirs e s ds out)) \<and> (\<exists>ms. snd (due_dirs e s ds out) = Inr ms)"
  using assms(2)
proof (induction ds arbitrary: s out)
  case Nil
  then show ?case by (auto split: option.splits)
next
  case (Cons d ds)
  have d: "d \<in> set live_dirs" "set ds \<subseteq> set live_dirs" using Cons.prems by auto
  note r = due_from_dir_book [OF assms(1) d(1) Cons.prems(1)]
  obtain ms where ms: "snd (due_from_dir e s d) = Inr ms" using r(3) by blast
  note ih = Cons.IH [OF r(2) d(2), of "out @ ms"]
  have "book_of (fst (due_dirs e (fst (due_from_dir e s d)) ds (out @ ms))) i =
      (case book_of s i of Some (d', m) \<Rightarrow>
        if d' \<in> set (d # ds) \<and> quarantine_expired m (now e) then None else Some (d', m) | None \<Rightarrow> None)" for i
    using ih r(1) [of i] by (auto split: option.splits)
  with ih show ?case by (simp add: Let_def ms)
qed

lemma impl_due:
  assumes "no_faults e" "good_store s"
  shows "implements_book e s (QDue l) (fst (due e s l))"
proof -
  have "set pending_dirs \<subseteq> set live_dirs" by (auto simp: pending_live)
  note dd = due_dirs_book [OF assms(1) this assms(2), of "[]"]
  then obtain ms where "snd (due_dirs e s pending_dirs []) = Inr ms" by blast
  then have "fst (due e s l) = fst (due_dirs e s pending_dirs [])" "q_error e (QDue l) s = None"
    by (simp_all add: due_def Let_def)
  moreover have "book_due (now e) (book_of s) = book_of (fst (due_dirs e s pending_dirs []))"
    using dd by (simp add: fun_eq_iff book_due_def)
  ultimately show ?thesis using dd by (simp add: implements_book_def)
qed

lemma qstep_implements:
  assumes "qstep e op s s'" "no_faults e" "good_store s"
  shows "implements_book e s op s'"
  using assms
  by (cases rule: qstep.cases) (simp_all add: impl_enqueue impl_worker impl_due impl_requeue impl_delete)

end
