(* ===== verification/Queue_Due.thy ===== *)
theory Queue_Due
  imports Queue_Simulation
begin

text \<open>
  What \<^verbatim>\<open>Due\<close> returns, and how an accepted message changes the usage of the queue.
\<close>

section \<open>Soundness of a scan, under every environment\<close>

definition due_now :: "env \<Rightarrow> message \<Rightarrow> bool" where
  "due_now e m \<longleftrightarrow> m_quarantine m = None \<and> next_attempt m \<le> now e"

lemma poison_json_subset:
  "d \<noteq> Poison \<Longrightarrow> file_at (quarantine_poison e s d' n err) d n' = Some c \<Longrightarrow> file_at s d n' = Some c"
  by (auto simp: quarantine_poison_def os_write_file_def os_remove_file_at Let_def
           split: option.splits if_splits)

lemma remove_subset:
  "file_at (fst (os_remove e s d' n)) d n' = Some c \<Longrightarrow> file_at s d n' = Some c"
  by (auto simp: os_remove_file_at split: if_splits)

text \<open>What removing an entry and setting one aside as poison both keep, the loop keeps.\<close>
lemma due_entries_keeps:
  assumes "\<And>s n. P s \<Longrightarrow> P (fst (os_remove e s d n))"
    and "\<And>s n err. P s \<Longrightarrow> P (quarantine_poison e s d n err)"
  shows "P s \<Longrightarrow> P (fst (due_entries e s d ns acc))"
proof (induction ns arbitrary: s acc)
  case (Cons n ns)
  have here: "P (fst (due_entries e s d ns acc'))" for acc'
    by (rule Cons.IH [OF Cons.prems])
  have rm: "P (fst (os_remove e s d n))" using Cons.prems by (rule assms(1))
  have gone: "P (fst (due_entries e (fst (os_remove e s d n)) d ns acc))"
    by (rule Cons.IH [OF rm])
  have poison: "P (fst (due_entries e (quarantine_poison e s d n err) d ns acc))" for err
    by (intro Cons.IH assms(2) Cons.prems)
  show ?case
    unfolding due_entries.simps Let_def
    by (cases "store_read e s d n"; cases "snd (os_remove e s d n)")
       (auto intro: here rm gone poison)
qed simp

lemma due_entries_subset:
  assumes "d' \<noteq> Poison" "file_at (fst (due_entries e s d ns acc)) d' n = Some c"
  shows "file_at s d' n = Some c"
proof -
  let ?P = "\<lambda>s'. file_at s' d' n = Some c \<longrightarrow> file_at s d' n = Some c"
  have "?P (fst (due_entries e s d ns acc))"
  proof (rule due_entries_keeps [of ?P])
    show "?P s' \<Longrightarrow> ?P (fst (os_remove e s' d n'))" for s' n'
      using remove_subset [of e s' d n' d' n c] by blast
    show "?P s' \<Longrightarrow> ?P (quarantine_poison e s' d n' err)" for s' n' err
      using poison_json_subset [OF assms(1), of e s' d n' err n c] by blast
  qed simp
  with assms(2) show ?thesis by simp
qed

lemma due_entries_sound:
  assumes "d \<noteq> Poison" "snd (due_entries e s d ns acc) = Inr ms" "m \<in> set ms"
  shows "m \<in> set acc \<or> due_now e m \<and> (\<exists>n. is_json n \<and> file_at s d n = Some (JsonMsg m))"
  using assms(2)
proof (induction ns arbitrary: s acc)
  case Nil
  with assms(3) show ?case by simp
next
  case (Cons n ns)
  consider (kept) "snd (due_entries e s d ns acc) = Inr ms"
    | (poison) err where "snd (due_entries e (quarantine_poison e s d n err) d ns acc) = Inr ms"
    | (expired) "snd (due_entries e (fst (os_remove e s d n)) d ns acc) = Inr ms"
    | (taken) m' where "snd (due_entries e s d ns (acc @ [m'])) = Inr ms" "due_now e m'"
        "is_json n" "store_read e s d n = Inr m'"
    using Cons.prems unfolding due_entries.simps Let_def
    by (cases "store_read e s d n"; cases "snd (os_remove e s d n)")
       (auto simp: due_now_def split: if_split_asm)
  then show ?case
  proof cases
    case kept
    then show ?thesis by (rule Cons.IH)
  next
    case poison
    then show ?thesis using Cons.IH [OF poison] poison_json_subset [OF assms(1)] by blast
  next
    case expired
    then show ?thesis using Cons.IH [OF expired] remove_subset by blast
  next
    case taken
    then show ?thesis using Cons.IH [OF taken(1)] by (auto simp: store_read_Inr)
  qed
qed

lemma due_dirs_sound:
  assumes "snd (due_dirs e s ds out) = Inr ms" "m \<in> set ms" "Poison \<notin> set ds"
  shows "m \<in> set out \<or>
    due_now e m \<and> (\<exists>d \<in> set ds. \<exists>n. is_json n \<and> file_at s d n = Some (JsonMsg m))"
  using assms
proof (induction ds arbitrary: s out)
  case (Cons d ds)
  let ?r = "due_from_dir e s d"
  from Cons.prems obtain xs where xs: "snd ?r = Inr xs"
    and rest: "snd (due_dirs e (fst ?r) ds (out @ xs)) = Inr ms"
    by (auto simp: Let_def split: sum.splits)
  have nd: "d \<noteq> Poison" "Poison \<notin> set ds" using Cons.prems(3) by auto
  have sub: "d' \<in> set ds \<Longrightarrow> file_at (fst ?r) d' n = Some c \<Longrightarrow> file_at s d' n = Some c" for d' n c
    using nd due_entries_subset [of d' e s d] by (auto simp: due_from_dir_def split: sum.splits)
  have "m' \<in> set xs \<Longrightarrow> due_now e m' \<and> (\<exists>n. is_json n \<and> file_at s d n = Some (JsonMsg m'))" for m'
    using xs due_entries_sound [OF nd(1), of e s _ "[]" xs m'] by (auto simp: due_from_dir_def split: sum.splits)
  with Cons.IH [OF rest Cons.prems(2) nd(2)] sub show ?case by fastforce
qed simp

text \<open>Every message \<^verbatim>\<open>Due\<close> hands out is in a pending directory, due and not in quarantine.\<close>
lemma due_sound:
  assumes "due e s l = (s', Inr ms)" "m \<in> set ms"
  shows "due_now e m" and "\<exists>d \<in> set pending_dirs. \<exists>n. is_json n \<and> file_at s d n = Some (JsonMsg m)"
proof -
  from assms(1) obtain out where out: "snd (due_dirs e s pending_dirs []) = Inr out"
      "ms = take l (sort_key next_attempt out)"
    by (auto simp: due_def Let_def split: sum.splits)
  then have "m \<in> set out" using assms(2) set_take_subset by fastforce
  then show "due_now e m" and "\<exists>d \<in> set pending_dirs. \<exists>n. is_json n \<and> file_at s d n = Some (JsonMsg m)"
    using due_dirs_sound [OF out(1), of m] by (auto simp: pending_dirs_def)
qed

lemma due_sorted: "due e s l = (s', Inr ms) \<Longrightarrow> sorted (map next_attempt ms) \<and> length ms \<le> l"
  by (auto simp: due_def Let_def take_map [symmetric] split: sum.splits intro!: sorted_wrt_take)

section \<open>Completeness of a scan, when no system call fails\<close>

fun eligible_content :: "env \<Rightarrow> fcontent \<Rightarrow> message list" where
  "eligible_content e (JsonMsg m) = (if due_now e m then [m] else [])"
| "eligible_content e _ = []"

definition eligible_in :: "env \<Rightarrow> (string \<times> fcontent) list \<Rightarrow> message list" where
  "eligible_in e ps = concat (map (\<lambda>p. if is_json (fst p) then eligible_content e (snd p) else []) ps)"

definition eligible :: "env \<Rightarrow> store \<Rightarrow> message list" where
  "eligible e s = concat (map (\<lambda>d. eligible_in e (files s d)) pending_dirs)"

lemma due_entries_complete:
  assumes "no_faults e" "d \<noteq> Poison" "distinct (map fst ps)"
    and "\<And>p. p \<in> set ps \<Longrightarrow> file_at s d (fst p) = Some (snd p)"
  shows "snd (due_entries e s d (map fst ps) acc) = Inr (acc @ eligible_in e ps)"
  using assms(3,4)
proof (induction ps arbitrary: s acc)
  case Nil
  then show ?case by (simp add: eligible_in_def)
next
  case (Cons p ps)
  obtain n c where p: "p = (n, c)" by (cases p)
  have f: "file_at s d n = Some c" using Cons.prems(2) [of p] p by simp
  have fresh: "n \<notin> fst ` set ps" and dist: "distinct (map fst ps)" using Cons.prems(1) p by auto
  have rest: "p' \<in> set ps \<Longrightarrow> file_at s d (fst p') = Some (snd p')" for p'
    using Cons.prems(2) by simp
  have keep: "p' \<in> set ps \<Longrightarrow> file_at s' d (fst p') = Some (snd p')"
    if "\<And>n'. n' \<noteq> n \<Longrightarrow> file_at s' d n' = file_at s d n'" for s' p'
    using rest that fresh by (metis image_eqI)
  show ?case
  proof (cases "is_json n")
    case False
    with Cons.IH [OF dist rest] p show ?thesis by (simp add: eligible_in_def)
  next
    case json: True
    show ?thesis
    proof (cases c)
      case (JsonMsg m)
      then have r: "store_read e s d n = Inr m" using f assms(1) by (simp add: store_read_def)
      show ?thesis
      proof (cases "quarantine_expired m (now e)")
        case True
        have q: "\<not> due_now e m" using True by (auto simp: due_now_def quarantine_expired_def split: option.splits)
        have ok: "snd (os_remove e s d n) = None" using f assms(1) by (simp add: os_remove_def)
        have "snd (due_entries e (fst (os_remove e s d n)) d (map fst ps) acc) = Inr (acc @ eligible_in e ps)"
          by (intro Cons.IH dist keep) simp_all
        with True q ok json r p JsonMsg show ?thesis by (simp add: eligible_in_def Let_def)
      next
        case False
        have IH: "snd (due_entries e s d (map fst ps) acc') = Inr (acc' @ eligible_in e ps)" for acc'
          by (rule Cons.IH [OF dist rest])
        show ?thesis
          using False IH json r p JsonMsg by (auto simp: eligible_in_def due_now_def)
      qed
    next
      case (Raw b)
      then have r: "store_read e s d n = Inl ErrDecode" using f assms(1) by (simp add: store_read_def)
      have "snd (due_entries e (quarantine_poison e s d n ErrDecode) d (map fst ps) acc) =
          Inr (acc @ eligible_in e ps)"
        using assms(2)
        by (intro Cons.IH dist keep)
           (auto simp: quarantine_poison_def os_write_file_def os_remove_file_at Let_def split: option.splits)
      with json r p Raw show ?thesis by (simp add: eligible_in_def)
    next
      case (PoisonOf cause c')
      then have r: "store_read e s d n = Inl ErrDecode" using f assms(1) by (simp add: store_read_def)
      have "snd (due_entries e (quarantine_poison e s d n ErrDecode) d (map fst ps) acc) =
          Inr (acc @ eligible_in e ps)"
        using assms(2)
        by (intro Cons.IH dist keep)
           (auto simp: quarantine_poison_def os_write_file_def os_remove_file_at Let_def split: option.splits)
      with json r p PoisonOf show ?thesis by (simp add: eligible_in_def)
    qed
  qed
qed

lemma due_entries_other:
  assumes "d' \<noteq> d" "d' \<noteq> Poison"
  shows "files (fst (due_entries e s d ns acc)) d' = files s d'"
proof -
  have rm: "files (fst (os_remove e s' d n)) d' = files s' d'" for s' n
    using assms by (simp add: os_remove_def fs_del_def)
  have po: "files (quarantine_poison e s' d n err) d' = files s' d'" for s' n err
    using assms rm by (simp add: quarantine_poison_def os_write_file_def fs_put_def Let_def split: option.split)
  show ?thesis
    by (rule due_entries_keeps [of "\<lambda>s'. files s' d' = files s d'"]) (simp_all add: rm po)
qed

lemma due_from_dir_complete:
  assumes "no_faults e" "d \<noteq> Poison" "dwf (files s d)"
  shows "snd (due_from_dir e s d) = Inr (eligible_in e (files s d))"
    and "d' \<noteq> d \<Longrightarrow> d' \<noteq> Poison \<Longrightarrow> files (fst (due_from_dir e s d)) d' = files s d'"
  using assms dwf_distinct [OF assms(3)] dwf_lookup [OF assms(3)]
  by (auto simp: due_from_dir_def os_read_dir_def due_entries_other file_at_def
           intro!: due_entries_complete [where acc = "[]", simplified])

lemma due_dirs_complete:
  assumes "no_faults e" "store_wf s" "distinct ds" "Poison \<notin> set ds"
  shows "snd (due_dirs e s ds out) = Inr (out @ concat (map (\<lambda>d. eligible_in e (files s d)) ds))"
  using assms(2-)
proof (induction ds arbitrary: s out)
  case (Cons d ds)
  let ?r = "due_from_dir e s d"
  have d: "d \<noteq> Poison" "dwf (files s d)" using Cons.prems by (auto simp: store_wf_def)
  note c = due_from_dir_complete [OF assms(1) d]
  have same: "d' \<in> set ds \<Longrightarrow> files (fst ?r) d' = files s d'" for d'
    using Cons.prems by (intro c(2)) auto
  have "snd (due_dirs e (fst ?r) ds o') = Inr (o' @ concat (map (\<lambda>d. eligible_in e (files (fst ?r) d)) ds))" for o'
    using Cons.prems by (intro Cons.IH) auto
  moreover have "map (\<lambda>d. eligible_in e (files (fst ?r) d)) ds = map (\<lambda>d. eligible_in e (files s d)) ds"
    using same by simp
  ultimately show ?case using c(1) by (simp add: Let_def)
qed simp

lemma due_complete:
  assumes "no_faults e" "store_wf s"
  shows "snd (due e s l) = Inr (take l (sort_key next_attempt (eligible e s)))"
  using due_dirs_complete [OF assms, of pending_dirs "[]"]
  by (simp add: due_def Let_def eligible_def pending_dirs_def)

section \<open>Usage after an accepted message\<close>

lemma filter_dput_skip: "\<not> P k \<Longrightarrow> filter (\<lambda>p. P (fst p)) (dput k v xs) = filter (\<lambda>p. P (fst p)) xs"
  by (induction k v xs rule: dput.induct) auto

lemma filter_ddel_skip: "\<not> P k \<Longrightarrow> filter (\<lambda>p. P (fst p)) (ddel k xs) = filter (\<lambda>p. P (fst p)) xs"
  unfolding ddel_def by (induction xs) auto

lemma mset_dput_new:
  "map_of xs k = None \<Longrightarrow> dwf xs \<Longrightarrow> P k \<Longrightarrow>
     length (filter (\<lambda>p. P (fst p)) (dput k v xs)) = Suc (length (filter (\<lambda>p. P (fst p)) xs)) \<and>
     (\<Sum>p \<leftarrow> filter (\<lambda>p. P (fst p)) (dput k v xs). g (snd p)) =
       (g v + (\<Sum>p \<leftarrow> filter (\<lambda>p. P (fst p)) xs. g (snd p)) :: int)"
proof (induction k v xs rule: dput.induct)
  case (2 k v k' v' xs)
  then show ?case by (auto simp: dwf_def split: if_splits)
qed simp

lemma json_entries_fs_put:
  "json_entries (fs_put s d n c) d' = filter (\<lambda>p. is_json (fst p)) (if d' = d then dput n c (files s d) else files s d')"
  by (simp add: json_entries_def fs_put_def)

lemma json_entries_put_tmp [simp]: "json_entries (fs_put s d (tmp_name n) c) d' = json_entries s d'"
  by (simp add: json_entries_fs_put filter_dput_skip [of is_json]) (simp add: json_entries_def)

lemma json_entries_del_tmp [simp]: "json_entries (fs_del s d (tmp_name n)) d' = json_entries s d'"
  using filter_ddel_skip [of is_json "tmp_name n" "files s d"]
  by (auto simp: json_entries_def fs_del_def simp del: filter_filter)

lemma json_entries_remove_tmp [simp]:
  "json_entries (fst (os_remove e s d (tmp_name n))) d' = json_entries s d'"
  by (simp add: os_remove_def)

lemma json_entries_put_new:
  assumes "store_wf s" "file_at s Inbound (json_name i) = None"
  shows "length (json_entries (fs_put s Inbound (json_name i) (JsonMsg m)) Inbound) =
      Suc (length (json_entries s Inbound))"
    and "(\<Sum>p \<leftarrow> json_entries (fs_put s Inbound (json_name i) (JsonMsg m)) Inbound. content_bytes (snd p)) =
      int (length (m_data m)) + (\<Sum>p \<leftarrow> json_entries s Inbound. content_bytes (snd p))"
  using mset_dput_new [of "files s Inbound" "json_name i" is_json "JsonMsg m" content_bytes] assms
  by (simp_all add: json_entries_fs_put json_entries_def [of s] store_wf_def file_at_def)

lemma write_usage:
  assumes "store_wf s" "snd (store_write e s Inbound (json_name i) m) = None"
    "file_at s Inbound (json_name i) = None"
  shows "pending_count (fst (store_write e s Inbound (json_name i) m)) = pending_count s + 1"
    and "pending_bytes (fst (store_write e s Inbound (json_name i) m)) =
           pending_bytes s + int (length (m_data m))"
proof -
  let ?n = "json_name i"
  define s1 where "s1 = fs_del (fs_put s Inbound (tmp_name ?n) (JsonMsg m)) Inbound (tmp_name ?n)"
  have w: "fst (store_write e s Inbound ?n m) =
      fst (os_remove e (fs_put s1 Inbound ?n (JsonMsg m)) Inbound (tmp_name ?n))"
    using assms(2)
    by (auto simp: store_write_def s1_def Let_def os_write_file_def split: option.splits if_splits)
  have s1: "json_entries s1 d = json_entries s d" for d by (simp add: s1_def)
  have "store_wf s1" "file_at s1 Inbound ?n = None"
    using assms(1,3) by (auto simp: s1_def file_at_def fs_del_def fs_put_def store_wf_def)
  note new = json_entries_put_new [OF this, of m, unfolded s1]
  have other: "d \<noteq> Inbound \<Longrightarrow> json_entries (fs_put s1 Inbound ?n (JsonMsg m)) d = json_entries s d" for d
    using s1 [of d] by (simp add: json_entries_fs_put json_entries_def [of s1])
  show "pending_count (fst (store_write e s Inbound ?n m)) = pending_count s + 1"
    and "pending_bytes (fst (store_write e s Inbound ?n m)) = pending_bytes s + int (length (m_data m))"
    unfolding w using new by (simp_all add: other pending_count_def pending_bytes_def pending_dirs_def)
qed

lemma enqueue_fresh:
  assumes "enqueue e s m = (s', m', None)" "\<not> held s (m_id m)"
  shows "m' = m\<lparr>created_at := now e, updated_at := now e, next_attempt := now e\<rparr> \<and>
    snd (admit e s m') = None \<and>
    snd (store_write e (fst (admit e s m')) Inbound (json_name (m_id m)) m') = None \<and>
    s' = fst (store_write e (fst (admit e s m')) Inbound (json_name (m_id m)) m')"
proof -
  have "message_state e s (m_id m) = Inr StNone \<or> (\<exists>err. message_state e s (m_id m) = Inl err)"
    using assms(2) by (auto simp: message_state_def state_order_def held_def live_dirs_def)
  with assms(1) show ?thesis
    by (auto simp: enqueue_def Let_def split: if_splits)
qed

lemma enqueue_within_limits:
  assumes "store_wf s" "enqueue e s m = (s', m', None)" "\<not> held s (m_id m)"
  shows "0 < max_messages (limits s) \<longrightarrow> pending_count s' \<le> max_messages (limits s)"
    and "0 < max_bytes (limits s) \<longrightarrow> pending_bytes s' \<le> max_bytes (limits s)"
proof -
  note f = enqueue_fresh [OF assms(2,3)]
  let ?s1 = "fst (admit e s m')"
  obtain a where a: "admit e s m' = (a, None)" using f by (metis prod.collapse)
  note acc = admit_accepts [OF a assms(1)]
  have wf: "store_wf ?s1" using assms(1) by simp
  have "file_at ?s1 Inbound (json_name (m_id m)) = None"
    using assms(3) by (auto simp: held_def)
  note u = write_usage [OF wf _ this, of e m']
  have same: "pending_count ?s1 = pending_count s" "pending_bytes ?s1 = pending_bytes s"
    by (simp_all add: pending_count_def pending_bytes_def json_entries_def)
  show "0 < max_messages (limits s) \<longrightarrow> pending_count s' \<le> max_messages (limits s)"
    and "0 < max_bytes (limits s) \<longrightarrow> pending_bytes s' \<le> max_bytes (limits s)"
    using f acc(1,2) u same by auto
qed

end
