(* ===== verification/Queue_Claims.thy ===== *)
theory Queue_Claims
  imports Queue_Due
begin

text \<open>
  The properties of the local queue, with concrete stores on which their hypotheses hold.
\<close>

section \<open>A concrete queue\<close>

definition w_env :: env where
  "w_env = \<lparr>now = 100, io_fails = (\<lambda>_ _ _. False), json_len = (\<lambda>_. Some 10), free_bytes = Some 1000\<rparr>"

definition w_store :: store where
  "w_store = \<lparr>limits = \<lparr>max_messages = 2, max_bytes = 8, min_free_bytes = 100, low_percent = 50\<rparr>,
     paused = False, files = (\<lambda>_. [])\<rparr>"

definition w_msg :: message where
  "w_msg = new_message ''a''\<lparr>rcpt_to := [''u@x.example''], m_data := ''abc''\<rparr>"

text \<open>The message as the queue stores it, and the store that holds it.\<close>
definition w_msg1 :: message where
  "w_msg1 = w_msg\<lparr>created_at := 100, updated_at := 100, next_attempt := 100\<rparr>"

definition w_store1 :: store where
  "w_store1 = w_store\<lparr>files := (\<lambda>_. [])(Inbound := [(''a.json'', JsonMsg w_msg1)])\<rparr>"

lemmas w_defs = w_env_def w_store_def w_msg_def w_msg1_def w_store1_def new_message_def

lemma json_name_eval: "json_name i = i @ ''.json''" "tmp_name n = n @ ''.tmp''"
  by (simp_all add: json_name_def tmp_name_def)

lemma w_no_faults: "no_faults w_env"
  by (simp add: no_faults_def w_env_def)

lemma w_wf: "store_wf w_store" "store_wf w_store1"
  by (simp_all add: store_wf_def w_store_def w_store1_def dwf_def)

lemma w_not_held: "\<not> held w_store i"
  by (simp add: held_def live_dirs_def file_at_def w_store_def)

lemma w_held: "held w_store1 ''a''"
  by (simp add: held_def live_dirs_def file_at_def w_store1_def json_name_def)

lemma w_enqueue: "enqueue w_env w_store w_msg = (w_store1, w_msg1, None)"
  by (simp add: enqueue_def message_state_def state_order_def admit_def usage_def pending_dirs_def
        os_read_dir_def disk_check_def capacity_enabled_def below_def effective_low_def store_write_def
        os_write_file_def os_remove_def fs_put_def fs_del_def file_at_def ddel_def json_name_eval w_defs
        trim_space_def trim_left_def trim_right_def is_space_def Let_def fun_eq_iff)

lemma w_file1: "file_at w_store1 d (json_name i) =
    (if d = Inbound \<and> i = ''a'' then Some (JsonMsg w_msg1) else None)"
  by (simp add: file_at_def w_store1_def json_name_def)

lemma w_good: "good_store w_store1"
  unfolding good_store_def readable_def one_place_def
  by (auto simp: w_wf w_file1 split: if_splits)

lemma w_abs: "abs_state w_store1 ''a'' = StInbound"
  by (simp add: abs_state_def w_file1) (simp add: w_defs)

lemma w_eligible: "eligible w_env w_store1 = [w_msg1]"
  by (simp add: eligible_def eligible_in_def pending_dirs_def w_store1_def is_json_def has_suffix_def
        due_now_def w_env_def w_msg1_def w_msg_def new_message_def)

section \<open>Durability\<close>


lemma w_run: "qrun w_store1 (fst (retry_msg w_env w_store1 w_msg1 60 ''busy''))"
  by (rule qrun_step [OF qrun_refl q_retry])


text \<open>C19: An enqueue that reports success is durable and idempotent: a known identifier changes
  nothing; a new one is in the inbound directory, with only its three times set, and every other
  message file is as it was. This holds whatever the environment.\<close>
theorem enqueue_durable:
  assumes "enqueue e s m = (s', m', None)"
  shows "if held s (m_id m) then s' = s \<and> m' = m
    else m' = m\<lparr>created_at := now e, updated_at := now e, next_attempt := now e\<rparr> \<and>
      file_at s' Inbound (json_name (m_id m)) = Some (JsonMsg m') \<and>
      (\<forall>d i. (d, i) \<noteq> (Inbound, m_id m) \<longrightarrow> file_at s' d (json_name i) = file_at s d (json_name i))"
proof (cases "held s (m_id m)")
  case True
  then have "message_state e s (m_id m) \<noteq> Inr StNone"
    by (auto simp: message_state_def state_order_def held_def live_dirs_def split: sum.splits if_splits)
  with True assms show ?thesis
    by (auto simp: enqueue_def Let_def split: if_splits sum.splits)
next
  case False
  note f = enqueue_fresh [OF assms False]
  from f False show ?thesis by (auto simp: store_write_file_at)
qed

theorem enqueue_durable_witness:
  "w_msg1 = w_msg\<lparr>created_at := now w_env, updated_at := now w_env, next_attempt := now w_env\<rparr> \<and>
    file_at w_store1 Inbound (json_name ''a'') = Some (JsonMsg w_msg1)"
  using enqueue_durable [OF w_enqueue] by (simp add: w_not_held) (simp add: w_msg_def new_message_def)

section \<open>Capacity\<close>

text \<open>C20: Admission keeps the configured bounds: after a new message was accepted, the number of
  pending messages and the bytes of their bodies, the new message included, are within the limits
  that are set.\<close>
theorem capacity_respected:
  assumes "store_wf s" "enqueue e s m = (s', m', None)" "\<not> held s (m_id m)"
  shows "(0 < max_messages (limits s) \<longrightarrow> pending_count s' \<le> max_messages (limits s)) \<and>
    (0 < max_bytes (limits s) \<longrightarrow> pending_bytes s' \<le> max_bytes (limits s))"
  using enqueue_within_limits [OF assms] by simp

theorem capacity_respected_witness:
  "pending_count w_store1 \<le> 2 \<and> pending_bytes w_store1 \<le> 8"
  using capacity_respected [OF w_wf(1) w_enqueue w_not_held] by (simp add: w_store_def)

definition w_full :: store where
  "w_full = w_store1\<lparr>paused := True,
     limits := \<lparr>max_messages = 1, max_bytes = 0, min_free_bytes = 0, low_percent = 0\<rparr>\<rparr>"

text \<open>Hysteresis: once a limit was hit, nothing is admitted, and the store stays paused, while
  the number of pending messages or their bytes are above the low watermark of their limit, which
  is \<open>\<lfloor>limit * low / 100\<rfloor>\<close> although the code never multiplies the whole limit.\<close>
theorem capacity_hysteresis:
  assumes "paused s" "store_wf s" "capacity_enabled (limits s)" "capacity_validate (limits s)"
    and "0 < max_messages (limits s) \<and> max_messages (limits s) * effective_low (limits s) div 100 < pending_count s \<or>
         0 < max_bytes (limits s) \<and> max_bytes (limits s) * effective_low (limits s) div 100 < pending_bytes s"
  shows "snd (admit e s m) \<noteq> None \<and> paused (fst (admit e s m))"
proof (rule admit_hysteresis [OF assms(1-3)])
  have "0 \<le> effective_low (limits s)" "0 \<le> max_messages (limits s)" "0 \<le> max_bytes (limits s)"
    using assms(4) by (auto simp: capacity_validate_def effective_low_def)
  then show "\<not> below (effective_low (limits s)) (pending_count s) (max_messages (limits s)) \<or>
      \<not> below (effective_low (limits s)) (pending_bytes s) (max_bytes (limits s))"
    using assms(5) by (auto simp: below_def watermark_exact)
qed

theorem capacity_hysteresis_witness:
  "snd (admit w_env w_full w_msg) \<noteq> None \<and> paused (fst (admit w_env w_full w_msg))"
proof (rule capacity_hysteresis)
  show "paused w_full" by (simp add: w_full_def)
  show "store_wf w_full" using w_wf(2) by (simp add: w_full_def store_wf_def)
qed (simp_all add: w_full_def capacity_enabled_def capacity_validate_def effective_low_def pending_count_def
      pending_dirs_def json_entries_def w_store1_def is_json_def has_suffix_def)

section \<open>Due messages\<close>

text \<open>C18: When no system call fails, \<^verbatim>\<open>Due\<close> returns exactly the messages of the pending
  directories that are due and not in quarantine, ordered by their next attempt and cut at the
  limit.\<close>
theorem due_exact:
  assumes "no_faults e" "store_wf s"
  shows "snd (due e s l) = Inr (take l (sort_key next_attempt (eligible e s)))"
  by (rule due_complete [OF assms])

theorem due_exact_witness: "snd (due w_env w_store1 5) = Inr [w_msg1]"
  using due_exact [OF w_no_faults w_wf(2), of 5] by (simp add: w_eligible)

text \<open>Under every failure of the file system, what \<^verbatim>\<open>Due\<close> hands to the worker is sorted by
  next attempt, within the limit, and each message is stored in a pending directory, is due and is
  not in quarantine.\<close>
theorem due_safe:
  assumes "due e s l = (s', Inr ms)"
  shows "sorted (map next_attempt ms) \<and> length ms \<le> l \<and>
    (\<forall>m \<in> set ms. m_quarantine m = None \<and> next_attempt m \<le> now e \<and>
       (\<exists>d \<in> set pending_dirs. \<exists>n. file_at s d n = Some (JsonMsg m)))"
proof -
  have "m \<in> set ms \<Longrightarrow> m_quarantine m = None \<and> next_attempt m \<le> now e \<and>
       (\<exists>d \<in> set pending_dirs. \<exists>n. file_at s d n = Some (JsonMsg m))" for m
    using due_sound [OF assms, of m] unfolding due_now_def by blast
  with due_sorted [OF assms] show ?thesis by simp
qed

lemma w_due: "due w_env w_store1 1 = (fst (due w_env w_store1 1), Inr [w_msg1])"
proof -
  have "snd (due w_env w_store1 1) = Inr [w_msg1]"
    by (simp add: due_complete [OF w_no_faults w_wf(2)] w_eligible)
  then show ?thesis by (metis prod.collapse)
qed

theorem due_safe_witness:
  "length [w_msg1] \<le> 1 \<and> m_quarantine w_msg1 = None \<and> next_attempt w_msg1 \<le> now w_env"
  using due_safe [OF w_due] by simp

section \<open>Life cycle\<close>

text \<open>C7: The store implements an abstract queue, a map from identifiers to the directory and the message filed
  under them, operation by operation. In a store where every message has one readable file (\<open>good_store\<close>), when no system call fails and messages can be encoded
  (\<open>no_faults\<close>), each of the eight operations has exactly the effect and the error that \<open>book_op\<close> gives it: an enqueue files
  a new message as inbound if the capacity check admits it, an acknowledgement moves a pending message to the sent ones and nothing else,
  a scan for due messages takes out exactly the messages whose quarantine has expired, and so on. The store is again one with one readable file per message.\<close>
theorem queue_simulates_lifecycle:
  assumes "qstep e op s s'" "no_faults e" "good_store s"
  shows "(book_of s', q_error e op s) = book_op (now e) (\<lambda>m. snd (admit e s m)) op (book_of s) \<and> good_store s'"
  using qstep_implements [OF assms] by (simp add: implements_book_def)

theorem queue_simulates_lifecycle_witness:
  "book_of (fst (fail_msg w_env w_store1 w_msg1 ''no'')) ''a'' =
     Some (Dlq, w_msg1\<lparr>attempts := 1, last_error := ''no'', updated_at := 100\<rparr>) \<and>
    q_error w_env (QFail w_msg1 ''no'') w_store1 = None \<and> good_store (fst (fail_msg w_env w_store1 w_msg1 ''no''))"
proof -
  have a: "book_of w_store1 ''a'' = Some (Inbound, w_msg1)" by (simp add: book_of_iff [OF w_good] w_file1)
  have i: "m_id w_msg1 = ''a''" "m_quarantine w_msg1 = None" "attempts w_msg1 = 0" "now w_env = 100" by (simp_all add: w_defs)
  show ?thesis
    using queue_simulates_lifecycle [OF q_fail w_no_faults w_good, of w_msg1 "''no''"]
    by (simp add: book_move_def i a state_in_def pending_states_def)
qed

text \<open>The worker's four operations do to the state of the message what their contract says,
  on every state it can be in, errors included: sent and dead messages are final, a quarantined or
  unknown one is refused, and no other message changes its state.\<close>
theorem worker_operations_refine:
  assumes "no_faults e" "good_store s"
  shows "abs_state (fst (ack_sent e s i m)) = (abs_state s)(i := fst (spec_ack (abs_state s i))) \<and>
      snd (snd (ack_sent e s i m)) = snd (spec_ack (abs_state s i)) \<and>
      abs_state (fst (retry_msg e s m dl r)) = (abs_state s)(m_id m := fst (spec_retry (abs_state s (m_id m)))) \<and>
      snd (snd (retry_msg e s m dl r)) = snd (spec_retry (abs_state s (m_id m))) \<and>
      abs_state (fst (defer_msg e s m dl)) = (abs_state s)(m_id m := fst (spec_retry (abs_state s (m_id m)))) \<and>
      snd (snd (defer_msg e s m dl)) = snd (spec_retry (abs_state s (m_id m))) \<and>
      abs_state (fst (fail_msg e s m r)) = (abs_state s)(m_id m := fst (spec_fail (abs_state s (m_id m)))) \<and>
      snd (snd (fail_msg e s m r)) = snd (spec_fail (abs_state s (m_id m)))"
  using worker_refines [OF assms] by blast

theorem worker_operations_refine_witness:
  "abs_state (fst (ack_sent w_env w_store1 ''a'' w_msg1)) ''a'' = StSent"
proof -
  from worker_operations_refine [OF w_no_faults w_good, of "''a''"] show ?thesis
    by (simp add: w_abs)
qed

end
