(* ===== verification/Queue_Backend.thy ===== *)
theory Queue_Backend
  imports Queue_Due
begin

text \<open>
  The interface \<^verbatim>\<open>queue.Backend\<close> (\<^verbatim>\<open>internal/queue/backend.go\<close>) as a record of methods, what its
  clients rely on as a locale, and its two providers: the local store and the decorator of
  \<^verbatim>\<open>events.go\<close> that reports accepted messages to a sink. Every call runs in an environment of
  its own (\<open>'e\<close>), which for the local store holds the clock and the failing system calls. The
  methods that receive a message return it as the caller's pointer sees it afterwards.
\<close>

record ('e, 's) backend =
  be_enqueue :: "'e \<Rightarrow> 's \<Rightarrow> message \<Rightarrow> 's \<times> message \<times> qerror option"
  be_due :: "'e \<Rightarrow> 's \<Rightarrow> nat \<Rightarrow> 's \<times> (qerror + message list)"
  be_ack_sent :: "'e \<Rightarrow> 's \<Rightarrow> string \<Rightarrow> message \<Rightarrow> 's \<times> message \<times> qerror option"
  be_retry :: "'e \<Rightarrow> 's \<Rightarrow> message \<Rightarrow> duration \<Rightarrow> string \<Rightarrow> 's \<times> message \<times> qerror option"
  be_defer :: "'e \<Rightarrow> 's \<Rightarrow> message \<Rightarrow> duration \<Rightarrow> 's \<times> message \<times> qerror option"
  be_fail :: "'e \<Rightarrow> 's \<Rightarrow> message \<Rightarrow> string \<Rightarrow> 's \<times> message \<times> qerror option"

section \<open>What clients rely on\<close>

locale queue_backend =
  fixes be :: "('e, 's) backend"
    and holds :: "'s \<Rightarrow> string \<Rightarrow> bool"
    and clock :: "'e \<Rightarrow> time"
  assumes enqueue_holds: "snd (snd (be_enqueue be e s m)) = None \<Longrightarrow> holds (fst (be_enqueue be e s m)) (m_id m)"
    and enqueue_keeps: "holds s i \<Longrightarrow> holds (fst (be_enqueue be e s m)) i"
    and ack_keeps: "holds s i \<Longrightarrow> holds (fst (be_ack_sent be e s j m)) i"
    and retry_keeps: "holds s i \<Longrightarrow> holds (fst (be_retry be e s m d r)) i"
    and defer_keeps: "holds s i \<Longrightarrow> holds (fst (be_defer be e s m d)) i"
    and fail_keeps: "holds s i \<Longrightarrow> holds (fst (be_fail be e s m r)) i"
    and due_bounded: "snd (be_due be e s n) = Inr ms \<Longrightarrow> length ms \<le> n"
    and due_ripe: "snd (be_due be e s n) = Inr ms \<Longrightarrow> m \<in> set ms \<Longrightarrow>
          next_attempt m \<le> clock e \<and> m_quarantine m = None"
begin

lemmas keeps = enqueue_keeps ack_keeps retry_keeps defer_keeps fail_keeps

end

section \<open>The local store\<close>

definition local_backend :: "(env, store) backend" where
  "local_backend = \<lparr>be_enqueue = enqueue, be_due = due, be_ack_sent = ack_sent, be_retry = retry_msg,
     be_defer = defer_msg, be_fail = fail_msg\<rparr>"

lemma enqueue_held:
  assumes "snd (snd (enqueue e s m)) = None"
  shows "held (fst (enqueue e s m)) (m_id m)"
proof (cases "held s (m_id m)")
  case True
  then show ?thesis by (rule held_enqueue)
next
  case False
  obtain s' m' where r: "enqueue e s m = (s', m', None)"
    using assms by (metis prod.collapse)
  note f = enqueue_fresh [OF r False]
  have "file_at s' Inbound (json_name (m_id m)) \<noteq> None"
    using f by (auto simp: store_write_file_at)
  with r show ?thesis by (auto simp: held_def)
qed

interpretation local_queue: queue_backend local_backend held now
proof (unfold_locales, goal_cases)
  case (7 e s n ms)
  then show ?case using due_sorted [of e s n _ ms] by (metis local_backend_def backend.select_convs(2) prod.collapse)
next
  case (8 e s n ms m)
  then have "due e s n = (fst (due e s n), Inr ms)"
    by (metis local_backend_def backend.select_convs(2) prod.collapse)
  from due_sound(1) [OF this 8(2)] show ?case by (simp add: due_now_def)
qed (simp_all add: local_backend_def enqueue_held held_enqueue held_ack_sent held_retry held_defer held_fail)

section \<open>The decorator for accepted events\<close>

text \<open>
  \<^verbatim>\<open>eventBackend\<close> over a backend: the sink is a parameter, a function on its own state that may
  fail. A failing sink never turns an accepted message into an error.
\<close>
definition with_accepted_events ::
  "('e, 's) backend \<Rightarrow> ('k \<Rightarrow> message \<Rightarrow> 'k \<times> bool) \<Rightarrow> ('e, 's \<times> 'k) backend" where
  "with_accepted_events nxt sink =
     \<lparr>be_enqueue = (\<lambda>e s m.
        let r = be_enqueue nxt e (fst s) m in
        case snd (snd r) of
          Some err \<Rightarrow> ((fst r, snd s), fst (snd r), Some err)
        | None \<Rightarrow> ((fst r, fst (sink (snd s) (fst (snd r)))), fst (snd r), None)),
      be_due = (\<lambda>e s n. let r = be_due nxt e (fst s) n in ((fst r, snd s), snd r)),
      be_ack_sent = (\<lambda>e s i m. let r = be_ack_sent nxt e (fst s) i m in ((fst r, snd s), snd r)),
      be_retry = (\<lambda>e s m d x. let r = be_retry nxt e (fst s) m d x in ((fst r, snd s), snd r)),
      be_defer = (\<lambda>e s m d. let r = be_defer nxt e (fst s) m d in ((fst r, snd s), snd r)),
      be_fail = (\<lambda>e s m x. let r = be_fail nxt e (fst s) m x in ((fst r, snd s), snd r))\<rparr>"

text \<open>The decorated backend keeps the contract of the backend below it.\<close>
context queue_backend
begin

lemma with_events_contract:
  "queue_backend (with_accepted_events be sink) (\<lambda>s. holds (fst s)) clock"
proof (unfold_locales, goal_cases)
  case (1 e s m)
  then show ?case
    using enqueue_holds [of e "fst s" m] by (simp add: with_accepted_events_def Let_def split: option.splits)
next
  case (2 s i e m)
  then show ?case using enqueue_keeps by (simp add: with_accepted_events_def Let_def split: option.split)
next
  case (7 e s n ms)
  then show ?case using due_bounded [of e "fst s" n ms] by (simp add: with_accepted_events_def Let_def)
next
  case (8 e s n ms m)
  then show ?case using due_ripe [of e "fst s" n ms m] by (simp add: with_accepted_events_def Let_def)
qed (simp_all add: with_accepted_events_def Let_def keeps)

end

text \<open>The backend of the running server: the local store with accepted events.\<close>
interpretation event_queue: queue_backend "with_accepted_events local_backend sink" "\<lambda>s. held (fst s)" now
  for sink
  by (rule local_queue.with_events_contract)

end
