(* ===== verification/Fair_Queue.thy ===== *)
theory Fair_Queue
  imports Queue_Backend "HOL-Library.Product_Lexorder"
begin

text \<open>
  The fair scheduler between the queue and the workers (\<^verbatim>\<open>internal/worker/fair_queue.go\<close>) and
  the validation of its configuration (\<^verbatim>\<open>internal/config/queue_fairness.go\<close>). Go maps are
  association lists sorted by key: the code never depends on the order in which it walks them.
  The two cursors are counters that only grow by one per pick, far below the range of \<^verbatim>\<open>int\<close>.
\<close>

record fairness_config =
  fc_enabled :: bool
  prefetch_factor :: nat
  max_tenants :: nat
  tenant_max_per_batch :: nat
  class_weights :: "(string \<times> int) list"
  class_max_per_batch :: "(string \<times> int) list"
  tenant_classes :: "(string \<times> string) list"

text \<open>Indexing a Go map: the zero value for a missing key.\<close>
definition map_int :: "(string \<times> int) list \<Rightarrow> string \<Rightarrow> int" where
  "map_int m k = (case map_of m k of None \<Rightarrow> 0 | Some v \<Rightarrow> v)"

definition map_str :: "(string \<times> string) list \<Rightarrow> string \<Rightarrow> string" where
  "map_str m k = (case map_of m k of None \<Rightarrow> [] | Some v \<Rightarrow> v)"

text \<open>\<^verbatim>\<open>Validate\<close>: \<open>True\<close> for no error\<close>
definition fairness_validate :: "fairness_config \<Rightarrow> bool" where
  "fairness_validate c \<longleftrightarrow>
     \<not> fc_enabled c \<or>
     (2 \<le> prefetch_factor c \<and> prefetch_factor c \<le> 64 \<and> 2 \<le> max_tenants c \<and> max_tenants c \<le> 4096 \<and>
      class_weights c \<noteq> [] \<and> length (class_weights c) \<le> 16 \<and> length (tenant_classes c) \<le> max_tenants c \<and>
      list_all (\<lambda>(cl, w). cl = to_lower (trim_space cl) \<and> cl \<noteq> [] \<and> 1 \<le> w \<and> w \<le> 100) (class_weights c) \<and>
      list_all (\<lambda>(t, cl). t = to_lower (trim_space t) \<and> t \<noteq> [] \<and> map_int (class_weights c) cl \<noteq> 0) (tenant_classes c) \<and>
      list_all (\<lambda>(cl, l). map_int (class_weights c) cl \<noteq> 0 \<and> 1 \<le> l) (class_max_per_batch c))"

record fair_queue =
  fq_cfg :: fairness_config
  fq_buffer :: "(string \<times> message) list"
  class_cycle :: "string list"
  class_cursor :: nat
  tenant_cursor :: "string \<Rightarrow> nat"
  fq_tenants :: "string list"

text \<open>\<^verbatim>\<open>newFairQueue\<close>: every class occurs in the cycle as often as its weight.\<close>
definition weight_cycle :: "(string \<times> int) list \<Rightarrow> string list" where
  "weight_cycle ws = concat (map (\<lambda>c. replicate (nat (map_int ws c)) c) (map fst ws))"

definition new_fair_queue :: "fairness_config \<Rightarrow> fair_queue option" where
  "new_fair_queue c =
     (if \<not> fc_enabled c then None
      else Some \<lparr>fq_cfg = c, fq_buffer = [], class_cycle = weight_cycle (class_weights c), class_cursor = 0,
                 tenant_cursor = (\<lambda>_. 0), fq_tenants = [''default'', ''system'']\<rparr>)"

text \<open>\<^verbatim>\<open>normalize\<close>: the queue and the message it changes\<close>
definition fq_normalize :: "fair_queue \<Rightarrow> message \<Rightarrow> fair_queue \<times> message" where
  "fq_normalize f msg =
     (let t0 = to_lower (trim_space (tenant msg));
          cl0 = to_lower (trim_space (traffic_class msg));
          t1 = (if t0 = [] then ''default'' else t0);
          t = (if t1 \<notin> set (fq_tenants f) \<and> max_tenants (fq_cfg f) \<le> length (fq_tenants f) then ''default'' else t1);
          f' = f\<lparr>fq_tenants := List.insert t (fq_tenants f)\<rparr>;
          mapped = map_str (tenant_classes (fq_cfg f)) t;
          cl1 = (if mapped \<noteq> [] then mapped else cl0);
          cl2 = (if map_int (class_weights (fq_cfg f)) cl1 = 0 then ''default'' else cl1);
          cl = (if map_int (class_weights (fq_cfg f)) cl2 = 0 then class_cycle f ! 0 else cl2)
      in (f', msg\<lparr>tenant := t, traffic_class := cl\<rparr>))"

text \<open>The messages of a class that may still be picked in this batch.\<close>
definition fq_candidates :: "fair_queue \<Rightarrow> string \<Rightarrow> (string \<Rightarrow> nat) \<Rightarrow> message list" where
  "fq_candidates f cl tenant_counts =
     filter (\<lambda>m. traffic_class m = cl \<and>
       (tenant_max_per_batch (fq_cfg f) = 0 \<or> tenant_counts (tenant m) < tenant_max_per_batch (fq_cfg f)))
       (map snd (fq_buffer f))"

definition class_capped :: "fair_queue \<Rightarrow> string \<Rightarrow> (string \<Rightarrow> nat) \<Rightarrow> bool" where
  "class_capped f cl class_counts \<longleftrightarrow>
     (let mx = map_int (class_max_per_batch (fq_cfg f)) cl in 0 < mx \<and> mx \<le> int (class_counts cl))"

text \<open>The pick within a class: the tenants take turns, the earliest message of a tenant first.\<close>
definition fq_pick :: "fair_queue \<Rightarrow> string \<Rightarrow> message list \<Rightarrow> fair_queue \<times> message" where
  "fq_pick f cl cands =
     (let names = sorted_list_of_set (set (map tenant cands));
          idx = tenant_cursor f cl mod length names;
          items = filter (\<lambda>m. tenant m = names ! idx) cands
      in (f\<lparr>tenant_cursor := (tenant_cursor f)(cl := idx + 1)\<rparr>,
          hd (sort_key (\<lambda>m. (next_attempt m, m_id m)) items)))"

text \<open>The loop of \<^verbatim>\<open>next\<close>, at most one round of the cycle; both \<^verbatim>\<open>continue\<close> statements are the
  first branch.\<close>
fun fq_next_in :: "nat \<Rightarrow> fair_queue \<Rightarrow> (string \<Rightarrow> nat) \<Rightarrow> (string \<Rightarrow> nat) \<Rightarrow> fair_queue \<times> message option" where
  "fq_next_in 0 f cc tc = (f, None)"
| "fq_next_in (Suc k) f cc tc =
     (let cl = class_cycle f ! (class_cursor f mod length (class_cycle f));
          f1 = f\<lparr>class_cursor := class_cursor f + 1\<rparr> in
      if class_capped f cl cc \<or> fq_candidates f cl tc = [] then fq_next_in k f1 cc tc
      else (let p = fq_pick f1 cl (fq_candidates f cl tc) in (fst p, Some (snd p))))"

definition fq_next :: "fair_queue \<Rightarrow> (string \<Rightarrow> nat) \<Rightarrow> (string \<Rightarrow> nat) \<Rightarrow> fair_queue \<times> message option" where
  "fq_next f cc tc = fq_next_in (length (class_cycle f)) f cc tc"

text \<open>The refill loop and the selection loop of \<^verbatim>\<open>due\<close>. The selection runs while the batch has
  room, so it recurses on that room.\<close>
fun fq_fill :: "fair_queue \<Rightarrow> message list \<Rightarrow> fair_queue" where
  "fq_fill f [] = f"
| "fq_fill f (m # ms) =
     (if map_of (fq_buffer f) (m_id m) \<noteq> None then fq_fill f ms
      else (let r = fq_normalize f m in
            fq_fill ((fst r)\<lparr>fq_buffer := dput (m_id m) (snd r) (fq_buffer (fst r))\<rparr>) ms))"

fun fq_select :: "nat \<Rightarrow> fair_queue \<Rightarrow> (string \<Rightarrow> nat) \<Rightarrow> (string \<Rightarrow> nat) \<Rightarrow> fair_queue \<times> message list" where
  "fq_select 0 f cc tc = (f, [])"
| "fq_select (Suc room) f cc tc =
     (if fq_buffer f = [] then (f, [])
      else (case fq_next f cc tc of
              (f1, None) \<Rightarrow> (f1, [])
            | (f1, Some m) \<Rightarrow>
                (let r = fq_select room (f1\<lparr>fq_buffer := ddel (m_id m) (fq_buffer f1)\<rparr>)
                           (cc(traffic_class m := cc (traffic_class m) + 1)) (tc(tenant m := tc (tenant m) + 1))
                 in (fst r, m # snd r))))"

definition fq_due :: "('e, 's) backend \<Rightarrow> 'e \<Rightarrow> 's \<Rightarrow> fair_queue \<Rightarrow> nat
    \<Rightarrow> 's \<times> fair_queue \<times> (qerror + message list)" where
  "fq_due be e s f limit =
     (let fetch = limit * prefetch_factor (fq_cfg f);
          filled = (if length (fq_buffer f) < fetch
                    then (let r = be_due be e s (fetch - length (fq_buffer f)) in
                          (fst r, case snd r of Inl err \<Rightarrow> Inl err | Inr ms \<Rightarrow> Inr (fq_fill f ms)))
                    else (s, Inr f))
      in case snd filled of
           Inl err \<Rightarrow> (fst filled, f, Inl err)
         | Inr f1 \<Rightarrow>
             (let r = fq_select limit f1 (\<lambda>_. 0) (\<lambda>_. 0) in (fst filled, fst r, Inr (snd r))))"

text \<open>\<^verbatim>\<open>depth\<close> and \<^verbatim>\<open>stats\<close>; ages are whole seconds.\<close>
definition fq_depth :: "fair_queue \<Rightarrow> nat" where
  "fq_depth f = length (fq_buffer f)"

definition fq_count :: "(message \<Rightarrow> string) \<Rightarrow> message list \<Rightarrow> string \<Rightarrow> nat" where
  "fq_count key ms k = length (filter (\<lambda>m. key m = k) ms)"

definition fq_stats :: "fair_queue \<Rightarrow> time \<Rightarrow> (string \<Rightarrow> nat) \<times> nat \<times> nat \<times> int" where
  "fq_stats f t =
     (let ms = map snd (fq_buffer f);
          names = remdups (map tenant ms);
          ages = map (\<lambda>m. time_sub t (created_at m) div second)
                   (filter (\<lambda>m. \<not> is_zero (created_at m) \<and> created_at m < t) ms)
      in (fq_count traffic_class ms, length names,
          fold max (map (fq_count tenant ms) names) 0, fold max ages 0))"

end
