(* ===== verification/Fair_Queue_Facts.thy ===== *)
theory Fair_Queue_Facts
  imports Fair_Queue "HOL-Library.Multiset"
begin

text \<open>
  Facts about the fair scheduler: its invariant, that picking neither loses nor repeats a
  message, that the batch limits hold, and that a backlogged class gets its weight.
\<close>

section \<open>The weighted cycle\<close>

lemma count_list_replicate: "count_list (replicate n x) y = (if x = y then n else 0)"
  by (induction n) auto

lemma count_list_concat: "count_list (concat xss) y = (\<Sum>xs \<leftarrow> xss. count_list xs y)"
  by (induction xss) auto

lemma sum_list_unique:
  "distinct xs \<Longrightarrow> (\<Sum>x \<leftarrow> xs. if x = y then (g y :: nat) else 0) = (if y \<in> set xs then g y else 0)"
  by (induction xs) auto

lemma weight_cycle_count:
  assumes "distinct (map fst ws)"
  shows "count_list (weight_cycle ws) c = nat (map_int ws c)"
proof -
  have "count_list (weight_cycle ws) c =
      (\<Sum>x \<leftarrow> map fst ws. count_list (replicate (nat (map_int ws x)) x) c)"
    unfolding weight_cycle_def count_list_concat by (simp add: o_def)
  also have "\<dots> = (\<Sum>x \<leftarrow> map fst ws. if x = c then nat (map_int ws c) else 0)"
    by (intro arg_cong [of _ _ sum_list] map_cong) (auto simp: count_list_replicate)
  also have "\<dots> = (if c \<in> set (map fst ws) then nat (map_int ws c) else 0)"
    by (rule sum_list_unique [OF assms])
  also have "\<dots> = nat (map_int ws c)"
    using map_of_eq_None_iff [of ws c] by (auto simp: map_int_def split: option.splits)
  finally show ?thesis .
qed

lemma weight_cycle_member:
  assumes "map_int ws c > 0"
  shows "c \<in> set (weight_cycle ws)"
proof -
  obtain v where "map_of ws c = Some v" using assms by (auto simp: map_int_def split: option.splits)
  then have "c \<in> set (map fst ws)" by (force dest: map_of_SomeD)
  then show ?thesis using assms by (auto simp: weight_cycle_def)
qed

section \<open>The invariant\<close>

definition fq_wf :: "fair_queue \<Rightarrow> bool" where
  "fq_wf f \<longleftrightarrow>
     dwf (fq_buffer f) \<and> dwf (class_weights (fq_cfg f)) \<and> fc_enabled (fq_cfg f) \<and> fairness_validate (fq_cfg f) \<and>
     class_cycle f = weight_cycle (class_weights (fq_cfg f)) \<and>
     ''default'' \<in> set (fq_tenants f) \<and> length (fq_tenants f) \<le> max_tenants (fq_cfg f) \<and>
     (\<forall>p \<in> set (fq_buffer f). m_id (snd p) = fst p \<and> traffic_class (snd p) \<in> set (class_cycle f) \<and>
        tenant (snd p) \<in> set (fq_tenants f))"

text \<open>The part of a queue that picking never changes.\<close>
definition fq_same :: "fair_queue \<Rightarrow> fair_queue \<Rightarrow> bool" where
  "fq_same f g \<longleftrightarrow> fq_cfg g = fq_cfg f \<and> fq_buffer g = fq_buffer f \<and> class_cycle g = class_cycle f \<and>
     fq_tenants g = fq_tenants f"

lemma fq_wf_same: "fq_same f g \<Longrightarrow> fq_wf g = fq_wf f"
  by (simp add: fq_same_def fq_wf_def)

lemma weights_positive:
  assumes "fairness_validate c" "fc_enabled c" "map_int (class_weights c) cl \<noteq> 0"
  shows "map_int (class_weights c) cl > 0"
proof -
  obtain w where w: "map_of (class_weights c) cl = Some w" "w \<noteq> 0"
    using assms(3) by (auto simp: map_int_def split: option.splits)
  then have "(cl, w) \<in> set (class_weights c)" by (simp add: map_of_SomeD)
  then have "1 \<le> w" using assms(1,2) by (auto simp: fairness_validate_def list_all_iff)
  with w show ?thesis by (simp add: map_int_def)
qed

lemma cycle_nonempty:
  assumes "fairness_validate c" "fc_enabled c" "dwf (class_weights c)"
  shows "weight_cycle (class_weights c) \<noteq> []"
proof -
  obtain cl w where p: "(cl, w) \<in> set (class_weights c)"
    using assms(1,2) by (cases "class_weights c") (auto simp: fairness_validate_def)
  then have "map_of (class_weights c) cl = Some w" using dwf_lookup [OF assms(3)] by blast
  moreover have "1 \<le> w" using p assms(1,2) by (auto simp: fairness_validate_def list_all_iff)
  ultimately have "map_int (class_weights c) cl > 0" by (simp add: map_int_def)
  from weight_cycle_member [OF this] show ?thesis by auto
qed

lemma fq_wf_cycle: "fq_wf f \<Longrightarrow> class_cycle f \<noteq> []"
  by (simp add: fq_wf_def cycle_nonempty)

lemma normalize_frame [simp]:
  "fq_cfg (fst (fq_normalize f m)) = fq_cfg f" "fq_buffer (fst (fq_normalize f m)) = fq_buffer f"
  "class_cycle (fst (fq_normalize f m)) = class_cycle f" "m_id (snd (fq_normalize f m)) = m_id m"
  by (simp_all add: fq_normalize_def Let_def)

lemma normalize_class:
  assumes "fq_wf f"
  shows "traffic_class (snd (fq_normalize f m)) \<in> set (class_cycle f)"
proof -
  have pos: "map_int (class_weights (fq_cfg f)) cl \<noteq> 0 \<Longrightarrow> cl \<in> set (class_cycle f)" for cl
    using assms weights_positive weight_cycle_member by (simp add: fq_wf_def)
  have first: "class_cycle f ! 0 \<in> set (class_cycle f)" using fq_wf_cycle [OF assms] by simp
  show ?thesis using pos first by (auto simp: fq_normalize_def Let_def)
qed

lemma normalize_tenants:
  assumes "fq_wf f"
  shows "tenant (snd (fq_normalize f m)) \<in> set (fq_tenants (fst (fq_normalize f m)))"
    and "set (fq_tenants f) \<subseteq> set (fq_tenants (fst (fq_normalize f m)))"
    and "length (fq_tenants (fst (fq_normalize f m))) \<le> max_tenants (fq_cfg f)"
  using assms by (auto simp: fq_normalize_def fq_wf_def Let_def List.insert_def)

lemma fq_fill_wf: "fq_wf f \<Longrightarrow> fq_wf (fq_fill f ms)"
proof (induction ms arbitrary: f)
  case (Cons m ms)
  let ?r = "fq_normalize f m"
  let ?g = "(fst ?r)\<lparr>fq_buffer := dput (m_id m) (snd ?r) (fq_buffer (fst ?r))\<rparr>"
  have "m_id (snd p) = fst p \<and> traffic_class (snd p) \<in> set (class_cycle f) \<and>
      tenant (snd p) \<in> set (fq_tenants (fst ?r))"
    if "p \<in> set (dput (m_id m) (snd ?r) (fq_buffer f))" for p
    using set_dput [OF that] Cons.prems normalize_class [OF Cons.prems, of m]
      normalize_tenants [OF Cons.prems, of m]
    by (elim disjE) (auto simp: fq_wf_def)
  then have "fq_wf ?g"
    using Cons.prems normalize_tenants [OF Cons.prems, of m] unfolding fq_wf_def by auto
  with Cons show ?case by (simp add: Let_def)
qed simp

lemma dput_length_le: "length (dput k v xs) \<le> Suc (length xs)"
  by (induction k v xs rule: dput.induct) auto

lemma fq_fill_length: "length (fq_buffer (fq_fill f ms)) \<le> length (fq_buffer f) + length ms"
proof (induction ms arbitrary: f)
  case (Cons m ms)
  let ?r = "fq_normalize f m"
  let ?g = "(fst ?r)\<lparr>fq_buffer := dput (m_id m) (snd ?r) (fq_buffer (fst ?r))\<rparr>"
  have "length (fq_buffer ?g) \<le> Suc (length (fq_buffer f))"
    by (simp add: dput_length_le)
  with Cons [of ?g] Cons [of f] show ?case by (simp add: Let_def)
qed simp

lemma fq_fill_keys:
  "fst ` set (fq_buffer (fq_fill f ms)) = fst ` set (fq_buffer f) \<union> m_id ` set ms"
proof (induction ms arbitrary: f)
  case (Cons m ms)
  have keys: "fst ` set (dput k v xs) = insert k (fst ` set xs)" for k :: string and v :: message and xs
    using dput_keys [of k v xs] by simp
  show ?case
  proof (cases "map_of (fq_buffer f) (m_id m)")
    case None
    then show ?thesis using Cons by (auto simp: Let_def keys)
  next
    case (Some v)
    then have "m_id m \<in> fst ` set (fq_buffer f)" by (force dest: map_of_SomeD)
    with Some Cons show ?thesis by auto
  qed
qed simp

lemma fq_fill_frame [simp]: "fq_cfg (fq_fill f ms) = fq_cfg f" "class_cycle (fq_fill f ms) = class_cycle f"
  by (induction ms arbitrary: f) (simp_all add: Let_def)

section \<open>One pick\<close>

lemma fq_pick_frame [simp]:
  "fq_same f (fst (fq_pick f cl cands))" "class_cursor (fst (fq_pick f cl cands)) = class_cursor f"
  by (simp_all add: fq_pick_def fq_same_def Let_def)

lemma fq_pick_member:
  assumes "cands \<noteq> []"
  shows "snd (fq_pick f cl cands) \<in> set cands"
proof -
  define names where "names = sorted_list_of_set (set (map tenant cands))"
  define items where "items = filter (\<lambda>m. tenant m = names ! (tenant_cursor f cl mod length names)) cands"
  have "names \<noteq> []" using assms by (simp add: names_def)
  then have "names ! (tenant_cursor f cl mod length names) \<in> set names" by simp
  then have "items \<noteq> []" by (auto simp: names_def items_def filter_empty_conv)
  then have "hd (sort_key (\<lambda>m. (next_attempt m, m_id m)) items) \<in> set items"
    by (metis hd_in_set length_0_conv length_sort set_sort)
  then show ?thesis by (simp add: fq_pick_def Let_def names_def items_def)
qed

lemma candidates_frame [simp]:
  "fq_candidates (f\<lparr>class_cursor := n\<rparr>) cl tc = fq_candidates f cl tc"
  "class_capped (f\<lparr>class_cursor := n\<rparr>) cl cc = class_capped f cl cc"
  by (simp_all add: fq_candidates_def class_capped_def)

lemma fq_next_in_same: "fq_same f (fst (fq_next_in k f cc tc))"
proof (induction k arbitrary: f)
  case (Suc k)
  let ?f1 = "f\<lparr>class_cursor := class_cursor f + 1\<rparr>"
  have same: "fq_same ?f1 g \<Longrightarrow> fq_same f g" for g by (simp add: fq_same_def)
  show ?case
    using same [OF Suc [of ?f1]] same [OF fq_pick_frame(1) [of ?f1]] by (simp add: Let_def)
qed (simp add: fq_same_def)

lemma candidates_class: "m \<in> set (fq_candidates f cl tc) \<Longrightarrow> traffic_class m = cl"
  by (simp add: fq_candidates_def)

text \<open>What a pick returns is a buffered message of a class and a tenant below their limits.\<close>
lemma fq_next_in_Some:
  assumes "snd (fq_next_in k f cc tc) = Some m"
  shows "m \<in> set (fq_candidates f (traffic_class m) tc) \<and> \<not> class_capped f (traffic_class m) cc"
  using assms
proof (induction k arbitrary: f)
  case (Suc k)
  let ?cl = "class_cycle f ! (class_cursor f mod length (class_cycle f))"
  let ?f1 = "f\<lparr>class_cursor := class_cursor f + 1\<rparr>"
  show ?case
  proof (cases "class_capped f ?cl cc \<or> fq_candidates f ?cl tc = []")
    case True
    then have "snd (fq_next_in k ?f1 cc tc) = Some m" using Suc.prems by (simp add: Let_def)
    from Suc.IH [OF this] show ?thesis by simp
  next
    case False
    then have "m = snd (fq_pick ?f1 ?cl (fq_candidates f ?cl tc))"
      using Suc.prems by (simp add: Let_def)
    with False fq_pick_member [of "fq_candidates f ?cl tc" ?f1 ?cl]
    have m: "m \<in> set (fq_candidates f ?cl tc)" by simp
    then have "traffic_class m = ?cl" by (rule candidates_class)
    with m False show ?thesis by simp
  qed
qed simp

text \<open>A pick that finds nothing has seen every class of the cycle.\<close>
lemma fq_next_in_None:
  assumes "snd (fq_next_in k f cc tc) = None" "i < k"
  shows "let cl = class_cycle f ! ((class_cursor f + i) mod length (class_cycle f)) in
    class_capped f cl cc \<or> fq_candidates f cl tc = []"
  using assms
proof (induction k arbitrary: f i)
  case (Suc k)
  let ?cl = "class_cycle f ! (class_cursor f mod length (class_cycle f))"
  let ?f1 = "f\<lparr>class_cursor := class_cursor f + 1\<rparr>"
  have here: "class_capped f ?cl cc \<or> fq_candidates f ?cl tc = []"
    using Suc.prems(1) by (simp add: Let_def split: if_splits)
  then have rest: "snd (fq_next_in k ?f1 cc tc) = None" using Suc.prems(1) by (simp add: Let_def)
  show ?case
  proof (cases i)
    case 0
    with here show ?thesis by simp
  next
    case (Suc j)
    with Suc.IH [OF rest, of j] Suc.prems(2) show ?thesis by (simp add: Let_def)
  qed
qed simp

lemma mod_reaches:
  assumes "j < (n :: nat)"
  shows "\<exists>i < n. (c + i) mod n = j"
proof -
  have "(c + ((j + n - c mod n) mod n)) mod n = (c mod n + (j + n - c mod n)) mod n"
    by (simp add: mod_simps)
  also have "\<dots> = j" using assms by (simp add: le_add_diff_inverse less_imp_le trans_le_add2)
  finally show ?thesis using assms by (intro exI [of _ "(j + n - c mod n) mod n"]) simp
qed

lemma fq_next_None:
  assumes "snd (fq_next f cc tc) = None" "cl \<in> set (class_cycle f)"
  shows "class_capped f cl cc \<or> fq_candidates f cl tc = []"
proof -
  obtain j where j: "j < length (class_cycle f)" "class_cycle f ! j = cl"
    using assms(2) by (auto simp: in_set_conv_nth)
  obtain i where "i < length (class_cycle f)" "(class_cursor f + i) mod length (class_cycle f) = j"
    using mod_reaches [OF j(1)] by blast
  with fq_next_in_None [of "length (class_cycle f)" f cc tc i] assms(1) j show ?thesis
    by (simp add: fq_next_def Let_def)
qed

text \<open>A class at the cursor that has something to offer is served, and the cursor moves by one.\<close>
lemma fq_next_cursor:
  assumes "class_cycle f \<noteq> []"
    and "cl = class_cycle f ! (class_cursor f mod length (class_cycle f))"
    and "\<not> class_capped f cl cc" "fq_candidates f cl tc \<noteq> []"
  shows "\<exists>m. snd (fq_next f cc tc) = Some m \<and> traffic_class m = cl \<and>
    class_cursor (fst (fq_next f cc tc)) = class_cursor f + 1"
proof -
  obtain k where k: "length (class_cycle f) = Suc k" using assms(1) by (cases "class_cycle f") auto
  let ?p = "fq_pick (f\<lparr>class_cursor := class_cursor f + 1\<rparr>) cl (fq_candidates f cl tc)"
  have r: "fq_next f cc tc = (fst ?p, Some (snd ?p))"
    unfolding fq_next_def k fq_next_in.simps
    using assms(2-4) k by (simp add: Let_def)
  have "traffic_class (snd ?p) = cl"
    using fq_pick_member [OF assms(4)] by (rule candidates_class)
  with r show ?thesis by simp
qed

section \<open>A batch\<close>

lemma fq_next_Some:
  assumes "fq_next f cc tc = (f1, Some m)"
  shows "fq_same f f1" and "m \<in> set (fq_candidates f (traffic_class m) tc)"
    and "\<not> class_capped f (traffic_class m) cc"
  using fq_next_in_same [of f "length (class_cycle f)" cc tc]
    fq_next_in_Some [of "length (class_cycle f)" f cc tc m] assms
  by (simp_all add: fq_next_def)

lemma candidates_buffered:
  assumes "fq_wf f" "m \<in> set (fq_candidates f cl tc)"
  shows "map_of (fq_buffer f) (m_id m) = Some m"
proof -
  obtain k where p: "(k, m) \<in> set (fq_buffer f)" using assms(2) by (auto simp: fq_candidates_def)
  then have "m_id m = k" using assms(1) by (fastforce simp: fq_wf_def)
  with p assms(1) show ?thesis by (simp add: fq_wf_def dwf_lookup)
qed

text \<open>Taking one entry out of a buffer.\<close>
lemma ddel_mset:
  assumes "dwf xs" "map_of xs k = Some v"
  shows "mset (map snd xs) = add_mset v (mset (map snd (ddel k xs)))"
proof -
  have "distinct (map fst xs)" using assms(1) by (rule dwf_distinct)
  then show ?thesis using assms(2)
  proof (induction xs)
    case (Cons p xs)
    obtain k' v' where p: "p = (k', v')" by (cases p)
    show ?case
    proof (cases "k' = k")
      case True
      have "k \<notin> fst ` set xs" using Cons.prems(1) p True by auto
      then have "ddel k xs = xs" by (intro ddel_absent) (simp add: map_of_eq_None_iff)
      then show ?thesis using True Cons.prems(2) p by (simp add: ddel_def)
    next
      case False
      then show ?thesis using Cons p by (simp add: ddel_def)
    qed
  qed simp
qed

definition fq_drop :: "fair_queue \<Rightarrow> message \<Rightarrow> fair_queue" where
  "fq_drop f m = f\<lparr>fq_buffer := ddel (m_id m) (fq_buffer f)\<rparr>"

lemma fq_drop_wf: "fq_wf f \<Longrightarrow> fq_wf (fq_drop f m)"
  by (auto simp: fq_wf_def fq_drop_def dest!: subsetD [OF ddel_subset])

lemma fq_select_Some:
  assumes "fq_buffer f \<noteq> []" "fq_next f cc tc = (f1, Some m)"
  shows "fq_select (Suc room) f cc tc =
    (let r = fq_select room (fq_drop f1 m) (cc(traffic_class m := cc (traffic_class m) + 1))
               (tc(tenant m := tc (tenant m) + 1)) in (fst r, m # snd r))"
  using assms by (simp add: fq_drop_def)

text \<open>Induction over the picks of a batch: it ends, or a message is picked and dropped.\<close>
lemma fq_select_induct [consumes 1, case_names stop pick]:
  assumes "fq_wf f"
    and stop: "\<And>room f g cc tc. fq_wf f \<Longrightarrow> fq_same f g \<Longrightarrow> fq_select room f cc tc = (g, []) \<Longrightarrow>
      P room f cc tc g []"
    and pick: "\<And>room f f1 cc tc m g ms. fq_wf f \<Longrightarrow> fq_next f cc tc = (f1, Some m) \<Longrightarrow> fq_same f f1 \<Longrightarrow>
      m \<in> set (fq_candidates f (traffic_class m) tc) \<Longrightarrow> \<not> class_capped f (traffic_class m) cc \<Longrightarrow>
      P room (fq_drop f1 m) (cc(traffic_class m := cc (traffic_class m) + 1))
        (tc(tenant m := tc (tenant m) + 1)) g ms \<Longrightarrow>
      P (Suc room) f cc tc g (m # ms)"
  shows "P room f cc tc (fst (fq_select room f cc tc)) (snd (fq_select room f cc tc))"
  using assms(1)
proof (induction room arbitrary: f cc tc)
  case 0
  then show ?case using stop [of f f 0] by (simp add: fq_same_def)
next
  case (Suc room)
  show ?case
  proof (cases "fq_buffer f = []")
    case True
    then show ?thesis using stop [of f f "Suc room"] Suc.prems by (simp add: fq_same_def)
  next
    case ne: False
    obtain f1 o1 where n: "fq_next f cc tc = (f1, o1)" by (cases "fq_next f cc tc")
    show ?thesis
    proof (cases o1)
      case None
      have "fq_same f f1" using fq_next_in_same [of f _ cc tc] n by (metis fq_next_def fst_conv)
      then show ?thesis using stop [of f f1 "Suc room" cc tc] Suc.prems ne n None by simp
    next
      case (Some m)
      note n' = n [unfolded Some]
      note nx = fq_next_Some [OF n']
      have "fq_wf (fq_drop f1 m)" using Suc.prems nx(1) fq_wf_same fq_drop_wf by blast
      from pick [OF Suc.prems n' nx Suc.IH [OF this]] show ?thesis
        by (simp only: fq_select_Some [OF ne n'] Let_def fst_conv snd_conv)
    qed
  qed
qed

text \<open>Nothing is lost or repeated: the batch and the rest make up the buffer.\<close>
lemma fq_select_partition:
  assumes "fq_wf f"
  shows "mset (map snd (fq_buffer f)) =
    mset (snd (fq_select room f cc tc)) + mset (map snd (fq_buffer (fst (fq_select room f cc tc))))"
proof (rule fq_select_induct [OF assms, where P = "\<lambda>_ f _ _ g ms.
    mset (map snd (fq_buffer f)) = mset ms + mset (map snd (fq_buffer g))"], goal_cases)
  case (2 room f f1 cc tc m g ms)
  have "map_of (fq_buffer f) (m_id m) = Some m" by (rule candidates_buffered [OF 2(1,4)])
  then have "mset (map snd (fq_buffer f)) = add_mset m (mset (map snd (ddel (m_id m) (fq_buffer f))))"
    using 2(1) by (intro ddel_mset) (auto simp: fq_wf_def)
  with 2(3,6) show ?case by (simp add: fq_same_def fq_drop_def)
qed (simp add: fq_same_def)

lemma fq_select_wf: "fq_wf f \<Longrightarrow> fq_wf (fst (fq_select room f cc tc))"
  by (rule fq_select_induct [where P = "\<lambda>_ _ _ _ g _. fq_wf g"]) (auto simp: fq_wf_same)

lemma fq_select_cfg: "fq_wf f \<Longrightarrow> fq_cfg (fst (fq_select room f cc tc)) = fq_cfg f"
  by (rule fq_select_induct [where P = "\<lambda>_ f _ _ g _. fq_cfg g = fq_cfg f"])
     (auto simp: fq_same_def fq_drop_def)

lemma fq_select_length: "fq_wf f \<Longrightarrow> length (snd (fq_select room f cc tc)) \<le> room"
  by (rule fq_select_induct [where P = "\<lambda>room _ _ _ _ ms. length ms \<le> room"]) auto

lemma fq_count_Cons: "fq_count key (m # ms) k = fq_count key ms k + (if key m = k then 1 else 0)"
  by (simp add: fq_count_def)

lemma fq_select_class_cap:
  assumes "fq_wf f" "0 < map_int (class_max_per_batch (fq_cfg f)) cl"
    and "int (cc cl) \<le> map_int (class_max_per_batch (fq_cfg f)) cl"
  shows "int (cc cl + fq_count traffic_class (snd (fq_select room f cc tc)) cl)
    \<le> map_int (class_max_per_batch (fq_cfg f)) cl"
proof -
  let ?mx = "\<lambda>f. map_int (class_max_per_batch (fq_cfg f)) cl"
  have "0 < ?mx f \<and> int (cc cl) \<le> ?mx f \<longrightarrow>
      int (cc cl + fq_count traffic_class (snd (fq_select room f cc tc)) cl) \<le> ?mx f"
  proof (rule fq_select_induct [OF assms(1), where P = "\<lambda>_ f cc _ _ ms.
      0 < ?mx f \<and> int (cc cl) \<le> ?mx f \<longrightarrow> int (cc cl + fq_count traffic_class ms cl) \<le> ?mx f"], goal_cases)
    case (2 room f f1 cc tc m g ms)
    have "?mx (fq_drop f1 m) = ?mx f" using 2(3) by (simp add: fq_same_def fq_drop_def)
    with 2(5,6) show ?case
      by (auto simp: class_capped_def fq_count_Cons Let_def split: if_splits)
  qed (simp add: fq_count_def)
  with assms(2,3) show ?thesis by simp
qed

lemma fq_select_tenant_cap:
  assumes "fq_wf f" "0 < tenant_max_per_batch (fq_cfg f)" "tc t \<le> tenant_max_per_batch (fq_cfg f)"
  shows "tc t + fq_count tenant (snd (fq_select room f cc tc)) t \<le> tenant_max_per_batch (fq_cfg f)"
proof -
  let ?mx = "\<lambda>f. tenant_max_per_batch (fq_cfg f)"
  have "0 < ?mx f \<and> tc t \<le> ?mx f \<longrightarrow> tc t + fq_count tenant (snd (fq_select room f cc tc)) t \<le> ?mx f"
  proof (rule fq_select_induct [OF assms(1), where P = "\<lambda>_ f _ tc _ ms.
      0 < ?mx f \<and> tc t \<le> ?mx f \<longrightarrow> tc t + fq_count tenant ms t \<le> ?mx f"], goal_cases)
    case (2 room f f1 cc tc m g ms)
    have "?mx (fq_drop f1 m) = ?mx f" using 2(3) by (simp add: fq_same_def fq_drop_def)
    moreover have "?mx f = 0 \<or> tc (tenant m) < ?mx f" using 2(4) by (auto simp: fq_candidates_def)
    ultimately show ?case using 2(6) by (auto simp: fq_count_Cons split: if_splits)
  qed (simp add: fq_count_def)
  with assms(2,3) show ?thesis by simp
qed

text \<open>A batch with room serves at least one of the buffered messages.\<close>
lemma fq_select_progress:
  assumes "fq_wf f" "fq_buffer f \<noteq> []" "0 < room"
  shows "snd (fq_select room f (\<lambda>_. 0) (\<lambda>_. 0)) \<noteq> []"
proof -
  obtain k m where p: "(k, m) \<in> set (fq_buffer f)" using assms(2) by (cases "fq_buffer f") auto
  have cl: "traffic_class m \<in> set (class_cycle f)" using assms(1) p by (fastforce simp: fq_wf_def)
  have "m \<in> set (fq_candidates f (traffic_class m) (\<lambda>_. 0))"
    using p by (force simp: fq_candidates_def)
  moreover have "\<not> class_capped f (traffic_class m) (\<lambda>_. 0)" by (simp add: class_capped_def Let_def)
  ultimately have "snd (fq_next f (\<lambda>_. 0) (\<lambda>_. 0)) \<noteq> None" using fq_next_None [OF _ cl] by force
  then obtain f1 m1 where "fq_next f (\<lambda>_. 0) (\<lambda>_. 0) = (f1, Some m1)" by (metis not_None_eq prod.collapse)
  from fq_select_Some [OF assms(2) this, of "room - 1"] assms(3) show ?thesis by (simp add: Let_def)
qed

section \<open>Weighted shares\<close>

definition backlog :: "fair_queue \<Rightarrow> string \<Rightarrow> nat" where
  "backlog f cl = length (filter (\<lambda>m. traffic_class m = cl) (map snd (fq_buffer f)))"

lemma backlog_mset:
  "backlog f cl = size (filter_mset (\<lambda>m. traffic_class m = cl) (mset (map snd (fq_buffer f))))"
  unfolding backlog_def by (metis mset_filter size_mset)

definition uncapped :: "fairness_config \<Rightarrow> bool" where
  "uncapped c \<longleftrightarrow> class_max_per_batch c = [] \<and> tenant_max_per_batch c = 0"

lemma backlog_candidates:
  "uncapped (fq_cfg f) \<Longrightarrow> 0 < backlog f cl \<Longrightarrow> fq_candidates f cl tc \<noteq> []"
  unfolding uncapped_def backlog_def fq_candidates_def by (auto simp: filter_map)

lemma fq_select_round_robin:
  assumes "fq_wf f" "uncapped (fq_cfg f)" "\<And>cl. cl \<in> set (class_cycle f) \<Longrightarrow> room \<le> backlog f cl"
  shows "map traffic_class (snd (fq_select room f cc tc)) =
    map (\<lambda>i. class_cycle f ! ((class_cursor f + i) mod length (class_cycle f))) [0..<room]"
  using assms
proof (induction room arbitrary: f cc tc)
  case (Suc room)
  let ?cl = "class_cycle f ! (class_cursor f mod length (class_cycle f))"
  have ne: "class_cycle f \<noteq> []" using Suc.prems(1) by (rule fq_wf_cycle)
  have cl: "?cl \<in> set (class_cycle f)" using ne by simp
  have cand: "fq_candidates f ?cl tc \<noteq> []"
    using backlog_candidates [OF Suc.prems(2)] Suc.prems(3) [OF cl] by simp
  have "\<not> class_capped f ?cl cc"
    using Suc.prems(2) by (simp add: class_capped_def uncapped_def map_int_def)
  from fq_next_cursor [OF ne refl this cand] obtain m f1 where n: "fq_next f cc tc = (f1, Some m)"
    and m: "traffic_class m = ?cl" and cur: "class_cursor f1 = class_cursor f + 1"
    by (metis prod.collapse)
  note nx = fq_next_Some [OF n]
  let ?g = "fq_drop f1 m"
  have "fq_buffer f \<noteq> []" using cand by (auto simp: fq_candidates_def)
  note sel = fq_select_Some [OF this n, of room]
  have buf: "map_of (fq_buffer f) (m_id m) = Some m" by (rule candidates_buffered [OF Suc.prems(1) nx(2)])
  have "mset (map snd (fq_buffer f)) = add_mset m (mset (map snd (fq_buffer ?g)))"
    using ddel_mset [OF _ buf] Suc.prems(1) nx(1) by (simp add: fq_wf_def fq_same_def fq_drop_def)
  then have le: "backlog f cl \<le> backlog ?g cl + 1" for cl unfolding backlog_mset by simp
  have "room \<le> backlog ?g cl" if "cl \<in> set (class_cycle ?g)" for cl
  proof -
    have "cl \<in> set (class_cycle f)" using that nx(1) by (simp add: fq_same_def fq_drop_def)
    from Suc.prems(3) [OF this] le [of cl] show ?thesis by simp
  qed
  moreover have "fq_wf ?g" using Suc.prems(1) nx(1) fq_wf_same fq_drop_wf by blast
  moreover have "uncapped (fq_cfg ?g)" using Suc.prems(2) nx(1) by (simp add: fq_same_def fq_drop_def)
  ultimately have IH: "map traffic_class (snd (fq_select room ?g cc' tc')) =
      map (\<lambda>i. class_cycle f ! ((class_cursor f + 1 + i) mod length (class_cycle f))) [0..<room]" for cc' tc'
    using Suc.IH [of ?g cc' tc'] nx(1) cur by (simp add: fq_same_def fq_drop_def)
  show ?case
    unfolding sel by (simp add: Let_def m IH upt_conv_Cons map_Suc_upt [symmetric] del: upt_Suc)
qed simp

lemma count_list_mset: "count_list xs y = count (mset xs) y"
  by (induction xs) auto

lemma mset_rotate: "mset (rotate n xs) = mset xs"
proof (induction n)
  case (Suc n)
  have "mset (rotate1 ys) = mset ys" for ys :: "'a list" by (cases ys) simp_all
  with Suc show ?case by simp
qed simp

lemma rotate_map: "map (\<lambda>i. xs ! ((c + i) mod length xs)) [0..<length xs] = rotate c xs"
  by (rule nth_equalityI) (simp_all add: nth_rotate)

lemma fq_count_list: "fq_count key ms k = count_list (map key ms) k"
  by (induction ms) (auto simp: fq_count_def)

end
