(* ===== verification/Fair_Queue_Claims.thy ===== *)
theory Fair_Queue_Claims
  imports Fair_Queue_Facts Queue_Claims
begin

text \<open>
  The properties of the fair scheduler over any backend that keeps the queue contract, and on the
  local store through its interpretation.
\<close>

section \<open>The refill\<close>

definition fetched :: "('e, 's) backend \<Rightarrow> 'e \<Rightarrow> 's \<Rightarrow> fair_queue \<Rightarrow> nat \<Rightarrow> message list" where
  "fetched be e s f limit =
     (if length (fq_buffer f) < limit * prefetch_factor (fq_cfg f)
      then (case snd (be_due be e s (limit * prefetch_factor (fq_cfg f) - length (fq_buffer f))) of
              Inl _ \<Rightarrow> [] | Inr ms \<Rightarrow> ms)
      else [])"

lemma fq_due_shape:
  assumes "fq_due be e s f limit = (s', f', Inr ms)"
  shows "(f', ms) = fq_select limit (fq_fill f (fetched be e s f limit)) (\<lambda>_. 0) (\<lambda>_. 0)"
  using assms by (auto simp: fq_due_def fetched_def Let_def split: if_splits sum.splits)

lemma fq_wf_ids:
  assumes "fq_wf f"
  shows "map m_id (map snd (fq_buffer f)) = map fst (fq_buffer f)"
  using assms by (auto simp: fq_wf_def)

lemma select_ids:
  assumes "fq_wf f" "(g, ms) = fq_select room f cc tc"
  shows "m_id ` set ms \<union> fst ` set (fq_buffer g) = fst ` set (fq_buffer f)"
    and "distinct (map m_id ms)" and "m_id ` set ms \<inter> fst ` set (fq_buffer g) = {}"
proof -
  have g: "g = fst (fq_select room f cc tc)" and ms: "ms = snd (fq_select room f cc tc)"
    using assms(2) by (metis fst_conv, metis snd_conv)
  have wg: "fq_wf g" unfolding g by (rule fq_select_wf [OF assms(1)])
  have "mset (map m_id (map snd (fq_buffer f))) = mset (map m_id (ms @ map snd (fq_buffer g)))"
    using fq_select_partition [OF assms(1), of room cc tc] unfolding g [symmetric] ms [symmetric]
    by (metis mset_append mset_map)
  then have eq: "mset (map fst (fq_buffer f)) = mset (map m_id ms @ map fst (fq_buffer g))"
    unfolding map_append fq_wf_ids [OF assms(1)] fq_wf_ids [OF wg] .
  have "distinct (map fst (fq_buffer f))" using assms(1) dwf_distinct by (auto simp: fq_wf_def)
  then have "distinct (map m_id ms @ map fst (fq_buffer g))" using eq mset_eq_imp_distinct_iff by blast
  then show "distinct (map m_id ms)" "m_id ` set ms \<inter> fst ` set (fq_buffer g) = {}" by auto
  show "m_id ` set ms \<union> fst ` set (fq_buffer g) = fst ` set (fq_buffer f)"
    using mset_eq_setD [OF eq] by auto
qed

context queue_backend
begin

lemma fq_due_buffer:
  assumes "fq_wf f" "length (fq_buffer f) \<le> limit * prefetch_factor (fq_cfg f)"
    and "fq_due be e s f limit = (s', f', Inr ms)"
  shows "length (fq_buffer f') \<le> limit * prefetch_factor (fq_cfg f)"
proof -
  let ?g = "fq_fill f (fetched be e s f limit)"
  have "length (fetched be e s f limit) \<le> limit * prefetch_factor (fq_cfg f) - length (fq_buffer f)"
    using due_bounded by (simp add: fetched_def split: sum.split)
  then have g: "length (fq_buffer ?g) \<le> limit * prefetch_factor (fq_cfg f)"
    using fq_fill_length [of f "fetched be e s f limit"] assms(2) by linarith
  have eq: "mset (map snd (fq_buffer ?g)) = mset ms + mset (map snd (fq_buffer f'))"
    using fq_select_partition [OF fq_fill_wf [OF assms(1)], of "fetched be e s f limit" limit "\<lambda>_. 0" "\<lambda>_. 0"]
      fq_due_shape [OF assms(3), symmetric] by simp
  have "length (fq_buffer ?g) = length ms + length (fq_buffer f')"
    using arg_cong [OF eq, of size] by simp
  with g show ?thesis by simp
qed

end

section \<open>A concrete scheduler\<close>

definition w_fair_cfg :: fairness_config where
  "w_fair_cfg = \<lparr>fc_enabled = True, prefetch_factor = 2, max_tenants = 4, tenant_max_per_batch = 1,
     class_weights = [(''bulk'', 1), (''default'', 2)], class_max_per_batch = [(''bulk'', 1)], tenant_classes = []\<rparr>"

definition w_fair :: fair_queue where
  "w_fair = \<lparr>fq_cfg = w_fair_cfg, fq_buffer = [], class_cycle = [''bulk'', ''default'', ''default''],
     class_cursor = 0, tenant_cursor = (\<lambda>_. 0), fq_tenants = [''default'', ''system'']\<rparr>"

lemma w_fair_new: "new_fair_queue w_fair_cfg = Some w_fair"
  by (simp add: new_fair_queue_def w_fair_cfg_def w_fair_def weight_cycle_def map_int_def numeral_2_eq_2)

lemma w_fair_wf: "fq_wf w_fair"
  by (simp add: fq_wf_def w_fair_def w_fair_cfg_def fairness_validate_def weight_cycle_def map_int_def
        numeral_2_eq_2 dwf_def go_eval)

text \<open>The scheduler with two messages of the class \<open>bulk\<close> and four of the class \<open>default\<close>.\<close>
definition w_fmsg :: "string \<Rightarrow> string \<Rightarrow> string \<Rightarrow> message" where
  "w_fmsg i t cl = new_message i\<lparr>tenant := t, traffic_class := cl\<rparr>"

definition w_backlog :: fair_queue where
  "w_backlog = w_fair\<lparr>fq_cfg := w_fair_cfg\<lparr>class_max_per_batch := [], tenant_max_per_batch := 0\<rparr>,
     fq_buffer := [(''a'', w_fmsg ''a'' ''default'' ''bulk''), (''b'', w_fmsg ''b'' ''system'' ''bulk''),
       (''c'', w_fmsg ''c'' ''default'' ''bulk''), (''d'', w_fmsg ''d'' ''default'' ''default''),
       (''e'', w_fmsg ''e'' ''default'' ''default''), (''f'', w_fmsg ''f'' ''default'' ''default'')]\<rparr>"

lemma w_backlog_wf: "fq_wf w_backlog"
  by (simp add: fq_wf_def w_backlog_def w_fair_def w_fair_cfg_def fairness_validate_def weight_cycle_def
        map_int_def numeral_2_eq_2 dwf_def go_eval w_fmsg_def new_message_def)

section \<open>Properties\<close>

text \<open>C33: The scheduler neither loses nor repeats a message: what was buffered or fetched is after
  the call either in the batch or still buffered, never both, and no identifier occurs twice in
  the batch. The invariant of the scheduler is kept.\<close>
theorem fair_due_conserves:
  assumes "fq_wf f" "fq_due be e s f limit = (s', f', Inr ms)"
  shows "m_id ` set ms \<union> fst ` set (fq_buffer f') =
      fst ` set (fq_buffer f) \<union> m_id ` set (fetched be e s f limit) \<and>
    distinct (map m_id ms) \<and> m_id ` set ms \<inter> fst ` set (fq_buffer f') = {} \<and> fq_wf f'"
proof -
  let ?g = "fq_fill f (fetched be e s f limit)"
  have wf: "fq_wf ?g" by (rule fq_fill_wf [OF assms(1)])
  note shape = fq_due_shape [OF assms(2)]
  note ids = select_ids [OF wf shape]
  have "fq_wf f'" using fq_select_wf [OF wf, of limit] shape by (metis fst_conv)
  with ids show ?thesis by (simp add: fq_fill_keys)
qed

definition w_fmsg1 :: message where
  "w_fmsg1 = w_msg1\<lparr>tenant := ''default'', traffic_class := ''default''\<rparr>"

lemma w_fair_fill: "fq_fill w_fair [w_msg1] = w_fair\<lparr>fq_buffer := [(''a'', w_fmsg1)]\<rparr>"
proof -
  have "tenant w_msg1 = []" "traffic_class w_msg1 = []" "m_id w_msg1 = ''a''"
    by (simp_all add: w_msg1_def w_msg_def new_message_def)
  then show ?thesis
    by (simp add: w_fair_def w_fair_cfg_def fq_normalize_def map_int_def map_str_def w_fmsg1_def
          trim_space_def trim_left_def trim_right_def to_lower_def Let_def List.insert_def)
qed

lemma w_fair_select:
  "snd (fq_select 2 (w_fair\<lparr>fq_buffer := [(''a'', w_fmsg1)]\<rparr>) (\<lambda>_. 0) (\<lambda>_. 0)) = [w_fmsg1]"
proof -
  define f where "f = w_fair\<lparr>fq_buffer := [(''a'', w_fmsg1)]\<rparr>"
  have m: "tenant w_fmsg1 = ''default''" "traffic_class w_fmsg1 = ''default''" "m_id w_fmsg1 = ''a''"
    by (simp_all add: w_fmsg1_def w_msg1_def w_msg_def new_message_def)
  have c: "fq_candidates f ''bulk'' (\<lambda>_. 0) = []" "fq_candidates f ''default'' (\<lambda>_. 0) = [w_fmsg1]"
    by (simp_all add: fq_candidates_def m f_def w_fair_def w_fair_cfg_def)
  have cap: "\<not> class_capped f cl (\<lambda>_. 0)" for cl by (simp add: class_capped_def Let_def)
  have cyc: "class_cycle f = [''bulk'', ''default'', ''default'']" "class_cursor f = 0" "fq_buffer f \<noteq> []"
    "fq_buffer f = [(''a'', w_fmsg1)]"
    by (simp_all add: f_def w_fair_def)
  have p: "snd (fq_pick g cl [w_fmsg1]) = w_fmsg1" for g cl
    using fq_pick_member [of "[w_fmsg1]"] by simp
  have "snd (fq_next f (\<lambda>_. 0) (\<lambda>_. 0)) = Some w_fmsg1"
    unfolding fq_next_def by (simp add: cyc c cap p Let_def)
  then obtain f1 where n: "fq_next f (\<lambda>_. 0) (\<lambda>_. 0) = (f1, Some w_fmsg1)" by (metis prod.collapse)
  have "fq_buffer (fq_drop f1 w_fmsg1) = []"
    using fq_next_Some(1) [OF n] by (simp add: fq_same_def fq_drop_def ddel_def m cyc)
  with fq_select_Some [OF cyc(3) n, of 1] show ?thesis
    unfolding f_def [symmetric] by (simp add: numeral_2_eq_2)
qed

lemma w_fair_due:
  "fq_due local_backend w_env w_store1 w_fair 2 =
    (fst (fq_due local_backend w_env w_store1 w_fair 2),
     fst (snd (fq_due local_backend w_env w_store1 w_fair 2)), Inr [w_fmsg1])"
proof -
  have d: "snd (due w_env w_store1 4) = Inr [w_msg1]"
    by (simp add: due_complete [OF w_no_faults w_wf(2)] w_eligible)
  have "length (fq_buffer w_fair) = 0" "prefetch_factor (fq_cfg w_fair) = 2"
    by (simp_all add: w_fair_def w_fair_cfg_def)
  then have "snd (snd (fq_due local_backend w_env w_store1 w_fair 2)) = Inr [w_fmsg1]"
    using w_fair_fill w_fair_select d unfolding fq_due_def Let_def local_backend_def
    by (simp del: fq_select.simps fq_fill.simps)
  then show ?thesis by (metis prod.collapse)
qed

theorem fair_due_conserves_witness:
  "''a'' \<in> fst ` set (fq_buffer w_fair) \<union> m_id ` set (fetched local_backend w_env w_store1 w_fair 2)"
  using fair_due_conserves [OF w_fair_wf w_fair_due] by (auto simp: w_fmsg1_def w_msg1_def w_msg_def new_message_def)

text \<open>A batch obeys its limits: at most \<open>limit\<close> messages, of every class with a limit at most
  that many, and of every tenant at most the tenant limit where one is set.\<close>
theorem fair_batch_limits:
  assumes "fq_wf f" "fq_due be e s f limit = (s', f', Inr ms)"
  shows "length ms \<le> limit \<and>
    (0 < map_int (class_max_per_batch (fq_cfg f)) cl \<longrightarrow>
       int (fq_count traffic_class ms cl) \<le> map_int (class_max_per_batch (fq_cfg f)) cl) \<and>
    (0 < tenant_max_per_batch (fq_cfg f) \<longrightarrow> fq_count tenant ms t \<le> tenant_max_per_batch (fq_cfg f))"
proof -
  let ?g = "fq_fill f (fetched be e s f limit)"
  have wf: "fq_wf ?g" by (rule fq_fill_wf [OF assms(1)])
  have ms: "ms = snd (fq_select limit ?g (\<lambda>_. 0) (\<lambda>_. 0))"
    using fq_due_shape [OF assms(2)] by (metis snd_conv)
  show ?thesis
    unfolding ms
    using fq_select_length [OF wf] fq_select_class_cap [OF wf, of cl "\<lambda>_. 0" limit "\<lambda>_. 0"]
      fq_select_tenant_cap [OF wf, of "\<lambda>_. 0" t limit "\<lambda>_. 0"] by simp
qed

theorem fair_batch_limits_witness:
  "fq_count tenant [w_fmsg1] ''default'' \<le> 1"
  using fair_batch_limits [OF w_fair_wf w_fair_due, of "''bulk''" "''default''"]
  by (simp add: w_fair_def w_fair_cfg_def)

text \<open>C34: The scheduler never stalls: a batch with room is not empty while a message is buffered,
  whatever the class and tenant limits are.\<close>
theorem fair_due_progress:
  assumes "fq_wf f" "fq_due be e s f limit = (s', f', Inr ms)" "0 < limit" "fq_buffer f \<noteq> []"
  shows "ms \<noteq> []"
proof -
  let ?g = "fq_fill f (fetched be e s f limit)"
  have "fq_buffer ?g \<noteq> []" using fq_fill_keys [of f "fetched be e s f limit"] assms(4) by auto
  from fq_select_progress [OF fq_fill_wf [OF assms(1)] this assms(3)] fq_due_shape [OF assms(2)]
  show ?thesis by (metis snd_conv)
qed

theorem fair_due_progress_witness:
  "snd (snd (fq_due local_backend w_env w_store1 w_backlog 1)) \<noteq> Inr []"
proof
  assume "snd (snd (fq_due local_backend w_env w_store1 w_backlog 1)) = Inr []"
  then have "fq_due local_backend w_env w_store1 w_backlog 1 =
      (fst (fq_due local_backend w_env w_store1 w_backlog 1),
       fst (snd (fq_due local_backend w_env w_store1 w_backlog 1)), Inr [])"
    by (metis prod.collapse)
  from fair_due_progress [OF w_backlog_wf this] show False by (simp add: w_backlog_def)
qed

text \<open>Weighted fairness: when no batch limit is set and every class has a whole round of
  messages waiting, one round of picks takes from every class exactly its configured weight,
  wherever the cursor stands.\<close>
theorem fair_weighted_share:
  assumes "fq_wf f" "uncapped (fq_cfg f)"
    and "\<And>c. c \<in> set (class_cycle f) \<Longrightarrow> length (class_cycle f) \<le> backlog f c"
  shows "int (fq_count traffic_class (snd (fq_select (length (class_cycle f)) f cc tc)) cl) =
    max 0 (map_int (class_weights (fq_cfg f)) cl)"
proof -
  have d: "distinct (map fst (class_weights (fq_cfg f)))"
    using assms(1) dwf_distinct by (auto simp: fq_wf_def)
  have "fq_count traffic_class (snd (fq_select (length (class_cycle f)) f cc tc)) cl =
      count_list (rotate (class_cursor f) (class_cycle f)) cl"
    using fq_select_round_robin [OF assms(1,2), of "length (class_cycle f)" cc tc] assms(3)
    by (simp add: fq_count_list rotate_map)
  also have "\<dots> = count_list (class_cycle f) cl" by (simp add: count_list_mset mset_rotate)
  also have "\<dots> = nat (map_int (class_weights (fq_cfg f)) cl)"
    using weight_cycle_count [OF d] assms(1) by (simp add: fq_wf_def)
  finally show ?thesis by simp
qed

theorem fair_weighted_share_witness:
  "fq_count traffic_class (snd (fq_select 3 w_backlog (\<lambda>_. 0) (\<lambda>_. 0))) ''default'' = 2"
proof -
  have "length (class_cycle w_backlog) \<le> backlog w_backlog c" if "c \<in> set (class_cycle w_backlog)" for c
    using that by (auto simp: w_backlog_def w_fair_def backlog_def w_fmsg_def new_message_def)
  note share = fair_weighted_share [OF w_backlog_wf _ this, of "\<lambda>_. 0" "\<lambda>_. 0" "''default''"]
  have "uncapped (fq_cfg w_backlog)" "length (class_cycle w_backlog) = 3"
    "map_int (class_weights (fq_cfg w_backlog)) ''default'' = 2"
    by (simp_all add: uncapped_def w_backlog_def w_fair_def w_fair_cfg_def map_int_def)
  with share show ?thesis by simp
qed

text \<open>On the local queue the buffer of the scheduler never grows beyond the prefetch window
  of the batch.\<close>
theorem fair_buffer_bounded:
  assumes "fq_wf f" "length (fq_buffer f) \<le> limit * prefetch_factor (fq_cfg f)"
    and "fq_due local_backend e s f limit = (s', f', Inr ms)"
  shows "length (fq_buffer f') \<le> limit * prefetch_factor (fq_cfg f)"
  by (rule local_queue.fq_due_buffer [OF assms])

theorem fair_buffer_bounded_witness:
  "length (fq_buffer (fst (snd (fq_due local_backend w_env w_store1 w_fair 2)))) \<le> 4"
  using fair_buffer_bounded [OF w_fair_wf _ w_fair_due] by (simp add: w_fair_def w_fair_cfg_def)

end
