(* ===== verification/Delivery_Pause.thy ===== *)
theory Delivery_Pause
  imports Go_Prelude
begin

text \<open>
  The expiring domain holds of \<^verbatim>\<open>internal/deliverypause/store.go\<close>. The local store keeps its map in
  memory and in one file; the file is replaced by a rename, so a save either happens or leaves
  both as they were. A call runs in an environment that holds the clock, whether the context is
  done and whether a step of the save fails. The map is an association list sorted by domain. The
  interface \<^verbatim>\<open>Store\<close> is a record of methods with its contract as a locale.
\<close>

section \<open>Definitions\<close>

record pause_entry =
  pe_domain :: string
  pe_reason :: string
  pe_actor :: string
  pe_created_at :: time
  pe_expires_at :: time

definition zero_entry :: pause_entry where
  "zero_entry = \<lparr>pe_domain = [], pe_reason = [], pe_actor = [], pe_created_at = zero_time, pe_expires_at = zero_time\<rparr>"

datatype pause_error = PauseInvalid | PauseCapacity | PauseContext | PauseIO | PauseState

definition pause_max_entries :: nat where "pause_max_entries = 1024"
definition pause_max_duration :: duration where "pause_max_duration = 30 * 24 * hour"

definition domain_char :: "char \<Rightarrow> bool" where
  "domain_char c \<longleftrightarrow> is_lower c \<or> is_digit c \<or> c = CHR ''-''"

definition label_ok :: "string \<Rightarrow> bool" where
  "label_ok l \<longleftrightarrow> l \<noteq> [] \<and> length l \<le> 63 \<and> hd l \<noteq> CHR ''-'' \<and> last l \<noteq> CHR ''-'' \<and> list_all domain_char l"

text \<open>\<^verbatim>\<open>NormalizeDomain\<close>\<close>
definition normalize_domain :: "string \<Rightarrow> pause_error + string" where
  "normalize_domain domain =
     (let d = trim_suffix (to_lower (trim_space domain)) ''.'' in
      if d = [] \<or> 253 < length d then Inl PauseInvalid
      else if list_all label_ok (split_on CHR ''.'' d) then Inr d
      else Inl PauseInvalid)"

text \<open>\<^verbatim>\<open>unicode.IsControl\<close> on ASCII\<close>
definition is_control :: "char \<Rightarrow> bool" where
  "is_control c \<longleftrightarrow> (of_char c :: nat) < 32 \<or> (of_char c :: nat) = 127"

text \<open>\<^verbatim>\<open>Validate\<close>\<close>
definition pause_validate :: "pause_entry \<Rightarrow> time \<Rightarrow> pause_error + pause_entry" where
  "pause_validate e t =
     (case normalize_domain (pe_domain e) of
        Inl err \<Rightarrow> Inl err
      | Inr d \<Rightarrow>
          (let r = trim_space (pe_reason e); a = trim_space (pe_actor e) in
           if r = [] \<or> 512 < length r \<or> a = [] \<or> 512 < length a then Inl PauseInvalid
           else if list_ex is_control r \<or> list_ex is_control a then Inl PauseInvalid
           else if \<not> t < pe_expires_at e \<or> t + pause_max_duration < pe_expires_at e then Inl PauseInvalid
           else Inr (e\<lparr>pe_domain := d, pe_reason := r, pe_actor := a, pe_created_at := t\<rparr>)))"

record pause_local =
  pl_entries :: "(string \<times> pause_entry) list"
  pl_file :: "(string \<times> pause_entry) list option"

record pause_env =
  pv_now :: time
  pv_done :: bool
  pv_save_fails :: bool

text \<open>The check of one loaded entry\<close>
definition stored_ok :: "string \<times> pause_entry \<Rightarrow> bool" where
  "stored_ok p \<longleftrightarrow> normalize_domain (pe_domain (snd p)) = Inr (fst p) \<and> pe_domain (snd p) = fst p \<and>
     pe_reason (snd p) \<noteq> [] \<and> pe_actor (snd p) \<noteq> [] \<and> \<not> is_zero (pe_expires_at (snd p))"

text \<open>\<^verbatim>\<open>NewLocal\<close> on a file that holds the encoding of a map, or no file\<close>
definition new_local :: "(string \<times> pause_entry) list option \<Rightarrow> pause_error + pause_local" where
  "new_local file =
     (case file of
        None \<Rightarrow> Inr \<lparr>pl_entries = [], pl_file = None\<rparr>
      | Some es \<Rightarrow>
          if pause_max_entries < length es then Inl PauseState
          else if list_all stored_ok es then Inr \<lparr>pl_entries = es, pl_file = Some es\<rparr>
          else Inl PauseState)"

definition pause_active :: "pause_local \<Rightarrow> time \<Rightarrow> (string \<times> pause_entry) list" where
  "pause_active p t = filter (\<lambda>(_, e). t < pe_expires_at e) (pl_entries p)"

definition pause_save :: "pause_env \<Rightarrow> pause_local \<Rightarrow> (string \<times> pause_entry) list \<Rightarrow> pause_local \<times> pause_error option" where
  "pause_save v p nxt =
     (if pv_save_fails v then (p, Some PauseIO) else (p\<lparr>pl_entries := nxt, pl_file := Some nxt\<rparr>, None))"

definition pause_lookup :: "pause_env \<Rightarrow> pause_local \<Rightarrow> string \<Rightarrow> pause_error + pause_entry" where
  "pause_lookup v p domain =
     (if pv_done v then Inl PauseContext
      else (case normalize_domain domain of
              Inl err \<Rightarrow> Inl err
            | Inr d \<Rightarrow>
                (let e = (case map_of (pl_entries p) d of None \<Rightarrow> zero_entry | Some e \<Rightarrow> e) in
                 if \<not> pv_now v < pe_expires_at e then Inr zero_entry else Inr e)))"

definition pause_list :: "pause_env \<Rightarrow> pause_local \<Rightarrow> pause_error + pause_entry list" where
  "pause_list v p =
     (if pv_done v then Inl PauseContext
      else Inr (sort_key pe_domain (map snd (pause_active p (pv_now v)))))"

definition pause_put :: "pause_env \<Rightarrow> pause_local \<Rightarrow> pause_entry \<Rightarrow> bool \<Rightarrow> pause_local \<times> pause_error option" where
  "pause_put v p e0 dry_run =
     (if pv_done v then (p, Some PauseContext)
      else (case pause_validate e0 (pv_now v) of
              Inl err \<Rightarrow> (p, Some err)
            | Inr e \<Rightarrow>
                (let nxt = dput (pe_domain e) e (pause_active p (pv_now v)) in
                 if pause_max_entries < length nxt then (p, Some PauseCapacity)
                 else if dry_run then (p, None)
                 else pause_save v p nxt)))"

definition pause_remove :: "pause_env \<Rightarrow> pause_local \<Rightarrow> string \<Rightarrow> bool \<Rightarrow> pause_local \<times> bool \<times> pause_error option" where
  "pause_remove v p domain dry_run =
     (if pv_done v then (p, False, Some PauseContext)
      else (case normalize_domain domain of
              Inl err \<Rightarrow> (p, False, Some err)
            | Inr d \<Rightarrow>
                (let nxt = pause_active p (pv_now v); exists = (map_of nxt d \<noteq> None) in
                 if dry_run \<or> \<not> exists then (p, exists, None)
                 else (let r = pause_save v p (ddel d nxt) in (fst r, True, snd r)))))"

section \<open>Normalised domains\<close>

lemma domain_char_props:
  assumes "domain_char c"
  shows "\<not> is_space c" and "lower_char c = c"
proof -
  have r: "45 \<le> (of_char c :: nat)" "(of_char c :: nat) \<le> 122"
    "\<not> (65 \<le> (of_char c :: nat) \<and> (of_char c :: nat) \<le> 90)"
    using assms by (auto simp: domain_char_def is_lower_def is_digit_def less_eq_char_def)
  then show "\<not> is_space c" by (auto simp: is_space_def)
  show "lower_char c = c" using r(3) by (auto simp: lower_char_def is_upper_def less_eq_char_def)
qed

lemma label_chars: "list_all label_ok (split_on CHR ''.'' d) \<Longrightarrow> c \<in> set d \<Longrightarrow> domain_char c \<or> c = CHR ''.''"
  using split_on_chars [of c d "CHR ''.''"] by (auto simp: list_all_iff label_ok_def)

lemma split_on_last: "split_on c (s @ [c]) = split_on c s @ [[]]"
proof (induction s)
  case (Cons x xs)
  obtain y ys where "split_on c xs = y # ys" by (meson split_on_ne list.exhaust)
  with Cons show ?case by auto
qed simp

lemma split_on_first: "split_on c (c # s) = [] # split_on c s"
  by simp

text \<open>A normalised domain is a fixed point.\<close>
lemma normalize_domain_idem:
  assumes "normalize_domain x = Inr d"
  shows "normalize_domain d = Inr d" and "d \<noteq> []"
proof -
  have d: "d \<noteq> []" "length d \<le> 253" and l: "list_all label_ok (split_on CHR ''.'' d)"
    using assms by (auto simp: normalize_domain_def Let_def split: if_splits)
  show "d \<noteq> []" by (rule d(1))
  have ch: "c \<in> set d \<Longrightarrow> \<not> is_space c \<and> lower_char c = c" for c
  proof -
    assume "c \<in> set d"
    then consider "domain_char c" | "c = CHR ''.''" using label_chars [OF l] by blast
    then show ?thesis
    proof cases
      case 1
      then show ?thesis using domain_char_props by simp
    next
      case 2
      then show ?thesis by (simp add: is_space_def lower_char_def is_upper_def less_eq_char_def)
    qed
  qed
  have "to_lower d = d" unfolding to_lower_def by (rule map_idI) (simp add: ch)
  moreover have "trim_space d = d" using d(1) ch by (intro trim_space_id) simp
  moreover have "trim_suffix d ''.'' = d"
  proof -
    have "\<not> has_suffix d ''.''"
    proof
      assume "has_suffix d ''.''"
      then obtain s where "d = s @ ''.''" by (auto simp: has_suffix_iff_suffix suffix_def)
      with l have "label_ok []" by (simp add: split_on_last)
      then show False by (simp add: label_ok_def)
    qed
    then show ?thesis by (simp add: trim_suffix_def)
  qed
  ultimately show "normalize_domain d = Inr d"
    using d l by (simp add: normalize_domain_def Let_def)
qed

lemma normalize_lower: "normalize_domain (to_lower x) = normalize_domain x"
  by (simp add: normalize_domain_def trim_space_lower [symmetric])

section \<open>The local store\<close>

definition pause_wf :: "pause_local \<Rightarrow> bool" where
  "pause_wf p \<longleftrightarrow> dwf (pl_entries p) \<and> length (pl_entries p) \<le> pause_max_entries \<and>
     list_all stored_ok (pl_entries p) \<and>
     (pl_file p = Some (pl_entries p) \<or> pl_file p = None \<and> pl_entries p = [])"

lemma active_dwf: "dwf (pl_entries p) \<Longrightarrow> dwf (pause_active p t)"
  unfolding dwf_def pause_active_def by (simp add: sorted_wrt_map sorted_wrt_filter)

lemma active_subset: "set (pause_active p t) \<subseteq> set (pl_entries p)"
  by (auto simp: pause_active_def)

lemma active_lookup:
  assumes "dwf (pl_entries p)"
  shows "map_of (pause_active p t) d =
    (case map_of (pl_entries p) d of None \<Rightarrow> None | Some e \<Rightarrow> if t < pe_expires_at e then Some e else None)"
proof -
  have iff: "map_of (pause_active p t) d = Some e \<longleftrightarrow> map_of (pl_entries p) d = Some e \<and> t < pe_expires_at e" for e
  proof -
    have "(d, e) \<in> set (pause_active p t) \<longleftrightarrow> (d, e) \<in> set (pl_entries p) \<and> t < pe_expires_at e"
      by (auto simp: pause_active_def)
    then show ?thesis
      using dwf_lookup [OF assms, of d e] dwf_lookup [OF active_dwf [OF assms], of d e] by blast
  qed
  show ?thesis
  proof (cases "map_of (pause_active p t) d")
    case None
    then have "\<not> (map_of (pl_entries p) d = Some e \<and> t < pe_expires_at e)" for e using iff [of e] by simp
    with None show ?thesis by (auto split: option.split)
  next
    case (Some e)
    with iff [of e] show ?thesis by simp
  qed
qed

lemma pause_validate_Inr:
  assumes "pause_validate x t = Inr e"
  shows "normalize_domain (pe_domain x) = Inr (pe_domain e)" "pe_expires_at e = pe_expires_at x"
    "t < pe_expires_at e" "pe_expires_at e \<le> t + pause_max_duration" "pe_reason e \<noteq> []" "pe_actor e \<noteq> []"
    "pe_created_at e = t"
  using assms by (auto simp: pause_validate_def Let_def split: sum.splits if_splits)

lemma validated_stored:
  assumes "pause_validate x t = Inr e" "zero_time \<le> t"
  shows "stored_ok (pe_domain e, e)"
  using pause_validate_Inr [OF assms(1)] normalize_domain_idem(1) assms(2) by (auto simp: stored_ok_def)

text \<open>The store a successful put leaves.\<close>
lemma pause_put_done:
  assumes "pause_put v p x False = (p', None)"
  obtains e where "pause_validate x (pv_now v) = Inr e"
    and "pl_entries p' = dput (pe_domain e) e (pause_active p (pv_now v))"
    and "pl_file p' = Some (pl_entries p')" and "length (pl_entries p') \<le> pause_max_entries"
  using assms by (auto simp: pause_put_def pause_save_def Let_def split: if_splits sum.splits)

lemma pause_put_other:
  assumes "dry \<or> snd (pause_put v p x dry) \<noteq> None"
  shows "fst (pause_put v p x dry) = p"
  using assms by (auto simp: pause_put_def pause_save_def Let_def split: if_splits sum.splits)

lemma pause_put_wf:
  assumes "pause_wf p" "zero_time \<le> pv_now v"
  shows "pause_wf (fst (pause_put v p x dry))"
proof (cases "dry \<or> snd (pause_put v p x dry) \<noteq> None")
  case True
  then show ?thesis using pause_put_other assms(1) by simp
next
  case False
  then obtain p' where p': "pause_put v p x False = (p', None)" "fst (pause_put v p x dry) = p'"
    by (metis prod.collapse)
  from p'(1) obtain e where e: "pause_validate x (pv_now v) = Inr e"
    "pl_entries p' = dput (pe_domain e) e (pause_active p (pv_now v))"
    "pl_file p' = Some (pl_entries p')" "length (pl_entries p') \<le> pause_max_entries"
    by (rule pause_put_done)
  have "stored_ok q" if "q \<in> set (pl_entries p')" for q
    using set_dput [of q "pe_domain e" e] that e(2) validated_stored [OF e(1) assms(2)]
      assms(1) active_subset by (fastforce simp: pause_wf_def list_all_iff)
  then show ?thesis
    using e assms(1) active_dwf p'(2) by (auto simp: pause_wf_def list_all_iff)
qed

lemma pause_remove_wf:
  assumes "pause_wf p"
  shows "pause_wf (fst (pause_remove v p d dry))"
proof -
  have "length (ddel k (pause_active p t)) \<le> length (pl_entries p)" for k t
    unfolding ddel_def pause_active_def
    by (meson length_filter_le le_trans)
  moreover have "q \<in> set (ddel k (pause_active p t)) \<Longrightarrow> q \<in> set (pl_entries p)" for q k t
    using ddel_subset [of k "pause_active p t"] active_subset [of p t] by blast
  moreover have "dwf (ddel k (pause_active p t))" for k t
    using assms by (intro ddel_dwf active_dwf) (simp add: pause_wf_def)
  ultimately have "pause_wf (p\<lparr>pl_entries := ddel k (pause_active p t), pl_file := Some (ddel k (pause_active p t))\<rparr>)" for k t
    using assms unfolding pause_wf_def list_all_iff by simp (meson le_trans)
  then show ?thesis
    using assms by (simp add: pause_remove_def pause_save_def Let_def split: sum.split)
qed

lemma pause_reload: "pause_wf p \<Longrightarrow> new_local (pl_file p) = Inr p"
  by (cases p) (auto simp: pause_wf_def new_local_def)

lemma pause_lookup_put:
  assumes "pause_wf p" "pause_put v p x False = (p', None)" "\<not> pv_done v'" "pv_now v' < pe_expires_at x"
    and "normalize_domain d = normalize_domain (pe_domain x)"
  shows "\<exists>e. pause_lookup v' p' d = Inr e \<and> pause_validate x (pv_now v) = Inr e \<and> pe_domain e \<noteq> []"
proof -
  from assms(2) obtain e where e: "pause_validate x (pv_now v) = Inr e"
    "pl_entries p' = dput (pe_domain e) e (pause_active p (pv_now v))" by (rule pause_put_done)
  note val = pause_validate_Inr [OF e(1)]
  have "pause_lookup v' p' d = Inr e"
    using assms(3-5) val e(2) by (simp add: pause_lookup_def Let_def)
  with e(1) normalize_domain_idem(2) [OF val(1)] show ?thesis by simp
qed

lemma pause_lookup_put_other:
  assumes "pause_wf p" "pause_put v p x False = (p', None)" "pv_now v \<le> pv_now v'"
    and "normalize_domain d \<noteq> normalize_domain (pe_domain x)"
  shows "pause_lookup v' p' d = pause_lookup v' p d"
proof -
  from assms(2) obtain e where e: "pause_validate x (pv_now v) = Inr e"
    "pl_entries p' = dput (pe_domain e) e (pause_active p (pv_now v))" by (rule pause_put_done)
  have "normalize_domain d = Inr k \<Longrightarrow> k \<noteq> pe_domain e" for k
    using pause_validate_Inr(1) [OF e(1)] assms(4) by auto
  moreover have "dwf (pl_entries p)" using assms(1) by (simp add: pause_wf_def)
  ultimately show ?thesis
    using assms(3) e(2)
    by (auto simp: pause_lookup_def active_lookup zero_entry_def Let_def split: sum.split option.split)
qed

lemma pause_lookup_active:
  "pause_lookup v p d = Inr e \<Longrightarrow> pe_domain e \<noteq> [] \<Longrightarrow> pv_now v < pe_expires_at e"
  by (auto simp: pause_lookup_def zero_entry_def Let_def split: if_splits sum.splits)

section \<open>The interface\<close>

record ('v, 'p) pause_service =
  ps_lookup :: "'v \<Rightarrow> 'p \<Rightarrow> string \<Rightarrow> pause_error + pause_entry"
  ps_put :: "'v \<Rightarrow> 'p \<Rightarrow> pause_entry \<Rightarrow> bool \<Rightarrow> 'p \<times> pause_error option"

text \<open>What the response throttle and the dispatcher rely on.\<close>
locale pause_contract =
  fixes ps :: "('v, 'p) pause_service"
    and pclock :: "'v \<Rightarrow> time"
    and pinv :: "'p \<Rightarrow> bool"
  assumes lookup_unexpired: "ps_lookup ps v p d = Inr e \<Longrightarrow> pe_domain e \<noteq> [] \<Longrightarrow> pclock v < pe_expires_at e"
    and put_inv: "pinv p \<Longrightarrow> zero_time \<le> pclock v \<Longrightarrow> pinv (fst (ps_put ps v p x dry))"
    and put_refused: "snd (ps_put ps v p x dry) \<noteq> None \<Longrightarrow> fst (ps_put ps v p x dry) = p"
    and put_lookup: "pinv p \<Longrightarrow> ps_put ps v p x False = (p', None) \<Longrightarrow>
        normalize_domain d = normalize_domain (pe_domain x) \<Longrightarrow> pclock v' < pe_expires_at x \<Longrightarrow>
        ps_lookup ps v' p' d = Inr e \<Longrightarrow> pe_domain e \<noteq> [] \<and> pe_expires_at e = pe_expires_at x"
    and put_bounded: "ps_put ps v p x dry = (p', None) \<Longrightarrow>
        pclock v < pe_expires_at x \<and> pe_expires_at x \<le> pclock v + pause_max_duration"

definition local_pauses :: "(pause_env, pause_local) pause_service" where
  "local_pauses = \<lparr>ps_lookup = pause_lookup, ps_put = pause_put\<rparr>"

interpretation local_pause: pause_contract local_pauses pv_now pause_wf
proof (unfold_locales, goal_cases)
  case (4 p v x p' d v' e)
  then have "\<not> pv_done v'" by (auto simp: local_pauses_def pause_lookup_def)
  with 4 show ?case
    using pause_lookup_put [of p v x p' v' d] pause_validate_Inr(2) by (fastforce simp: local_pauses_def)
next
  case (5 v p x dry p')
  then have "\<exists>e. pause_validate x (pv_now v) = Inr e"
    by (auto simp: local_pauses_def pause_put_def split: if_splits sum.splits)
  then show ?case using pause_validate_Inr(2-4) by fastforce
qed (auto simp: local_pauses_def pause_put_wf pause_put_other dest: pause_lookup_active)

section \<open>Properties\<close>

definition w_pv :: pause_env where
  "w_pv = \<lparr>pv_now = 1000, pv_done = False, pv_save_fails = False\<rparr>"

definition w_pause0 :: pause_local where
  "w_pause0 = \<lparr>pl_entries = [], pl_file = None\<rparr>"

definition w_pentry :: pause_entry where
  "w_pentry = \<lparr>pe_domain = ''Ex.org.'', pe_reason = ''r'', pe_actor = ''op'', pe_created_at = zero_time,
     pe_expires_at = 5000\<rparr>"

lemma w_pause0_wf: "pause_wf w_pause0"
  by (simp add: pause_wf_def w_pause0_def)

lemma w_normalize: "normalize_domain ''Ex.org.'' = Inr ''ex.org''" "normalize_domain ''EX.ORG'' = Inr ''ex.org''"
  by code_simp+

lemma w_validate: "pause_validate w_pentry 1000 =
    Inr (w_pentry\<lparr>pe_domain := ''ex.org'', pe_created_at := 1000\<rparr>)"
  by (simp add: pause_validate_def w_pentry_def w_normalize trim_space_def trim_left_def trim_right_def is_space_def
        is_control_def pause_max_duration_def hour_def minute_def second_def)

lemma w_put: "pause_put w_pv w_pause0 w_pentry False = (fst (pause_put w_pv w_pause0 w_pentry False), None)"
  by (simp add: pause_put_def w_pv_def w_pause0_def w_validate pause_active_def pause_max_entries_def pause_save_def Let_def)

text \<open>A hold that was accepted is in force: every later lookup of its domain, in whatever
  spelling, returns the validated entry until it expires, and no lookup of another domain
  changes.\<close>
theorem pause_in_force:
  assumes "pause_wf p" "pause_put v p x False = (p', None)" "\<not> pv_done v'" "pv_now v \<le> pv_now v'"
  shows "(normalize_domain d = normalize_domain (pe_domain x) \<and> pv_now v' < pe_expires_at x \<longrightarrow>
      (\<exists>e. pause_lookup v' p' d = Inr e \<and> pause_validate x (pv_now v) = Inr e \<and> pe_domain e \<noteq> [])) \<and>
    (normalize_domain d \<noteq> normalize_domain (pe_domain x) \<longrightarrow> pause_lookup v' p' d = pause_lookup v' p d)"
  using pause_lookup_put [OF assms(1-3)] pause_lookup_put_other [OF assms(1,2,4)] by blast

theorem pause_in_force_witness:
  "\<exists>e. pause_lookup w_pv (fst (pause_put w_pv w_pause0 w_pentry False)) ''EX.ORG'' = Inr e \<and> pe_domain e \<noteq> []"
  using pause_in_force [OF w_pause0_wf w_put, of w_pv "''EX.ORG''"]
  by (auto simp: w_normalize w_pentry_def w_pv_def)

text \<open>The state on disk is the state in memory: whatever a put or a removal returns, failing
  saves included, the store stays well formed, and starting again from its file gives the same
  store.\<close>
theorem pause_survives_restart:
  assumes "pause_wf p" "zero_time \<le> pv_now v"
  shows "new_local (pl_file (fst (pause_put v p x dry))) = Inr (fst (pause_put v p x dry)) \<and>
    new_local (pl_file (fst (pause_remove v p d dry))) = Inr (fst (pause_remove v p d dry)) \<and>
    pause_wf (fst (pause_put v p x dry)) \<and> pause_wf (fst (pause_remove v p d dry))"
  using pause_reload pause_put_wf [OF assms] pause_remove_wf [OF assms(1)] by blast

theorem pause_survives_restart_witness:
  "new_local (pl_file (fst (pause_put w_pv w_pause0 w_pentry False))) =
    Inr (fst (pause_put w_pv w_pause0 w_pentry False))"
  using pause_survives_restart [OF w_pause0_wf, of w_pv] by (simp add: w_pv_def zero_time_def)

end
