(* ===== verification/Classification.thy ===== *)
theory Classification
  imports Go_Prelude
begin

text \<open>
  Delivery errors and their classification (\<^verbatim>\<open>internal/delivery/errors.go\<close>,
  \<^verbatim>\<open>classification.go\<close>). A Go error is a value of \<open>derror\<close> whose wrapping constructors are the
  errors with an \<^verbatim>\<open>Unwrap\<close> method; \<^verbatim>\<open>errors.As\<close> and \<^verbatim>\<open>errors.Is\<close> walk that chain.
\<close>

section \<open>Errors\<close>

datatype smtp_stage = StageNone | StageConnect | StageGreeting | StageEHLO | StageTLS | StageAUTH
  | StageMAIL | StageRCPT | StageDATA | StageDNS

fun stage_name :: "smtp_stage \<Rightarrow> string" where
  "stage_name StageNone = ''''" | "stage_name StageConnect = ''connect''"
| "stage_name StageGreeting = ''greeting''" | "stage_name StageEHLO = ''ehlo''"
| "stage_name StageTLS = ''tls''" | "stage_name StageAUTH = ''auth''" | "stage_name StageMAIL = ''mail''"
| "stage_name StageRCPT = ''rcpt''" | "stage_name StageDATA = ''data''" | "stage_name StageDNS = ''dns''"

record smtp_response =
  sr_stage :: smtp_stage
  sr_enhanced :: string
  sr_code :: nat
  sr_line :: string

definition sr_temporary :: "smtp_response \<Rightarrow> bool" where
  "sr_temporary r \<longleftrightarrow> 400 \<le> sr_code r \<and> sr_code r \<le> 499"

definition sr_permanent :: "smtp_response \<Rightarrow> bool" where
  "sr_permanent r \<longleftrightarrow> 500 \<le> sr_code r \<and> sr_code r \<le> 599"

datatype derror =
    SmtpError smtp_response
  | StageError smtp_stage derror
  | StatusUnknown derror
  | DeferredBy duration
  | DnsError string
  | NetError string
  | EofError
  | UnexpectedEof
  | Canceled
  | Wrapped string derror
  | OtherError string

text \<open>\<^verbatim>\<open>errors.As\<close> with each target the code uses, and \<^verbatim>\<open>errors.Is\<close>\<close>
fun as_smtp :: "derror \<Rightarrow> smtp_response option" where
  "as_smtp (SmtpError r) = Some r"
| "as_smtp (StageError _ e) = as_smtp e"
| "as_smtp (StatusUnknown e) = as_smtp e"
| "as_smtp (Wrapped _ e) = as_smtp e"
| "as_smtp _ = None"

fun as_stage :: "derror \<Rightarrow> smtp_stage option" where
  "as_stage (StageError s e) = Some s"
| "as_stage (StatusUnknown e) = as_stage e"
| "as_stage (Wrapped _ e) = as_stage e"
| "as_stage _ = None"

fun is_unknown :: "derror \<Rightarrow> bool" where
  "is_unknown (StatusUnknown e) = True"
| "is_unknown (StageError _ e) = is_unknown e"
| "is_unknown (Wrapped _ e) = is_unknown e"
| "is_unknown _ = False"

fun as_deferred :: "derror \<Rightarrow> duration option" where
  "as_deferred (DeferredBy d) = Some d"
| "as_deferred (StageError _ e) = as_deferred e"
| "as_deferred (StatusUnknown e) = as_deferred e"
| "as_deferred (Wrapped _ e) = as_deferred e"
| "as_deferred _ = None"

fun root_cause :: "derror \<Rightarrow> derror" where
  "root_cause (StageError _ e) = root_cause e"
| "root_cause (StatusUnknown e) = root_cause e"
| "root_cause (Wrapped _ e) = root_cause e"
| "root_cause e = e"

definition is_dns :: "derror \<Rightarrow> bool" where
  "is_dns e \<longleftrightarrow> (case root_cause e of DnsError _ \<Rightarrow> True | _ \<Rightarrow> False)"

definition is_network :: "derror \<Rightarrow> bool" where
  "is_network e \<longleftrightarrow> (case root_cause e of DnsError _ \<Rightarrow> True | NetError _ \<Rightarrow> True | _ \<Rightarrow> False)"

definition is_eof :: "derror \<Rightarrow> bool" where
  "is_eof e \<longleftrightarrow> root_cause e = EofError \<or> root_cause e = UnexpectedEof"

definition is_canceled :: "derror \<Rightarrow> bool" where
  "is_canceled e \<longleftrightarrow> root_cause e = Canceled"

section \<open>Enhanced status codes\<close>

text \<open>The group \<^verbatim>\<open>(0|[1-9][0-9]{0,2})\<close> of the pattern\<close>
definition status_number :: "string \<Rightarrow> bool" where
  "status_number s \<longleftrightarrow> s = ''0'' \<or>
     (s \<noteq> [] \<and> length s \<le> 3 \<and> list_all is_digit s \<and> hd s \<noteq> CHR ''0'')"

text \<open>\<^verbatim>\<open>enhancedStatusPattern\<close>\<close>
definition enhanced_status :: "string \<Rightarrow> bool" where
  "enhanced_status s \<longleftrightarrow>
     (case split_on CHR ''.'' s of
        [cls, sub, det] \<Rightarrow> cls \<in> {''2'', ''4'', ''5''} \<and> status_number sub \<and> status_number det
      | _ \<Rightarrow> False)"

definition digit_val :: "char \<Rightarrow> nat" where
  "digit_val c = of_char c - 48"

text \<open>One line of a reply: its status, or \<open>None\<close> where \<^verbatim>\<open>responseEnhancedStatus\<close> gives up\<close>
definition line_status :: "nat \<Rightarrow> string \<Rightarrow> string option" where
  "line_status code raw =
     (let part = trim_space raw;
          coded = (4 \<le> length part \<and> is_digit (part ! 0) \<and> is_digit (part ! 1) \<and> is_digit (part ! 2) \<and>
                   (part ! 3 = CHR '' '' \<or> part ! 3 = CHR ''-''))
      in if coded \<and> take 3 part \<noteq> show_nat code then None
         else (case split_fields (if coded then drop 4 part else part) of
                 [] \<Rightarrow> None
               | f # _ \<Rightarrow> if enhanced_status f \<and> digit_val (hd f) = code div 100 then Some f else None))"

fun lines_status :: "nat \<Rightarrow> string list \<Rightarrow> string \<Rightarrow> string" where
  "lines_status code [] status = status"
| "lines_status code (l # ls) status =
     (case line_status code l of
        None \<Rightarrow> []
      | Some f \<Rightarrow> if status \<noteq> [] \<and> status \<noteq> f then [] else lines_status code ls f)"

definition response_enhanced_status :: "nat \<Rightarrow> string \<Rightarrow> string" where
  "response_enhanced_status code line = lines_status code (split_on CHR 0x0A line) []"

section \<open>Classification\<close>

datatype failure_category = FailureInvalidRecipient | FailureMailboxFull | FailurePolicy | FailureSpam
  | FailureAuth | FailureDNS | FailureTransport | FailureUnknown

record failure_classification =
  fcl_category :: failure_category
  fcl_rule :: string
  fcl_stage :: smtp_stage
  fcl_enhanced :: string
  fcl_suppress :: bool

definition enhanced_failure_rules :: "(string \<times> failure_category \<times> string) list" where
  "enhanced_failure_rules =
     [(''.2.2'', FailureMailboxFull, ''enhanced_mailbox_full''), (''.7.8'', FailureAuth, ''enhanced_auth_credentials''),
      (''.7.9'', FailureAuth, ''enhanced_auth_mechanism''), (''.4.3'', FailureDNS, ''enhanced_directory_server'')]"

fun match_rule :: "string \<Rightarrow> (string \<times> failure_category \<times> string) list \<Rightarrow> (failure_category \<times> string) option" where
  "match_rule st [] = None"
| "match_rule st ((suf, c, r) # rs) = (if has_suffix st suf then Some (c, r) else match_rule st rs)"

definition classify_response :: "failure_classification \<Rightarrow> smtp_response \<Rightarrow> failure_classification" where
  "classify_response result0 r =
     (let st = response_enhanced_status (sr_code r) (sr_line r);
          result = result0\<lparr>fcl_stage := sr_stage r, fcl_enhanced := st\<rparr> in
      if sr_stage r = StageTLS then result\<lparr>fcl_category := FailurePolicy, fcl_rule := ''tls_policy''\<rparr>
      else if sr_stage r = StageAUTH \<or> sr_code r = 530 \<or> sr_code r = 535
      then result\<lparr>fcl_category := FailureAuth, fcl_rule := ''smtp_auth''\<rparr>
      else if st = ''5.1.1'' \<and> sr_stage r = StageRCPT \<and> sr_permanent r
      then result\<lparr>fcl_category := FailureInvalidRecipient, fcl_rule := ''rcpt_5_1_1'', fcl_suppress := True\<rparr>
      else if st = [] then result
      else (case match_rule st enhanced_failure_rules of
              Some (c, rl) \<Rightarrow> result\<lparr>fcl_category := c, fcl_rule := rl\<rparr>
            | None \<Rightarrow>
                (let sub = split_on CHR ''.'' st ! 1 in
                 if sub = ''7'' then result\<lparr>fcl_category := FailurePolicy, fcl_rule := ''enhanced_policy''\<rparr>
                 else if sub = ''4'' then result\<lparr>fcl_category := FailureTransport, fcl_rule := ''enhanced_network''\<rparr>
                 else result)))"

text \<open>\<^verbatim>\<open>ClassifyFailure\<close>\<close>
definition classify_failure :: "derror \<Rightarrow> failure_classification" where
  "classify_failure err =
     (let result = \<lparr>fcl_category = FailureUnknown, fcl_rule = ''unknown'',
            fcl_stage = (case as_stage err of Some s \<Rightarrow> s | None \<Rightarrow> StageNone), fcl_enhanced = [], fcl_suppress = False\<rparr> in
      case as_smtp err of
        Some r \<Rightarrow> classify_response result r
      | None \<Rightarrow>
          if is_dns err \<or> fcl_stage result = StageDNS then result\<lparr>fcl_category := FailureDNS, fcl_rule := ''dns_error''\<rparr>
          else if fcl_stage result = StageTLS then result\<lparr>fcl_category := FailurePolicy, fcl_rule := ''tls_error''\<rparr>
          else if is_network err \<or> is_eof err then result\<lparr>fcl_category := FailureTransport, fcl_rule := ''transport_error''\<rparr>
          else result)"

text \<open>\<^verbatim>\<open>atStage\<close> on an error\<close>
definition at_stage :: "smtp_stage \<Rightarrow> derror \<Rightarrow> derror" where
  "at_stage st err =
     (case as_smtp err of
        Some r \<Rightarrow> SmtpError (r\<lparr>sr_stage := st, sr_enhanced := response_enhanced_status (sr_code r) (sr_line r)\<rparr>)
      | None \<Rightarrow> StageError st err)"

section \<open>Facts\<close>

lemma line_status_Some:
  assumes "line_status code l = Some f"
  shows "enhanced_status f" "digit_val (hd f) = code div 100"
  using assms by (auto simp: line_status_def Let_def split: if_splits list.splits)

lemma enhanced_status_ne: "\<not> enhanced_status []"
  by (simp add: enhanced_status_def)

lemma line_status_ne: "line_status code l = Some f \<Longrightarrow> f \<noteq> []"
  using line_status_Some(1) enhanced_status_ne by blast

text \<open>A reply has a status exactly when every line carries that same status.\<close>
lemma lines_status_iff:
  assumes "f \<noteq> []"
  shows "lines_status code ls st = f \<longleftrightarrow>
    (if ls = [] then st = f else (st = [] \<or> st = f) \<and> (\<forall>l \<in> set ls. line_status code l = Some f))"
proof (induction ls arbitrary: st)
  case (Cons l ls)
  show ?case
  proof (cases "line_status code l")
    case None
    with assms show ?thesis by auto
  next
    case (Some g)
    have "g \<noteq> []" by (rule line_status_ne [OF Some])
    with Some Cons [of g] assms show ?thesis by auto
  qed
qed simp

lemma response_status_iff:
  "f \<noteq> [] \<Longrightarrow> response_enhanced_status code line = f \<longleftrightarrow>
     (\<forall>l \<in> set (split_on CHR 0x0A line). line_status code l = Some f)"
  by (simp add: response_enhanced_status_def lines_status_iff)

lemma classify_response_suppress:
  "fcl_suppress (classify_response r0 r) \<longleftrightarrow>
     (if sr_stage r = StageRCPT \<and> sr_permanent r \<and> sr_code r \<noteq> 530 \<and> sr_code r \<noteq> 535 \<and>
         response_enhanced_status (sr_code r) (sr_line r) = ''5.1.1'' then True else fcl_suppress r0)"
  by (auto simp: classify_response_def Let_def split: option.splits)

text \<open>The stage of an error survives wrapping, and so does its code.\<close>
lemma at_stage_classified:
  "map_option sr_code (as_smtp (at_stage st err)) = map_option sr_code (as_smtp err)"
  "fcl_stage (classify_failure (at_stage st err)) = st"
proof -
  have "fcl_stage (classify_response r0 r) = sr_stage r" for r0 r
    by (simp add: classify_response_def Let_def split: option.split)
  then show "fcl_stage (classify_failure (at_stage st err)) = st"
    by (cases "as_smtp err") (simp_all add: at_stage_def classify_failure_def Let_def)
  show "map_option sr_code (as_smtp (at_stage st err)) = map_option sr_code (as_smtp err)"
    by (cases "as_smtp err") (simp_all add: at_stage_def)
qed

section \<open>Properties\<close>

text \<open>An address is marked for suppression exactly when the server refused the recipient itself:
  the error is a reply to RCPT with a 5xx code that is no authentication demand, and every line
  of the reply carries the enhanced status 5.1.1. No other error, whatever its text, suppresses.\<close>
theorem suppress_iff_rcpt_511:
  "fcl_suppress (classify_failure err) \<longleftrightarrow>
     (\<exists>r. as_smtp err = Some r \<and> sr_stage r = StageRCPT \<and> 500 \<le> sr_code r \<and> sr_code r \<le> 599 \<and>
        sr_code r \<noteq> 530 \<and> sr_code r \<noteq> 535 \<and>
        (\<forall>l. l \<in> set (split_on CHR 0x0A (sr_line r)) \<longrightarrow> line_status (sr_code r) l = Some ''5.1.1''))"
proof (cases "as_smtp err")
  case None
  then show ?thesis by (simp add: classify_failure_def Let_def)
next
  case (Some r)
  then show ?thesis
    using response_status_iff [of "''5.1.1''" "sr_code r" "sr_line r"]
    by (auto simp: classify_failure_def classify_response_suppress sr_permanent_def Let_def)
qed

theorem suppress_iff_rcpt_511_witness:
  "fcl_suppress (classify_failure (SmtpError \<lparr>sr_stage = StageRCPT, sr_enhanced = [], sr_code = 550,
     sr_line = ''550 5.1.1 no such user''\<rparr>))"
proof -
  have s: "show_nat 550 = ''550''" by (simp add: show_nat.simps digit_char_def char_of_def bit_Suc_0_iff)
  have "line_status 550 ''550 5.1.1 no such user'' = Some ''5.1.1''"
    by (simp add: line_status_def Let_def s) code_simp
  then show ?thesis unfolding suppress_iff_rcpt_511 by simp
qed

end
