(* ===== verification/Bounce.thy ===== *)
theory Bounce
  imports Message
begin

text \<open>
  Delivery status notifications (\<^verbatim>\<open>internal/bounce/dsn_generate.go\<close>) and the suppression list
  (\<^verbatim>\<open>internal/bounce/suppression.go\<close>). The RFC 1123 rendering of a date is a parameter.
\<close>

section \<open>Headers of the original message\<close>

text \<open>The part before the first empty line, as \<^verbatim>\<open>messageHeaders\<close> and \<^verbatim>\<open>hasAutoSubmittedNonNo\<close> cut it\<close>
definition message_headers :: "string \<Rightarrow> string" where
  "message_headers raw =
     (case index_str raw (crlf @ crlf) of
        Some i \<Rightarrow> take i raw
      | None \<Rightarrow> (case index_str raw [CHR 0x0A, CHR 0x0A] of Some i \<Rightarrow> take i raw | None \<Rightarrow> raw))"

definition auto_flush :: "string \<Rightarrow> string \<Rightarrow> bool" where
  "auto_flush name val \<longleftrightarrow>
     equal_fold name ''Auto-Submitted'' \<and> (let v = trim_space (to_lower val) in v \<noteq> [] \<and> v \<noteq> ''no'')"

fun auto_lines :: "string list \<Rightarrow> string \<Rightarrow> string \<Rightarrow> bool" where
  "auto_lines [] name val = (name \<noteq> [] \<and> auto_flush name val)"
| "auto_lines (l # ls) name val =
     (if trim_space l = [] then name \<noteq> [] \<and> auto_flush name val
      else if has_prefix l '' '' \<or> has_prefix l [CHR 0x09]
      then auto_lines ls name (if name \<noteq> [] then val @ '' '' @ trim_space l else val)
      else if name \<noteq> [] \<and> auto_flush name val then True
      else (case split_2 CHR '':'' l of
              (_, None) \<Rightarrow> auto_lines ls [] []
            | (n, Some v) \<Rightarrow> auto_lines ls (trim_space n) (trim_space v)))"

definition has_auto_submitted_non_no :: "string \<Rightarrow> bool" where
  "has_auto_submitted_non_no raw \<longleftrightarrow>
     raw \<noteq> [] \<and> auto_lines (split_on CHR 0x0A (crlf_to_lf (message_headers raw))) [] []"

section \<open>Enhanced status in a diagnostic\<close>

text \<open>A match of \<^verbatim>\<open>[245]\.\d+\.\d+\<close> at the start of the text, as long as possible\<close>
definition status_here :: "string \<Rightarrow> string option" where
  "status_here s =
     (case s of
        c # d # rest \<Rightarrow>
          (let sub = takeWhile is_digit rest; r1 = dropWhile is_digit rest in
           if c \<in> {CHR ''2'', CHR ''4'', CHR ''5''} \<and> d = CHR ''.'' \<and> sub \<noteq> [] \<and> r1 \<noteq> [] \<and> hd r1 = CHR ''.'' \<and>
              takeWhile is_digit (tl r1) \<noteq> []
           then Some (c # d # sub @ ''.'' @ takeWhile is_digit (tl r1)) else None)
      | _ \<Rightarrow> None)"

fun extract_enhanced_status :: "string \<Rightarrow> string option" where
  "extract_enhanced_status [] = None"
| "extract_enhanced_status (c # s) =
     (case status_here (c # s) of Some st \<Rightarrow> Some st | None \<Rightarrow> extract_enhanced_status s)"

section \<open>Notifications\<close>

fun notify_wanted :: "string list \<Rightarrow> string \<Rightarrow> bool" where
  "notify_wanted [] event = False"
| "notify_wanted (r # rs) event =
     (if r = ''NEVER'' then False else if equal_fold r event then True else notify_wanted rs event)"

text \<open>\<^verbatim>\<open>ShouldNotify\<close>\<close>
definition should_notify :: "message \<Rightarrow> string \<Rightarrow> string \<Rightarrow> bool" where
  "should_notify orig rcpt event =
     (let dflt = (event = ''FAILURE'' \<or> event = ''DELAY'') in
      case m_dsn orig of
        None \<Rightarrow> dflt
      | Some dsn \<Rightarrow>
          (case map_of (dsn_recipients dsn) (to_lower (trim_space rcpt)) of
             None \<Rightarrow> dflt
           | Some opt \<Rightarrow> if notify opt = [] then dflt else notify_wanted (notify opt) event))"

datatype dsn_error = DsnSenderEmpty | DsnAutoSubmitted | DsnSenderInvalid | DsnRecipientInvalid

definition dsn_status :: "string \<Rightarrow> string \<Rightarrow> string" where
  "dsn_status default_status diagnostic =
     (case extract_enhanced_status diagnostic of Some s \<Rightarrow> s | None \<Rightarrow> default_status)"

definition dsn_human :: "string \<Rightarrow> string" where
  "dsn_human action =
     (if action = ''delayed'' then ''Your message delivery is delayed and will be retried.''
      else if action = ''delivered'' then ''Your message was delivered successfully.''
      else ''Your message could not be delivered.'')"

text \<open>The lines of the report, in the order the code appends them.\<close>
definition dsn_lines :: "(time \<Rightarrow> string) \<Rightarrow> message \<Rightarrow> string \<Rightarrow> string \<Rightarrow> string \<Rightarrow> string \<Rightarrow> string \<Rightarrow> string \<Rightarrow> time \<Rightarrow> string list" where
  "dsn_lines rfc1123z orig from recipient action status diagnostic host t =
     (let boundary = ''dsn-'' @ show_int t in
      [''From: MAILER-DAEMON@'' @ host, ''To: '' @ from,
       ''Subject: Delivery Status Notification ('' @ to_upper action @ '')'',
       ''Auto-Submitted: auto-generated'', ''MIME-Version: 1.0'',
       ''Content-Type: multipart/report; report-type=delivery-status; boundary='' @ [CHR 0x22] @ boundary @ [CHR 0x22],
       [], ''--'' @ boundary, ''Content-Type: text/plain; charset=utf-8'', [], dsn_human action, [],
       ''--'' @ boundary, ''Content-Type: message/delivery-status'', [],
       ''Reporting-MTA: dns; '' @ host, ''Arrival-Date: '' @ rfc1123z t] @
      (case m_dsn orig of
         None \<Rightarrow> []
       | Some d \<Rightarrow> if envelope_id d \<noteq> [] then [''Original-Envelope-Id: '' @ envelope_id d] else []) @
      [[]] @
      (case m_dsn orig of
         None \<Rightarrow> []
       | Some d \<Rightarrow>
           (case map_of (dsn_recipients d) recipient of
              None \<Rightarrow> []
            | Some opt \<Rightarrow> if original_recipient opt \<noteq> [] then [''Original-Recipient: '' @ original_recipient opt] else [])) @
      [''Final-Recipient: rfc822; '' @ recipient, ''Action: '' @ action, ''Status: '' @ status,
       ''Diagnostic-Code: smtp; '' @ trim_space diagnostic, []] @
      (case m_dsn orig of
         None \<Rightarrow> []
       | Some d \<Rightarrow>
           (let hdrs = (dsn_return d = ''HDRS'') in
            [''--'' @ boundary, ''Content-Type: '' @ (if hdrs then ''text/rfc822-headers'' else ''message/rfc822''), [],
             trim_right (\<lambda>c. c = CHR 0x0D \<or> c = CHR 0x0A) (if hdrs then message_headers (m_data orig) else m_data orig), []])) @
      [''--'' @ boundary @ ''--'', []])"

text \<open>\<^verbatim>\<open>buildDSN\<close>; the original message is never nil here.\<close>
definition build_dsn :: "(time \<Rightarrow> string) \<Rightarrow> message \<Rightarrow> string \<Rightarrow> string \<Rightarrow> string \<Rightarrow> string \<Rightarrow> string \<Rightarrow> time
    \<Rightarrow> dsn_error + message" where
  "build_dsn rfc1123z orig failed_rcpt action default_status diagnostic hostname t =
     (let from = trim_space (mail_from orig) in
      if from = [] \<or> from = ''<>'' then Inl DsnSenderEmpty
      else if has_auto_submitted_non_no (m_data orig) then Inl DsnAutoSubmitted
      else if CHR ''@'' \<notin> set from then Inl DsnSenderInvalid
      else
        (let recipient = to_lower (trim_space failed_rcpt) in
         if recipient = [] \<or> CHR ''@'' \<notin> set recipient then Inl DsnRecipientInvalid
         else
           (let host = (let h = trim_space hostname in if h = [] then ''kuroshio.local'' else h);
                data = join crlf (dsn_lines rfc1123z orig from recipient action
                         (dsn_status default_status diagnostic) diagnostic host t)
            in Inr ((new_message (''dsn-'' @ show_int t))
                 \<lparr>created_at := t, updated_at := t, rcpt_to := [from], m_data := data, next_attempt := t,
                  tenant := ''system'', traffic_class := ''system''\<rparr>))))"

definition build_failure_dsn :: "(time \<Rightarrow> string) \<Rightarrow> message \<Rightarrow> string \<Rightarrow> string \<Rightarrow> string \<Rightarrow> time \<Rightarrow> dsn_error + message" where
  "build_failure_dsn f orig rcpt diagnostic host t = build_dsn f orig rcpt ''failed'' ''5.0.0'' diagnostic host t"

definition build_delay_dsn :: "(time \<Rightarrow> string) \<Rightarrow> message \<Rightarrow> string \<Rightarrow> string \<Rightarrow> string \<Rightarrow> time \<Rightarrow> dsn_error + message" where
  "build_delay_dsn f orig rcpt diagnostic host t = build_dsn f orig rcpt ''delayed'' ''4.0.0'' diagnostic host t"

definition build_success_dsn :: "(time \<Rightarrow> string) \<Rightarrow> message \<Rightarrow> string \<Rightarrow> string \<Rightarrow> string \<Rightarrow> time \<Rightarrow> dsn_error + message" where
  "build_success_dsn f orig rcpt diagnostic host t = build_dsn f orig rcpt ''delivered'' ''2.0.0'' diagnostic host t"

section \<open>The suppression list\<close>

record suppression_entry =
  se_address :: string
  se_reason :: string
  se_created_at :: time

record suppression_store =
  ss_path :: string
  ss_entries :: "(string \<times> suppression_entry) list"
  ss_file :: "suppression_entry list option"

definition normalize_address :: "string \<Rightarrow> string" where
  "normalize_address addr =
     (let a = trim_space (to_lower addr) in if a = [] \<or> CHR ''@'' \<notin> set a then [] else a)"

text \<open>\<^verbatim>\<open>load\<close> on the decoded list, and \<^verbatim>\<open>NewSuppressionStore\<close> (\<open>fails\<close>: creating the directory or reading fails)\<close>
fun load_entries :: "suppression_entry list \<Rightarrow> (string \<times> suppression_entry) list \<Rightarrow> (string \<times> suppression_entry) list" where
  "load_entries [] m = m"
| "load_entries (e # es) m = load_entries es (dput (normalize_address (se_address e)) e m)"

definition new_suppression_store :: "bool \<Rightarrow> string \<Rightarrow> suppression_entry list option \<Rightarrow> suppression_store option" where
  "new_suppression_store fails path file =
     (if path = [] then Some \<lparr>ss_path = [], ss_entries = [], ss_file = file\<rparr>
      else if fails then None
      else Some \<lparr>ss_path = path, ss_entries = (case file of None \<Rightarrow> [] | Some es \<Rightarrow> load_entries es []),
                 ss_file = file\<rparr>)"

text \<open>\<^verbatim>\<open>saveLocked\<close>; \<open>True\<close> for an error. The new list replaces the file by a rename.\<close>
definition suppression_save :: "bool \<Rightarrow> suppression_store \<Rightarrow> suppression_store \<times> bool" where
  "suppression_save fails s =
     (if ss_path s = [] then (s, False)
      else if fails then (s, True)
      else (s\<lparr>ss_file := Some (map snd (ss_entries s))\<rparr>, False))"

definition is_suppressed :: "suppression_store \<Rightarrow> string \<Rightarrow> bool" where
  "is_suppressed s addr = (let n = normalize_address addr in n \<noteq> [] \<and> map_of (ss_entries s) n \<noteq> None)"

definition suppression_add :: "bool \<Rightarrow> time \<Rightarrow> suppression_store \<Rightarrow> string \<Rightarrow> string \<Rightarrow> suppression_store \<times> bool" where
  "suppression_add fails t s addr reason =
     (let n = normalize_address addr in
      if n = [] then (s, False)
      else if map_of (ss_entries s) n \<noteq> None then (s, False)
      else suppression_save fails
             (s\<lparr>ss_entries := dput n \<lparr>se_address = n, se_reason = reason, se_created_at = t\<rparr> (ss_entries s)\<rparr>))"

definition suppression_remove :: "bool \<Rightarrow> suppression_store \<Rightarrow> string \<Rightarrow> suppression_store \<times> bool \<times> bool" where
  "suppression_remove fails s addr =
     (let n = normalize_address addr in
      if n = [] then (s, False, False)
      else if map_of (ss_entries s) n = None then (s, False, False)
      else (let r = suppression_save fails (s\<lparr>ss_entries := ddel n (ss_entries s)\<rparr>) in (fst r, True, snd r)))"

definition suppression_list :: "suppression_store \<Rightarrow> suppression_entry list" where
  "suppression_list s = sort_key se_address (map snd (ss_entries s))"

section \<open>Facts\<close>

lemma build_dsn_Inr:
  assumes "build_dsn f orig rcpt a st diag host t = Inr m"
  shows "mail_from m = []" "rcpt_to m = [trim_space (mail_from orig)]" "m_id m = ''dsn-'' @ show_int t"
    "m_quarantine m = None" "attempts m = 0" "m_dsn m = None" "tenant m = ''system''"
    "CHR ''@'' \<in> set (trim_space (mail_from orig))"
  using assms by (auto simp: build_dsn_def new_message_def Let_def split: if_splits)

lemma normalize_address_idem [simp]: "normalize_address (normalize_address a) = normalize_address a"
  by (simp add: normalize_address_def Let_def trim_space_lower [symmetric])

lemma normalize_address_fold: "equal_fold a b \<Longrightarrow> normalize_address a = normalize_address b"
  by (simp add: normalize_address_def equal_fold_def)

definition suppression_wf :: "suppression_store \<Rightarrow> bool" where
  "suppression_wf s \<longleftrightarrow> dwf (ss_entries s) \<and>
     (\<forall>p \<in> set (ss_entries s). se_address (snd p) = fst p \<and> normalize_address (fst p) = fst p \<and> fst p \<noteq> [])"

definition suppression_synced :: "suppression_store \<Rightarrow> bool" where
  "suppression_synced s \<longleftrightarrow> ss_path s \<noteq> [] \<and> (ss_file s = Some (map snd (ss_entries s)) \<or> ss_file s = None \<and> ss_entries s = [])"

lemma dput_last: "\<forall>q \<in> set xs. fst q < k \<Longrightarrow> dput k v xs = xs @ [(k, v)]"
  by (induction k v xs rule: dput.induct) auto

text \<open>Reading back a list in order of its keys gives the map.\<close>
lemma load_entries_sorted:
  assumes "dwf (ys @ xs)" "\<forall>p \<in> set xs. normalize_address (se_address (snd p)) = fst p"
  shows "load_entries (map snd xs) ys = ys @ xs"
  using assms
proof (induction xs arbitrary: ys)
  case (Cons p xs)
  have "\<forall>q \<in> set ys. fst q < fst p" using Cons.prems(1) by (auto simp: dwf_def sorted_wrt_append)
  then have "dput (fst p) (snd p) ys = ys @ [p]" by (simp add: dput_last)
  with Cons show ?case by simp
qed simp

lemma suppression_reload:
  assumes "suppression_wf s" "suppression_synced s"
  shows "new_suppression_store False (ss_path s) (ss_file s) = Some s"
proof -
  have "load_entries (map snd (ss_entries s)) [] = ss_entries s"
    using load_entries_sorted [of "[]" "ss_entries s"] assms(1) by (simp add: suppression_wf_def)
  then show ?thesis
    using assms(2) by (cases s) (auto simp: new_suppression_store_def suppression_synced_def)
qed

lemma suppression_save_wf [simp]: "suppression_wf (fst (suppression_save b s)) = suppression_wf s"
  by (simp add: suppression_save_def suppression_wf_def)

lemma suppression_add_wf:
  assumes "suppression_wf s"
  shows "suppression_wf (fst (suppression_add b t s a r))"
proof -
  let ?n = "normalize_address a"
  let ?e = "\<lparr>se_address = ?n, se_reason = r, se_created_at = t\<rparr>"
  have "suppression_wf (s\<lparr>ss_entries := dput ?n ?e (ss_entries s)\<rparr>)" if "?n \<noteq> []"
    using assms that set_dput [of _ ?n ?e "ss_entries s"] by (fastforce simp: suppression_wf_def)
  with assms show ?thesis by (simp add: suppression_add_def Let_def)
qed

lemma suppression_remove_wf:
  assumes "suppression_wf s"
  shows "suppression_wf (fst (suppression_remove b s a))"
proof -
  have "suppression_wf (s\<lparr>ss_entries := ddel n (ss_entries s)\<rparr>)" for n
    using assms ddel_subset [of n "ss_entries s"] by (auto simp: suppression_wf_def subset_iff)
  with assms show ?thesis by (simp add: suppression_remove_def Let_def)
qed

section \<open>Properties\<close>

definition w_orig :: message where
  "w_orig = (new_message ''m1'')\<lparr>mail_from := ''a@b.example'', m_data := ''Subject: x''\<rparr>"

lemma w_orig_dsn: "\<exists>m. build_failure_dsn f w_orig ''u@d.example'' ''550 5.1.1 no'' ''mx'' 7 = Inr m"
proof -
  have "trim_space ''a@b.example'' = ''a@b.example''" "trim_space ''u@d.example'' = ''u@d.example''"
    "to_lower ''u@d.example'' = ''u@d.example''" by (code_simp, code_simp, code_simp)
  moreover have "\<not> has_auto_submitted_non_no ''Subject: x''" by code_simp
  ultimately show ?thesis
    by (simp add: build_failure_dsn_def build_dsn_def w_orig_def new_message_def Let_def)
qed

text \<open>Notifications cannot loop. A notification has the null sender, goes to the sender of the
  original message only, and is itself never the subject of a notification of any kind.\<close>
theorem dsn_no_loop:
  assumes "build_dsn f orig rcpt action status diag host t = Inr m"
  shows "mail_from m = [] \<and> rcpt_to m = [trim_space (mail_from orig)] \<and>
    build_dsn f' m rcpt' action' status' diag' host' t' = Inl DsnSenderEmpty"
  using build_dsn_Inr [OF assms] by (simp add: build_dsn_def trim_space_def trim_left_def trim_right_def)

theorem dsn_no_loop_witness:
  "\<exists>m. build_dsn (\<lambda>_. ''now'') w_orig ''u@d.example'' ''failed'' ''5.0.0'' ''550 5.1.1 no'' ''mx'' 7 = Inr m \<and>
    rcpt_to m = [trim_space (mail_from w_orig)]"
  using w_orig_dsn [of "\<lambda>_. ''now''"] dsn_no_loop [of "\<lambda>_. ''now''" w_orig "''u@d.example''"
    "''failed''" "''5.0.0''" "''550 5.1.1 no''" "''mx''" 7] by (auto simp: build_failure_dsn_def)

text \<open>The suppression list is case-insensitive and survives a restart: once an address was added
  without error, every spelling of it is suppressed, also by the store a restart loads from the
  file, and after a removal without error none is.\<close>
theorem suppression_durable:
  assumes "suppression_wf s" "suppression_synced s" "normalize_address a \<noteq> []" "equal_fold a b"
    and "suppression_add fails t s a r = (s1, False)" "suppression_remove fails' s1 b = (s2, True, False)"
  shows "is_suppressed s1 b \<and> new_suppression_store False (ss_path s1) (ss_file s1) = Some s1 \<and>
    \<not> is_suppressed s2 b \<and> new_suppression_store False (ss_path s2) (ss_file s2) = Some s2"
proof -
  have n: "normalize_address b = normalize_address a" using normalize_address_fold [OF assms(4)] by simp
  have s1: "is_suppressed s1 b \<and> suppression_synced s1"
    using assms(2,3,5) n
    by (auto simp: suppression_add_def suppression_save_def suppression_synced_def is_suppressed_def Let_def split: if_splits)
  have s2: "\<not> is_suppressed s2 b \<and> suppression_synced s2"
    using assms(3,6) s1 n
    by (auto simp: suppression_remove_def suppression_save_def suppression_synced_def is_suppressed_def Let_def split: if_splits)
  have "suppression_wf s1" using suppression_add_wf [OF assms(1), of fails t a r] assms(5) by simp
  moreover from this have "suppression_wf s2" using suppression_remove_wf [of s1 fails' b] assms(6) by simp
  ultimately show ?thesis using s1 s2 suppression_reload by blast
qed

definition w_sup :: suppression_store where
  "w_sup = \<lparr>ss_path = ''p'', ss_entries = [], ss_file = None\<rparr>"

definition w_sup1 :: suppression_store where
  "w_sup1 = \<lparr>ss_path = ''p'', ss_entries = [(''a@b'', \<lparr>se_address = ''a@b'', se_reason = ''r'', se_created_at = 5\<rparr>)],
     ss_file = Some [\<lparr>se_address = ''a@b'', se_reason = ''r'', se_created_at = 5\<rparr>]\<rparr>"

lemma w_sup_norm: "normalize_address ''a@b'' = ''a@b''" "normalize_address ''A@B'' = ''a@b''"
  by (code_simp, code_simp)

lemma w_sup_add: "suppression_add False 5 w_sup ''a@b'' ''r'' = (w_sup1, False)"
  by (simp add: suppression_add_def suppression_save_def w_sup_def w_sup1_def w_sup_norm Let_def)

lemma w_sup_remove: "suppression_remove False w_sup1 ''A@B'' = (w_sup\<lparr>ss_file := Some []\<rparr>, True, False)"
  by (simp add: suppression_remove_def suppression_save_def w_sup_def w_sup1_def w_sup_norm ddel_def Let_def)

theorem suppression_durable_witness:
  "is_suppressed w_sup1 ''A@B'' \<and> \<not> is_suppressed (w_sup\<lparr>ss_file := Some []\<rparr>) ''A@B''"
proof -
  have "equal_fold ''a@b'' ''A@B''" by code_simp
  moreover have "suppression_wf w_sup" "suppression_synced w_sup"
    by (simp_all add: suppression_wf_def suppression_synced_def w_sup_def)
  ultimately show ?thesis
    using suppression_durable [OF _ _ _ _ w_sup_add w_sup_remove] by (simp add: w_sup_norm)
qed

text \<open>A failed save of the suppression list is never repeated: after an add that reported an
  error, adding the same address again reports success but leaves the file as it was, so the
  address is no longer suppressed after a restart, although it is until then.\<close>
theorem suppression_failed_save_lost:
  assumes "suppression_wf s" "suppression_synced s" "\<not> is_suppressed s a" "normalize_address a \<noteq> []"
    and "suppression_add True t s a r = (s1, err)"
  shows "err \<and> is_suppressed s1 a \<and> suppression_add False t' s1 a r' = (s1, False) \<and>
    new_suppression_store False (ss_path s1) (ss_file s1) = Some s"
proof -
  have "map_of (ss_entries s) (normalize_address a) = None" "ss_path s \<noteq> []"
    using assms(2-4) by (auto simp: is_suppressed_def suppression_synced_def Let_def)
  with assms(4,5) have "err" "ss_path s1 = ss_path s" "ss_file s1 = ss_file s" "is_suppressed s1 a"
      "suppression_add False t' s1 a r' = (s1, False)"
    by (auto simp: suppression_add_def suppression_save_def is_suppressed_def Let_def)
  then show ?thesis using suppression_reload [OF assms(1,2)] by simp
qed

theorem suppression_failed_save_lost_witness:
  "new_suppression_store False ''p'' (ss_file (fst (suppression_add True 5 w_sup ''a@b'' ''r''))) = Some w_sup"
proof -
  have "suppression_wf w_sup" "suppression_synced w_sup" "\<not> is_suppressed w_sup ''a@b''" "ss_path w_sup = ''p''"
    by (simp_all add: suppression_wf_def suppression_synced_def is_suppressed_def w_sup_def)
  moreover have "ss_path (fst (suppression_add True 5 w_sup ''a@b'' ''r'')) = ''p''"
    by (simp add: suppression_add_def suppression_save_def w_sup_def w_sup_norm Let_def)
  ultimately show ?thesis
    using suppression_failed_save_lost [of w_sup "''a@b''" 5 "''r''",
        OF _ _ _ _ prod.collapse [symmetric]] by (simp add: w_sup_norm)
qed

end
