(* ===== verification/Domain_Throttle.thy ===== *)
theory Domain_Throttle
  imports Complex_Main Go_Prelude
begin

text \<open>
  The per-domain concurrency limit with its adaptive penalty
  (\<^verbatim>\<open>internal/worker/domain_throttle.go\<close>, the memory backend). The semaphore of a domain is the
  number of its occupied slots. The failure ratio is compared exactly, with the threshold as a
  rational: the code compares the nearest binary fractions of the same two numbers.
\<close>

section \<open>Definitions\<close>

record domain_state =
  ds_next_allowed :: time
  ds_limit :: nat
  ds_in_use :: nat
  ds_penalty :: duration
  ds_samples :: nat
  ds_temp_fail :: nat

record domain_throttle =
  dt_def_limit :: int
  dt_rules :: "(string \<times> int) list"
  dt_adaptive :: bool
  dt_threshold :: rat
  dt_max_penalty :: duration
  dt_per_domain :: "(string \<times> domain_state) list"

definition new_local_domain_throttle :: "int \<Rightarrow> (string \<times> int) list \<Rightarrow> bool \<Rightarrow> rat \<Rightarrow> duration \<Rightarrow> domain_throttle" where
  "new_local_domain_throttle def_limit rules adaptive threshold max_penalty =
     \<lparr>dt_def_limit = (if def_limit \<le> 0 then 1 else def_limit), dt_rules = rules, dt_adaptive = adaptive,
      dt_threshold = (if threshold \<le> 0 \<or> 1 \<le> threshold then 3 / 10 else threshold),
      dt_max_penalty = (if max_penalty \<le> 0 then 5 * second else max_penalty), dt_per_domain = []\<rparr>"

definition domain_key :: "string \<Rightarrow> string" where
  "domain_key d = to_lower (trim_space d)"

text \<open>\<^verbatim>\<open>get\<close>: the state of a domain, made on first use\<close>
definition dt_limit :: "domain_throttle \<Rightarrow> string \<Rightarrow> nat" where
  "dt_limit d k = nat (case map_of (dt_rules d) k of
     Some v \<Rightarrow> if 0 < v then v else dt_def_limit d | None \<Rightarrow> dt_def_limit d)"

definition dt_get :: "domain_throttle \<Rightarrow> string \<Rightarrow> domain_throttle \<times> domain_state" where
  "dt_get d k =
     (case map_of (dt_per_domain d) k of
        Some st \<Rightarrow> (d, st)
      | None \<Rightarrow>
          (let st = \<lparr>ds_next_allowed = zero_time, ds_limit = dt_limit d k, ds_in_use = 0, ds_penalty = 0,
                     ds_samples = 0, ds_temp_fail = 0\<rparr>
           in (d\<lparr>dt_per_domain := dput k st (dt_per_domain d)\<rparr>, st)))"

definition dt_set :: "domain_throttle \<Rightarrow> string \<Rightarrow> domain_state \<Rightarrow> domain_throttle" where
  "dt_set d k st = d\<lparr>dt_per_domain := dput k st (dt_per_domain d)\<rparr>"

text \<open>One observation on the state of a domain\<close>
definition next_penalty :: "domain_throttle \<Rightarrow> domain_state \<Rightarrow> duration" where
  "next_penalty d st =
     (if dt_threshold d \<le> of_nat (ds_temp_fail st) / of_nat (ds_samples st)
      then min (dt_max_penalty d) (if ds_penalty st = 0 then 200 * millisecond else ds_penalty st * 2)
      else (let p = ds_penalty st div 2 in if p < 50 * millisecond then 0 else p))"

definition observe_state :: "domain_throttle \<Rightarrow> domain_state \<Rightarrow> bool \<Rightarrow> domain_state" where
  "observe_state d st0 temporary =
     (let st = st0\<lparr>ds_samples := ds_samples st0 + 1,
                   ds_temp_fail := ds_temp_fail st0 + (if temporary then 1 else 0)\<rparr> in
      if ds_samples st < 20 then st
      else st\<lparr>ds_penalty := next_penalty d st, ds_samples := 0, ds_temp_fail := 0\<rparr>)"

definition dt_observe :: "domain_throttle \<Rightarrow> string \<Rightarrow> bool \<Rightarrow> domain_throttle" where
  "dt_observe d domain temporary =
     (if \<not> dt_adaptive d then d
      else (let k = domain_key domain; g = dt_get d k in dt_set (fst g) k (observe_state (fst g) (snd g) temporary)))"

text \<open>\<^verbatim>\<open>acquire\<close> after its sleep: \<open>None\<close> while the channel is full and the call blocks\<close>
definition dt_acquire :: "domain_throttle \<Rightarrow> string \<Rightarrow> domain_throttle option" where
  "dt_acquire d domain =
     (let k = domain_key domain; g = dt_get d k; st = snd g in
      if ds_in_use st < ds_limit st then Some (dt_set (fst g) k (st\<lparr>ds_in_use := ds_in_use st + 1\<rparr>)) else None)"

text \<open>\<^verbatim>\<open>tryLease\<close>: whether a lease was granted, and the wait otherwise\<close>
definition dt_try_lease :: "bool \<Rightarrow> time \<Rightarrow> domain_throttle \<Rightarrow> string \<Rightarrow> domain_throttle \<times> bool \<times> duration" where
  "dt_try_lease ctx_done t d domain =
     (if ctx_done then (d, False, second)
      else
        (let k = domain_key domain; g = dt_get d k; st = snd g in
         if t < ds_next_allowed st then (fst g, False, ds_next_allowed st - t)
         else if ds_in_use st < ds_limit st
         then (dt_set (fst g) k (st\<lparr>ds_in_use := ds_in_use st + 1, ds_next_allowed := t + ds_penalty st\<rparr>), True, 0)
         else (fst g, False, 100 * millisecond)))"

text \<open>The release function of a lease\<close>
definition dt_release :: "domain_throttle \<Rightarrow> string \<Rightarrow> domain_throttle" where
  "dt_release d domain =
     (let k = domain_key domain; g = dt_get d k in
      dt_set (fst g) k ((snd g)\<lparr>ds_in_use := ds_in_use (snd g) - 1\<rparr>))"

text \<open>\<^verbatim>\<open>parseDomainRules\<close>; the number is read at 64 bits.\<close>
fun rule_number :: "int \<Rightarrow> string \<Rightarrow> int" where
  "rule_number n [] = n"
| "rule_number n (c # cs) = (if \<not> is_digit c then 0 else rule_number (wrap64 (n * 10 + int (of_char c - 48))) cs)"

definition parse_rule :: "string \<Rightarrow> (string \<times> int) option" where
  "parse_rule part =
     (let p = trim_space part in
      if p = [] then None
      else (case index_byte p CHR '':'' of
              None \<Rightarrow> None
            | Some i \<Rightarrow>
                if i = 0 \<or> i = length p - 1 then None
                else (let dm = to_lower (trim_space (take i p)); n = rule_number 0 (trim_space (drop (i + 1) p)) in
                      if dm \<noteq> [] \<and> 0 < n then Some (dm, n) else None)))"

fun parse_rules :: "string list \<Rightarrow> (string \<times> int) list \<Rightarrow> (string \<times> int) list" where
  "parse_rules [] out = out"
| "parse_rules (p # ps) out =
     parse_rules ps (case parse_rule p of None \<Rightarrow> out | Some (dm, n) \<Rightarrow> dput dm n out)"

definition parse_domain_rules :: "string \<Rightarrow> (string \<times> int) list" where
  "parse_domain_rules raw = parse_rules (split_on CHR '','' raw) []"

section \<open>Invariant\<close>

definition state_ok :: "domain_throttle \<Rightarrow> string \<times> domain_state \<Rightarrow> bool" where
  "state_ok d p \<longleftrightarrow> ds_limit (snd p) = dt_limit d (fst p) \<and> ds_in_use (snd p) \<le> ds_limit (snd p) \<and>
     0 \<le> ds_penalty (snd p) \<and> ds_penalty (snd p) \<le> dt_max_penalty d \<and>
     ds_samples (snd p) < 20 \<and> ds_temp_fail (snd p) \<le> ds_samples (snd p)"

definition dt_wf :: "domain_throttle \<Rightarrow> bool" where
  "dt_wf d \<longleftrightarrow> dwf (dt_per_domain d) \<and> 0 < dt_def_limit d \<and> 0 < dt_max_penalty d \<and>
     list_all (state_ok d) (dt_per_domain d)"

lemma new_throttle_wf: "dt_wf (new_local_domain_throttle l r a th mp)"
  by (simp add: new_local_domain_throttle_def dt_wf_def second_def)

lemma dt_limit_upd [simp]: "dt_limit (d\<lparr>dt_per_domain := xs\<rparr>) = dt_limit d"
proof
  show "dt_limit (d\<lparr>dt_per_domain := xs\<rparr>) k = dt_limit d k" for k
    by (cases "map_of (dt_rules d) k") (simp_all add: dt_limit_def)
qed

lemma state_ok_cong [simp]: "state_ok (d\<lparr>dt_per_domain := xs\<rparr>) = state_ok d"
  by (simp add: state_ok_def fun_eq_iff)

lemma dt_set_wf:
  assumes "dt_wf d" "state_ok d (k, st)"
  shows "dt_wf (dt_set d k st)"
  using assms set_dput [of _ k st "dt_per_domain d"] by (fastforce simp: dt_wf_def dt_set_def list_all_iff)

lemma dt_get_wf:
  assumes "dt_wf d"
  shows "dt_wf (fst (dt_get d k))" "state_ok (fst (dt_get d k)) (k, snd (dt_get d k))"
    "map_of (dt_per_domain (fst (dt_get d k))) k = Some (snd (dt_get d k))"
proof -
  show "dt_wf (fst (dt_get d k))" "state_ok (fst (dt_get d k)) (k, snd (dt_get d k))"
    "map_of (dt_per_domain (fst (dt_get d k))) k = Some (snd (dt_get d k))"
  proof (atomize (full), cases "map_of (dt_per_domain d) k")
    case None
    define st where "st = \<lparr>ds_next_allowed = zero_time, ds_limit = dt_limit d k, ds_in_use = 0, ds_penalty = 0,
      ds_samples = 0, ds_temp_fail = 0\<rparr>"
    have g: "dt_get d k = (dt_set d k st, st)" using None by (simp add: dt_get_def dt_set_def st_def Let_def)
    have "state_ok d (k, st)" using assms by (simp add: state_ok_def st_def dt_wf_def)
    with dt_set_wf [OF assms this] show "dt_wf (fst (dt_get d k)) \<and> state_ok (fst (dt_get d k)) (k, snd (dt_get d k)) \<and>
        map_of (dt_per_domain (fst (dt_get d k))) k = Some (snd (dt_get d k))"
      unfolding g by (simp add: dt_set_def)
  next
    case (Some st)
    then have "(k, st) \<in> set (dt_per_domain d)" by (rule map_of_SomeD)
    with assms Some show "dt_wf (fst (dt_get d k)) \<and> state_ok (fst (dt_get d k)) (k, snd (dt_get d k)) \<and>
        map_of (dt_per_domain (fst (dt_get d k))) k = Some (snd (dt_get d k))"
      by (auto simp: dt_get_def dt_wf_def list_all_iff)
  qed
qed

lemma dt_get_frame [simp]:
  "dt_max_penalty (fst (dt_get d k)) = dt_max_penalty d" "dt_limit (fst (dt_get d k)) = dt_limit d"
  "dt_threshold (fst (dt_get d k)) = dt_threshold d" "dt_adaptive (fst (dt_get d k)) = dt_adaptive d"
  by (auto simp: dt_get_def Let_def split: option.split)

lemma dt_set_frame [simp]:
  "dt_max_penalty (dt_set d k st) = dt_max_penalty d" "dt_limit (dt_set d k st) = dt_limit d"
  "dt_threshold (dt_set d k st) = dt_threshold d" "dt_adaptive (dt_set d k st) = dt_adaptive d"
  by (simp_all add: dt_set_def)

lemma observe_state_ok:
  assumes "state_ok d (k, st)" "0 < dt_max_penalty d"
  shows "state_ok d (k, observe_state d st b)"
  using assms
  by (auto simp: state_ok_def observe_state_def next_penalty_def Let_def millisecond_def)

section \<open>Interleaved workers\<close>

text \<open>
  Workers share the throttle; \<open>leases\<close> counts, per domain, the leases granted and not yet
  released. A release runs once per lease.
\<close>
inductive dt_step :: "domain_throttle \<times> (string \<Rightarrow> nat) \<Rightarrow> domain_throttle \<times> (string \<Rightarrow> nat) \<Rightarrow> bool" where
  dt_granted: "dt_try_lease False t d x = (d', True, w) \<Longrightarrow>
     dt_step (d, l) (d', l(domain_key x := l (domain_key x) + 1))"
| dt_refused: "dt_try_lease c t d x = (d', False, w) \<Longrightarrow> dt_step (d, l) (d', l)"
| dt_acquired: "dt_acquire d x = Some d' \<Longrightarrow> dt_step (d, l) (d', l(domain_key x := l (domain_key x) + 1))"
| dt_released: "0 < l (domain_key x) \<Longrightarrow>
     dt_step (d, l) (dt_release d x, l(domain_key x := l (domain_key x) - 1))"
| dt_observed: "dt_step (d, l) (dt_observe d x b, l)"

inductive_cases dt_stepE: "dt_step (d, l) dl'"

inductive dt_reach :: "domain_throttle \<Rightarrow> domain_throttle \<times> (string \<Rightarrow> nat) \<Rightarrow> bool" for d0 where
  dt_init: "dt_reach d0 (d0, \<lambda>_. 0)"
| dt_next: "dt_reach d0 dl \<Longrightarrow> dt_step dl dl' \<Longrightarrow> dt_reach d0 dl'"

text \<open>The slots in use are the leases that are out.\<close>
definition slots :: "domain_throttle \<Rightarrow> string \<Rightarrow> nat" where
  "slots d k = (case map_of (dt_per_domain d) k of None \<Rightarrow> 0 | Some st \<Rightarrow> ds_in_use st)"

lemma slots_get [simp]: "slots (fst (dt_get d k)) = slots d"
  by (auto simp: dt_get_def slots_def Let_def fun_eq_iff split: option.split)

lemma slots_set [simp]: "slots (dt_set d k st) = (slots d)(k := ds_in_use st)"
  by (auto simp: dt_set_def slots_def fun_eq_iff)

lemma slots_here: "ds_in_use (snd (dt_get d k)) = slots d k"
  by (simp add: dt_get_def slots_def Let_def split: option.split)

lemma dt_try_wf: "dt_wf d \<Longrightarrow> dt_wf (fst (dt_try_lease c t d x))"
  using dt_get_wf [of d "domain_key x"]
  by (auto simp: dt_try_lease_def Let_def state_ok_def intro!: dt_set_wf)

lemma dt_try_wf': "dt_try_lease c t d x = (d', g) \<Longrightarrow> dt_wf d \<Longrightarrow> dt_wf d'"
  using dt_try_wf by (metis fst_conv)

lemma dt_acquire_wf: "dt_wf d \<Longrightarrow> dt_acquire d x = Some d' \<Longrightarrow> dt_wf d'"
  using dt_get_wf [of d "domain_key x"]
  by (auto simp: dt_acquire_def Let_def state_ok_def split: if_splits intro!: dt_set_wf)

lemma dt_release_wf: "dt_wf d \<Longrightarrow> dt_wf (dt_release d x)"
  using dt_get_wf [of d "domain_key x"]
  by (auto simp: dt_release_def Let_def state_ok_def intro!: dt_set_wf)

lemma dt_observe_wf: "dt_wf d \<Longrightarrow> dt_wf (dt_observe d x b)"
  using dt_get_wf [of d "domain_key x"]
  by (auto simp: dt_observe_def Let_def intro!: dt_set_wf observe_state_ok) (simp add: dt_wf_def)

lemma observe_in_use [simp]: "ds_in_use (observe_state d st b) = ds_in_use st"
  by (simp add: observe_state_def Let_def)

lemma dt_step_wf: "dt_step (d, l) (d', l') \<Longrightarrow> dt_wf d \<Longrightarrow> dt_wf d'"
  by (erule dt_stepE) (auto intro: dt_acquire_wf dt_release_wf dt_observe_wf dest: dt_try_wf')

lemma dt_step_limit: "dt_step (d, l) (d', l') \<Longrightarrow> dt_limit d' = dt_limit d"
  by (erule dt_stepE)
     (auto simp: dt_try_lease_def dt_acquire_def dt_release_def dt_observe_def Let_def split: if_splits)

lemma dt_step_slots: "dt_step (d, l) (d', l') \<Longrightarrow> slots d = l \<Longrightarrow> slots d' = l'"
  by (erule dt_stepE)
     (auto simp: dt_try_lease_def dt_acquire_def dt_release_def dt_observe_def slots_here Let_def fun_eq_iff
           split: if_splits)

lemma slots_limit: "dt_wf d \<Longrightarrow> slots d k \<le> dt_limit d k"
proof (cases "map_of (dt_per_domain d) k")
  case (Some st)
  assume "dt_wf d"
  moreover have "(k, st) \<in> set (dt_per_domain d)" using Some by (rule map_of_SomeD)
  ultimately have "state_ok d (k, st)" by (auto simp: dt_wf_def list_all_iff)
  with Some show ?thesis by (simp add: slots_def state_ok_def)
qed (simp add: slots_def)

lemma dt_reach_inv:
  assumes "dt_reach d0 (d, l)" "dt_wf d0" "dt_per_domain d0 = []"
  shows "dt_wf d \<and> slots d = l \<and> dt_limit d = dt_limit d0"
  using assms(1)
proof (induction "(d, l)" arbitrary: d l rule: dt_reach.induct)
  case dt_init
  show ?case using assms(2,3) by (simp add: slots_def fun_eq_iff)
next
  case (dt_next dl d' l')
  obtain d l where dl: "dl = (d, l)" by (cases dl)
  from dt_next(2) [OF dl] dt_next(3) show ?case
    unfolding dl using dt_step_wf dt_step_slots dt_step_limit by metis
qed

section \<open>Recovery\<close>

text \<open>A window of twenty successes, without leases in between.\<close>
fun observe_many :: "nat \<Rightarrow> domain_throttle \<Rightarrow> domain_state \<Rightarrow> domain_state" where
  "observe_many 0 d st = st"
| "observe_many (Suc n) d st = observe_many n d (observe_state d st False)"

lemma observe_many_partial:
  "ds_samples st + n < 20 \<Longrightarrow> observe_many n d st = st\<lparr>ds_samples := ds_samples st + n\<rparr>"
  by (induction n arbitrary: st) (auto simp: observe_state_def Let_def)

lemma observe_many_add: "observe_many (m + n) d st = observe_many n d (observe_many m d st)"
  by (induction m arbitrary: st) auto

lemma window_penalty:
  assumes "ds_samples st = 0" "ds_temp_fail st = 0" "0 < dt_threshold d"
  shows "observe_many 20 d st =
    st\<lparr>ds_penalty := if ds_penalty st div 2 < 50 * millisecond then 0 else ds_penalty st div 2\<rparr>"
proof -
  have "observe_many 20 d st = observe_state d (observe_many 19 d st) False"
    using observe_many_add [of 19 1 d st] by simp
  also have "observe_many 19 d st = st\<lparr>ds_samples := 19\<rparr>"
    using observe_many_partial [of st 19 d] assms(1) by simp
  finally show ?thesis using assms by (simp add: observe_state_def next_penalty_def Let_def)
qed

lemma windows_penalty:
  assumes "ds_samples st = 0" "ds_temp_fail st = 0" "0 < dt_threshold d" "0 \<le> ds_penalty st"
    and "ds_penalty st < 50 * millisecond * 2 ^ n"
  shows "ds_penalty (observe_many (20 * n) d st) = 0 \<or> n = 0"
  using assms
proof (induction n arbitrary: st)
  case (Suc n)
  let ?st = "observe_many 20 d st"
  note w = window_penalty [OF Suc.prems(1-3)]
  have split: "observe_many (20 * Suc n) d st = observe_many (20 * n) d ?st"
    using observe_many_add [of 20 "20 * n" d st] by simp
  have small: "ds_penalty ?st < 50 * millisecond * 2 ^ n" "0 \<le> ds_penalty ?st"
    using Suc.prems(4,5) by (auto simp: w millisecond_def)
  show ?case
  proof (cases n)
    case 0
    then have "ds_penalty ?st = 0" using Suc.prems(5) by (auto simp: w millisecond_def)
    then show ?thesis using 0 split by simp
  next
    case (Suc k)
    then show ?thesis using Suc.IH [of ?st] Suc.prems small split w by simp
  qed
qed simp

section \<open>Properties\<close>

definition w_dt :: domain_throttle where
  "w_dt = new_local_domain_throttle 1 [(''x.example'', 2)] True (3 / 10) (5 * second)"

lemma w_dt_step:
  "dt_step (w_dt, \<lambda>_. 0) (fst (dt_try_lease False 9 w_dt ''x.example''), (\<lambda>_. 0)(domain_key ''x.example'' := 0 + 1))"
proof -
  have k: "domain_key ''x.example'' = ''x.example''" by code_simp
  have "snd (dt_try_lease False 9 w_dt ''x.example'') = (True, 0)"
    by (simp add: dt_try_lease_def dt_get_def w_dt_def new_local_domain_throttle_def dt_limit_def k zero_time_def Let_def)
  then have "dt_try_lease False 9 w_dt ''x.example'' = (fst (dt_try_lease False 9 w_dt ''x.example''), True, 0)"
    by (metis prod.collapse)
  from dt_granted [OF this, of "\<lambda>_. 0"] show ?thesis by simp
qed

text \<open>However the workers interleave, the leases of a domain that are out never exceed its limit:
  the rule for the domain, or the default. Penalties stay between zero and the maximum.\<close>
theorem throttle_limit_respected:
  assumes "dt_reach (new_local_domain_throttle dl rules ad th mp) (d, l)"
  shows "l k \<le> dt_limit (new_local_domain_throttle dl rules ad th mp) k \<and>
    (map_of (dt_per_domain d) k = Some st \<longrightarrow> 0 \<le> ds_penalty st \<and> ds_penalty st \<le> dt_max_penalty d)"
proof -
  have inv: "dt_wf d" "slots d = l" "dt_limit d = dt_limit (new_local_domain_throttle dl rules ad th mp)"
    using dt_reach_inv [OF assms new_throttle_wf] by (simp_all add: new_local_domain_throttle_def)
  have "map_of (dt_per_domain d) k = Some st \<longrightarrow> state_ok d (k, st)"
    using inv(1) by (auto simp: dt_wf_def list_all_iff dest: map_of_SomeD)
  with slots_limit [OF inv(1), of k] inv show ?thesis by (auto simp: state_ok_def)
qed

theorem throttle_limit_respected_witness:
  "((\<lambda>_. 0)(domain_key ''x.example'' := 0 + 1)) ''x.example'' \<le> dt_limit w_dt ''x.example''"
  using throttle_limit_respected [OF dt_next [OF dt_init w_dt_step [unfolded w_dt_def]], of "''x.example''"]
  unfolding w_dt_def by simp

text \<open>Leases granted without blocking are paced by the penalty: after a grant no other lease of
  that domain is granted before the penalty in force has passed, and the answer is a positive
  wait that ends exactly then.\<close>
theorem lease_paced:
  assumes "dt_try_lease False t d x = (d1, True, w)" "domain_key y = domain_key x"
    and "ds_penalty (snd (dt_get d (domain_key x))) = p" "t \<le> t'" "t' < t + p"
  shows "snd (dt_try_lease False t' d1 y) = (False, t + p - t') \<and> 0 < t + p - t'"
proof -
  let ?k = "domain_key x"
  let ?st = "snd (dt_get d ?k)"
  have d1: "d1 = dt_set (fst (dt_get d ?k)) ?k (?st\<lparr>ds_in_use := ds_in_use ?st + 1, ds_next_allowed := t + ds_penalty ?st\<rparr>)"
    using assms(1) by (auto simp: dt_try_lease_def Let_def split: if_splits)
  then have "snd (dt_get d1 ?k) = ?st\<lparr>ds_in_use := ds_in_use ?st + 1, ds_next_allowed := t + ds_penalty ?st\<rparr>"
    by (simp add: dt_get_def dt_set_def)
  with assms(2-5) show ?thesis by (simp add: dt_try_lease_def Let_def)
qed

definition w_dt1 :: domain_throttle where
  "w_dt1 = w_dt\<lparr>dt_per_domain := [(''x.example'', \<lparr>ds_next_allowed = 0, ds_limit = 2, ds_in_use = 0, ds_penalty = 100,
     ds_samples = 0, ds_temp_fail = 0\<rparr>)]\<rparr>"

theorem lease_paced_witness:
  "snd (dt_try_lease False 50 (fst (dt_try_lease False 9 w_dt1 ''x.example'')) ''x.example'') = (False, 59)"
proof -
  have k: "domain_key ''x.example'' = ''x.example''" by code_simp
  have g: "dt_get w_dt1 ''x.example'' = (w_dt1, \<lparr>ds_next_allowed = 0, ds_limit = 2, ds_in_use = 0, ds_penalty = 100,
     ds_samples = 0, ds_temp_fail = 0\<rparr>)" by (simp add: dt_get_def w_dt1_def)
  have "snd (dt_try_lease False 9 w_dt1 ''x.example'') = (True, 0)"
    by (simp add: dt_try_lease_def k g Let_def)
  then have "dt_try_lease False 9 w_dt1 ''x.example'' = (fst (dt_try_lease False 9 w_dt1 ''x.example''), True, 0)"
    by (metis prod.collapse)
  from lease_paced [OF this refl, of 100 50] show ?thesis by (simp add: k g)
qed

text \<open>A domain that recovers is not punished forever: after \<open>n\<close> windows of twenty successful
  deliveries, with \<open>n\<close> large enough that fifty milliseconds doubled \<open>n\<close> times exceed the penalty, the
  penalty is gone.\<close>
theorem penalty_decays:
  assumes "dt_wf d" "0 < dt_threshold d" "map_of (dt_per_domain d) k = Some st"
    and "ds_samples st = 0" "dt_max_penalty d < 50 * millisecond * 2 ^ n" "0 < n"
  shows "ds_penalty (observe_many (20 * n) d st) = 0"
proof -
  have "state_ok d (k, st)" using assms(1,3) by (auto simp: dt_wf_def list_all_iff dest: map_of_SomeD)
  then have "ds_temp_fail st = 0" "0 \<le> ds_penalty st" "ds_penalty st \<le> dt_max_penalty d"
    using assms(4) by (auto simp: state_ok_def)
  with windows_penalty [of st d n] assms(2,4-6) show ?thesis by auto
qed

theorem penalty_decays_witness:
  "ds_penalty (observe_many (20 * 7) w_dt1 \<lparr>ds_next_allowed = 0, ds_limit = 2, ds_in_use = 0, ds_penalty = 100,
     ds_samples = 0, ds_temp_fail = 0\<rparr>) = 0"
  by (rule penalty_decays [where k = "''x.example''"])
     (simp_all add: w_dt1_def w_dt_def new_local_domain_throttle_def dt_wf_def state_ok_def dt_limit_def dwf_def
        second_def millisecond_def)

end
