(* ===== verification/Response_Throttle.thy ===== *)
theory Response_Throttle
  imports Delivery_Pause Classification
begin

text \<open>
  The automatic hold on a domain whose servers keep answering with temporary failures
  (\<^verbatim>\<open>internal/worker/response_throttle.go\<close>, its rules in
  \<^verbatim>\<open>internal/config/response_throttle.go\<close>). It is a client of the pause service.
\<close>

section \<open>Definitions\<close>

record response_rule =
  rr_id :: string
  rr_domains :: "string list"
  rr_smtp_code :: int
  rr_enhanced :: string
  rr_stage :: string
  rr_threshold :: nat
  rr_window :: duration
  rr_pause :: duration

record response_config =
  rc_enabled :: bool
  rc_dry_run :: bool
  rc_rules :: "response_rule list"

text \<open>\<^verbatim>\<open>^[a-z0-9][a-z0-9_-]{0,63}$\<close> and \<^verbatim>\<open>^4\.[0-9]{1,3}\.[0-9]{1,3}$\<close>\<close>
definition rule_id_ok :: "string \<Rightarrow> bool" where
  "rule_id_ok s \<longleftrightarrow> s \<noteq> [] \<and> length s \<le> 64 \<and> (is_lower (hd s) \<or> is_digit (hd s)) \<and>
     list_all (\<lambda>c. is_lower c \<or> is_digit c \<or> c = CHR ''_'' \<or> c = CHR ''-'') s"

definition rule_status_ok :: "string \<Rightarrow> bool" where
  "rule_status_ok s \<longleftrightarrow>
     (case split_on CHR ''.'' s of
        [a, b, c] \<Rightarrow> a = ''4'' \<and> b \<noteq> [] \<and> length b \<le> 3 \<and> list_all is_digit b \<and>
                     c \<noteq> [] \<and> length c \<le> 3 \<and> list_all is_digit c
      | _ \<Rightarrow> False)"

fun rules_ok :: "string list \<Rightarrow> response_rule list \<Rightarrow> bool" where
  "rules_ok seen [] = True"
| "rules_ok seen (r # rs) =
     (let i = trim_space (rr_id r) in
      rule_id_ok i \<and> i \<notin> set seen \<and> 400 \<le> rr_smtp_code r \<and> rr_smtp_code r \<le> 499 \<and>
      1 \<le> rr_threshold r \<and> rr_threshold r \<le> 10000 \<and> 0 < rr_window r \<and> rr_window r \<le> 24 * hour \<and>
      0 < rr_pause r \<and> rr_pause r \<le> 24 * hour \<and>
      (rr_enhanced r = [] \<or> rule_status_ok (rr_enhanced r)) \<and>
      to_lower (rr_stage r) \<in> {'''', ''connect'', ''greeting'', ''ehlo'', ''tls'', ''auth'', ''mail'', ''rcpt'', ''data'', ''dns''} \<and>
      rules_ok (i # seen) rs)"

text \<open>\<^verbatim>\<open>Validate\<close>\<close>
definition response_validate :: "response_config \<Rightarrow> bool" where
  "response_validate c \<longleftrightarrow>
     \<not> rc_enabled c \<or> (rc_rules c \<noteq> [] \<and> length (rc_rules c) \<le> 64 \<and> rules_ok [] (rc_rules c))"

definition max_response_keys :: nat where "max_response_keys = 10000"

record response_throttle =
  rt_cfg :: response_config
  rt_events :: "(string \<times> time list) list"

definition new_response_throttle :: "response_config \<Rightarrow> bool \<Rightarrow> response_throttle option" where
  "new_response_throttle c has_store =
     (if \<not> rc_enabled c \<or> \<not> has_store \<and> \<not> rc_dry_run c then None
      else Some \<lparr>rt_cfg = c, rt_events = []\<rparr>)"

definition response_rule_matches :: "response_rule \<Rightarrow> string \<Rightarrow> nat \<Rightarrow> string \<Rightarrow> string \<Rightarrow> bool" where
  "response_rule_matches r domain code stage enhanced \<longleftrightarrow>
     (if rr_smtp_code r \<noteq> int code \<or> (rr_stage r \<noteq> [] \<and> \<not> equal_fold (rr_stage r) stage) \<or>
         (rr_enhanced r \<noteq> [] \<and> rr_enhanced r \<noteq> enhanced) then False
      else rr_domains r = [] \<or>
        list_ex (\<lambda>c. c = ''*'' \<or> equal_fold (trim_suffix c ''.'') domain) (rr_domains r))"

definition event_key :: "response_rule \<Rightarrow> string \<Rightarrow> string" where
  "event_key r domain = rr_id r @ [CHR 0x00] @ domain"

datatype response_error = ThrottleCapacity | ThrottlePause pause_error

text \<open>The events of a key that are still inside the window\<close>
definition recent_events :: "response_throttle \<Rightarrow> response_rule \<Rightarrow> string \<Rightarrow> time \<Rightarrow> time list" where
  "recent_events rt r domain t =
     filter (\<lambda>at. t - rr_window r < at)
       (case map_of (rt_events rt) (event_key r domain) of None \<Rightarrow> [] | Some ts \<Rightarrow> ts)"

text \<open>The hold a rule asks for\<close>
definition throttle_entry :: "response_rule \<Rightarrow> string \<Rightarrow> time \<Rightarrow> pause_entry" where
  "throttle_entry r domain t =
     \<lparr>pe_domain = domain, pe_reason = ''automatic response throttle rule '' @ rr_id r,
      pe_actor = ''auto:response-throttle:'' @ rr_id r, pe_created_at = zero_time, pe_expires_at = t + rr_pause r\<rparr>"

text \<open>The body of the loop for the first matching rule: the counting under the lock, then the hold.
  The result is the rule, whether it triggered and the error.\<close>
definition observe_rule :: "('v, 'p) pause_service \<Rightarrow> 'v \<Rightarrow> time \<Rightarrow> response_throttle \<Rightarrow> 'p \<Rightarrow> response_rule \<Rightarrow> string
    \<Rightarrow> response_throttle \<times> 'p \<times> string \<times> bool \<times> response_error option" where
  "observe_rule ps v t rt p r domain =
     (let key = event_key r domain in
      if map_of (rt_events rt) key = None \<and> max_response_keys \<le> length (rt_events rt)
      then (rt, p, rr_id r, False, Some ThrottleCapacity)
      else
        (let values = recent_events rt r domain t @ [t] in
         if length values < rr_threshold r
         then (rt\<lparr>rt_events := dput key values (rt_events rt)\<rparr>, p, rr_id r, False, None)
         else
           (let rt' = rt\<lparr>rt_events := ddel key (rt_events rt)\<rparr> in
            if rc_dry_run (rt_cfg rt) then (rt', p, rr_id r, True, None)
            else (case ps_lookup ps v p domain of
                    Inl err \<Rightarrow> (rt', p, rr_id r, True, Some (ThrottlePause err))
                  | Inr existing \<Rightarrow>
                      if pe_domain existing \<noteq> [] then (rt', p, rr_id r, True, None)
                      else
                        (let u = ps_put ps v p (throttle_entry r domain t) False in
                         (rt', fst u, rr_id r, True, map_option ThrottlePause (snd u)))))))"

text \<open>\<^verbatim>\<open>observe\<close>\<close>
definition response_observe :: "('v, 'p) pause_service \<Rightarrow> 'v \<Rightarrow> time \<Rightarrow> response_throttle \<Rightarrow> 'p \<Rightarrow> string \<Rightarrow> derror
    \<Rightarrow> response_throttle \<times> 'p \<times> string \<times> bool \<times> response_error option" where
  "response_observe ps v t rt p domain err =
     (case as_smtp err of
        None \<Rightarrow> (rt, p, [], False, None)
      | Some r \<Rightarrow>
          if \<not> sr_temporary r then (rt, p, [], False, None)
          else
            (let cls = classify_failure err in
             case find (\<lambda>rule. response_rule_matches rule domain (sr_code r) (stage_name (fcl_stage cls)) (fcl_enhanced cls))
                    (rc_rules (rt_cfg rt)) of
               None \<Rightarrow> (rt, p, [], False, None)
             | Some rule \<Rightarrow> observe_rule ps v t rt p rule domain))"

section \<open>Facts\<close>

lemma rules_ok_bounds:
  "rules_ok seen rs \<Longrightarrow> r \<in> set rs \<Longrightarrow> 1 \<le> rr_threshold r \<and> rr_threshold r \<le> 10000 \<and> 0 < rr_pause r"
  by (induction seen rs rule: rules_ok.induct) (auto simp: Let_def)

definition rt_wf :: "response_throttle \<Rightarrow> bool" where
  "rt_wf rt \<longleftrightarrow> dwf (rt_events rt) \<and> length (rt_events rt) \<le> max_response_keys \<and>
     (\<forall>p \<in> set (rt_events rt). length (snd p) < 10000) \<and> rc_enabled (rt_cfg rt) \<and> response_validate (rt_cfg rt)"

lemma observe_rule_wf:
  assumes "rt_wf rt" "r \<in> set (rc_rules (rt_cfg rt))"
  shows "rt_wf (fst (observe_rule ps v t rt p r domain))"
proof -
  let ?key = "event_key r domain" and ?vs = "recent_events rt r domain t @ [t]"
  have thr: "rr_threshold r \<le> 10000"
    using assms rules_ok_bounds by (auto simp: rt_wf_def response_validate_def)
  have del: "rt_wf (rt\<lparr>rt_events := ddel ?key (rt_events rt)\<rparr>)"
    using assms(1) ddel_subset [of ?key "rt_events rt"] ddel_length [of ?key "rt_events rt"]
    by (auto simp: rt_wf_def intro: le_trans)
  have put: "rt_wf (rt\<lparr>rt_events := dput ?key ?vs (rt_events rt)\<rparr>)"
    if "\<not> (map_of (rt_events rt) ?key = None \<and> max_response_keys \<le> length (rt_events rt))" "length ?vs < rr_threshold r"
  proof -
    have "length (dput ?key ?vs (rt_events rt)) \<le> max_response_keys"
      using assms(1) that(1) by (auto simp: rt_wf_def dput_length)
    moreover have "length (snd q) < 10000" if "q \<in> set (dput ?key ?vs (rt_events rt))" for q
      using set_dput [OF that] assms(1) thr \<open>length ?vs < rr_threshold r\<close> by (auto simp: rt_wf_def)
    ultimately show ?thesis using assms(1) by (simp add: rt_wf_def dput_dwf)
  qed
  show ?thesis
    using assms(1) del put by (simp add: observe_rule_def Let_def split: sum.split)
qed

lemma find_member: "find P xs = Some x \<Longrightarrow> x \<in> set xs \<and> P x"
  by (auto simp: find_Some_iff)

context pause_contract
begin

text \<open>When the rule triggers and no error is reported, the domain is on hold afterwards.\<close>
lemma observe_rule_holds:
  assumes "pinv p" "observe_rule ps v t rt p r domain = (rt', p', i, True, None)" "\<not> rc_dry_run (rt_cfg rt)"
    and "ps_lookup ps v p domain = Inr zero_entry" "pclock v' < t + rr_pause r"
    and "ps_lookup ps v' p' domain = Inr e"
  shows "pe_domain e \<noteq> [] \<and> pe_expires_at e = t + rr_pause r"
proof -
  have "snd (ps_put ps v p (throttle_entry r domain t) False) = None"
    "p' = fst (ps_put ps v p (throttle_entry r domain t) False)"
    using assms(2-4) by (auto simp: observe_rule_def zero_entry_def Let_def split: if_splits)
  then have "ps_put ps v p (throttle_entry r domain t) False = (p', None)" by (metis prod.collapse)
  from put_lookup [OF assms(1) this, of domain v' e] assms(5,6) show ?thesis by (simp add: throttle_entry_def)
qed

end

section \<open>Properties\<close>

definition w_rule :: response_rule where
  "w_rule = \<lparr>rr_id = ''slow'', rr_domains = [], rr_smtp_code = 421, rr_enhanced = [], rr_stage = [], rr_threshold = 2,
     rr_window = 1000, rr_pause = 600\<rparr>"

definition w_rt :: response_throttle where
  "w_rt = \<lparr>rt_cfg = \<lparr>rc_enabled = True, rc_dry_run = False, rc_rules = [w_rule]\<rparr>,
     rt_events = [(event_key w_rule ''ex.org'', [500])]\<rparr>"

definition w_421 :: derror where
  "w_421 = SmtpError \<lparr>sr_stage = StageConnect, sr_enhanced = [], sr_code = 421, sr_line = ''421 busy''\<rparr>"

lemma w_rt_wf: "rt_wf w_rt"
proof -
  have "rule_id_ok (trim_space ''slow'')" by code_simp
  then show ?thesis
    by (simp add: rt_wf_def w_rt_def w_rule_def response_validate_def dwf_def max_response_keys_def hour_def minute_def
          second_def to_lower_def Let_def)
qed

lemma w_rt_match: "as_smtp w_421 = Some \<lparr>sr_stage = StageConnect, sr_enhanced = [], sr_code = 421, sr_line = ''421 busy''\<rparr>"
  "response_rule_matches w_rule ''ex.org'' 421 a b"
  by (simp_all add: w_421_def response_rule_matches_def w_rule_def)

lemma w_rt_observe:
  "response_observe local_pauses w_pv 1000 w_rt w_pause0 ''ex.org'' w_421 =
     observe_rule local_pauses w_pv 1000 w_rt w_pause0 w_rule ''ex.org''"
  by (simp add: response_observe_def w_rt_match sr_temporary_def Let_def) (simp add: w_rt_def w_rt_match)

text \<open>The memory of the response throttle is bounded: however many failures are observed, at most
  ten thousand rule and domain pairs are tracked and each holds fewer than ten thousand times.\<close>
theorem response_memory_bounded:
  assumes "rt_wf rt"
  shows "rt_wf (fst (response_observe ps v t rt p domain err)) \<and>
    length (rt_events (fst (response_observe ps v t rt p domain err))) \<le> 10000"
proof -
  have "rt_wf (fst (response_observe ps v t rt p domain err))"
    using assms observe_rule_wf
    by (auto simp: response_observe_def Let_def split: option.splits dest!: find_member)
  then show ?thesis by (simp add: rt_wf_def max_response_keys_def)
qed

theorem response_memory_bounded_witness:
  "length (rt_events (fst (response_observe local_pauses w_pv 1000 w_rt w_pause0 ''ex.org'' w_421))) \<le> 10000"
  using response_memory_bounded [OF w_rt_wf, of local_pauses w_pv 1000 w_pause0 "''ex.org''" w_421] by simp

text \<open>A rule triggers exactly on its threshold: for the first matching rule, an observed temporary
  failure triggers if and only if it and the failures of that rule and domain inside the window
  reach the threshold; the count then starts again, and before that the failure is remembered.\<close>
theorem response_trigger_exact:
  assumes "as_smtp err = Some r" "sr_temporary r"
    and "find (\<lambda>rule. response_rule_matches rule domain (sr_code r) (stage_name (fcl_stage (classify_failure err)))
               (fcl_enhanced (classify_failure err))) (rc_rules (rt_cfg rt)) = Some rule"
    and "map_of (rt_events rt) (event_key rule domain) \<noteq> None \<or> length (rt_events rt) < max_response_keys"
    and "response_observe ps v t rt p domain err = (rt', p', i, triggered, e)"
  shows "(triggered \<longleftrightarrow> rr_threshold rule \<le> length (recent_events rt rule domain t) + 1) \<and>
    map_of (rt_events rt') (event_key rule domain) =
      (if triggered then None else Some (recent_events rt rule domain t @ [t]))"
proof -
  have "observe_rule ps v t rt p rule domain = (rt', p', i, triggered, e)"
    using assms(1-3,5) by (simp add: response_observe_def Let_def)
  with assms(4) show ?thesis
    by (auto simp: observe_rule_def Let_def split: if_splits sum.splits)
qed

theorem response_trigger_exact_witness:
  "fst (snd (snd (snd (response_observe local_pauses w_pv 1000 w_rt w_pause0 ''ex.org'' w_421))))"
proof -
  let ?o = "response_observe local_pauses w_pv 1000 w_rt w_pause0 ''ex.org'' w_421"
  have o: "?o = (fst ?o, fst (snd ?o), fst (snd (snd ?o)), fst (snd (snd (snd ?o))), snd (snd (snd (snd ?o))))" by simp
  have "find (\<lambda>rule. response_rule_matches rule ''ex.org'' 421 (stage_name (fcl_stage (classify_failure w_421)))
      (fcl_enhanced (classify_failure w_421))) (rc_rules (rt_cfg w_rt)) = Some w_rule"
    by (simp add: w_rt_def w_rt_match)
  moreover have "length (recent_events w_rt w_rule ''ex.org'' 1000) = 1"
    by (simp add: recent_events_def w_rt_def) (simp add: w_rule_def)
  ultimately show ?thesis
    using response_trigger_exact [OF w_rt_match(1) _ _ _ o] by (simp add: sr_temporary_def w_rt_def w_rule_def)
qed

text \<open>A triggered rule holds the domain: unless the throttle only reports, the domain had no hold
  and the store accepted the new one, every lookup of the domain in the local pause store
  returns a hold that ends the configured pause after the trigger, until then.\<close>
theorem response_trigger_pauses:
  assumes "pause_wf p" "observe_rule local_pauses v t rt p rule domain = (rt', p', i, True, None)"
    and "\<not> rc_dry_run (rt_cfg rt)" "pause_lookup v p domain = Inr zero_entry"
    and "pv_now v' < t + rr_pause rule" "pause_lookup v' p' domain = Inr e"
  shows "pe_domain e \<noteq> [] \<and> pe_expires_at e = t + rr_pause rule"
  by (rule local_pause.observe_rule_holds [OF assms(1-3) _ assms(5)])
     (use assms(4,6) in \<open>simp_all add: local_pauses_def\<close>)

lemma w_throttle_entry:
  "pause_validate (throttle_entry w_rule ''ex.org'' 1000) 1000 =
     Inr ((throttle_entry w_rule ''ex.org'' 1000)\<lparr>pe_created_at := 1000\<rparr>)"
  by code_simp

theorem response_trigger_pauses_witness:
  "\<exists>e. pause_lookup (w_pv\<lparr>pv_now := 1500\<rparr>)
      (fst (snd (observe_rule local_pauses w_pv 1000 w_rt w_pause0 w_rule ''ex.org''))) ''ex.org'' = Inr e \<and>
    pe_domain e \<noteq> [] \<and> pe_expires_at e = 1600"
proof -
  let ?o = "observe_rule local_pauses w_pv 1000 w_rt w_pause0 w_rule ''ex.org''"
  have n: "normalize_domain ''ex.org'' = Inr ''ex.org''" by code_simp
  have look: "pause_lookup w_pv w_pause0 ''ex.org'' = Inr zero_entry"
    by (simp add: pause_lookup_def n w_pv_def w_pause0_def zero_entry_def zero_time_def)
  have "length (recent_events w_rt w_rule ''ex.org'' 1000) = 1"
    by (simp add: recent_events_def w_rt_def) (simp add: w_rule_def)
  moreover have put: "snd (pause_put w_pv w_pause0 (throttle_entry w_rule ''ex.org'' 1000) False) = None"
    using w_throttle_entry
    by (simp add: pause_put_def w_pv_def w_pause0_def pause_active_def pause_max_entries_def pause_save_def Let_def)
  ultimately have "snd (snd (snd ?o)) = (True, None)"
    using look by (simp add: observe_rule_def local_pauses_def zero_entry_def Let_def) (simp add: w_rt_def w_rule_def)
  then have o: "?o = (fst ?o, fst (snd ?o), fst (snd (snd ?o)), True, None)" by (metis prod.collapse)
  have dry: "\<not> rc_dry_run (rt_cfg w_rt)" by (simp add: w_rt_def)
  have "\<exists>e. pause_lookup (w_pv\<lparr>pv_now := 1500\<rparr>) q ''ex.org'' = Inr e" for q
    by (simp add: pause_lookup_def n w_pv_def Let_def)
  then obtain e where e: "pause_lookup (w_pv\<lparr>pv_now := 1500\<rparr>) (fst (snd ?o)) ''ex.org'' = Inr e" by blast
  from response_trigger_pauses [OF w_pause0_wf o dry look _ e] e show ?thesis
    by (simp add: w_rule_def)
qed

end
