(* ===== verification/Reputation.thy ===== *)
theory Reputation
  imports Complex_Main Go_Prelude "HOL-Library.Word"
begin

text \<open>
  The reputation tracker (\<^verbatim>\<open>internal/reputation/tracker.go\<close>, \<^verbatim>\<open>persistence.go\<close>): warm-up limits,
  bounce and complaint rates, and the ingestion of reports. Counters are 64-bit words. The
  thresholds are rationals and rates are compared exactly; the code compares the nearest binary
  fractions. A calendar day is the number of days since the Unix epoch, \<open>None\<close> for the empty
  string. The counters of ingestion results, which are only printed, are left out.
\<close>

section \<open>Definitions\<close>

record warmup_step =
  after_days :: int
  ws_limit :: int

record rep_config =
  rp_start_date :: time
  rp_warmup_rules :: "warmup_step list"
  rp_bounce_threshold :: rat
  rp_complaint_threshold :: rat
  rp_min_samples :: int

record domain_stats =
  rp_day :: "int option"
  rp_today :: int
  rp_successes :: "64 word"
  rp_temporary :: "64 word"
  rp_permanent :: "64 word"
  rp_complaints :: "64 word"
  rp_tls_success :: "64 word"
  rp_tls_failure :: "64 word"

definition empty_stats :: domain_stats where
  "empty_stats = \<lparr>rp_day = None, rp_today = 0, rp_successes = 0, rp_temporary = 0, rp_permanent = 0, rp_complaints = 0,
     rp_tls_success = 0, rp_tls_failure = 0\<rparr>"

record tracker =
  tr_cfg :: rep_config
  tr_domains :: "(string \<times> domain_stats) list"
  tr_path :: string
  tr_seen :: "(string \<times> time) list"
  tr_dirty :: bool
  tr_file :: "((string \<times> domain_stats) list \<times> (string \<times> time) list) option"

text \<open>\<^verbatim>\<open>New\<close>. Go's \<^verbatim>\<open>sort.Slice\<close> leaves the order of steps with the same day open.\<close>
definition new_tracker :: "rep_config \<Rightarrow> tracker" where
  "new_tracker c =
     \<lparr>tr_cfg = \<lparr>rp_start_date = rp_start_date c,
        rp_warmup_rules = sort_key after_days
          (if rp_warmup_rules c = []
           then [\<lparr>after_days = 0, ws_limit = 100\<rparr>, \<lparr>after_days = 7, ws_limit = 1000\<rparr>, \<lparr>after_days = 14, ws_limit = 5000\<rparr>]
           else rp_warmup_rules c),
        rp_bounce_threshold = (if rp_bounce_threshold c \<le> 0 \<or> 1 \<le> rp_bounce_threshold c then 5 / 100 else rp_bounce_threshold c),
        rp_complaint_threshold =
          (if rp_complaint_threshold c \<le> 0 \<or> 1 \<le> rp_complaint_threshold c then 1 / 1000 else rp_complaint_threshold c),
        rp_min_samples = (if rp_min_samples c \<le> 0 then 100 else rp_min_samples c)\<rparr>,
      tr_domains = [], tr_path = [], tr_seen = [], tr_dirty = False, tr_file = None\<rparr>"

definition rep_normalize :: "string \<Rightarrow> string" where
  "rep_normalize s = trim_suffix (to_lower (trim_space s)) ''.''"

definition rep_label_ok :: "string \<Rightarrow> bool" where
  "rep_label_ok l \<longleftrightarrow> l \<noteq> [] \<and> length l \<le> 63 \<and> hd l \<noteq> CHR ''-'' \<and> last l \<noteq> CHR ''-'' \<and>
     list_all (\<lambda>c. is_lower c \<or> is_digit c \<or> c = CHR ''-'') l"

definition valid_report_domain :: "string \<Rightarrow> bool" where
  "valid_report_domain d \<longleftrightarrow> d \<noteq> [] \<and> length d \<le> 253 \<and> d = to_lower d \<and> list_all rep_label_ok (split_on CHR ''.'' d)"

definition day_of :: "time \<Rightarrow> int" where
  "day_of t = t div (24 * hour)"

text \<open>\<^verbatim>\<open>warmupLimit\<close>: the limit of the last step reached\<close>
fun warmup_steps :: "int \<Rightarrow> int \<Rightarrow> warmup_step list \<Rightarrow> int" where
  "warmup_steps days limit [] = limit"
| "warmup_steps days limit (s # ss) = warmup_steps days (if after_days s \<le> days then ws_limit s else limit) ss"

definition warmup_limit :: "rep_config \<Rightarrow> time \<Rightarrow> int" where
  "warmup_limit c t =
     (if is_zero (rp_start_date c) then 0
      else warmup_steps (go_div (time_sub t (rp_start_date c)) (24 * hour)) 0 (rp_warmup_rules c))"

text \<open>\<^verbatim>\<open>getLocked\<close>: the statistics of a domain, made and rolled over to the day\<close>
definition rolled :: "domain_stats \<Rightarrow> time \<Rightarrow> domain_stats" where
  "rolled st t = (if rp_day st = Some (day_of t) then st else st\<lparr>rp_day := Some (day_of t), rp_today := 0\<rparr>)"

definition get_stats :: "tracker \<Rightarrow> string \<Rightarrow> time \<Rightarrow> domain_stats" where
  "get_stats tr d t = rolled (case map_of (tr_domains tr) d of None \<Rightarrow> empty_stats | Some st \<Rightarrow> st) t"

definition get_dirty :: "tracker \<Rightarrow> string \<Rightarrow> time \<Rightarrow> bool" where
  "get_dirty tr d t =
     (case map_of (tr_domains tr) d of None \<Rightarrow> True | Some st \<Rightarrow> tr_dirty tr \<or> rp_day st \<noteq> Some (day_of t))"

definition put_stats :: "tracker \<Rightarrow> string \<Rightarrow> domain_stats \<Rightarrow> tracker" where
  "put_stats tr d st = tr\<lparr>tr_domains := dput d st (tr_domains tr)\<rparr>"

text \<open>\<^verbatim>\<open>evaluateBlocked\<close>: the reason of a block; the sum of the counters wraps at 64 bits.\<close>
definition attempts_of :: "domain_stats \<Rightarrow> 64 word" where
  "attempts_of st = rp_successes st + rp_temporary st + rp_permanent st"

definition rate_block :: "rep_config \<Rightarrow> domain_stats \<Rightarrow> string option" where
  "rate_block c st =
     (let n = uint (attempts_of st) in
      if rp_min_samples c \<le> n then
        (if rp_bounce_threshold c \<le> of_int (uint (rp_permanent st)) / of_int n then Some ''bounce_rate''
         else if rp_complaint_threshold c \<le> of_int (uint (rp_complaints st)) / of_int n then Some ''complaint_rate''
         else None)
      else None)"

definition evaluate_blocked :: "rep_config \<Rightarrow> domain_stats \<Rightarrow> time \<Rightarrow> string option" where
  "evaluate_blocked c st t =
     (let limit = warmup_limit c t in
      if 0 < limit \<and> limit \<le> rp_today st then Some ''warmup_limit'' else rate_block c st)"

text \<open>\<^verbatim>\<open>Admit\<close>: \<open>None\<close> admits\<close>
definition rep_admit :: "tracker \<Rightarrow> string \<Rightarrow> time \<Rightarrow> tracker \<times> string option" where
  "rep_admit tr domain t =
     (let d = rep_normalize domain in
      if \<not> valid_report_domain d then (tr, None)
      else
        (let st = get_stats tr d t; tr1 = (put_stats tr d st)\<lparr>tr_dirty := get_dirty tr d t\<rparr> in
         case evaluate_blocked (tr_cfg tr) st t of
           Some reason \<Rightarrow> (tr1, Some reason)
         | None \<Rightarrow> ((put_stats tr1 d (st\<lparr>rp_today := rp_today st + 1\<rparr>))\<lparr>tr_dirty := True\<rparr>, None)))"

text \<open>\<^verbatim>\<open>ObserveDelivery\<close>\<close>
definition rep_observe :: "time \<Rightarrow> tracker \<Rightarrow> string \<Rightarrow> bool \<Rightarrow> bool \<Rightarrow> tracker" where
  "rep_observe t tr domain temporary permanent =
     (let d = rep_normalize domain in
      if \<not> valid_report_domain d then tr
      else
        (let st = get_stats tr d t;
             st' = (if permanent then st\<lparr>rp_permanent := rp_permanent st + 1\<rparr>
                    else if temporary then st\<lparr>rp_temporary := rp_temporary st + 1\<rparr>
                    else st\<lparr>rp_successes := rp_successes st + 1\<rparr>)
         in (put_stats tr d st')\<lparr>tr_dirty := True\<rparr>))"

section \<open>Persistence and reports\<close>

text \<open>How a flush ends: well, before the rename, or after it.\<close>
datatype flush_outcome = FlushOk | FlushFailsEarly | FlushFailsLate

datatype rep_error = RepInvalidDomain | RepOverflow | RepFlush | RepInvalidReport

definition flush_locked :: "flush_outcome \<Rightarrow> tracker \<Rightarrow> tracker \<times> rep_error option" where
  "flush_locked o1 tr =
     (if tr_path tr = [] \<or> \<not> tr_dirty tr then (tr, None)
      else (case o1 of
              FlushFailsEarly \<Rightarrow> (tr, Some RepFlush)
            | FlushFailsLate \<Rightarrow> (tr\<lparr>tr_file := Some (tr_domains tr, tr_seen tr)\<rparr>, Some RepFlush)
            | FlushOk \<Rightarrow> (tr\<lparr>tr_file := Some (tr_domains tr, tr_seen tr), tr_dirty := False\<rparr>, None)))"

text \<open>\<^verbatim>\<open>record\<close> with the two updates that use it\<close>
definition restore_domain :: "tracker \<Rightarrow> string \<Rightarrow> domain_stats option \<Rightarrow> tracker" where
  "restore_domain tr d prev =
     tr\<lparr>tr_domains := (case prev of None \<Rightarrow> ddel d (tr_domains tr) | Some st \<Rightarrow> dput d st (tr_domains tr))\<rparr>"

definition rep_record :: "flush_outcome \<Rightarrow> time \<Rightarrow> tracker \<Rightarrow> string \<Rightarrow> (domain_stats \<Rightarrow> domain_stats option)
    \<Rightarrow> tracker \<times> rep_error option" where
  "rep_record o1 t tr domain upd =
     (let d = rep_normalize domain in
      if \<not> valid_report_domain d then (tr, Some RepInvalidDomain)
      else
        (let prev = map_of (tr_domains tr) d; st = get_stats tr d t;
             tr1 = (put_stats tr d st)\<lparr>tr_dirty := get_dirty tr d t\<rparr> in
         case upd st of
           None \<Rightarrow> (restore_domain tr1 d prev, Some RepOverflow)
         | Some st' \<Rightarrow>
             (let r = flush_locked o1 ((put_stats tr1 d st')\<lparr>tr_dirty := True\<rparr>) in
              case snd r of
                None \<Rightarrow> r
              | Some err \<Rightarrow> (restore_domain (fst r) d prev, Some err))))"

definition add_complaint :: "domain_stats \<Rightarrow> domain_stats option" where
  "add_complaint st = (if rp_complaints st = - 1 then None else Some (st\<lparr>rp_complaints := rp_complaints st + 1\<rparr>))"

definition add_tls_report :: "bool \<Rightarrow> domain_stats \<Rightarrow> domain_stats option" where
  "add_tls_report success st =
     (if success then (if rp_tls_success st = - 1 then None else Some (st\<lparr>rp_tls_success := rp_tls_success st + 1\<rparr>))
      else (if rp_tls_failure st = - 1 then None else Some (st\<lparr>rp_tls_failure := rp_tls_failure st + 1\<rparr>)))"

definition record_complaint :: "flush_outcome \<Rightarrow> time \<Rightarrow> tracker \<Rightarrow> string \<Rightarrow> tracker \<times> rep_error option" where
  "record_complaint o1 t tr d = rep_record o1 t tr d add_complaint"

definition record_tls_report :: "flush_outcome \<Rightarrow> time \<Rightarrow> tracker \<Rightarrow> string \<Rightarrow> bool \<Rightarrow> tracker \<times> rep_error option" where
  "record_tls_report o1 t tr d success = rep_record o1 t tr d (add_tls_report success)"

record report_counts =
  rc_complaints :: "64 word"
  rc_successes :: "64 word"
  rc_failures :: "64 word"

record report =
  rep_id :: string
  rep_counts :: "(string \<times> report_counts) list"

text \<open>The overflow check: \<^verbatim>\<open>^uint64(0) - old < new\<close>\<close>
definition counts_overflow :: "domain_stats \<Rightarrow> report_counts \<Rightarrow> bool" where
  "counts_overflow st c \<longleftrightarrow> - 1 - rp_complaints st < rc_complaints c \<or> - 1 - rp_tls_success st < rc_successes c \<or>
     - 1 - rp_tls_failure st < rc_failures c"

fun check_counts :: "tracker \<Rightarrow> (string \<times> report_counts) list \<Rightarrow> rep_error option" where
  "check_counts tr [] = None"
| "check_counts tr ((d, c) # cs) =
     (if \<not> valid_report_domain d then Some RepInvalidReport
      else (case map_of (tr_domains tr) d of
              Some st \<Rightarrow> if counts_overflow st c then Some RepOverflow else check_counts tr cs
            | None \<Rightarrow> check_counts tr cs))"

definition add_counts :: "domain_stats \<Rightarrow> report_counts \<Rightarrow> domain_stats" where
  "add_counts st c = st\<lparr>rp_complaints := rp_complaints st + rc_complaints c,
     rp_tls_success := rp_tls_success st + rc_successes c, rp_tls_failure := rp_tls_failure st + rc_failures c\<rparr>"

fun apply_counts :: "time \<Rightarrow> tracker \<Rightarrow> (string \<times> report_counts) list \<Rightarrow> tracker" where
  "apply_counts t tr [] = tr"
| "apply_counts t tr ((d, c) # cs) = apply_counts t (put_stats tr d (add_counts (get_stats tr d t) c)) cs"

fun restore_domains :: "tracker \<Rightarrow> (string \<times> domain_stats) list \<Rightarrow> (string \<times> report_counts) list \<Rightarrow> tracker" where
  "restore_domains tr old [] = tr"
| "restore_domains tr old ((d, _) # cs) = restore_domains (restore_domain tr d (map_of old d)) old cs"

text \<open>\<^verbatim>\<open>Ingest\<close>: markers older than 30 days go; then whether the report was accepted, and the error\<close>
definition prune_seen :: "tracker \<Rightarrow> time \<Rightarrow> tracker" where
  "prune_seen tr t =
     (let fresh = filter (\<lambda>p. time_sub t (snd p) \<le> 30 * 24 * hour) (tr_seen tr) in
      tr\<lparr>tr_seen := fresh, tr_dirty := tr_dirty tr \<or> fresh \<noteq> tr_seen tr\<rparr>)"

definition ingest :: "flush_outcome \<Rightarrow> tracker \<Rightarrow> report \<Rightarrow> time \<Rightarrow> tracker \<times> bool \<times> rep_error option" where
  "ingest o1 tr0 rep t =
     (if rep_id rep = [] \<or> rep_counts rep = [] \<or> 100 < length (rep_counts rep) then (tr0, False, Some RepInvalidReport)
      else
        (let tr = prune_seen tr0 t in
         if map_of (tr_seen tr) (rep_id rep) \<noteq> None then (tr, False, None)
         else (case check_counts tr (rep_counts rep) of
                 Some err \<Rightarrow> (tr, False, Some err)
               | None \<Rightarrow>
                   (let tr1 = (apply_counts t tr (rep_counts rep))\<lparr>tr_seen := dput (rep_id rep) t (tr_seen tr), tr_dirty := True\<rparr>;
                        r = flush_locked o1 tr1 in
                    case snd r of
                      None \<Rightarrow> (fst r, True, None)
                    | Some err \<Rightarrow>
                        (let tr2 = restore_domains (fst r) (tr_domains tr) (rep_counts rep) in
                         (tr2\<lparr>tr_seen := ddel (rep_id rep) (tr_seen tr2)\<rparr>, False, Some err))))))"

section \<open>Facts\<close>

lemma put_stats_frame [simp]:
  "tr_cfg (put_stats tr d st) = tr_cfg tr" "tr_seen (put_stats tr d st) = tr_seen tr"
  "tr_path (put_stats tr d st) = tr_path tr" "tr_file (put_stats tr d st) = tr_file tr"
  "map_of (tr_domains (put_stats tr d st)) = (map_of (tr_domains tr))(d \<mapsto> st)"
  by (simp_all add: put_stats_def)

lemma rolled_simps [simp]:
  "rp_successes (rolled st t) = rp_successes st" "rp_temporary (rolled st t) = rp_temporary st"
  "rp_permanent (rolled st t) = rp_permanent st" "rp_complaints (rolled st t) = rp_complaints st"
  "rp_tls_success (rolled st t) = rp_tls_success st" "rp_tls_failure (rolled st t) = rp_tls_failure st"
  "rp_day (rolled st t) = Some (day_of t)" "attempts_of (rolled st t) = attempts_of st"
  by (simp_all add: rolled_def attempts_of_def)

lemma rate_block_today [simp]:
  "rate_block c (st\<lparr>rp_today := n\<rparr>) = rate_block c st" "rate_block c (rolled st t) = rate_block c st"
  by (simp_all add: rate_block_def attempts_of_def Let_def)

lemma rolled_same: "rp_day st = Some (day_of t) \<Longrightarrow> rolled st t = st"
  by (simp add: rolled_def)

text \<open>The statistics after an admission check, whether or not it admits.\<close>
lemma rep_admit_stats:
  assumes "valid_report_domain (rep_normalize d)"
  shows "map_of (tr_domains (fst (rep_admit tr d t))) (rep_normalize d) =
    Some (let st = get_stats tr (rep_normalize d) t in
      case snd (rep_admit tr d t) of None \<Rightarrow> st\<lparr>rp_today := rp_today st + 1\<rparr> | Some _ \<Rightarrow> st)"
    and "snd (rep_admit tr d t) = evaluate_blocked (tr_cfg tr) (get_stats tr (rep_normalize d) t) t"
    and "tr_cfg (fst (rep_admit tr d t)) = tr_cfg tr"
  using assms by (simp_all add: rep_admit_def Let_def split: option.split)

fun admit_run :: "tracker \<Rightarrow> string \<Rightarrow> time list \<Rightarrow> nat" where
  "admit_run tr d [] = 0"
| "admit_run tr d (t # ts) =
     (if snd (rep_admit tr d t) = None then 1 else 0) + admit_run (fst (rep_admit tr d t)) d ts"

lemma get_after_admit:
  assumes "valid_report_domain (rep_normalize d)"
  shows "get_stats (fst (rep_admit tr d t)) (rep_normalize d) t' =
    rolled (let st = get_stats tr (rep_normalize d) t in
      case snd (rep_admit tr d t) of None \<Rightarrow> st\<lparr>rp_today := rp_today st + 1\<rparr> | Some _ \<Rightarrow> st) t'"
  by (simp add: get_stats_def [of "fst (rep_admit tr d t)"] rep_admit_stats(1) [OF assms])

lemma get_stats_day [simp]: "rp_day (get_stats tr d t) = Some (day_of t)"
  by (simp add: get_stats_def)

lemma admit_run_warmup:
  assumes "valid_report_domain (rep_normalize d)" "\<forall>t \<in> set ts. day_of t = D \<and> 0 < warmup_limit (tr_cfg tr) t \<and> warmup_limit (tr_cfg tr) t \<le> L"
    and "\<forall>t. day_of t = D \<longrightarrow> rp_today (get_stats tr (rep_normalize d) t) = n" "n \<le> L"
  shows "int (admit_run tr d ts) + n \<le> L"
  using assms(2-)
proof (induction ts arbitrary: tr n)
  case (Cons t ts)
  let ?st = "get_stats tr (rep_normalize d) t"
  note a = rep_admit_stats [OF assms(1), of tr t] and g = get_after_admit [OF assms(1), of tr t]
  have D: "day_of t = D" "0 < warmup_limit (tr_cfg tr) t" "warmup_limit (tr_cfg tr) t \<le> L" and n: "rp_today ?st = n"
    using Cons.prems by auto
  show ?case
  proof (cases "snd (rep_admit tr d t)")
    case None
    then have "n < warmup_limit (tr_cfg tr) t"
      using a(2) D n by (auto simp: evaluate_blocked_def Let_def split: if_splits)
    moreover have "rp_today (get_stats (fst (rep_admit tr d t)) (rep_normalize d) t') = n + 1" if "day_of t' = D" for t'
      using that D n None by (simp add: g rolled_same Let_def)
    ultimately show ?thesis
      using Cons.IH [of "fst (rep_admit tr d t)" "n + 1"] Cons.prems D None a(3) by simp
  next
    case (Some r)
    have "rp_today (get_stats (fst (rep_admit tr d t)) (rep_normalize d) t') = n" if "day_of t' = D" for t'
      using that D n Some by (simp add: g rolled_same Let_def)
    then show ?thesis using Cons.IH [of "fst (rep_admit tr d t)" n] Cons.prems Some a(3) by simp
  qed
qed simp

lemma admit_run_blocked:
  assumes "valid_report_domain (rep_normalize d)" "map_of (tr_domains tr) (rep_normalize d) = Some st"
    and "rate_block (tr_cfg tr) st \<noteq> None"
  shows "admit_run tr d ts = 0"
  using assms(2,3)
proof (induction ts arbitrary: tr st)
  case (Cons t ts)
  note a = rep_admit_stats [OF assms(1), of tr t]
  have st: "get_stats tr (rep_normalize d) t = rolled st t" using Cons.prems(1) by (simp add: get_stats_def)
  have "snd (rep_admit tr d t) \<noteq> None"
    using a(2) Cons.prems(2) by (simp add: st evaluate_blocked_def Let_def)
  moreover from this have "map_of (tr_domains (fst (rep_admit tr d t))) (rep_normalize d) = Some (rolled st t)"
    using a(1) st by auto
  ultimately show ?case
    using Cons.IH [of "fst (rep_admit tr d t)" "rolled st t"] Cons.prems(2) a(3) by simp
qed simp

section \<open>Reports\<close>

lemma no_overflow_add:
  fixes a b :: "64 word"
  assumes "\<not> - 1 - a < b"
  shows "uint (a + b) = uint a + uint b"
proof -
  have m: "uint (- 1 :: 64 word) = 2 ^ 64 - 1" by (simp add: unsigned_minus_1_eq_mask mask_eq_exp_minus_1)
  have "uint a \<le> uint (- 1 :: 64 word)" using uint_lt2p [of a] by (simp add: m)
  then have "uint (- 1 - a) = 2 ^ 64 - 1 - uint a" using uint_sub_lem [of a "- 1 :: 64 word"] m by simp
  with assms have "uint b \<le> 2 ^ 64 - 1 - uint a" by (simp add: word_less_def not_less)
  then have "uint a + uint b < 2 ^ 64" by simp
  then show ?thesis by (simp add: uint_add_lem [THEN iffD1])
qed

lemma apply_frame [simp]:
  "tr_cfg (apply_counts t tr cs) = tr_cfg tr" "tr_seen (apply_counts t tr cs) = tr_seen tr"
  "tr_path (apply_counts t tr cs) = tr_path tr"
  by (induction t tr cs rule: apply_counts.induct) simp_all

lemma apply_lookup:
  assumes "distinct (map fst cs)"
  shows "map_of (tr_domains (apply_counts t tr cs)) d =
    (case map_of cs d of None \<Rightarrow> map_of (tr_domains tr) d | Some c \<Rightarrow> Some (add_counts (get_stats tr d t) c))"
  using assms
proof (induction t tr cs rule: apply_counts.induct)
  case (2 t tr e c cs)
  have "get_stats (put_stats tr e st) d t = get_stats tr d t" if "d \<noteq> e" for st
    using that by (simp add: get_stats_def)
  moreover have "map_of cs e = None" using 2(2) by (simp add: map_of_eq_None_iff)
  ultimately show ?case using 2 by (cases "d = e") (auto split: option.split)
qed simp

lemma restore_domain_lookup: "map_of (tr_domains (restore_domain tr d prev)) = (map_of (tr_domains tr))(d := prev)"
  by (cases prev) (simp_all add: restore_domain_def)

lemma restore_frame [simp]: "tr_seen (restore_domains tr old cs) = tr_seen tr"
  by (induction tr old cs rule: restore_domains.induct) (simp_all add: restore_domain_def)

lemma restore_lookup:
  "map_of (tr_domains (restore_domains tr old cs)) d =
    (if d \<in> fst ` set cs then map_of old d else map_of (tr_domains tr) d)"
  by (induction tr old cs rule: restore_domains.induct) (auto simp: restore_domain_lookup)

lemma check_counts_None:
  "check_counts tr cs = None \<Longrightarrow> (d, c) \<in> set cs \<Longrightarrow>
    valid_report_domain d \<and> (\<forall>st. map_of (tr_domains tr) d = Some st \<longrightarrow> \<not> counts_overflow st c)"
  by (induction tr cs rule: check_counts.induct) (auto split: if_splits option.splits)

lemma flush_frame [simp]:
  "tr_domains (fst (flush_locked o1 tr)) = tr_domains tr" "tr_seen (fst (flush_locked o1 tr)) = tr_seen tr"
  "tr_cfg (fst (flush_locked o1 tr)) = tr_cfg tr"
  by (simp_all add: flush_locked_def split: flush_outcome.split)

text \<open>What a successful flush leaves in the file.\<close>
lemma flush_file:
  assumes "snd (flush_locked o1 tr) = None" "tr_path tr \<noteq> []" "tr_dirty tr"
  shows "tr_file (fst (flush_locked o1 tr)) = Some (tr_domains tr, tr_seen tr)"
  using assms by (simp add: flush_locked_def split: flush_outcome.splits)

abbreviation lookup_stats :: "tracker \<Rightarrow> string \<Rightarrow> domain_stats option" where
  "lookup_stats tr d \<equiv> map_of (tr_domains tr) d"

abbreviation known_stats :: "tracker \<Rightarrow> string \<Rightarrow> domain_stats" where
  "known_stats tr d \<equiv> (case lookup_stats tr d of None \<Rightarrow> empty_stats | Some st \<Rightarrow> st)"

text \<open>The counters of a domain after a report was added without wrapping around.\<close>
definition counts_added :: "domain_stats \<Rightarrow> report_counts \<Rightarrow> domain_stats \<Rightarrow> bool" where
  "counts_added st c st' \<longleftrightarrow>
     uint (rp_complaints st') = uint (rp_complaints st) + uint (rc_complaints c) \<and>
     uint (rp_tls_success st') = uint (rp_tls_success st) + uint (rc_successes c) \<and>
     uint (rp_tls_failure st') = uint (rp_tls_failure st) + uint (rc_failures c) \<and>
     attempts_of st' = attempts_of st \<and> rp_permanent st' = rp_permanent st"

lemma add_counts_exact:
  assumes "\<not> counts_overflow st c"
  shows "counts_added st c (add_counts (rolled st t) c)"
  using assms by (simp add: counts_added_def counts_overflow_def add_counts_def no_overflow_add attempts_of_def)

lemma no_overflow_empty: "\<not> counts_overflow empty_stats c"
  by (simp add: counts_overflow_def empty_stats_def not_less)

text \<open>A report that was not refused, up to the flush.\<close>
lemma apply_exact:
  assumes "check_counts tr cs = None" "distinct (map fst cs)" "(d, c) \<in> set cs"
  shows "\<exists>st'. lookup_stats (apply_counts t tr cs) d = Some st' \<and> counts_added (known_stats tr d) c st'"
proof -
  have c: "map_of cs d = Some c" using assms(2,3) by simp
  have "\<not> counts_overflow (known_stats tr d) c"
    using check_counts_None [OF assms(1,3)] by (simp add: no_overflow_empty split: option.split)
  from add_counts_exact [OF this] show ?thesis
    by (simp add: apply_lookup [OF assms(2)] c get_stats_def)
qed

lemma prune_frame [simp]:
  "tr_domains (prune_seen tr t) = tr_domains tr" "tr_path (prune_seen tr t) = tr_path tr" "tr_cfg (prune_seen tr t) = tr_cfg tr"
  by (simp_all add: prune_seen_def Let_def)

lemma prune_lookup:
  assumes "dwf (tr_seen tr)"
  shows "map_of (tr_seen (prune_seen tr t)) i =
    (case map_of (tr_seen tr) i of Some a \<Rightarrow> if time_sub t a \<le> 30 * 24 * hour then Some a else None | None \<Rightarrow> None)"
proof -
  have "distinct (map fst xs) \<Longrightarrow> map_of (filter (\<lambda>p. P (snd p)) xs) i =
      (case map_of xs i of Some a \<Rightarrow> if P a then Some a else None | None \<Rightarrow> None)" for P and xs :: "(string \<times> time) list"
    by (induction xs) (auto split: option.splits simp: rev_image_eqI)
  from this [OF dwf_distinct [OF assms], of "\<lambda>a. time_sub t a \<le> 30 * 24 * hour"] show ?thesis by (simp add: prune_seen_def Let_def)
qed

lemma prune_dwf: "dwf (tr_seen tr) \<Longrightarrow> dwf (tr_seen (prune_seen tr t))"
  by (simp add: prune_seen_def Let_def dwf_def sorted_wrt_map sorted_wrt_filter)

text \<open>An accepted report: the state is that of the counters added, marked and flushed.\<close>
lemma ingest_accepted:
  assumes "fst (snd (ingest o1 tr rep t))"
  defines "tr1 \<equiv> (apply_counts t (prune_seen tr t) (rep_counts rep))
      \<lparr>tr_seen := dput (rep_id rep) t (tr_seen (prune_seen tr t)), tr_dirty := True\<rparr>"
  shows "ingest o1 tr rep t = (fst (flush_locked o1 tr1), True, None)" and "snd (flush_locked o1 tr1) = None"
    and "check_counts (prune_seen tr t) (rep_counts rep) = None"
    and "map_of (tr_seen (prune_seen tr t)) (rep_id rep) = None"
    and "rep_id rep \<noteq> []" "rep_counts rep \<noteq> []" "length (rep_counts rep) \<le> 100"
  using assms by (auto simp: ingest_def Let_def split: if_splits option.splits)

lemma ingest_not_accepted:
  assumes "\<not> fst (snd (ingest o1 tr rep t))" "distinct (map fst (rep_counts rep))"
  shows "lookup_stats (fst (ingest o1 tr rep t)) = lookup_stats tr"
proof -
  have "lookup_stats (restore_domains (fst (flush_locked o1 ((apply_counts t (prune_seen tr t) (rep_counts rep))
      \<lparr>tr_seen := q, tr_dirty := True\<rparr>))) (tr_domains tr) (rep_counts rep)) = lookup_stats tr" for q
    using assms(2) by (auto simp: fun_eq_iff restore_lookup apply_lookup map_of_eq_None_iff split: option.split)
      (metis map_of_SomeD fst_conv imageI)
  with assms(1) show ?thesis
    by (auto simp: ingest_def Let_def split: option.split)
qed

lemma ingest_seen_again:
  assumes "map_of (tr_seen tr) (rep_id rep) = Some t" "dwf (tr_seen tr)" "t' \<le> t + 30 * 24 * hour"
    and "rep_id rep \<noteq> []" "rep_counts rep \<noteq> []" "length (rep_counts rep) \<le> 100"
  shows "ingest o1 tr rep t' = (prune_seen tr t', False, None)"
proof -
  have "time_sub t' t \<le> 30 * 24 * hour"
    using assms(3) by (simp add: time_sub_def min_int64_def hour_def minute_def second_def)
  then show ?thesis using assms by (simp add: ingest_def Let_def prune_lookup)
qed

section \<open>Properties\<close>

text \<open>during one day of the warm-up the tracker admits no more messages to a domain than the limit of that day: whatever was counted before, the admissions of any sequence of checks of the day, added to the count it starts from, stay within the limit.\<close>
theorem warmup_bound:
  assumes "valid_report_domain (rep_normalize d)"
    and "\<forall>t \<in> set ts. day_of t = D \<and> 0 < warmup_limit (tr_cfg tr) t \<and> warmup_limit (tr_cfg tr) t \<le> L"
    and "\<forall>t. day_of t = D \<longrightarrow> rp_today (get_stats tr (rep_normalize d) t) = n" "n \<le> L"
  shows "int (admit_run tr d ts) + n \<le> L"
  using assms by (rule admit_run_warmup)

definition warm_tracker :: tracker where
  "warm_tracker = new_tracker \<lparr>rp_start_date = 0, rp_warmup_rules = [\<lparr>after_days = 0, ws_limit = 2\<rparr>], rp_bounce_threshold = 1 / 10,
     rp_complaint_threshold = 1 / 100, rp_min_samples = 10\<rparr>"

lemma warm_tracker_limit: "t \<in> {1, 2, 3, 4} \<Longrightarrow> warmup_limit (tr_cfg warm_tracker) t = 2"
  by (auto simp: warm_tracker_def new_tracker_def warmup_limit_def zero_time_def time_sub_def go_div_def min_int64_def max_int64_def
      hour_def minute_def second_def)

theorem warmup_bound_witness: "int (admit_run warm_tracker ''Example.org.'' [1, 2, 3, 4]) + 0 \<le> 2"
proof (rule warmup_bound)
  show "valid_report_domain (rep_normalize ''Example.org.'')" by code_simp
  show "\<forall>t \<in> set [1, 2, 3, 4]. day_of t = 0 \<and> 0 < warmup_limit (tr_cfg warm_tracker) t \<and> warmup_limit (tr_cfg warm_tracker) t \<le> 2"
    by (simp add: warm_tracker_limit day_of_def hour_def minute_def second_def)
  show "\<forall>t. day_of t = 0 \<longrightarrow> rp_today (get_stats warm_tracker (rep_normalize ''Example.org.'') t) = 0"
    by (simp add: warm_tracker_def new_tracker_def get_stats_def rolled_def empty_stats_def)
qed simp

text \<open>a block because of the bounce or complaint rate is never lifted by admission checks: once the counters of a domain reach a threshold, no later check admits a message to it, at whatever time, because refused messages change no counter.\<close>
theorem rate_block_permanent:
  assumes "valid_report_domain (rep_normalize d)" "map_of (tr_domains tr) (rep_normalize d) = Some st"
    and "rate_block (tr_cfg tr) st \<noteq> None"
  shows "admit_run tr d ts = 0"
  using assms by (rule admit_run_blocked)

definition bouncing :: domain_stats where
  "bouncing = empty_stats\<lparr>rp_day := Some 0, rp_successes := 90, rp_permanent := 10\<rparr>"

theorem rate_block_permanent_witness: "admit_run (put_stats warm_tracker ''b.org'' bouncing) ''b.org'' [1, 24 * hour, 48 * hour] = 0"
proof (rule rate_block_permanent)
  show "valid_report_domain (rep_normalize ''b.org'')" by code_simp
  have "rep_normalize ''b.org'' = ''b.org''" by code_simp
  then show "map_of (tr_domains (put_stats warm_tracker ''b.org'' bouncing)) (rep_normalize ''b.org'') = Some bouncing" by simp
  show "rate_block (tr_cfg (put_stats warm_tracker ''b.org'' bouncing)) bouncing \<noteq> None"
    by (simp add: rate_block_def bouncing_def empty_stats_def attempts_of_def warm_tracker_def new_tracker_def)
qed

text \<open>a report is applied once and as a whole: if it is accepted, every domain it names has its counters increased by exactly the reported counts, without wrapping around, and no other domain changes, the state file holds the result, and the same report is refused as a duplicate for 30 days; if it is not accepted, no counter changes.\<close>
theorem report_ingest_exact:
  assumes "distinct (map fst (rep_counts rep))" "dwf (tr_seen tr)"
    and "r = ingest o1 tr rep t"
  shows "(fst (snd r) \<longrightarrow>
      (\<forall>(d, c) \<in> set (rep_counts rep). \<exists>st'. lookup_stats (fst r) d = Some st' \<and> counts_added (known_stats tr d) c st') \<and>
      (\<forall>d. d \<notin> fst ` set (rep_counts rep) \<longrightarrow> lookup_stats (fst r) d = lookup_stats tr d) \<and>
      (tr_path tr \<noteq> [] \<longrightarrow> tr_file (fst r) = Some (tr_domains (fst r), tr_seen (fst r))) \<and>
      (\<forall>o2 t'. t' \<le> t + 30 * 24 * hour \<longrightarrow>
         snd (ingest o2 (fst r) rep t') = (False, None) \<and> tr_domains (fst (ingest o2 (fst r) rep t')) = tr_domains (fst r))) \<and>
    (\<not> fst (snd r) \<longrightarrow> lookup_stats (fst r) = lookup_stats tr)"
proof (cases "fst (snd r)")
  case True
  note a = ingest_accepted [OF True [unfolded assms(3)]]
  let ?p = "prune_seen tr t"
  let ?tr1 = "(apply_counts t ?p (rep_counts rep))\<lparr>tr_seen := dput (rep_id rep) t (tr_seen ?p), tr_dirty := True\<rparr>"
  have fr: "fst r = fst (flush_locked o1 ?tr1)" by (simp add: assms(3) a(1))
  have 1: "\<exists>st'. lookup_stats (fst r) d = Some st' \<and> counts_added (known_stats tr d) c st'" if "(d, c) \<in> set (rep_counts rep)" for d c
    using apply_exact [OF a(3) assms(1) that, of t] by (simp add: fr)
  have 2: "lookup_stats (fst r) d = lookup_stats tr d" if "d \<notin> fst ` set (rep_counts rep)" for d
    using that by (simp add: fr apply_lookup [OF assms(1)] map_of_eq_None_iff [THEN iffD2])
  have 3: "tr_path tr \<noteq> [] \<longrightarrow> tr_file (fst r) = Some (tr_domains (fst r), tr_seen (fst r))"
    using flush_file [OF a(2)] by (simp add: fr)
  have "ingest o2 (fst r) rep t' = (prune_seen (fst r) t', False, None)" if "t' \<le> t + 30 * 24 * hour" for o2 t'
    by (rule ingest_seen_again [OF _ _ that a(5-7)]) (simp_all add: fr prune_dwf [OF assms(2)] dput_dwf)
  then have 4: "\<forall>o2 t'. t' \<le> t + 30 * 24 * hour \<longrightarrow>
      snd (ingest o2 (fst r) rep t') = (False, None) \<and> tr_domains (fst (ingest o2 (fst r) rep t')) = tr_domains (fst r)"
    by simp
  from 1 2 3 4 True show ?thesis by blast
next
  case False
  then show ?thesis using ingest_not_accepted [OF _ assms(1)] by (simp add: assms(3))
qed

definition tls_report :: report where
  "tls_report = \<lparr>rep_id = ''r1'', rep_counts = [(''b.org'', \<lparr>rc_complaints = 1, rc_successes = 7, rc_failures = 2\<rparr>)]\<rparr>"

theorem report_ingest_exact_witness:
  "fst (snd (ingest FlushOk warm_tracker tls_report 5)) \<and>
   (\<exists>st'. lookup_stats (fst (ingest FlushOk warm_tracker tls_report 5)) ''b.org'' = Some st' \<and>
      counts_added empty_stats \<lparr>rc_complaints = 1, rc_successes = 7, rc_failures = 2\<rparr> st') \<and>
   snd (ingest FlushOk (fst (ingest FlushOk warm_tracker tls_report 5)) tls_report 6) = (False, None)"
proof -
  have v: "valid_report_domain ''b.org''" by code_simp
  have ok: "fst (snd (ingest FlushOk warm_tracker tls_report 5))"
    by (simp add: ingest_def tls_report_def warm_tracker_def new_tracker_def Let_def prune_seen_def v put_stats_def flush_locked_def)
  note r = report_ingest_exact [of tls_report warm_tracker "ingest FlushOk warm_tracker tls_report 5" FlushOk 5]
  have "known_stats warm_tracker ''b.org'' = empty_stats" by (simp add: warm_tracker_def new_tracker_def)
  moreover have "(6 :: int) \<le> 5 + 30 * 24 * hour" by (simp add: hour_def minute_def second_def)
  ultimately show ?thesis
    using r ok by (simp add: tls_report_def warm_tracker_def new_tracker_def)
qed

end
