(* ===== verification/Dispatcher.thy ===== *)
theory Dispatcher
  imports Fair_Queue Delivery_Pause Classification Bounce Domain_Throttle Response_Throttle Reputation
begin

text \<open>
  The delivery worker (\<^verbatim>\<open>internal/worker/dispatcher.go\<close>): \<^verbatim>\<open>handleMessage\<close> with its helpers and
  \<^verbatim>\<open>processBatch\<close>, over the components it calls. The delivery client is a parameter: what
  \<^verbatim>\<open>Deliver\<close> and \<^verbatim>\<open>DeliverBatch\<close> return is a function of the moment, the message and the
  recipients, and \<^verbatim>\<open>BatchKey\<close> of the recipient.

  A tick counts the calls into the outside world. \<open>dc_world\<close> gives, for every tick, the clock, the
  environments of the queue and the pause store, whether the context is cancelled, and whether
  saving the suppression list fails, so a property for all worlds covers every sequence of
  faults. The messages of a batch are handled one after the other; a wait for a slot that nobody
  else could free is the value \<open>None\<close>. Metrics, spans and log lines are left out, and so are the
  trace headers, which nothing modelled here reads. The route fields of history events are
  left out.
\<close>

section \<open>Configuration and state\<close>

record ('e, 'v) moment =
  w_now :: time
  w_queue :: 'e
  w_pause :: 'v
  w_done :: bool
  w_save_fails :: bool

record ('e, 's, 'v, 'p) dispatcher =
  dc_backend :: "('e, 's) backend"
  dc_has_pauses :: bool
  dc_pauses :: "('v, 'p) pause_service"
  dc_hostname :: string
  dc_date :: "time \<Rightarrow> string"
  dc_err_text :: "derror \<Rightarrow> string"
  dc_max_attempts :: int
  dc_max_retry_age :: duration
  dc_retry_schedule :: "duration list"
  dc_shaping :: bool
  dc_worker_count :: nat
  dc_events :: bool
  dc_history :: bool
  dc_batch_key :: "string \<Rightarrow> string option"
  dc_deliver :: "nat \<Rightarrow> message \<Rightarrow> string \<Rightarrow> derror option"
  dc_deliver_batch :: "nat \<Rightarrow> message \<Rightarrow> string list \<Rightarrow> string \<Rightarrow> derror option"
  dc_batch_order :: "string list \<Rightarrow> string list"
  dc_world :: "nat \<Rightarrow> ('e, 'v) moment"

text \<open>A call of \<^verbatim>\<open>publishEvent\<close> or \<^verbatim>\<open>recordHistory\<close>: recipient, result, category\<close>
datatype dispatch_log = Published string string string | Recorded string string string

record ('s, 'p) dispatcher_state =
  dp_queue :: 's
  dp_pauses :: 'p
  dp_sup :: "suppression_store option"
  dp_throttle :: domain_throttle
  dp_rep :: "tracker option"
  dp_responses :: "response_throttle option"
  dp_fair :: "fair_queue option"
  dp_log :: "dispatch_log list"
  dp_tick :: nat

text \<open>How a recipient leaves the message.\<close>
datatype completion = Delivered | Bounced | Suppressed | Expired

record batch_recipient =
  br_rcpt :: string
  br_domain :: string
  br_leased :: bool

text \<open>
  The local variables of \<^verbatim>\<open>handleMessage\<close>. The last two are not in the code: they note, for the
  properties, how a recipient was finished and what its delivery returned. Nothing reads them.
\<close>
record ('s, 'p) handling = "('s, 'p) dispatcher_state" +
  h_paused :: "string list"
  h_failed :: "(string \<times> string) list"
  h_until :: time
  h_remaining :: "string list"
  h_errs :: "derror list"
  h_reasons :: "string list"
  h_batches :: "(string \<times> batch_recipient list) list"
  h_lease_held :: "string list"
  h_done :: "(string \<times> completion) list"
  h_tried :: "(string \<times> derror option) list"

definition begin_handling :: "('s, 'p) dispatcher_state \<Rightarrow> ('s, 'p) handling" where
  "begin_handling st = dispatcher_state.extend st
     \<lparr>h_paused = [], h_failed = [], h_until = zero_time, h_remaining = [], h_errs = [], h_reasons = [], h_batches = [],
      h_lease_held = [], h_done = [], h_tried = []\<rparr>"

abbreviation moment_of :: "('e, 's, 'v, 'p) dispatcher \<Rightarrow> ('s, 'p, 'z) dispatcher_state_scheme \<Rightarrow> ('e, 'v) moment" where
  "moment_of d st \<equiv> dc_world d (dp_tick st)"

definition tick :: "('s, 'p, 'z) dispatcher_state_scheme \<Rightarrow> ('s, 'p, 'z) dispatcher_state_scheme" where
  "tick st = st\<lparr>dp_tick := dp_tick st + 1\<rparr>"

section \<open>Notifications\<close>

fun category_name :: "failure_category \<Rightarrow> string" where
  "category_name FailureInvalidRecipient = ''invalid_recipient''" | "category_name FailureMailboxFull = ''mailbox_full''"
| "category_name FailurePolicy = ''policy''" | "category_name FailureSpam = ''spam''" | "category_name FailureAuth = ''auth''"
| "category_name FailureDNS = ''dns''" | "category_name FailureTransport = ''transport''" | "category_name FailureUnknown = ''unknown''"

definition publish_event :: "('e, 's, 'v, 'p) dispatcher \<Rightarrow> string \<Rightarrow> string \<Rightarrow> string
    \<Rightarrow> ('s, 'p, 'z) dispatcher_state_scheme \<Rightarrow> ('s, 'p, 'z) dispatcher_state_scheme" where
  "publish_event d rcpt result category st =
     (if dc_events d then st\<lparr>dp_log := dp_log st @ [Published rcpt result category]\<rparr> else st)"

definition record_history :: "('e, 's, 'v, 'p) dispatcher \<Rightarrow> string list \<Rightarrow> string \<Rightarrow> string
    \<Rightarrow> ('s, 'p, 'z) dispatcher_state_scheme \<Rightarrow> ('s, 'p, 'z) dispatcher_state_scheme" where
  "record_history d rcpts result category st =
     (if dc_history d then st\<lparr>dp_log := dp_log st @ map (\<lambda>r. Recorded r result category) rcpts\<rparr> else st)"

text \<open>The enqueueing that the three \<^verbatim>\<open>emit\<close> methods share; its error is only logged.\<close>
definition enqueue_dsn :: "('e, 's, 'v, 'p) dispatcher \<Rightarrow> dsn_error + message
    \<Rightarrow> ('s, 'p, 'z) dispatcher_state_scheme \<Rightarrow> ('s, 'p, 'z) dispatcher_state_scheme" where
  "enqueue_dsn d dsn st =
     (case dsn of
        Inl _ \<Rightarrow> tick st
      | Inr m \<Rightarrow> tick (st\<lparr>dp_queue := fst (be_enqueue (dc_backend d) (w_queue (moment_of d st)) (dp_queue st) m)\<rparr>))"

definition emit_hard_bounce_dsn :: "('e, 's, 'v, 'p) dispatcher \<Rightarrow> message \<Rightarrow> string \<Rightarrow> string
    \<Rightarrow> ('s, 'p, 'z) dispatcher_state_scheme \<Rightarrow> ('s, 'p, 'z) dispatcher_state_scheme" where
  "emit_hard_bounce_dsn d msg rcpt diagnostic st =
     (if \<not> should_notify msg rcpt ''FAILURE'' then st
      else enqueue_dsn d (build_failure_dsn (dc_date d) msg rcpt diagnostic (dc_hostname d) (w_now (moment_of d st))) st)"

definition emit_soft_bounce_dsn :: "('e, 's, 'v, 'p) dispatcher \<Rightarrow> message \<Rightarrow> string \<Rightarrow> string
    \<Rightarrow> ('s, 'p, 'z) dispatcher_state_scheme \<Rightarrow> ('s, 'p, 'z) dispatcher_state_scheme" where
  "emit_soft_bounce_dsn d msg rcpt diagnostic st =
     (if 0 < attempts msg then st
      else if \<not> should_notify msg rcpt ''DELAY'' then st
      else enqueue_dsn d (build_delay_dsn (dc_date d) msg rcpt diagnostic (dc_hostname d) (w_now (moment_of d st))) st)"

definition emit_success_dsn :: "('e, 's, 'v, 'p) dispatcher \<Rightarrow> message \<Rightarrow> string
    \<Rightarrow> ('s, 'p, 'z) dispatcher_state_scheme \<Rightarrow> ('s, 'p, 'z) dispatcher_state_scheme" where
  "emit_success_dsn d msg rcpt st =
     (if \<not> should_notify msg rcpt ''SUCCESS'' then st
      else enqueue_dsn d (build_success_dsn (dc_date d) msg rcpt ''250 2.0.0 delivered'' (dc_hostname d) (w_now (moment_of d st))) st)"

section \<open>The result of one delivery\<close>

definition observe_reputation :: "('e, 's, 'v, 'p) dispatcher \<Rightarrow> string \<Rightarrow> bool \<Rightarrow> bool
    \<Rightarrow> ('s, 'p, 'z) dispatcher_state_scheme \<Rightarrow> ('s, 'p, 'z) dispatcher_state_scheme" where
  "observe_reputation d domain temporary permanent st =
     tick (st\<lparr>dp_rep := map_option (\<lambda>tr. rep_observe (w_now (moment_of d st)) tr domain temporary permanent) (dp_rep st)\<rparr>)"

definition observe_throttle :: "string \<Rightarrow> bool \<Rightarrow> ('s, 'p, 'z) dispatcher_state_scheme \<Rightarrow> ('s, 'p, 'z) dispatcher_state_scheme" where
  "observe_throttle domain temporary st = st\<lparr>dp_throttle := dt_observe (dp_throttle st) domain temporary\<rparr>"

definition observe_responses :: "('e, 's, 'v, 'p) dispatcher \<Rightarrow> string \<Rightarrow> derror
    \<Rightarrow> ('s, 'p, 'z) dispatcher_state_scheme \<Rightarrow> ('s, 'p, 'z) dispatcher_state_scheme" where
  "observe_responses d domain err st =
     (case dp_responses st of
        None \<Rightarrow> st
      | Some rt \<Rightarrow>
          (let r = response_observe (dc_pauses d) (w_pause (moment_of d st)) (w_now (moment_of d st)) rt (dp_pauses st) domain err
           in tick (st\<lparr>dp_responses := Some (fst r), dp_pauses := fst (snd r)\<rparr>)))"

definition suppress_rcpt :: "('e, 's, 'v, 'p) dispatcher \<Rightarrow> string \<Rightarrow> string
    \<Rightarrow> ('s, 'p, 'z) dispatcher_state_scheme \<Rightarrow> ('s, 'p, 'z) dispatcher_state_scheme" where
  "suppress_rcpt d rcpt reason st =
     tick (st\<lparr>dp_sup := map_option (\<lambda>s. fst (suppression_add (w_save_fails (moment_of d st)) (w_now (moment_of d st)) s rcpt reason))
       (dp_sup st)\<rparr>)"

definition defer_until :: "time \<Rightarrow> ('s, 'p) handling \<Rightarrow> ('s, 'p) handling" where
  "defer_until t st = (if h_until st < t then st\<lparr>h_until := t\<rparr> else st)"

definition keep_rcpt :: "string \<Rightarrow> ('s, 'p) handling \<Rightarrow> ('s, 'p) handling" where
  "keep_rcpt rcpt st = st\<lparr>h_remaining := h_remaining st @ [rcpt]\<rparr>"

definition finish_rcpt :: "string \<Rightarrow> completion \<Rightarrow> ('s, 'p) handling \<Rightarrow> ('s, 'p) handling" where
  "finish_rcpt rcpt c st = st\<lparr>h_done := h_done st @ [(rcpt, c)]\<rparr>"

definition fail_rcpt :: "string \<Rightarrow> derror \<Rightarrow> string \<Rightarrow> ('s, 'p) handling \<Rightarrow> ('s, 'p) handling" where
  "fail_rcpt rcpt err diagnostic st =
     keep_rcpt rcpt (st\<lparr>h_errs := h_errs st @ [err], h_failed := dput rcpt diagnostic (h_failed st)\<rparr>)"

definition add_reason :: "string \<Rightarrow> string \<Rightarrow> ('s, 'p) handling \<Rightarrow> ('s, 'p) handling" where
  "add_reason rcpt text st = st\<lparr>h_reasons := h_reasons st @ [rcpt @ '': '' @ text]\<rparr>"

definition permanent_response :: "derror \<Rightarrow> smtp_response option" where
  "permanent_response err = (case as_smtp err of Some r \<Rightarrow> if sr_permanent r then Some r else None | None \<Rightarrow> None)"

definition handle_permanent :: "('e, 's, 'v, 'p) dispatcher \<Rightarrow> message \<Rightarrow> string \<Rightarrow> string \<Rightarrow> failure_classification \<Rightarrow> smtp_response
    \<Rightarrow> ('s, 'p) handling \<Rightarrow> ('s, 'p) handling" where
  "handle_permanent d msg rcpt domain cls r st0 =
     (let st1 = publish_event d rcpt ''permanent_failure'' (category_name (fcl_category cls)) st0;
          st2 = observe_reputation d domain False True st1;
          st3 = emit_hard_bounce_dsn d msg rcpt (dc_err_text d (SmtpError r)) st2;
          st4 = observe_throttle domain False st3;
          st5 = (if fcl_suppress cls then suppress_rcpt d rcpt (sr_line r) st4 else st4)
      in finish_rcpt rcpt Bounced st5)"

definition handle_temporary :: "('e, 's, 'v, 'p) dispatcher \<Rightarrow> message \<Rightarrow> string \<Rightarrow> string \<Rightarrow> failure_classification \<Rightarrow> derror
    \<Rightarrow> ('s, 'p) handling \<Rightarrow> ('s, 'p) handling" where
  "handle_temporary d msg rcpt domain cls err st0 =
     (let st1 = publish_event d rcpt ''temporary_failure'' (category_name (fcl_category cls)) st0;
          st2 = observe_reputation d domain True False st1;
          st3 = emit_soft_bounce_dsn d msg rcpt (dc_err_text d err) st2;
          st4 = observe_throttle domain True st3
      in fail_rcpt rcpt err (dc_err_text d err) st4)"

definition handle_success :: "('e, 's, 'v, 'p) dispatcher \<Rightarrow> message \<Rightarrow> string \<Rightarrow> string \<Rightarrow> ('s, 'p) handling \<Rightarrow> ('s, 'p) handling" where
  "handle_success d msg rcpt domain st0 =
     (let st1 = observe_reputation d domain False False st0;
          st2 = observe_throttle domain False st1;
          st3 = record_history d [rcpt] ''delivered'' [] st2;
          st4 = publish_event d rcpt ''delivered'' [] st3
      in finish_rcpt rcpt Delivered (emit_success_dsn d msg rcpt st4))"

text \<open>The closure \<^verbatim>\<open>handleResult\<close>\<close>
definition handle_result :: "('e, 's, 'v, 'p) dispatcher \<Rightarrow> message \<Rightarrow> string \<Rightarrow> string \<Rightarrow> derror option
    \<Rightarrow> ('s, 'p) handling \<Rightarrow> ('s, 'p) handling" where
  "handle_result d msg rcpt domain result st0 =
     (let st = st0\<lparr>h_tried := h_tried st0 @ [(rcpt, result)]\<rparr> in
      case result of
        None \<Rightarrow> handle_success d msg rcpt domain st
      | Some err \<Rightarrow>
          (case as_deferred err of
             Some delay \<Rightarrow>
               defer_until (w_now (moment_of d st) + delay)
                 (tick (keep_rcpt rcpt (record_history d [rcpt] ''deferred'' ''limit'' st)))
           | None \<Rightarrow>
               if is_unknown err then
                 fail_rcpt rcpt err (dc_err_text d err)
                   (add_reason rcpt (dc_err_text d err)
                     (publish_event d rcpt ''delivery_unknown'' ''transport''
                       (record_history d [rcpt] ''unknown'' ''transport'' st)))
               else
                 (let cls = classify_failure err;
                      st1 = record_history d [rcpt] ''failed'' (category_name (fcl_category cls))
                              (add_reason rcpt (dc_err_text d err) st);
                      st2 = observe_responses d domain err st1
                  in case permanent_response err of
                       Some r \<Rightarrow> handle_permanent d msg rcpt domain cls r st2
                     | None \<Rightarrow> handle_temporary d msg rcpt domain cls err st2)))"

section \<open>One recipient\<close>

text \<open>Whether the pause store holds the domain back: an entry or an error, with the time it names\<close>
definition pause_hold :: "('e, 's, 'v, 'p) dispatcher \<Rightarrow> string \<Rightarrow> ('s, 'p) handling \<Rightarrow> time option" where
  "pause_hold d domain st =
     (let t = w_now (moment_of d st) + 30 * second in
      if \<not> dc_has_pauses d then None
      else (case ps_lookup (dc_pauses d) (w_pause (moment_of d st)) (dp_pauses st) domain of
              Inl _ \<Rightarrow> Some t
            | Inr e \<Rightarrow>
                if pe_domain e = [] then None
                else Some (if \<not> is_zero (pe_expires_at e) \<and> pe_expires_at e < t then pe_expires_at e else t)))"

definition retry_age_reached :: "('e, 's, 'v, 'p) dispatcher \<Rightarrow> message \<Rightarrow> time \<Rightarrow> bool" where
  "retry_age_reached d msg t \<longleftrightarrow>
     0 < dc_max_retry_age d \<and> \<not> is_zero (created_at msg) \<and> dc_max_retry_age d \<le> time_sub t (created_at msg)"

text \<open>The closure \<^verbatim>\<open>checkPause\<close>\<close>
definition check_pause :: "('e, 's, 'v, 'p) dispatcher \<Rightarrow> message \<Rightarrow> string \<Rightarrow> string \<Rightarrow> ('s, 'p) handling
    \<Rightarrow> bool \<times> ('s, 'p) handling" where
  "check_pause d msg rcpt domain st =
     (case pause_hold d domain st of
        None \<Rightarrow> (False, tick st)
      | Some until \<Rightarrow>
          if retry_age_reached d msg (w_now (moment_of d st))
          then (True, finish_rcpt rcpt Expired
                        (emit_hard_bounce_dsn d msg rcpt ''delivery lifetime exceeded while paused'' (tick st)))
          else (True, defer_until until (tick ((keep_rcpt rcpt st)\<lparr>h_paused := h_paused st @ [rcpt]\<rparr>))))"

datatype lease_result = LeaseNone | LeaseHeld | LeaseWait duration | LeaseBlocked

text \<open>The lease of a slot: none is taken when the message already holds one for a batch of the domain.\<close>
definition take_lease :: "('e, 's, 'v, 'p) dispatcher \<Rightarrow> string \<Rightarrow> bool \<Rightarrow> ('s, 'p) handling \<Rightarrow> lease_result \<times> ('s, 'p) handling" where
  "take_lease d domain batchable st =
     (if batchable \<and> domain \<in> set (h_lease_held st) then (LeaseNone, st)
      else if dc_shaping d then
        (let r = dt_try_lease (w_done (moment_of d st)) (w_now (moment_of d st)) (dp_throttle st) domain;
             st' = tick (st\<lparr>dp_throttle := fst r\<rparr>)
         in if 0 < snd (snd r) then (LeaseWait (snd (snd r)), st')
            else (if fst (snd r) then LeaseHeld else LeaseNone, st'))
      else (case dt_acquire (dp_throttle st) domain of
              None \<Rightarrow> (LeaseBlocked, st)
            | Some th \<Rightarrow> (LeaseHeld, st\<lparr>dp_throttle := th\<rparr>)))"

definition release_lease :: "bool \<Rightarrow> string \<Rightarrow> ('s, 'p) handling \<Rightarrow> ('s, 'p) handling" where
  "release_lease leased domain st = (if leased then st\<lparr>dp_throttle := dt_release (dp_throttle st) domain\<rparr> else st)"

definition batch_append :: "string \<Rightarrow> batch_recipient \<Rightarrow> ('s, 'p) handling \<Rightarrow> ('s, 'p) handling" where
  "batch_append key br st =
     st\<lparr>h_batches := dput key ((case map_of (h_batches st) key of None \<Rightarrow> [] | Some bs \<Rightarrow> bs) @ [br]) (h_batches st)\<rparr>"

definition admit_reputation :: "('e, 's, 'v, 'p) dispatcher \<Rightarrow> string \<Rightarrow> ('s, 'p) handling \<Rightarrow> string option \<times> ('s, 'p) handling" where
  "admit_reputation d domain st =
     (case dp_rep st of
        None \<Rightarrow> (None, st)
      | Some tr \<Rightarrow>
          (let r = rep_admit tr domain (w_now (moment_of d st)) in (snd r, tick (st\<lparr>dp_rep := Some (fst r)\<rparr>))))"

text \<open>The inner function of the recipient loop: the state, and whether the lease is kept for a batch\<close>
definition attempt_rcpt :: "('e, 's, 'v, 'p) dispatcher \<Rightarrow> message \<Rightarrow> string \<Rightarrow> string \<Rightarrow> bool \<Rightarrow> ('s, 'p) handling
    \<Rightarrow> bool \<times> ('s, 'p) handling" where
  "attempt_rcpt d msg rcpt domain leased st0 =
     (let c = check_pause d msg rcpt domain st0 in
      if fst c then (False, record_history d [rcpt] ''deferred'' ''pause'' (snd c))
      else
        (let a = admit_reputation d domain (snd c); st = snd a in
         case fst a of
           Some reason \<Rightarrow>
             (False, fail_rcpt rcpt (OtherError (''reputation '' @ reason)) (''reputation '' @ reason)
                (add_reason rcpt (''reputation '' @ reason)
                  (publish_event d rcpt ''temporary_failure'' ''policy''
                    (record_history d [rcpt] ''deferred'' (''reputation_'' @ reason) st))))
         | None \<Rightarrow>
             if (case dp_sup st of None \<Rightarrow> False | Some s \<Rightarrow> is_suppressed s rcpt) then
               (False, finish_rcpt rcpt Suppressed
                  (add_reason rcpt ''suppressed''
                    (publish_event d rcpt ''permanent_failure'' ''invalid_recipient''
                      (record_history d [rcpt] ''failed'' ''suppressed'' st))))
             else (case dc_batch_key d rcpt of
                     Some key \<Rightarrow>
                       (True, (batch_append key \<lparr>br_rcpt = rcpt, br_domain = domain, br_leased = leased\<rparr> st)
                          \<lparr>h_lease_held := domain # h_lease_held st\<rparr>)
                   | None \<Rightarrow>
                       (False, handle_result d msg rcpt domain (dc_deliver d (dp_tick st) msg rcpt) (tick st)))))"

text \<open>One round of the recipient loop; \<open>None\<close> waits for a slot.\<close>
definition handle_rcpt :: "('e, 's, 'v, 'p) dispatcher \<Rightarrow> message \<Rightarrow> string \<Rightarrow> ('s, 'p) handling \<Rightarrow> ('s, 'p) handling option" where
  "handle_rcpt d msg rcpt st =
     (if w_done (moment_of d st) \<and> (dc_shaping d \<or> dc_has_pauses d)
      then Some (tick ((keep_rcpt rcpt st)\<lparr>h_until := w_now (moment_of d st) + second\<rparr>))
      else
        (let domain = domain_or_empty rcpt; c = check_pause d msg rcpt domain (tick st) in
         if fst c then Some (record_history d [rcpt] ''deferred'' ''pause'' (snd c))
         else
           (let l = take_lease d domain (dc_batch_key d rcpt \<noteq> None) (snd c) in
            case fst l of
              LeaseBlocked \<Rightarrow> None
            | LeaseWait wait \<Rightarrow>
                Some (defer_until (w_now (moment_of d (snd l)) + wait)
                  (tick (keep_rcpt rcpt (record_history d [rcpt] ''deferred'' ''throttle'' (snd l)))))
            | _ \<Rightarrow>
                (let leased = (fst l = LeaseHeld); a = attempt_rcpt d msg rcpt domain leased (snd l)
                 in Some (release_lease (leased \<and> \<not> fst a) domain (snd a))))))"

fun handle_rcpts :: "('e, 's, 'v, 'p) dispatcher \<Rightarrow> message \<Rightarrow> string list \<Rightarrow> ('s, 'p) handling \<Rightarrow> ('s, 'p) handling option" where
  "handle_rcpts d msg [] st = Some st"
| "handle_rcpts d msg (r # rs) st =
     (case handle_rcpt d msg r st of None \<Rightarrow> None | Some st' \<Rightarrow> handle_rcpts d msg rs st')"

section \<open>Batches\<close>

fun handle_batch_items :: "('e, 's, 'v, 'p) dispatcher \<Rightarrow> message \<Rightarrow> (string \<Rightarrow> derror option) \<Rightarrow> batch_recipient list
    \<Rightarrow> ('s, 'p) handling \<Rightarrow> ('s, 'p) handling" where
  "handle_batch_items d msg results [] st = st"
| "handle_batch_items d msg results (b # bs) st =
     handle_batch_items d msg results bs
       (release_lease (br_leased b) (br_domain b) (handle_result d msg (br_rcpt b) (br_domain b) (results (br_rcpt b)) st))"

text \<open>The loop over the batches, in whatever order the map yields them\<close>
fun handle_batches :: "('e, 's, 'v, 'p) dispatcher \<Rightarrow> message \<Rightarrow> batch_recipient list list \<Rightarrow> ('s, 'p) handling \<Rightarrow> ('s, 'p) handling" where
  "handle_batches d msg [] st = st"
| "handle_batches d msg (b # bs) st =
     handle_batches d msg bs
       (handle_batch_items d msg (dc_deliver_batch d (dp_tick st) msg (map br_rcpt b)) b (tick st))"

definition batches_of :: "('e, 's, 'v, 'p) dispatcher \<Rightarrow> ('s, 'p) handling \<Rightarrow> batch_recipient list list" where
  "batches_of d st =
     map (\<lambda>k. case map_of (h_batches st) k of None \<Rightarrow> [] | Some bs \<Rightarrow> bs) (dc_batch_order d (map fst (h_batches st)))"

section \<open>The decision about the message\<close>

definition backoff :: "int \<Rightarrow> duration list \<Rightarrow> duration" where
  "backoff n schedule =
     (if schedule = [] then 24 * hour
      else if n < 0 then schedule ! 0
      else if int (length schedule) \<le> n then schedule ! (length schedule - 1)
      else schedule ! nat n)"

text \<open>The loop of \<^verbatim>\<open>shouldFail\<close>; every error that is no response of the server is temporary.\<close>
fun should_fail_errs :: "derror list \<Rightarrow> bool \<Rightarrow> bool \<Rightarrow> bool" where
  "should_fail_errs [] has_temporary has_permanent = (if has_temporary then False else has_permanent)"
| "should_fail_errs (e # es) has_temporary has_permanent =
     (if is_unknown e then True
      else (case as_smtp e of
              Some r \<Rightarrow> should_fail_errs es (has_temporary \<or> sr_temporary r) (has_permanent \<or> sr_permanent r)
            | None \<Rightarrow> should_fail_errs es True has_permanent))"

definition should_fail :: "('e, 's, 'v, 'p) dispatcher \<Rightarrow> message \<Rightarrow> derror list \<Rightarrow> time \<Rightarrow> bool" where
  "should_fail d msg errs t \<longleftrightarrow>
     (if 0 < dc_max_attempts d \<and> dc_max_attempts d \<le> attempts msg then True
      else if retry_age_reached d msg t then True
      else if errs = [] then False
      else should_fail_errs errs False False)"

datatype verdict = VDefer "string list" duration | VAck | VHold "string list" duration | VFail "string list" string
  | VRetry "string list" duration string

definition is_failed :: "('s, 'p) handling \<Rightarrow> string \<Rightarrow> bool" where
  "is_failed st rcpt \<longleftrightarrow> map_of (h_failed st) rcpt \<noteq> None"

text \<open>The end of \<^verbatim>\<open>handleMessage\<close>: which call persists the message, for which recipients\<close>
definition decide :: "('e, 's, 'v, 'p) dispatcher \<Rightarrow> message \<Rightarrow> ('s, 'p) handling \<Rightarrow> verdict" where
  "decide d msg st =
     (let t = w_now (moment_of d st); wait = time_sub (h_until st) t in
      if h_errs st = [] \<and> \<not> is_zero (h_until st) then VDefer (h_remaining st) wait
      else if h_errs st = [] then VAck
      else if should_fail d msg (h_errs st) t then
        (if h_paused st \<noteq> [] then VHold (filter (\<lambda>r. \<not> is_failed st r) (h_remaining st)) wait
         else VFail (h_remaining st) (join ''; '' (h_reasons st)))
      else VRetry (h_remaining st) (max (backoff (attempts msg) (dc_retry_schedule d)) wait) (join ''; '' (h_reasons st)))"

fun bounce_failed :: "('e, 's, 'v, 'p) dispatcher \<Rightarrow> message \<Rightarrow> string list \<Rightarrow> ('s, 'p) handling \<Rightarrow> ('s, 'p) handling" where
  "bounce_failed d msg [] st = st"
| "bounce_failed d msg (r # rs) st =
     (case map_of (h_failed st) r of
        None \<Rightarrow> bounce_failed d msg rs st
      | Some diagnostic \<Rightarrow> bounce_failed d msg rs (emit_hard_bounce_dsn d msg r diagnostic st))"

definition persist :: "('e, 's, 'v, 'p) dispatcher \<Rightarrow> message \<Rightarrow> verdict \<Rightarrow> ('s, 'p) handling \<Rightarrow> ('s, 'p) handling" where
  "persist d msg v st0 =
     (case v of
        VDefer rs wait \<Rightarrow>
          (let st = record_history d rs ''deferred'' ''limit'' st0 in
           tick (st\<lparr>dp_queue := fst (be_defer (dc_backend d) (w_queue (moment_of d st)) (dp_queue st) (msg\<lparr>rcpt_to := rs\<rparr>) wait)\<rparr>))
      | VAck \<Rightarrow>
          tick (st0\<lparr>dp_queue := fst (be_ack_sent (dc_backend d) (w_queue (moment_of d st0)) (dp_queue st0) (m_id msg) msg)\<rparr>)
      | VHold rs wait \<Rightarrow>
          (let st = bounce_failed d msg (h_remaining st0) st0 in
           tick (st\<lparr>dp_queue := fst (be_defer (dc_backend d) (w_queue (moment_of d st)) (dp_queue st) (msg\<lparr>rcpt_to := rs\<rparr>) wait)\<rparr>))
      | VFail rs reason \<Rightarrow>
          tick (st0\<lparr>dp_queue := fst (be_fail (dc_backend d) (w_queue (moment_of d st0)) (dp_queue st0) (msg\<lparr>rcpt_to := rs\<rparr>) reason)\<rparr>)
      | VRetry rs delay reason \<Rightarrow>
          (let st = record_history d rs ''retry'' [] st0 in
           tick (st\<lparr>dp_queue := fst (be_retry (dc_backend d) (w_queue (moment_of d st)) (dp_queue st) (msg\<lparr>rcpt_to := rs\<rparr>) delay reason)\<rparr>)))"

section \<open>The handler\<close>

text \<open>The two loops over the recipients, up to the decision\<close>
definition attempt_all :: "('e, 's, 'v, 'p) dispatcher \<Rightarrow> message \<Rightarrow> ('s, 'p) dispatcher_state \<Rightarrow> ('s, 'p) handling option" where
  "attempt_all d msg st =
     (let st0 = (if attempts msg = 0 then record_history d [[]] ''accepted'' [] st else st) in
      case handle_rcpts d msg (rcpt_to msg) (begin_handling st0) of
        None \<Rightarrow> None
      | Some h \<Rightarrow> Some (handle_batches d msg (batches_of d h) h))"

definition handle_message :: "('e, 's, 'v, 'p) dispatcher \<Rightarrow> message \<Rightarrow> ('s, 'p) dispatcher_state \<Rightarrow> ('s, 'p) dispatcher_state option" where
  "handle_message d msg st =
     (case attempt_all d msg st of
        None \<Rightarrow> None
      | Some h \<Rightarrow> Some (dispatcher_state.truncate (persist d msg (decide d msg h) h)))"

fun handle_messages :: "('e, 's, 'v, 'p) dispatcher \<Rightarrow> message list \<Rightarrow> ('s, 'p) dispatcher_state \<Rightarrow> ('s, 'p) dispatcher_state option" where
  "handle_messages d [] st = Some st"
| "handle_messages d (m # ms) st = (case handle_message d m st of None \<Rightarrow> None | Some st' \<Rightarrow> handle_messages d ms st')"

text \<open>The part of \<^verbatim>\<open>processBatch\<close> that fetches: from the fair queue if there is one\<close>
definition fetch_batch :: "('e, 's, 'v, 'p) dispatcher \<Rightarrow> ('s, 'p) dispatcher_state \<Rightarrow> ('s, 'p) dispatcher_state \<times> (qerror + message list)" where
  "fetch_batch d st =
     (let n = dc_worker_count d * 4; e = w_queue (moment_of d st) in
      case dp_fair st of
        Some f \<Rightarrow>
          (let r = fq_due (dc_backend d) e (dp_queue st) f n in
           (tick (st\<lparr>dp_queue := fst r, dp_fair := Some (fst (snd r))\<rparr>), snd (snd r)))
      | None \<Rightarrow> (let r = be_due (dc_backend d) e (dp_queue st) n in (tick (st\<lparr>dp_queue := fst r\<rparr>), snd r)))"

definition process_batch :: "('e, 's, 'v, 'p) dispatcher \<Rightarrow> ('s, 'p) dispatcher_state \<Rightarrow> ('s, 'p) dispatcher_state option \<times> qerror option" where
  "process_batch d st =
     (let r = fetch_batch d st in
      case snd r of
        Inl err \<Rightarrow> (Some (fst r), Some err)
      | Inr ms \<Rightarrow> (handle_messages d ms (fst r), None))"

end
