(* ===== verification/Dispatcher_Facts.thy ===== *)
theory Dispatcher_Facts
  imports Dispatcher "HOL-Library.Multiset"
begin

text \<open>
  What the steps of the handler change: the operations on the shared components leave the local
  variables of \<^verbatim>\<open>handleMessage\<close> alone, and each branch of a recipient moves that recipient to
  exactly one place. The invariant of the two loops collects this.
\<close>

named_theorems handler "definitions of the small steps of the handler"

section \<open>Frames\<close>

lemma handling_more:
  assumes "dispatcher_state.more st' = dispatcher_state.more st"
  shows "h_paused st' = h_paused st" "h_failed st' = h_failed st" "h_until st' = h_until st" "h_remaining st' = h_remaining st"
    "h_errs st' = h_errs st" "h_batches st' = h_batches st" "h_lease_held st' = h_lease_held st" "h_done st' = h_done st"
    "h_tried st' = h_tried st"
  using assms by (cases st; cases st'; simp)+

lemma more_tick [simp]: "dispatcher_state.more (tick st) = dispatcher_state.more st"
  by (simp add: tick_def)

lemma more_publish: "dispatcher_state.more (publish_event d r x c st) = dispatcher_state.more st"
  by (simp add: publish_event_def)

lemma more_history: "dispatcher_state.more (record_history d rs x c st) = dispatcher_state.more st"
  by (simp add: record_history_def)

lemma more_enqueue [simp]: "dispatcher_state.more (enqueue_dsn d dsn st) = dispatcher_state.more st"
  by (simp add: enqueue_dsn_def split: sum.split)

lemma more_hard: "dispatcher_state.more (emit_hard_bounce_dsn d msg r x st) = dispatcher_state.more st"
  by (simp add: emit_hard_bounce_dsn_def)

lemma more_soft: "dispatcher_state.more (emit_soft_bounce_dsn d msg r x st) = dispatcher_state.more st"
  by (simp add: emit_soft_bounce_dsn_def)

lemma more_success: "dispatcher_state.more (emit_success_dsn d msg r st) = dispatcher_state.more st"
  by (simp add: emit_success_dsn_def)

lemma more_reputation: "dispatcher_state.more (observe_reputation d x a b st) = dispatcher_state.more st"
  by (simp add: observe_reputation_def)

lemma more_throttle: "dispatcher_state.more (observe_throttle x a st) = dispatcher_state.more st"
  by (simp add: observe_throttle_def)

lemma more_responses: "dispatcher_state.more (observe_responses d x e st) = dispatcher_state.more st"
  by (simp add: observe_responses_def Let_def split: option.split)

lemma more_suppress: "dispatcher_state.more (suppress_rcpt d r x st) = dispatcher_state.more st"
  by (simp add: suppress_rcpt_def)

lemmas shared_frame [simp] =
  handling_more [OF more_tick] handling_more [OF more_publish] handling_more [OF more_history]
  handling_more [OF more_hard] handling_more [OF more_soft] handling_more [OF more_success]
  handling_more [OF more_reputation] handling_more [OF more_throttle] handling_more [OF more_responses]
  handling_more [OF more_suppress]

text \<open>The throttle changes only through its own operations.\<close>
lemma throttle_frame [simp]:
  "dp_throttle (tick st) = dp_throttle st" "dp_throttle (publish_event d r x c st) = dp_throttle st"
  "dp_throttle (record_history d rs x c st) = dp_throttle st" "dp_throttle (emit_hard_bounce_dsn d msg r y st) = dp_throttle st"
  "dp_throttle (emit_soft_bounce_dsn d msg r y st) = dp_throttle st" "dp_throttle (emit_success_dsn d msg r st) = dp_throttle st"
  "dp_throttle (observe_reputation d x a b st) = dp_throttle st" "dp_throttle (observe_responses d x e st) = dp_throttle st"
  "dp_throttle (suppress_rcpt d r x st) = dp_throttle st" "dp_throttle (observe_throttle x a st) = dt_observe (dp_throttle st) x a"
  by (simp_all add: tick_def publish_event_def record_history_def emit_hard_bounce_dsn_def emit_soft_bounce_dsn_def
      emit_success_dsn_def enqueue_dsn_def observe_reputation_def observe_responses_def suppress_rcpt_def observe_throttle_def
      Let_def split: option.split sum.split)

section \<open>The invariant of the loops\<close>

definition batched :: "(string \<times> batch_recipient list) list \<Rightarrow> batch_recipient multiset" where
  "batched bs = mset (concat (map snd bs))"

lemma batched_dput:
  "dwf bs \<Longrightarrow> batched (dput k ((case map_of bs k of None \<Rightarrow> [] | Some x \<Rightarrow> x) @ [b]) bs) = add_mset b (batched bs)"
proof (induction bs)
  case Nil
  show ?case by (simp add: batched_def)
next
  case (Cons p bs)
  obtain k' v where p: "p = (k', v)" by (cases p)
  have "map_of bs k = None" if "k < k'"
    using Cons.prems that by (force simp: p dwf_def map_of_eq_None_iff)
  moreover have "dwf bs" using Cons.prems by (simp add: dwf_def)
  ultimately show ?case using Cons.IH by (auto simp: p batched_def)
qed

lemma keys_dput: "mset (map fst (dput k v xs)) \<subseteq># add_mset k (mset (map fst xs))"
  by (induction k v xs rule: dput.induct) (auto simp: add_mset_commute)

text \<open>
  The recipients seen so far are finished, remaining or waiting in a batch; those held back or
  failed are among the remaining ones; a finished recipient was finished for its reason; and an
  unknown status is on the list of failures.
\<close>
definition accounted :: "string list \<Rightarrow> batch_recipient multiset \<Rightarrow> ('s, 'p) handling \<Rightarrow> bool" where
  "accounted rs bs st \<longleftrightarrow> mset (map fst (h_done st)) + mset (h_remaining st) + image_mset br_rcpt bs = mset rs"

definition kept_apart :: "('s, 'p) handling \<Rightarrow> bool" where
  "kept_apart st \<longleftrightarrow> mset (h_paused st) + mset (map fst (h_failed st)) \<subseteq># mset (h_remaining st)"

definition done_because :: "('s, 'p) handling \<Rightarrow> bool" where
  "done_because st \<longleftrightarrow>
     (\<forall>r. (r, Delivered) \<in> set (h_done st) \<longrightarrow> (r, None) \<in> set (h_tried st)) \<and>
     (\<forall>r. (r, Bounced) \<in> set (h_done st) \<longrightarrow> (\<exists>e. (r, Some e) \<in> set (h_tried st) \<and> permanent_response e \<noteq> None))"

definition unknown_failed :: "('s, 'p) handling \<Rightarrow> bool" where
  "unknown_failed st \<longleftrightarrow>
     (\<forall>r e. (r, Some e) \<in> set (h_tried st) \<longrightarrow> as_deferred e = None \<longrightarrow> is_unknown e \<longrightarrow>
        is_failed st r \<and> e \<in> set (h_errs st))"

definition tracked :: "('s, 'p) handling \<Rightarrow> bool" where
  "tracked st \<longleftrightarrow> kept_apart st \<and> done_because st \<and> unknown_failed st"

text \<open>Whether a remaining recipient is the reason of an error or of a deferral.\<close>
definition explained :: "('s, 'p) handling \<Rightarrow> bool" where
  "explained st \<longleftrightarrow> zero_time \<le> h_until st \<and> (h_remaining st \<noteq> [] \<longrightarrow> h_errs st \<noteq> [] \<or> zero_time < h_until st)"

lemmas small_steps [handler] = keep_rcpt_def finish_rcpt_def fail_rcpt_def add_reason_def defer_until_def

lemma kept_apart_fail: "kept_apart st \<Longrightarrow> kept_apart (fail_rcpt r err x st)"
  using keys_dput [of r x "h_failed st"] unfolding kept_apart_def
  by (auto simp: handler intro: subset_mset.trans [OF subset_mset.add_left_mono [of _ _ "mset (h_paused st)"]])

text \<open>The local effect of a result on the variables of the handler.\<close>
datatype rcpt_effect = EffDone completion | EffDefer time | EffFail derror string

definition result_effect :: "('e, 's, 'v, 'p) dispatcher \<Rightarrow> time \<Rightarrow> derror option \<Rightarrow> rcpt_effect" where
  "result_effect d t result =
     (case result of
        None \<Rightarrow> EffDone Delivered
      | Some e \<Rightarrow>
          (case as_deferred e of
             Some delay \<Rightarrow> EffDefer (t + delay)
           | None \<Rightarrow>
               if is_unknown e then EffFail e (dc_err_text d e)
               else (case permanent_response e of Some _ \<Rightarrow> EffDone Bounced | None \<Rightarrow> EffFail e (dc_err_text d e))))"

fun apply_effect :: "string \<Rightarrow> rcpt_effect \<Rightarrow> ('s, 'p) handling \<Rightarrow> ('s, 'p) handling" where
  "apply_effect r (EffDone c) st = finish_rcpt r c st"
| "apply_effect r (EffDefer t) st = defer_until t (keep_rcpt r st)"
| "apply_effect r (EffFail e x) st = fail_rcpt r e x st"

text \<open>Agreement on everything the invariant reads, but for the components and the text of reasons.\<close>
definition same_locals :: "('s, 'p) handling \<Rightarrow> ('s, 'p) handling \<Rightarrow> bool" where
  "same_locals a b \<longleftrightarrow> h_paused a = h_paused b \<and> h_failed a = h_failed b \<and> h_until a = h_until b \<and> h_remaining a = h_remaining b \<and>
     h_errs a = h_errs b \<and> h_batches a = h_batches b \<and> h_lease_held a = h_lease_held b \<and> h_done a = h_done b \<and> h_tried a = h_tried b"

lemma handle_result_locals:
  "same_locals (handle_result d msg r x result st)
     (apply_effect r (result_effect d (w_now (moment_of d st)) result) (st\<lparr>h_tried := h_tried st @ [(r, result)]\<rparr>))"
proof (cases result)
  case None
  then show ?thesis
    by (simp add: handle_result_def handle_success_def result_effect_def same_locals_def handler Let_def)
next
  case (Some e)
  have "w_now (moment_of d (record_history d [r] a b st)) = w_now (moment_of d st)" for a b
    by (simp add: record_history_def)
  then show ?thesis using Some
    by (cases "permanent_response e"; cases "as_deferred e"; cases "is_unknown e")
       (simp_all add: handle_result_def handle_permanent_def handle_temporary_def result_effect_def same_locals_def handler Let_def)
qed

section \<open>The step of a recipient\<close>

text \<open>Clocks after the zero time, delays that are not negative, pauses that end in the future.\<close>
definition timely :: "('e, 's, 'v, 'p) dispatcher \<Rightarrow> bool" where
  "timely d \<longleftrightarrow> (\<forall>n. zero_time < w_now (dc_world d n)) \<and>
     (\<forall>x (st :: ('s, 'p) handling) u. pause_hold d x st = Some u \<longrightarrow> zero_time < u) \<and>
     (\<forall>n m r e w. dc_deliver d n m r = Some e \<longrightarrow> as_deferred e = Some w \<longrightarrow> 0 \<le> w) \<and>
     (\<forall>n m rs r e w. dc_deliver_batch d n m rs r = Some e \<longrightarrow> as_deferred e = Some w \<longrightarrow> 0 \<le> w)"

text \<open>What a recipient does to the variables of the handler, as a relation: one rule for each way.\<close>
inductive rcpt_step :: "('e, 's, 'v, 'p) dispatcher \<Rightarrow> string \<Rightarrow> ('s, 'p) handling \<Rightarrow> ('s, 'p) handling \<Rightarrow> bool"
  for d :: "('e, 's, 'v, 'p) dispatcher" and r :: string and st :: "('s, 'p) handling" where
  rs_finished: "c \<in> {Suppressed, Expired} \<Longrightarrow> same_locals st' (finish_rcpt r c st) \<Longrightarrow> rcpt_step d r st st'"
| rs_deferred: "(timely d \<Longrightarrow> zero_time < u) \<Longrightarrow> same_locals st' ((keep_rcpt r st)\<lparr>h_until := u\<rparr>) \<Longrightarrow> rcpt_step d r st st'"
| rs_paused: "(timely d \<Longrightarrow> zero_time < u) \<Longrightarrow> same_locals st' ((keep_rcpt r st)\<lparr>h_until := u, h_paused := h_paused st @ [r]\<rparr>)
    \<Longrightarrow> rcpt_step d r st st'"
| rs_refused: "same_locals st' (fail_rcpt r (OtherError x) x st) \<Longrightarrow> rcpt_step d r st st'"
| rs_tried: "(\<And>e w. timely d \<Longrightarrow> result = Some e \<Longrightarrow> as_deferred e = Some w \<Longrightarrow> 0 \<le> w) \<Longrightarrow> (timely d \<Longrightarrow> zero_time < t) \<Longrightarrow>
    same_locals st' (apply_effect r (result_effect d t result) (st\<lparr>h_tried := h_tried st @ [(r, result)]\<rparr>)) \<Longrightarrow> rcpt_step d r st st'"
| rs_batched: "same_locals st' ((batch_append key b st)\<lparr>h_lease_held := x # h_lease_held st\<rparr>) \<Longrightarrow> br_rcpt b = r \<Longrightarrow> rcpt_step d r st st'"

lemma same_refl [simp]: "same_locals st st"
  by (simp add: same_locals_def)

lemma same_frame [simp]:
  "same_locals (tick a) b = same_locals a b" "same_locals (record_history d rs x y a) b = same_locals a b"
  "same_locals (publish_event d r x y a) b = same_locals a b" "same_locals (emit_hard_bounce_dsn d msg r x a) b = same_locals a b"
  "same_locals (release_lease q x a) b = same_locals a b" "same_locals (add_reason r x a) b = same_locals a b"
  by (simp_all add: same_locals_def release_lease_def handler)

lemma same_trans: "same_locals a b \<Longrightarrow> same_locals b c \<Longrightarrow> same_locals a c"
  by (simp add: same_locals_def)

lemma timelyD:
  fixes st :: "('s, 'p) handling"
  assumes "timely (d :: ('e, 's, 'v, 'p) dispatcher)"
  shows "zero_time < w_now (dc_world d n)" "pause_hold d x st = Some u \<Longrightarrow> zero_time < u"
    "dc_deliver d n m r = Some e \<Longrightarrow> as_deferred e = Some w \<Longrightarrow> 0 \<le> w"
    "dc_deliver_batch d n m rs r = Some e \<Longrightarrow> as_deferred e = Some w \<Longrightarrow> 0 \<le> w"
  using assms unfolding timely_def by blast+

lemma same_sym: "same_locals a b \<Longrightarrow> same_locals b a"
  by (simp add: same_locals_def)

lemma apply_effect_same:
  "same_locals a b \<Longrightarrow> same_locals (apply_effect r eff (a\<lparr>h_tried := h_tried a @ xs\<rparr>)) (apply_effect r eff (b\<lparr>h_tried := h_tried b @ xs\<rparr>))"
  by (cases eff) (simp_all add: same_locals_def handler)

lemma rcpt_step_same:
  assumes "rcpt_step d r st st'" "same_locals st st0" "same_locals st'' st'"
  shows "rcpt_step d r st0 st''"
  using assms(1)
proof cases
  case (rs_finished c)
  have "same_locals st'' (finish_rcpt r c st0)"
    using same_trans [OF assms(3) rs_finished(2)] assms(2) by (simp add: same_locals_def handler)
  with rs_finished(1) show ?thesis by (rule rcpt_step.rs_finished)
next
  case (rs_deferred u)
  have "same_locals st'' ((keep_rcpt r st0)\<lparr>h_until := u\<rparr>)"
    using same_trans [OF assms(3) rs_deferred(2)] assms(2) by (simp add: same_locals_def handler)
  with rs_deferred(1) show ?thesis by (rule rcpt_step.rs_deferred)
next
  case (rs_paused u)
  have "same_locals st'' ((keep_rcpt r st0)\<lparr>h_until := u, h_paused := h_paused st0 @ [r]\<rparr>)"
    using same_trans [OF assms(3) rs_paused(2)] assms(2) by (simp add: same_locals_def handler)
  with rs_paused(1) show ?thesis by (rule rcpt_step.rs_paused)
next
  case (rs_refused x)
  have "same_locals st'' (fail_rcpt r (OtherError x) x st0)"
    using same_trans [OF assms(3) rs_refused] assms(2) by (simp add: same_locals_def handler)
  then show ?thesis by (rule rcpt_step.rs_refused)
next
  case (rs_tried result t)
  have "same_locals st'' (apply_effect r (result_effect d t result) (st0\<lparr>h_tried := h_tried st0 @ [(r, result)]\<rparr>))"
    using same_trans [OF assms(3) same_trans [OF rs_tried(3) apply_effect_same [OF assms(2)]]] .
  with rs_tried(1,2) show ?thesis by (rule rcpt_step.rs_tried)
next
  case (rs_batched x key b)
  have "same_locals st'' ((batch_append key b st0)\<lparr>h_lease_held := x # h_lease_held st0\<rparr>)"
    using same_trans [OF assms(3) rs_batched(1)] assms(2) by (simp add: same_locals_def batch_append_def)
  then show ?thesis using rs_batched(2) by (rule rcpt_step.rs_batched)
qed

text \<open>A passed pause check changes no variable of the handler; a hold is a step of the recipient.\<close>
lemma check_pause_step:
  "if fst (check_pause d msg r x st) then rcpt_step d r st (snd (check_pause d msg r x st))
   else same_locals (snd (check_pause d msg r x st)) st"
proof (cases "pause_hold d x st")
  case None
  then show ?thesis by (simp add: check_pause_def)
next
  case (Some u)
  show ?thesis
  proof (cases "retry_age_reached d msg (w_now (moment_of d st))")
    case True
    then show ?thesis using Some
      by (auto simp: check_pause_def finish_rcpt_def same_locals_def intro!: rs_finished [of Expired])
  next
    case False
    have "timely d \<Longrightarrow> zero_time < max (h_until st) u" using timelyD(2) Some by (metis less_max_iff_disj)
    then show ?thesis using Some False
      by (auto simp: check_pause_def handler same_locals_def intro!: rs_paused [of d "max (h_until st) u"])
  qed
qed

lemma handle_result_step:
  assumes "\<And>e w. timely d \<Longrightarrow> result = Some e \<Longrightarrow> as_deferred e = Some w \<Longrightarrow> 0 \<le> w"
  shows "rcpt_step d r st (handle_result d msg r x result st)"
  by (rule rs_tried [OF _ _ handle_result_locals]) (simp_all add: assms timelyD(1))

lemma admit_reputation_same: "same_locals (snd (admit_reputation d x st)) st"
  by (simp add: admit_reputation_def same_locals_def Let_def split: option.split)

lemma attempt_rcpt_step: "rcpt_step d r st (snd (attempt_rcpt d msg r x q st))"
proof (cases "fst (check_pause d msg r x st)")
  case True
  then have "rcpt_step d r st (snd (check_pause d msg r x st))" using check_pause_step [of d msg r x st] by simp
  then show ?thesis by (rule rcpt_step_same) (simp_all add: attempt_rcpt_def True Let_def)
next
  case False
  let ?st1 = "snd (check_pause d msg r x st)"
  let ?a = "admit_reputation d x ?st1"
  have s: "same_locals (snd ?a) st"
    using check_pause_step [of d msg r x st] False same_trans [OF admit_reputation_same] by simp
  have "rcpt_step d r (snd ?a) (snd (attempt_rcpt d msg r x q st))"
  proof (cases "fst ?a")
    case (Some reason)
    then show ?thesis
      by (simp add: attempt_rcpt_def False Let_def rs_refused [of _ _ "''reputation '' @ reason"] same_locals_def handler)
  next
    case None
    note n = attempt_rcpt_def [of d msg r x q st] False None
    show ?thesis
    proof (cases "case dp_sup (snd ?a) of None \<Rightarrow> False | Some s \<Rightarrow> is_suppressed s r")
      case True
      then show ?thesis by (simp add: n Let_def rs_finished [of Suppressed] same_locals_def handler)
    next
      case ns: False
      show ?thesis
      proof (cases "dc_batch_key d r")
        case (Some key)
        then show ?thesis using ns by (simp add: n Let_def rs_batched [OF same_refl])
      next
        case bk: None
        have "rcpt_step d r (tick (snd ?a)) (snd (attempt_rcpt d msg r x q st))"
          using bk ns by (simp add: n Let_def handle_result_step timelyD(3))
        then show ?thesis by (rule rcpt_step_same) simp_all
      qed
    qed
  qed
  then show ?thesis by (rule rcpt_step_same [OF _ s]) simp
qed

lemma attempt_release_step: "rcpt_step d r st (release_lease q x (snd (attempt_rcpt d msg r y b st)))"
  by (rule rcpt_step_same [OF attempt_rcpt_step [of d r st msg y b] same_refl]) simp

lemma take_lease_same: "same_locals (snd (take_lease d x b st)) st"
  by (simp add: take_lease_def same_locals_def Let_def split: option.split)

lemma handle_rcpt_step:
  assumes "handle_rcpt d msg r st = Some st'"
  shows "rcpt_step d r st st'"
proof (cases "w_done (moment_of d st) \<and> (dc_shaping d \<or> dc_has_pauses d)")
  case True
  have st': "st' = tick ((keep_rcpt r st)\<lparr>h_until := w_now (moment_of d st) + second\<rparr>)"
    using assms True by (simp add: handle_rcpt_def)
  have "timely d \<Longrightarrow> zero_time < w_now (moment_of d st) + second" using timelyD(1) [of d "dp_tick st"] by (simp add: second_def)
  then show ?thesis by (rule rs_deferred) (simp_all add: st')
next
  case False
  let ?x = "domain_or_empty r"
  let ?c = "check_pause d msg r ?x (tick st)"
  note cp = check_pause_step [of d msg r ?x "tick st"]
  show ?thesis
  proof (cases "fst ?c")
    case True
    with cp have "rcpt_step d r (tick st) (snd ?c)" by simp
    then show ?thesis by (rule rcpt_step_same) (use assms False True in \<open>auto simp: handle_rcpt_def Let_def\<close>)
  next
    case nc: False
    let ?l = "take_lease d ?x (dc_batch_key d r \<noteq> None) (snd ?c)"
    have "same_locals (snd ?c) st" using cp nc same_sym by (simp add: same_locals_def)
    from same_trans [OF take_lease_same this] have s: "same_locals (snd ?l) st" .
    have "rcpt_step d r (snd ?l) st'"
    proof (cases "fst ?l")
      case (LeaseWait w)
      have "0 < w" using LeaseWait by (auto simp: take_lease_def Let_def split: if_splits option.splits)
      have st': "st' = defer_until (w_now (moment_of d (snd ?l)) + w)
          (tick (keep_rcpt r (record_history d [r] ''deferred'' ''throttle'' (snd ?l))))"
        using assms False nc LeaseWait by (simp add: handle_rcpt_def Let_def)
      have "timely d \<Longrightarrow> zero_time < max (h_until (snd ?l)) (w_now (moment_of d (snd ?l)) + w)"
        using timelyD(1) [of d "dp_tick (snd ?l)"] \<open>0 < w\<close> by simp
      then show ?thesis by (rule rs_deferred) (simp_all add: st' same_locals_def handler)
    qed (use assms False nc in \<open>auto simp: handle_rcpt_def Let_def intro: attempt_release_step\<close>)
    then show ?thesis by (rule rcpt_step_same [OF _ s]) simp
  qed
qed

section \<open>The loops keep the invariant\<close>

lemma same_locals_cong:
  assumes "same_locals a b"
  shows "accounted rs bs a = accounted rs bs b" "tracked a = tracked b" "explained a = explained b" "h_batches a = h_batches b"
  using assms by (simp_all add: same_locals_def accounted_def tracked_def kept_apart_def done_because_def unknown_failed_def
      is_failed_def explained_def)

lemma dwf_batch_append: "dwf (h_batches st) \<Longrightarrow> dwf (h_batches (batch_append k b st))"
  by (simp add: batch_append_def)

lemma apply_effect_accounted:
  "accounted rs bs st \<Longrightarrow> accounted (r # rs) bs (apply_effect r eff (st\<lparr>h_tried := xs\<rparr>))"
  by (cases eff) (auto simp: accounted_def handler)

lemma apply_effect_batches [simp]: "h_batches (apply_effect r eff st) = h_batches st"
  by (cases eff) (auto simp: handler)

lemma rcpt_step_accounted:
  assumes "rcpt_step d r st st'" "accounted rs (batched (h_batches st)) st" "dwf (h_batches st)"
  shows "accounted (r # rs) (batched (h_batches st')) st'" "dwf (h_batches st')"
proof -
  from assms(1) have "accounted (r # rs) (batched (h_batches st')) st' \<and> dwf (h_batches st')"
  proof cases
    case (rs_tried result t)
    note c = same_locals_cong [OF rs_tried(3)]
    show ?thesis using assms(2,3) by (simp add: c apply_effect_accounted)
  next
    case (rs_batched x key b)
    note c = same_locals_cong [OF rs_batched(1)]
    show ?thesis
      using assms(2,3) rs_batched(2) unfolding c by (simp add: batch_append_def batched_dput accounted_def)
  qed (use assms(2,3) in \<open>simp_all add: same_locals_def accounted_def handler\<close>)
  then show "accounted (r # rs) (batched (h_batches st')) st'" "dwf (h_batches st')" by auto
qed

text \<open>The effect of a tried recipient keeps the records straight.\<close>
lemma kept_apart_effect: "kept_apart st \<Longrightarrow> kept_apart (apply_effect r eff (st\<lparr>h_tried := xs\<rparr>))"
proof (cases eff)
  case (EffFail e x)
  then show "kept_apart st \<Longrightarrow> ?thesis" using kept_apart_fail [of "st\<lparr>h_tried := xs\<rparr>"] by (simp add: kept_apart_def)
qed (auto simp: kept_apart_def handler intro: subset_mset.order_trans)

lemma done_because_effect:
  assumes "done_because st"
  shows "done_because (apply_effect r (result_effect d t result) (st\<lparr>h_tried := h_tried st @ [(r, result)]\<rparr>))"
  using assms
  by (auto simp: result_effect_def done_because_def handler split: option.splits) blast+

lemma unknown_failed_effect:
  assumes "unknown_failed st"
  shows "unknown_failed (apply_effect r (result_effect d t result) (st\<lparr>h_tried := h_tried st @ [(r, result)]\<rparr>))"
  using assms
  by (auto simp: result_effect_def unknown_failed_def is_failed_def handler split: option.splits)

lemma rcpt_step_tracked:
  assumes "rcpt_step d r st st'" "tracked st"
  shows "tracked st'"
  using assms(1)
proof cases
  case (rs_tried result t)
  have "tracked (apply_effect r (result_effect d t result) (st\<lparr>h_tried := h_tried st @ [(r, result)]\<rparr>))"
    using assms(2) by (simp add: tracked_def kept_apart_effect done_because_effect unknown_failed_effect)
  then show ?thesis by (simp add: same_locals_cong(2) [OF rs_tried(3)])
next
  case (rs_refused x)
  have "kept_apart (fail_rcpt r (OtherError x) x st)" using assms(2) by (simp add: tracked_def kept_apart_fail)
  moreover have "done_because (fail_rcpt r (OtherError x) x st)" "unknown_failed (fail_rcpt r (OtherError x) x st)"
    using assms(2) by (auto simp: tracked_def done_because_def unknown_failed_def is_failed_def handler)
  ultimately have "tracked (fail_rcpt r (OtherError x) x st)" by (simp add: tracked_def)
  then show ?thesis by (simp add: same_locals_cong(2) [OF rs_refused])
qed (use assms(2) in \<open>auto simp: same_locals_def tracked_def kept_apart_def done_because_def unknown_failed_def is_failed_def
    batch_append_def handler intro: subset_mset.order_trans\<close>)

lemma rcpt_step_explained:
  assumes "rcpt_step d r st st'" "explained st" "timely d"
  shows "explained st'"
  using assms(1)
proof cases
  case (rs_tried result t)
  have "explained (apply_effect r (result_effect d t result) (st\<lparr>h_tried := h_tried st @ [(r, result)]\<rparr>))"
    using assms(2) rs_tried(1) [OF assms(3)] rs_tried(2) [OF assms(3)]
    by (fastforce simp: result_effect_def explained_def handler split: option.splits)
  then show ?thesis by (simp add: same_locals_cong(3) [OF rs_tried(3)])
qed (use assms(2,3) in \<open>auto simp: same_locals_def explained_def handler batch_append_def\<close>)

lemma handle_rcpts_inv:
  assumes "handle_rcpts d msg rs st = Some st'" "accounted done (batched (h_batches st)) st" "dwf (h_batches st)" "tracked st"
  shows "accounted (rev rs @ done) (batched (h_batches st')) st'" "dwf (h_batches st')" "tracked st'"
    "timely d \<Longrightarrow> explained st \<Longrightarrow> explained st'"
proof -
  from assms have "accounted (rev rs @ done) (batched (h_batches st')) st' \<and> dwf (h_batches st') \<and> tracked st' \<and>
      (timely d \<longrightarrow> explained st \<longrightarrow> explained st')"
  proof (induction rs arbitrary: st "done")
    case (Cons r rs)
    then obtain st1 where st1: "handle_rcpt d msg r st = Some st1" "handle_rcpts d msg rs st1 = Some st'"
      by (auto split: option.splits)
    note step = handle_rcpt_step [OF st1(1)]
    show ?case
      using Cons.IH [OF st1(2) rcpt_step_accounted [OF step Cons.prems(2,3)] rcpt_step_tracked [OF step Cons.prems(4)]]
        rcpt_step_explained [OF step] by simp
  qed simp
  then show "accounted (rev rs @ done) (batched (h_batches st')) st'" "dwf (h_batches st')" "tracked st'"
    "timely d \<Longrightarrow> explained st \<Longrightarrow> explained st'" by auto
qed

text \<open>A batch moves its recipients out of the multiset of those that wait.\<close>
lemma handle_batch_items_inv:
  assumes "accounted rs (mset bs + rest) st" "tracked st" and "\<And>r e w. timely d \<Longrightarrow> results r = Some e \<Longrightarrow> as_deferred e = Some w \<Longrightarrow> 0 \<le> w"
  shows "accounted rs rest (handle_batch_items d msg results bs st) \<and> tracked (handle_batch_items d msg results bs st) \<and>
    (timely d \<longrightarrow> explained st \<longrightarrow> explained (handle_batch_items d msg results bs st))"
  using assms(1,2)
proof (induction bs arbitrary: st)
  case (Cons b bs)
  let ?h = "handle_result d msg (br_rcpt b) (br_domain b) (results (br_rcpt b)) st"
  let ?s = "release_lease (br_leased b) (br_domain b) ?h"
  note loc = handle_result_locals [of d msg "br_rcpt b" "br_domain b" "results (br_rcpt b)" st]
  have same: "same_locals ?s ?h" by simp
  have "rcpt_step d (br_rcpt b) st ?h" by (rule handle_result_step) (rule assms(3))
  from rcpt_step_same [OF this same_refl same] have step: "rcpt_step d (br_rcpt b) st ?s" .
  have "accounted (br_rcpt b # rs) (add_mset b (mset bs + rest)) ?s"
    using apply_effect_accounted [OF Cons.prems(1)] by (simp add: same_locals_cong(1) [OF same_trans [OF same loc]])
  then have "accounted rs (mset bs + rest) ?s" by (simp add: accounted_def)
  from Cons.IH [OF this rcpt_step_tracked [OF step Cons.prems(2)]] show ?case
    using rcpt_step_explained [OF step] by simp
qed simp

lemma handle_batches_inv:
  assumes "accounted rs (mset (concat bs)) st" "tracked st"
  shows "accounted rs {#} (handle_batches d msg bs st) \<and> tracked (handle_batches d msg bs st) \<and>
    (timely d \<longrightarrow> explained st \<longrightarrow> explained (handle_batches d msg bs st))"
  using assms
proof (induction bs arbitrary: st)
  case (Cons b bs)
  have t: "same_locals (tick st) st" by simp
  let ?s = "handle_batch_items d msg (dc_deliver_batch d (dp_tick st) msg (map br_rcpt b)) b (tick st)"
  have "accounted rs (mset (concat bs)) ?s \<and> tracked ?s \<and> (timely d \<longrightarrow> explained (tick st) \<longrightarrow> explained ?s)"
    by (rule handle_batch_items_inv) (use Cons.prems in \<open>simp_all add: same_locals_cong [OF t] timelyD(4)\<close>)
  then show ?case using Cons.IH [of ?s] by (simp add: same_locals_cong [OF t])
qed simp

lemma batches_mset:
  assumes "dwf (h_batches st)" "mset (dc_batch_order d (map fst (h_batches st))) = mset (map fst (h_batches st))"
  shows "mset (concat (batches_of d st)) = batched (h_batches st)"
proof -
  let ?f = "\<lambda>k. case map_of (h_batches st) k of None \<Rightarrow> [] | Some bs \<Rightarrow> bs"
  have sum: "mset (concat (map ?f xs)) = \<Sum>\<^sub># (image_mset (\<lambda>k. mset (?f k)) (mset xs))" for xs
    by (induction xs) auto
  have "map ?f (map fst (h_batches st)) = map snd (h_batches st)"
    using assms(1) by (auto simp: dwf_lookup [OF assms(1)] intro!: map_cong)
  then have "batched (h_batches st) = mset (concat (map ?f (map fst (h_batches st))))"
    by (simp only: batched_def)
  also have "\<dots> = mset (concat (map ?f (dc_batch_order d (map fst (h_batches st)))))"
    by (simp only: sum assms(2))
  finally show ?thesis by (simp only: batches_of_def)
qed

text \<open>What holds at the end of the two loops.\<close>
lemma attempt_all_inv:
  assumes "attempt_all d msg st = Some h" "\<And>ks. mset (dc_batch_order d ks) = mset ks"
  shows "accounted (rcpt_to msg) {#} h" "tracked h" "timely d \<Longrightarrow> explained h"
proof -
  define st0 where "st0 = begin_handling (if attempts msg = 0 then record_history d [[]] ''accepted'' [] st else st)"
  obtain h1 where h1: "handle_rcpts d msg (rcpt_to msg) st0 = Some h1" and h: "h = handle_batches d msg (batches_of d h1) h1"
    using assms(1) by (auto simp: attempt_all_def st0_def Let_def split: option.splits)
  have 0: "accounted [] (batched (h_batches st0)) st0" "dwf (h_batches st0)" "tracked st0" "explained st0"
    by (simp_all add: st0_def begin_handling_def dispatcher_state.defs accounted_def batched_def tracked_def kept_apart_def
        done_because_def unknown_failed_def explained_def)
  note inv = handle_rcpts_inv [OF h1 0(1-3)]
  have "accounted (rcpt_to msg) (mset (concat (batches_of d h1))) h1"
    using inv(1) by (simp add: batches_mset [OF inv(2) assms(2)] accounted_def)
  from handle_batches_inv [OF this inv(3), of d msg] inv(4) 0(4)
  show "accounted (rcpt_to msg) {#} h" "tracked h" "timely d \<Longrightarrow> explained h" by (simp_all add: h)
qed

end
