(* ===== verification/Dispatcher_Leases.thy ===== *)
theory Dispatcher_Leases
  imports Dispatcher_Facts
begin

text \<open>
  The leases of the domain throttle during \<^verbatim>\<open>handleMessage\<close>: what is taken is given back, and a
  message never waits for a slot that only it could free.
\<close>

section \<open>Slots\<close>

lemma slots_observe [simp]: "slots (dt_observe d x b) = slots d"
  using dt_step_slots [OF dt_observed] by blast

lemma slots_release:
  assumes "0 < slots d (domain_key x)"
  shows "slots (dt_release d x) = (slots d)(domain_key x := slots d (domain_key x) - 1)"
  using dt_step_slots [OF dt_released [where l = "slots d", OF assms] refl] .

lemma slots_acquire:
  assumes "dt_acquire d x = Some d'"
  shows "slots d' = (slots d)(domain_key x := slots d (domain_key x) + 1)"
  using dt_step_slots [OF dt_acquired [OF assms]] by blast

lemma slots_try:
  assumes "dt_try_lease c t d x = (d', g, w)"
  shows "slots d' = (if g then (slots d)(domain_key x := slots d (domain_key x) + 1) else slots d)"
proof (cases g)
  case True
  with assms have "\<not> c" by (auto simp: dt_try_lease_def)
  with True assms show ?thesis using dt_step_slots [OF dt_granted] by simp
next
  case False
  with assms show ?thesis using dt_step_slots [OF dt_refused] by simp
qed

lemma try_wait: "dt_try_lease c t d x = (d', g, w) \<Longrightarrow> 0 < w \<longleftrightarrow> \<not> g"
  by (auto simp: dt_try_lease_def Let_def second_def millisecond_def split: if_splits)

lemma acquire_free:
  assumes "dt_wf d" "slots d (domain_key x) = 0"
  shows "dt_acquire d x \<noteq> None"
proof -
  have "state_ok d (domain_key x, snd (dt_get d (domain_key x)))"
    using dt_get_wf(2) [OF assms(1), of "domain_key x"] by (simp add: state_ok_def)
  moreover have "0 < dt_limit d (domain_key x)" using assms(1) by (auto simp: dt_limit_def dt_wf_def split: option.split)
  ultimately have "ds_in_use (snd (dt_get d (domain_key x))) < ds_limit (snd (dt_get d (domain_key x)))"
    using assms(2) by (simp add: slots_here state_ok_def)
  then show ?thesis by (simp add: dt_acquire_def Let_def)
qed

section \<open>The handler's leases\<close>

definition leased_at :: "string \<Rightarrow> batch_recipient multiset \<Rightarrow> nat" where
  "leased_at k bs = size (filter_mset (\<lambda>b. br_leased b \<and> domain_key (br_domain b) = k) bs)"

lemma leased_at_add: "leased_at k (add_mset b bs) = leased_at k bs + (if br_leased b \<and> domain_key (br_domain b) = k then 1 else 0)"
  by (simp add: leased_at_def)

text \<open>The slots in use are those at the start and one for each lease that waits in a batch.\<close>
definition balanced :: "(string \<Rightarrow> nat) \<Rightarrow> batch_recipient multiset \<Rightarrow> ('s, 'p) handling \<Rightarrow> bool" where
  "balanced base bs st \<longleftrightarrow> dt_wf (dp_throttle st) \<and> (\<forall>k. slots (dp_throttle st) k = base k + leased_at k bs)"

lemma local_throttle [simp]:
  "dp_throttle (keep_rcpt r st) = dp_throttle st" "dp_throttle (finish_rcpt r c st) = dp_throttle st"
  "dp_throttle (fail_rcpt r e x st) = dp_throttle st" "dp_throttle (add_reason r x st) = dp_throttle st"
  "dp_throttle (defer_until t st) = dp_throttle st" "dp_throttle (batch_append k b st) = dp_throttle st"
  "dp_throttle (snd (admit_reputation d x st)) = dp_throttle st"
  "dp_throttle (snd (check_pause d msg r x st)) = dp_throttle st"
  by (simp_all add: handler batch_append_def admit_reputation_def check_pause_def Let_def split: option.split)

lemma handle_result_throttle:
  "dp_throttle (handle_result d msg r x result st) \<in> {dp_throttle st, dt_observe (dp_throttle st) x True, dt_observe (dp_throttle st) x False}"
  by (auto simp: handle_result_def handle_success_def handle_permanent_def handle_temporary_def Let_def split: option.split)

lemma handle_result_balanced: "balanced base bs (handle_result d msg r x result st) \<longleftrightarrow> balanced base bs st"
  if "dt_wf (dp_throttle st)"
  using handle_result_throttle [of d msg r x result st] that by (auto simp: balanced_def dt_observe_wf)

lemma check_pause_batches [simp]:
  "h_batches (snd (check_pause d msg r x st)) = h_batches st" "h_lease_held (snd (check_pause d msg r x st)) = h_lease_held st"
  by (simp_all add: check_pause_def handler split: option.split)

lemma admit_reputation_batches [simp]:
  "h_batches (snd (admit_reputation d x st)) = h_batches st" "h_lease_held (snd (admit_reputation d x st)) = h_lease_held st"
  by (simp_all add: admit_reputation_def Let_def split: option.split)

lemma handle_result_batches [simp]:
  "h_batches (handle_result d msg r x result st) = h_batches st" "h_lease_held (handle_result d msg r x result st) = h_lease_held st"
  by (simp_all add: handle_result_def handle_success_def handle_permanent_def handle_temporary_def handler Let_def split: option.split)

text \<open>An attempt keeps the throttle in balance and either leaves the batches alone or adds the recipient with its lease.\<close>
lemma attempt_rcpt_lease:
  assumes "dt_wf (dp_throttle st)" "dwf (h_batches st)"
  shows "balanced base bs (snd (attempt_rcpt d msg r x q st)) \<longleftrightarrow> balanced base bs st"
    "batched (h_batches (snd (attempt_rcpt d msg r x q st))) =
      (if fst (attempt_rcpt d msg r x q st) then add_mset \<lparr>br_rcpt = r, br_domain = x, br_leased = q\<rparr> (batched (h_batches st))
       else batched (h_batches st))"
    "h_lease_held (snd (attempt_rcpt d msg r x q st)) = (if fst (attempt_rcpt d msg r x q st) then x # h_lease_held st else h_lease_held st)"
  using assms
  by (auto simp: attempt_rcpt_def Let_def handle_result_balanced batch_append_def batched_dput handler split: option.split)
     (auto simp: balanced_def)

lemma attempt_rcpt_batched: "fst (attempt_rcpt d msg r x q st) \<Longrightarrow> dc_batch_key d r \<noteq> None"
  by (auto simp: attempt_rcpt_def Let_def split: if_splits option.splits)

lemma balanced_cong: "dp_throttle a = dp_throttle b \<Longrightarrow> balanced base bs a = balanced base bs b"
  by (simp add: balanced_def)

text \<open>The lease of a recipient: the slot it takes, if it takes one.\<close>
lemma take_lease_balanced:
  assumes "balanced base bs st" "fst (take_lease d x b st) \<noteq> LeaseBlocked"
  shows "dt_wf (dp_throttle (snd (take_lease d x b st)))"
    "slots (dp_throttle (snd (take_lease d x b st))) k =
       base k + leased_at k bs + (if fst (take_lease d x b st) = LeaseHeld \<and> domain_key x = k then 1 else 0)"
proof -
  obtain d' g w where r: "dt_try_lease (w_done (moment_of d st)) (w_now (moment_of d st)) (dp_throttle st) x = (d', g, w)"
    by (metis prod.collapse)
  note s = slots_try [OF r] and w = try_wait [OF r]
  have "dt_wf (dp_throttle (snd (take_lease d x b st))) \<and>
    slots (dp_throttle (snd (take_lease d x b st))) k =
       base k + leased_at k bs + (if fst (take_lease d x b st) = LeaseHeld \<and> domain_key x = k then 1 else 0)"
    using assms dt_try_wf' [OF r] s w
    by (auto simp: take_lease_def r Let_def balanced_def slots_acquire dt_acquire_wf split: option.splits)
  then show "dt_wf (dp_throttle (snd (take_lease d x b st)))"
    "slots (dp_throttle (snd (take_lease d x b st))) k =
       base k + leased_at k bs + (if fst (take_lease d x b st) = LeaseHeld \<and> domain_key x = k then 1 else 0)" by auto
qed

lemma take_lease_batches [simp]:
  "h_batches (snd (take_lease d x b st)) = h_batches st" "h_lease_held (snd (take_lease d x b st)) = h_lease_held st"
  by (simp_all add: take_lease_def Let_def split: option.split)

lemma release_balanced:
  assumes "dt_wf (dp_throttle st)" "\<And>k. slots (dp_throttle st) k = base k + leased_at k bs + (if q \<and> domain_key x = k then 1 else 0)"
  shows "balanced base bs (release_lease q x st)"
proof (cases q)
  case True
  then have "0 < slots (dp_throttle st) (domain_key x)" using assms(2) by simp
  from slots_release [OF this] show ?thesis using True assms by (simp add: release_lease_def balanced_def dt_release_wf)
qed (use assms in \<open>simp add: release_lease_def balanced_def\<close>)

lemma balanced_upd [simp]:
  "balanced base bs (tick st) = balanced base bs st" "balanced base bs (record_history d rs x y st) = balanced base bs st"
  "balanced base bs (defer_until t st) = balanced base bs st" "balanced base bs (keep_rcpt r st) = balanced base bs st"
  "balanced base bs (st\<lparr>h_until := t\<rparr>) = balanced base bs st" "balanced base bs (snd (check_pause d msg r x st)) = balanced base bs st"
  by (simp_all add: balanced_def)

lemma handle_rcpt_balanced:
  assumes "handle_rcpt d msg r st = Some st'" "balanced base (batched (h_batches st)) st" "dwf (h_batches st)"
  shows "balanced base (batched (h_batches st')) st'"
proof (cases "w_done (moment_of d st) \<and> (dc_shaping d \<or> dc_has_pauses d)")
  case True
  then have "st' = tick ((keep_rcpt r st)\<lparr>h_until := w_now (moment_of d st) + second\<rparr>)"
    using assms(1) by (simp add: handle_rcpt_def)
  with assms(2) show ?thesis by (simp add: handler balanced_def)
next
  case nd: False
  let ?x = "domain_or_empty r"
  let ?c = "check_pause d msg r ?x (tick st)"
  show ?thesis
  proof (cases "fst ?c")
    case True
    then have "st' = record_history d [r] ''deferred'' ''pause'' (snd ?c)" using assms(1) nd by (simp add: handle_rcpt_def Let_def)
    with assms(2) show ?thesis by simp
  next
    case nc: False
    let ?l = "take_lease d ?x (dc_batch_key d r \<noteq> None) (snd ?c)"
    note st' = assms(1) [unfolded handle_rcpt_def Let_def]
    have nb: "fst ?l \<noteq> LeaseBlocked" using st' nd nc by auto
    have bal: "balanced base (batched (h_batches st)) (snd ?c)" using assms(2) by simp
    note tl = take_lease_balanced [OF bal nb]
    show ?thesis
    proof (cases "\<exists>w. fst ?l = LeaseWait w")
      case True
      then show ?thesis using st' nd nc tl by (auto simp: balanced_def handler)
    next
      case nw: False
      define q where "q = (fst ?l = LeaseHeld)"
      define a where "a = attempt_rcpt d msg r ?x q (snd ?l)"
      have s': "st' = release_lease (q \<and> \<not> fst a) ?x (snd a)"
        using st' nd nc nw by (cases "fst ?l") (auto simp: q_def a_def)
      have dl: "dwf (h_batches (snd ?l))" using assms(3) by simp
      have "balanced (\<lambda>k. base k + (if q \<and> domain_key ?x = k then 1 else 0)) (batched (h_batches st)) (snd ?l)"
        using tl by (simp add: balanced_def q_def)
      then have ba: "balanced (\<lambda>k. base k + (if q \<and> domain_key ?x = k then 1 else 0)) (batched (h_batches st)) (snd a)"
        unfolding a_def by (rule attempt_rcpt_lease(1) [OF tl(1) dl, THEN iffD2])
      have bs: "batched (h_batches (snd a)) =
          (if fst a then add_mset \<lparr>br_rcpt = r, br_domain = ?x, br_leased = q\<rparr> (batched (h_batches st)) else batched (h_batches st))"
        using attempt_rcpt_lease(2) [OF tl(1) dl, of d msg r ?x q] by (simp add: a_def)
      have hb: "h_batches st' = h_batches (snd a)" by (simp add: s' release_lease_def)
      show ?thesis unfolding hb bs unfolding s'
        by (rule release_balanced) (use ba in \<open>auto simp: balanced_def leased_at_add\<close>)
    qed
  qed
qed

text \<open>The loops: leases that wait in batches are given back after the batch.\<close>
lemma handle_rcpts_balanced:
  "handle_rcpts d msg rs st = Some st' \<Longrightarrow> balanced base (batched (h_batches st)) st \<Longrightarrow> dwf (h_batches st) \<Longrightarrow> accounted seen (batched (h_batches st)) st
    \<Longrightarrow> balanced base (batched (h_batches st')) st'"
proof (induction rs arbitrary: st seen)
  case (Cons r rs)
  then obtain st1 where st1: "handle_rcpt d msg r st = Some st1" "handle_rcpts d msg rs st1 = Some st'"
    by (auto split: option.splits)
  note a = rcpt_step_accounted [OF handle_rcpt_step [OF st1(1)] Cons.prems(4,3)]
  show ?case by (rule Cons.IH [OF st1(2) handle_rcpt_balanced [OF st1(1) Cons.prems(2,3)] a(2,1)])
qed simp

lemma handle_batch_items_balanced:
  "balanced base (mset bs + rest) st \<Longrightarrow> balanced base rest (handle_batch_items d msg results bs st)"
proof (induction bs arbitrary: st)
  case (Cons b bs)
  let ?h = "handle_result d msg (br_rcpt b) (br_domain b) (results (br_rcpt b)) st"
  have "dt_wf (dp_throttle st)" using Cons.prems by (simp add: balanced_def)
  then have "balanced base (add_mset b (mset bs + rest)) ?h"
    using Cons.prems by (simp add: handle_result_balanced)
  then have "balanced base (mset bs + rest) (release_lease (br_leased b) (br_domain b) ?h)"
    by (intro release_balanced) (auto simp: balanced_def leased_at_add)
  from Cons.IH [OF this] show ?case by simp
qed simp

lemma handle_batches_balanced:
  "balanced base (mset (concat bs)) st \<Longrightarrow> balanced base {#} (handle_batches d msg bs st)"
  by (induction bs arbitrary: st) (simp_all add: handle_batch_items_balanced)

lemma attempt_all_balanced:
  assumes "attempt_all d msg st = Some h" "\<And>ks. mset (dc_batch_order d ks) = mset ks" "dt_wf (dp_throttle st)"
  shows "dt_wf (dp_throttle h)" "slots (dp_throttle h) = slots (dp_throttle st)"
proof -
  define st0 where "st0 = begin_handling (if attempts msg = 0 then record_history d [[]] ''accepted'' [] st else st)"
  obtain h1 where h1: "handle_rcpts d msg (rcpt_to msg) st0 = Some h1" and h: "h = handle_batches d msg (batches_of d h1) h1"
    using assms(1) by (auto simp: attempt_all_def st0_def Let_def split: option.splits)
  have th: "dp_throttle st0 = dp_throttle st"
    by (simp add: st0_def begin_handling_def dispatcher_state.defs record_history_def)
  have 0: "h_batches st0 = []" "accounted [] (batched (h_batches st0)) st0" "tracked st0"
    by (simp_all add: st0_def begin_handling_def dispatcher_state.defs accounted_def batched_def tracked_def kept_apart_def
        done_because_def unknown_failed_def)
  have d0: "dwf (h_batches st0)" by (simp add: 0)
  have "balanced (slots (dp_throttle st)) (batched (h_batches st0)) st0"
    using assms(3) by (simp add: balanced_def th 0 batched_def leased_at_def)
  from handle_rcpts_balanced [OF h1 this d0 0(2)]
  have "balanced (slots (dp_throttle st)) (batched (h_batches h1)) h1" .
  then have "balanced (slots (dp_throttle st)) {#} h"
    using batches_mset [OF handle_rcpts_inv(2) [OF h1 0(2) d0 0(3)] assms(2)]
    unfolding h by (intro handle_batches_balanced) simp
  then show "dt_wf (dp_throttle h)" "slots (dp_throttle h) = slots (dp_throttle st)"
    by (auto simp: balanced_def leased_at_def)
qed

section \<open>The handler does not wait for itself\<close>

text \<open>The recipients of a batch come from domains the handler has noted as leased.\<close>
definition batch_domains :: "('e, 's, 'v, 'p) dispatcher \<Rightarrow> ('s, 'p) handling \<Rightarrow> bool" where
  "batch_domains d st \<longleftrightarrow> (\<forall>b \<in># batched (h_batches st). br_domain b \<in> set (h_lease_held st) \<and> br_domain b = domain_or_empty (br_rcpt b) \<and>
     dc_batch_key d (br_rcpt b) \<noteq> None \<and> domain_key (br_domain b) = br_domain b)"

lemma batch_domains_cong:
  "h_batches a = h_batches b \<Longrightarrow> h_lease_held a = h_lease_held b \<Longrightarrow> batch_domains d a = batch_domains d b"
  by (simp add: batch_domains_def)

text \<open>Whether a recipient can share a delivery depends on its domain, as in \<^verbatim>\<open>BatchKey\<close>.\<close>
definition batch_by_domain :: "('e, 's, 'v, 'p) dispatcher \<Rightarrow> bool" where
  "batch_by_domain d \<longleftrightarrow> (\<forall>r r'. domain_or_empty r = domain_or_empty r' \<longrightarrow> (dc_batch_key d r = None \<longleftrightarrow> dc_batch_key d r' = None))"

lemma take_lease_free:
  assumes "balanced (\<lambda>_. 0) (batched (h_batches st)) st" "batch_domains d st" "batch_by_domain d"
    and "domain_key (domain_or_empty r) = domain_or_empty r"
  shows "fst (take_lease d (domain_or_empty r) (dc_batch_key d r \<noteq> None) st) \<noteq> LeaseBlocked"
proof (cases "slots (dp_throttle st) (domain_or_empty r) = 0")
  case True
  then have "dt_acquire (dp_throttle st) (domain_or_empty r) \<noteq> None"
    using acquire_free assms(1,4) by (simp add: balanced_def)
  then show ?thesis by (auto simp: take_lease_def Let_def)
next
  case False
  then have "leased_at (domain_or_empty r) (batched (h_batches st)) \<noteq> 0" using assms(1) by (simp add: balanced_def)
  then have "filter_mset (\<lambda>b. br_leased b \<and> domain_key (br_domain b) = domain_or_empty r) (batched (h_batches st)) \<noteq> {#}"
    unfolding leased_at_def by simp
  then obtain b where "b \<in># filter_mset (\<lambda>b. br_leased b \<and> domain_key (br_domain b) = domain_or_empty r) (batched (h_batches st))"
    by (rule multiset_nonemptyE)
  then have b: "b \<in># batched (h_batches st)" "domain_key (br_domain b) = domain_or_empty r" by simp_all
  then have h: "br_domain b \<in> set (h_lease_held st)" "br_domain b = domain_or_empty (br_rcpt b)" "dc_batch_key d (br_rcpt b) \<noteq> None"
    "domain_key (br_domain b) = br_domain b"
    using assms(2) unfolding batch_domains_def by blast+
  have same: "br_domain b = domain_or_empty r" using h(4) b(2) by (rule trans [OF sym])
  have "dc_batch_key d r = None \<longleftrightarrow> dc_batch_key d (br_rcpt b) = None"
    using assms(3) same h(2) unfolding batch_by_domain_def by metis
  with h(1,3) same have "dc_batch_key d r \<noteq> None" "domain_or_empty r \<in> set (h_lease_held st)" by simp_all
  then show ?thesis by (simp add: take_lease_def)
qed

lemma handle_rcpt_free:
  assumes "balanced (\<lambda>_. 0) (batched (h_batches st)) st" "batch_domains d st" "batch_by_domain d" "dwf (h_batches st)"
    and "domain_key (domain_or_empty r) = domain_or_empty r"
  shows "\<exists>st'. handle_rcpt d msg r st = Some st' \<and> batch_domains d st'"
proof (cases "w_done (moment_of d st) \<and> (dc_shaping d \<or> dc_has_pauses d)")
  case True
  then show ?thesis using assms(2) by (auto simp: handle_rcpt_def batch_domains_def handler)
next
  case nd: False
  let ?x = "domain_or_empty r"
  let ?c = "check_pause d msg r ?x (tick st)"
  let ?l = "take_lease d ?x (dc_batch_key d r \<noteq> None) (snd ?c)"
  have bal: "balanced (\<lambda>_. 0) (batched (h_batches (snd ?c))) (snd ?c)" using assms(1) by simp
  have bd: "batch_domains d (snd ?c)" using assms(2) batch_domains_cong [of st "snd ?c" d] by simp
  note nb = take_lease_free [OF bal bd assms(3,5)]
  have "batch_domains d (release_lease q' ?x (snd (attempt_rcpt d msg r ?x q (snd ?l))))" for q q'
    using attempt_rcpt_lease(2,3) [OF take_lease_balanced(1) [OF bal nb], of d msg r ?x q] attempt_rcpt_batched [of d msg r ?x q "snd ?l"]
      assms(2,4,5) by (auto simp: batch_domains_def release_lease_def split: if_splits)
  moreover have "batch_domains d (record_history d [r] x y (snd ?c))" for x y
    using bd batch_domains_cong [of "record_history d [r] x y (snd ?c)" "snd ?c" d] by simp
  moreover have "batch_domains d (defer_until t (tick (keep_rcpt r (record_history d [r] x y (snd ?l)))))" for t x y
    using bd batch_domains_cong [of "defer_until t (tick (keep_rcpt r (record_history d [r] x y (snd ?l))))" "snd ?c" d]
    by (simp add: handler)
  ultimately show ?thesis using nb nd by (cases "fst ?l"; cases "fst ?c") (auto simp: handle_rcpt_def Let_def)
qed

lemma handle_rcpts_free:
  assumes "balanced (\<lambda>_. 0) (batched (h_batches st)) st" "batch_domains d st" "batch_by_domain d" "dwf (h_batches st)"
    "accounted seen (batched (h_batches st)) st" and "\<forall>r \<in> set rs. domain_key (domain_or_empty r) = domain_or_empty r"
  shows "handle_rcpts d msg rs st \<noteq> None"
  using assms
proof (induction rs arbitrary: st seen)
  case (Cons r rs)
  obtain st1 where st1: "handle_rcpt d msg r st = Some st1" "batch_domains d st1"
    using handle_rcpt_free [OF Cons.prems(1-4), of r msg] Cons.prems(6) by auto
  note a = rcpt_step_accounted [OF handle_rcpt_step [OF st1(1)] Cons.prems(5,4)]
  have "handle_rcpts d msg rs st1 \<noteq> None"
    by (rule Cons.IH [OF handle_rcpt_balanced [OF st1(1) Cons.prems(1,4)] st1(2) Cons.prems(3) a(2,1)]) (use Cons.prems(6) in simp)
  with st1(1) show ?case by simp
qed simp

lemma attempt_all_free:
  assumes "dt_wf (dp_throttle st)" "\<forall>k. slots (dp_throttle st) k = 0" "batch_by_domain d"
    and "\<forall>r \<in> set (rcpt_to msg). domain_key (domain_or_empty r) = domain_or_empty r"
  shows "attempt_all d msg st \<noteq> None"
proof -
  define st0 where "st0 = begin_handling (if attempts msg = 0 then record_history d [[]] ''accepted'' [] st else st)"
  have th: "dp_throttle st0 = dp_throttle st"
    by (simp add: st0_def begin_handling_def dispatcher_state.defs record_history_def)
  have 0: "h_batches st0 = []" "accounted [] {#} st0"
    by (simp_all add: st0_def begin_handling_def dispatcher_state.defs accounted_def)
  have "handle_rcpts d msg (rcpt_to msg) st0 \<noteq> None"
    by (rule handle_rcpts_free [where seen = "[]"])
       (use assms 0 th in \<open>simp_all add: balanced_def batch_domains_def batched_def leased_at_def\<close>)
  then show ?thesis by (auto simp: attempt_all_def Let_def st0_def [symmetric] split: option.split)
qed

end
