(* ===== verification/Dispatcher_Safety.thy ===== *)
theory Dispatcher_Safety
  imports Dispatcher_Leases
begin

text \<open>
  What the dispatcher does to its queue, for every backend that keeps the contract of
  \<open>queue_backend\<close>: no call of \<^verbatim>\<open>handleMessage\<close> drops a message the queue holds.
\<close>

lemma queue_frame [simp]:
  "dp_queue (tick st) = dp_queue st" "dp_queue (publish_event d r x c st) = dp_queue st"
  "dp_queue (record_history d rs x c st) = dp_queue st" "dp_queue (observe_reputation d x a b st) = dp_queue st"
  "dp_queue (observe_responses d x e st) = dp_queue st" "dp_queue (suppress_rcpt d r y st) = dp_queue st"
  "dp_queue (observe_throttle x a st) = dp_queue st"
  by (simp_all add: tick_def publish_event_def record_history_def observe_reputation_def observe_responses_def suppress_rcpt_def
      observe_throttle_def Let_def split: option.split)

lemma local_queue_frame [simp]:
  "dp_queue (keep_rcpt r st) = dp_queue st" "dp_queue (finish_rcpt r c st) = dp_queue st"
  "dp_queue (fail_rcpt r e x st) = dp_queue st" "dp_queue (add_reason r x st) = dp_queue st"
  "dp_queue (defer_until t st) = dp_queue st" "dp_queue (batch_append k br st) = dp_queue st"
  "dp_queue (snd (admit_reputation d x st)) = dp_queue st" "dp_queue (snd (take_lease d x b st)) = dp_queue st"
  "dp_queue (release_lease q x st) = dp_queue st"
  by (simp_all add: handler batch_append_def admit_reputation_def take_lease_def release_lease_def Let_def split: option.split)

context queue_backend
begin

lemma enqueue_dsn_keeps: "dc_backend d = be \<Longrightarrow> holds (dp_queue st) i \<Longrightarrow> holds (dp_queue (enqueue_dsn d dsn st)) i"
  by (simp add: enqueue_dsn_def enqueue_keeps split: sum.split)

lemma emit_keeps:
  assumes "dc_backend d = be" "holds (dp_queue st) i"
  shows "holds (dp_queue (emit_hard_bounce_dsn d msg r x st)) i" "holds (dp_queue (emit_soft_bounce_dsn d msg r x st)) i"
    "holds (dp_queue (emit_success_dsn d msg r st)) i"
  using assms by (simp_all add: emit_hard_bounce_dsn_def emit_soft_bounce_dsn_def emit_success_dsn_def enqueue_dsn_keeps)

lemma handle_result_keeps:
  "dc_backend d = be \<Longrightarrow> holds (dp_queue st) i \<Longrightarrow> holds (dp_queue (handle_result d msg r x result st)) i"
  by (simp add: handle_result_def handle_success_def handle_permanent_def handle_temporary_def emit_keeps Let_def split: option.split)

lemma check_pause_keeps:
  "dc_backend d = be \<Longrightarrow> holds (dp_queue st) i \<Longrightarrow> holds (dp_queue (snd (check_pause d msg r x st))) i"
  by (simp add: check_pause_def emit_keeps split: option.split)

lemma attempt_rcpt_keeps:
  "dc_backend d = be \<Longrightarrow> holds (dp_queue st) i \<Longrightarrow> holds (dp_queue (snd (attempt_rcpt d msg r x q st))) i"
  by (simp add: attempt_rcpt_def check_pause_keeps handle_result_keeps Let_def split: option.split)

lemma handle_rcpt_keeps:
  assumes "dc_backend d = be" "holds (dp_queue st) i" "handle_rcpt d msg r st = Some st'"
  shows "holds (dp_queue st') i"
  using assms
  by (auto simp: handle_rcpt_def Let_def check_pause_keeps attempt_rcpt_keeps split: if_splits lease_result.splits)

lemma handle_rcpts_keeps:
  "dc_backend d = be \<Longrightarrow> holds (dp_queue st) i \<Longrightarrow> handle_rcpts d msg rs st = Some st' \<Longrightarrow> holds (dp_queue st') i"
proof (induction rs arbitrary: st)
  case (Cons r rs)
  then obtain st1 where "handle_rcpt d msg r st = Some st1" "handle_rcpts d msg rs st1 = Some st'" by (auto split: option.splits)
  with Cons show ?case using handle_rcpt_keeps by metis
qed simp

lemma handle_batch_items_keeps:
  "dc_backend d = be \<Longrightarrow> holds (dp_queue st) i \<Longrightarrow> holds (dp_queue (handle_batch_items d msg res bs st)) i"
  by (induction bs arbitrary: st) (simp_all add: handle_result_keeps)

lemma handle_batches_keeps:
  "dc_backend d = be \<Longrightarrow> holds (dp_queue st) i \<Longrightarrow> holds (dp_queue (handle_batches d msg bs st)) i"
  by (induction bs arbitrary: st) (simp_all add: handle_batch_items_keeps)

lemma attempt_all_keeps:
  assumes "dc_backend d = be" "holds (dp_queue st) i" "attempt_all d msg st = Some h"
  shows "holds (dp_queue h) i"
proof -
  define st0 where "st0 = begin_handling (if attempts msg = 0 then record_history d [[]] ''accepted'' [] st else st)"
  have "dp_queue st0 = dp_queue st" by (simp add: st0_def begin_handling_def dispatcher_state.defs record_history_def)
  moreover obtain h1 where "handle_rcpts d msg (rcpt_to msg) st0 = Some h1" "h = handle_batches d msg (batches_of d h1) h1"
    using assms(3) by (auto simp: attempt_all_def st0_def Let_def split: option.splits)
  ultimately show ?thesis using handle_rcpts_keeps [OF assms(1)] handle_batches_keeps [OF assms(1)] assms(2) by metis
qed

lemma bounce_failed_keeps:
  "dc_backend d = be \<Longrightarrow> holds (dp_queue st) i \<Longrightarrow> holds (dp_queue (bounce_failed d msg rs st)) i"
  by (induction rs arbitrary: st) (simp_all add: emit_keeps split: option.split)

lemma persist_keeps: "dc_backend d = be \<Longrightarrow> holds (dp_queue st) i \<Longrightarrow> holds (dp_queue (persist d msg v st)) i"
  by (simp add: persist_def keeps bounce_failed_keeps Let_def split: verdict.split)

lemma handle_message_keeps:
  assumes "dc_backend d = be" "holds (dp_queue st) i" "handle_message d msg st = Some st'"
  shows "holds (dp_queue st') i"
  using assms(3) persist_keeps [OF assms(1)] attempt_all_keeps [OF assms(1,2)]
  by (auto simp: handle_message_def dispatcher_state.defs split: option.splits)

lemma handle_messages_keeps:
  "dc_backend d = be \<Longrightarrow> holds (dp_queue st) i \<Longrightarrow> handle_messages d ms st = Some st' \<Longrightarrow> holds (dp_queue st') i"
proof (induction ms arbitrary: st)
  case (Cons m ms)
  then obtain st1 where "handle_message d m st = Some st1" "handle_messages d ms st1 = Some st'" by (auto split: option.splits)
  with Cons show ?case using handle_message_keeps by metis
qed simp

end

context pause_contract
begin

text \<open>A pause that is in force ends after the clock of its store, so a handler with sane clocks is timely.\<close>
lemma timelyI:
  assumes "dc_pauses d = ps" "\<And>n. zero_time < w_now (dc_world d n)" "\<And>n. zero_time \<le> pclock (w_pause (dc_world d n))"
    and "\<And>n m r e w. dc_deliver d n m r = Some e \<Longrightarrow> as_deferred e = Some w \<Longrightarrow> 0 \<le> w"
    and "\<And>n m rs r e w. dc_deliver_batch d n m rs r = Some e \<Longrightarrow> as_deferred e = Some w \<Longrightarrow> 0 \<le> w"
  shows "timely d"
proof -
  have "zero_time < u" if h: "pause_hold d x st = Some u" for x st u
  proof (cases "ps_lookup ps (w_pause (moment_of d st)) (dp_pauses st) x")
    case (Inl e)
    then show ?thesis using h assms(1) assms(2) [of "dp_tick st"]
      by (auto simp: pause_hold_def Let_def second_def split: if_splits)
  next
    case (Inr e)
    have "pe_domain e \<noteq> [] \<Longrightarrow> zero_time < pe_expires_at e"
      using lookup_unexpired [OF Inr] assms(3) [of "dp_tick st"] by simp
    then show ?thesis using h Inr assms(1) assms(2) [of "dp_tick st"]
      by (auto simp: pause_hold_def Let_def second_def split: if_splits)
  qed
  with assms(2,4,5) show ?thesis unfolding timely_def by blast
qed

end

section \<open>The decision\<close>

lemma decide_ack_done:
  assumes "decide d msg h = VAck" "explained h"
  shows "h_remaining h = []"
  using assms by (auto simp: decide_def explained_def Let_def split: if_splits)

lemma should_fail_errs_unknown: "e \<in> set es \<Longrightarrow> is_unknown e \<Longrightarrow> should_fail_errs es a b"
  by (induction es a b rule: should_fail_errs.induct) (auto split: option.split)

lemma should_fail_errs_iff:
  "should_fail_errs es a b \<longleftrightarrow> (\<exists>e \<in> set es. is_unknown e) \<or>
     \<not> a \<and> (\<forall>e \<in> set es. \<exists>r. as_smtp e = Some r \<and> \<not> sr_temporary r) \<and>
     (b \<or> (\<exists>e \<in> set es. \<exists>r. as_smtp e = Some r \<and> sr_permanent r))"
  by (induction es a b rule: should_fail_errs.induct) (auto split: option.splits)

definition verdict_rcpts :: "verdict \<Rightarrow> string list" where
  "verdict_rcpts v = (case v of VDefer rs _ \<Rightarrow> rs | VAck \<Rightarrow> [] | VHold rs _ \<Rightarrow> rs | VFail _ _ \<Rightarrow> [] | VRetry rs _ _ \<Rightarrow> rs)"

lemma failed_paused_disjoint:
  assumes "accounted rs {#} h" "tracked h" "distinct rs" "r \<in> set (h_paused h)"
  shows "\<not> is_failed h r"
proof
  assume "is_failed h r"
  then have f: "r \<in># mset (map fst (h_failed h))" by (force simp: is_failed_def map_of_eq_None_iff)
  have "mset (h_paused h) + mset (map fst (h_failed h)) \<subseteq># mset rs"
    using assms(1,2) unfolding accounted_def tracked_def kept_apart_def
    by (metis add.commute add.right_neutral image_mset_empty mset_subset_eq_add_right subset_mset.order_trans)
  then have "count (mset (h_paused h)) r + count (mset (map fst (h_failed h))) r \<le> count (mset rs) r"
    by (metis count_union mset_subset_eq_count)
  moreover have "1 \<le> count (mset (h_paused h)) r" "1 \<le> count (mset (map fst (h_failed h))) r"
    using assms(4) f by (simp_all add: Suc_leI)
  moreover have "count (mset rs) r \<le> 1" using assms(3) by (simp add: distinct_count_atmost_1)
  ultimately show False by linarith
qed

lemma paused_remaining: "tracked h \<Longrightarrow> r \<in> set (h_paused h) \<Longrightarrow> r \<in> set (h_remaining h)"
  unfolding tracked_def kept_apart_def by (meson in_multiset_in_set mset_subset_eqD union_iff)

end
