(* ===== verification/Dispatcher_Claims.thy ===== *)
theory Dispatcher_Claims
  imports Dispatcher_Safety Queue_Claims
begin

text \<open>
  The properties of the dispatcher. The witnesses run it on the local queue with the local pause
  store and a delivery client that answers with a fixed result.
\<close>

section \<open>A concrete dispatcher\<close>

definition w_world :: "nat \<Rightarrow> (env, pause_env) moment" where
  "w_world n = \<lparr>w_now = 1000 + int n, w_queue = w_env, w_pause = w_pv, w_done = False, w_save_fails = False\<rparr>"

definition w_disp :: "derror option \<Rightarrow> (env, store, pause_env, pause_local) dispatcher" where
  "w_disp result =
     \<lparr>dc_backend = local_backend, dc_has_pauses = True, dc_pauses = local_pauses, dc_hostname = ''mx'', dc_date = (\<lambda>_. ''now''),
      dc_err_text = (\<lambda>_. ''error''), dc_max_attempts = 5, dc_max_retry_age = 0, dc_retry_schedule = [60, 120], dc_shaping = False,
      dc_worker_count = 2, dc_events = True, dc_history = True, dc_batch_key = (\<lambda>_. None), dc_deliver = (\<lambda>_ _ _. result),
      dc_deliver_batch = (\<lambda>_ _ _ _. result), dc_batch_order = (\<lambda>ks. ks), dc_world = w_world\<rparr>"

definition w_disp_msg :: message where
  "w_disp_msg = (new_message ''a'')\<lparr>mail_from := ''s@h.example'', rcpt_to := [''u@x.example'', ''v@y.example'']\<rparr>"

definition w_disp_st :: "(store, pause_local) dispatcher_state" where
  "w_disp_st = \<lparr>dp_queue = w_store1, dp_pauses = w_pause0, dp_sup = None, dp_throttle = w_dt, dp_rep = None, dp_responses = None,
     dp_fair = None, dp_log = [], dp_tick = 0\<rparr>"

lemma w_disp_fields [simp]:
  "dc_backend (w_disp x) = local_backend" "dc_pauses (w_disp x) = local_pauses" "dc_batch_key (w_disp x) r = None"
  "dc_batch_order (w_disp x) ks = ks" "dc_world (w_disp x) = w_world" "dc_deliver (w_disp x) n m r = x"
  "dc_deliver_batch (w_disp x) n m rs r = x" "dp_throttle w_disp_st = w_dt" "rcpt_to w_disp_msg = [''u@x.example'', ''v@y.example'']"
  by (simp_all add: w_disp_def w_disp_st_def w_disp_msg_def)

lemma w_dt_idle: "dt_wf w_dt" "slots w_dt k = 0"
  by (simp_all add: w_dt_def new_throttle_wf) (simp add: new_local_domain_throttle_def slots_def)

lemma w_domains: "\<forall>r \<in> set (rcpt_to w_disp_msg). domain_key (domain_or_empty r) = domain_or_empty r"
proof -
  have "domain_key (domain_or_empty ''u@x.example'') = domain_or_empty ''u@x.example''"
    "domain_key (domain_or_empty ''v@y.example'') = domain_or_empty ''v@y.example''" by code_simp+
  then show ?thesis by simp
qed

lemma w_attempt: "\<exists>h. attempt_all (w_disp x) w_disp_msg w_disp_st = Some h"
  using attempt_all_free [of w_disp_st "w_disp x" w_disp_msg] w_domains by (auto simp: w_dt_idle batch_by_domain_def)

lemma w_timely: "(\<And>e w. x = Some e \<Longrightarrow> as_deferred e = Some w \<Longrightarrow> 0 \<le> w) \<Longrightarrow> timely (w_disp x)"
  by (rule local_pause.timelyI) (auto simp: w_world_def w_pv_def zero_time_def)

section \<open>Recipients\<close>

text \<open>C5: No recipient is lost or counted twice by an attempt at a message: at the end of the two loops every
  recipient, with its multiplicity, is either finished or among the remaining ones. One that counts as delivered was
  delivered without an error, and one that counts as bounced got a permanent response of the server.\<close>
theorem recipients_accounted:
  assumes "attempt_all d msg st = Some h" "\<And>ks. mset (dc_batch_order d ks) = mset ks"
  shows "mset (rcpt_to msg) = mset (map fst (h_done h)) + mset (h_remaining h) \<and>
    (\<forall>r. (r, Delivered) \<in> set (h_done h) \<longrightarrow> (r, None) \<in> set (h_tried h)) \<and>
    (\<forall>r. (r, Bounced) \<in> set (h_done h) \<longrightarrow> (\<exists>e. (r, Some e) \<in> set (h_tried h) \<and> permanent_response e \<noteq> None))"
  using attempt_all_inv(1,2) [OF assms] by (simp add: accounted_def tracked_def done_because_def)

theorem recipients_accounted_witness:
  "\<exists>h. attempt_all (w_disp None) w_disp_msg w_disp_st = Some h \<and>
    {# ''u@x.example'', ''v@y.example'' #} = mset (map fst (h_done h)) + mset (h_remaining h)"
proof -
  obtain h where h: "attempt_all (w_disp None) w_disp_msg w_disp_st = Some h" using w_attempt by blast
  from recipients_accounted [OF h] h show ?thesis by auto
qed

text \<open>C21: The queue is told that a message was sent only when every recipient is finished. With clocks after Go's zero
  time, delays of the delivery client that are not negative and the local pause store, \<^verbatim>\<open>AckSent\<close> is the decision only if
  no recipient remains, so the finished ones are exactly the recipients.\<close>
theorem ack_means_done:
  assumes "attempt_all d msg st = Some h" "\<And>ks. mset (dc_batch_order d ks) = mset ks" "dc_pauses d = local_pauses"
    and "\<And>n. zero_time < w_now (dc_world d n) \<and> zero_time \<le> pv_now (w_pause (dc_world d n))"
    and "\<And>n m r e w. dc_deliver d n m r = Some e \<Longrightarrow> as_deferred e = Some w \<Longrightarrow> 0 \<le> w"
    and "\<And>n m rs r e w. dc_deliver_batch d n m rs r = Some e \<Longrightarrow> as_deferred e = Some w \<Longrightarrow> 0 \<le> w"
    and "decide d msg h = VAck"
  shows "h_remaining h = [] \<and> mset (map fst (h_done h)) = mset (rcpt_to msg)"
proof -
  have "timely d" by (rule local_pause.timelyI [OF assms(3)]) (use assms(4-6) in blast)+
  with attempt_all_inv [OF assms(1,2)] have "explained h" "accounted (rcpt_to msg) {#} h" by blast+
  with decide_ack_done [OF assms(7)] show ?thesis by (simp add: accounted_def)
qed

theorem ack_means_done_witness:
  "\<exists>h. attempt_all (w_disp None) w_disp_msg w_disp_st = Some h \<and> decide (w_disp None) w_disp_msg h = VAck \<and> h_remaining h = []"
proof -
  obtain h where h: "attempt_all (w_disp None) w_disp_msg w_disp_st = Some h" using w_attempt by blast
  have "map_option (\<lambda>h. (h_errs h, h_until h)) (attempt_all (w_disp None) w_disp_msg w_disp_st) = Some ([], zero_time)" by code_simp
  with h have "decide (w_disp None) w_disp_msg h = VAck" by (simp add: decide_def)
  with ack_means_done [OF h, of] h show ?thesis by (auto simp: w_world_def w_pv_def zero_time_def)
qed


definition w_paused_st :: "(store, pause_local) dispatcher_state" where
  "w_paused_st = w_disp_st\<lparr>dp_pauses := \<lparr>pl_entries = [(''x.example'', w_pentry\<lparr>pe_domain := ''x.example''\<rparr>)], pl_file = None\<rparr>\<rparr>"

definition w_421_disp :: "(env, store, pause_env, pause_local) dispatcher" where
  "w_421_disp = (w_disp (Some (NetError ''reset'')))\<lparr>dc_max_attempts := 1\<rparr>"

definition w_tried_msg :: message where
  "w_tried_msg = w_disp_msg\<lparr>attempts := 1\<rparr>"


text \<open>C11: A recipient whose delivery ended with an unknown status after the data was sent is not tried again: it is in
  no version of the message that goes back to the queue for another attempt.\<close>
theorem unknown_not_retried:
  assumes "attempt_all d msg st = Some h" "\<And>ks. mset (dc_batch_order d ks) = mset ks"
    and "(r, Some e) \<in> set (h_tried h)" "as_deferred e = None" "is_unknown e"
  shows "r \<notin> set (verdict_rcpts (decide d msg h))"
proof -
  have "unknown_failed h" using attempt_all_inv(2) [OF assms(1,2)] by (simp add: tracked_def)
  then have "is_failed h r" "e \<in> set (h_errs h)" using assms(3-5) unfolding unknown_failed_def by blast+
  moreover from this assms(5) have "should_fail d msg (h_errs h) t" for t
    by (auto simp: should_fail_def should_fail_errs_unknown)
  ultimately show ?thesis by (auto simp: decide_def verdict_rcpts_def Let_def)
qed

definition w_lost :: derror where
  "w_lost = StageError StageDATA (StatusUnknown EofError)"

theorem unknown_not_retried_witness:
  "\<exists>h. attempt_all (w_disp (Some w_lost)) w_disp_msg w_disp_st = Some h \<and>
    ''v@y.example'' \<notin> set (verdict_rcpts (decide (w_disp (Some w_lost)) w_disp_msg h))"
proof -
  have "map_option h_tried (attempt_all (w_disp (Some w_lost)) w_disp_msg w_disp_st) =
      Some [(''u@x.example'', Some w_lost), (''v@y.example'', Some w_lost)]" by code_simp
  then obtain h where h: "attempt_all (w_disp (Some w_lost)) w_disp_msg w_disp_st = Some h"
    "h_tried h = [(''u@x.example'', Some w_lost), (''v@y.example'', Some w_lost)]" by auto
  have "''v@y.example'' \<notin> set (verdict_rcpts (decide (w_disp (Some w_lost)) w_disp_msg h))"
    by (rule unknown_not_retried [OF h(1), of _ w_lost]) (simp_all add: h(2) w_lost_def)
  with h show ?thesis by blast
qed

section \<open>Leases\<close>

lemma bounce_failed_throttle [simp]: "dp_throttle (bounce_failed d msg rs st) = dp_throttle st"
  by (induction rs arbitrary: st) (simp_all split: option.split)

lemma persist_throttle [simp]: "dp_throttle (persist d msg v st) = dp_throttle st"
  by (simp add: persist_def Let_def split: verdict.split)

text \<open>Every slot of the domain throttle that handling a message takes is given back: when the handler returns, each
  domain has as many slots in use as before, whatever happened to the recipients.\<close>
theorem leases_returned:
  assumes "handle_message d msg st = Some st'" "\<And>ks. mset (dc_batch_order d ks) = mset ks" "dt_wf (dp_throttle st)"
  shows "slots (dp_throttle st') = slots (dp_throttle st) \<and> dt_wf (dp_throttle st')"
proof -
  obtain h where h: "attempt_all d msg st = Some h" "st' = dispatcher_state.truncate (persist d msg (decide d msg h) h)"
    using assms(1) by (auto simp: handle_message_def split: option.splits)
  have "dp_throttle st' = dp_throttle h" by (simp add: h(2) dispatcher_state.defs)
  then show ?thesis using attempt_all_balanced [OF h(1) assms(2,3)] by simp
qed

theorem leases_returned_witness:
  "\<exists>st'. handle_message (w_disp None) w_disp_msg w_disp_st = Some st' \<and> slots (dp_throttle st') = slots w_dt"
proof -
  obtain st' where h: "handle_message (w_disp None) w_disp_msg w_disp_st = Some st'"
    using w_attempt [of None] by (auto simp: handle_message_def)
  from leases_returned [OF h] h show ?thesis by (simp add: w_dt_idle)
qed



section \<open>The message\<close>

text \<open>The dispatcher drops no message of the local queue: whatever fails while a batch is handled, a message that a
  directory of the queue holds, handled or not, is still held afterwards.\<close>
theorem dispatch_no_loss:
  assumes "dc_backend d = local_backend" "held (dp_queue st) i" "handle_messages d ms st = Some st'"
  shows "held (dp_queue st') i"
  using assms by (rule local_queue.handle_messages_keeps)

theorem dispatch_no_loss_witness:
  "\<exists>st'. handle_messages (w_disp None) [w_disp_msg] w_disp_st = Some st' \<and> held (dp_queue st') ''a''"
proof -
  obtain st' where h: "handle_messages (w_disp None) [w_disp_msg] w_disp_st = Some st'"
    using w_attempt [of None] by (auto simp: handle_message_def)
  have "held (dp_queue st') ''a''"
    by (rule dispatch_no_loss [OF _ _ h]) (simp_all add: w_held w_disp_st_def)
  with h show ?thesis by blast
qed

text \<open>A message is scheduled for another attempt only if it may be: the limits on attempts and age are not reached,
  no status is unknown, and not every error is a permanent response; and then it waits at least as long as the schedule
  says for its number of attempts and until no recipient is deferred any more.\<close>
theorem retry_decision:
  assumes "decide d msg h = VRetry rs delay reason"
  shows "rs = h_remaining h \<and> h_errs h \<noteq> [] \<and> (dc_max_attempts d \<le> 0 \<or> attempts msg < dc_max_attempts d) \<and>
    \<not> retry_age_reached d msg (w_now (moment_of d h)) \<and> (\<forall>e \<in> set (h_errs h). \<not> is_unknown e) \<and>
    (\<exists>e \<in> set (h_errs h). permanent_response e = None) \<and>
    backoff (attempts msg) (dc_retry_schedule d) \<le> delay \<and> time_sub (h_until h) (w_now (moment_of d h)) \<le> delay \<and>
    (dc_retry_schedule d \<noteq> [] \<longrightarrow> backoff (attempts msg) (dc_retry_schedule d) \<in> set (dc_retry_schedule d))"
proof -
  have r: "rs = h_remaining h" "h_errs h \<noteq> []" "\<not> should_fail d msg (h_errs h) (w_now (moment_of d h))"
    "delay = max (backoff (attempts msg) (dc_retry_schedule d)) (time_sub (h_until h) (w_now (moment_of d h)))"
    using assms by (auto simp: decide_def Let_def split: if_splits)
  have f: "\<not> should_fail_errs (h_errs h) False False" "\<not> retry_age_reached d msg (w_now (moment_of d h))"
    "dc_max_attempts d \<le> 0 \<or> attempts msg < dc_max_attempts d"
    using r(2,3) by (auto simp: should_fail_def split: if_splits)
  have "\<exists>e \<in> set (h_errs h). permanent_response e = None"
  proof (rule ccontr)
    assume n: "\<not> ?thesis"
    then have p: "\<exists>r. as_smtp e = Some r \<and> sr_permanent r \<and> \<not> sr_temporary r" if "e \<in> set (h_errs h)" for e
      using that by (fastforce simp: permanent_response_def sr_permanent_def sr_temporary_def split: option.splits if_splits)
    obtain e where "e \<in> set (h_errs h)" using r(2) by (cases "h_errs h") auto
    with p have "\<exists>e \<in> set (h_errs h). \<exists>r. as_smtp e = Some r \<and> sr_permanent r" by blast
    with p f(1) show False unfolding should_fail_errs_iff by blast
  qed
  moreover have "backoff (attempts msg) sch \<in> set sch" if "sch \<noteq> []" for sch
    using that by (auto simp: backoff_def)
  moreover have "\<forall>e \<in> set (h_errs h). \<not> is_unknown e" using f(1) unfolding should_fail_errs_iff by blast
  ultimately show ?thesis using r f(2,3) by simp
qed

theorem retry_decision_witness:
  "\<exists>h rs delay reason. attempt_all (w_disp (Some (NetError ''reset''))) w_disp_msg w_disp_st = Some h \<and>
    decide (w_disp (Some (NetError ''reset''))) w_disp_msg h = VRetry rs delay reason \<and> backoff 0 [60, 120] \<le> delay"
proof -
  let ?d = "w_disp (Some (NetError ''reset''))"
  obtain h where h: "attempt_all ?d w_disp_msg w_disp_st = Some h" using w_attempt by blast
  have "map_option h_errs (attempt_all ?d w_disp_msg w_disp_st) = Some [NetError ''reset'', NetError ''reset'']" by code_simp
  with h have "h_errs h = [NetError ''reset'', NetError ''reset'']" by simp
  then obtain rs delay reason where v: "decide ?d w_disp_msg h = VRetry rs delay reason"
    by (simp add: decide_def should_fail_def w_disp_def w_disp_msg_def new_message_def retry_age_reached_def Let_def)
  from retry_decision [OF v] have "backoff 0 [60, 120] \<le> delay" by (simp add: w_disp_def w_disp_msg_def new_message_def)
  with h v show ?thesis by blast
qed

end
