(* ===== verification/Smtp_Io.thy ===== *)
theory Smtp_Io
  imports Go_Prelude "HOL-Library.Word"
begin

text \<open>
  Reading and writing of the SMTP listener: the bounded line readers (\<^verbatim>\<open>internal/smtp/limits.go\<close>,
  \<^verbatim>\<open>xoauth2.go\<close>), the body of \<^verbatim>\<open>DATA\<close> (\<^verbatim>\<open>data.go\<close>) and the stuffing of dots by the delivery client
  (\<^verbatim>\<open>internal/delivery/smtp_client.go\<close>), Go's base64, header injection (\<^verbatim>\<open>internal/mailauth\<close>), the
  \<^verbatim>\<open>Received\<close> line and IP addresses.

  The input of a connection is the list of the bytes that arrive until the connection ends, by the
  peer, by a deadline or by the byte limit. The 4096 bytes of a \<^verbatim>\<open>bufio.Reader\<close> do not show: a line
  that does not fit is read in fragments and put together again.
\<close>

section \<open>Lines\<close>

abbreviation CR :: char where "CR \<equiv> CHR 0x0D"
abbreviation LF :: char where "LF \<equiv> CHR 0x0A"

text \<open>Up to and with the next newline; the flag says whether there was one.\<close>
definition cut_line :: "string \<Rightarrow> string \<times> string \<times> bool" where
  "cut_line s = (case index_byte s LF of None \<Rightarrow> (s, [], False) | Some i \<Rightarrow> (take (i + 1) s, drop (i + 1) s, True))"

text \<open>\<^verbatim>\<open>bufio.Reader.ReadString\<close> with a newline: \<open>None\<close> is the error at the end of the input.\<close>
definition read_string :: "string \<Rightarrow> (string \<times> string) option" where
  "read_string s = (case cut_line s of (l, rest, ok) \<Rightarrow> if ok then Some (l, rest) else None)"

definition max_auth_line_bytes :: nat where "max_auth_line_bytes = 12288"

text \<open>\<^verbatim>\<open>readBoundedSMTPLine\<close>: every error is \<^verbatim>\<open>errSASLFraming\<close>.\<close>
definition read_smtp_line :: "string \<Rightarrow> (string \<times> string) option" where
  "read_smtp_line s = (case cut_line s of (l, rest, ok) \<Rightarrow> if max_auth_line_bytes < length l \<or> \<not> ok then None else Some (l, rest))"

text \<open>\<^verbatim>\<open>readSASLLine\<close>\<close>
definition read_sasl_line :: "string \<Rightarrow> (string \<times> string) option" where
  "read_sasl_line s = (case read_smtp_line s of None \<Rightarrow> None | Some (l, rest) \<Rightarrow> Some (trim_suffix (trim_suffix l [LF]) [CR], rest))"

datatype data_error = DataLineTooLong | MessageTooLarge | DataRead

text \<open>\<^verbatim>\<open>readBoundedDataLine\<close>\<close>
definition read_data_line :: "string \<Rightarrow> data_error + string \<times> string" where
  "read_data_line s =
     (case cut_line s of (l, rest, ok) \<Rightarrow>
        if 1000 < length l then Inl DataLineTooLong else if ok then Inr (l, rest) else Inl DataRead)"

definition trim_eol :: "string \<Rightarrow> string" where
  "trim_eol l = trim_right (\<lambda>c. c = CR \<or> c = LF) l"

text \<open>A line of the body as it is stored\<close>
definition unstuff :: "string \<Rightarrow> string" where
  "unstuff l = (if has_prefix l ''..'' then drop 1 l else l)"

lemma cut_line_rest: "cut_line s = (l, rest, ok) \<Longrightarrow> ok \<Longrightarrow> length rest < length s"
  using index_byte_Some [of s LF] by (auto simp: cut_line_def split: option.splits)

lemma read_data_line_rest: "read_data_line s = Inr (l, rest) \<Longrightarrow> length rest < length s"
  using cut_line_rest [of s] by (auto simp: read_data_line_def split: prod.splits if_splits)

lemma read_smtp_line_rest: "read_smtp_line s = Some (l, rest) \<Longrightarrow> length rest < length s"
  using cut_line_rest [of s] by (auto simp: read_smtp_line_def split: prod.splits if_splits)

lemma read_sasl_line_rest: "read_sasl_line s = Some (l, rest) \<Longrightarrow> length rest < length s"
  using read_smtp_line_rest [of s] by (auto simp: read_sasl_line_def split: option.splits)

lemma read_string_rest: "read_string s = Some (l, rest) \<Longrightarrow> length rest < length s"
  using cut_line_rest [of s] by (auto simp: read_string_def split: prod.splits if_splits)

text \<open>\<^verbatim>\<open>readData\<close>: the body and what follows it\<close>
function read_data :: "int \<Rightarrow> string \<Rightarrow> string \<Rightarrow> data_error + string \<times> string" where
  "read_data max_bytes out s =
     (case read_data_line s of
        Inl e \<Rightarrow> Inl e
      | Inr (l, rest) \<Rightarrow>
          if 1000 < length l then Inl DataLineTooLong
          else if trim_eol l = ''.'' then Inr (out, rest)
          else (let out' = out @ unstuff (trim_eol l) @ crlf in
                if max_bytes < int (length out') then Inl MessageTooLarge else read_data max_bytes out' rest))"
  by pat_completeness auto
termination by (relation "measure (\<lambda>(_, _, s). length s)") (auto dest: read_data_line_rest)

declare read_data.simps [simp del]

definition contains_8bit :: "string \<Rightarrow> bool" where
  "contains_8bit d = list_ex (\<lambda>c. 128 \<le> (of_char c :: nat)) d"

text \<open>\<^verbatim>\<open>dotStuff\<close> of the delivery client; the client sends a line end, a dot and a line end after it.\<close>
definition stuff_line :: "string \<Rightarrow> string" where
  "stuff_line l = (let t = trim_suffix l [CR] in if has_prefix t ''.'' then ''.'' @ t else t)"

definition dot_stuff :: "string \<Rightarrow> string" where
  "dot_stuff d = join crlf (map stuff_line (split_on LF d))"

definition end_of_data :: string where "end_of_data = crlf @ ''.'' @ crlf"

section \<open>Base64\<close>

definition b64_val :: "char \<Rightarrow> nat option" where
  "b64_val c =
     (if is_upper c then Some (of_char c - 65) else if is_lower c then Some (of_char c - 71)
      else if is_digit c then Some (of_char c + 4) else if c = CHR ''+'' then Some 62
      else if c = CHR ''/'' then Some 63 else None)"

fun b64_quads :: "bool \<Rightarrow> string \<Rightarrow> string option" where
  "b64_quads strict (a # b # c # d # rest) =
     (case (b64_val a, b64_val b) of
        (Some x, Some y) \<Rightarrow>
          if c = CHR ''='' then
            (if d = CHR ''='' \<and> rest = [] \<and> (strict \<longrightarrow> y mod 16 = 0) then Some [char_of (x * 4 + y div 16)] else None)
          else (case b64_val c of
                  None \<Rightarrow> None
                | Some z \<Rightarrow>
                    if d = CHR ''='' then
                      (if rest = [] \<and> (strict \<longrightarrow> z mod 4 = 0)
                       then Some [char_of (x * 4 + y div 16), char_of (y mod 16 * 16 + z div 4)] else None)
                    else (case b64_val d of
                            None \<Rightarrow> None
                          | Some u \<Rightarrow> map_option (\<lambda>r. [char_of (x * 4 + y div 16), char_of (y mod 16 * 16 + z div 4),
                                         char_of (z mod 4 * 64 + u)] @ r) (b64_quads strict rest)))
      | _ \<Rightarrow> None)"
| "b64_quads strict s = (if s = [] then Some [] else None)"

text \<open>\<^verbatim>\<open>base64.StdEncoding.DecodeString\<close>, strict or not: line ends are skipped, padding is required.\<close>
definition b64_decode :: "bool \<Rightarrow> string \<Rightarrow> string option" where
  "b64_decode strict s = b64_quads strict (filter (\<lambda>c. c \<noteq> CR \<and> c \<noteq> LF) s)"

definition b64_char :: "nat \<Rightarrow> char" where
  "b64_char n = ''ABCDEFGHIJKLMNOPQRSTUVWXYZabcdefghijklmnopqrstuvwxyz0123456789+/'' ! n"

text \<open>\<^verbatim>\<open>base64.StdEncoding.EncodeToString\<close>\<close>
fun b64_encode :: "string \<Rightarrow> string" where
  "b64_encode [] = []"
| "b64_encode [a] =
     (let x = of_char a :: nat in [b64_char (x div 4), b64_char (x mod 4 * 16), CHR ''='', CHR ''=''])"
| "b64_encode [a, b] =
     (let x = of_char a :: nat; y = of_char b :: nat in
      [b64_char (x div 4), b64_char (x mod 4 * 16 + y div 16), b64_char (y mod 16 * 4), CHR ''=''])"
| "b64_encode (a # b # c # r) =
     (let x = of_char a :: nat; y = of_char b :: nat; z = of_char c :: nat in
      [b64_char (x div 4), b64_char (x mod 4 * 16 + y div 16), b64_char (y mod 16 * 4 + z div 64), b64_char (z mod 64)] @ b64_encode r)"

section \<open>Headers\<close>

text \<open>\<^verbatim>\<open>SplitMessage\<close> and \<^verbatim>\<open>InjectHeaders\<close>\<close>
definition split_message :: "string \<Rightarrow> (string \<times> string) option" where
  "split_message s =
     (case index_str s (crlf @ crlf) of
        Some i \<Rightarrow> Some (take i s, drop (i + 4) s)
      | None \<Rightarrow> (case index_str s [LF, LF] of Some i \<Rightarrow> Some (take i s, drop (i + 2) s) | None \<Rightarrow> None))"

definition inject_headers :: "string \<Rightarrow> string list \<Rightarrow> string" where
  "inject_headers raw add =
     (case split_message raw of
        None \<Rightarrow> raw
      | Some (h, b) \<Rightarrow> concat (map (\<lambda>x. x @ crlf) add) @ h @ crlf @ crlf @ b)"

text \<open>The number of bytes Go's \<^verbatim>\<open>range\<close> over a string takes for the next rune; an invalid byte is taken alone.\<close>
definition in_range :: "nat \<Rightarrow> nat \<Rightarrow> char \<Rightarrow> bool" where
  "in_range lo hi c \<longleftrightarrow> lo \<le> (of_char c :: nat) \<and> (of_char c :: nat) \<le> hi"

definition rune_width :: "string \<Rightarrow> nat" where
  "rune_width s =
     (case s of
        a # b # c # d # _ \<Rightarrow>
          if in_range 194 223 a \<and> in_range 128 191 b then 2
          else if (in_range 224 224 a \<and> in_range 160 191 b \<or> (in_range 225 236 a \<or> in_range 238 239 a) \<and> in_range 128 191 b \<or>
                   in_range 237 237 a \<and> in_range 128 159 b) \<and> in_range 128 191 c then 3
          else if (in_range 240 240 a \<and> in_range 144 191 b \<or> in_range 241 243 a \<and> in_range 128 191 b \<or>
                   in_range 244 244 a \<and> in_range 128 143 b) \<and> in_range 128 191 c \<and> in_range 128 191 d then 4
          else 1
      | [a, b, c] \<Rightarrow>
          if in_range 194 223 a \<and> in_range 128 191 b then 2
          else if (in_range 224 224 a \<and> in_range 160 191 b \<or> (in_range 225 236 a \<or> in_range 238 239 a) \<and> in_range 128 191 b \<or>
                   in_range 237 237 a \<and> in_range 128 159 b) \<and> in_range 128 191 c then 3
          else 1
      | [a, b] \<Rightarrow> if in_range 194 223 a \<and> in_range 128 191 b then 2 else 1
      | _ \<Rightarrow> 1)"

lemma rune_width_pos: "0 < rune_width s"
  by (simp add: rune_width_def split: list.split)

definition received_char :: "char \<Rightarrow> char" where
  "received_char c =
     (if \<not> in_range 33 126 c \<or> c \<in> {CHR ''('', CHR '')'', CHR '';'', CHR 0x5C, CHR '':''} then CHR ''_'' else c)"

function received_runes :: "string \<Rightarrow> string" where
  "received_runes [] = []"
| "received_runes (c # cs) = received_char c # received_runes (drop (rune_width (c # cs)) (c # cs))"
  by pat_completeness auto
termination
proof (relation "measure length")
  show "(drop (rune_width (c # cs)) (c # cs), c # cs) \<in> measure length" for c :: char and cs
    using rune_width_pos [of "c # cs"] by simp
qed simp

definition sanitize_received_token :: "string \<Rightarrow> string" where
  "sanitize_received_token v =
     (let s = trim_space (filter (\<lambda>c. c \<noteq> CR \<and> c \<noteq> LF) v); out = trim_space (received_runes s) in
      if s = [] then [] else take 255 out)"

text \<open>\<^verbatim>\<open>buildReceivedHeader\<close>; the format of the date is a parameter, and \<open>ip\<close> is the text of the parsed peer address.\<close>
definition build_received_header :: "(time \<Rightarrow> string) \<Rightarrow> string \<Rightarrow> string \<Rightarrow> string \<Rightarrow> string option \<Rightarrow> string \<Rightarrow> time \<Rightarrow> bool \<Rightarrow> bool \<Rightarrow> string" where
  "build_received_header rfc1123z hostname helo remote ip i t extended tls =
     (let by_host = (let h = sanitize_received_token hostname in if h = [] then ''localhost'' else h);
          from_host = (let h = sanitize_received_token helo in if h = [] then ''unknown'' else h);
          remote_desc = (case ip of Some a \<Rightarrow> a | None \<Rightarrow> sanitize_received_token remote);
          proto = (if extended then ''ESMTP'' else ''SMTP'') @ (if tls then ''S'' else [])
      in ''Received: from '' @ from_host @ '' ('' @ remote_desc @ '') by '' @ by_host @ '' with '' @ proto @ '' id '' @
         sanitize_received_token i @ ''; '' @ rfc1123z t)"

text \<open>\<^verbatim>\<open>splitVerb\<close>\<close>
definition split_verb :: "string \<Rightarrow> string \<times> string" where
  "split_verb line =
     (case split_2 CHR '' '' (trim_space line) of
        (v, None) \<Rightarrow> (to_upper v, [])
      | (v, Some a) \<Rightarrow> (to_upper v, trim_space a))"

section \<open>IP addresses\<close>

text \<open>\<^verbatim>\<open>net.IP\<close> is a slice of four or sixteen bytes.\<close>
type_synonym ip = "8 word list"

record ip_net =
  net_ip :: ip
  net_mask :: ip

definition ip_to4 :: "ip \<Rightarrow> ip option" where
  "ip_to4 a =
     (if length a = 4 then Some a
      else if length a = 16 \<and> take 12 a = replicate 10 0 @ [255, 255] then Some (drop 12 a) else None)"

unbundle bit_operations_syntax

text \<open>\<^verbatim>\<open>IPNet.Contains\<close>; a network that \<^verbatim>\<open>ParseCIDR\<close> returns has a mask as long as its address.\<close>
definition net_contains :: "ip_net \<Rightarrow> ip \<Rightarrow> bool" where
  "net_contains n a0 =
     (let a = (case ip_to4 a0 of Some x \<Rightarrow> x | None \<Rightarrow> a0) in
      length a = length (net_ip n) \<and>
      list_all (\<lambda>((x, m), y). x AND m = y AND m) (zip (zip (net_ip n) (net_mask n)) a))"

definition hex_digit :: "nat \<Rightarrow> char" where
  "hex_digit n = (if n < 10 then char_of (48 + n) else char_of (87 + n))"

fun show_hex :: "nat \<Rightarrow> string" where
  "show_hex n = (if n < 16 then [hex_digit n] else show_hex (n div 16) @ [hex_digit (n mod 16)])"

declare show_hex.simps [simp del]

text \<open>The first longest run of at least two zero groups, as its start and length\<close>
definition zero_run :: "nat list \<Rightarrow> (nat \<times> nat) option" where
  "zero_run gs =
     fold (\<lambda>i best. let l = length (takeWhile (\<lambda>g. g = 0) (drop i gs)) in
             if 2 \<le> l \<and> (case best of None \<Rightarrow> True | Some (_, k) \<Rightarrow> k < l) then Some (i, l) else best) [0..<length gs] None"

fun ip_groups :: "ip \<Rightarrow> nat list" where
  "ip_groups (a # b # r) = (unat a * 256 + unat b) # ip_groups r"
| "ip_groups _ = []"

text \<open>\<^verbatim>\<open>IP.String\<close> for addresses of four and sixteen bytes\<close>
definition ip_string :: "ip \<Rightarrow> string" where
  "ip_string a =
     (case ip_to4 a of
        Some v4 \<Rightarrow> join ''.'' (map (show_nat \<circ> unat) v4)
      | None \<Rightarrow>
          (let gs = ip_groups a in
           case zero_run gs of
             None \<Rightarrow> join '':'' (map show_hex gs)
           | Some (i, l) \<Rightarrow> join '':'' (map show_hex (take i gs)) @ ''::'' @ join '':'' (map show_hex (drop (i + l) gs))))"

section \<open>The connection\<close>

text \<open>
  What \<^verbatim>\<open>writeResp\<close> and \<^verbatim>\<open>writeLine\<close> send; writing is taken to succeed. \<open>cn_input\<close> are the bytes that are still to
  be read, \<open>cn_tls\<close> is what the peer sends inside TLS, or \<open>None\<close> when a handshake fails.
\<close>
datatype reply = Resp int string | RawLine string

record conn =
  cn_input :: string
  cn_tls :: "string option"
  cn_out :: "reply list"

definition write_resp :: "conn \<Rightarrow> int \<Rightarrow> string \<Rightarrow> conn" where
  "write_resp cn code msg = cn\<lparr>cn_out := cn_out cn @ [Resp code msg]\<rparr>"

definition write_line :: "conn \<Rightarrow> string \<Rightarrow> conn" where
  "write_line cn l = cn\<lparr>cn_out := cn_out cn @ [RawLine l]\<rparr>"

lemma write_frame [simp]:
  "cn_input (write_resp cn c m) = cn_input cn" "cn_tls (write_resp cn c m) = cn_tls cn"
  "cn_input (write_line cn l) = cn_input cn" "cn_tls (write_line cn l) = cn_tls cn"
  by (simp_all add: write_resp_def write_line_def)

section \<open>The body survives the wire\<close>

lemma index_byte_append: "c \<notin> set l \<Longrightarrow> index_byte (l @ c # rest) c = Some (length l)"
  by (induction l) auto

lemma cut_line_append: "LF \<notin> set l \<Longrightarrow> cut_line (l @ LF # rest) = (l @ [LF], rest, True)"
  by (simp add: cut_line_def index_byte_append)

lemma trim_eol_crlf [simp]: "trim_eol (l @ crlf) = trim_eol l"
  by (simp add: trim_eol_def crlf_def trim_right_def)

lemma trim_eol_suffix [simp]: "trim_eol (trim_suffix l [CR]) = trim_eol l"
proof (cases "has_suffix l [CR]")
  case True
  then obtain s where "l = s @ [CR]" by (auto simp: has_suffix_iff_suffix suffix_def)
  then show ?thesis by (simp add: trim_suffix_def trim_eol_def trim_right_append True)
qed (simp add: trim_suffix_def)

lemma trim_right_Cons: "\<not> p c \<Longrightarrow> trim_right p (c # s) = c # trim_right p s"
  by (induction s rule: rev_induct) (auto simp: trim_right_def dropWhile_append)

lemma dot_not_eol [simp]: "CHR ''.'' \<noteq> CR \<and> CHR ''.'' \<noteq> LF"
  by simp

text \<open>A stuffed line is never the end of the body, and the reader recovers it.\<close>
lemma unstuff_stuff:
  "trim_eol (stuff_line l) \<noteq> ''.''" "unstuff (trim_eol (stuff_line l)) = trim_eol l"
proof -
  let ?t = "trim_suffix l [CR]"
  have "trim_eol (stuff_line l) \<noteq> ''.'' \<and> unstuff (trim_eol (stuff_line l)) = trim_eol ?t"
  proof (cases "has_prefix ?t ''.''")
    case True
    then obtain u where "?t = CHR ''.'' # u" by (auto simp: has_prefix_iff_prefix prefix_def)
    then show ?thesis
      by (simp add: stuff_line_def has_prefix_def unstuff_def trim_eol_def trim_right_Cons)
  next
    case False
    have "\<not> has_prefix (trim_eol ?t) ''.''"
    proof
      assume "has_prefix (trim_eol ?t) ''.''"
      then obtain u where u: "trim_eol ?t = CHR ''.'' # u" by (auto simp: has_prefix_iff_prefix prefix_def)
      then have "hd ?t = CHR ''.''" "?t \<noteq> []"
        using trim_right_head [of "\<lambda>c. c = CR \<or> c = LF" ?t] by (auto simp: trim_eol_def trim_right_def)
      with False show False by (cases ?t) (auto simp: has_prefix_def)
    qed
    moreover from this have "trim_eol ?t \<noteq> ''.''" "\<not> has_prefix (trim_eol ?t) ''..''"
      by (auto simp: has_prefix_iff_prefix prefix_def)
    ultimately show ?thesis using False by (simp add: stuff_line_def unstuff_def del: trim_eol_suffix)
  qed
  then show "trim_eol (stuff_line l) \<noteq> ''.''" "unstuff (trim_eol (stuff_line l)) = trim_eol l" by simp_all
qed

definition wire_lines :: "string list \<Rightarrow> string" where
  "wire_lines ls = concat (map (\<lambda>l. l @ crlf) ls)"

lemma join_crlf: "ls \<noteq> [] \<Longrightarrow> join crlf ls @ crlf = wire_lines ls"
  by (induction crlf ls rule: join.induct) (auto simp: wire_lines_def)

lemma stuff_line_no_LF: "LF \<notin> set l \<Longrightarrow> LF \<notin> set (stuff_line l)"
  by (auto simp: stuff_line_def trim_suffix_def Let_def dest: in_set_takeD)

lemma read_data_step:
  assumes "LF \<notin> set l" "length l \<le> 998"
  shows "read_data m out (l @ crlf @ s) =
    (if trim_eol l = ''.'' then Inr (out, s)
     else if m < int (length (out @ unstuff (trim_eol l) @ crlf)) then Inl MessageTooLarge
     else read_data m (out @ unstuff (trim_eol l) @ crlf) s)"
proof -
  have "read_data_line (l @ crlf @ s) = Inr (l @ crlf, s)"
    using assms cut_line_append [of "l @ [CR]" s] by (simp add: read_data_line_def crlf_def)
  then show ?thesis using assms(2) by (subst read_data.simps) (simp add: Let_def crlf_def [THEN arg_cong, of length])
qed

lemma read_data_lines:
  assumes "\<forall>l \<in> set ls. LF \<notin> set l \<and> length (stuff_line l) \<le> 998"
    and "int (length (out @ wire_lines (map trim_eol ls))) \<le> m"
  shows "read_data m out (wire_lines (map stuff_line ls) @ ''.'' @ crlf @ rest) = Inr (out @ wire_lines (map trim_eol ls), rest)"
  using assms
proof (induction ls arbitrary: out)
  case Nil
  show ?case using read_data_step [of "''.''" m out rest] by (simp add: wire_lines_def trim_eol_def trim_right_def)
next
  case (Cons l ls)
  let ?s = "wire_lines (map stuff_line ls) @ ''.'' @ crlf @ rest"
  have "read_data m out (stuff_line l @ crlf @ ?s) = read_data m (out @ trim_eol l @ crlf) ?s"
    using Cons.prems by (simp add: read_data_step stuff_line_no_LF unstuff_stuff wire_lines_def)
  also have "\<dots> = Inr ((out @ trim_eol l @ crlf) @ wire_lines (map trim_eol ls), rest)"
    by (rule Cons.IH) (use Cons.prems in \<open>simp_all add: wire_lines_def\<close>)
  finally show ?case by (simp add: wire_lines_def)
qed

section \<open>Base64 round trip\<close>

lemma b64_table: "list_all (\<lambda>n. b64_val (b64_char n) = Some n \<and> b64_char n \<noteq> CHR ''='' \<and> \<not> is_space (b64_char n)) [0..<64]"
  by code_simp

lemma b64_val_char [simp]:
  "n < 64 \<Longrightarrow> b64_val (b64_char n) = Some n" "n < 64 \<Longrightarrow> b64_char n \<noteq> CHR ''=''"
  "n < 64 \<Longrightarrow> \<not> is_space (b64_char n)"
  using b64_table by (auto simp: list_all_iff)

lemma b64_parts:
  "(of_char c :: nat) div 16 div 16 = 0" "(of_char c :: nat) div 16 mod 16 = of_char c div 16"
  "(of_char c :: nat) div 64 div 4 = 0" "(of_char c :: nat) div 64 mod 4 = of_char c div 64"
  "(of_char c :: nat) div 4 < 64" "(of_char c :: nat) mod 4 * 16 < 64" "(of_char c :: nat) mod 16 * 4 < 64"
  "(of_char c :: nat) mod 4 * 16 + of_char d div 16 < 64" "(of_char c :: nat) mod 16 * 4 + of_char d div 64 < 64"
proof -
  have c: "(of_char c :: nat) div 16 < 16" "(of_char c :: nat) div 64 < 4" "(of_char d :: nat) div 16 < 16" "(of_char d :: nat) div 64 < 4"
    by (rule less_mult_imp_div_less, simp)+
  have m: "(of_char c :: nat) mod 4 < 4" "(of_char c :: nat) mod 16 < 16" by simp_all
  show "(of_char c :: nat) div 16 div 16 = 0" "(of_char c :: nat) div 16 mod 16 = of_char c div 16"
    "(of_char c :: nat) div 64 div 4 = 0" "(of_char c :: nat) div 64 mod 4 = of_char c div 64"
    using c by (simp_all only: div_less mod_less)
  show "(of_char c :: nat) div 4 < 64" by (rule less_mult_imp_div_less) simp
  show "(of_char c :: nat) mod 4 * 16 < 64" "(of_char c :: nat) mod 16 * 4 < 64"
    "(of_char c :: nat) mod 4 * 16 + of_char d div 16 < 64" "(of_char c :: nat) mod 16 * 4 + of_char d div 64 < 64"
    using c m by linarith+
qed

lemma b64_round_trip: "b64_quads strict (b64_encode s) = Some s"
proof (induction s rule: b64_encode.induct)
  case (2 a)
  show ?case by (simp add: Let_def b64_parts)
next
  case (3 a b)
  show ?case by (simp add: Let_def b64_parts)
next
  case (4 a b c r)
  then show ?case by (simp add: Let_def b64_parts)
qed simp

lemma pad_no_space [simp]: "\<not> is_space CHR ''=''"
  by (simp add: is_space_def)

lemma b64_encode_chars: "c \<in> set (b64_encode s) \<Longrightarrow> \<not> is_space c"
proof (induction s rule: b64_encode.induct)
  case (2 a)
  then show ?case by (auto simp: Let_def b64_parts)
next
  case (3 a b)
  then show ?case by (auto simp: Let_def b64_parts)
next
  case (4 a b c r)
  then show ?case by (auto simp: Let_def b64_parts)
qed simp

lemma b64_decode_encode: "b64_decode strict (b64_encode s) = Some s"
proof -
  have "filter (\<lambda>c. c \<noteq> CR \<and> c \<noteq> LF) (b64_encode s) = b64_encode s"
    by (rule filter_True) (use b64_encode_chars in \<open>force simp: is_space_def\<close>)
  then show ?thesis by (simp add: b64_decode_def b64_round_trip)
qed

lemma b64_encode_Nil [simp]: "b64_encode s = [] \<longleftrightarrow> s = []"
  by (cases s rule: b64_encode.cases) (simp_all add: Let_def)

lemma b64_encode_trimmed: "trim_space (b64_encode s) = b64_encode s"
  by (rule trim_space_id) (metis b64_encode_chars last_in_set list.set_sel(1))

end
