(* ===== verification/Smtp_Auth.thy ===== *)
theory Smtp_Auth
  imports Smtp_Io Message
begin

text \<open>
  Authentication: principals and the senders they may use, the static and the combined backend
  (\<^verbatim>\<open>internal/userauth/backend.go\<close>, \<^verbatim>\<open>bearer.go\<close>) and the dialogue of the \<^verbatim>\<open>AUTH\<close> mechanisms
  (\<^verbatim>\<open>internal/smtp/auth.go\<close>, \<^verbatim>\<open>xoauth2.go\<close>). Other backends are parameters: the methods of the interfaces they
  implement, with a counter for the call because a service may answer differently every time.
\<close>

section \<open>Principals\<close>

record principal =
  pr_require_explicit :: bool
  pr_auth_source :: string
  pr_username :: string
  pr_sender_domains :: "string list"
  pr_sender_addresses :: "string list"

definition no_principal :: principal where
  "no_principal = \<lparr>pr_require_explicit = False, pr_auth_source = [], pr_username = [], pr_sender_domains = [], pr_sender_addresses = []\<rparr>"

record auth_result =
  au_principal :: principal
  au_success :: bool
  au_reason :: string

text \<open>\<^verbatim>\<open>SenderAllowed\<close>\<close>
definition sender_allowed :: "principal \<Rightarrow> string \<Rightarrow> bool" where
  "sender_allowed pr mail_from0 =
     (let from = to_lower (trim_space mail_from0) in
      if from = [] then False
      else if list_ex (\<lambda>a. equal_fold (trim_space a) from) (pr_sender_addresses pr) then True
      else if (case domain_of from of None \<Rightarrow> False | Some d \<Rightarrow> list_ex (\<lambda>a. equal_fold (trim_space a) d) (pr_sender_domains pr)) then True
      else if pr_require_explicit pr then False
      else (case domain_of (to_lower (trim_space (pr_username pr))) of
              None \<Rightarrow> False
            | Some ad \<Rightarrow> (case domain_of from of None \<Rightarrow> False | Some d \<Rightarrow> equal_fold ad d)))"

section \<open>Backends\<close>

record auth_backend =
  ab_password :: "nat \<Rightarrow> string \<Rightarrow> string \<Rightarrow> principal \<times> bool"
  ab_detailed :: "(nat \<Rightarrow> string \<Rightarrow> string \<Rightarrow> auth_result) option"
  ab_mechanisms :: "string list option"
  ab_bearer :: "(nat \<Rightarrow> string \<Rightarrow> string \<Rightarrow> auth_result) option"

text \<open>The users of the static backend, a map sorted by name\<close>
type_synonym static_backend = "(string \<times> string) list"

definition normalize_username :: "string \<Rightarrow> string" where
  "normalize_username u = to_lower (trim_space u)"

definition static_entry :: "string \<Rightarrow> (string \<times> string) option" where
  "static_entry p =
     (case index_byte p CHR '':'' of
        None \<Rightarrow> None
      | Some i \<Rightarrow>
          if i = 0 \<or> i = length p - 1 then None
          else (let u = normalize_username (take i p); pw = trim_space (drop (i + 1) p) in
                if u = [] \<or> pw = [] then None else Some (u, pw)))"

fun static_users :: "string list \<Rightarrow> static_backend \<Rightarrow> static_backend option" where
  "static_users [] us = Some us"
| "static_users (part # parts) us =
     (let p = trim_space part in
      if p = [] then static_users parts us
      else (case static_entry p of None \<Rightarrow> None | Some (u, pw) \<Rightarrow> static_users parts (dput u pw us)))"

text \<open>\<^verbatim>\<open>NewStatic\<close>: \<open>None\<close> is the error about an invalid entry.\<close>
definition new_static :: "string \<Rightarrow> static_backend option" where
  "new_static raw = (let s = trim_space raw in if s = [] then Some [] else static_users (split_on CHR '','' s) [])"

definition static_principal :: "string \<Rightarrow> principal" where
  "static_principal u = no_principal\<lparr>pr_auth_source := ''static_password'', pr_username := u\<rparr>"

text \<open>\<^verbatim>\<open>AuthenticatePasswordDetailed\<close> of a backend that is not nil\<close>
definition static_authenticate :: "static_backend \<Rightarrow> string \<Rightarrow> string \<Rightarrow> auth_result" where
  "static_authenticate us username password =
     (let u = normalize_username username in
      case map_of us u of
        None \<Rightarrow> \<lparr>au_principal = static_principal u, au_success = False, au_reason = ''credential_not_found''\<rparr>
      | Some pw \<Rightarrow>
          if pw \<noteq> password then \<lparr>au_principal = static_principal u, au_success = False, au_reason = ''invalid_password''\<rparr>
          else \<lparr>au_principal = static_principal u, au_success = True, au_reason = []\<rparr>)"

definition static_methods :: "static_backend \<Rightarrow> auth_backend" where
  "static_methods us =
     \<lparr>ab_password = (\<lambda>n u p. (au_principal (static_authenticate us u p), au_success (static_authenticate us u p))),
      ab_detailed = Some (\<lambda>n u p. static_authenticate us u p), ab_mechanisms = None, ab_bearer = None\<rparr>"

text \<open>\<^verbatim>\<open>Server.authenticatePassword\<close>, which \<^verbatim>\<open>CombinedBackend\<close> repeats\<close>
definition authenticate_password :: "auth_backend \<Rightarrow> nat \<Rightarrow> string \<Rightarrow> string \<Rightarrow> auth_result" where
  "authenticate_password be n user pass =
     (case ab_detailed be of
        Some f \<Rightarrow> f n user pass
      | None \<Rightarrow> (case ab_password be n user pass of (p, ok) \<Rightarrow> \<lparr>au_principal = p, au_success = ok, au_reason = []\<rparr>))"

definition unsupported_mechanism :: auth_result where
  "unsupported_mechanism = \<lparr>au_principal = no_principal, au_success = False, au_reason = ''unsupported_mechanism''\<rparr>"

definition combined_backend :: "auth_backend option \<Rightarrow> (nat \<Rightarrow> string \<Rightarrow> string \<Rightarrow> auth_result) option \<Rightarrow> auth_backend" where
  "combined_backend password bearer =
     (let detailed = (\<lambda>n u p. case password of None \<Rightarrow> unsupported_mechanism | Some be \<Rightarrow> authenticate_password be n u p) in
      \<lparr>ab_password = (\<lambda>n u p. (au_principal (detailed n u p), au_success (detailed n u p))),
       ab_detailed = Some detailed,
       ab_mechanisms = Some ((if password \<noteq> None then [''PLAIN'', ''LOGIN''] else []) @ (if bearer \<noteq> None then [''XOAUTH2''] else [])),
       ab_bearer = Some (\<lambda>n u t. case bearer of None \<Rightarrow> unsupported_mechanism | Some f \<Rightarrow> f n u t)\<rparr>)"

section \<open>Mechanisms\<close>

datatype auth_error = AuthFraming | AuthError string

definition auth_mechanism :: "string \<Rightarrow> string" where
  "auth_mechanism arg = (case split_fields (trim_space arg) of [] \<Rightarrow> [] | p # _ \<Rightarrow> to_upper p)"

definition decode_auth_plain :: "string \<Rightarrow> auth_error + string \<times> string" where
  "decode_auth_plain payload =
     (case b64_decode False (trim_space payload) of
        None \<Rightarrow> Inl (AuthError ''invalid base64 credentials'')
      | Some raw \<Rightarrow>
          (case split_on CHR 0x00 raw of
             _ # u # p # _ \<Rightarrow>
               (let user = trim_space u; pass = trim_space p in
                if user = [] \<or> pass = [] then Inl (AuthError ''empty credentials'') else Inr (user, pass))
           | _ \<Rightarrow> Inl (AuthError ''invalid plain auth payload'')))"

definition token_char :: "char \<Rightarrow> bool" where
  "token_char c = in_range 33 126 c"

definition decode_xoauth2 :: "string \<Rightarrow> auth_error + string \<times> string" where
  "decode_xoauth2 payload =
     (let invalid = Inl (AuthError ''invalid XOAUTH2 payload'') in
      if max_auth_line_bytes < length payload \<or> contains_any payload [CR, LF] then invalid
      else (case b64_decode True payload of
              None \<Rightarrow> invalid
            | Some raw \<Rightarrow>
                (case split_on CHR 0x01 raw of
                   [f0, f1, f2, f3] \<Rightarrow>
                     if f2 \<noteq> [] \<or> f3 \<noteq> [] \<or> \<not> has_prefix f0 ''user='' \<or> \<not> has_prefix f1 ''auth=Bearer '' then invalid
                     else (let user = drop 5 f0; token = drop 12 f1 in
                           if user = [] \<or> token = [] \<or> 8192 < length token then invalid
                           else if \<not> list_all token_char user \<or> \<not> list_all token_char token then invalid
                           else Inr (user, token))
                 | _ \<Rightarrow> invalid)))"

text \<open>A dialogue returns the connection and an error or the result of the backend.\<close>
type_synonym auth_outcome = "conn \<times> (auth_error + auth_result)"

definition finish_plain :: "auth_backend \<Rightarrow> nat \<Rightarrow> conn \<Rightarrow> string \<Rightarrow> auth_outcome" where
  "finish_plain be n cn payload =
     (cn, case decode_auth_plain payload of Inl e \<Rightarrow> Inl e | Inr (u, p) \<Rightarrow> Inr (authenticate_password be n u p))"

text \<open>A reader that fails has taken the rest of the input.\<close>
definition handle_auth_plain :: "auth_backend \<Rightarrow> nat \<Rightarrow> conn \<Rightarrow> string list \<Rightarrow> auth_outcome" where
  "handle_auth_plain be n cn parts =
     (if 2 \<le> length parts then finish_plain be n cn (parts ! 1)
      else (let cn1 = write_line cn ''334 '' in
            case read_string (cn_input cn1) of
              None \<Rightarrow> (cn1\<lparr>cn_input := []\<rparr>, Inl (AuthError ''EOF''))
            | Some (l, rest) \<Rightarrow> finish_plain be n (cn1\<lparr>cn_input := rest\<rparr>) (trim_space l)))"

definition finish_login :: "auth_backend \<Rightarrow> nat \<Rightarrow> conn \<Rightarrow> string \<Rightarrow> auth_outcome" where
  "finish_login be n cn user_raw =
     (let cn1 = write_line cn ''334 UGFzc3dvcmQ6'' in
      case read_string (cn_input cn1) of
        None \<Rightarrow> (cn1\<lparr>cn_input := []\<rparr>, Inl (AuthError ''EOF''))
      | Some (l, rest) \<Rightarrow>
          (cn1\<lparr>cn_input := rest\<rparr>,
           case b64_decode False (trim_space l) of
             None \<Rightarrow> Inl (AuthError ''invalid base64 password'')
           | Some pass_raw \<Rightarrow>
               (let user = trim_space user_raw; pass = trim_space pass_raw in
                if user = [] \<or> pass = [] then Inl (AuthError ''empty credentials'') else Inr (authenticate_password be n user pass))))"

definition login_user :: "auth_backend \<Rightarrow> nat \<Rightarrow> conn \<Rightarrow> string \<Rightarrow> auth_outcome" where
  "login_user be n cn line =
     (case b64_decode False (trim_space line) of
        None \<Rightarrow> (cn, Inl (AuthError ''invalid base64 username''))
      | Some u \<Rightarrow> finish_login be n cn u)"

definition handle_auth_login :: "auth_backend \<Rightarrow> nat \<Rightarrow> conn \<Rightarrow> string list \<Rightarrow> auth_outcome" where
  "handle_auth_login be n cn parts =
     (if 2 \<le> length parts then login_user be n cn (parts ! 1)
      else (let cn1 = write_line cn ''334 VXNlcm5hbWU6'' in
            case read_string (cn_input cn1) of
              None \<Rightarrow> (cn1\<lparr>cn_input := []\<rparr>, Inl (AuthError ''EOF''))
            | Some (l, rest) \<Rightarrow> login_user be n (cn1\<lparr>cn_input := rest\<rparr>) l))"

definition xoauth2_challenge :: string where
  "xoauth2_challenge = b64_encode ([CHR ''{''] @ [CHR 0x22] @ ''status'' @ [CHR 0x22] @ '':'' @ [CHR 0x22] @ ''401'' @ [CHR 0x22] @ '','' @
     [CHR 0x22] @ ''schemes'' @ [CHR 0x22] @ '':'' @ [CHR 0x22] @ ''bearer'' @ [CHR 0x22] @ [CHR ''}''])"

definition refuse_xoauth2 :: "conn \<Rightarrow> auth_result \<Rightarrow> auth_outcome" where
  "refuse_xoauth2 cn result =
     (let cn1 = write_line cn (''334 '' @ xoauth2_challenge) in
      case read_sasl_line (cn_input cn1) of
        None \<Rightarrow> (cn1\<lparr>cn_input := []\<rparr>, Inl AuthFraming)
      | Some (response, rest) \<Rightarrow>
          (cn1\<lparr>cn_input := rest\<rparr>, if response \<noteq> [] \<and> response \<noteq> ''*'' then Inl (AuthError ''invalid XOAUTH2 error response'') else Inr result))"

definition finish_xoauth2 :: "auth_backend \<Rightarrow> nat \<Rightarrow> conn \<Rightarrow> string \<Rightarrow> auth_outcome" where
  "finish_xoauth2 be n cn payload =
     (if payload = ''*'' then (cn, Inl (AuthError ''authentication canceled''))
      else (case decode_xoauth2 payload of
              Inl e \<Rightarrow> (cn, Inl e)
            | Inr (user, token) \<Rightarrow>
                (case ab_bearer be of
                   None \<Rightarrow> (cn, Inl (AuthError ''unsupported auth mechanism''))
                 | Some f \<Rightarrow> (let r = f n user token in if au_success r then (cn, Inr r) else refuse_xoauth2 cn r))))"

definition handle_xoauth2 :: "auth_backend \<Rightarrow> nat \<Rightarrow> conn \<Rightarrow> string list \<Rightarrow> auth_outcome" where
  "handle_xoauth2 be n cn parts =
     (if 2 < length parts then (cn, Inl (AuthError ''invalid XOAUTH2 command''))
      else if length parts = 2 then finish_xoauth2 be n cn (parts ! 1)
      else (let cn1 = write_line cn ''334 '' in
            case read_sasl_line (cn_input cn1) of
              None \<Rightarrow> (cn1\<lparr>cn_input := []\<rparr>, Inl AuthFraming)
            | Some (l, rest) \<Rightarrow> finish_xoauth2 be n (cn1\<lparr>cn_input := rest\<rparr>) l))"

text \<open>\<^verbatim>\<open>authMechanisms\<close> of a submission listener with a backend\<close>
definition auth_mechanisms :: "bool \<Rightarrow> auth_backend option \<Rightarrow> bool \<Rightarrow> bool \<Rightarrow> string list" where
  "auth_mechanisms submission backend insecure encrypted =
     (case backend of
        None \<Rightarrow> []
      | Some be \<Rightarrow>
          if \<not> submission then []
          else filter (\<lambda>m. encrypted \<or> insecure \<and> (m = ''PLAIN'' \<or> m = ''LOGIN''))
                 (case ab_mechanisms be of Some ms \<Rightarrow> ms | None \<Rightarrow> [''PLAIN'', ''LOGIN'']))"

definition handle_auth :: "bool \<Rightarrow> auth_backend \<Rightarrow> nat \<Rightarrow> conn \<Rightarrow> string \<Rightarrow> auth_outcome" where
  "handle_auth submission be n cn arg =
     (if trim_space arg = [] then (cn, Inl (AuthError ''AUTH requires mechanism''))
      else (let parts = split_fields arg; mech = to_upper (hd parts) in
            if mech \<notin> set (auth_mechanisms submission (Some be) False True) then (cn, Inl (AuthError ''unsupported auth mechanism''))
            else if mech = ''XOAUTH2'' then handle_xoauth2 be n cn parts
            else if mech = ''PLAIN'' then handle_auth_plain be n cn parts
            else if mech = ''LOGIN'' then handle_auth_login be n cn parts
            else (cn, Inl (AuthError ''unsupported auth mechanism''))))"

end
