(* ===== verification/Smtp_Envelope.thy ===== *)
theory Smtp_Envelope
  imports Message
begin

text \<open>
  The arguments of \<^verbatim>\<open>MAIL\<close> and \<^verbatim>\<open>RCPT\<close> (\<^verbatim>\<open>internal/smtp/envelope.go\<close>): paths, parameters, the DSN
  parameters of RFC 3461 and their checks. An error keeps the branch of the code and drops the text.
\<close>

section \<open>Arguments\<close>

record mail_from_args =
  ma_address :: string
  ma_size :: int
  ma_has_size :: bool
  ma_body :: string
  ma_dsn :: "dsn_params option"
  ma_require_tls :: bool

record rcpt_to_args =
  ra_address :: string
  ra_dsn :: dsn_recipient_options

datatype envelope_error =
    EnvSyntax
  | EnvMissingPath
  | EnvUnclosedPath
  | EnvAddress addr_error
  | EnvSMTPUTF8Address
  | EnvSMTPUTF8Param
  | EnvParamUnsupported string
  | EnvParamInvalid string
  | EnvDuplicate string
  | EnvEmptyRecipient
  | EnvSize
  | EnvBody
  | EnvRet
  | EnvXText
  | EnvOrcpt
  | EnvNotify
  | EnvNotifyDuplicate
  | EnvNotifyNever

section \<open>Lexical helpers\<close>

definition is_ascii :: "string \<Rightarrow> bool" where
  "is_ascii s \<longleftrightarrow> list_all (\<lambda>c. (of_char c :: nat) \<le> 127) s"

definition unwrap_path :: "string \<Rightarrow> string" where
  "unwrap_path path =
     (let s = trim_space path in
      if has_prefix s ''<'' \<and> has_suffix s ''>'' \<and> 2 \<le> length s then trim_space (take (length s - 2) (drop 1 s)) else s)"

definition split_param_kv :: "string \<Rightarrow> (string \<times> string) option" where
  "split_param_kv v =
     (case index_byte v CHR ''='' of
        None \<Rightarrow> None
      | Some i \<Rightarrow> if i = 0 \<or> i = length v - 1 then None else Some (to_upper (trim_space (take i v)), trim_space (drop (i + 1) v)))"

definition split_path_and_params :: "string \<Rightarrow> envelope_error + string \<times> string list" where
  "split_path_and_params raw0 =
     (let raw = trim_space raw0 in
      if raw = [] then Inl EnvMissingPath
      else if hd raw = CHR ''<'' then
        (case index_byte raw CHR ''>'' of
           None \<Rightarrow> Inl EnvUnclosedPath
         | Some end \<Rightarrow> Inr (trim_space (take (end + 1) raw), split_fields (trim_space (drop (end + 1) raw))))
      else (case split_fields raw of [] \<Rightarrow> Inl EnvMissingPath | p # ps \<Rightarrow> Inr (p, ps)))"

definition is_hex :: "char \<Rightarrow> bool" where
  "is_hex b \<longleftrightarrow> is_digit b \<or> CHR ''A'' \<le> b \<and> b \<le> CHR ''F'' \<or> CHR ''a'' \<le> b \<and> b \<le> CHR ''f''"

definition xtext_char :: "char \<Rightarrow> bool" where
  "xtext_char b \<longleftrightarrow> CHR ''!'' \<le> b \<and> b \<le> CHR ''~'' \<and> b \<noteq> CHR ''=''"

text \<open>The loop of \<^verbatim>\<open>validateXText\<close>: a plus sign takes the next two characters with it.\<close>
fun xtext_ok :: "string \<Rightarrow> bool" where
  "xtext_ok [] = True"
| "xtext_ok (b # bs) =
     (if b = CHR ''+'' then (case bs of h1 # h2 # rest \<Rightarrow> is_hex h1 \<and> is_hex h2 \<and> xtext_ok rest | _ \<Rightarrow> False)
      else xtext_char b \<and> xtext_ok bs)"

definition validate_xtext :: "string \<Rightarrow> nat \<Rightarrow> bool" where
  "validate_xtext v max_len \<longleftrightarrow> v \<noteq> [] \<and> length v \<le> max_len \<and> xtext_ok v"

text \<open>\<^verbatim>\<open>strconv.ParseInt (s, 10, 64)\<close>: digits with a sign in the range of 64 bits\<close>
definition digits_value :: "string \<Rightarrow> int" where
  "digits_value ds = foldl (\<lambda>n c. n * 10 + int (of_char c - 48)) 0 ds"

definition parse_int64 :: "string \<Rightarrow> int option" where
  "parse_int64 s =
     (let neg = has_prefix s ''-''; ds = (if neg \<or> has_prefix s ''+'' then tl s else s);
          n = (if neg then - digits_value ds else digits_value ds)
      in if ds \<noteq> [] \<and> list_all is_digit ds \<and> min_int64 \<le> n \<and> n \<le> max_int64 then Some n else None)"

section \<open>MAIL\<close>

definition the_dsn :: "dsn_params option \<Rightarrow> dsn_params" where
  "the_dsn d = (case d of None \<Rightarrow> empty_dsn | Some x \<Rightarrow> x)"

text \<open>The cases of the switch over the parameters of \<^verbatim>\<open>MAIL FROM\<close>\<close>
definition mail_size :: "mail_from_args \<Rightarrow> string \<Rightarrow> envelope_error + mail_from_args" where
  "mail_size out val =
     (case parse_int64 val of
        None \<Rightarrow> Inl EnvSize
      | Some n \<Rightarrow> if n < 0 then Inl EnvSize else Inr (out\<lparr>ma_has_size := True, ma_size := n\<rparr>))"

definition mail_body :: "mail_from_args \<Rightarrow> string \<Rightarrow> envelope_error + mail_from_args" where
  "mail_body out val =
     (let v = to_upper val in if v \<noteq> ''7BIT'' \<and> v \<noteq> ''8BITMIME'' then Inl EnvBody else Inr (out\<lparr>ma_body := v\<rparr>))"

definition mail_ret :: "mail_from_args \<Rightarrow> string \<Rightarrow> envelope_error + mail_from_args" where
  "mail_ret out val =
     (if dsn_return (the_dsn (ma_dsn out)) \<noteq> [] then Inl (EnvDuplicate ''RET'')
      else (let v = to_upper val in
            if v \<noteq> ''FULL'' \<and> v \<noteq> ''HDRS'' then Inl EnvRet
            else Inr (out\<lparr>ma_dsn := Some ((the_dsn (ma_dsn out))\<lparr>dsn_return := v\<rparr>)\<rparr>)))"

definition mail_envid :: "mail_from_args \<Rightarrow> string \<Rightarrow> envelope_error + mail_from_args" where
  "mail_envid out val =
     (if envelope_id (the_dsn (ma_dsn out)) \<noteq> [] then Inl (EnvDuplicate ''ENVID'')
      else if \<not> validate_xtext val 100 then Inl EnvXText
      else Inr (out\<lparr>ma_dsn := Some ((the_dsn (ma_dsn out))\<lparr>envelope_id := val\<rparr>)\<rparr>))"

definition mail_kv :: "mail_from_args \<Rightarrow> string \<Rightarrow> string \<Rightarrow> envelope_error + mail_from_args" where
  "mail_kv out key val =
     (if key = ''SIZE'' then mail_size out val
      else if key = ''BODY'' then mail_body out val
      else if key = ''RET'' then mail_ret out val
      else if key = ''ENVID'' then mail_envid out val
      else Inl (EnvParamUnsupported key))"

definition mail_flag :: "mail_from_args \<Rightarrow> envelope_error + mail_from_args" where
  "mail_flag out = (if ma_require_tls out then Inl (EnvDuplicate ''REQUIRETLS'') else Inr (out\<lparr>ma_require_tls := True\<rparr>))"

definition mail_param :: "mail_from_args \<Rightarrow> string \<Rightarrow> envelope_error + mail_from_args" where
  "mail_param out p =
     (if equal_fold (trim_space p) ''REQUIRETLS'' then mail_flag out
      else if equal_fold (trim_space p) ''SMTPUTF8'' then Inl EnvSMTPUTF8Param
      else (case split_param_kv p of
              None \<Rightarrow> Inl (EnvParamInvalid p)
            | Some kv \<Rightarrow> mail_kv out (fst kv) (snd kv)))"

fun mail_params :: "mail_from_args \<Rightarrow> string list \<Rightarrow> envelope_error + mail_from_args" where
  "mail_params out [] = Inr out"
| "mail_params out (p # ps) = (case mail_param out p of Inl e \<Rightarrow> Inl e | Inr out' \<Rightarrow> mail_params out' ps)"

definition new_mail_args :: "string \<Rightarrow> mail_from_args" where
  "new_mail_args addr = \<lparr>ma_address = addr, ma_size = 0, ma_has_size = False, ma_body = [], ma_dsn = None, ma_require_tls = False\<rparr>"

definition parse_mail_from :: "string \<Rightarrow> envelope_error + mail_from_args" where
  "parse_mail_from arg =
     (if \<not> has_prefix (to_upper arg) ''FROM:'' then Inl EnvSyntax
      else (case split_path_and_params (trim_space (drop 5 arg)) of
              Inl e \<Rightarrow> Inl e
            | Inr (path, params) \<Rightarrow>
                (case normalize_path path of
                   Inl e \<Rightarrow> Inl (EnvAddress e)
                 | Inr addr \<Rightarrow>
                     if addr \<noteq> [] \<and> \<not> is_ascii addr then Inl EnvSMTPUTF8Address
                     else mail_params (new_mail_args addr) params)))"

section \<open>RCPT\<close>

fun notify_parts :: "string list \<Rightarrow> string list \<Rightarrow> envelope_error option" where
  "notify_parts [] seen = None"
| "notify_parts (p # ps) seen =
     (if p \<notin> {''SUCCESS'', ''FAILURE'', ''DELAY'', ''NEVER''} then Some EnvNotify
      else if p \<in> set seen then Some EnvNotifyDuplicate
      else notify_parts ps (p # seen))"

definition parse_notify :: "string \<Rightarrow> envelope_error + string list" where
  "parse_notify value =
     (let parts = split_on CHR '','' (to_upper value) in
      case notify_parts parts [] of
        Some e \<Rightarrow> Inl e
      | None \<Rightarrow> if ''NEVER'' \<in> set parts \<and> length parts \<noteq> 1 then Inl EnvNotifyNever else Inr parts)"

definition rcpt_notify :: "rcpt_to_args \<Rightarrow> string \<Rightarrow> envelope_error + rcpt_to_args" where
  "rcpt_notify out val = (case parse_notify val of Inl e \<Rightarrow> Inl e | Inr ns \<Rightarrow> Inr (out\<lparr>ra_dsn := (ra_dsn out)\<lparr>notify := ns\<rparr>\<rparr>))"

definition rcpt_orcpt :: "rcpt_to_args \<Rightarrow> string \<Rightarrow> envelope_error + rcpt_to_args" where
  "rcpt_orcpt out val =
     (case split_2 CHR '';'' val of
        (_, None) \<Rightarrow> Inl EnvOrcpt
      | (a, Some b) \<Rightarrow>
          if trim_space a = [] then Inl EnvOrcpt
          else if \<not> validate_xtext b 500 then Inl EnvXText
          else Inr (out\<lparr>ra_dsn := (ra_dsn out)\<lparr>original_recipient := to_lower a @ '';'' @ b\<rparr>\<rparr>))"

definition rcpt_kv :: "rcpt_to_args \<Rightarrow> string \<Rightarrow> string \<Rightarrow> envelope_error + rcpt_to_args" where
  "rcpt_kv out key val =
     (if key = ''NOTIFY'' then rcpt_notify out val
      else if key = ''ORCPT'' then rcpt_orcpt out val
      else Inl (EnvParamUnsupported key))"

fun rcpt_params :: "string list \<Rightarrow> rcpt_to_args \<Rightarrow> string list \<Rightarrow> envelope_error + rcpt_to_args" where
  "rcpt_params [] out seen = Inr out"
| "rcpt_params (p # ps) out seen =
     (case split_param_kv p of
        None \<Rightarrow> Inl (EnvParamInvalid p)
      | Some kv \<Rightarrow>
          if fst kv \<in> set seen then Inl (EnvDuplicate (fst kv))
          else (case rcpt_kv out (fst kv) (snd kv) of Inl e \<Rightarrow> Inl e | Inr out' \<Rightarrow> rcpt_params ps out' (fst kv # seen)))"

definition rcpt_address :: "string \<Rightarrow> string \<Rightarrow> envelope_error + string" where
  "rcpt_address path hostname =
     (if equal_fold (unwrap_path path) ''postmaster''
      then (let host = to_lower (trim_space hostname) in Inr (''postmaster@'' @ (if host = [] then ''localhost'' else host)))
      else (case normalize_path path of Inl e \<Rightarrow> Inl (EnvAddress e) | Inr a \<Rightarrow> Inr a))"

definition parse_rcpt_to :: "string \<Rightarrow> string \<Rightarrow> envelope_error + rcpt_to_args" where
  "parse_rcpt_to arg hostname =
     (if \<not> has_prefix (to_upper arg) ''TO:'' then Inl EnvSyntax
      else (case split_path_and_params (trim_space (drop 3 arg)) of
              Inl e \<Rightarrow> Inl e
            | Inr (path, params) \<Rightarrow>
                (case rcpt_address path hostname of
                   Inl e \<Rightarrow> Inl e
                 | Inr addr \<Rightarrow>
                     if addr = [] then Inl EnvEmptyRecipient
                     else if \<not> is_ascii addr then Inl EnvSMTPUTF8Address
                     else rcpt_params params \<lparr>ra_address = addr, ra_dsn = \<lparr>notify = [], original_recipient = []\<rparr>\<rparr> [])))"

section \<open>What is accepted\<close>

text \<open>The parameters of an accepted command are in range.\<close>
definition mail_args_ok :: "mail_from_args \<Rightarrow> bool" where
  "mail_args_ok a \<longleftrightarrow> 0 \<le> ma_size a \<and> ma_size a \<le> max_int64 \<and> ma_body a \<in> {'''', ''7BIT'', ''8BITMIME''} \<and>
     (case ma_dsn a of
        None \<Rightarrow> True
      | Some d \<Rightarrow> dsn_return d \<in> {'''', ''FULL'', ''HDRS''} \<and> (envelope_id d = [] \<or> validate_xtext (envelope_id d) 100) \<and> dsn_recipients d = [])"

definition rcpt_args_ok :: "rcpt_to_args \<Rightarrow> bool" where
  "rcpt_args_ok a \<longleftrightarrow> ra_address a \<noteq> [] \<and> CHR ''@'' \<in> set (ra_address a) \<and> is_ascii (ra_address a) \<and>
     distinct (notify (ra_dsn a)) \<and> set (notify (ra_dsn a)) \<subseteq> {''SUCCESS'', ''FAILURE'', ''DELAY'', ''NEVER''} \<and>
     (''NEVER'' \<in> set (notify (ra_dsn a)) \<longrightarrow> notify (ra_dsn a) = [''NEVER''])"

lemma parse_int64_bounds: "parse_int64 s = Some n \<Longrightarrow> min_int64 \<le> n \<and> n \<le> max_int64"
  by (auto simp: parse_int64_def Let_def split: if_splits)

lemma empty_dsn_fields [simp]: "dsn_return empty_dsn = []" "envelope_id empty_dsn = []" "dsn_recipients empty_dsn = []"
  by (simp_all add: empty_dsn_def)

text \<open>Each case of the switch keeps the parameters in range and the address as it is.\<close>
lemma mail_kv_cases_ok:
  assumes "mail_args_ok out"
  shows "mail_size out v = Inr out' \<Longrightarrow> mail_args_ok out' \<and> ma_address out' = ma_address out"
    "mail_body out v = Inr out' \<Longrightarrow> mail_args_ok out' \<and> ma_address out' = ma_address out"
    "mail_ret out v = Inr out' \<Longrightarrow> mail_args_ok out' \<and> ma_address out' = ma_address out"
    "mail_envid out v = Inr out' \<Longrightarrow> mail_args_ok out' \<and> ma_address out' = ma_address out"
    "mail_flag out = Inr out' \<Longrightarrow> mail_args_ok out' \<and> ma_address out' = ma_address out"
proof -
  show "mail_size out v = Inr out' \<Longrightarrow> mail_args_ok out' \<and> ma_address out' = ma_address out"
    using assms by (auto simp: mail_size_def mail_args_ok_def dest: parse_int64_bounds split: option.splits if_splits)
  show "mail_body out v = Inr out' \<Longrightarrow> mail_args_ok out' \<and> ma_address out' = ma_address out"
    using assms by (auto simp: mail_body_def mail_args_ok_def Let_def split: if_splits)
  show "mail_ret out v = Inr out' \<Longrightarrow> mail_args_ok out' \<and> ma_address out' = ma_address out"
    using assms by (cases "ma_dsn out") (auto simp: mail_ret_def mail_args_ok_def the_dsn_def Let_def split: if_splits)
  show "mail_envid out v = Inr out' \<Longrightarrow> mail_args_ok out' \<and> ma_address out' = ma_address out"
    using assms by (cases "ma_dsn out") (auto simp: mail_envid_def mail_args_ok_def the_dsn_def split: if_splits)
  show "mail_flag out = Inr out' \<Longrightarrow> mail_args_ok out' \<and> ma_address out' = ma_address out"
    using assms by (auto simp: mail_flag_def mail_args_ok_def split: if_splits)
qed

lemma mail_param_ok:
  assumes "mail_args_ok out" "mail_param out p = Inr out'"
  shows "mail_args_ok out' \<and> ma_address out' = ma_address out"
proof (cases "equal_fold (trim_space p) ''REQUIRETLS''")
  case True
  then show ?thesis using assms(2) mail_kv_cases_ok(5) [OF assms(1)] by (simp add: mail_param_def)
next
  case False
  then obtain kv where "mail_kv out (fst kv) (snd kv) = Inr out'"
    using assms(2) by (auto simp: mail_param_def split: if_split_asm option.split_asm)
  then consider "mail_size out (snd kv) = Inr out'" | "mail_body out (snd kv) = Inr out'" | "mail_ret out (snd kv) = Inr out'"
    | "mail_envid out (snd kv) = Inr out'"
    unfolding mail_kv_def by (auto split: if_split_asm)
  then show ?thesis by cases (erule mail_kv_cases_ok [OF assms(1)])+
qed

lemma mail_params_ok: "mail_args_ok out \<Longrightarrow> mail_params out ps = Inr out' \<Longrightarrow> mail_args_ok out' \<and> ma_address out' = ma_address out"
proof (induction ps arbitrary: out)
  case (Cons p ps)
  then obtain o1 where o1: "mail_param out p = Inr o1" "mail_params o1 ps = Inr out'" by (auto split: sum.splits)
  show ?case using Cons.IH [OF _ o1(2)] mail_param_ok [OF Cons.prems(1) o1(1)] by simp
qed simp

lemma parse_mail_from_ok:
  assumes "parse_mail_from arg = Inr a"
  shows "mail_args_ok a" "is_ascii (ma_address a)" "to_lower (ma_address a) = ma_address a"
    "ma_address a \<noteq> [] \<Longrightarrow> CHR ''@'' \<in> set (ma_address a)"
proof -
  obtain path params addr where p: "normalize_path path = Inr addr" "addr = [] \<or> is_ascii addr" "mail_params (new_mail_args addr) params = Inr a"
    using assms by (auto simp: parse_mail_from_def split: if_splits sum.splits prod.splits)
  have n: "mail_args_ok (new_mail_args addr)" by (simp add: mail_args_ok_def new_mail_args_def max_int64_def)
  have "ma_address a = addr" "mail_args_ok a" using mail_params_ok [OF n p(3)] by (simp_all add: new_mail_args_def)
  then show "mail_args_ok a" "is_ascii (ma_address a)" "to_lower (ma_address a) = ma_address a"
    "ma_address a \<noteq> [] \<Longrightarrow> CHR ''@'' \<in> set (ma_address a)"
    using p(2) normalize_path_Inr [OF p(1)] by (auto simp: is_ascii_def)
qed

lemma notify_parts_None: "notify_parts ps seen = None \<Longrightarrow> distinct seen \<Longrightarrow>
    distinct (rev seen @ ps) \<and> set ps \<subseteq> {''SUCCESS'', ''FAILURE'', ''DELAY'', ''NEVER''}"
proof (induction ps seen rule: notify_parts.induct)
  case (2 p ps seen)
  then show ?case by (auto split: if_splits)
qed simp

lemma parse_notify_ok:
  assumes "parse_notify v = Inr ns"
  shows "distinct ns" "set ns \<subseteq> {''SUCCESS'', ''FAILURE'', ''DELAY'', ''NEVER''}" "''NEVER'' \<in> set ns \<Longrightarrow> ns = [''NEVER'']" "ns \<noteq> []"
proof -
  have ns: "ns = split_on CHR '','' (to_upper v)" "notify_parts ns [] = None" "''NEVER'' \<in> set ns \<Longrightarrow> length ns = 1"
    using assms by (auto simp: parse_notify_def Let_def split: option.splits if_splits)
  from notify_parts_None [OF ns(2)] show "distinct ns" "set ns \<subseteq> {''SUCCESS'', ''FAILURE'', ''DELAY'', ''NEVER''}" by auto
  show "ns = [''NEVER'']" if "''NEVER'' \<in> set ns" using ns(3) [OF that] that by (cases ns) auto
  show "ns \<noteq> []" by (simp add: ns(1))
qed

lemma rcpt_kv_ok:
  assumes "rcpt_args_ok out" "rcpt_kv out key val = Inr out'"
  shows "rcpt_args_ok out' \<and> ra_address out' = ra_address out"
proof -
  have "rcpt_notify out val = Inr out' \<Longrightarrow> ?thesis"
    using assms(1) parse_notify_ok [of val] by (auto simp: rcpt_notify_def rcpt_args_ok_def split: sum.splits)
  moreover have "rcpt_orcpt out val = Inr out' \<Longrightarrow> ?thesis"
    using assms(1) by (auto simp: rcpt_orcpt_def rcpt_args_ok_def split: prod.splits option.splits if_splits)
  ultimately show ?thesis using assms(2) unfolding rcpt_kv_def by (simp split: if_split_asm)
qed

lemma rcpt_params_ok: "rcpt_params ps out seen = Inr out' \<Longrightarrow> rcpt_args_ok out \<Longrightarrow> rcpt_args_ok out' \<and> ra_address out' = ra_address out"
proof (induction ps arbitrary: out seen)
  case (Cons p ps)
  then obtain kv o1 where "rcpt_kv out (fst kv) (snd kv) = Inr o1" "rcpt_params ps o1 (fst kv # seen) = Inr out'"
    by (auto split: option.splits if_splits sum.splits)
  with Cons.IH rcpt_kv_ok [OF Cons.prems(2)] show ?case by metis
qed simp

lemma rcpt_address_at:
  assumes "rcpt_address path host = Inr a" "a \<noteq> []"
  shows "CHR ''@'' \<in> set a"
  using assms normalize_path_Inr(2) by (auto simp: rcpt_address_def Let_def split: if_splits sum.splits)

lemma parse_rcpt_to_ok: "parse_rcpt_to arg host = Inr a \<Longrightarrow> rcpt_args_ok a"
  by (auto simp: parse_rcpt_to_def rcpt_args_ok_def dest!: rcpt_params_ok rcpt_address_at split: if_splits sum.splits prod.splits)

end
