(* ===== verification/Ingress.thy ===== *)
theory Ingress
  imports Go_Prelude
begin

text \<open>
  Ingress control (\<^verbatim>\<open>internal/ingress\<close>): the sliding-window store \<^verbatim>\<open>localLimitStore\<close>, the rate
  limiter over a store, the configurable rules with their parser, and the cached DNSBL check with
  the resolver as a parameter. The interface \<^verbatim>\<open>LimitStore\<close> is a locale; the store in memory
  is its interpretation. The store in Redis is a client of a service and is not modelled.

  \<^verbatim>\<open>time.ParseDuration\<close> multiplies the fraction of a number in floating point; here the product
  is exact and rounded down.
\<close>

section \<open>Durations as text\<close>

text \<open>\<^verbatim>\<open>Duration.String\<close>: the fraction of \<open>v\<close> at \<open>prec\<close> digits without trailing zeros\<close>
fun frac_digits :: "nat \<Rightarrow> nat \<Rightarrow> string" where
  "frac_digits 0 v = []"
| "frac_digits (Suc p) v = frac_digits p (v div 10) @ [digit_char (v mod 10)]"

definition fmt_frac :: "nat \<Rightarrow> nat \<Rightarrow> string" where
  "fmt_frac prec v = (let ds = trim_right (\<lambda>c. c = CHR ''0'') (frac_digits prec v) in if ds = [] then [] else CHR ''.'' # ds)"

definition micro_sign :: string where
  "micro_sign = [CHR 0xC2, CHR 0xB5]"

definition duration_string :: "duration \<Rightarrow> string" where
  "duration_string d =
     (let u = nat \<bar>d\<bar>;
          body = (if u = 0 then ''0s''
                  else if u < 1000 then show_nat u @ ''ns''
                  else if u < 1000000 then show_nat (u div 1000) @ fmt_frac 3 u @ micro_sign @ ''s''
                  else if u < 1000000000 then show_nat (u div 1000000) @ fmt_frac 6 u @ ''ms''
                  else (let s = u div 1000000000; m = s div 60; h = m div 60 in
                        (if 0 < h then show_nat h @ ''h'' else []) @ (if 0 < m then show_nat (m mod 60) @ ''m'' else []) @
                        show_nat (s mod 60) @ fmt_frac 9 u @ ''s''))
      in if d < 0 then CHR ''-'' # body else body)"

text \<open>\<^verbatim>\<open>time.ParseDuration\<close>\<close>
definition number_of :: "string \<Rightarrow> nat" where
  "number_of ds = foldl (\<lambda>n c. n * 10 + (of_char c - 48)) 0 ds"

definition unit_of :: "string \<Rightarrow> nat option" where
  "unit_of u = map_of [(''ns'', 1), (''us'', 1000), (micro_sign @ ''s'', 1000), ([CHR 0xCE, CHR 0xBC] @ ''s'', 1000),
     (''ms'', 1000000), (''s'', 1000000000), (''m'', 60000000000), (''h'', 3600000000000)] u"

text \<open>One number with its unit, and the rest of the text\<close>
definition duration_item :: "string \<Rightarrow> (nat \<times> string) option" where
  "duration_item s =
     (let ip = takeWhile is_digit s; r1 = dropWhile is_digit s;
          dotted = (r1 \<noteq> [] \<and> hd r1 = CHR ''.'');
          fp = (if dotted then takeWhile is_digit (tl r1) else []);
          r2 = (if dotted then dropWhile is_digit (tl r1) else r1);
          u = takeWhile (\<lambda>c. c \<noteq> CHR ''.'' \<and> \<not> is_digit c) r2;
          r3 = dropWhile (\<lambda>c. c \<noteq> CHR ''.'' \<and> \<not> is_digit c) r2
      in if ip = [] \<and> fp = [] then None
         else (case unit_of u of
                 None \<Rightarrow> None
               | Some k \<Rightarrow> Some (number_of ip * k + (number_of fp * k) div 10 ^ length fp, r3)))"

function duration_items :: "nat \<Rightarrow> string \<Rightarrow> nat option" where
  "duration_items acc s =
     (if s = [] then Some acc
      else (case duration_item s of
              None \<Rightarrow> None
            | Some (n, rest) \<Rightarrow>
                if length rest < length s then (if 9223372036854775808 < acc + n then None else duration_items (acc + n) rest) else None))"
  by auto
termination by (relation "measure (\<lambda>(_, s). length s)") auto

declare duration_items.simps [simp del]

definition parse_duration :: "string \<Rightarrow> duration option" where
  "parse_duration s0 =
     (let neg = has_prefix s0 ''-''; s = (if neg \<or> has_prefix s0 ''+'' then tl s0 else s0) in
      if s = ''0'' then Some 0
      else if s = [] then None
      else (case duration_items 0 s of
              None \<Rightarrow> None
            | Some n \<Rightarrow> if neg then Some (- int n) else if int n \<le> max_int64 then Some (int n) else None))"

section \<open>The limit store\<close>

type_synonym limit_hits = "(string \<times> time list) list"

definition store_key :: "string \<Rightarrow> string \<Rightarrow> string" where
  "store_key ns key = ns @ CHR 0x00 # key"

definition kept_hits :: "limit_hits \<Rightarrow> string \<Rightarrow> time \<Rightarrow> duration \<Rightarrow> time list" where
  "kept_hits hits k t window = filter (\<lambda>ts. \<not> ts < t - window) (case map_of hits k of None \<Rightarrow> [] | Some ts \<Rightarrow> ts)"

datatype limit_error = LimitBackend

text \<open>\<^verbatim>\<open>localLimitStore.Allow\<close>; it never fails.\<close>
definition local_allow :: "limit_hits \<Rightarrow> string \<Rightarrow> string \<Rightarrow> time \<Rightarrow> int \<Rightarrow> duration \<Rightarrow> limit_hits \<times> (limit_error + bool)" where
  "local_allow hits ns key t limit window =
     (let k = store_key ns key; kept = kept_hits hits k t window in
      if limit \<le> int (length kept) then (dput k kept hits, Inr False)
      else (dput k (kept @ [t]) hits, Inr True))"

section \<open>The rate limiter\<close>

record rate_limiter =
  rl_name :: string
  rl_limit :: int
  rl_window :: duration

type_synonym 's limit_store = "'s \<Rightarrow> string \<Rightarrow> string \<Rightarrow> time \<Rightarrow> int \<Rightarrow> duration \<Rightarrow> 's \<times> (limit_error + bool)"

definition rate_allow :: "'s limit_store \<Rightarrow> rate_limiter option \<Rightarrow> 's \<Rightarrow> string \<Rightarrow> time \<Rightarrow> 's \<times> (limit_error + bool)" where
  "rate_allow allow lim s key t =
     (case lim of
        None \<Rightarrow> (s, Inr True)
      | Some r \<Rightarrow> if rl_limit r \<le> 0 then (s, Inr True) else allow s (rl_name r) key t (rl_limit r) (rl_window r))"

section \<open>Configurable rules\<close>

record rate_rule =
  ru_event :: string
  ru_key :: string
  ru_limit :: int
  ru_window :: duration

text \<open>\<^verbatim>\<open>parseInt\<close>: the product wraps at 64 bits.\<close>
fun parse_int_acc :: "int \<Rightarrow> string \<Rightarrow> int option" where
  "parse_int_acc n [] = Some n"
| "parse_int_acc n (c # cs) = (if \<not> is_digit c then None else parse_int_acc (wrap64 (n * 10 + int (of_char c - 48))) cs)"

definition parse_int :: "string \<Rightarrow> int option" where
  "parse_int s = parse_int_acc 0 (trim_space s)"

datatype rule_error = RuleFormat string | RuleLimit string | RuleWindow string | RuleEvent string | RuleKey string

definition parse_rate_rule :: "string \<Rightarrow> rule_error + rate_rule" where
  "parse_rate_rule ch =
     (case split_on CHR '':'' ch of
        [p0, p1, p2, p3] \<Rightarrow>
          (let event = to_lower (trim_space p0); key = to_lower (trim_space p1) in
           case parse_int p2 of
             None \<Rightarrow> Inl (RuleLimit ch)
           | Some limit \<Rightarrow>
               if limit \<le> 0 then Inl (RuleLimit ch)
               else (case parse_duration (trim_space p3) of
                       None \<Rightarrow> Inl (RuleWindow ch)
                     | Some window \<Rightarrow>
                         if window \<le> 0 then Inl (RuleWindow ch)
                         else if event \<notin> {''connect'', ''helo'', ''mailfrom''} then Inl (RuleEvent ch)
                         else if key \<notin> {''ip'', ''helo'', ''mailfrom'', ''ip+helo'', ''ip+mailfrom''} then Inl (RuleKey ch)
                         else Inr \<lparr>ru_event = event, ru_key = key, ru_limit = limit, ru_window = window\<rparr>))
      | _ \<Rightarrow> Inl (RuleFormat ch))"

fun parse_rate_chunks :: "string list \<Rightarrow> rule_error + rate_rule list" where
  "parse_rate_chunks [] = Inr []"
| "parse_rate_chunks (c # cs) =
     (let ch = trim_space c in
      if ch = [] then parse_rate_chunks cs
      else (case parse_rate_rule ch of
              Inl e \<Rightarrow> Inl e
            | Inr r \<Rightarrow> (case parse_rate_chunks cs of Inl e \<Rightarrow> Inl e | Inr rs \<Rightarrow> Inr (r # rs))))"

definition parse_rate_rules :: "string \<Rightarrow> rule_error + rate_rule list" where
  "parse_rate_rules raw0 =
     (let raw = trim_space raw0 in if raw = [] then Inr [] else parse_rate_chunks (split_on CHR '';'' raw))"

text \<open>\<^verbatim>\<open>FlexibleLimiter\<close>: the bucket of a rule depends on the rule and its index only, so it is computed on use.\<close>
definition rule_bucket :: "nat \<Rightarrow> rate_rule \<Rightarrow> rate_limiter" where
  "rule_bucket i r =
     \<lparr>rl_name = ''rule:'' @ show_nat i @ '':'' @ ru_event r @ '':'' @ ru_key r @ '':'' @ show_int (ru_limit r) @ '':'' @ duration_string (ru_window r),
      rl_limit = ru_limit r, rl_window = ru_window r\<rparr>"

definition build_rate_key :: "string \<Rightarrow> string \<Rightarrow> string \<Rightarrow> string \<Rightarrow> string" where
  "build_rate_key key_type ip0 helo0 mail_from0 =
     (let ip = to_lower (trim_space ip0); helo = to_lower (trim_space helo0); from = to_lower (trim_space mail_from0) in
      if key_type = ''ip'' then ip
      else if key_type = ''helo'' then helo
      else if key_type = ''mailfrom'' then from
      else if key_type = ''ip+helo'' then ip @ ''|'' @ helo
      else if key_type = ''ip+mailfrom'' then ip @ ''|'' @ from
      else [])"

fun flex_allow_in :: "'s limit_store \<Rightarrow> nat \<Rightarrow> rate_rule list \<Rightarrow> 's \<Rightarrow> string \<Rightarrow> string \<Rightarrow> string \<Rightarrow> string \<Rightarrow> time \<Rightarrow> 's \<times> (limit_error + bool)" where
  "flex_allow_in allow i [] s event ip helo from t = (s, Inr True)"
| "flex_allow_in allow i (r # rs) s event ip helo from t =
     (let key = build_rate_key (ru_key r) ip helo from in
      if ru_event r \<noteq> event \<or> key = [] then flex_allow_in allow (Suc i) rs s event ip helo from t
      else (let x = rate_allow allow (Some (rule_bucket i r)) s key t in
            if snd x = Inr True then flex_allow_in allow (Suc i) rs (fst x) event ip helo from t else x))"

definition flex_allow :: "'s limit_store \<Rightarrow> rate_rule list \<Rightarrow> 's \<Rightarrow> string \<Rightarrow> string \<Rightarrow> string \<Rightarrow> string \<Rightarrow> time \<Rightarrow> 's \<times> (limit_error + bool)" where
  "flex_allow allow rules s event ip helo from t = flex_allow_in allow 0 rules s event ip helo from t"

section \<open>DNS block lists\<close>

record dnsbl_entry =
  dn_listed :: bool
  dn_zone :: string
  dn_expires :: time

record dnsbl =
  dn_zones :: "string list"
  dn_ttl :: duration
  dn_cache :: "(string \<times> dnsbl_entry) list"

definition reverse_ipv4 :: "string \<Rightarrow> string option" where
  "reverse_ipv4 ip =
     (case split_on CHR ''.'' (trim_space ip) of
        [a, b, c, d] \<Rightarrow> Some (d @ ''.'' @ c @ ''.'' @ b @ ''.'' @ a)
      | _ \<Rightarrow> None)"

text \<open>The zones in order; a lookup that fails or returns nothing does not list the address.\<close>
fun dnsbl_zone :: "(string \<Rightarrow> string list option) \<Rightarrow> string \<Rightarrow> string list \<Rightarrow> string option" where
  "dnsbl_zone lookup rip [] = None"
| "dnsbl_zone lookup rip (z # zs) =
     (case lookup (rip @ ''.'' @ z) of
        Some (a # as) \<Rightarrow> Some z
      | _ \<Rightarrow> dnsbl_zone lookup rip zs)"

definition dnsbl_set :: "dnsbl \<Rightarrow> string \<Rightarrow> string option \<Rightarrow> time \<Rightarrow> dnsbl" where
  "dnsbl_set d ip z t = d\<lparr>dn_cache := dput ip \<lparr>dn_listed = (z \<noteq> None), dn_zone = (case z of None \<Rightarrow> [] | Some x \<Rightarrow> x), dn_expires = t + dn_ttl d\<rparr>
     (dn_cache d)\<rparr>"

definition dnsbl_check :: "(string \<Rightarrow> string list option) \<Rightarrow> time \<Rightarrow> dnsbl \<Rightarrow> string \<Rightarrow> string option" where
  "dnsbl_check lookup t d ip = (case reverse_ipv4 ip of None \<Rightarrow> None | Some rip \<Rightarrow> dnsbl_zone lookup rip (dn_zones d))"

definition is_listed :: "(string \<Rightarrow> string list option) \<Rightarrow> time \<Rightarrow> dnsbl option \<Rightarrow> string \<Rightarrow> dnsbl option \<times> bool \<times> string" where
  "is_listed lookup t dn ip =
     (case dn of
        None \<Rightarrow> (None, False, [])
      | Some d \<Rightarrow>
          if dn_zones d = [] then (Some d, False, [])
          else (let fresh = (case map_of (dn_cache d) ip of Some c \<Rightarrow> t < dn_expires c | None \<Rightarrow> False);
                    z = dnsbl_check lookup t d ip
                in if fresh then (let c = the (map_of (dn_cache d) ip) in (Some d, dn_listed c, dn_zone c))
                   else (Some (dnsbl_set d ip z t), z \<noteq> None, case z of None \<Rightarrow> [] | Some x \<Rightarrow> x)))"

section \<open>The interface of a limit store\<close>

text \<open>
  What a limiter relies on. \<open>recent s ns key t w\<close> is the number of calls the store granted to the key since
  \<open>t - w\<close>. Namespaces without a NUL byte do not interfere.
\<close>
locale limit_store =
  fixes allow :: "'s limit_store" and recent :: "'s \<Rightarrow> string \<Rightarrow> string \<Rightarrow> time \<Rightarrow> duration \<Rightarrow> nat"
  assumes granted: "allow s ns k t l w = (s', Inr True) \<Longrightarrow> 0 \<le> w \<Longrightarrow>
        int (recent s ns k t w) < l \<and> recent s' ns k t w = recent s ns k t w + 1"
    and refused: "allow s ns k t l w = (s', Inr False) \<Longrightarrow> l \<le> int (recent s ns k t w) \<and> recent s' ns k t w = recent s ns k t w"
    and apart: "allow s ns k t l w = (s', r) \<Longrightarrow> ns' \<noteq> ns \<Longrightarrow> CHR 0x00 \<notin> set ns \<Longrightarrow> CHR 0x00 \<notin> set ns' \<Longrightarrow>
        recent s' ns' k' t' w' = recent s ns' k' t' w'"
begin

text \<open>A grant of the limiter leaves the key within its limit.\<close>
lemma rate_allow_bound:
  assumes "rate_allow allow (Some r) s k t = (s', Inr True)" "0 < rl_limit r" "0 \<le> rl_window r"
  shows "int (recent s' (rl_name r) k t (rl_window r)) \<le> rl_limit r"
  using assms granted [of s "rl_name r" k t "rl_limit r" "rl_window r" s'] by (simp add: rate_allow_def)

end

lemma store_key_inj: "CHR 0x00 \<notin> set a \<Longrightarrow> CHR 0x00 \<notin> set b \<Longrightarrow> store_key a k = store_key b k' \<longleftrightarrow> a = b \<and> k = k'"
proof -
  assume a: "CHR 0x00 \<notin> set a" "CHR 0x00 \<notin> set b"
  have "takeWhile (\<lambda>c. c \<noteq> CHR 0x00) (store_key n x) = n" if "CHR 0x00 \<notin> set n" for n x
    using that by (subst store_key_def, subst takeWhile_append2) auto
  then show ?thesis using a by (metis append_same_eq list.inject same_append_eq store_key_def)
qed

interpretation local_limits: limit_store local_allow "\<lambda>s ns k t w. length (kept_hits s (store_key ns k) t w)"
proof (unfold_locales, goal_cases)
  case (1 s ns k t l w s')
  then show ?case by (auto simp: local_allow_def Let_def kept_hits_def split: if_splits)
next
  case (2 s ns k t l w s')
  then show ?case by (auto simp: local_allow_def Let_def kept_hits_def split: if_splits)
next
  case (3 s ns k t l w s' r ns' k' t' w')
  then have "store_key ns' k' \<noteq> store_key ns k" by (simp add: store_key_inj)
  with 3(1) show ?case by (auto simp: local_allow_def Let_def kept_hits_def split: if_splits)
qed

section \<open>The window over a run\<close>

text \<open>Calls to one store by many clients, in order: key, time, limit and window of each; the times granted to a key\<close>
type_synonym limit_call = "string \<times> string \<times> time \<times> int \<times> duration"

fun grants :: "limit_hits \<Rightarrow> limit_call list \<Rightarrow> string \<Rightarrow> time list" where
  "grants s [] k = []"
| "grants s ((ns, key, t, l, w) # cs) k =
     (let r = local_allow s ns key t l w in
      (if store_key ns key = k \<and> snd r = Inr True then [t] else []) @ grants (fst r) cs k)"

definition uses_key :: "string \<Rightarrow> int \<Rightarrow> duration \<Rightarrow> limit_call list \<Rightarrow> bool" where
  "uses_key k l w cs \<longleftrightarrow> (\<forall>(ns, key, t, l', w') \<in> set cs. store_key ns key = k \<longrightarrow> l' = l \<and> w' = w)"

definition call_times :: "limit_call list \<Rightarrow> time list" where
  "call_times cs = map (\<lambda>(_, _, t, _, _). t) cs"

lemma kept_hits_dput:
  "kept_hits (dput k ts s) k' t w = (if k' = k then filter (\<lambda>x. \<not> x < t - w) ts else kept_hits s k' t w)"
  by (simp add: kept_hits_def)

abbreviation hits_of :: "limit_hits \<Rightarrow> string \<Rightarrow> time list" where
  "hits_of s k \<equiv> (case map_of s k of None \<Rightarrow> [] | Some ts \<Rightarrow> ts)"

abbreviation in_window :: "time \<Rightarrow> duration \<Rightarrow> time list \<Rightarrow> time list" where
  "in_window a w ts \<equiv> filter (\<lambda>x. a \<le> x \<and> x \<le> a + w) ts"

text \<open>The store remembers what matters of the grants \<open>G\<close> so far: those that a later window can reach.\<close>
definition remembers :: "limit_hits \<Rightarrow> string \<Rightarrow> duration \<Rightarrow> time \<Rightarrow> time list \<Rightarrow> bool" where
  "remembers s k w T G \<longleftrightarrow> (\<forall>t \<ge> T. kept_hits s k t w = filter (\<lambda>x. \<not> x < t - w) G)"

lemma remembers_later: "remembers s k w T G \<Longrightarrow> T \<le> T' \<Longrightarrow> remembers s k w T' G"
  by (simp add: remembers_def)

lemma length_filter_mono: "(\<And>x. x \<in> set xs \<Longrightarrow> P x \<Longrightarrow> Q x) \<Longrightarrow> length (filter P xs) \<le> length (filter Q xs)"
  by (induction xs) auto

lemma window_grant:
  assumes "int (length (filter (\<lambda>x. \<not> x < t - w) G)) < l" "\<And>a. int (length (in_window a w G)) \<le> l"
  shows "int (length (in_window a w (G @ [t]))) \<le> l"
proof (cases "a \<le> t \<and> t \<le> a + w")
  case True
  then have "length (in_window a w G) \<le> length (filter (\<lambda>x. \<not> x < t - w) G)"
    by (intro length_filter_mono) auto
  with assms(1) True show ?thesis by simp
qed (use assms(2) in auto)

lemma grants_window:
  assumes "uses_key k l w cs" "sorted (T # call_times cs)" "remembers s k w T G" "\<And>a. int (length (in_window a w G)) \<le> l"
  shows "int (length (in_window a w (G @ grants s cs k))) \<le> l"
  using assms
proof (induction cs arbitrary: s T G)
  case (Cons c cs)
  obtain ns key t l' w' where c: "c = (ns, key, t, l', w')" by (metis prod.collapse)
  define r where "r = local_allow s ns key t l' w'"
  have T: "T \<le> t" "sorted (t # call_times cs)" using Cons.prems(2) by (auto simp: c call_times_def)
  have u: "uses_key k l w cs" using Cons.prems(1) by (simp add: uses_key_def)
  show ?case
  proof (cases "store_key ns key = k")
    case True
    then have lw: "l' = l" "w' = w" using Cons.prems(1) by (auto simp: uses_key_def c)
    have kept: "kept_hits s k t w = filter (\<lambda>x. \<not> x < t - w) G"
      using Cons.prems(3) T(1) by (simp add: remembers_def)
    define G' where "G' = (if snd r = Inr True then G @ [t] else G)"
    have "kept_hits (fst r) k t' w = filter (\<lambda>x. \<not> x < t' - w) G'" if "t \<le> t'" for t'
      using that kept by (auto simp: r_def G'_def local_allow_def Let_def True lw kept_hits_dput intro!: filter_cong)
    then have "remembers (fst r) k w t G'" by (simp add: remembers_def)
    moreover have "int (length (in_window a w G')) \<le> l" for a
      using window_grant [of t w G l] Cons.prems(4) kept
      by (auto simp: G'_def r_def local_allow_def Let_def True lw split: if_splits)
    ultimately have "int (length (in_window a w (G' @ grants (fst r) cs k))) \<le> l"
      using Cons.IH [OF u T(2)] by blast
    then show ?thesis by (auto simp: c r_def [symmetric] True G'_def split: if_splits)
  next
    case False
    then have "kept_hits (fst r) k t' w = kept_hits s k t' w" for t'
      by (auto simp: r_def local_allow_def Let_def kept_hits_dput)
    then have "remembers (fst r) k w t G" using remembers_later [OF Cons.prems(3) T(1)] by (simp add: remembers_def)
    from Cons.IH [OF u T(2) this Cons.prems(4)] show ?thesis by (simp add: c r_def [symmetric] False)
  qed
qed simp

section \<open>Properties\<close>

text \<open>The ingress limiter keeps its promise over every run: whatever other clients call in between, in no interval as
  long as the window does one key get more grants than its limit.\<close>
theorem rate_window_bound:
  assumes "uses_key k l w cs" "sorted (call_times cs)" "0 \<le> l"
  shows "int (length (in_window a w (grants [] cs k))) \<le> l"
proof (cases cs)
  case (Cons c cs')
  have "sorted (hd (call_times cs) # call_times cs)" using assms(2) Cons by (auto simp: call_times_def)
  from grants_window [OF assms(1) this, of "[]" "[]" a] show ?thesis
    using assms(3) by (simp add: remembers_def kept_hits_def)
qed (use assms(3) in simp)

definition w_calls :: "limit_call list" where
  "w_calls = [(''ip'', ''a'', 1, 2, 10), (''ip'', ''b'', 2, 1, 10), (''ip'', ''a'', 3, 2, 10), (''ip'', ''a'', 4, 2, 10), (''ip'', ''a'', 12, 2, 10)]"

theorem rate_window_bound_witness:
  "grants [] w_calls (store_key ''ip'' ''a'') = [1, 3, 12] \<and> int (length (in_window 3 10 (grants [] w_calls (store_key ''ip'' ''a'')))) \<le> 2"
proof
  show "grants [] w_calls (store_key ''ip'' ''a'') = [1, 3, 12]" by code_simp
  show "int (length (in_window 3 10 (grants [] w_calls (store_key ''ip'' ''a'')))) \<le> 2"
    by (rule rate_window_bound) (auto simp: uses_key_def w_calls_def call_times_def store_key_def)
qed

end
