(* ===== verification/Smtp_Session.thy ===== *)
theory Smtp_Session
  imports Smtp_Auth Smtp_Envelope Ingress Queue_Backend
begin

text \<open>
  A connection of the SMTP listener (\<^verbatim>\<open>internal/smtp\<close>): the session (\<^verbatim>\<open>session.go\<close>), its limits
  (\<^verbatim>\<open>internal/config/smtp_limits.go\<close>), who may receive (\<^verbatim>\<open>recipient_policy.go\<close>), the commands
  (\<^verbatim>\<open>envelope.go\<close>, \<^verbatim>\<open>data.go\<close>, \<^verbatim>\<open>auth.go\<close>, \<^verbatim>\<open>starttls.go\<close>, \<^verbatim>\<open>policy_hook.go\<close>, \<^verbatim>\<open>signing_identity.go\<close>) and the loop of
  \<^verbatim>\<open>server.go\<close> that reads and dispatches them.

  The server calls code that is a parameter here: the evaluation of SPF, DKIM, DMARC and ARC with the header that
  reports it, the policy hook, the author of a message, the authentication backend, the clock, the random identifier
  and the queue. A parameter gets the number of the command, so that it may answer differently every time. Metrics,
  spans, log lines and the DMARC report store, which nothing here reads, are left out. The text of a reply to a
  malformed argument is left empty.
\<close>

section \<open>Limits\<close>

record smtp_limits =
  sl_max_connections :: int
  sl_max_connections_per_ip :: int
  sl_max_recipients :: int
  sl_max_messages :: int
  sl_max_bytes :: int
  sl_max_auth_failures :: int
  sl_max_rcpt_failures :: int
  sl_idle_timeout :: duration
  sl_max_lifetime :: duration

definition limits_validate :: "smtp_limits \<Rightarrow> bool" where
  "limits_validate c =
     list_all (\<lambda>n. \<not> n < 0) [sl_max_connections c, sl_max_connections_per_ip c, sl_max_recipients c, sl_max_messages c, sl_max_bytes c,
       sl_max_auth_failures c, sl_max_rcpt_failures c, sl_idle_timeout c, sl_max_lifetime c]"

definition default_to :: "int \<Rightarrow> int \<Rightarrow> int" where
  "default_to d n = (if n = 0 then d else n)"

definition with_defaults :: "smtp_limits \<Rightarrow> smtp_limits" where
  "with_defaults c =
     \<lparr>sl_max_connections = default_to 1024 (sl_max_connections c), sl_max_connections_per_ip = default_to 32 (sl_max_connections_per_ip c),
      sl_max_recipients = default_to 100 (sl_max_recipients c), sl_max_messages = default_to 100 (sl_max_messages c),
      sl_max_bytes = default_to (100 * 1024 * 1024) (sl_max_bytes c), sl_max_auth_failures = default_to 5 (sl_max_auth_failures c),
      sl_max_rcpt_failures = default_to 20 (sl_max_rcpt_failures c), sl_idle_timeout = default_to (5 * minute) (sl_idle_timeout c),
      sl_max_lifetime = default_to (10 * minute) (sl_max_lifetime c)\<rparr>"

section \<open>The session\<close>

record session =
  ss_signing :: "signing_identity option"
  ss_quarantine :: "quarantine_info option"
  ss_close :: bool
  ss_auth_failures :: int
  ss_rcpt_failures :: int
  ss_messages :: int
  ss_remote :: string
  ss_helo :: string
  ss_mail_from :: string
  ss_body_mode :: string
  ss_dsn :: "dsn_params option"
  ss_require_tls :: bool
  ss_rcpt_to :: "string list"
  ss_data :: string
  ss_seen_helo :: bool
  ss_extended :: bool
  ss_tls :: bool
  ss_auth_user :: string
  ss_auth :: principal
  ss_auth_ok :: bool

definition new_session :: "string \<Rightarrow> bool \<Rightarrow> session" where
  "new_session remote tls =
     \<lparr>ss_signing = None, ss_quarantine = None, ss_close = False, ss_auth_failures = 0, ss_rcpt_failures = 0, ss_messages = 0,
      ss_remote = remote, ss_helo = [], ss_mail_from = [], ss_body_mode = ''7BIT'', ss_dsn = None, ss_require_tls = False,
      ss_rcpt_to = [], ss_data = [], ss_seen_helo = False, ss_extended = False, ss_tls = tls, ss_auth_user = [],
      ss_auth = no_principal, ss_auth_ok = False\<rparr>"

definition finish_data :: "session \<Rightarrow> session" where
  "finish_data ss = ss\<lparr>ss_mail_from := [], ss_rcpt_to := [], ss_data := [], ss_quarantine := None, ss_signing := None,
     ss_dsn := None, ss_require_tls := False\<rparr>"

definition reset_transaction :: "session \<Rightarrow> session" where
  "reset_transaction ss = (finish_data ss)\<lparr>ss_body_mode := ''7BIT''\<rparr>"

definition begin_transaction :: "session \<Rightarrow> mail_from_args \<Rightarrow> session" where
  "begin_transaction ss a =
     (let s = (reset_transaction ss)\<lparr>ss_mail_from := ma_address a, ss_dsn := ma_dsn a, ss_require_tls := ma_require_tls a\<rparr> in
      if ma_body a \<noteq> [] then s\<lparr>ss_body_mode := ma_body a\<rparr> else s)"

definition accept_greeting :: "session \<Rightarrow> bool \<Rightarrow> session" where
  "accept_greeting ss extended = (reset_transaction ss)\<lparr>ss_seen_helo := True, ss_extended := extended\<rparr>"

definition reset_after_tls :: "session \<Rightarrow> session" where
  "reset_after_tls ss = (reset_transaction ss)\<lparr>ss_tls := True, ss_seen_helo := False, ss_extended := False,
     ss_auth_user := [], ss_auth := no_principal, ss_auth_ok := False\<rparr>"

section \<open>Recipients\<close>

record inbound_policy =
  ip_local_domains :: "string list"
  ip_local_recipients :: "string list"
  ip_trusted_cidrs :: "string list"

record recipient_policy =
  rp_domains :: "string list"
  rp_recipients :: "string list"
  rp_trusted :: "ip_net list"

definition local_label :: "string \<Rightarrow> bool" where
  "local_label l \<longleftrightarrow> l \<noteq> [] \<and> length l \<le> 63 \<and> hd l \<noteq> CHR ''-'' \<and> last l \<noteq> CHR ''-'' \<and>
     list_all (\<lambda>c. is_lower c \<or> is_digit c \<or> c = CHR ''-'') l"

definition valid_local_domain :: "string \<Rightarrow> bool" where
  "valid_local_domain d \<longleftrightarrow> d \<noteq> [] \<and> length d \<le> 253 \<and> list_all local_label (split_on CHR ''.'' d)"

text \<open>The domain after the last at sign; \<open>None\<close> when there is no character before it\<close>
definition after_last_at :: "string \<Rightarrow> string option" where
  "after_last_at raw =
     (case index_byte (rev raw) CHR ''@'' of None \<Rightarrow> None | Some i \<Rightarrow> if length raw - 1 - i = 0 then None else Some (rev (take i (rev raw))))"

text \<open>\<^verbatim>\<open>InboundPolicyConfig.Validate\<close>; \<^verbatim>\<open>mail.ParseAddress\<close> and \<^verbatim>\<open>net.ParseCIDR\<close> are parameters.\<close>
definition inbound_validate :: "(string \<Rightarrow> string option) \<Rightarrow> (string \<Rightarrow> ip_net option) \<Rightarrow> inbound_policy \<Rightarrow> bool" where
  "inbound_validate parse_address parse_cidr c =
     (let domains = map to_lower (ip_local_domains c) in
      list_all valid_local_domain domains \<and>
      list_all (\<lambda>raw. parse_address raw = Some raw \<and> \<not> contains_any raw (''<> '' @ [CHR 0x09, CR, LF]) \<and>
        (case after_last_at raw of None \<Rightarrow> False | Some d \<Rightarrow> to_lower d \<in> set domains) \<and> is_ascii raw) (ip_local_recipients c) \<and>
      list_all (\<lambda>n. parse_cidr n \<noteq> None) (ip_trusted_cidrs c))"

definition new_recipient_policy :: "(string \<Rightarrow> string option) \<Rightarrow> (string \<Rightarrow> ip_net option) \<Rightarrow> inbound_policy \<Rightarrow> recipient_policy option" where
  "new_recipient_policy parse_address parse_cidr c =
     (if \<not> inbound_validate parse_address parse_cidr c then None
      else Some \<lparr>rp_domains = map to_lower (ip_local_domains c), rp_recipients = map to_lower (ip_local_recipients c),
                 rp_trusted = map (the \<circ> parse_cidr) (ip_trusted_cidrs c)\<rparr>)"

datatype rcpt_reason = Permitted | RelayDenied | UnknownRecipient

definition authorize :: "recipient_policy \<Rightarrow> ip option \<Rightarrow> bool \<Rightarrow> string \<Rightarrow> rcpt_reason" where
  "authorize p peer authenticated recipient =
     (case domain_of recipient of
        None \<Rightarrow> RelayDenied
      | Some domain \<Rightarrow>
          if domain \<in> set (rp_domains p) then
            (if to_lower recipient \<in> set (rp_recipients p) then Permitted else UnknownRecipient)
          else if authenticated then Permitted
          else if (case peer of None \<Rightarrow> False | Some a \<Rightarrow> list_ex (\<lambda>n. net_contains n a) (rp_trusted p)) then Permitted
          else RelayDenied)"

section \<open>The server and the state of a connection\<close>

datatype mail_action = ActionAccept | ActionQuarantine | ActionReject

record mail_verdict =
  mv_action :: mail_action
  mv_header :: string

datatype hook_action = HookAccept | HookQuarantine | HookReject | HookTempfail

record hook_request =
  hr_stage :: string
  hr_remote_ip :: string
  hr_helo :: string
  hr_mail_from :: string
  hr_recipients :: "string list"
  hr_recipient :: string
  hr_tls :: bool
  hr_submission :: bool
  hr_authenticated :: bool
  hr_message_bytes :: nat
  hr_message :: string

record ('e, 's, 'r) smtp_server =
  sv_hostname :: string
  sv_max_message_bytes :: int
  sv_limits :: smtp_limits
  sv_submission :: bool
  sv_implicit_tls :: bool
  sv_tls :: bool
  sv_submission_auth :: bool
  sv_sender_identity :: bool
  sv_insecure_auth :: bool
  sv_delivery_mode :: string
  sv_route_modes :: "string list"
  sv_dkim_profiles :: string
  sv_quarantine_enabled :: bool
  sv_quarantine_retention :: duration
  sv_send_body :: bool
  sv_policy :: "recipient_policy option"
  sv_hook :: "(nat \<Rightarrow> hook_request \<Rightarrow> hook_action option) option"
  sv_auth_backend :: "auth_backend option"
  sv_mailauth :: "nat \<Rightarrow> ip option \<Rightarrow> string \<Rightarrow> string \<Rightarrow> string \<Rightarrow> string list \<Rightarrow> mail_verdict"
  sv_from_address :: "string \<Rightarrow> string option"
  sv_limiter :: "rate_limiter option"
  sv_rules :: "rate_rule list option"
  sv_allow :: "'r limit_store"
  sv_lookup_host :: "string \<Rightarrow> string list option"
  sv_queue :: "('e, 's) backend"
  sv_env :: "nat \<Rightarrow> 'e"
  sv_now :: "nat \<Rightarrow> nat \<Rightarrow> time"
  sv_new_id :: "nat \<Rightarrow> string option"
  sv_trace :: "nat \<Rightarrow> string \<times> string"
  sv_date :: "time \<Rightarrow> string"

text \<open>\<open>sm_ip\<close> is the parsed peer address, of which \<open>ss_remote\<close> is the text with the port; \<open>sm_tick\<close> counts the commands.\<close>
record ('s, 'r) smtp_state =
  sm_session :: session
  sm_conn :: conn
  sm_ip :: "ip option"
  sm_queue :: 's
  sm_rate :: 'r
  sm_dnsbl :: "dnsbl option"
  sm_tick :: nat

definition resp :: "('s, 'r) smtp_state \<Rightarrow> int \<Rightarrow> string \<Rightarrow> ('s, 'r) smtp_state" where
  "resp st code msg = st\<lparr>sm_conn := write_resp (sm_conn st) code msg\<rparr>"

definition put_session :: "('s, 'r) smtp_state \<Rightarrow> session \<Rightarrow> ('s, 'r) smtp_state" where
  "put_session st ss = st\<lparr>sm_session := ss\<rparr>"

abbreviation smtp_lim :: "('e, 's, 'r) smtp_server \<Rightarrow> smtp_limits" where
  "smtp_lim sv \<equiv> with_defaults (sv_limits sv)"

definition outbound_mode :: "string \<Rightarrow> bool" where
  "outbound_mode m \<longleftrightarrow> to_lower (trim_space m) \<in> {''mx'', ''relay''}"

definition require_tls_available :: "('e, 's, 'r) smtp_server \<Rightarrow> bool" where
  "require_tls_available sv \<longleftrightarrow>
     sv_submission sv \<and> sv_submission_auth sv \<and> outbound_mode (sv_delivery_mode sv) \<and> list_all outbound_mode (sv_route_modes sv)"

text \<open>A call of the flexible limiter for an event; an error of the store lets the client pass.\<close>
definition rate_event :: "('e, 's, 'r) smtp_server \<Rightarrow> ('s, 'r) smtp_state \<Rightarrow> string \<Rightarrow> string \<Rightarrow> string \<Rightarrow> ('s, 'r) smtp_state \<times> bool" where
  "rate_event sv st event helo from =
     (case (sm_ip st, sv_rules sv) of
        (Some a, Some rules) \<Rightarrow>
          (case flex_allow (sv_allow sv) rules (sm_rate st) event (ip_string a) helo from (sv_now sv (sm_tick st) 0) of
             (r, Inl _) \<Rightarrow> (st\<lparr>sm_rate := r\<rparr>, True)
           | (r, Inr ok) \<Rightarrow> (st\<lparr>sm_rate := r\<rparr>, ok))
      | _ \<Rightarrow> (st, True))"

section \<open>MAIL\<close>

definition mail_error_code :: "envelope_error \<Rightarrow> int" where
  "mail_error_code e = (case e of EnvSMTPUTF8Address \<Rightarrow> 553 | EnvSMTPUTF8Param \<Rightarrow> 555 | EnvParamUnsupported _ \<Rightarrow> 555 | _ \<Rightarrow> 501)"

text \<open>The checks on parsed arguments, in the order of the code\<close>
definition mail_refusal :: "('e, 's, 'r) smtp_server \<Rightarrow> session \<Rightarrow> mail_from_args \<Rightarrow> (int \<times> string) option" where
  "mail_refusal sv ss a =
     (if \<not> ss_extended ss \<and> (ma_has_size a \<or> ma_body a \<noteq> [] \<or> ma_dsn a \<noteq> None \<or> ma_require_tls a)
      then Some (555, ''MAIL parameters require EHLO'')
      else if ma_require_tls a \<and> \<not> require_tls_available sv then Some (555, ''REQUIRETLS is not available on this listener'')
      else if ma_has_size a \<and> sv_max_message_bytes sv < ma_size a then Some (552, ''message size exceeds fixed maximum message size'')
      else if sv_submission sv \<and> sv_sender_identity sv \<and> ss_auth_ok ss \<and> \<not> sender_allowed (ss_auth ss) (ma_address a)
      then Some (553, ''sender address rejected for authenticated identity'')
      else None)"

text \<open>\<^verbatim>\<open>handleMailCommand\<close>: the flag says that the connection closes.\<close>
definition handle_mail :: "('e, 's, 'r) smtp_server \<Rightarrow> ('s, 'r) smtp_state \<Rightarrow> string \<Rightarrow> ('s, 'r) smtp_state \<times> bool" where
  "handle_mail sv st arg =
     (let ss = sm_session st in
      if \<not> ss_seen_helo ss then (resp st 503 ''send EHLO/HELO first'', False)
      else if sv_submission sv \<and> sv_submission_auth sv \<and> \<not> ss_auth_ok ss then (resp st 530 ''authentication required'', False)
      else (case parse_mail_from arg of
              Inl e \<Rightarrow> (resp st (mail_error_code e) [], False)
            | Inr a \<Rightarrow>
                (case mail_refusal sv ss a of
                   Some (code, msg) \<Rightarrow> (resp st code msg, False)
                 | None \<Rightarrow>
                     (case rate_event sv st ''mailfrom'' (ss_helo ss) (ma_address a) of (st1, ok) \<Rightarrow>
                        if \<not> ok then (resp st1 421 ''rate limit exceeded, try again later'', True)
                        else (resp (put_session st1 (begin_transaction ss a)) 250 ''sender ok'', False)))))"

section \<open>The policy hook\<close>

definition hook_request_of :: "('e, 's, 'r) smtp_server \<Rightarrow> ('s, 'r) smtp_state \<Rightarrow> bool \<Rightarrow> string \<Rightarrow> hook_request" where
  "hook_request_of sv st data_stage recipient =
     (let ss = sm_session st in
      \<lparr>hr_stage = (if data_stage then ''data'' else ''rcpt''),
       hr_remote_ip = (case sm_ip st of None \<Rightarrow> [] | Some a \<Rightarrow> ip_string a), hr_helo = ss_helo ss,
       hr_mail_from = ss_mail_from ss, hr_recipients = ss_rcpt_to ss, hr_recipient = recipient, hr_tls = ss_tls ss,
       hr_submission = sv_submission sv, hr_authenticated = ss_auth_ok ss,
       hr_message_bytes = (if data_stage then length (ss_data ss) else 0),
       hr_message = (if data_stage \<and> sv_send_body sv then ss_data ss else [])\<rparr>)"

definition hook_quarantine :: "('e, 's, 'r) smtp_server \<Rightarrow> ('s, 'r) smtp_state \<Rightarrow> session" where
  "hook_quarantine sv st =
     (let ss = sm_session st in
      if ss_quarantine ss = None
      then ss\<lparr>ss_quarantine := Some \<lparr>q_reason = ''policy_hook'', q_expires_at = sv_now sv (sm_tick st) 4 + sv_quarantine_retention sv\<rparr>\<rparr>
      else ss)"

text \<open>\<^verbatim>\<open>applyPolicyHook\<close>: the flag says that the command goes on.\<close>
definition apply_policy_hook :: "('e, 's, 'r) smtp_server \<Rightarrow> ('s, 'r) smtp_state \<Rightarrow> bool \<Rightarrow> string \<Rightarrow> ('s, 'r) smtp_state \<times> bool" where
  "apply_policy_hook sv st data_stage recipient =
     (case sv_hook sv of
        None \<Rightarrow> (st, True)
      | Some evaluate \<Rightarrow>
          (case evaluate (sm_tick st) (hook_request_of sv st data_stage recipient) of
             Some HookAccept \<Rightarrow> (st, True)
           | Some HookQuarantine \<Rightarrow>
               if data_stage \<and> sv_quarantine_enabled sv then (put_session st (hook_quarantine sv st), True)
               else (resp st 451 ''4.3.0 policy quarantine unavailable'', False)
           | Some HookReject \<Rightarrow> (resp st (if data_stage then 554 else 550) ''5.7.1 rejected by policy'', False)
           | _ \<Rightarrow> (resp st 451 ''4.3.0 policy temporarily unavailable'', False)))"

section \<open>RCPT\<close>

definition rcpt_error_code :: "envelope_error \<Rightarrow> int" where
  "rcpt_error_code e = (case e of EnvSMTPUTF8Address \<Rightarrow> 553 | EnvParamUnsupported _ \<Rightarrow> 555 | _ \<Rightarrow> 501)"

definition rcpt_has_dsn :: "rcpt_to_args \<Rightarrow> bool" where
  "rcpt_has_dsn a \<longleftrightarrow> notify (ra_dsn a) \<noteq> [] \<or> original_recipient (ra_dsn a) \<noteq> []"

definition add_recipient :: "session \<Rightarrow> rcpt_to_args \<Rightarrow> session" where
  "add_recipient ss a =
     (let s = ss\<lparr>ss_rcpt_to := ss_rcpt_to ss @ [ra_address a]\<rparr> in
      if rcpt_has_dsn a
      then s\<lparr>ss_dsn := Some (let d = the_dsn (ss_dsn ss) in d\<lparr>dsn_recipients := dput (ra_address a) (ra_dsn a) (dsn_recipients d)\<rparr>)\<rparr>
      else s)"

text \<open>A missing policy is one that could not be built from the configuration.\<close>
definition rcpt_verdict :: "('e, 's, 'r) smtp_server \<Rightarrow> ('s, 'r) smtp_state \<Rightarrow> string \<Rightarrow> (int \<times> string) option" where
  "rcpt_verdict sv st addr =
     (case sv_policy sv of
        None \<Rightarrow> Some (451, ''recipient validation temporarily unavailable'')
      | Some p \<Rightarrow>
          (case authorize p (sm_ip st) (sv_submission sv \<and> ss_auth_ok (sm_session st)) addr of
             Permitted \<Rightarrow> None
           | UnknownRecipient \<Rightarrow> Some (550, ''5.1.1 unknown recipient'')
           | RelayDenied \<Rightarrow> Some (550, ''5.7.1 relaying denied'')))"

definition handle_rcpt_command :: "('e, 's, 'r) smtp_server \<Rightarrow> ('s, 'r) smtp_state \<Rightarrow> string \<Rightarrow> ('s, 'r) smtp_state" where
  "handle_rcpt_command sv st arg =
     (let ss = sm_session st in
      if ss_mail_from ss = [] then resp st 503 ''send MAIL FROM first''
      else if sl_max_recipients (smtp_lim sv) \<le> int (length (ss_rcpt_to ss)) then resp st 452 ''4.5.3 too many recipients''
      else (case parse_rcpt_to arg (sv_hostname sv) of
              Inl e \<Rightarrow> resp st (rcpt_error_code e) []
            | Inr a \<Rightarrow>
                if \<not> ss_extended ss \<and> rcpt_has_dsn a then resp st 555 ''RCPT parameters require EHLO''
                else (case rcpt_verdict sv st (ra_address a) of
                        Some (code, msg) \<Rightarrow> resp st code msg
                      | None \<Rightarrow>
                          (case apply_policy_hook sv st False (ra_address a) of (st1, ok) \<Rightarrow>
                             if \<not> ok then st1
                             else resp (put_session st1 (add_recipient (sm_session st1) a)) 250 ''recipient ok''))))"

end
