(* ===== verification/Smtp_Server.thy ===== *)
theory Smtp_Server
  imports Smtp_Session
begin

text \<open>
  The rest of the connection: \<^verbatim>\<open>DATA\<close> with the hand-over to the queue, \<^verbatim>\<open>AUTH\<close>, \<^verbatim>\<open>STARTTLS\<close>, and the loop of
  \<^verbatim>\<open>handleConnWithContext\<close>, with the checks before the greeting. The loop is a total function: every round
  takes a line from the input, and the TLS stream replaces the input at most once.
\<close>

section \<open>DATA\<close>

text \<open>\<^verbatim>\<open>signingIdentity\<close>: \<open>Inl\<close> is the refusal to sign for this author.\<close>
definition signing_identity_for :: "('e, 's, 'r) smtp_server \<Rightarrow> session \<Rightarrow> unit + signing_identity option" where
  "signing_identity_for sv ss =
     (if sv_dkim_profiles sv = [] then Inr None
      else if \<not> sv_submission sv \<or> \<not> ss_auth_ok ss then Inr (Some \<lparr>signing_domain = []\<rparr>)
      else (case sv_from_address sv (ss_data ss) of
              None \<Rightarrow> Inl ()
            | Some author \<Rightarrow>
                if \<not> sender_allowed (ss_auth ss) (ss_mail_from ss) \<or> \<not> sender_allowed (ss_auth ss) author then Inl ()
                else if domain_or_empty author \<noteq> domain_or_empty (ss_mail_from ss) then Inl ()
                else Inr (Some \<lparr>signing_domain = domain_or_empty author\<rparr>)))"

text \<open>The message \<^verbatim>\<open>enqueue\<close> builds from the session\<close>
definition session_message :: "('e, 's, 'r) smtp_server \<Rightarrow> nat \<Rightarrow> session \<Rightarrow> string \<Rightarrow> message" where
  "session_message sv n ss i =
     (let m = (new_message i)\<lparr>remote_addr := ss_remote ss, m_helo := ss_helo ss, mail_from := ss_mail_from ss,
                 rcpt_to := ss_rcpt_to ss, m_dsn := ss_dsn ss, require_tls := ss_require_tls ss, m_data := ss_data ss,
                 trace_parent := fst (sv_trace sv n), trace_state := snd (sv_trace sv n),
                 m_quarantine := ss_quarantine ss, m_signing := ss_signing ss\<rparr>
      in if ss_auth_ok ss then m\<lparr>tenant := to_lower (trim_space (pr_username (ss_auth ss))), traffic_class := ''transactional''\<rparr> else m)"

definition enqueue_session :: "('e, 's, 'r) smtp_server \<Rightarrow> ('s, 'r) smtp_state \<Rightarrow> string \<Rightarrow> ('s, 'r) smtp_state \<times> qerror option" where
  "enqueue_session sv st i =
     (case be_enqueue (sv_queue sv) (sv_env sv (sm_tick st)) (sm_queue st) (session_message sv (sm_tick st) (sm_session st) i) of
        (q, _, err) \<Rightarrow> (st\<lparr>sm_queue := q\<rparr>, err))"

text \<open>The end of a transaction with a reply\<close>
definition finish_with :: "('s, 'r) smtp_state \<Rightarrow> int \<Rightarrow> string \<Rightarrow> ('s, 'r) smtp_state" where
  "finish_with st code msg = (let st1 = resp st code msg in put_session st1 (finish_data (sm_session st1)))"

text \<open>From the policy hook to the reply; a failure of the queue keeps the transaction.\<close>
definition data_enqueue :: "('e, 's, 'r) smtp_server \<Rightarrow> ('s, 'r) smtp_state \<Rightarrow> string \<Rightarrow> ('s, 'r) smtp_state" where
  "data_enqueue sv st i =
     (case apply_policy_hook sv st True [] of (st1, ok) \<Rightarrow>
        if \<not> ok then put_session st1 (finish_data (sm_session st1))
        else (case enqueue_session sv st1 i of
                (st2, Some err) \<Rightarrow> resp st2 451 ''temporary local problem''
              | (st2, None) \<Rightarrow>
                  finish_with (put_session st2 ((sm_session st2)\<lparr>ss_messages := ss_messages (sm_session st2) + 1\<rparr>)) 250 ''queued''))"

definition verdict_session :: "('e, 's, 'r) smtp_server \<Rightarrow> nat \<Rightarrow> session \<Rightarrow> mail_verdict \<Rightarrow> session" where
  "verdict_session sv n ss v =
     (let q = (mv_action v = ActionQuarantine);
          s = (if q \<and> sv_quarantine_enabled sv
               then ss\<lparr>ss_quarantine := Some \<lparr>q_reason = ''auth_policy'', q_expires_at = sv_now sv n 1 + sv_quarantine_retention sv\<rparr>\<rparr> else ss)
      in s\<lparr>ss_data := inject_headers (ss_data s) ([mv_header v] @ (if q then [''X-Kuroshio-Quarantine: true''] else []))\<rparr>)"

definition with_received :: "('e, 's, 'r) smtp_server \<Rightarrow> ('s, 'r) smtp_state \<Rightarrow> string \<Rightarrow> session" where
  "with_received sv st i =
     (let ss = sm_session st in
      ss\<lparr>ss_data := inject_headers (ss_data ss) [build_received_header (sv_date sv) (sv_hostname sv) (ss_helo ss) (ss_remote ss)
           (map_option ip_string (sm_ip st)) i (sv_now sv (sm_tick st) 2) (ss_extended ss) (ss_tls ss)]\<rparr>)"

text \<open>A message that passed the authentication policy\<close>
definition data_sign :: "('e, 's, 'r) smtp_server \<Rightarrow> ('s, 'r) smtp_state \<Rightarrow> mail_verdict \<Rightarrow> ('s, 'r) smtp_state" where
  "data_sign sv st v =
     (case signing_identity_for sv (sm_session st) of
        Inl _ \<Rightarrow> finish_with st 550 ''5.7.1 sender is not authorized for signing''
      | Inr identity \<Rightarrow>
          (let st2 = put_session st (verdict_session sv (sm_tick st) ((sm_session st)\<lparr>ss_signing := identity\<rparr>) v) in
           case sv_new_id sv (sm_tick st) of
             None \<Rightarrow> resp st2 451 ''temporary local problem''
           | Some i \<Rightarrow> data_enqueue sv (put_session st2 (with_received sv st2 i)) i))"

text \<open>A body that was read completely\<close>
definition data_accept :: "('e, 's, 'r) smtp_server \<Rightarrow> ('s, 'r) smtp_state \<Rightarrow> string \<Rightarrow> ('s, 'r) smtp_state" where
  "data_accept sv st data =
     (let ss = sm_session st in
      if \<not> equal_fold (ss_body_mode ss) ''8BITMIME'' \<and> contains_8bit data
      then finish_with st 554 ''8-bit data is not permitted without BODY=8BITMIME''
      else (let st1 = put_session st (ss\<lparr>ss_data := data, ss_quarantine := None\<rparr>);
                v = sv_mailauth sv (sm_tick st) (sm_ip st) (ss_helo ss) (ss_mail_from ss) data (ss_rcpt_to ss)
            in if mv_action v = ActionReject then finish_with st1 550 ''message rejected by auth policy'' else data_sign sv st1 v))"

definition data_failed :: "('s, 'r) smtp_state \<Rightarrow> data_error \<Rightarrow> ('s, 'r) smtp_state" where
  "data_failed st e =
     (let st1 = put_session st ((sm_session st)\<lparr>ss_close := True\<rparr>) in
      case e of
        DataLineTooLong \<Rightarrow> resp st1 500 ''line too long''
      | MessageTooLarge \<Rightarrow> resp st1 552 ''message size exceeds fixed maximum message size''
      | DataRead \<Rightarrow> resp st1 451 ''temporary local problem'')"

definition handle_data :: "('e, 's, 'r) smtp_server \<Rightarrow> ('s, 'r) smtp_state \<Rightarrow> ('s, 'r) smtp_state" where
  "handle_data sv st =
     (if ss_rcpt_to (sm_session st) = [] then resp st 503 ''need RCPT TO before DATA''
      else (let st1 = resp st 354 ''end with <CRLF>.<CRLF>'' in
            case read_data (sv_max_message_bytes sv) [] (cn_input (sm_conn st1)) of
              Inl e \<Rightarrow> data_failed st1 e
            | Inr (data, rest) \<Rightarrow> data_accept sv (st1\<lparr>sm_conn := (sm_conn st1)\<lparr>cn_input := rest\<rparr>\<rparr>) data))"

section \<open>AUTH\<close>

definition auth_failed :: "('s, 'r) smtp_state \<Rightarrow> int \<Rightarrow> string \<Rightarrow> ('s, 'r) smtp_state" where
  "auth_failed st code msg =
     resp (put_session st ((sm_session st)\<lparr>ss_auth_failures := ss_auth_failures (sm_session st) + 1\<rparr>)) code msg"

definition auth_accepted :: "('s, 'r) smtp_state \<Rightarrow> principal \<Rightarrow> ('s, 'r) smtp_state" where
  "auth_accepted st p =
     resp (put_session st ((sm_session st)\<lparr>ss_auth_user := pr_username p, ss_auth := p, ss_auth_ok := True\<rparr>)) 235 ''authentication successful''"

definition auth_mech :: "string \<Rightarrow> string" where
  "auth_mech arg = (let m = auth_mechanism arg in if m \<noteq> ''PLAIN'' \<and> m \<noteq> ''LOGIN'' \<and> m \<noteq> ''XOAUTH2'' then ''UNKNOWN'' else m)"

definition needs_encryption :: "('e, 's, 'r) smtp_server \<Rightarrow> session \<Rightarrow> string \<Rightarrow> bool" where
  "needs_encryption sv ss mech \<longleftrightarrow>
     \<not> ss_tls ss \<and> (mech = ''XOAUTH2'' \<or> (mech = ''PLAIN'' \<or> mech = ''LOGIN'') \<and> \<not> sv_insecure_auth sv)"

text \<open>\<^verbatim>\<open>handleAuthCommand\<close>: the flag says that the connection closes.\<close>
definition handle_auth_command :: "('e, 's, 'r) smtp_server \<Rightarrow> ('s, 'r) smtp_state \<Rightarrow> string \<Rightarrow> ('s, 'r) smtp_state \<times> bool" where
  "handle_auth_command sv st arg =
     (let ss = sm_session st; mech = auth_mech arg in
      if \<not> sv_submission sv then (resp st 502 ''AUTH is not supported'', False)
      else if \<not> ss_extended ss then (resp st 503 ''send EHLO first'', False)
      else (case sv_auth_backend sv of
              None \<Rightarrow> (resp st 454 ''authentication backend unavailable'', False)
            | Some be \<Rightarrow>
                if needs_encryption sv ss mech then (resp st 538 (''encryption required for '' @ mech), False)
                else (case handle_auth (sv_submission sv) be (sm_tick st) (sm_conn st) arg of
                        (cn, Inl AuthFraming) \<Rightarrow> (st\<lparr>sm_conn := cn\<rparr>, True)
                      | (cn, Inl (AuthError e)) \<Rightarrow> (auth_failed (st\<lparr>sm_conn := cn\<rparr>) 501 e, False)
                      | (cn, Inr r) \<Rightarrow>
                          if \<not> au_success r then (auth_failed (st\<lparr>sm_conn := cn\<rparr>) 535 ''authentication credentials invalid'', False)
                          else (auth_accepted (st\<lparr>sm_conn := cn\<rparr>) (au_principal r), False))))"

section \<open>STARTTLS\<close>

text \<open>
  A successful handshake replaces the connection and its reader: what the peer sent in the clear after the command is
  never read as a command.
\<close>
definition handle_starttls :: "('e, 's, 'r) smtp_server \<Rightarrow> ('s, 'r) smtp_state \<Rightarrow> ('s, 'r) smtp_state \<times> bool" where
  "handle_starttls sv st =
     (if ss_tls (sm_session st) then (resp st 503 ''already using TLS'', False)
      else if \<not> sv_tls sv then (resp st 454 ''TLS not available due to temporary reason'', False)
      else (let st1 = resp st 220 ''Ready to start TLS'' in
            case cn_tls (sm_conn st1) of
              None \<Rightarrow> (st1, True)
            | Some stream \<Rightarrow>
                (put_session (st1\<lparr>sm_conn := (sm_conn st1)\<lparr>cn_input := stream, cn_tls := None\<rparr>\<rparr>)
                   (reset_after_tls (sm_session st1)), False)))"

section \<open>The other commands\<close>

definition write_ehlo :: "conn \<Rightarrow> string \<Rightarrow> int \<Rightarrow> bool \<Rightarrow> bool \<Rightarrow> bool \<Rightarrow> string list \<Rightarrow> conn" where
  "write_ehlo cn hostname maxb starttls auth rtls mechs =
     foldl write_line cn
       ([''250-'' @ hostname, ''250-PIPELINING'', ''250-SIZE '' @ show_int maxb, ''250-8BITMIME'', ''250-DSN''] @
        (if rtls then [''250-REQUIRETLS''] else []) @
        (if auth then [''250-AUTH '' @ join '' '' (if mechs = [] then [''PLAIN'', ''LOGIN''] else mechs)] else []) @
        (if starttls then [''250-STARTTLS''] else []) @ [''250 HELP''])"

definition set_helo :: "('s, 'r) smtp_state \<Rightarrow> string \<Rightarrow> ('s, 'r) smtp_state" where
  "set_helo st arg = put_session st ((sm_session st)\<lparr>ss_helo := arg\<rparr>)"

definition handle_ehlo :: "('e, 's, 'r) smtp_server \<Rightarrow> ('s, 'r) smtp_state \<Rightarrow> string \<Rightarrow> ('s, 'r) smtp_state \<times> bool" where
  "handle_ehlo sv st arg =
     (if arg = [] then (resp st 501 ''EHLO requires domain'', False)
      else (case rate_event sv (set_helo st arg) ''helo'' arg [] of (st1, ok) \<Rightarrow>
              if \<not> ok then (resp st1 421 ''rate limit exceeded, try again later'', True)
              else (let ss = accept_greeting (sm_session st1) True;
                        mechs = auth_mechanisms (sv_submission sv) (sv_auth_backend sv) (sv_insecure_auth sv) (ss_tls ss);
                        st2 = put_session st1 ss
                    in (st2\<lparr>sm_conn := write_ehlo (sm_conn st2) (sv_hostname sv) (sv_max_message_bytes sv)
                              (sv_tls sv \<and> \<not> ss_tls ss) (mechs \<noteq> []) (require_tls_available sv) mechs\<rparr>, False))))"

definition handle_helo :: "('e, 's, 'r) smtp_server \<Rightarrow> ('s, 'r) smtp_state \<Rightarrow> string \<Rightarrow> ('s, 'r) smtp_state" where
  "handle_helo sv st arg =
     (if arg = [] then resp st 501 ''HELO requires domain''
      else (let st1 = set_helo st arg in resp (put_session st1 (accept_greeting (sm_session st1) False)) 250 (sv_hostname sv)))"

text \<open>\<^verbatim>\<open>RCPT\<close> with the count of refused recipients\<close>
definition count_rcpt :: "('e, 's, 'r) smtp_server \<Rightarrow> ('s, 'r) smtp_state \<Rightarrow> string \<Rightarrow> ('s, 'r) smtp_state" where
  "count_rcpt sv st arg =
     (let st1 = handle_rcpt_command sv st arg in
      if length (ss_rcpt_to (sm_session st1)) = length (ss_rcpt_to (sm_session st))
      then put_session st1 ((sm_session st1)\<lparr>ss_rcpt_failures := ss_rcpt_failures (sm_session st1) + 1\<rparr>) else st1)"

definition help_text :: "('e, 's, 'r) smtp_server \<Rightarrow> string" where
  "help_text sv = ''Supported commands: EHLO HELO MAIL RCPT DATA RSET NOOP QUIT STARTTLS HELP VRFY EXPN'' @
     (if sv_submission sv then '' AUTH'' else [])"

datatype command = EHLO | HELO | MAIL | RCPT | DATA | RSET | AUTH | NOOP | HELP | VRFY | EXPN | QUIT | STARTTLS | Unsupported

definition command_of :: "string \<Rightarrow> command" where
  "command_of verb =
     (case map_of [(''EHLO'', EHLO), (''HELO'', HELO), (''MAIL'', MAIL), (''RCPT'', RCPT), (''DATA'', DATA), (''RSET'', RSET),
          (''AUTH'', AUTH), (''NOOP'', NOOP), (''HELP'', HELP), (''VRFY'', VRFY), (''EXPN'', EXPN), (''QUIT'', QUIT),
          (''STARTTLS'', STARTTLS)] verb of
        Some c \<Rightarrow> c | None \<Rightarrow> Unsupported)"

text \<open>The switch of the loop: the flag says that the connection closes.\<close>
definition serve_command :: "('e, 's, 'r) smtp_server \<Rightarrow> ('s, 'r) smtp_state \<Rightarrow> command \<Rightarrow> string \<Rightarrow> ('s, 'r) smtp_state \<times> bool" where
  "serve_command sv st c arg =
     (case c of
        EHLO \<Rightarrow> handle_ehlo sv st arg
      | HELO \<Rightarrow> (handle_helo sv st arg, False)
      | MAIL \<Rightarrow> handle_mail sv st arg
      | RCPT \<Rightarrow> (count_rcpt sv st arg, False)
      | DATA \<Rightarrow> (let st1 = handle_data sv st in (st1, ss_close (sm_session st1)))
      | RSET \<Rightarrow> (resp (put_session st (reset_transaction (sm_session st))) 250 ''reset state'', False)
      | AUTH \<Rightarrow> handle_auth_command sv st arg
      | NOOP \<Rightarrow> (resp st 250 ''ok'', False)
      | HELP \<Rightarrow> (resp st 214 (help_text sv), False)
      | VRFY \<Rightarrow> (resp st 252 ''cannot VRFY user, but will accept message'', False)
      | EXPN \<Rightarrow> (resp st 502 ''EXPN is not supported'', False)
      | QUIT \<Rightarrow> (resp st 221 ''bye'', True)
      | STARTTLS \<Rightarrow> handle_starttls sv st
      | Unsupported \<Rightarrow> (resp st 500 ''unsupported command'', False))"

section \<open>The loop\<close>

definition limit_reached :: "('e, 's, 'r) smtp_server \<Rightarrow> session \<Rightarrow> string option" where
  "limit_reached sv ss =
     (if sl_max_auth_failures (smtp_lim sv) \<le> ss_auth_failures ss \<or> sl_max_rcpt_failures (smtp_lim sv) \<le> ss_rcpt_failures ss
      then Some ''session failure limit reached''
      else if sl_max_messages (smtp_lim sv) \<le> ss_messages ss then Some ''session message limit reached''
      else None)"

definition too_long :: "('e, 's, 'r) smtp_server \<Rightarrow> string \<Rightarrow> bool" where
  "too_long sv line \<longleftrightarrow>
     512 < length line \<and> \<not> (sv_submission sv \<and> has_prefix (to_upper line) ''AUTH XOAUTH2 '' \<and> length line \<le> max_auth_line_bytes)"

definition serve_line :: "('e, 's, 'r) smtp_server \<Rightarrow> ('s, 'r) smtp_state \<Rightarrow> string \<Rightarrow> ('s, 'r) smtp_state \<times> bool" where
  "serve_line sv st line =
     (if too_long sv line then (resp st 500 ''command line too long'', False)
      else if trim_eol line = [] then (resp st 500 ''empty command'', False)
      else (case split_verb (trim_eol line) of (verb, arg) \<Rightarrow> serve_command sv st (command_of verb) arg))"

text \<open>One round: the flag says that the connection closes.\<close>
definition serve_step :: "('e, 's, 'r) smtp_server \<Rightarrow> ('s, 'r) smtp_state \<Rightarrow> ('s, 'r) smtp_state \<times> bool" where
  "serve_step sv st =
     (case limit_reached sv (sm_session st) of
        Some msg \<Rightarrow> (resp st 421 msg, True)
      | None \<Rightarrow>
          (case read_smtp_line (cn_input (sm_conn st)) of
             None \<Rightarrow> (st, True)
           | Some (line, rest) \<Rightarrow>
               serve_line sv (st\<lparr>sm_conn := (sm_conn st)\<lparr>cn_input := rest\<rparr>, sm_tick := sm_tick st + 1\<rparr>) line))"

text \<open>What a connection may still read\<close>
definition unread :: "conn \<Rightarrow> nat" where
  "unread cn = length (cn_input cn) + (case cn_tls cn of None \<Rightarrow> 0 | Some s \<Rightarrow> Suc (length s))"

section \<open>Frames\<close>

lemma resp_frame [simp]:
  "sm_session (resp st c m) = sm_session st" "sm_ip (resp st c m) = sm_ip st" "sm_queue (resp st c m) = sm_queue st"
  "sm_tick (resp st c m) = sm_tick st" "sm_rate (resp st c m) = sm_rate st" "sm_conn (resp st c m) = write_resp (sm_conn st) c m"
  by (simp_all add: resp_def)

lemma put_session_frame [simp]:
  "sm_session (put_session st ss) = ss" "sm_ip (put_session st ss) = sm_ip st" "sm_queue (put_session st ss) = sm_queue st"
  "sm_tick (put_session st ss) = sm_tick st" "sm_conn (put_session st ss) = sm_conn st"
  by (simp_all add: put_session_def)

lemma finish_with_frame [simp]:
  "sm_session (finish_with st c m) = finish_data (sm_session st)" "sm_ip (finish_with st c m) = sm_ip st"
  "sm_queue (finish_with st c m) = sm_queue st" "sm_conn (finish_with st c m) = write_resp (sm_conn st) c m"
  by (simp_all add: finish_with_def Let_def)

lemma rate_event_frame:
  assumes "rate_event sv st e h f = (st', ok)"
  shows "sm_session st' = sm_session st \<and> sm_ip st' = sm_ip st \<and> sm_queue st' = sm_queue st \<and> sm_tick st' = sm_tick st \<and> sm_conn st' = sm_conn st"
  using assms by (auto simp: rate_event_def split: option.splits prod.splits sum.splits)

lemma hook_frame:
  assumes "apply_policy_hook sv st d r = (st', ok)"
  shows "sm_ip st' = sm_ip st" "sm_queue st' = sm_queue st" "sm_tick st' = sm_tick st"
    "sm_session st' = sm_session st \<or> ok \<and> d \<and> sm_session st' = hook_quarantine sv st"
    "cn_input (sm_conn st') = cn_input (sm_conn st)" "cn_tls (sm_conn st') = cn_tls (sm_conn st)"
  using assms by (auto simp: apply_policy_hook_def split: option.splits hook_action.splits if_splits)

lemma enqueue_session_frame:
  assumes "enqueue_session sv st i = (st', err)"
  shows "sm_session st' = sm_session st" "sm_ip st' = sm_ip st" "sm_conn st' = sm_conn st"
  using assms by (auto simp: enqueue_session_def split: prod.splits)

section \<open>Every round reads\<close>

definition reads :: "conn \<Rightarrow> conn \<Rightarrow> bool" where
  "reads cn cn' \<longleftrightarrow> length (cn_input cn') \<le> length (cn_input cn) \<and> cn_tls cn' = cn_tls cn"

lemma reads_refl [simp, intro]: "reads cn cn"
  by (simp add: reads_def)

lemma reads_trans: "reads a b \<Longrightarrow> reads b c \<Longrightarrow> reads a c"
  by (simp add: reads_def)

lemma reads_write [simp]:
  "reads cn (write_resp cn' c m) = reads cn cn'" "reads cn (write_line cn' l) = reads cn cn'"
  "reads (write_resp cn c m) cn' = reads cn cn'" "reads (write_line cn l) cn' = reads cn cn'"
  by (simp_all add: reads_def)

lemma reads_input: "length r \<le> length (cn_input cn) \<Longrightarrow> reads cn (cn\<lparr>cn_input := r\<rparr>)"
  by (simp add: reads_def)

lemma finish_plain_reads: "reads cn (fst (finish_plain be n cn p))"
  by (simp add: finish_plain_def)

lemma plain_reads: "reads cn (fst (handle_auth_plain be n cn parts))"
  using read_string_rest [of "cn_input cn"]
  by (auto simp: handle_auth_plain_def finish_plain_def Let_def reads_def less_imp_le split: option.split)

lemma finish_login_reads: "reads cn (fst (finish_login be n cn u))"
  using read_string_rest [of "cn_input cn"]
  by (auto simp: finish_login_def Let_def reads_def less_imp_le split: option.split)

lemma login_user_reads: "reads cn (fst (login_user be n cn l))"
  by (simp add: login_user_def finish_login_reads split: option.split)

lemma login_reads: "reads cn (fst (handle_auth_login be n cn parts))"
proof -
  have "reads cn (fst (login_user be n ((write_line cn x)\<lparr>cn_input := rest\<rparr>) l))" if "read_string (cn_input cn) = Some (l, rest)" for x l rest
    using reads_trans [OF reads_input [of rest "write_line cn x"] login_user_reads] read_string_rest [OF that] by simp
  then show ?thesis
    by (auto simp: handle_auth_login_def login_user_reads Let_def reads_def [of _ "_\<lparr>cn_input := []\<rparr>"] split: option.split)
qed

lemma refuse_reads: "reads cn (fst (refuse_xoauth2 cn r))"
  using read_sasl_line_rest [of "cn_input cn"]
  by (auto simp: refuse_xoauth2_def Let_def reads_def less_imp_le split: option.split)

lemma finish_xoauth2_reads: "reads cn (fst (finish_xoauth2 be n cn p))"
  by (auto simp: finish_xoauth2_def refuse_reads Let_def split: sum.split option.split)

lemma xoauth2_reads: "reads cn (fst (handle_xoauth2 be n cn parts))"
proof -
  have "reads cn (fst (finish_xoauth2 be n ((write_line cn x)\<lparr>cn_input := rest\<rparr>) l))" if "read_sasl_line (cn_input cn) = Some (l, rest)" for x l rest
    using reads_trans [OF reads_input [of rest "write_line cn x"] finish_xoauth2_reads] read_sasl_line_rest [OF that] by simp
  then show ?thesis
    by (auto simp: handle_xoauth2_def finish_xoauth2_reads Let_def reads_def [of _ "_\<lparr>cn_input := []\<rparr>"] split: option.split)
qed

lemma auth_reads: "reads cn (fst (handle_auth sub be n cn arg))"
  by (simp add: handle_auth_def Let_def plain_reads login_reads xoauth2_reads)

lemma mail_reads: "reads (sm_conn st) (sm_conn (fst (handle_mail sv st arg)))"
  by (auto simp: handle_mail_def Let_def dest!: rate_event_frame split: sum.split option.split prod.split)

lemma rcpt_reads: "reads (sm_conn st) (sm_conn (handle_rcpt_command sv st arg))"
proof -
  have "reads (sm_conn st) (sm_conn st1)" if "apply_policy_hook sv st False r = (st1, ok)" for r st1 ok
    using hook_frame(5,6) [OF that] by (simp add: reads_def)
  then show ?thesis
    by (auto simp: handle_rcpt_command_def Let_def split: sum.split option.split prod.split)
qed

lemma count_rcpt_conn [simp]: "sm_conn (count_rcpt sv st arg) = sm_conn (handle_rcpt_command sv st arg)"
  by (simp add: count_rcpt_def Let_def)

lemma ehlo_reads: "reads (sm_conn st) (sm_conn (fst (handle_ehlo sv st arg)))"
proof -
  have "reads cn (foldl write_line cn ls)" for cn ls
  proof (induction ls arbitrary: cn)
    case (Cons a ls)
    have "reads (write_line cn a) (foldl write_line (write_line cn a) ls)" by (rule Cons.IH)
    then show ?case by simp
  qed simp
  then have "reads cn (write_ehlo cn h m a b c ms)" for cn h m a b c ms
    by (simp only: write_ehlo_def)
  then show ?thesis
    by (auto simp: handle_ehlo_def set_helo_def Let_def dest!: rate_event_frame split: prod.split)
qed

lemma data_enqueue_reads: "reads (sm_conn st) (sm_conn (data_enqueue sv st i))"
proof -
  obtain st1 ok where h: "apply_policy_hook sv st True [] = (st1, ok)" by fastforce
  obtain st2 err where e: "enqueue_session sv st1 i = (st2, err)" by fastforce
  have "reads (sm_conn st) (sm_conn st1)" using hook_frame(5,6) [OF h] by (simp add: reads_def)
  moreover have "sm_conn st2 = sm_conn st1" using enqueue_session_frame [OF e] by simp
  ultimately show ?thesis by (simp add: data_enqueue_def h e split: option.split)
qed

lemma data_sign_reads: "reads (sm_conn st) (sm_conn (data_sign sv st v))"
proof -
  have "reads (sm_conn st) (sm_conn (data_enqueue sv (put_session (put_session st a) b) i))" for a b i
    using data_enqueue_reads [of "put_session (put_session st a) b" sv i] by simp
  then show ?thesis by (simp add: data_sign_def Let_def split: sum.split option.split)
qed

lemma data_accept_reads: "reads (sm_conn st) (sm_conn (data_accept sv st data))"
  using data_sign_reads [of "put_session st x" sv v for x v] by (simp add: data_accept_def Let_def)

lemma read_data_rest: "read_data m out s = Inr (d, rest) \<Longrightarrow> length rest < length s"
proof (induction m out s rule: read_data.induct)
  case (1 m out s)
  from "1.prems" obtain l r where l: "read_data_line s = Inr (l, r)" by (subst (asm) read_data.simps) (auto split: sum.splits)
  note rl = read_data_line_rest [OF l]
  from "1.prems" l consider "rest = r"
    | "read_data m (out @ unstuff (trim_eol l) @ crlf) r = Inr (d, rest)" "\<not> 1000 < length l" "trim_eol l \<noteq> ''.''"
      "\<not> m < int (length (out @ unstuff (trim_eol l) @ crlf))"
    by (subst (asm) read_data.simps) (auto simp: Let_def split: if_splits)
  then show ?case
  proof cases
    case 2
    then have "length rest < length r" using "1.IH" [OF l refl] by simp
    with rl show ?thesis by simp
  qed (use rl in simp)
qed

lemma data_reads: "reads (sm_conn st) (sm_conn (handle_data sv st))"
proof -
  have "reads (sm_conn st) (sm_conn (data_accept sv ((resp st c m)\<lparr>sm_conn := (sm_conn (resp st c m))\<lparr>cn_input := rest\<rparr>\<rparr>) d))"
    if "read_data b [] (cn_input (sm_conn st)) = Inr (d, rest)" for c m b d rest
    using reads_trans [OF _ data_accept_reads, of "sm_conn st" "(resp st c m)\<lparr>sm_conn := (sm_conn (resp st c m))\<lparr>cn_input := rest\<rparr>\<rparr>" sv d]
      read_data_rest [OF that] by (simp add: reads_def)
  then show ?thesis
    by (auto simp: handle_data_def data_failed_def Let_def split: sum.split data_error.split)
qed

lemma auth_command_reads: "reads (sm_conn st) (sm_conn (fst (handle_auth_command sv st arg)))"
proof -
  have "reads (sm_conn st) cn" if "handle_auth s be n (sm_conn st) arg = (cn, r)" for s be n cn r
    using auth_reads [of "sm_conn st" s be n arg] that by simp
  then show ?thesis
    by (auto simp: handle_auth_command_def auth_failed_def auth_accepted_def Let_def split: option.split prod.split sum.split auth_error.split)
qed

lemma reads_unread: "reads cn cn' \<Longrightarrow> unread cn' \<le> unread cn"
  by (simp add: reads_def unread_def)

lemma starttls_unread: "handle_starttls sv st = (st', False) \<Longrightarrow> unread (sm_conn st') \<le> unread (sm_conn st)"
  by (auto simp: handle_starttls_def Let_def unread_def split: if_splits option.splits)

lemma serve_command_unread:
  assumes "serve_command sv st c arg = (st', False)"
  shows "unread (sm_conn st') \<le> unread (sm_conn st)"
proof (cases c)
  case STARTTLS
  with assms show ?thesis by (simp add: serve_command_def starttls_unread)
next
  case EHLO
  with assms reads_unread [OF ehlo_reads [of st sv arg]] show ?thesis by (simp add: serve_command_def)
next
  case MAIL
  with assms reads_unread [OF mail_reads [of st sv arg]] show ?thesis by (simp add: serve_command_def)
next
  case RCPT
  with assms reads_unread [OF rcpt_reads [of st sv arg]] show ?thesis by (auto simp: serve_command_def)
next
  case DATA
  with assms reads_unread [OF data_reads [of st sv]] show ?thesis by (auto simp: serve_command_def Let_def)
next
  case AUTH
  with assms reads_unread [OF auth_command_reads [of st sv arg]] show ?thesis by (simp add: serve_command_def)
next
  case HELO
  with assms show ?thesis by (auto simp: serve_command_def handle_helo_def set_helo_def Let_def unread_def)
qed (use assms in \<open>auto simp: serve_command_def unread_def\<close>)

lemma serve_step_unread:
  assumes "serve_step sv st = (st', False)"
  shows "unread (sm_conn st') < unread (sm_conn st)"
proof -
  obtain line rest where l: "read_smtp_line (cn_input (sm_conn st)) = Some (line, rest)"
    and s: "serve_line sv (st\<lparr>sm_conn := (sm_conn st)\<lparr>cn_input := rest\<rparr>, sm_tick := sm_tick st + 1\<rparr>) line = (st', False)" (is "serve_line sv ?st line = _")
    using assms by (auto simp: serve_step_def split: option.splits)
  have "unread (sm_conn st') \<le> unread (sm_conn ?st)"
    using s serve_command_unread [of sv ?st _ _ st'] by (auto simp: serve_line_def unread_def split: if_splits prod.splits)
  also have "\<dots> < unread (sm_conn st)" using read_smtp_line_rest [OF l] by (simp add: unread_def)
  finally show ?thesis .
qed

text \<open>The loop of \<^verbatim>\<open>handleConnWithContext\<close>, until the connection closes\<close>
function serve :: "('e, 's, 'r) smtp_server \<Rightarrow> ('s, 'r) smtp_state \<Rightarrow> ('s, 'r) smtp_state" where
  "serve sv st = (case serve_step sv st of (st', closed) \<Rightarrow> if closed then st' else serve sv st')"
  by pat_completeness auto
termination by (relation "measure (\<lambda>(_, st). unread (sm_conn st))") (auto dest: serve_step_unread [OF sym])

declare serve.simps [simp del]

section \<open>Before the greeting\<close>

text \<open>The limits on new clients, in the order of the code: the flag says that the client is greeted.\<close>
definition admit_client :: "('e, 's, 'r) smtp_server \<Rightarrow> ('s, 'r) smtp_state \<Rightarrow> ('s, 'r) smtp_state \<times> bool" where
  "admit_client sv st =
     (case sm_ip st of
        None \<Rightarrow> (st, True)
      | Some a \<Rightarrow>
          (case rate_allow (sv_allow sv) (sv_limiter sv) (sm_rate st) (ip_string a) (sv_now sv (sm_tick st) 0) of (r, ans) \<Rightarrow>
             if ans = Inr False then (resp (st\<lparr>sm_rate := r\<rparr>) 421 ''rate limit exceeded, try again later'', False)
             else (case rate_event sv (st\<lparr>sm_rate := r\<rparr>) ''connect'' [] [] of (st1, ok) \<Rightarrow>
                     if \<not> ok then (resp st1 421 ''rate limit exceeded, try again later'', False)
                     else (case is_listed (sv_lookup_host sv) (sv_now sv (sm_tick st) 1) (sm_dnsbl st1) (ip_string a) of (d, listed, zone) \<Rightarrow>
                             if listed then (resp (st1\<lparr>sm_dnsbl := d\<rparr>) 554 (''connection rejected (dnsbl: '' @ zone @ '')''), False)
                             else (st1\<lparr>sm_dnsbl := d\<rparr>, True)))))"

text \<open>
  \<^verbatim>\<open>handleConnWithContext\<close> from the implicit TLS handshake on, for a peer whose address is known; the \<^verbatim>\<open>PROXY\<close> protocol
  comes before.
\<close>
definition handle_conn :: "('e, 's, 'r) smtp_server \<Rightarrow> ('s, 'r) smtp_state \<Rightarrow> string \<Rightarrow> ('s, 'r) smtp_state" where
  "handle_conn sv st remote =
     (let greet = (\<lambda>st1. case admit_client sv st1 of (st2, ok) \<Rightarrow>
                     if \<not> ok then st2
                     else serve sv (resp (put_session st2 (new_session remote (sv_implicit_tls sv))) 220 (sv_hostname sv @ '' ESMTP ready'')))
      in if \<not> sv_implicit_tls sv then greet st
         else if \<not> sv_tls sv then st
         else (case cn_tls (sm_conn st) of
                 None \<Rightarrow> st
               | Some stream \<Rightarrow> greet (st\<lparr>sm_conn := (sm_conn st)\<lparr>cn_input := stream, cn_tls := None\<rparr>\<rparr>)))"

section \<open>Connection slots\<close>

record conn_slots =
  cs_total :: int
  cs_per_ip :: "(string \<times> int) list"

definition ip_count :: "conn_slots \<Rightarrow> string \<Rightarrow> int" where
  "ip_count cs a = (case map_of (cs_per_ip cs) a of None \<Rightarrow> 0 | Some n \<Rightarrow> n)"

text \<open>\<^verbatim>\<open>acquireConnection\<close> and \<^verbatim>\<open>releaseConnection\<close>: the empty key is the listener.\<close>
definition acquire_connection :: "('e, 's, 'r) smtp_server \<Rightarrow> conn_slots \<Rightarrow> string \<Rightarrow> conn_slots \<times> bool" where
  "acquire_connection sv cs a =
     (if a = [] then
        (if sl_max_connections (smtp_lim sv) \<le> cs_total cs then (cs, False) else (cs\<lparr>cs_total := cs_total cs + 1\<rparr>, True))
      else if sl_max_connections_per_ip (smtp_lim sv) \<le> ip_count cs a then (cs, False)
      else (cs\<lparr>cs_per_ip := dput a (ip_count cs a + 1) (cs_per_ip cs)\<rparr>, True))"

definition release_connection :: "conn_slots \<Rightarrow> string \<Rightarrow> conn_slots" where
  "release_connection cs a =
     (if a = [] then cs\<lparr>cs_total := cs_total cs - 1\<rparr>
      else if ip_count cs a - 1 = 0 then cs\<lparr>cs_per_ip := ddel a (cs_per_ip cs)\<rparr>
      else cs\<lparr>cs_per_ip := dput a (ip_count cs a - 1) (cs_per_ip cs)\<rparr>)"

end
