(* ===== verification/Smtp_Machine.thy ===== *)
theory Smtp_Machine
  imports Smtp_Server
begin

text \<open>
  The session as an abstract machine: what a round of the connection may do to it, with the guards, and the proof that
  the code does nothing else. The invariants of the session are proved of the machine by rule induction and
  hold for every run of the code, whatever the other connections and the workers do to the queue and to the
  limiter in between.
\<close>

section \<open>The machine\<close>

text \<open>A principal the backend vouched for\<close>
definition vouched :: "('e, 's, 'r) smtp_server \<Rightarrow> principal \<Rightarrow> bool" where
  "vouched sv p \<longleftrightarrow>
     (\<exists>be n u w r. sv_auth_backend sv = Some be \<and> au_success r \<and> au_principal r = p \<and>
        (authenticate_password be n u w = r \<or> (\<exists>f. ab_bearer be = Some f \<and> f n u w = r)))"

text \<open>Sessions that differ in the message that is being received only\<close>
definition same_core :: "session \<Rightarrow> session \<Rightarrow> bool" where
  "same_core ss ss' \<longleftrightarrow>
     ss' = ss\<lparr>ss_signing := ss_signing ss', ss_quarantine := ss_quarantine ss', ss_data := ss_data ss'\<rparr>"

inductive session_step :: "('e, 's, 'r) smtp_server \<Rightarrow> ip option \<Rightarrow> session \<Rightarrow> session \<Rightarrow> bool" for sv peer where
  Stay: "same_core ss ss' \<Longrightarrow> session_step sv peer ss ss'"
| Abort: "session_step sv peer ss (ss\<lparr>ss_close := True\<rparr>)"
| Helo_Refused: "session_step sv peer ss (ss\<lparr>ss_helo := h\<rparr>)"
| Greet: "session_step sv peer ss (accept_greeting (ss\<lparr>ss_helo := h\<rparr>) extended)"
| Mail: "ss_seen_helo ss \<Longrightarrow> sv_submission sv \<and> sv_submission_auth sv \<longrightarrow> ss_auth_ok ss \<Longrightarrow> mail_args_ok a \<Longrightarrow>
    mail_refusal sv ss a = None \<Longrightarrow> session_step sv peer ss (begin_transaction ss a)"
| Rcpt: "ss_mail_from ss \<noteq> [] \<Longrightarrow> int (length (ss_rcpt_to ss)) < sl_max_recipients (smtp_lim sv) \<Longrightarrow> rcpt_args_ok a \<Longrightarrow>
    rcpt_has_dsn a \<longrightarrow> ss_extended ss \<Longrightarrow> sv_policy sv = Some p \<Longrightarrow>
    authorize p peer (sv_submission sv \<and> ss_auth_ok ss) (ra_address a) = Permitted \<Longrightarrow>
    session_step sv peer ss (add_recipient ss a)"
| Rcpt_Refused: "ss_rcpt_failures ss < sl_max_rcpt_failures (smtp_lim sv) \<Longrightarrow>
    session_step sv peer ss (ss\<lparr>ss_rcpt_failures := ss_rcpt_failures ss + 1\<rparr>)"
| Reset: "session_step sv peer ss (reset_transaction ss)"
| Data_Refused: "session_step sv peer ss (finish_data ss)"
| Data_Queued: "ss_rcpt_to ss \<noteq> [] \<Longrightarrow> ss_messages ss < sl_max_messages (smtp_lim sv) \<Longrightarrow>
    session_step sv peer ss ((finish_data ss)\<lparr>ss_messages := ss_messages ss + 1\<rparr>)"
| Auth: "sv_submission sv \<Longrightarrow> ss_extended ss \<Longrightarrow> ss_tls ss \<or> sv_insecure_auth sv \<Longrightarrow> vouched sv p \<Longrightarrow>
    session_step sv peer ss (ss\<lparr>ss_auth_user := pr_username p, ss_auth := p, ss_auth_ok := True\<rparr>)"
| Auth_Refused: "ss_auth_failures ss < sl_max_auth_failures (smtp_lim sv) \<Longrightarrow>
    session_step sv peer ss (ss\<lparr>ss_auth_failures := ss_auth_failures ss + 1\<rparr>)"
| Start_Tls: "sv_tls sv \<Longrightarrow> \<not> ss_tls ss \<Longrightarrow> session_step sv peer ss (reset_after_tls ss)"

lemma same_core_refl [simp, intro]: "same_core ss ss"
  by (simp add: same_core_def)

lemmas stay_refl [simp, intro] = Stay [OF same_core_refl]

section \<open>The code implements the machine\<close>

lemma mail_step:
  assumes "handle_mail sv st arg = (st', c)"
  shows "session_step sv (sm_ip st) (sm_session st) (sm_session st') \<and> sm_ip st' = sm_ip st \<and> sm_queue st' = sm_queue st"
proof (cases "sm_session st' = sm_session st")
  case True
  then show ?thesis
    using assms by (auto simp: handle_mail_def Let_def dest!: rate_event_frame split: if_splits sum.splits option.splits prod.splits)
next
  case False
  then obtain a st1 where a: "ss_seen_helo (sm_session st)" "sv_submission sv \<and> sv_submission_auth sv \<longrightarrow> ss_auth_ok (sm_session st)"
    "parse_mail_from arg = Inr a" "mail_refusal sv (sm_session st) a = None"
    "rate_event sv st ''mailfrom'' (ss_helo (sm_session st)) (ma_address a) = (st1, True)"
    "st' = resp (put_session st1 (begin_transaction (sm_session st) a)) 250 ''sender ok''"
    using assms by (auto simp: handle_mail_def Let_def dest: rate_event_frame split: if_splits sum.splits option.splits prod.splits)
  then show ?thesis using rate_event_frame [OF a(5)] parse_mail_from_ok(1) [OF a(3)] by (auto intro: session_step.Mail)
qed

lemma rcpt_cases:
  obtains "sm_session (handle_rcpt_command sv st arg) = sm_session st"
  | a p where "ss_mail_from (sm_session st) \<noteq> []" "int (length (ss_rcpt_to (sm_session st))) < sl_max_recipients (smtp_lim sv)"
      "rcpt_args_ok a" "rcpt_has_dsn a \<longrightarrow> ss_extended (sm_session st)" "sv_policy sv = Some p"
      "authorize p (sm_ip st) (sv_submission sv \<and> ss_auth_ok (sm_session st)) (ra_address a) = Permitted"
      "sm_session (handle_rcpt_command sv st arg) = add_recipient (sm_session st) a"
proof (cases "sm_session (handle_rcpt_command sv st arg) = sm_session st")
  case False
  have h: "sm_session st1 = sm_session st" if "apply_policy_hook sv st False r = (st1, ok)" for r st1 ok
    using hook_frame(4) [OF that] by simp
  from False obtain a st1 where a: "ss_mail_from (sm_session st) \<noteq> []" "int (length (ss_rcpt_to (sm_session st))) < sl_max_recipients (smtp_lim sv)"
    "parse_rcpt_to arg (sv_hostname sv) = Inr a" "rcpt_has_dsn a \<longrightarrow> ss_extended (sm_session st)"
    "rcpt_verdict sv st (ra_address a) = None" "apply_policy_hook sv st False (ra_address a) = (st1, True)"
    "sm_session (handle_rcpt_command sv st arg) = add_recipient (sm_session st1) a"
    by (auto simp: handle_rcpt_command_def Let_def not_le dest: h split: if_splits sum.splits option.splits prod.splits)
  moreover obtain p where "sv_policy sv = Some p" "authorize p (sm_ip st) (sv_submission sv \<and> ss_auth_ok (sm_session st)) (ra_address a) = Permitted"
    using a(5) by (auto simp: rcpt_verdict_def split: option.splits rcpt_reason.splits)
  ultimately show thesis using that(2) [of a p] h [OF a(6)] parse_rcpt_to_ok [OF a(3)] by simp
qed (rule that(1))

lemma rcpt_frame: "sm_ip (handle_rcpt_command sv st arg) = sm_ip st" "sm_queue (handle_rcpt_command sv st arg) = sm_queue st"
  by (auto simp: handle_rcpt_command_def Let_def dest: hook_frame split: sum.split option.split prod.split)

lemma add_recipient_length: "length (ss_rcpt_to (add_recipient ss a)) = length (ss_rcpt_to ss) + 1"
  by (simp add: add_recipient_def Let_def)

lemma count_rcpt_step:
  assumes "ss_rcpt_failures (sm_session st) < sl_max_rcpt_failures (smtp_lim sv)"
  shows "session_step sv (sm_ip st) (sm_session st) (sm_session (count_rcpt sv st arg))"
    "sm_ip (count_rcpt sv st arg) = sm_ip st" "sm_queue (count_rcpt sv st arg) = sm_queue st"
proof -
  show "session_step sv (sm_ip st) (sm_session st) (sm_session (count_rcpt sv st arg))"
  proof (rule rcpt_cases [of sv st arg])
    assume "sm_session (handle_rcpt_command sv st arg) = sm_session st"
    then show ?thesis using session_step.Rcpt_Refused [OF assms, of "sm_ip st"] by (simp add: count_rcpt_def Let_def)
  next
    fix a p
    assume r: "ss_mail_from (sm_session st) \<noteq> []" "int (length (ss_rcpt_to (sm_session st))) < sl_max_recipients (smtp_lim sv)"
      "rcpt_args_ok a" "rcpt_has_dsn a \<longrightarrow> ss_extended (sm_session st)" "sv_policy sv = Some p"
      "authorize p (sm_ip st) (sv_submission sv \<and> ss_auth_ok (sm_session st)) (ra_address a) = Permitted"
      "sm_session (handle_rcpt_command sv st arg) = add_recipient (sm_session st) a"
    show ?thesis using session_step.Rcpt [OF r(1-6)] by (simp add: count_rcpt_def Let_def r(7) add_recipient_length)
  qed
qed (simp_all add: count_rcpt_def Let_def rcpt_frame)

lemma set_helo_frame [simp]:
  "sm_session (set_helo st h) = (sm_session st)\<lparr>ss_helo := h\<rparr>" "sm_ip (set_helo st h) = sm_ip st" "sm_queue (set_helo st h) = sm_queue st"
  by (simp_all add: set_helo_def)

lemma ehlo_step:
  assumes "handle_ehlo sv st arg = (st', c)"
  shows "session_step sv (sm_ip st) (sm_session st) (sm_session st') \<and> sm_ip st' = sm_ip st \<and> sm_queue st' = sm_queue st"
proof (cases "arg = []")
  case False
  obtain st1 ok where r: "rate_event sv (set_helo st arg) ''helo'' arg [] = (st1, ok)" by fastforce
  note f = rate_event_frame [OF r]
  show ?thesis
    using assms False f session_step.Helo_Refused [of sv "sm_ip st" "sm_session st" arg]
      session_step.Greet [of sv "sm_ip st" "sm_session st" arg True]
    by (auto simp: handle_ehlo_def r Let_def split: if_splits)
qed (use assms in \<open>auto simp: handle_ehlo_def\<close>)

lemma helo_step:
  "session_step sv (sm_ip st) (sm_session st) (sm_session (handle_helo sv st arg))"
  "sm_ip (handle_helo sv st arg) = sm_ip st" "sm_queue (handle_helo sv st arg) = sm_queue st"
  using session_step.Greet [of sv "sm_ip st" "sm_session st" arg False]
  by (auto simp: handle_helo_def Let_def)

text \<open>The dialogue returns only what the backend said, and only for a mechanism that was announced.\<close>
lemma handle_auth_vouched:
  assumes "handle_auth sub be n cn arg = (cn', Inr r)"
  shows "\<exists>u w. authenticate_password be n u w = r \<or> (\<exists>f. ab_bearer be = Some f \<and> f n u w = r)"
    "to_upper (hd (split_fields arg)) \<in> {''XOAUTH2'', ''PLAIN'', ''LOGIN''}" "trim_space arg \<noteq> []"
proof -
  have fp: "finish_plain be n c p = (cn', Inr r) \<Longrightarrow> \<exists>u w. authenticate_password be n u w = r" for c p
    by (auto simp: finish_plain_def split: sum.splits)
  have fl: "login_user be n c p = (cn', Inr r) \<Longrightarrow> \<exists>u w. authenticate_password be n u w = r" for c p
    by (auto simp: login_user_def finish_login_def Let_def split: option.splits prod.splits if_splits)
  have fx: "finish_xoauth2 be n c p = (cn', Inr r) \<Longrightarrow> \<exists>u w f. ab_bearer be = Some f \<and> f n u w = r" for c p
    by (auto simp: finish_xoauth2_def refuse_xoauth2_def Let_def split: option.splits prod.splits if_splits sum.splits)
  let ?parts = "split_fields arg"
  from assms consider "handle_xoauth2 be n cn ?parts = (cn', Inr r)" | "handle_auth_plain be n cn ?parts = (cn', Inr r)"
    | "handle_auth_login be n cn ?parts = (cn', Inr r)"
    by (auto simp: handle_auth_def Let_def split: if_split_asm)
  then show "\<exists>u w. authenticate_password be n u w = r \<or> (\<exists>f. ab_bearer be = Some f \<and> f n u w = r)"
  proof cases
    case 1
    then obtain c p where "finish_xoauth2 be n c p = (cn', Inr r)"
      by (auto simp: handle_xoauth2_def Let_def split: option.splits prod.splits if_splits)
    then show ?thesis using fx by blast
  next
    case 2
    then obtain c p where "finish_plain be n c p = (cn', Inr r)"
      by (auto simp: handle_auth_plain_def Let_def split: option.splits prod.splits if_splits)
    then show ?thesis using fp by blast
  next
    case 3
    then obtain c p where "login_user be n c p = (cn', Inr r)"
      by (auto simp: handle_auth_login_def Let_def split: option.splits prod.splits if_splits)
    then show ?thesis using fl by blast
  qed
  show "to_upper (hd (split_fields arg)) \<in> {''XOAUTH2'', ''PLAIN'', ''LOGIN''}" "trim_space arg \<noteq> []"
    using assms by (auto simp: handle_auth_def Let_def split: if_split_asm)
qed

lemma split_fields_hd: "trim_space arg = arg \<Longrightarrow> arg \<noteq> [] \<Longrightarrow> auth_mechanism arg = to_upper (hd (split_fields arg))"
proof -
  assume a: "trim_space arg = arg" "arg \<noteq> []"
  have "split_fields arg \<noteq> []"
  proof -
    obtain c cs where "arg = c # cs" using a(2) by (cases arg) auto
    moreover from this have "\<not> is_space c" using trim_space_ends [of arg] a by simp
    moreover have "fields_acc (x # acc) s \<noteq> []" for x acc s by (induction s arbitrary: x acc) auto
    ultimately show ?thesis by (simp add: split_fields_def)
  qed
  then show ?thesis by (simp add: auth_mechanism_def a(1) split: list.split)
qed

lemma auth_step:
  assumes "handle_auth_command sv st arg = (st', c)" "trim_space arg = arg" "ss_auth_failures (sm_session st) < sl_max_auth_failures (smtp_lim sv)"
  shows "session_step sv (sm_ip st) (sm_session st) (sm_session st') \<and> sm_ip st' = sm_ip st \<and> sm_queue st' = sm_queue st"
proof -
  let ?ss = "sm_session st"
  have refused: "session_step sv (sm_ip st) ?ss (?ss\<lparr>ss_auth_failures := ss_auth_failures ?ss + 1\<rparr>)"
    using assms(3) by (rule session_step.Auth_Refused)
  have granted: "session_step sv (sm_ip st) ?ss (?ss\<lparr>ss_auth_user := pr_username (au_principal r), ss_auth := au_principal r, ss_auth_ok := True\<rparr>)"
    if "sv_submission sv" "ss_extended ?ss" "sv_auth_backend sv = Some be" "\<not> needs_encryption sv ?ss (auth_mech arg)"
      "handle_auth True be (sm_tick st) (sm_conn st) arg = (cn, Inr r)" "au_success r" for be cn r
  proof (rule session_step.Auth [OF that(1,2)])
    note v = handle_auth_vouched [OF that(5)]
    have "arg \<noteq> []" using v(3) assms(2) by auto
    then have "auth_mechanism arg \<in> {''XOAUTH2'', ''PLAIN'', ''LOGIN''}" using v(2) split_fields_hd [OF assms(2)] by simp
    then have "auth_mech arg \<in> {''XOAUTH2'', ''PLAIN'', ''LOGIN''}" unfolding auth_mech_def Let_def by auto
    then show "ss_tls ?ss \<or> sv_insecure_auth sv" using that(4) unfolding needs_encryption_def by auto
    show "vouched sv (au_principal r)" using v(1) that(3,6) unfolding vouched_def by blast
  qed
  show ?thesis
    using assms(1) refused granted
    by (auto simp: handle_auth_command_def auth_failed_def auth_accepted_def Let_def split: if_splits option.splits prod.splits sum.splits auth_error.splits)
qed

lemma starttls_step:
  assumes "handle_starttls sv st = (st', c)"
  shows "session_step sv (sm_ip st) (sm_session st) (sm_session st') \<and> sm_ip st' = sm_ip st \<and> sm_queue st' = sm_queue st"
  using assms by (auto simp: handle_starttls_def Let_def intro: session_step.Start_Tls split: if_splits option.splits)

section \<open>DATA\<close>

lemma same_core_trans: "same_core a b \<Longrightarrow> same_core b c \<Longrightarrow> same_core a c"
  by (cases a; cases b; cases c) (simp add: same_core_def)

lemma same_core_finish: "same_core ss ss' \<Longrightarrow> finish_data ss' = finish_data ss"
  by (cases ss; cases ss') (simp add: same_core_def finish_data_def)

lemma same_core_upd [simp]:
  "same_core ss (ss\<lparr>ss_data := d\<rparr>)" "same_core ss (ss\<lparr>ss_data := d, ss_quarantine := q\<rparr>)" "same_core ss (ss\<lparr>ss_quarantine := q\<rparr>)"
  "same_core ss (ss\<lparr>ss_signing := g\<rparr>)"
  by (simp_all add: same_core_def)

lemma same_core_verdict: "same_core ss (verdict_session sv n ss v)"
  unfolding verdict_session_def Let_def by (simp add: same_core_def)

lemma same_core_received: "same_core (sm_session st) (with_received sv st i)"
  by (simp add: with_received_def Let_def)

text \<open>What handing a message to the queue means: the message carries the envelope of the session.\<close>
definition handed_over :: "('e, 's, 'r) smtp_server \<Rightarrow> ('s, 'r) smtp_state \<Rightarrow> 's \<Rightarrow> bool" where
  "handed_over sv st q \<longleftrightarrow>
     (\<exists>i ss m. same_core (sm_session st) ss \<and>
        be_enqueue (sv_queue sv) (sv_env sv (sm_tick st)) (sm_queue st) (session_message sv (sm_tick st) ss i) = (q, m, None))"

lemma handed_over_core:
  assumes "handed_over sv (put_session st ss) q" "same_core (sm_session st) ss"
  shows "handed_over sv st q"
proof -
  obtain i s m where "same_core ss s" "be_enqueue (sv_queue sv) (sv_env sv (sm_tick st)) (sm_queue st) (session_message sv (sm_tick st) s i) = (q, m, None)"
    using assms(1) by (auto simp: handed_over_def)
  with same_core_trans [OF assms(2)] show ?thesis unfolding handed_over_def by blast
qed

text \<open>How a command ends that tries to accept a message\<close>
definition data_outcome :: "('e, 's, 'r) smtp_server \<Rightarrow> ('s, 'r) smtp_state \<Rightarrow> ('s, 'r) smtp_state \<Rightarrow> bool" where
  "data_outcome sv st st' \<longleftrightarrow>
     same_core (sm_session st) (sm_session st') \<or> sm_session st' = finish_data (sm_session st) \<or>
     sm_session st' = (finish_data (sm_session st))\<lparr>ss_messages := ss_messages (sm_session st) + 1\<rparr> \<and> handed_over sv st (sm_queue st')"

lemma same_core_messages: "same_core ss ss' \<Longrightarrow> ss_messages ss' = ss_messages ss"
  by (cases ss; cases ss') (simp add: same_core_def)

lemma data_outcome_core: "data_outcome sv (put_session st ss) st' \<Longrightarrow> same_core (sm_session st) ss \<Longrightarrow> data_outcome sv st st'"
  using handed_over_core [of sv st ss] same_core_trans [of "sm_session st" ss] same_core_finish [of "sm_session st" ss]
    same_core_messages [of "sm_session st" ss]
  by (auto simp: data_outcome_def)

lemma data_enqueue_outcome: "data_outcome sv st (data_enqueue sv st i)"
proof -
  obtain st1 ok where h: "apply_policy_hook sv st True [] = (st1, ok)" by fastforce
  obtain st2 err where e: "enqueue_session sv st1 i = (st2, err)" by fastforce
  note hf = hook_frame [OF h] and ef = enqueue_session_frame [OF e]
  have c: "same_core (sm_session st) (sm_session st1)"
    using hf(4) by (auto simp: hook_quarantine_def Let_def split: if_splits)
  note fin = same_core_finish [OF c] and msgs = same_core_messages [OF c]
  show ?thesis
  proof (cases "ok \<and> err = None")
    case True
    obtain q m where "be_enqueue (sv_queue sv) (sv_env sv (sm_tick st)) (sm_queue st) (session_message sv (sm_tick st) (sm_session st1) i) = (q, m, None)"
      "sm_queue st2 = q"
      using e True hf(2,3) unfolding enqueue_session_def by (auto split: prod.splits)
    with c have "handed_over sv st (sm_queue st2)" unfolding handed_over_def by blast
    moreover have "finish_data (ss\<lparr>ss_messages := k\<rparr>) = (finish_data ss)\<lparr>ss_messages := k\<rparr>" for ss k by (simp add: finish_data_def)
    ultimately show ?thesis using True by (simp add: data_outcome_def data_enqueue_def h e ef fin msgs)
  next
    case False
    then show ?thesis using c by (auto simp: data_outcome_def data_enqueue_def h e ef fin split: option.splits)
  qed
qed

lemma data_sign_outcome: "data_outcome sv st (data_sign sv st v)"
proof (cases "signing_identity_for sv (sm_session st)")
  case (Inr g)
  let ?ss2 = "verdict_session sv (sm_tick st) ((sm_session st)\<lparr>ss_signing := g\<rparr>) v"
  have c: "same_core (sm_session st) ?ss2" by (rule same_core_trans [OF _ same_core_verdict]) simp
  then have "same_core (sm_session st) (with_received sv (put_session st ?ss2) i)" for i
    using same_core_received [of "put_session st ?ss2" sv i] same_core_trans by auto
  moreover have "put_session (put_session st ?ss2) x = put_session st x" for x by (simp add: put_session_def)
  ultimately show ?thesis
    using data_outcome_core [OF data_enqueue_outcome, of st _ sv] c
    by (simp add: data_sign_def Inr Let_def split: option.split) (simp add: data_outcome_def)
qed (simp add: data_sign_def data_outcome_def)

lemma data_accept_outcome: "data_outcome sv st (data_accept sv st d)"
proof -
  let ?ss1 = "(sm_session st)\<lparr>ss_data := d, ss_quarantine := None\<rparr>"
  have f: "finish_data ?ss1 = finish_data (sm_session st)" by (rule same_core_finish) simp
  show ?thesis
    using data_outcome_core [OF data_sign_outcome, of st ?ss1 sv]
    by (simp add: data_accept_def Let_def) (simp add: data_outcome_def f)
qed

lemma data_step:
  assumes "ss_messages (sm_session st) < sl_max_messages (smtp_lim sv)"
  shows "session_step sv (sm_ip st) (sm_session st) (sm_session (handle_data sv st))"
    "ss_messages (sm_session (handle_data sv st)) \<noteq> ss_messages (sm_session st) \<Longrightarrow>
       ss_messages (sm_session (handle_data sv st)) = ss_messages (sm_session st) + 1 \<and>
       ss_rcpt_to (sm_session st) \<noteq> [] \<and> handed_over sv st (sm_queue (handle_data sv st))"
proof -
  let ?st' = "handle_data sv st"
  consider "?st' = resp st 503 ''need RCPT TO before DATA''" | e where "?st' = data_failed (resp st 354 ''end with <CRLF>.<CRLF>'') e"
    | rest d where "ss_rcpt_to (sm_session st) \<noteq> []"
        "?st' = data_accept sv ((resp st 354 ''end with <CRLF>.<CRLF>'')\<lparr>sm_conn := (sm_conn (resp st 354 ''end with <CRLF>.<CRLF>''))\<lparr>cn_input := rest\<rparr>\<rparr>) d"
  proof (cases "ss_rcpt_to (sm_session st) = []")
    case True
    then show thesis using that(1) by (simp add: handle_data_def)
  next
    case False
    show thesis
    proof (cases "read_data (sv_max_message_bytes sv) [] (cn_input (sm_conn st))")
      case (Inl e)
      then show thesis using that(2) [of e] False by (simp add: handle_data_def Let_def)
    next
      case (Inr p)
      then show thesis using that(3) [of "snd p" "fst p"] False by (simp add: handle_data_def Let_def split: prod.split)
    qed
  qed
  then have "session_step sv (sm_ip st) (sm_session st) (sm_session ?st') \<and>
     (ss_messages (sm_session ?st') \<noteq> ss_messages (sm_session st) \<longrightarrow>
       ss_messages (sm_session ?st') = ss_messages (sm_session st) + 1 \<and> ss_rcpt_to (sm_session st) \<noteq> [] \<and> handed_over sv st (sm_queue ?st'))"
  proof cases
    case (2 e)
    have "sm_session ?st' = (sm_session st)\<lparr>ss_close := True\<rparr>"
      unfolding 2 by (cases e) (simp_all add: data_failed_def Let_def)
    then show ?thesis by (simp add: session_step.Abort)
  next
    case (3 rest d)
    let ?st1 = "(resp st 354 ''end with <CRLF>.<CRLF>'')\<lparr>sm_conn := (sm_conn (resp st 354 ''end with <CRLF>.<CRLF>''))\<lparr>cn_input := rest\<rparr>\<rparr>"
    have s: "sm_session ?st1 = sm_session st" "sm_queue ?st1 = sm_queue st" "sm_tick ?st1 = sm_tick st" by simp_all
    have "ss_messages (finish_data ss) = ss_messages ss" for ss by (simp add: finish_data_def)
    then show ?thesis
      using data_accept_outcome [of sv ?st1 d] 3 session_step.Data_Queued [OF 3(1) assms] session_step.Data_Refused session_step.Stay same_core_messages
      unfolding data_outcome_def handed_over_def s by auto
  qed simp
  then show "session_step sv (sm_ip st) (sm_session st) (sm_session (handle_data sv st))"
    "ss_messages (sm_session (handle_data sv st)) \<noteq> ss_messages (sm_session st) \<Longrightarrow>
       ss_messages (sm_session (handle_data sv st)) = ss_messages (sm_session st) + 1 \<and>
       ss_rcpt_to (sm_session st) \<noteq> [] \<and> handed_over sv st (sm_queue (handle_data sv st))" by simp_all
qed

lemma data_enqueue_ip: "sm_ip (data_enqueue sv st i) = sm_ip st"
proof -
  obtain st1 ok where h: "apply_policy_hook sv st True [] = (st1, ok)" by fastforce
  obtain st2 err where e: "enqueue_session sv st1 i = (st2, err)" by fastforce
  show ?thesis using hook_frame(1) [OF h] enqueue_session_frame(2) [OF e] by (simp add: data_enqueue_def h e split: option.split)
qed

lemma handle_data_frame:
  "sm_ip (handle_data sv st) = sm_ip st" "ss_rcpt_to (sm_session st) = [] \<Longrightarrow> sm_queue (handle_data sv st) = sm_queue st"
proof -
  have "sm_ip (data_sign sv s v) = sm_ip s" for s v
    by (simp add: data_sign_def data_enqueue_ip Let_def split: sum.split option.split)
  then have "sm_ip (data_accept sv s d) = sm_ip s" for s d by (simp add: data_accept_def Let_def)
  then show "sm_ip (handle_data sv st) = sm_ip st"
    by (simp add: handle_data_def data_failed_def Let_def split: sum.split data_error.split)
  show "ss_rcpt_to (sm_session st) = [] \<Longrightarrow> sm_queue (handle_data sv st) = sm_queue st" by (simp add: handle_data_def)
qed

section \<open>The queue below the listener\<close>

text \<open>Over every backend that keeps its contract, no round drops a message, also when handing over a new one fails.\<close>
context queue_backend
begin

lemma data_enqueue_keeps:
  assumes "sv_queue sv = be" "holds (sm_queue st) i"
  shows "holds (sm_queue (data_enqueue sv st j)) i"
proof -
  obtain st1 ok where h: "apply_policy_hook sv st True [] = (st1, ok)" by fastforce
  obtain st2 err where e: "enqueue_session sv st1 j = (st2, err)" by fastforce
  have q1: "sm_queue st1 = sm_queue st" using hook_frame(2) [OF h] .
  have "holds (sm_queue st2) i"
    using e enqueue_keeps [OF assms(2), of "sv_env sv (sm_tick st1)" "session_message sv (sm_tick st1) (sm_session st1) j"]
    by (auto simp: enqueue_session_def assms(1) q1 split: prod.splits)
  with assms(2) q1 show ?thesis by (simp add: data_enqueue_def h e split: option.split)
qed

lemma handle_data_keeps:
  assumes "sv_queue sv = be" "holds (sm_queue st) i"
  shows "holds (sm_queue (handle_data sv st)) i"
proof -
  have sign: "holds (sm_queue (data_sign sv s v)) i" if "holds (sm_queue s) i" for s v
    using that data_enqueue_keeps [OF assms(1)] by (simp add: data_sign_def Let_def split: sum.split option.split)
  have "holds (sm_queue (data_accept sv s d)) i" if "holds (sm_queue s) i" for s d
    using that sign by (simp add: data_accept_def Let_def)
  then show ?thesis
    using assms(2) by (simp add: handle_data_def data_failed_def Let_def split: sum.split data_error.split)
qed

lemma serve_command_keeps:
  assumes "sv_queue sv = be" "holds (sm_queue st) i" "serve_command sv st c arg = (st', cl)"
  shows "holds (sm_queue st') i"
proof (cases c)
  case EHLO
  then show ?thesis using assms ehlo_step [of sv st arg st' cl] by (simp add: serve_command_def)
next
  case MAIL
  then show ?thesis using assms mail_step [of sv st arg st' cl] by (simp add: serve_command_def)
next
  case RCPT
  then show ?thesis using assms(2,3) by (auto simp: serve_command_def count_rcpt_def Let_def rcpt_frame)
next
  case DATA
  then show ?thesis using assms(3) handle_data_keeps [OF assms(1,2)] by (auto simp: serve_command_def Let_def)
next
  case AUTH
  have "sm_queue (fst (handle_auth_command sv st arg)) = sm_queue st"
    by (auto simp: handle_auth_command_def auth_failed_def auth_accepted_def Let_def split: option.split prod.split sum.split auth_error.split)
  then show ?thesis using AUTH assms by (simp add: serve_command_def)
next
  case STARTTLS
  then show ?thesis using assms starttls_step [of sv st st' cl] by (simp add: serve_command_def)
qed (use assms(2,3) in \<open>auto simp: serve_command_def helo_step\<close>)

lemma serve_step_keeps:
  assumes "sv_queue sv = be" "holds (sm_queue st) i" "serve_step sv st = (st', c)"
  shows "holds (sm_queue st') i"
proof (cases "limit_reached sv (sm_session st) = None \<and> read_smtp_line (cn_input (sm_conn st)) \<noteq> None")
  case True
  then obtain line rest where l: "read_smtp_line (cn_input (sm_conn st)) = Some (line, rest)" by auto
  let ?st = "st\<lparr>sm_conn := (sm_conn st)\<lparr>cn_input := rest\<rparr>, sm_tick := sm_tick st + 1\<rparr>"
  have s: "serve_line sv ?st line = (st', c)" using assms(3) True l by (simp add: serve_step_def)
  have "holds (sm_queue ?st) i" using assms(2) by simp
  note k = serve_command_keeps [OF assms(1) this, of "command_of (fst (split_verb (trim_eol line)))" "snd (split_verb (trim_eol line))" st' c]
  show ?thesis using s k assms(2) by (auto simp: serve_line_def split: if_splits prod.splits)
qed (use assms(2,3) in \<open>auto simp: serve_step_def split: option.splits\<close>)

end

end
