(* ===== verification/Smtp_Claims.thy ===== *)
theory Smtp_Claims
  imports Smtp_Machine
begin

text \<open>
  The properties of the SMTP listener: the code refines the machine of \<open>Smtp_Machine\<close>, the invariants of the session
  along every run, who may send and receive, what an accepted message means, and the dialogue on the wire.
\<close>

section \<open>One round\<close>

lemma messages_frame [simp]:
  "ss_messages (finish_data ss) = ss_messages ss" "ss_messages (reset_transaction ss) = ss_messages ss"
  "ss_messages (begin_transaction ss a) = ss_messages ss" "ss_messages (accept_greeting ss e) = ss_messages ss"
  "ss_messages (reset_after_tls ss) = ss_messages ss" "ss_messages (add_recipient ss r) = ss_messages ss"
  by (simp_all add: finish_data_def reset_transaction_def begin_transaction_def accept_greeting_def reset_after_tls_def
      add_recipient_def Let_def)

lemma mail_messages: "ss_messages (sm_session (fst (handle_mail sv st arg))) = ss_messages (sm_session st)"
  by (auto simp: handle_mail_def Let_def dest: rate_event_frame split: sum.split option.split prod.split)

lemma ehlo_messages: "ss_messages (sm_session (fst (handle_ehlo sv st arg))) = ss_messages (sm_session st)"
  by (auto simp: handle_ehlo_def Let_def dest: rate_event_frame split: prod.split)

lemma rcpt_messages: "ss_messages (sm_session (count_rcpt sv st arg)) = ss_messages (sm_session st)"
  by (rule rcpt_cases [of sv st arg]) (simp_all add: count_rcpt_def Let_def)

lemma auth_messages: "ss_messages (sm_session (fst (handle_auth_command sv st arg))) = ss_messages (sm_session st)"
  by (auto simp: handle_auth_command_def auth_failed_def auth_accepted_def Let_def split: option.split prod.split sum.split auth_error.split)

lemma starttls_messages: "ss_messages (sm_session (fst (handle_starttls sv st))) = ss_messages (sm_session st)"
  by (auto simp: handle_starttls_def Let_def split: option.split)

text \<open>What a round promises: a transition of the machine, and the queue changes only when a message is offered to it.\<close>
definition round_ok :: "('e, 's, 'r) smtp_server \<Rightarrow> ('s, 'r) smtp_state \<Rightarrow> ('s, 'r) smtp_state \<Rightarrow> bool" where
  "round_ok sv st st' \<longleftrightarrow>
     session_step sv (sm_ip st) (sm_session st) (sm_session st') \<and> sm_ip st' = sm_ip st \<and>
     (ss_messages (sm_session st') = ss_messages (sm_session st) \<or>
      ss_messages (sm_session st') = ss_messages (sm_session st) + 1 \<and> ss_rcpt_to (sm_session st) \<noteq> [] \<and> handed_over sv st (sm_queue st')) \<and>
     (sm_queue st' = sm_queue st \<or> ss_rcpt_to (sm_session st) \<noteq> [])"

lemma round_okI:
  "session_step sv (sm_ip st) (sm_session st) (sm_session st') \<and> sm_ip st' = sm_ip st \<and> sm_queue st' = sm_queue st \<Longrightarrow>
   ss_messages (sm_session st') = ss_messages (sm_session st) \<Longrightarrow> round_ok sv st st'"
  by (simp add: round_ok_def)

lemma serve_command_round:
  assumes "serve_command sv st c arg = (st', cl)" "trim_space arg = arg" "limit_reached sv (sm_session st) = None"
  shows "round_ok sv st st'"
proof -
  have lim: "ss_auth_failures (sm_session st) < sl_max_auth_failures (smtp_lim sv)" "ss_rcpt_failures (sm_session st) < sl_max_rcpt_failures (smtp_lim sv)"
    "ss_messages (sm_session st) < sl_max_messages (smtp_lim sv)"
    using assms(3) by (auto simp: limit_reached_def split: if_splits)
  show ?thesis
  proof (cases c)
    case EHLO
    then have "handle_ehlo sv st arg = (st', cl)" using assms(1) by (simp add: serve_command_def)
    then show ?thesis using ehlo_step ehlo_messages [of sv st arg] by (intro round_okI) simp_all
  next
    case HELO
    then have "st' = handle_helo sv st arg" using assms(1) by (simp add: serve_command_def)
    then show ?thesis using helo_step [of sv st arg] by (intro round_okI) (simp_all add: handle_helo_def Let_def)
  next
    case MAIL
    then have "handle_mail sv st arg = (st', cl)" using assms(1) by (simp add: serve_command_def)
    then show ?thesis using mail_step mail_messages [of sv st arg] by (intro round_okI) simp_all
  next
    case RCPT
    then have "st' = count_rcpt sv st arg" using assms(1) by (simp add: serve_command_def)
    then show ?thesis using count_rcpt_step [OF lim(2)] rcpt_messages by (intro round_okI) simp_all
  next
    case DATA
    then have "st' = handle_data sv st" using assms(1) by (simp add: serve_command_def Let_def)
    then show ?thesis using data_step [OF lim(3)] handle_data_frame by (auto simp: round_ok_def)
  next
    case AUTH
    then have "handle_auth_command sv st arg = (st', cl)" using assms(1) by (simp add: serve_command_def)
    then show ?thesis using auth_step [OF _ assms(2) lim(1)] auth_messages [of sv st arg] by (intro round_okI) simp_all
  next
    case STARTTLS
    then have "handle_starttls sv st = (st', cl)" using assms(1) by (simp add: serve_command_def)
    then show ?thesis using starttls_step starttls_messages [of sv st] by (intro round_okI) simp_all
  next
    case RSET
    then show ?thesis using assms(1) session_step.Reset by (intro round_okI) (auto simp: serve_command_def)
  qed (use assms(1) in \<open>auto simp: serve_command_def round_ok_def\<close>)
qed

lemma split_verb_trimmed: "split_verb l = (v, a) \<Longrightarrow> trim_space a = a"
  by (auto simp: split_verb_def split: prod.splits option.splits)

lemma serve_step_round:
  assumes "serve_step sv st = (st', cl)"
  shows "session_step sv (sm_ip st) (sm_session st) (sm_session st') \<and> sm_ip st' = sm_ip st \<and>
    (ss_messages (sm_session st') = ss_messages (sm_session st) \<or>
     ss_messages (sm_session st') = ss_messages (sm_session st) + 1 \<and> ss_rcpt_to (sm_session st) \<noteq> [] \<and>
       handed_over sv (st\<lparr>sm_tick := sm_tick st + 1\<rparr>) (sm_queue st')) \<and>
    (sm_queue st' = sm_queue st \<or> ss_rcpt_to (sm_session st) \<noteq> [])"
proof (cases "limit_reached sv (sm_session st)")
  case None
  show ?thesis
  proof (cases "read_smtp_line (cn_input (sm_conn st))")
    case (Some lr)
    let ?st = "st\<lparr>sm_conn := (sm_conn st)\<lparr>cn_input := snd lr\<rparr>, sm_tick := sm_tick st + 1\<rparr>"
    have s: "serve_line sv ?st (fst lr) = (st', cl)" using assms None Some by (simp add: serve_step_def split: prod.splits)
    have "round_ok sv ?st st'"
    proof (cases "too_long sv (fst lr) \<or> trim_eol (fst lr) = []")
      case True
      then show ?thesis using s by (auto simp: serve_line_def round_ok_def split: if_splits)
    next
      case False
      then have "serve_command sv ?st (command_of (fst (split_verb (trim_eol (fst lr))))) (snd (split_verb (trim_eol (fst lr)))) = (st', cl)"
        using s by (simp add: serve_line_def split: prod.splits)
      then show ?thesis by (rule serve_command_round) (use None split_verb_trimmed in \<open>simp_all add: prod_eq_iff\<close>)
    qed
    then show ?thesis by (simp add: round_ok_def handed_over_def)
  qed (use assms None in \<open>auto simp: serve_step_def\<close>)
qed (use assms in \<open>auto simp: serve_step_def\<close>)

section \<open>Runs\<close>

text \<open>
  The states of a connection, with the flag that it is closed. Between two rounds other connections and the workers may
  do anything to the queue, the limiter and the block list cache.
\<close>
inductive smtp_reach :: "('e, 's, 'r) smtp_server \<Rightarrow> ('s, 'r) smtp_state \<Rightarrow> ('s, 'r) smtp_state \<times> bool \<Rightarrow> bool" for sv st0 where
  Opened: "smtp_reach sv st0 (st0, False)"
| Round: "smtp_reach sv st0 (st, False) \<Longrightarrow> serve_step sv st = r \<Longrightarrow> smtp_reach sv st0 r"
| Others: "smtp_reach sv st0 (st, False) \<Longrightarrow> smtp_reach sv st0 (st\<lparr>sm_queue := q, sm_rate := l, sm_dnsbl := b\<rparr>, False)"

text \<open>The loop of the code is a run without interference.\<close>
lemma serve_reached: "smtp_reach sv st0 (st, False) \<Longrightarrow> smtp_reach sv st0 (serve sv st, True)"
proof (induction sv st rule: serve.induct)
  case (1 sv st)
  obtain st' c where s: "serve_step sv st = (st', c)" by fastforce
  have r: "smtp_reach sv st0 (st', c)" using smtp_reach.Round [OF "1.prems" s] .
  show ?case
  proof (cases c)
    case True
    then show ?thesis using r by (simp add: serve.simps s)
  next
    case False
    then show ?thesis using "1.IH" [OF s [symmetric]] r by (simp add: serve.simps [of sv st] s)
  qed
qed

section \<open>Invariants of the session\<close>

definition session_inv :: "('e, 's, 'r) smtp_server \<Rightarrow> session \<Rightarrow> bool" where
  "session_inv sv ss \<longleftrightarrow>
     (ss_rcpt_to ss \<noteq> [] \<longrightarrow> ss_mail_from ss \<noteq> []) \<and> (ss_mail_from ss \<noteq> [] \<longrightarrow> ss_seen_helo ss) \<and>
     (ss_extended ss \<longrightarrow> ss_seen_helo ss) \<and>
     int (length (ss_rcpt_to ss)) \<le> sl_max_recipients (smtp_lim sv) \<and> ss_messages ss \<le> sl_max_messages (smtp_lim sv) \<and>
     ss_auth_failures ss \<le> sl_max_auth_failures (smtp_lim sv) \<and> ss_rcpt_failures ss \<le> sl_max_rcpt_failures (smtp_lim sv) \<and>
     (ss_auth_ok ss \<longrightarrow> sv_submission sv \<and> (ss_tls ss \<or> sv_insecure_auth sv) \<and> vouched sv (ss_auth ss)) \<and>
     (ss_dsn ss \<noteq> None \<or> ss_require_tls ss \<longrightarrow> ss_extended ss) \<and> (ss_require_tls ss \<longrightarrow> require_tls_available sv) \<and>
     ss_body_mode ss \<in> {''7BIT'', ''8BITMIME''} \<and> fst ` set (dsn_recipients (the_dsn (ss_dsn ss))) \<subseteq> set (ss_rcpt_to ss)"

text \<open>Who sent the transaction and who may receive it\<close>
definition sender_inv :: "('e, 's, 'r) smtp_server \<Rightarrow> session \<Rightarrow> bool" where
  "sender_inv sv ss \<longleftrightarrow>
     (sv_submission sv \<and> sv_submission_auth sv \<and> ss_mail_from ss \<noteq> [] \<longrightarrow>
        ss_auth_ok ss \<and> (sv_sender_identity sv \<longrightarrow> (\<exists>p. vouched sv p \<and> sender_allowed p (ss_mail_from ss))))"

definition rcpts_inv :: "('e, 's, 'r) smtp_server \<Rightarrow> ip option \<Rightarrow> session \<Rightarrow> bool" where
  "rcpts_inv sv peer ss \<longleftrightarrow>
     (\<forall>r \<in> set (ss_rcpt_to ss). \<exists>p. sv_policy sv = Some p \<and> authorize p peer (sv_submission sv \<and> ss_auth_ok ss) r = Permitted)"

lemma same_core_fields:
  assumes "same_core ss ss'"
  shows "ss_rcpt_to ss' = ss_rcpt_to ss" "ss_mail_from ss' = ss_mail_from ss" "ss_seen_helo ss' = ss_seen_helo ss"
    "ss_extended ss' = ss_extended ss" "ss_messages ss' = ss_messages ss" "ss_auth_failures ss' = ss_auth_failures ss"
    "ss_rcpt_failures ss' = ss_rcpt_failures ss" "ss_auth_ok ss' = ss_auth_ok ss" "ss_tls ss' = ss_tls ss" "ss_dsn ss' = ss_dsn ss"
    "ss_require_tls ss' = ss_require_tls ss" "ss_body_mode ss' = ss_body_mode ss" "ss_auth ss' = ss_auth ss"
    "ss_helo ss' = ss_helo ss" "ss_remote ss' = ss_remote ss"
  using assms by (cases ss; cases ss'; simp add: same_core_def)+

lemma reset_fields [simp]:
  "ss_rcpt_to (finish_data ss) = []" "ss_mail_from (finish_data ss) = []" "ss_dsn (finish_data ss) = None"
  "ss_require_tls (finish_data ss) = False" "ss_seen_helo (finish_data ss) = ss_seen_helo ss" "ss_extended (finish_data ss) = ss_extended ss"
  "ss_auth_failures (finish_data ss) = ss_auth_failures ss" "ss_rcpt_failures (finish_data ss) = ss_rcpt_failures ss"
  "ss_auth_ok (finish_data ss) = ss_auth_ok ss" "ss_auth (finish_data ss) = ss_auth ss" "ss_tls (finish_data ss) = ss_tls ss"
  "ss_body_mode (finish_data ss) = ss_body_mode ss"
  by (simp_all add: finish_data_def)

lemma begin_fields [simp]:
  "ss_rcpt_to (begin_transaction ss a) = []" "ss_mail_from (begin_transaction ss a) = ma_address a" "ss_dsn (begin_transaction ss a) = ma_dsn a"
  "ss_require_tls (begin_transaction ss a) = ma_require_tls a" "ss_seen_helo (begin_transaction ss a) = ss_seen_helo ss"
  "ss_extended (begin_transaction ss a) = ss_extended ss" "ss_auth_failures (begin_transaction ss a) = ss_auth_failures ss"
  "ss_rcpt_failures (begin_transaction ss a) = ss_rcpt_failures ss" "ss_auth_ok (begin_transaction ss a) = ss_auth_ok ss"
  "ss_auth (begin_transaction ss a) = ss_auth ss" "ss_tls (begin_transaction ss a) = ss_tls ss"
  "ss_body_mode (begin_transaction ss a) = (if ma_body a \<noteq> [] then ma_body a else ''7BIT'')"
  by (simp_all add: begin_transaction_def reset_transaction_def Let_def)

lemma add_fields [simp]:
  "ss_rcpt_to (add_recipient ss a) = ss_rcpt_to ss @ [ra_address a]" "ss_mail_from (add_recipient ss a) = ss_mail_from ss"
  "ss_require_tls (add_recipient ss a) = ss_require_tls ss" "ss_seen_helo (add_recipient ss a) = ss_seen_helo ss"
  "ss_extended (add_recipient ss a) = ss_extended ss" "ss_auth_failures (add_recipient ss a) = ss_auth_failures ss"
  "ss_rcpt_failures (add_recipient ss a) = ss_rcpt_failures ss" "ss_auth_ok (add_recipient ss a) = ss_auth_ok ss"
  "ss_auth (add_recipient ss a) = ss_auth ss" "ss_tls (add_recipient ss a) = ss_tls ss" "ss_body_mode (add_recipient ss a) = ss_body_mode ss"
  by (simp_all add: add_recipient_def Let_def)

lemma add_dsn:
  "ss_dsn (add_recipient ss a) \<noteq> None \<Longrightarrow> ss_dsn ss \<noteq> None \<or> rcpt_has_dsn a"
  "fst ` set (dsn_recipients (the_dsn (ss_dsn (add_recipient ss a)))) \<subseteq> insert (ra_address a) (fst ` set (dsn_recipients (the_dsn (ss_dsn ss))))"
proof -
  have "fst ` set (dput k v xs) = insert k (fst ` set xs)" for k v and xs :: "(string \<times> dsn_recipient_options) list"
    using dput_keys [of k v xs] by simp
  then show "fst ` set (dsn_recipients (the_dsn (ss_dsn (add_recipient ss a)))) \<subseteq> insert (ra_address a) (fst ` set (dsn_recipients (the_dsn (ss_dsn ss))))"
    by (auto simp: add_recipient_def Let_def the_dsn_def)
qed (simp add: add_recipient_def Let_def split: if_splits)

lemma with_defaults_pos:
  assumes "limits_validate c"
  shows "0 < sl_max_recipients (with_defaults c)" "0 < sl_max_messages (with_defaults c)" "0 < sl_max_auth_failures (with_defaults c)"
    "0 < sl_max_rcpt_failures (with_defaults c)" "0 < sl_max_connections (with_defaults c)" "0 < sl_max_connections_per_ip (with_defaults c)"
  using assms by (simp_all add: limits_validate_def with_defaults_def default_to_def)

lemma the_dsn_None [simp]: "the_dsn None = empty_dsn"
  by (simp add: the_dsn_def)

lemma mail_dsn: "mail_args_ok a \<Longrightarrow> dsn_recipients (the_dsn (ma_dsn a)) = []"
  by (cases "ma_dsn a") (auto simp: mail_args_ok_def the_dsn_def)

lemma mail_body_mode: "mail_args_ok a \<Longrightarrow> ma_body a \<noteq> [] \<Longrightarrow> ma_body a = ''7BIT'' \<or> ma_body a = ''8BITMIME''"
  by (auto simp: mail_args_ok_def)

lemma session_step_inv:
  assumes "session_step sv peer ss ss'" "limits_validate (sv_limits sv)" "session_inv sv ss"
  shows "session_inv sv ss'"
  using assms(1)
proof cases
  case Stay
  then show ?thesis using assms(3) by (simp add: session_inv_def same_core_fields)
next
  case (Mail a)
  have d: "ma_dsn a \<noteq> None \<or> ma_require_tls a \<longrightarrow> ss_extended ss" "ma_require_tls a \<longrightarrow> require_tls_available sv"
    using Mail(5) by (auto simp: mail_refusal_def split: if_splits)
  show ?thesis
    using assms(3) Mail(1,2) d mail_dsn [OF Mail(4)] mail_body_mode [OF Mail(4)] with_defaults_pos [OF assms(2)]
    unfolding session_inv_def by simp
next
  case (Rcpt a p)
  show ?thesis
    using assms(3) Rcpt(1-5) add_dsn [of ss a] unfolding session_inv_def by simp blast
next
  case (Auth p)
  then show ?thesis using assms(3) by (simp add: session_inv_def)
qed (use assms(3) with_defaults_pos [OF assms(2)] in \<open>auto simp: session_inv_def accept_greeting_def reset_transaction_def reset_after_tls_def\<close>)

lemma authorize_mono: "authorize p peer b r = Permitted \<Longrightarrow> b \<longrightarrow> b' \<Longrightarrow> authorize p peer b' r = Permitted"
  by (auto simp: authorize_def split: option.splits if_splits)

lemma authorize_permitted:
  assumes "authorize p peer b r = Permitted"
  shows "\<exists>d. domain_of r = Some d \<and> (if d \<in> set (rp_domains p) then to_lower r \<in> set (rp_recipients p)
     else b \<or> (\<exists>a n. peer = Some a \<and> n \<in> set (rp_trusted p) \<and> net_contains n a))"
proof (cases "domain_of r")
  case (Some d)
  then show ?thesis
    using assms by (cases "d \<in> set (rp_domains p)") (auto simp: authorize_def list_ex_iff split: if_splits option.splits)
qed (use assms in \<open>simp add: authorize_def\<close>)

lemma session_step_sender:
  assumes "session_step sv peer ss ss'" "session_inv sv ss" "sender_inv sv ss"
  shows "sender_inv sv ss'"
  using assms(1)
proof cases
  case Stay
  then show ?thesis using assms(3) by (simp add: sender_inv_def same_core_fields)
next
  case (Mail a)
  have "sender_allowed (ss_auth ss) (ma_address a)" if "sv_submission sv" "sv_sender_identity sv" "ss_auth_ok ss"
    using Mail(5) that by (auto simp: mail_refusal_def split: if_splits)
  then show ?thesis
    using Mail assms(2) by (auto simp: sender_inv_def session_inv_def)
next
  case (Rcpt a p)
  then show ?thesis using assms(3) by (simp add: sender_inv_def)
qed (use assms(3) in \<open>auto simp: sender_inv_def accept_greeting_def reset_transaction_def reset_after_tls_def\<close>)

lemma session_step_rcpts:
  assumes "session_step sv peer ss ss'" "rcpts_inv sv peer ss"
  shows "rcpts_inv sv peer ss'"
  using assms(1)
proof cases
  case Stay
  then show ?thesis using assms(2) by (simp add: rcpts_inv_def same_core_fields)
next
  case (Mail a)
  then show ?thesis by (simp add: rcpts_inv_def)
next
  case (Rcpt a p)
  then show ?thesis using assms(2) by (auto simp: rcpts_inv_def)
next
  case (Auth p)
  then show ?thesis using assms(2) authorize_mono unfolding rcpts_inv_def by fastforce
qed (use assms(2) in \<open>auto simp: rcpts_inv_def accept_greeting_def reset_transaction_def reset_after_tls_def\<close>)

lemma reach_inv:
  assumes "smtp_reach sv st0 (st, c)" "limits_validate (sv_limits sv)" "sm_session st0 = new_session remote tls"
  shows "session_inv sv (sm_session st) \<and> sender_inv sv (sm_session st) \<and> rcpts_inv sv (sm_ip st) (sm_session st)"
  using assms(1)
proof (induction "(st, c)" arbitrary: st c rule: smtp_reach.induct)
  case Opened
  show ?case
    using with_defaults_pos [OF assms(2)]
    by (simp add: assms(3) session_inv_def sender_inv_def rcpts_inv_def new_session_def less_imp_le)
next
  case (Round st1)
  note r = serve_step_round [OF Round(3)]
  show ?case
    using r Round(2) session_step_inv [OF _ assms(2)] session_step_sender session_step_rcpts by metis
qed simp

text \<open>The message of an accepted transaction has the envelope of the session.\<close>
lemma session_message_fields [simp]:
  "m_id (session_message sv n ss i) = i" "rcpt_to (session_message sv n ss i) = ss_rcpt_to ss"
  "mail_from (session_message sv n ss i) = ss_mail_from ss" "require_tls (session_message sv n ss i) = ss_require_tls ss"
  "m_dsn (session_message sv n ss i) = ss_dsn ss" "m_helo (session_message sv n ss i) = ss_helo ss"
  "remote_addr (session_message sv n ss i) = ss_remote ss"
  by (simp_all add: session_message_def new_message_def Let_def)

text \<open>An accepted round: the backend took a message with the envelope of the session.\<close>
lemma accepted_message:
  assumes "serve_step sv st = (st', c)" "ss_messages (sm_session st') \<noteq> ss_messages (sm_session st)"
  obtains m m' where "be_enqueue (sv_queue sv) (sv_env sv (sm_tick st + 1)) (sm_queue st) m = (sm_queue st', m', None)"
    "rcpt_to m = ss_rcpt_to (sm_session st)" "rcpt_to m \<noteq> []" "mail_from m = ss_mail_from (sm_session st)"
    "require_tls m = ss_require_tls (sm_session st)" "m_dsn m = ss_dsn (sm_session st)"
proof -
  have "ss_rcpt_to (sm_session st) \<noteq> []" "handed_over sv (st\<lparr>sm_tick := sm_tick st + 1\<rparr>) (sm_queue st')"
    using serve_step_round [OF assms(1)] assms(2) by auto
  then obtain i ss m' where h: "same_core (sm_session st) ss" "ss_rcpt_to (sm_session st) \<noteq> []"
    "be_enqueue (sv_queue sv) (sv_env sv (sm_tick st + 1)) (sm_queue st) (session_message sv (sm_tick st + 1) ss i) = (sm_queue st', m', None)"
    by (auto simp: handed_over_def)
  then show thesis
    by (intro that [OF h(3)]) (simp_all add: same_core_fields [OF h(1)])
qed

section \<open>What an accepted message contains\<close>

text \<open>The queue took a message with the identifier of the round, the envelope of the session and the text \<open>d\<close> with header fields added.\<close>
definition takes_in :: "('e, 's, 'r) smtp_server \<Rightarrow> ('s, 'r) smtp_state \<Rightarrow> string \<Rightarrow> 's \<Rightarrow> bool" where
  "takes_in sv st d q \<longleftrightarrow>
     (\<exists>i ss fields received m. sv_new_id sv (sm_tick st) = Some i \<and> same_core (sm_session st) ss \<and>
        ss_data ss = inject_headers (inject_headers d fields) [received] \<and>
        be_enqueue (sv_queue sv) (sv_env sv (sm_tick st)) (sm_queue st) (session_message sv (sm_tick st) ss i) = (q, m, None))"

lemma data_enqueue_takes:
  assumes "ss_messages (sm_session (data_enqueue sv st i)) \<noteq> ss_messages (sm_session st)"
  shows "\<exists>ss m. same_core (sm_session st) ss \<and> ss_data ss = ss_data (sm_session st) \<and>
    be_enqueue (sv_queue sv) (sv_env sv (sm_tick st)) (sm_queue st) (session_message sv (sm_tick st) ss i) =
      (sm_queue (data_enqueue sv st i), m, None)"
proof -
  obtain st1 ok where h: "apply_policy_hook sv st True [] = (st1, ok)" by fastforce
  obtain st2 err where e: "enqueue_session sv st1 i = (st2, err)" by fastforce
  note hf = hook_frame [OF h] and ef = enqueue_session_frame [OF e]
  have c: "same_core (sm_session st) (sm_session st1)" "ss_data (sm_session st1) = ss_data (sm_session st)"
    using hf(4) by (auto simp: hook_quarantine_def Let_def split: if_splits)
  have ok: "ok" "err = None"
    using assms same_core_messages [OF c(1)] by (auto simp: data_enqueue_def h e ef split: if_splits option.splits)
  then have "sm_queue (data_enqueue sv st i) = sm_queue st2" by (simp add: data_enqueue_def h e)
  with e ok c hf(2,3) show ?thesis by (auto simp: enqueue_session_def split: prod.splits)
qed

lemma put_put [simp]: "put_session (put_session st a) b = put_session st b"
  by (simp add: put_session_def)

lemma data_sign_takes:
  assumes "ss_messages (sm_session (data_sign sv st v)) \<noteq> ss_messages (sm_session st)"
  shows "takes_in sv st (ss_data (sm_session st)) (sm_queue (data_sign sv st v))"
proof -
  obtain g where g: "signing_identity_for sv (sm_session st) = Inr g"
    using assms by (cases "signing_identity_for sv (sm_session st)") (auto simp: data_sign_def)
  let ?ss = "verdict_session sv (sm_tick st) ((sm_session st)\<lparr>ss_signing := g\<rparr>) v"
  have c: "same_core (sm_session st) ?ss" by (rule same_core_trans [OF _ same_core_verdict]) simp
  obtain i where i: "sv_new_id sv (sm_tick st) = Some i"
    using assms same_core_messages [OF c] by (cases "sv_new_id sv (sm_tick st)") (auto simp: data_sign_def g Let_def)
  let ?ss3 = "with_received sv (put_session st ?ss) i"
  have c3: "same_core (sm_session st) ?ss3"
    using same_core_trans [OF c] same_core_received [of "put_session st ?ss" sv i] by simp
  have d3: "ss_data ?ss3 = inject_headers (inject_headers (ss_data (sm_session st)) ([mv_header v] @
      (if mv_action v = ActionQuarantine then [''X-Kuroshio-Quarantine: true''] else [])))
      [build_received_header (sv_date sv) (sv_hostname sv) (ss_helo ?ss) (ss_remote ?ss)
        (map_option ip_string (sm_ip st)) i (sv_now sv (sm_tick st) 2) (ss_extended ?ss) (ss_tls ?ss)]"
    by (simp add: with_received_def verdict_session_def Let_def)
  have s: "data_sign sv st v = data_enqueue sv (put_session st ?ss3) i" by (simp add: data_sign_def g i Let_def)
  have "ss_messages (sm_session (data_enqueue sv (put_session st ?ss3) i)) \<noteq> ss_messages (sm_session (put_session st ?ss3))"
    using assms same_core_messages [OF c3] by (simp add: s)
  from data_enqueue_takes [OF this] obtain ss m where m: "same_core ?ss3 ss" "ss_data ss = ss_data ?ss3"
    "be_enqueue (sv_queue sv) (sv_env sv (sm_tick st)) (sm_queue st) (session_message sv (sm_tick st) ss i) = (sm_queue (data_sign sv st v), m, None)"
    by (auto simp: s)
  show ?thesis
    unfolding takes_in_def using i m(2,3) same_core_trans [OF c3 m(1)] unfolding d3 by blast
qed

lemma takes_in_core:
  assumes "takes_in sv (put_session st ss) d q" "same_core (sm_session st) ss"
  shows "takes_in sv st d q"
proof -
  obtain i s fields received m where m: "sv_new_id sv (sm_tick st) = Some i" "same_core ss s" "ss_data s = inject_headers (inject_headers d fields) [received]"
    "be_enqueue (sv_queue sv) (sv_env sv (sm_tick st)) (sm_queue st) (session_message sv (sm_tick st) s i) = (q, m, None)"
    using assms(1) by (auto simp: takes_in_def)
  with same_core_trans [OF assms(2) m(2)] show ?thesis unfolding takes_in_def by blast
qed

lemma data_accept_takes:
  assumes "ss_messages (sm_session (data_accept sv st d)) \<noteq> ss_messages (sm_session st)"
  shows "takes_in sv st d (sm_queue (data_accept sv st d))"
proof -
  let ?ss = "(sm_session st)\<lparr>ss_data := d, ss_quarantine := None\<rparr>"
  obtain v where v: "data_accept sv st d = data_sign sv (put_session st ?ss) v"
    using assms by (auto simp: data_accept_def Let_def split: if_splits)
  have "takes_in sv (put_session st ?ss) d (sm_queue (data_accept sv st d))"
    using data_sign_takes [of sv "put_session st ?ss" v] assms by (simp add: v)
  then show ?thesis by (rule takes_in_core) simp
qed

lemma handle_data_takes:
  assumes "ss_messages (sm_session (handle_data sv st)) \<noteq> ss_messages (sm_session st)"
  shows "\<exists>d rest. read_data (sv_max_message_bytes sv) [] (cn_input (sm_conn st)) = Inr (d, rest) \<and> takes_in sv st d (sm_queue (handle_data sv st))"
proof (cases "read_data (sv_max_message_bytes sv) [] (cn_input (sm_conn st))")
  case (Inl e)
  then show ?thesis using assms by (cases e) (auto simp: handle_data_def data_failed_def Let_def split: if_splits)
next
  case (Inr p)
  obtain d rest where p: "p = (d, rest)" by force
  let ?st = "(resp st 354 ''end with <CRLF>.<CRLF>'')\<lparr>sm_conn := (sm_conn (resp st 354 ''end with <CRLF>.<CRLF>''))\<lparr>cn_input := rest\<rparr>\<rparr>"
  have h: "handle_data sv st = data_accept sv ?st d"
    using assms Inr p by (auto simp: handle_data_def Let_def split: if_splits)
  have "takes_in sv ?st d (sm_queue (data_accept sv ?st d))"
    by (rule data_accept_takes) (use assms h in simp)
  then show ?thesis using Inr p h by (simp add: takes_in_def)
qed

text \<open>A round that raises the number of accepted messages read a command and a text, and handed the message with that text to the queue.\<close>
lemma accepted_text:
  assumes "serve_step sv st = (st', c)" "ss_messages (sm_session st') \<noteq> ss_messages (sm_session st)"
  shows "\<exists>line rest d rest'. read_smtp_line (cn_input (sm_conn st)) = Some (line, rest) \<and>
    read_data (sv_max_message_bytes sv) [] rest = Inr (d, rest') \<and> takes_in sv (st\<lparr>sm_tick := sm_tick st + 1\<rparr>) d (sm_queue st')"
proof -
  obtain line rest where l: "limit_reached sv (sm_session st) = None" "read_smtp_line (cn_input (sm_conn st)) = Some (line, rest)"
    "serve_line sv (st\<lparr>sm_conn := (sm_conn st)\<lparr>cn_input := rest\<rparr>, sm_tick := sm_tick st + 1\<rparr>) line = (st', c)"
    using assms by (auto simp: serve_step_def split: option.splits prod.splits)
  let ?st = "st\<lparr>sm_conn := (sm_conn st)\<lparr>cn_input := rest\<rparr>, sm_tick := sm_tick st + 1\<rparr>"
  obtain verb arg where v: "split_verb (trim_eol line) = (verb, arg)" "serve_command sv ?st (command_of verb) arg = (st', c)"
    using l(3) assms(2) by (auto simp: serve_line_def split: if_splits prod.splits)
  have ne: "ss_messages (sm_session st') \<noteq> ss_messages (sm_session ?st)" using assms(2) by simp
  have "st' = handle_data sv ?st"
  proof (cases "command_of verb")
    case EHLO
    then show ?thesis using v(2) ne ehlo_messages [of sv ?st arg] by (simp add: serve_command_def)
  next
    case MAIL
    then show ?thesis using v(2) ne mail_messages [of sv ?st arg] by (simp add: serve_command_def)
  next
    case RCPT
    then show ?thesis using v(2) ne rcpt_messages [of sv ?st arg] by (auto simp: serve_command_def)
  next
    case AUTH
    then show ?thesis using v(2) ne auth_messages [of sv ?st arg] by (simp add: serve_command_def)
  next
    case STARTTLS
    then show ?thesis using v(2) ne starttls_messages [of sv ?st] by (simp add: serve_command_def)
  next
    case HELO
    then show ?thesis using v(2) ne by (auto simp: serve_command_def handle_helo_def Let_def)
  next
    case RSET
    then show ?thesis using v(2) ne by (auto simp: serve_command_def)
  qed (use v(2) ne in \<open>auto simp: serve_command_def Let_def\<close>)
  with handle_data_takes [of sv ?st] ne l(2) show ?thesis by (simp add: takes_in_def)
qed

section \<open>A concrete listener\<close>

definition w_smtp_env :: env where
  "w_smtp_env = \<lparr>now = 100, io_fails = (\<lambda>_ _ _. False), json_len = (\<lambda>_. Some 10), free_bytes = Some 1000\<rparr>"

definition w_smtp_store :: store where
  "w_smtp_store = \<lparr>limits = \<lparr>max_messages = 0, max_bytes = 0, min_free_bytes = 0, low_percent = 0\<rparr>, paused = False, files = (\<lambda>_. [])\<rparr>"

definition w_users :: static_backend where
  "w_users = [(''a@a.jp'', ''x''), (''b@b.jp'', ''y'')]"

definition w_server :: "(env, store, limit_hits) smtp_server" where
  "w_server = \<lparr>sv_hostname = ''mx'', sv_max_message_bytes = 1000,
     sv_limits = \<lparr>sl_max_connections = 0, sl_max_connections_per_ip = 0, sl_max_recipients = 0, sl_max_messages = 0, sl_max_bytes = 0,
        sl_max_auth_failures = 0, sl_max_rcpt_failures = 0, sl_idle_timeout = 0, sl_max_lifetime = 0\<rparr>,
     sv_submission = True, sv_implicit_tls = True, sv_tls = True, sv_submission_auth = True, sv_sender_identity = True,
     sv_insecure_auth = False, sv_delivery_mode = ''mx'', sv_route_modes = [], sv_dkim_profiles = [], sv_quarantine_enabled = False,
     sv_quarantine_retention = 0, sv_send_body = False,
     sv_policy = Some \<lparr>rp_domains = [], rp_recipients = [], rp_trusted = []\<rparr>, sv_hook = None,
     sv_auth_backend = Some (static_methods w_users), sv_mailauth = (\<lambda>_ _ _ _ _ _. \<lparr>mv_action = ActionAccept, mv_header = ''AR: ok''\<rparr>),
     sv_from_address = (\<lambda>_. None), sv_limiter = None, sv_rules = None, sv_allow = local_allow, sv_lookup_host = (\<lambda>_. None),
     sv_queue = local_backend, sv_env = (\<lambda>_. w_smtp_env), sv_now = (\<lambda>_ _. 0), sv_new_id = (\<lambda>_. Some ''i1''),
     sv_trace = (\<lambda>_. ([], [])), sv_date = (\<lambda>_. ''today'')\<rparr>"

definition w_client :: "string \<Rightarrow> (store, limit_hits) smtp_state" where
  "w_client input = \<lparr>sm_session = new_session ''192.0.2.1:25'' True, sm_conn = \<lparr>cn_input = input, cn_tls = None, cn_out = []\<rparr>,
     sm_ip = Some [192, 0, 2, 1], sm_queue = w_smtp_store, sm_rate = [], sm_dnsbl = None, sm_tick = 0\<rparr>"

definition w_script :: string where
  "w_script = ''EHLO c'' @ crlf @ ''AUTH PLAIN AGFAYS5qcAB4'' @ crlf @ ''MAIL FROM:<a@a.jp>'' @ crlf @ ''AUTH PLAIN AGJAYi5qcAB5'' @ crlf @
     ''RCPT TO:<u@v.jp>'' @ crlf @ ''DATA'' @ crlf @ ''S: t'' @ crlf @ crlf @ ''.'' @ crlf"


fun rounds :: "('e, 's, 'r) smtp_server \<Rightarrow> nat \<Rightarrow> ('s, 'r) smtp_state \<Rightarrow> ('s, 'r) smtp_state \<times> bool" where
  "rounds sv 0 st = (st, False)"
| "rounds sv (Suc n) st = (case serve_step sv st of (st', c) \<Rightarrow> if c then (st', True) else rounds sv n st')"

lemma rounds_reached: "smtp_reach sv st0 (st, False) \<Longrightarrow> smtp_reach sv st0 (rounds sv n st)"
proof (induction n arbitrary: st)
  case (Suc n)
  then show ?case using smtp_reach.Round [OF Suc.prems refl] by (auto split: prod.split)
qed simp

definition w_before :: "(store, limit_hits) smtp_state" where
  "w_before = fst (rounds w_server 5 (w_client w_script))"

lemma w_eval:
  "(let r = rounds w_server 5 (w_client w_script); ss = sm_session (fst r) in
    (snd r, ss_mail_from ss, ss_rcpt_to ss, ss_messages ss, ss_auth_ok ss, ss_messages (sm_session (fst (serve_step w_server (fst r)))))) =
   (False, ''a@a.jp'', [''u@v.jp''], 0, True, 1)"
  by code_simp

lemma w_facts:
  "snd (rounds w_server 5 (w_client w_script)) = False" "ss_mail_from (sm_session w_before) = ''a@a.jp''"
  "ss_rcpt_to (sm_session w_before) = [''u@v.jp'']" "ss_messages (sm_session w_before) = 0" "ss_auth_ok (sm_session w_before)"
  "ss_messages (sm_session (fst (serve_step w_server w_before))) = 1"
  using w_eval by (simp_all add: Let_def w_before_def)

lemma w_reach: "smtp_reach w_server (w_client w_script) (w_before, False)"
  using rounds_reached [OF smtp_reach.Opened, of w_server "w_client w_script" 5] w_facts(1)
  by (metis prod.collapse w_before_def)

lemma w_start: "sm_session (w_client w_script) = new_session ''192.0.2.1:25'' True" "limits_validate (sv_limits w_server)"
  by (simp add: w_client_def, code_simp)

lemma w_step: "serve_step w_server w_before = (fst (serve_step w_server w_before), snd (serve_step w_server w_before))"
  "ss_messages (sm_session (fst (serve_step w_server w_before))) \<noteq> ss_messages (sm_session w_before)"
  using w_facts by simp_all

section \<open>Properties\<close>

text \<open>C8: The connection refines the session machine: whatever the client sends, a round moves the session by one
  transition of the machine with its guards, keeps the peer, raises the message count only by handing a message with
  recipients to the queue, and touches the queue only inside a transaction.\<close>
theorem smtp_refines_machine:
  assumes "serve_step sv st = (st', c)"
  shows "session_step sv (sm_ip st) (sm_session st) (sm_session st') \<and> sm_ip st' = sm_ip st \<and>
    (ss_messages (sm_session st') = ss_messages (sm_session st) \<or>
     ss_messages (sm_session st') = ss_messages (sm_session st) + 1 \<and> ss_rcpt_to (sm_session st) \<noteq> [] \<and>
       handed_over sv (st\<lparr>sm_tick := sm_tick st + 1\<rparr>) (sm_queue st')) \<and>
    (sm_queue st' = sm_queue st \<or> ss_rcpt_to (sm_session st) \<noteq> [])"
  using assms by (rule serve_step_round)

theorem smtp_refines_machine_witness:
  "session_step w_server (sm_ip w_before) (sm_session w_before) (sm_session (fst (serve_step w_server w_before))) \<and>
   handed_over w_server (w_before\<lparr>sm_tick := sm_tick w_before + 1\<rparr>) (sm_queue (fst (serve_step w_server w_before)))"
  using smtp_refines_machine [OF w_step(1)] w_step(2) by simp

text \<open>C4: The session is consistent at every moment of every run, whatever the client sends and the other connections do:
  recipients only after a sender, a sender only after a greeting, the counters within their limits, an authenticated
  session only on a submission listener, over TLS unless plain text is allowed, with a principal the backend vouched for,
  DSN and REQUIRETLS only after EHLO, REQUIRETLS only where it is offered, and DSN options for accepted recipients only.\<close>
theorem smtp_session_invariant:
  assumes "limits_validate (sv_limits sv)" "sm_session st0 = new_session remote tls" "smtp_reach sv st0 (st, c)"
  shows "session_inv sv (sm_session st)"
  using reach_inv [OF assms(3,1,2)] by simp

theorem smtp_session_invariant_witness: "session_inv w_server (sm_session w_before)"
  by (rule smtp_session_invariant [OF w_start(2,1) w_reach])

text \<open>C9: The listener is no open relay: a message is accepted only if every recipient is a known mailbox of a local
  domain, or is in another domain and the session is authenticated on a submission listener or the peer is in a trusted
  network; and it is offered to the queue with exactly the recipients of the session, at least one.\<close>
theorem smtp_no_open_relay:
  assumes "limits_validate (sv_limits sv)" "sm_session st0 = new_session remote tls" "smtp_reach sv st0 (st, False)"
    and "serve_step sv st = (st', c)" "ss_messages (sm_session st') \<noteq> ss_messages (sm_session st)"
  shows "\<exists>m m' p. be_enqueue (sv_queue sv) (sv_env sv (sm_tick st + 1)) (sm_queue st) m = (sm_queue st', m', None) \<and>
    rcpt_to m \<noteq> [] \<and> sv_policy sv = Some p \<and>
    (\<forall>r \<in> set (rcpt_to m). \<exists>d. domain_of r = Some d \<and>
       (if d \<in> set (rp_domains p) then to_lower r \<in> set (rp_recipients p)
        else sv_submission sv \<and> ss_auth_ok (sm_session st) \<or> (\<exists>a n. sm_ip st = Some a \<and> n \<in> set (rp_trusted p) \<and> net_contains n a)))"
proof -
  obtain m m' where m: "be_enqueue (sv_queue sv) (sv_env sv (sm_tick st + 1)) (sm_queue st) m = (sm_queue st', m', None)"
    "rcpt_to m = ss_rcpt_to (sm_session st)" "rcpt_to m \<noteq> []"
    using accepted_message [OF assms(4,5)] by metis
  have inv: "rcpts_inv sv (sm_ip st) (sm_session st)" using reach_inv [OF assms(3,1,2)] by simp
  then obtain p where p: "sv_policy sv = Some p" using m(2,3) unfolding rcpts_inv_def by (metis list.set_sel(1))
  have "\<exists>d. domain_of r = Some d \<and>
       (if d \<in> set (rp_domains p) then to_lower r \<in> set (rp_recipients p)
        else sv_submission sv \<and> ss_auth_ok (sm_session st) \<or> (\<exists>a n. sm_ip st = Some a \<and> n \<in> set (rp_trusted p) \<and> net_contains n a))"
    if "r \<in> set (rcpt_to m)" for r
    using inv p m(2) that authorize_permitted unfolding rcpts_inv_def by fastforce
  with m p show ?thesis by blast
qed

theorem smtp_no_open_relay_witness:
  "\<exists>m m' p. be_enqueue (sv_queue w_server) (sv_env w_server (sm_tick w_before + 1)) (sm_queue w_before) m =
      (sm_queue (fst (serve_step w_server w_before)), m', None) \<and> rcpt_to m \<noteq> [] \<and> sv_policy w_server = Some p"
  using smtp_no_open_relay [OF w_start(2,1) w_reach w_step] by blast

text \<open>C24: Where submission requires authentication, an accepted message comes from an authenticated session, and where the
  sender identity is enforced its sender is allowed for a principal that the backend vouched for.\<close>
theorem submission_sender_vouched:
  assumes "limits_validate (sv_limits sv)" "sm_session st0 = new_session remote tls" "smtp_reach sv st0 (st, False)"
    and "serve_step sv st = (st', c)" "ss_messages (sm_session st') \<noteq> ss_messages (sm_session st)"
    and "sv_submission sv" "sv_submission_auth sv"
  shows "ss_auth_ok (sm_session st) \<and> (ss_tls (sm_session st) \<or> sv_insecure_auth sv) \<and>
    (sv_sender_identity sv \<longrightarrow> (\<exists>p. vouched sv p \<and> sender_allowed p (ss_mail_from (sm_session st))))"
proof -
  have "ss_rcpt_to (sm_session st) \<noteq> []" using serve_step_round [OF assms(4)] assms(5) by auto
  then show ?thesis
    using reach_inv [OF assms(3,1,2)] assms(6,7) unfolding session_inv_def sender_inv_def by blast
qed

theorem submission_sender_vouched_witness:
  "ss_auth_ok (sm_session w_before) \<and> (\<exists>p. vouched w_server p \<and> sender_allowed p ''a@a.jp'')"
  using submission_sender_vouched [OF w_start(2,1) w_reach w_step] w_facts(2) by (simp add: w_server_def)

text \<open>A message that was accepted with 250 is on disk: over the local queue, after the round that accepted it, the queue
  holds a message with the sender, the recipients, the DSN request and the TLS requirement of the session; if its
  identifier was new, the file in the inbound directory is that message, and the queue lost nothing.\<close>
theorem accepted_is_stored:
  assumes "sv_queue sv = local_backend" "serve_step sv st = (st', c)" "ss_messages (sm_session st') \<noteq> ss_messages (sm_session st)"
  shows "\<exists>m. rcpt_to m = ss_rcpt_to (sm_session st) \<and> rcpt_to m \<noteq> [] \<and> mail_from m = ss_mail_from (sm_session st) \<and>
    require_tls m = ss_require_tls (sm_session st) \<and> m_dsn m = ss_dsn (sm_session st) \<and> held (sm_queue st') (m_id m) \<and>
    (\<not> held (sm_queue st) (m_id m) \<longrightarrow> file_at (sm_queue st') Inbound (json_name (m_id m)) = Some (JsonMsg m)) \<and>
    (\<forall>i. held (sm_queue st) i \<longrightarrow> held (sm_queue st') i)"
proof -
  obtain m m' where m: "be_enqueue local_backend (sv_env sv (sm_tick st + 1)) (sm_queue st) m = (sm_queue st', m', None)"
    "rcpt_to m = ss_rcpt_to (sm_session st)" "rcpt_to m \<noteq> []" "mail_from m = ss_mail_from (sm_session st)"
    "require_tls m = ss_require_tls (sm_session st)" "m_dsn m = ss_dsn (sm_session st)"
    using accepted_message [OF assms(2,3)] assms(1) by metis
  let ?e = "sv_env sv (sm_tick st + 1)"
  have h: "held (sm_queue st') (m_id m)" using local_queue.enqueue_holds [of ?e "sm_queue st" m] m(1) by simp
  have k: "\<forall>i. held (sm_queue st) i \<longrightarrow> held (sm_queue st') i" using local_queue.enqueue_keeps [of "sm_queue st" _ ?e m] m(1) by simp
  show ?thesis
  proof (cases "held (sm_queue st) (m_id m)")
    case True
    with m h k show ?thesis by blast
  next
    case False
    have e: "enqueue ?e (sm_queue st) m = (sm_queue st', m', None)" using m(1) by (simp add: local_backend_def)
    note f = enqueue_fresh [OF e False]
    have i: "m_id m' = m_id m" using f by simp
    have "file_at (sm_queue st') Inbound (json_name (m_id m)) = Some (JsonMsg m')"
      using f by (auto simp: store_write_file_at)
    with f m h k i show ?thesis by (intro exI [of _ m']) simp
  qed
qed

theorem accepted_is_stored_witness:
  "\<exists>m :: message. rcpt_to m = [''u@v.jp''] \<and> mail_from m = ''a@a.jp'' \<and> held (sm_queue (fst (serve_step w_server w_before))) (m_id m)"
proof -
  have "sv_queue w_server = local_backend" by (simp add: w_server_def)
  from accepted_is_stored [OF this w_step] show ?thesis unfolding w_facts(2,3) by blast
qed

section \<open>The dialogue\<close>

text \<open>C26: A message body survives the wire: what the delivery client sends for a body, with its dots stuffed, the listener
  reads back line by line, without the carriage returns at the ends of lines and with every line ended; it stops exactly at
  the end the client sent, whatever the body contains, so that no part of a body is read as a command.\<close>
theorem body_transparent:
  assumes "\<forall>l \<in> set (split_on LF d). length (stuff_line l) \<le> 998" "int (length (wire_lines (map trim_eol (split_on LF d)))) \<le> m"
  shows "read_data m [] (dot_stuff d @ end_of_data @ rest) = Inr (wire_lines (map trim_eol (split_on LF d)), rest)"
proof -
  have e: "dot_stuff d @ end_of_data @ rest = wire_lines (map stuff_line (split_on LF d)) @ ''.'' @ crlf @ rest"
    using join_crlf [of "map stuff_line (split_on LF d)"] by (simp add: dot_stuff_def end_of_data_def)
  have "\<forall>l \<in> set (split_on LF d). LF \<notin> set l \<and> length (stuff_line l) \<le> 998" using assms(1) split_on_no_sep by blast
  from read_data_lines [OF this, of "[]" m rest] assms(2) show ?thesis by (simp only: e append_Nil)
qed

text \<open>The dots survive; the empty part after the last line end becomes a line of its own.\<close>
theorem body_transparent_witness:
  "read_data 100 [] (dot_stuff (''.'' @ crlf @ ''.x'' @ crlf) @ end_of_data @ ''QUIT'') = Inr (''.'' @ crlf @ ''.x'' @ crlf @ crlf, ''QUIT'')"
proof -
  have s: "split_on LF (''.'' @ crlf @ ''.x'' @ crlf) = [[CHR ''.'', CR], [CHR ''.'', CHR ''x'', CR], []]"
    and w: "wire_lines (map trim_eol [[CHR ''.'', CR], [CHR ''.'', CHR ''x'', CR], []]) = ''.'' @ crlf @ ''.x'' @ crlf @ crlf"
    by code_simp+
  have "length (stuff_line [CHR ''.'', CR]) \<le> 998" "length (stuff_line [CHR ''.'', CHR ''x'', CR]) \<le> 998" "length (stuff_line []) \<le> 998"
    by code_simp+
  then show ?thesis
    using body_transparent [of "''.'' @ crlf @ ''.x'' @ crlf" 100 "''QUIT''"] unfolding s w by (simp add: crlf_def)
qed

lemma fields_acc_word: "\<forall>c \<in> set w. \<not> is_space c \<Longrightarrow> fields_acc acc w = (if acc = [] \<and> w = [] then [] else [rev acc @ w])"
  by (induction w arbitrary: acc) auto

lemma plain_fields:
  assumes "\<forall>c \<in> set x. \<not> is_space c" "x \<noteq> []"
  shows "split_fields (''PLAIN '' @ x) = [''PLAIN'', x]" "trim_space (''PLAIN '' @ x) \<noteq> []"
proof -
  show "split_fields (''PLAIN '' @ x) = [''PLAIN'', x]"
    using assms fields_acc_word [of x "[]"] by (simp add: split_fields_def is_space_def)
  have "trim_space (''PLAIN '' @ x) = ''PLAIN '' @ x"
    by (rule trim_space_id) (use assms in \<open>simp add: is_space_def\<close>)
  then show "trim_space (''PLAIN '' @ x) \<noteq> []" by simp
qed

lemma decode_plain:
  assumes "CHR 0x00 \<notin> set z" "CHR 0x00 \<notin> set u" "CHR 0x00 \<notin> set p" "trim_space u = u" "u \<noteq> []" "trim_space p = p" "p \<noteq> []"
  shows "decode_auth_plain (b64_encode (z @ CHR 0x00 # u @ CHR 0x00 # p)) = Inr (u, p)"
  using assms by (simp add: decode_auth_plain_def b64_encode_trimmed b64_decode_encode split_on_append split_on_absent)

text \<open>AUTH PLAIN carries the credentials exactly: for an identity and a password without NUL bytes and without spaces at
  their ends, whatever their other bytes, the backend is asked for exactly these, and the static backend grants access if and
  only if the password is the one configured for the user, whose name is compared without case.\<close>
theorem auth_plain_exact:
  assumes "CHR 0x00 \<notin> set z" "CHR 0x00 \<notin> set u" "CHR 0x00 \<notin> set p" "trim_space u = u" "u \<noteq> []" "trim_space p = p" "p \<noteq> []"
  shows "handle_auth True (static_methods us) n cn (''PLAIN '' @ b64_encode (z @ CHR 0x00 # u @ CHR 0x00 # p)) = (cn, Inr (static_authenticate us u p)) \<and>
    (au_success (static_authenticate us u p) \<longleftrightarrow> map_of us (to_lower u) = Some p)"
proof -
  let ?x = "b64_encode (z @ CHR 0x00 # u @ CHR 0x00 # p)"
  have x: "\<forall>c \<in> set ?x. \<not> is_space c" "?x \<noteq> []" using b64_encode_chars by simp_all
  have m: "''PLAIN'' \<in> set (auth_mechanisms True (Some (static_methods us)) False True)"
    by (simp add: auth_mechanisms_def static_methods_def)
  have u: "to_upper ''PLAIN'' = ''PLAIN''" by code_simp
  have "handle_auth True (static_methods us) n cn (''PLAIN '' @ ?x) = handle_auth_plain (static_methods us) n cn [''PLAIN'', ?x]"
    unfolding handle_auth_def Let_def plain_fields(1) [OF x] list.sel u using m plain_fields(2) [OF x] by simp
  also have "\<dots> = (cn, Inr (static_authenticate us u p))"
    by (simp add: handle_auth_plain_def finish_plain_def decode_plain [OF assms] authenticate_password_def static_methods_def)
  finally show ?thesis
    by (auto simp: static_authenticate_def normalize_username_def assms(4) Let_def split: option.split)
qed

theorem auth_plain_exact_witness:
  "handle_auth True (static_methods w_users) 0 \<lparr>cn_input = [], cn_tls = None, cn_out = []\<rparr>
     (''PLAIN '' @ b64_encode ([] @ CHR 0x00 # ''A@a.jp'' @ CHR 0x00 # ''x'')) =
   (\<lparr>cn_input = [], cn_tls = None, cn_out = []\<rparr>, Inr (static_authenticate w_users ''A@a.jp'' ''x'')) \<and>
   au_success (static_authenticate w_users ''A@a.jp'' ''x'')"
proof -
  have "trim_space ''A@a.jp'' = ''A@a.jp''" "trim_space ''x'' = ''x''" "map_of w_users (to_lower ''A@a.jp'') = Some ''x''" by code_simp+
  then show ?thesis
    using auth_plain_exact [of "[]" "''A@a.jp''" "''x''" w_users 0 "\<lparr>cn_input = [], cn_tls = None, cn_out = []\<rparr>"] by simp
qed

text \<open>A session after the handshake: a new one that is encrypted, with the peer, the last greeting name and the counters of the old one.\<close>
definition fresh_tls :: "session \<Rightarrow> session" where
  "fresh_tls ss = (new_session (ss_remote ss) True)\<lparr>ss_close := ss_close ss, ss_auth_failures := ss_auth_failures ss,
     ss_rcpt_failures := ss_rcpt_failures ss, ss_messages := ss_messages ss, ss_helo := ss_helo ss\<rparr>"

text \<open>C25: After STARTTLS the session starts afresh: whatever the client sent in the clear after the command is ignored, the
  connection goes on with the encrypted stream, and it behaves to its end exactly like one with a new session. Nothing of the
  transaction (sender, recipients, text, body type, DSN request, TLS requirement, signing, quarantine) and of the authentication is left and a
  greeting is needed again; only the peer, the failure and message counters and the name of the last greeting, which the next one replaces, are kept.\<close>
theorem starttls_isolates:
  assumes "sv_tls sv" "\<not> ss_tls (sm_session st)" "cn_tls (sm_conn st) = Some stream" "limit_reached sv (sm_session st) = None"
  shows "serve sv (st\<lparr>sm_conn := (sm_conn st)\<lparr>cn_input := ''STARTTLS'' @ crlf @ clear_text\<rparr>\<rparr>) =
    serve sv (st\<lparr>sm_session := fresh_tls (sm_session st), sm_tick := sm_tick st + 1,
      sm_conn := \<lparr>cn_input = stream, cn_tls = None, cn_out = cn_out (sm_conn st) @ [Resp 220 ''Ready to start TLS'']\<rparr>\<rparr>)"
proof -
  define l v where l: "l = ''STARTTLS'' @ crlf" and v: "v = ''STARTTLS''"
  have "read_smtp_line (l @ clear_text) = Some (l, clear_text)"
    using cut_line_append [of "''STARTTLS'' @ [CR]" clear_text] by (simp add: l read_smtp_line_def crlf_def max_auth_line_bytes_def)
  moreover have "trim_eol l = v" "split_verb v = (v, [])" "command_of v = STARTTLS" "length l = 10" "v \<noteq> []"
    unfolding l v by code_simp+
  moreover have e: "''STARTTLS'' @ crlf @ clear_text = l @ clear_text" by (simp add: l)
  moreover have f: "reset_after_tls ss = fresh_tls ss" for ss
    by (cases ss) (simp add: reset_after_tls_def reset_transaction_def finish_data_def fresh_tls_def new_session_def)
  ultimately have "serve_step sv (st\<lparr>sm_conn := (sm_conn st)\<lparr>cn_input := l @ clear_text\<rparr>\<rparr>) =
      (st\<lparr>sm_session := fresh_tls (sm_session st), sm_tick := sm_tick st + 1,
        sm_conn := \<lparr>cn_input = stream, cn_tls = None, cn_out = cn_out (sm_conn st) @ [Resp 220 ''Ready to start TLS'']\<rparr>\<rparr>, False)"
    using assms by (cases st; cases "sm_conn st")
      (simp add: serve_step_def serve_line_def too_long_def serve_command_def handle_starttls_def resp_def put_session_def write_resp_def Let_def)
  then show ?thesis unfolding e by (subst serve.simps) simp
qed

text \<open>A session that authenticated in the clear, where that is allowed, and began a transaction\<close>
definition w_clear :: "(store, limit_hits) smtp_state" where
  "w_clear = (w_client [])\<lparr>sm_session := (new_session ''192.0.2.1:25'' False)\<lparr>ss_helo := ''c'', ss_seen_helo := True, ss_extended := True,
       ss_auth_ok := True, ss_auth_user := ''a@a.jp'', ss_mail_from := ''a@a.jp'', ss_rcpt_to := [''u@v.jp''], ss_messages := 1\<rparr>,
     sm_conn := \<lparr>cn_input = [], cn_tls = Some (''NOOP'' @ crlf), cn_out = []\<rparr>\<rparr>"

theorem starttls_isolates_witness:
  "serve w_server (w_clear\<lparr>sm_conn := (sm_conn w_clear)\<lparr>cn_input := ''STARTTLS'' @ crlf @ ''DATA'' @ crlf\<rparr>\<rparr>) =
    serve w_server (w_clear\<lparr>sm_session := (new_session ''192.0.2.1:25'' True)\<lparr>ss_messages := 1, ss_helo := ''c''\<rparr>, sm_tick := 1,
      sm_conn := \<lparr>cn_input = ''NOOP'' @ crlf, cn_tls = None, cn_out = [Resp 220 ''Ready to start TLS'']\<rparr>\<rparr>) \<and>
   ss_auth_ok (sm_session w_clear) \<and> ss_rcpt_to (sm_session w_clear) \<noteq> []"
proof -
  have l: "limit_reached w_server (sm_session w_clear) = None" by code_simp
  have f: "fresh_tls (sm_session w_clear) = (new_session ''192.0.2.1:25'' True)\<lparr>ss_messages := 1, ss_helo := ''c''\<rparr>"
    by (simp add: fresh_tls_def w_clear_def new_session_def)
  have w: "sv_tls w_server" "\<not> ss_tls (sm_session w_clear)" "cn_tls (sm_conn w_clear) = Some (''NOOP'' @ crlf)" "sm_tick w_clear = 0"
    "cn_out (sm_conn w_clear) = []"
    by (simp_all add: w_clear_def w_server_def w_client_def new_session_def)
  have "ss_auth_ok (sm_session w_clear) \<and> ss_rcpt_to (sm_session w_clear) \<noteq> []" by (simp add: w_clear_def)
  then show ?thesis using starttls_isolates [OF w(1-3) l, of "''DATA'' @ crlf"] unfolding f w(4,5) by simp
qed

text \<open>The null sender is a dead end: after \<^verbatim>\<open>MAIL FROM\<close> with an empty path was accepted, every \<^verbatim>\<open>RCPT\<close> is refused because
  the session looks as if no transaction had begun, so the listener takes no bounces.\<close>
theorem null_sender_stuck:
  assumes "parse_mail_from arg = Inr a" "ma_address a = []" "handle_mail sv st arg = (st1, False)"
    and "cn_out (sm_conn st1) = cn_out (sm_conn st) @ [Resp 250 ''sender ok'']"
  shows "handle_rcpt_command sv st1 r = resp st1 503 ''send MAIL FROM first''"
proof -
  have nr: "code \<noteq> 250" if "mail_refusal sv (sm_session st) a = Some (code, x)" for code x
    using that by (auto simp: mail_refusal_def split: if_splits)
  obtain st2 where "rate_event sv st ''mailfrom'' (ss_helo (sm_session st)) (ma_address a) = (st2, True)"
    "st1 = resp (put_session st2 (begin_transaction (sm_session st) a)) 250 ''sender ok''"
    using assms nr by (auto simp: handle_mail_def Let_def write_resp_def split: if_splits option.splits prod.splits)
  then show ?thesis by (simp add: handle_rcpt_command_def assms(2))
qed

definition w_greeted :: "(store, limit_hits) smtp_state" where
  "w_greeted = (w_client [])\<lparr>sm_session := (new_session ''192.0.2.1:25'' True)\<lparr>ss_seen_helo := True\<rparr>\<rparr>"

definition w_inbound :: "(env, store, limit_hits) smtp_server" where
  "w_inbound = w_server\<lparr>sv_submission := False\<rparr>"

theorem null_sender_stuck_witness:
  "handle_rcpt_command w_inbound (fst (handle_mail w_inbound w_greeted ''FROM:<>'')) ''TO:<u@v.jp>'' =
    resp (fst (handle_mail w_inbound w_greeted ''FROM:<>'')) 503 ''send MAIL FROM first''"
proof (rule null_sender_stuck)
  show "parse_mail_from ''FROM:<>'' = Inr (new_mail_args [])" by code_simp
  show "ma_address (new_mail_args []) = []" by (simp add: new_mail_args_def)
  have "snd (handle_mail w_inbound w_greeted ''FROM:<>'') = False" by code_simp
  then show "handle_mail w_inbound w_greeted ''FROM:<>'' = (fst (handle_mail w_inbound w_greeted ''FROM:<>''), False)"
    by (metis prod.collapse)
  show "cn_out (sm_conn (fst (handle_mail w_inbound w_greeted ''FROM:<>''))) = cn_out (sm_conn w_greeted) @ [Resp 250 ''sender ok'']"
    by code_simp
qed

text \<open>The principal can change inside a transaction: a client that authenticates again after \<^verbatim>\<open>MAIL\<close> gets its message
  accepted in the name of the second principal although the sender is allowed only for the first one.\<close>
theorem reauth_mismatch:
  "(let q = sm_queue (serve w_server (w_client w_script)) in
    case map_of (files q Inbound) ''i1.json'' of
      Some (JsonMsg m) \<Rightarrow> mail_from m = ''a@a.jp'' \<and> tenant m = ''b@b.jp'' \<and> \<not> sender_allowed (static_principal (tenant m)) (mail_from m)
    | _ \<Rightarrow> False)"
  by code_simp

end
