(* ===== verification/Mta_Sts.thy ===== *)
theory Mta_Sts
  imports Classification Smtp_Envelope Smtp_Io
begin

text \<open>
  MTA-STS (\<^verbatim>\<open>internal/delivery/mta_sts.go\<close>): the policy text and its parser, the match of an MX host
  against the patterns of a policy, and the resolver with its cache, its back-off after failed fetches and
  the confirmation it asks for before a policy with a new identifier replaces a cached one.

  The HTTPS client, the resolver of TXT records and \<^verbatim>\<open>mime.ParseMediaType\<close> are arguments. The resolver holds its lock for two
  sections with the fetch between them; \<open>sts_begin\<close> and \<open>sts_finish\<close> are these sections, so that
  lookups of several deliveries interleave as they do in the program.
\<close>

section \<open>Policies\<close>

record sts_policy =
  sts_version :: string
  sts_mode :: string
  sts_mx :: "string list"
  sts_max_age :: duration
  sts_expires :: time
  sts_id :: string

definition empty_policy :: sts_policy where
  "empty_policy = \<lparr>sts_version = [], sts_mode = [], sts_mx = [], sts_max_age = 0, sts_expires = zero_time, sts_id = []\<rparr>"

text \<open>\<^verbatim>\<open>maxMTASTSPolicyAge\<close>\<close>
definition max_policy_age :: duration where "max_policy_age = 31557600 * second"

definition dns_name :: "string \<Rightarrow> string" where
  "dns_name s = to_lower (trim_suffix (trim_space s) ''.'')"

text \<open>\<^verbatim>\<open>MTASTSPolicy.AllowsMX\<close>\<close>
fun allows_loop :: "string list \<Rightarrow> string \<Rightarrow> bool" where
  "allows_loop [] host = False"
| "allows_loop (p # ps) host =
     (let pat = dns_name p in
      if pat = [] then allows_loop ps host
      else if has_prefix pat ''*.'' then
        (if snd (split_2 CHR ''.'' host) = Some (drop 2 pat) then True else allows_loop ps host)
      else if host = pat then True
      else allows_loop ps host)"

definition allows_mx :: "sts_policy \<Rightarrow> string \<Rightarrow> bool" where
  "allows_mx p host = allows_loop (sts_mx p) (dns_name host)"

datatype sts_error = EmptyDomain | BadMaxAge | BadVersion | BadMode | AgeNotPositive | AgeTooLong | NoMx | FetchError string

text \<open>One line of the policy: the switch over its key\<close>
definition policy_line :: "sts_policy \<Rightarrow> string \<Rightarrow> sts_error + sts_policy" where
  "policy_line p l =
     (let line = trim_space l in
      if line = [] \<or> has_prefix line ''#'' then Inr p
      else (case split_2 CHR '':'' line of
        (_, None) \<Rightarrow> Inr p
      | (a, Some b) \<Rightarrow>
          (let k = to_lower (trim_space a); v = trim_space b in
           if k = ''version'' then Inr (p\<lparr>sts_version := v\<rparr>)
           else if k = ''mode'' then Inr (p\<lparr>sts_mode := to_lower v\<rparr>)
           else if k = ''mx'' then Inr (if v \<noteq> [] then p\<lparr>sts_mx := sts_mx p @ [v]\<rparr> else p)
           else if k = ''max_age'' then
             (case parse_int64 v of
                None \<Rightarrow> Inl BadMaxAge
              | Some n \<Rightarrow> Inr (p\<lparr>sts_max_age := wrap64 (n * second)\<rparr>))
           else Inr p)))"

fun policy_lines :: "sts_policy \<Rightarrow> string list \<Rightarrow> sts_error + sts_policy" where
  "policy_lines p [] = Inr p"
| "policy_lines p (l # ls) = (case policy_line p l of Inl e \<Rightarrow> Inl e | Inr p' \<Rightarrow> policy_lines p' ls)"

text \<open>\<^verbatim>\<open>parseMTASTSPolicy\<close>\<close>
definition parse_policy :: "string \<Rightarrow> sts_error + sts_policy" where
  "parse_policy raw =
     (case policy_lines empty_policy (split_on LF (crlf_to_lf raw)) of
        Inl e \<Rightarrow> Inl e
      | Inr p \<Rightarrow>
          if sts_version p \<noteq> ''STSv1'' then Inl BadVersion
          else if sts_mode p \<notin> {''enforce'', ''testing'', ''none''} then Inl BadMode
          else if sts_max_age p \<le> 0 then Inl AgeNotPositive
          else if sts_max_age p > max_policy_age then Inl AgeTooLong
          else if sts_mode p \<noteq> ''none'' \<and> sts_mx p = [] then Inl NoMx
          else Inr p)"

section \<open>The identifier in the TXT record\<close>

definition id_part :: "bool \<times> string \<Rightarrow> string \<Rightarrow> bool \<times> string" where
  "id_part st raw =
     (let part = trim_space raw in
      if part = [] then st
      else (case split_2 CHR ''='' part of
        (_, None) \<Rightarrow> st
      | (a, Some b) \<Rightarrow>
          (let k = to_lower (trim_space a); v = trim_space b in
           if k = ''v'' then (if equal_fold v ''STSv1'' then (True, snd st) else st)
           else if k = ''id'' then (if v \<noteq> [] then (fst st, v) else st)
           else st)))"

text \<open>\<^verbatim>\<open>parseMTASTSPolicyID\<close>\<close>
fun parse_policy_id :: "string list \<Rightarrow> string option" where
  "parse_policy_id [] = None"
| "parse_policy_id (txt # txts) =
     (case foldl id_part (False, []) (split_on CHR '';'' txt) of
        (ok, pid) \<Rightarrow> if ok \<and> pid \<noteq> [] then Some pid else parse_policy_id txts)"

section \<open>Fetching the text\<close>

datatype http_error = CertificateError string | HttpError string

record http_reply =
  hr_status :: int
  hr_type :: string
  hr_body :: "string + string"

text \<open>\<^verbatim>\<open>isAllowedMTASTSPolicyMediaType\<close>\<close>
definition allowed_media :: "string \<Rightarrow> bool" where
  "allowed_media m \<longleftrightarrow> equal_fold (trim_space m) ''text/plain''"

text \<open>
  \<^verbatim>\<open>fetchMTASTSPolicyTextHTTP\<close>: \<open>get\<close> is the client with its certificate check, \<open>media\<close> is
  \<^verbatim>\<open>mime.ParseMediaType\<close>; the body is cut after a mebibyte.
\<close>
definition fetch_policy_text ::
    "(string \<Rightarrow> http_error + http_reply) \<Rightarrow> (string \<Rightarrow> string option) \<Rightarrow> string \<Rightarrow> sts_error + string" where
  "fetch_policy_text get media domain =
     (case get (''https://mta-sts.'' @ domain @ ''/.well-known/mta-sts.txt'') of
        Inl (CertificateError e) \<Rightarrow> Inl (FetchError (''mta-sts https certificate validation failed: '' @ e))
      | Inl (HttpError e) \<Rightarrow> Inl (FetchError e)
      | Inr r \<Rightarrow>
          (let ct = trim_space (hr_type r) in
           if hr_status r < 200 \<or> hr_status r > 299 then Inl (FetchError (''unexpected status '' @ show_int (hr_status r)))
           else if ct \<noteq> [] \<and> media ct = None then Inl (FetchError ''invalid content-type'')
           else if ct \<noteq> [] \<and> \<not> allowed_media (the (media ct)) then Inl (FetchError ''unexpected content-type'')
           else (case hr_body r of Inl e \<Rightarrow> Inl (FetchError e) | Inr b \<Rightarrow> Inr (take 1048576 b))))"

section \<open>The resolver\<close>

record rollover =
  ro_policy :: sts_policy
  ro_confirmations :: int

record sts_resolver =
  rs_ttl :: duration
  rs_cache :: "string \<rightharpoonup> sts_policy"
  rs_failures :: "string \<rightharpoonup> int"
  rs_retry_at :: "string \<rightharpoonup> time"
  rs_min_delay :: duration
  rs_max_delay :: duration
  rs_rollovers :: "string \<rightharpoonup> rollover"
  rs_need :: int

text \<open>\<^verbatim>\<open>NewMTASTSResolver\<close>\<close>
definition new_resolver :: "duration \<Rightarrow> sts_resolver" where
  "new_resolver ttl =
     \<lparr>rs_ttl = (if ttl \<le> 0 then hour else ttl), rs_cache = Map.empty, rs_failures = Map.empty, rs_retry_at = Map.empty,
      rs_min_delay = second, rs_max_delay = 5 * minute, rs_rollovers = Map.empty, rs_need = 2\<rparr>"

text \<open>The loop of \<^verbatim>\<open>retryDelay\<close>, over the number of rounds that are left\<close>
fun delay_loop :: "nat \<Rightarrow> duration \<Rightarrow> duration \<Rightarrow> duration" where
  "delay_loop 0 max_delay delay = delay"
| "delay_loop (Suc n) max_delay delay =
     (if delay \<ge> go_div max_delay 2 then max_delay else delay_loop n max_delay (wrap64 (delay * 2)))"

text \<open>\<^verbatim>\<open>retryDelay\<close>\<close>
definition retry_delay :: "sts_resolver \<Rightarrow> int \<Rightarrow> duration" where
  "retry_delay r failures =
     (if failures \<le> 0 then rs_min_delay r
      else (let delay = delay_loop (nat (failures - 1)) (rs_max_delay r) (rs_min_delay r) in
            if delay > rs_max_delay r then rs_max_delay r
            else if delay \<le> 0 then rs_min_delay r
            else delay))"

text \<open>\<^verbatim>\<open>observeRolloverLocked\<close>\<close>
definition observe_rollover :: "sts_resolver \<Rightarrow> string \<Rightarrow> sts_policy \<Rightarrow> sts_resolver \<times> bool" where
  "observe_rollover r domain p =
     (if rs_need r \<le> 1 then (r, True)
      else (case rs_rollovers r domain of
        None \<Rightarrow> (r\<lparr>rs_rollovers := (rs_rollovers r)(domain \<mapsto> \<lparr>ro_policy = p, ro_confirmations = 1\<rparr>)\<rparr>, False)
      | Some st \<Rightarrow>
          if sts_id (ro_policy st) \<noteq> sts_id p then
            (r\<lparr>rs_rollovers := (rs_rollovers r)(domain \<mapsto> \<lparr>ro_policy = p, ro_confirmations = 1\<rparr>)\<rparr>, False)
          else if ro_confirmations st + 1 \<ge> rs_need r then (r, True)
          else (r\<lparr>rs_rollovers := (rs_rollovers r)
                   (domain \<mapsto> \<lparr>ro_policy = p, ro_confirmations = ro_confirmations st + 1\<rparr>)\<rparr>, False)))"

text \<open>What a lookup knows when it goes to fetch the policy\<close>
record sts_pending =
  pe_domain :: string
  pe_now :: time
  pe_id :: "string option"
  pe_stale :: "sts_policy option"

text \<open>The first section of \<^verbatim>\<open>Lookup\<close>: the answer from the cache, or what the fetch is for\<close>
definition sts_begin :: "sts_resolver \<Rightarrow> time \<Rightarrow> string option \<Rightarrow> string \<Rightarrow> sts_resolver \<times> (sts_policy + sts_pending)" where
  "sts_begin r now pid domain =
     (let pending = \<lparr>pe_domain = domain, pe_now = now, pe_id = pid, pe_stale = rs_cache r domain\<rparr> in
      case rs_cache r domain of
        None \<Rightarrow> (r, Inr pending)
      | Some p \<Rightarrow>
          (let refresh = (case pid of None \<Rightarrow> False | Some i \<Rightarrow> sts_id p \<noteq> [] \<and> i \<noteq> sts_id p) in
           if now < sts_expires p \<and> \<not> refresh then (r, Inl p)
           else if \<not> refresh then
             (case rs_retry_at r domain of
                Some ra \<Rightarrow> if now < ra then (r, Inl p) else (r, Inr pending)
              | None \<Rightarrow> (r, Inr pending))
           else (r\<lparr>rs_retry_at := (rs_retry_at r)(domain := None), rs_failures := (rs_failures r)(domain := None)\<rparr>, Inr pending)))"

text \<open>A failed fetch, or a text that is no policy: the cached policy stays in use\<close>
definition sts_failed :: "sts_resolver \<Rightarrow> sts_pending \<Rightarrow> sts_error \<Rightarrow> sts_resolver \<times> (sts_error + sts_policy)" where
  "sts_failed r q e =
     (case pe_stale q of
        None \<Rightarrow> (r, Inl e)
      | Some stale \<Rightarrow>
          (let failures = (case rs_failures r (pe_domain q) of None \<Rightarrow> 0 | Some n \<Rightarrow> n) + 1 in
           (r\<lparr>rs_failures := (rs_failures r)(pe_domain q \<mapsto> failures),
              rs_retry_at := (rs_retry_at r)(pe_domain q \<mapsto> pe_now q + retry_delay r failures)\<rparr>, Inr stale)))"

text \<open>The policy as it is stored: when it expires, and the identifier of the TXT record\<close>
definition stamped :: "sts_resolver \<Rightarrow> sts_pending \<Rightarrow> sts_policy \<Rightarrow> sts_policy" where
  "stamped r q p =
     (let expire = pe_now q + sts_max_age p; ttl_expire = pe_now q + rs_ttl r;
          p' = p\<lparr>sts_expires := (if ttl_expire < expire then ttl_expire else expire)\<rparr>
      in case pe_id q of None \<Rightarrow> p' | Some i \<Rightarrow> p'\<lparr>sts_id := i\<rparr>)"

definition changes_id :: "sts_policy option \<Rightarrow> sts_policy \<Rightarrow> bool" where
  "changes_id stale p \<longleftrightarrow> (case stale of None \<Rightarrow> False | Some s \<Rightarrow> sts_id s \<noteq> [] \<and> sts_id p \<noteq> [] \<and> sts_id p \<noteq> sts_id s)"

text \<open>The second section of \<^verbatim>\<open>Lookup\<close>\<close>
definition sts_finish :: "sts_resolver \<Rightarrow> sts_pending \<Rightarrow> sts_error + string \<Rightarrow> sts_resolver \<times> (sts_error + sts_policy)" where
  "sts_finish r q fetched =
     (case fetched of
        Inl e \<Rightarrow> sts_failed r q e
      | Inr text \<Rightarrow>
          (case parse_policy text of
             Inl e \<Rightarrow> sts_failed r q e
           | Inr p0 \<Rightarrow>
               (let p = stamped r q p0; d = pe_domain q;
                    r1 = r\<lparr>rs_failures := (rs_failures r)(d := None), rs_retry_at := (rs_retry_at r)(d := None)\<rparr>;
                    (r2, go) = (if changes_id (pe_stale q) p then observe_rollover r1 d p
                                else (r1\<lparr>rs_rollovers := (rs_rollovers r1)(d := None)\<rparr>, True))
                in if \<not> go then (r2, Inr (the (pe_stale q)))
                   else (r2\<lparr>rs_cache := (rs_cache r2)(d \<mapsto> p), rs_rollovers := (rs_rollovers r2)(d := None)\<rparr>, Inr p))))"

text \<open>\<^verbatim>\<open>lookupPolicyID\<close>: the TXT records are \<open>None\<close> when their lookup fails.\<close>
definition lookup_policy_id :: "(string \<Rightarrow> string list option) \<Rightarrow> string \<Rightarrow> string option" where
  "lookup_policy_id txt domain = (case txt (''_mta-sts.'' @ domain) of None \<Rightarrow> None | Some ts \<Rightarrow> parse_policy_id ts)"

text \<open>\<^verbatim>\<open>Lookup\<close>\<close>
definition sts_lookup ::
    "(string \<Rightarrow> sts_error + string) \<Rightarrow> (string \<Rightarrow> string list option) \<Rightarrow> sts_resolver \<Rightarrow> time \<Rightarrow> string
     \<Rightarrow> sts_resolver \<times> (sts_error + sts_policy)" where
  "sts_lookup fetch txt r now raw =
     (let domain = to_lower (trim_space raw) in
      if domain = [] then (r, Inl EmptyDomain)
      else (case sts_begin r now (lookup_policy_id txt domain) domain of
         (r1, Inl p) \<Rightarrow> (r1, Inr p)
       | (r1, Inr q) \<Rightarrow> sts_finish r1 q (fetch domain)))"

end
