(* ===== verification/Mta_Sts_Claims.thy ===== *)
theory Mta_Sts_Claims
  imports Mta_Sts
begin

text \<open>
  What the MTA-STS resolver promises: every policy it keeps or returns is well formed, patterns match exactly
  one label more, a failing fetch changes nothing of the policy in use, and a policy with a new identifier
  is taken over only after the identifier was seen before.
\<close>

section \<open>Patterns\<close>

text \<open>The meaning of a pattern of RFC 8461: the name itself, or any name with exactly one label more\<close>
definition mx_pattern_matches :: "string \<Rightarrow> string \<Rightarrow> bool" where
  "mx_pattern_matches pat host \<longleftrightarrow>
     (\<exists>suffix l. pat = ''*.'' @ suffix \<and> CHR ''.'' \<notin> set l \<and> host = l @ ''.'' @ suffix) \<or>
     (\<nexists>suffix. pat = ''*.'' @ suffix) \<and> pat \<noteq> [] \<and> host = pat"

lemma split_2_Some: "snd (split_2 c s) = Some t \<longleftrightarrow> (\<exists>l. c \<notin> set l \<and> s = l @ c # t)"
proof (induction s)
  case (Cons x s)
  show ?case
  proof (cases "x = c")
    case True
    then show ?thesis by (auto simp: split_2_def Cons_eq_append_conv)
  next
    case False
    then have "snd (split_2 c (x # s)) = snd (split_2 c s)"
      by (auto simp: split_2_def split: option.splits)
    with False Cons show ?thesis by (auto simp: Cons_eq_append_conv)
  qed
qed (simp add: split_2_def)

lemma star_prefix: "has_prefix pat ''*.'' \<longleftrightarrow> (\<exists>suffix. pat = ''*.'' @ suffix)"
  by (auto simp: has_prefix_iff_prefix prefix_def)

lemma allows_loop_Cons: "allows_loop (p # ps) host \<longleftrightarrow> mx_pattern_matches (dns_name p) host \<or> allows_loop ps host"
proof (cases "has_prefix (dns_name p) ''*.''")
  case True
  then obtain suffix where "dns_name p = ''*.'' @ suffix" by (auto simp: star_prefix)
  with True show ?thesis by (auto simp: mx_pattern_matches_def split_2_Some)
next
  case False
  then show ?thesis by (auto simp: mx_pattern_matches_def star_prefix Let_def)
qed

lemma allows_loop_matches: "allows_loop ps host \<longleftrightarrow> (\<exists>p \<in> set ps. mx_pattern_matches (dns_name p) host)"
  by (induction ps) (simp, simp only: allows_loop_Cons list.set bex_simps)

section \<open>Well-formed policies\<close>

definition policy_ok :: "sts_policy \<Rightarrow> bool" where
  "policy_ok p \<longleftrightarrow>
     sts_version p = ''STSv1'' \<and> sts_mode p \<in> {''enforce'', ''testing'', ''none''} \<and>
     0 < sts_max_age p \<and> sts_max_age p \<le> max_policy_age \<and> (sts_mode p = ''none'' \<or> sts_mx p \<noteq> [])"

lemma parse_policy_ok: "parse_policy s = Inr p \<Longrightarrow> policy_ok p"
  by (auto simp: parse_policy_def policy_ok_def split: sum.splits if_splits)

lemma stamped_fields [simp]:
  "sts_version (stamped r q p) = sts_version p" "sts_mode (stamped r q p) = sts_mode p"
  "sts_max_age (stamped r q p) = sts_max_age p" "sts_mx (stamped r q p) = sts_mx p"
  by (simp_all add: stamped_def Let_def split: option.splits)

lemma stamped_ok [simp]: "policy_ok (stamped r q p) = policy_ok p"
  by (simp add: policy_ok_def)

section \<open>The sections of a lookup\<close>

definition sts_settings :: "sts_resolver \<Rightarrow> duration \<times> duration \<times> int" where
  "sts_settings r = (rs_min_delay r, rs_max_delay r, rs_need r)"

lemma sts_begin_keeps:
  assumes "sts_begin r now pid d = (r', res)"
  shows "rs_cache r' = rs_cache r" "rs_rollovers r' = rs_rollovers r" "sts_settings r' = sts_settings r"
  using assms by (auto simp: sts_begin_def sts_settings_def Let_def split: option.splits if_splits)

lemma sts_begin_result:
  assumes "sts_begin r now pid d = (r', res)"
  shows "res = Inr \<lparr>pe_domain = d, pe_now = now, pe_id = pid, pe_stale = rs_cache r d\<rparr> \<or> (\<exists>p. res = Inl p \<and> rs_cache r d = Some p)"
  using assms by (auto simp: sts_begin_def Let_def split: option.splits if_splits)

lemma observe_rollover_keeps:
  assumes "observe_rollover r d p = (r', go)"
  shows "rs_cache r' = rs_cache r" "sts_settings r' = sts_settings r"
  using assms by (auto simp: observe_rollover_def sts_settings_def split: option.splits if_splits)

lemma observe_rollover_go:
  assumes "observe_rollover r d p = (r', True)" "rs_need r = 2"
  shows "\<exists>st. rs_rollovers r d = Some st \<and> sts_id (ro_policy st) = sts_id p"
  using assms by (auto simp: observe_rollover_def split: option.splits if_splits)

lemma observe_rollover_records:
  assumes "observe_rollover r d p = (r', go)" "rs_rollovers r' e = Some st"
  shows "rs_rollovers r e = Some st \<or> e = d \<and> sts_id (ro_policy st) = sts_id p"
  using assms by (auto simp: observe_rollover_def split: option.splits if_splits)

lemma sts_failed_keeps:
  assumes "sts_failed r q e = (r', res)"
  shows "rs_cache r' = rs_cache r" "rs_rollovers r' = rs_rollovers r" "sts_settings r' = sts_settings r"
  using assms by (auto simp: sts_failed_def sts_settings_def Let_def split: option.splits)

lemma sts_failed_result: "snd (sts_failed r q e) = (case pe_stale q of None \<Rightarrow> Inl e | Some s \<Rightarrow> Inr s)"
  by (simp add: sts_failed_def Let_def split: option.splits)

text \<open>The policy that a fetch brings, as it would be stored\<close>
definition fetched_policy :: "sts_resolver \<Rightarrow> sts_pending \<Rightarrow> sts_error + string \<Rightarrow> sts_policy option" where
  "fetched_policy r q f =
     (case f of Inl _ \<Rightarrow> None | Inr s \<Rightarrow> (case parse_policy s of Inl _ \<Rightarrow> None | Inr p \<Rightarrow> Some (stamped r q p)))"

lemma fetched_policy_ok: "fetched_policy r q f = Some p \<Longrightarrow> policy_ok p"
  by (auto simp: fetched_policy_def parse_policy_ok split: sum.splits)

lemma sts_finish_None: "fetched_policy r q f = None \<Longrightarrow> \<exists>e. sts_finish r q f = sts_failed r q e"
  by (auto simp: fetched_policy_def sts_finish_def split: sum.splits)

text \<open>The cases of the second section when the fetch brings a policy\<close>
lemma sts_finish_Some:
  assumes "fetched_policy r q f = Some p"
  obtains (taken) r2 where "sts_finish r q f = (r2, Inr p)" "rs_cache r2 = (rs_cache r)(pe_domain q \<mapsto> p)"
      "rs_rollovers r2 (pe_domain q) = None" "sts_settings r2 = sts_settings r"
      "\<And>e st. rs_rollovers r2 e = Some st \<Longrightarrow> rs_rollovers r e = Some st"
      "changes_id (pe_stale q) p \<Longrightarrow> rs_need r = 2 \<Longrightarrow> \<exists>st. rs_rollovers r (pe_domain q) = Some st \<and> sts_id (ro_policy st) = sts_id p"
  | (held) r2 s where "sts_finish r q f = (r2, Inr s)" "pe_stale q = Some s" "rs_cache r2 = rs_cache r" "changes_id (pe_stale q) p"
      "sts_settings r2 = sts_settings r"
      "\<And>e st. rs_rollovers r2 e = Some st \<Longrightarrow> rs_rollovers r e = Some st \<or> e = pe_domain q \<and> sts_id (ro_policy st) = sts_id p"
proof -
  obtain s p0 where f: "f = Inr s" "parse_policy s = Inr p0" "p = stamped r q p0"
    using assms by (auto simp: fetched_policy_def split: sum.splits)
  define r1 where "r1 = r\<lparr>rs_failures := (rs_failures r)(pe_domain q := None), rs_retry_at := (rs_retry_at r)(pe_domain q := None)\<rparr>"
  have r1: "rs_cache r1 = rs_cache r" "rs_rollovers r1 = rs_rollovers r" "sts_settings r1 = sts_settings r"
    by (simp_all add: r1_def sts_settings_def)
  obtain r2 go where o: "observe_rollover r1 (pe_domain q) p = (r2, go)" by fastforce
  note keeps = observe_rollover_keeps [OF o] and recs = observe_rollover_records [OF o]
  show thesis
  proof (cases "changes_id (pe_stale q) p \<and> \<not> go")
    case True
    then obtain s where s: "pe_stale q = Some s" by (auto simp: changes_id_def split: option.splits)
    have "sts_finish r q f = (r2, Inr s)"
      using True s o by (simp add: sts_finish_def f Let_def r1_def)
    with True s show ?thesis using keeps recs r1 by (intro held [of r2 s]) auto
  next
    case False
    define r3 where "r3 = (if changes_id (pe_stale q) p then r2 else r1\<lparr>rs_rollovers := (rs_rollovers r1)(pe_domain q := None)\<rparr>)"
    have r3: "rs_cache r3 = rs_cache r" "sts_settings r3 = sts_settings r"
      "\<And>e st. e \<noteq> pe_domain q \<Longrightarrow> rs_rollovers r3 e = Some st \<Longrightarrow> rs_rollovers r e = Some st"
      using keeps recs r1 by (auto simp: r3_def sts_settings_def split: if_splits)
    have fin: "sts_finish r q f = (r3\<lparr>rs_cache := (rs_cache r3)(pe_domain q \<mapsto> p), rs_rollovers := (rs_rollovers r3)(pe_domain q := None)\<rparr>, Inr p)"
      using False o by (auto simp: sts_finish_def f Let_def r1_def r3_def)
    have seen: "\<exists>st. rs_rollovers r (pe_domain q) = Some st \<and> sts_id (ro_policy st) = sts_id p"
      if "changes_id (pe_stale q) p" "rs_need r = 2"
      using observe_rollover_go [of r1 "pe_domain q" p r2] o False that r1 by (simp add: sts_settings_def)
    show ?thesis
      by (rule taken [OF fin]) (use r3 in \<open>auto simp: seen sts_settings_def split: if_splits\<close>)
  qed
qed

section \<open>The back-off\<close>

lemma delay_loop_bounds:
  assumes "second \<le> d" "d \<le> 5 * minute"
  shows "second \<le> delay_loop n (5 * minute) d \<and> delay_loop n (5 * minute) d \<le> 5 * minute"
  using assms
proof (induction n arbitrary: d)
  case (Suc n)
  have half: "go_div (5 * minute) 2 = 150 * second" by (simp add: go_div_def minute_def second_def)
  have "second \<le> wrap64 (d * 2) \<and> wrap64 (d * 2) \<le> 5 * minute" if "d < 150 * second"
    using that Suc.prems by (simp add: wrap64_def second_def minute_def)
  then show ?case using Suc half by (auto simp: minute_def second_def)
qed simp

lemma retry_delay_bounds:
  assumes "sts_settings r = (second, 5 * minute, n)"
  shows "second \<le> retry_delay r k \<and> retry_delay r k \<le> 5 * minute"
  using assms delay_loop_bounds [of second "nat (k - 1)"]
  by (auto simp: retry_delay_def sts_settings_def Let_def minute_def second_def)

section \<open>Interleaved lookups\<close>

text \<open>
  The resolver, the lookups that are fetching, and the identifiers of the policies fetched so far by their
  domains. The two sections of the lookups of several deliveries come in any order.
\<close>

type_synonym sts_state = "sts_resolver \<times> sts_pending list \<times> (string \<times> string) list"

inductive sts_step :: "sts_state \<Rightarrow> sts_state \<Rightarrow> bool" where
  hit: "sts_begin r now pid d = (r', Inl p) \<Longrightarrow> sts_step (r, qs, h) (r', qs, h)"
| start: "sts_begin r now pid d = (r', Inr q) \<Longrightarrow> sts_step (r, qs, h) (r', q # qs, h)"
| finish: "q \<in> set qs \<Longrightarrow> sts_finish r q f = (r', res) \<Longrightarrow> fetched_policy r q f = Some p \<Longrightarrow>
    sts_step (r, qs, h) (r', remove1 q qs, (pe_domain q, sts_id p) # h)"
| fail: "q \<in> set qs \<Longrightarrow> sts_finish r q f = (r', res) \<Longrightarrow> fetched_policy r q f = None \<Longrightarrow>
    sts_step (r, qs, h) (r', remove1 q qs, h)"

definition sts_run :: "duration \<Rightarrow> sts_state \<Rightarrow> bool" where
  "sts_run ttl s \<longleftrightarrow> sts_step\<^sup>*\<^sup>* (new_resolver ttl, [], []) s"

lemma sts_run_new: "sts_run ttl (new_resolver ttl, [], [])"
  by (simp add: sts_run_def)

lemma sts_run_step: "sts_run ttl s \<Longrightarrow> sts_step s t \<Longrightarrow> sts_run ttl t"
  unfolding sts_run_def by (rule rtranclp.rtrancl_into_rtrancl)

definition sts_inv :: "sts_state \<Rightarrow> bool" where
  "sts_inv s = (case s of (r, qs, h) \<Rightarrow>
     sts_settings r = (second, 5 * minute, 2) \<and>
     (\<forall>d p. rs_cache r d = Some p \<longrightarrow> policy_ok p) \<and>
     (\<forall>q \<in> set qs. \<forall>p. pe_stale q = Some p \<longrightarrow> policy_ok p) \<and>
     (\<forall>d st. rs_rollovers r d = Some st \<longrightarrow> (d, sts_id (ro_policy st)) \<in> set h))"

lemma sts_inv_finish:
  assumes inv: "sts_inv (r, qs, h)" and q: "q \<in> set qs" and f: "sts_finish r q f = (r', res)" "fetched_policy r q f = Some p"
  shows "sts_inv (r', remove1 q qs, (pe_domain q, sts_id p) # h)"
  using f(2)
proof (cases rule: sts_finish_Some)
  case (taken r2)
  with inv f show ?thesis
    by (fastforce simp: sts_inv_def fetched_policy_ok dest: notin_set_remove1 in_set_remove1 set_remove1_subset [THEN subsetD])
next
  case (held r2 s)
  with inv f show ?thesis
    by (fastforce simp: sts_inv_def dest: set_remove1_subset [THEN subsetD])
qed

lemma sts_step_inv: "sts_step s t \<Longrightarrow> sts_inv s \<Longrightarrow> sts_inv t"
proof (induction rule: sts_step.induct)
  case (hit r now pid d r' p qs h)
  then show ?case using sts_begin_keeps [OF hit(1)] by (simp add: sts_inv_def)
next
  case (start r now pid d r' q qs h)
  then show ?case using sts_begin_keeps [OF start(1)] sts_begin_result [OF start(1)] by (auto simp: sts_inv_def)
next
  case (finish q qs r f r' res p h)
  then show ?case by (intro sts_inv_finish)
next
  case (fail q qs r f r' res h)
  then obtain e where "sts_failed r q e = (r', res)" using sts_finish_None by metis
  then show ?case using fail(4) sts_failed_keeps by (fastforce simp: sts_inv_def dest: set_remove1_subset [THEN subsetD])
qed

lemma sts_run_inv: "sts_run ttl s \<Longrightarrow> sts_inv s"
  unfolding sts_run_def
  by (induction rule: rtranclp_induct) (simp add: sts_inv_def sts_settings_def new_resolver_def, blast intro: sts_step_inv)

section \<open>Claims\<close>

text \<open>C28: A policy allows a host exactly when one of its patterns, in any case and with or without a final
  dot, is the name of the host or is \<open>*.\<close> and the name of the host without its first label: a wildcard
  stands for one whole label and no pattern matches by a mere suffix.
\<close>
theorem sts_patterns_exact:
  "allows_mx p host \<longleftrightarrow> (\<exists>pat \<in> set (sts_mx p). mx_pattern_matches (dns_name pat) (dns_name host))"
  by (simp add: allows_mx_def allows_loop_matches)

text \<open>C29: However lookups interleave, whatever the servers answer: every policy in the cache, and every policy
  a finishing lookup returns, has the version STSv1, one of the three modes, an age between nothing and the
  maximum of RFC 8461, and hosts unless its mode is none.
\<close>
theorem sts_policies_wellformed:
  assumes "sts_run ttl (r, qs, h)"
  shows "(rs_cache r d = Some p \<longrightarrow> policy_ok p) \<and>
    (q \<in> set qs \<and> sts_finish r q f = (r', Inr p') \<longrightarrow> policy_ok p')"
proof -
  have inv: "sts_inv (r, qs, h)" by (rule sts_run_inv [OF assms])
  have "policy_ok p'" if q: "q \<in> set qs" and f: "sts_finish r q f = (r', Inr p')"
  proof (cases "fetched_policy r q f")
    case None
    then obtain e where "sts_failed r q e = (r', Inr p')" using f sts_finish_None by metis
    then have "pe_stale q = Some p'" using sts_failed_result [of r q e] by (auto split: option.splits)
    with inv q show ?thesis by (auto simp: sts_inv_def)
  next
    case (Some p)
    from Some show ?thesis
      using f inv q fetched_policy_ok [OF Some] by (cases rule: sts_finish_Some) (auto simp: sts_inv_def)
  qed
  with inv show ?thesis by (auto simp: sts_inv_def)
qed


text \<open>A server that cannot be reached, answers with an error or with a text that is no policy takes no
  policy away: the lookup of a domain with a cached policy returns that policy, also after its time, the cache stays as it is, and the
  next fetch is due between one second and five minutes later unless the answer came from the cache.
\<close>
theorem sts_downgrade_resisted:
  assumes run: "sts_run ttl (r, qs, h)" and p: "rs_cache r (to_lower (trim_space name)) = Some p"
    and ne: "to_lower (trim_space name) \<noteq> []"
    and bad: "\<forall>s. fetch (to_lower (trim_space name)) = Inr s \<longrightarrow> (\<exists>e. parse_policy s = Inl e)"
  shows "\<exists>r'. sts_lookup fetch txt r now name = (r', Inr p) \<and> rs_cache r' = rs_cache r \<and>
    (r' = r \<or> (\<exists>t. rs_retry_at r' (to_lower (trim_space name)) = Some t \<and> now + second \<le> t \<and> t \<le> now + 5 * minute))"
proof -
  let ?d = "to_lower (trim_space name)"
  define pid where "pid = lookup_policy_id txt ?d"
  obtain r1 res where b: "sts_begin r now pid ?d = (r1, res)" by fastforce
  have set: "sts_settings r1 = (second, 5 * minute, 2)"
    using sts_run_inv [OF run] sts_begin_keeps [OF b] by (simp add: sts_inv_def)
  from sts_begin_result [OF b] show ?thesis
  proof (elim disjE exE conjE)
    fix p' assume "res = Inl p'" "rs_cache r ?d = Some p'"
    moreover from this b have "r1 = r" by (auto simp: sts_begin_def Let_def split: option.splits if_splits)
    ultimately show ?thesis using b p ne by (simp add: sts_lookup_def Let_def pid_def [symmetric])
  next
    assume q: "res = Inr \<lparr>pe_domain = ?d, pe_now = now, pe_id = pid, pe_stale = rs_cache r ?d\<rparr>" (is "_ = Inr ?q")
    have "fetched_policy r1 ?q (fetch ?d) = None"
      using bad by (cases "fetch ?d") (auto simp: fetched_policy_def split: sum.splits)
    then obtain e where e: "sts_finish r1 ?q (fetch ?d) = sts_failed r1 ?q e"
      using sts_finish_None by blast
    have l: "sts_lookup fetch txt r now name = sts_failed r1 ?q e"
      using b q e ne by (simp add: sts_lookup_def Let_def pid_def [symmetric])
    obtain r' where f: "sts_failed r1 ?q e = (r', Inr p)" by (simp add: sts_failed_def Let_def p)
    have "\<exists>t. rs_retry_at r' ?d = Some t \<and> now + second \<le> t \<and> t \<le> now + 5 * minute"
      using f retry_delay_bounds [OF set] by (auto simp: sts_failed_def Let_def p)
    then show ?thesis using l f sts_failed_keeps(1) [OF f] sts_begin_keeps(1) [OF b] by simp
  qed
qed

text \<open>A policy as a server sends it, and the runs of the witnesses\<close>
definition sample_policy :: string where
  "sample_policy = ''version: STSv1'' @ crlf @ ''mode: enforce'' @ crlf @ ''mx: *.example.net'' @ crlf @ ''max_age: 86400'' @ crlf"

definition sample_sts :: sts_policy where
  "sample_sts = \<lparr>sts_version = ''STSv1'', sts_mode = ''enforce'', sts_mx = [''*.example.net''], sts_max_age = 86400 * second,
     sts_expires = zero_time, sts_id = []\<rparr>"

lemma sample_policy_parses: "parse_policy sample_policy = Inr sample_sts"
  by code_simp

definition first_pending :: sts_pending where
  "first_pending = \<lparr>pe_domain = ''example.org'', pe_now = 0, pe_id = Some ''a'', pe_stale = None\<rparr>"

definition kept_sts :: "string \<Rightarrow> sts_policy" where
  "kept_sts i = sample_sts\<lparr>sts_expires := 3600 * second, sts_id := i\<rparr>"

text \<open>A resolver that has fetched the policy with the identifier \<open>a\<close>\<close>
definition kept_resolver :: sts_resolver where
  "kept_resolver = (new_resolver 0)\<lparr>rs_cache := [''example.org'' \<mapsto> kept_sts ''a'']\<rparr>"

lemma fun_upd_same_None: "(Map.empty :: 'a \<Rightarrow> 'b option)(x := None) = Map.empty"
  by (simp add: fun_eq_iff)

lemma kept_run: "sts_run 0 (kept_resolver, [], [(''example.org'', ''a'')])"
proof -
  have a: "sts_step (new_resolver 0, [], []) (new_resolver 0, [first_pending], [])"
    by (rule sts_step.start [where now = 0 and pid = "Some ''a''" and d = "''example.org''"])
      (simp add: sts_begin_def new_resolver_def first_pending_def)
  have st: "stamped (new_resolver 0) first_pending sample_sts = kept_sts ''a''"
    by (simp add: stamped_def new_resolver_def first_pending_def kept_sts_def sample_sts_def second_def hour_def minute_def Let_def)
  have f: "sts_finish (new_resolver 0) first_pending (Inr sample_policy) = (kept_resolver, Inr (kept_sts ''a''))"
    by (simp add: sts_finish_def sample_policy_parses st Let_def changes_id_def)
      (simp add: first_pending_def kept_resolver_def new_resolver_def fun_upd_same_None)
  have "sts_step (new_resolver 0, [first_pending], []) (kept_resolver, [], [(''example.org'', ''a'')])"
    using sts_step.finish [OF _ f, of "[first_pending]" "kept_sts ''a''" "[]"]
    by (simp add: fetched_policy_def sample_policy_parses st kept_sts_def) (simp add: first_pending_def)
  then show ?thesis by (rule sts_run_step [OF sts_run_step [OF sts_run_new a]])
qed

theorem sts_policies_wellformed_witness:
  "rs_cache kept_resolver ''example.org'' = Some (kept_sts ''a'') \<and> policy_ok (kept_sts ''a'')"
proof -
  have "rs_cache kept_resolver ''example.org'' = Some (kept_sts ''a'')" by (simp add: kept_resolver_def)
  then show ?thesis using sts_policies_wellformed [OF kept_run, of "''example.org''" "kept_sts ''a''"] by simp
qed

theorem sts_downgrade_resisted_witness:
  "\<exists>r'. sts_lookup (\<lambda>_. Inl (FetchError ''timeout'')) (\<lambda>_. None) kept_resolver (2 * hour) ''Example.org'' = (r', Inr (kept_sts ''a'')) \<and>
     rs_cache r' = rs_cache kept_resolver"
proof -
  have d: "to_lower (trim_space ''Example.org'') = ''example.org''" by code_simp
  show ?thesis
    using sts_downgrade_resisted [OF kept_run, of "''Example.org''" "kept_sts ''a''" "\<lambda>_. Inl (FetchError ''timeout'')" "\<lambda>_. None" "2 * hour"]
    unfolding d by (fastforce simp: kept_resolver_def)
qed

text \<open>A second identifier, seen once and then again\<close>
definition later_pending :: "time \<Rightarrow> sts_pending" where
  "later_pending t = \<lparr>pe_domain = ''example.org'', pe_now = t, pe_id = Some ''b'', pe_stale = Some (kept_sts ''a'')\<rparr>"

definition waiting_resolver :: sts_resolver where
  "waiting_resolver = kept_resolver\<lparr>rs_rollovers := [''example.org'' \<mapsto> \<lparr>ro_policy = kept_sts ''b'', ro_confirmations = 1\<rparr>]\<rparr>"

lemma later_stamped: "rs_ttl r = hour \<Longrightarrow> stamped r (later_pending 0) sample_sts = kept_sts ''b''"
  by (simp add: stamped_def later_pending_def kept_sts_def sample_sts_def second_def hour_def minute_def Let_def)

lemma waiting_run: "sts_run 0 (waiting_resolver, [later_pending 0], [(''example.org'', ''b''), (''example.org'', ''a'')])"
proof -
  have ttl: "rs_ttl kept_resolver = hour" by (simp add: kept_resolver_def new_resolver_def)
  have b: "sts_begin r 0 (Some ''b'') ''example.org'' = (r, Inr (later_pending 0))"
    if "r = kept_resolver \<or> r = waiting_resolver" for r
    using that by (auto simp: sts_begin_def kept_resolver_def waiting_resolver_def kept_sts_def later_pending_def new_resolver_def fun_upd_same_None)
  have f: "sts_finish kept_resolver (later_pending 0) (Inr sample_policy) = (waiting_resolver, Inr (kept_sts ''a''))"
    by (simp add: sts_finish_def sample_policy_parses later_stamped ttl Let_def changes_id_def)
      (simp add: later_pending_def kept_sts_def observe_rollover_def kept_resolver_def waiting_resolver_def new_resolver_def fun_upd_same_None)
  have 1: "sts_step (kept_resolver, [], [(''example.org'', ''a'')]) (kept_resolver, [later_pending 0], [(''example.org'', ''a'')])"
    by (rule sts_step.start [OF b]) simp
  have 2: "sts_step (kept_resolver, [later_pending 0], [(''example.org'', ''a'')])
      (waiting_resolver, [], [(''example.org'', ''b''), (''example.org'', ''a'')])"
    using sts_step.finish [OF _ f, of "[later_pending 0]" "kept_sts ''b''" "[(''example.org'', ''a'')]"]
    by (simp add: fetched_policy_def sample_policy_parses later_stamped ttl) (simp add: later_pending_def kept_sts_def)
  have 3: "sts_step (waiting_resolver, [], [(''example.org'', ''b''), (''example.org'', ''a'')])
      (waiting_resolver, [later_pending 0], [(''example.org'', ''b''), (''example.org'', ''a'')])"
    by (rule sts_step.start [OF b]) simp
  show ?thesis by (rule sts_run_step [OF sts_run_step [OF sts_run_step [OF kept_run 1] 2] 3])
qed


text \<open>An age of 18446744075 seconds, more than five centuries, is accepted although the maximum is a year: the product with the number of
  nanoseconds in a second wraps at 64 bits before it is compared, and the policy is kept for little more than
  a second.
\<close>
theorem sts_age_wraps:
  "\<exists>p. parse_policy (''version: STSv1'' @ crlf @ ''mode: enforce'' @ crlf @ ''mx: mx.example.net'' @ crlf @ ''max_age: 18446744075'' @ crlf) = Inr p \<and>
     sts_max_age p = 1290448384 \<and> 18446744075 * second > max_policy_age"
  by (rule exI [of _ "\<lparr>sts_version = ''STSv1'', sts_mode = ''enforce'', sts_mx = [''mx.example.net''], sts_max_age = 1290448384,
     sts_expires = zero_time, sts_id = []\<rparr>"]) code_simp

end
