(* ===== verification/Net_Ip.thy ===== *)
theory Net_Ip
  imports Smtp_Io
begin

text \<open>
  Textual IP addresses and prefixes as Go's \<^verbatim>\<open>net\<close> and \<^verbatim>\<open>netip\<close> read them: \<^verbatim>\<open>netip.ParseAddr\<close> without zones,
  \<^verbatim>\<open>net.ParseIP\<close>, \<^verbatim>\<open>netip.ParsePrefix\<close> and \<^verbatim>\<open>Prefix.Contains\<close>. They are what the SPF evaluation and the
  delivery client use of these packages. An address has four or sixteen bytes.
\<close>

section \<open>Addresses\<close>

text \<open>A decimal byte: no sign, no leading zero, at most 255\<close>
definition octet :: "string \<Rightarrow> 8 word option" where
  "octet s =
     (if s \<noteq> [] \<and> list_all is_digit s \<and> (hd s = CHR ''0'' \<longrightarrow> length s = 1) \<and>
         foldl (\<lambda>n c. n * 10 + (of_char c - 48)) 0 s \<le> (255 :: nat)
      then Some (of_nat (foldl (\<lambda>n c. n * 10 + (of_char c - 48)) 0 s)) else None)"

definition parse_v4 :: "string \<Rightarrow> ip option" where
  "parse_v4 s =
     (case map octet (split_on CHR ''.'' s) of
        [Some a, Some b, Some c, Some d] \<Rightarrow> Some [a, b, c, d]
      | _ \<Rightarrow> None)"

definition hex_value :: "char \<Rightarrow> nat option" where
  "hex_value c =
     (if is_digit c then Some (of_char c - 48)
      else if CHR ''a'' \<le> c \<and> c \<le> CHR ''f'' then Some (of_char c - 87)
      else if CHR ''A'' \<le> c \<and> c \<le> CHR ''F'' then Some (of_char c - 55) else None)"

abbreviation hex_run :: "string \<Rightarrow> string" where
  "hex_run s \<equiv> takeWhile (\<lambda>c. hex_value c \<noteq> None) s"

text \<open>The two bytes of a group of hexadecimal digits\<close>
definition group_bytes :: "string \<Rightarrow> ip" where
  "group_bytes h = (let n = foldl (\<lambda>n c. n * 16 + the (hex_value c)) 0 h in [of_nat (n div 256), of_nat (n mod 256)])"

lemma drop_shorter: "c # r = drop n s \<Longrightarrow> length r < length s"
  by (metis length_drop length_Cons diff_le_self Suc_le_eq)

text \<open>
  The loop of \<^verbatim>\<open>parseIPv6\<close>: the bytes so far, the place of the ellipsis and the rest. The result is
  \<open>None\<close> when the loop returns an error or leaves a rest.
\<close>
function v6_loop :: "ip \<Rightarrow> nat option \<Rightarrow> string \<Rightarrow> (ip \<times> nat option) option" where
  "v6_loop acc ell s =
     (if 16 \<le> length acc then (if s = [] then Some (acc, ell) else None)
      else
        (let h = hex_run s; r = drop (length h) s in
         if h = [] \<or> 4 < length h then None
         else if r \<noteq> [] \<and> hd r = CHR ''.'' then
           (if ell = None \<and> length acc \<noteq> 12 \<or> 12 < length acc then None
            else map_option (\<lambda>v4. (acc @ v4, ell)) (parse_v4 s))
         else
           (let acc' = acc @ group_bytes h in
            case r of
              [] \<Rightarrow> Some (acc', ell)
            | [c] \<Rightarrow> None
            | c # d # t \<Rightarrow>
                if c \<noteq> CHR '':'' then None
                else if d = CHR '':'' then
                  (if ell \<noteq> None then None
                   else if t = [] then Some (acc', Some (length acc'))
                   else v6_loop acc' (Some (length acc')) t)
                else v6_loop acc' ell (d # t))))"
  by pat_completeness auto

termination
  by (relation "measure (\<lambda>(_, _, s). length s)") (auto dest!: drop_shorter)

declare v6_loop.simps [simp del]

text \<open>The ellipsis stands for at least one group.\<close>
definition v6_expand :: "ip \<times> nat option \<Rightarrow> ip option" where
  "v6_expand p =
     (case p of
        (acc, None) \<Rightarrow> if length acc = 16 then Some acc else None
      | (acc, Some e) \<Rightarrow> if length acc < 16 then Some (take e acc @ replicate (16 - length acc) 0 @ drop e acc) else None)"

definition parse_v6 :: "string \<Rightarrow> ip option" where
  "parse_v6 s =
     (if CHR ''%'' \<in> set s then None
      else if has_prefix s ''::'' then
        (if length s = 2 then Some (replicate 16 0)
         else Option.bind (v6_loop [] (Some 0) (drop 2 s)) v6_expand)
      else Option.bind (v6_loop [] None s) v6_expand)"

text \<open>\<^verbatim>\<open>netip.ParseAddr\<close>: the first dot, colon or percent sign decides.\<close>
definition parse_addr :: "string \<Rightarrow> ip option" where
  "parse_addr s =
     (case dropWhile (\<lambda>c. c \<notin> {CHR ''.'', CHR '':'', CHR ''%''}) s of
        [] \<Rightarrow> None
      | c # _ \<Rightarrow> if c = CHR ''.'' then parse_v4 s else if c = CHR '':'' then parse_v6 s else None)"

definition v4_in_6 :: "ip \<Rightarrow> ip" where
  "v4_in_6 a = replicate 10 0 @ [255, 255] @ a"

text \<open>\<^verbatim>\<open>net.ParseIP\<close> always returns sixteen bytes.\<close>
definition parse_ip :: "string \<Rightarrow> ip option" where
  "parse_ip s = map_option (\<lambda>a. if length a = 4 then v4_in_6 a else a) (parse_addr s)"

text \<open>\<^verbatim>\<open>IP.Equal\<close>: the two forms of an IPv4 address are equal.\<close>
definition ip_equal :: "ip \<Rightarrow> ip \<Rightarrow> bool" where
  "ip_equal a b \<longleftrightarrow> (if length a = length b then a = b else ip_to4 a \<noteq> None \<and> ip_to4 a = ip_to4 b)"

section \<open>Prefixes\<close>

text \<open>\<^verbatim>\<open>Addr.Unmap\<close>\<close>
definition unmap :: "ip \<Rightarrow> ip" where
  "unmap a = (case ip_to4 a of Some v4 \<Rightarrow> v4 | None \<Rightarrow> a)"

definition ip_bits :: "ip \<Rightarrow> bool list" where
  "ip_bits a = concat (map (\<lambda>b. map (bit b) (rev [0..<8])) a)"

text \<open>\<^verbatim>\<open>netip.PrefixFrom\<close> and \<^verbatim>\<open>Prefix.Contains\<close>: a prefix with a length out of range contains nothing.\<close>
definition prefix_contains :: "ip \<times> int \<Rightarrow> ip \<Rightarrow> bool" where
  "prefix_contains p a =
     (case p of (b, n) \<Rightarrow> 0 \<le> n \<and> n \<le> int (8 * length b) \<and> length a = length b \<and>
        take (nat n) (ip_bits a) = take (nat n) (ip_bits b))"

definition bits_number :: "string \<Rightarrow> nat option" where
  "bits_number s =
     (if s \<noteq> [] \<and> list_all is_digit s \<and> (hd s = CHR ''0'' \<longrightarrow> length s = 1)
      then Some (foldl (\<lambda>n c. n * 10 + (of_char c - 48)) 0 s) else None)"

text \<open>\<^verbatim>\<open>netip.ParsePrefix\<close>\<close>
definition parse_prefix :: "string \<Rightarrow> (ip \<times> int) option" where
  "parse_prefix s =
     (case index_byte (rev s) CHR ''/'' of
        None \<Rightarrow> None
      | Some i \<Rightarrow>
          (case (parse_addr (take (length s - 1 - i) s), bits_number (drop (length s - i) s)) of
             (Some a, Some n) \<Rightarrow> if n \<le> 8 * length a then Some (a, int n) else None
           | _ \<Rightarrow> None))"

section \<open>Facts\<close>

lemma parse_v4_length: "parse_v4 s = Some a \<Longrightarrow> length a = 4"
  by (auto simp: parse_v4_def split: list.splits option.splits)

lemma group_bytes_length [simp]: "length (group_bytes h) = 2"
  by (simp add: group_bytes_def Let_def)

lemma v6_loop_length: "v6_loop acc ell s = Some (a, e) \<Longrightarrow> length acc \<le> 16 \<Longrightarrow> even (length acc) \<Longrightarrow> length a \<le> 16"
proof (induction acc ell s rule: v6_loop.induct)
  case (1 acc ell s)
  have ev: "length acc + 2 \<le> 16" if "\<not> 16 \<le> length acc"
    using that 1(5) by presburger
  show ?case
    using 1 ev parse_v4_length [of s]
    by (subst (asm) (3) v6_loop.simps) (auto simp: Let_def split: if_splits list.splits)
qed

end
