(* ===== verification/Dane.thy ===== *)
theory Dane
  imports Net_Ip
begin

text \<open>
  DANE for outbound SMTP (\<^verbatim>\<open>internal/delivery/dane.go\<close>): TLSA records, which of them are usable, the check of
  the peer's certificates, the lookup over the CNAME chain of a host, and the DNS query and answer on the wire.
  The digests, the hostname check of \<^verbatim>\<open>crypto/x509\<close> and the answers of the resolvers are parameters.
\<close>

section \<open>Records\<close>

record tlsa_record =
  ta_usage :: nat
  ta_selector :: nat
  ta_matching :: nat
  ta_data :: string

record dane_result =
  dn_authenticated :: bool
  dn_records :: "tlsa_record list"

text \<open>The parts of an \<^verbatim>\<open>x509.Certificate\<close> that the check reads\<close>
record certificate =
  crt_raw :: string
  crt_spki :: string
  crt_names :: "string list"

text \<open>\<^verbatim>\<open>isSupportedTLSAProfile\<close>\<close>
definition supported_profile :: "tlsa_record \<Rightarrow> bool" where
  "supported_profile r \<longleftrightarrow>
     ta_data r \<noteq> [] \<and> ta_usage r \<in> {2, 3} \<and> ta_selector r \<in> {0, 1} \<and> ta_matching r \<in> {1, 2}"

text \<open>\<^verbatim>\<open>HasUsableTLSAWithTrustModel\<close>\<close>
definition has_usable_tlsa :: "dane_result \<Rightarrow> string \<Rightarrow> bool" where
  "has_usable_tlsa r trust_model \<longleftrightarrow>
     (dn_authenticated r \<or> to_lower (trim_space trust_model) = ''insecure_allow_unsigned'') \<and>
     list_ex supported_profile (dn_records r)"

text \<open>The digests and the hostname check\<close>
record crypto =
  cy_sha256 :: "string \<Rightarrow> string"
  cy_sha512 :: "string \<Rightarrow> string"
  cy_host_ok :: "certificate \<Rightarrow> string \<Rightarrow> bool"

text \<open>\<^verbatim>\<open>matchTLSARecord\<close>\<close>
definition match_tlsa :: "crypto \<Rightarrow> certificate \<Rightarrow> tlsa_record \<Rightarrow> bool" where
  "match_tlsa cy cert r =
     (let selected = (if ta_selector r = 0 then Some (crt_raw cert)
                      else if ta_selector r = 1 then Some (crt_spki cert) else None) in
      case selected of
        None \<Rightarrow> False
      | Some s \<Rightarrow>
          if ta_matching r = 1 then cy_sha256 cy s = ta_data r
          else if ta_matching r = 2 then cy_sha512 cy s = ta_data r else False)"

text \<open>\<^verbatim>\<open>peerCertCandidatesForUsage\<close>\<close>
definition tlsa_candidates :: "certificate list \<Rightarrow> nat \<Rightarrow> certificate list" where
  "tlsa_candidates certs usage = (if usage = 3 then take 1 certs else if usage = 2 then certs else [])"

text \<open>\<^verbatim>\<open>verifyPeerCertificatesWithTLSA\<close>: \<open>True\<close> when it returns no error\<close>
definition verify_tlsa :: "crypto \<Rightarrow> string \<Rightarrow> certificate list \<Rightarrow> tlsa_record list \<Rightarrow> bool" where
  "verify_tlsa cy host certs records \<longleftrightarrow>
     certs \<noteq> [] \<and>
     list_ex (\<lambda>r. supported_profile r \<and>
       list_ex (\<lambda>c. match_tlsa cy c r \<and> (ta_usage r = 2 \<longrightarrow> cy_host_ok cy c host)) (tlsa_candidates certs (ta_usage r))) records"

section \<open>Lookup\<close>

text \<open>
  The loop of \<^verbatim>\<open>expandDANECandidates\<close>; \<open>cname\<close> is the resolver and \<open>None\<close> its error. The names seen are
  those already in the result.
\<close>
fun dane_chain :: "(string \<Rightarrow> string option) \<Rightarrow> nat \<Rightarrow> string \<Rightarrow> string list \<Rightarrow> string list" where
  "dane_chain cname 0 current out = out"
| "dane_chain cname (Suc n) current out =
     (case cname current of
        None \<Rightarrow> out
      | Some c \<Rightarrow>
          (let next = trim_suffix (to_lower (trim_space c)) ''.'' in
           if next = [] \<or> next = current \<or> next \<in> set out then out
           else dane_chain cname n next (out @ [next])))"

definition expand_candidates :: "(string \<Rightarrow> string option) \<Rightarrow> string \<Rightarrow> string list" where
  "expand_candidates cname host = dane_chain cname 5 host [host]"

text \<open>The merged answers and the last error\<close>
fun merge_answers :: "(string \<Rightarrow> 'e + dane_result) \<Rightarrow> string list \<Rightarrow> dane_result \<times> 'e option \<Rightarrow> dane_result \<times> 'e option" where
  "merge_answers lookup [] acc = acc"
| "merge_answers lookup (c # cs) (m, last_error) =
     (case lookup c of
        Inl e \<Rightarrow> merge_answers lookup cs (m, Some e)
      | Inr r \<Rightarrow> merge_answers lookup cs
          (\<lparr>dn_authenticated = dn_authenticated m \<or> dn_authenticated r, dn_records = dn_records m @ dn_records r\<rparr>, last_error))"

definition no_dane :: dane_result where
  "no_dane = \<lparr>dn_authenticated = False, dn_records = []\<rparr>"

text \<open>\<^verbatim>\<open>DANEResolver.LookupHost\<close>: \<open>None\<close> stands for the error of an empty host.\<close>
definition dane_lookup :: "(string \<Rightarrow> string option) \<Rightarrow> (string \<Rightarrow> int \<Rightarrow> 'e + dane_result) \<Rightarrow> string \<Rightarrow> int \<Rightarrow> 'e option + dane_result" where
  "dane_lookup cname lookup host0 port0 =
     (let host = trim_suffix (to_lower (trim_space host0)) ''.''; port = (if port0 \<le> 0 then 25 else port0) in
      if host = [] then Inl None
      else (case merge_answers (\<lambda>c. lookup c port) (expand_candidates cname host) (no_dane, None) of
              (m, last_error) \<Rightarrow>
                if dn_records m \<noteq> [] then Inr m
                else (case last_error of Some e \<Rightarrow> Inl (Some e) | None \<Rightarrow> Inr no_dane)))"

section \<open>DNS messages\<close>

type_synonym packet = "8 word list"

definition be16 :: "nat \<Rightarrow> packet" where
  "be16 n = [of_nat (n div 256), of_nat (n mod 256)]"

definition uint16_at :: "packet \<Rightarrow> nat \<Rightarrow> nat" where
  "uint16_at p i = unat (p ! i) * 256 + unat (p ! (i + 1))"

definition bytes_of :: "string \<Rightarrow> packet" where
  "bytes_of s = map (\<lambda>c. of_nat (of_char c :: nat)) s"

definition string_of :: "packet \<Rightarrow> string" where
  "string_of p = map (\<lambda>b. char_of (unat b :: nat)) p"

fun encode_labels :: "string list \<Rightarrow> packet option" where
  "encode_labels [] = Some []"
| "encode_labels (l # ls) =
     (if l = [] \<or> 63 < length l then None
      else map_option (\<lambda>r. of_nat (length l) # bytes_of l @ r) (encode_labels ls))"

definition query_labels :: "string \<Rightarrow> string list" where
  "query_labels qname = split_on CHR ''.'' (trim_right (\<lambda>c. c = CHR ''.'') (trim_left (\<lambda>c. c = CHR ''.'') (trim_space qname)))"

text \<open>\<^verbatim>\<open>buildDNSQuery\<close> with the identifier it takes from the clock\<close>
definition build_dns_query :: "nat \<Rightarrow> string \<Rightarrow> nat \<Rightarrow> packet option" where
  "build_dns_query i qname qtype =
     map_option (\<lambda>q. be16 i @ be16 256 @ be16 1 @ replicate 6 0 @ q @ [0] @ be16 qtype @ be16 1) (encode_labels (query_labels qname))"

datatype dns_error = ShortPacket | IdMismatch | Rcode nat | NameOverflow | ShortPointer | LabelLength | ShortQuestion | ShortAnswer | ShortRdata

text \<open>\<^verbatim>\<open>skipDNSName\<close>: the offset after the name\<close>
function skip_name :: "packet \<Rightarrow> nat \<Rightarrow> dns_error + nat" where
  "skip_name p off =
     (if length p \<le> off then Inl NameOverflow
      else
        (let l = unat (p ! off) in
         if l = 0 then Inr (off + 1)
         else if 192 \<le> l then (if length p \<le> off + 1 then Inl ShortPointer else Inr (off + 2))
         else if 63 < l \<or> length p < off + 1 + l then Inl LabelLength
         else skip_name p (off + 1 + l)))"
  by pat_completeness auto
termination by (relation "measure (\<lambda>(p, off). length p - off)") auto

declare skip_name.simps [simp del]

fun skip_questions :: "packet \<Rightarrow> nat \<Rightarrow> nat \<Rightarrow> dns_error + nat" where
  "skip_questions p off 0 = Inr off"
| "skip_questions p off (Suc n) =
     (case skip_name p off of
        Inl e \<Rightarrow> Inl e
      | Inr o' \<Rightarrow> if length p < o' + 4 then Inl ShortQuestion else skip_questions p (o' + 4) n)"

fun read_answers :: "packet \<Rightarrow> nat \<Rightarrow> nat \<Rightarrow> tlsa_record list \<Rightarrow> dns_error + tlsa_record list" where
  "read_answers p off 0 acc = Inr acc"
| "read_answers p off (Suc n) acc =
     (case skip_name p off of
        Inl e \<Rightarrow> Inl e
      | Inr o1 \<Rightarrow>
          if length p < o1 + 10 then Inl ShortAnswer
          else
            (let typ = uint16_at p o1; cls = uint16_at p (o1 + 2); rdlen = uint16_at p (o1 + 8); o2 = o1 + 10 in
             if length p < o2 + rdlen then Inl ShortRdata
             else
               (let rdata = take rdlen (drop o2 p) in
                read_answers p (o2 + rdlen) n
                  (if typ \<noteq> 52 \<or> cls \<noteq> 1 \<or> rdlen < 3 then acc
                   else acc @ [\<lparr>ta_usage = unat (rdata ! 0), ta_selector = unat (rdata ! 1), ta_matching = unat (rdata ! 2),
                                ta_data = string_of (drop 3 rdata)\<rparr>]))))"

text \<open>\<^verbatim>\<open>parseTLSAResponse\<close>; the response code is the low four bits of the flags, the authentic-data bit the sixth.\<close>
definition parse_tlsa_response :: "packet \<Rightarrow> nat \<Rightarrow> dns_error + dane_result" where
  "parse_tlsa_response p query_id =
     (if length p < 12 then Inl ShortPacket
      else if uint16_at p 0 \<noteq> query_id then Inl IdMismatch
      else
        (let flags = uint16_at p 2 in
         if flags mod 16 \<noteq> 0 then Inl (Rcode (flags mod 16))
         else
           (case skip_questions p 12 (uint16_at p 4) of
              Inl e \<Rightarrow> Inl e
            | Inr off \<Rightarrow>
                (case read_answers p off (uint16_at p 6) [] of
                   Inl e \<Rightarrow> Inl e
                 | Inr rs \<Rightarrow> Inr \<lparr>dn_authenticated = odd (flags div 32), dn_records = rs\<rparr>))))"

section \<open>A reference encoding of answers\<close>

text \<open>An answer as a server writes it: a pointer to the name of the question, type, class, time to live, data\<close>
definition encode_tlsa :: "tlsa_record \<Rightarrow> packet" where
  "encode_tlsa r =
     [192, 12] @ be16 52 @ be16 1 @ [0, 0, 14, 16] @ be16 (3 + length (ta_data r)) @
     [of_nat (ta_usage r), of_nat (ta_selector r), of_nat (ta_matching r)] @ bytes_of (ta_data r)"

definition encode_response :: "nat \<Rightarrow> bool \<Rightarrow> packet \<Rightarrow> tlsa_record list \<Rightarrow> packet" where
  "encode_response i ad qname rs =
     be16 i @ be16 (if ad then 33184 else 33152) @ be16 1 @ be16 (length rs) @ [0, 0, 0, 0] @ qname @ [0] @ be16 52 @ be16 1 @
     concat (map encode_tlsa rs)"

definition byte_sized :: "tlsa_record \<Rightarrow> bool" where
  "byte_sized r \<longleftrightarrow> ta_usage r < 256 \<and> ta_selector r < 256 \<and> ta_matching r < 256 \<and> length (ta_data r) < 65533"

section \<open>Facts\<close>

lemma length_be16 [simp]: "length (be16 n) = 2"
  by (simp add: be16_def)

lemma uint16_be16: "n < 65536 \<Longrightarrow> uint16_at (be16 n @ r) 0 = n"
  by (simp add: uint16_at_def be16_def unat_of_nat)

lemma string_bytes [simp]: "string_of (bytes_of s) = s"
  by (induction s) (simp_all add: string_of_def bytes_of_def unat_of_nat)

lemma length_bytes_of [simp]: "length (bytes_of s) = length s"
  by (simp add: bytes_of_def)

text \<open>The names that a query carries are skipped exactly.\<close>
lemma skip_encoded:
  "encode_labels ls = Some q \<Longrightarrow> skip_name (pre @ q @ 0 # post) (length pre) = Inr (length pre + length q + 1)"
proof (induction ls arbitrary: pre q)
  case Nil
  then show ?case by (subst skip_name.simps) simp
next
  case (Cons l ls)
  then obtain r where r: "encode_labels ls = Some r" and l: "l \<noteq> []" "length l \<le> 63"
    and q: "q = of_nat (length l) # bytes_of l @ r"
    by (auto split: if_splits)
  have u: "unat (of_nat (length l) :: 8 word) = length l"
    using l by (simp add: unat_of_nat)
  have "skip_name (pre @ q @ 0 # post) (length pre) = skip_name (pre @ q @ 0 # post) (length pre + 1 + length l)"
    using l by (subst skip_name.simps) (simp add: q u nth_append Let_def)
  also have "\<dots> = Inr (length pre + length q + 1)"
    using Cons.IH [OF r, of "pre @ of_nat (length l) # bytes_of l"] by (simp add: q)
  finally show ?case .
qed

lemma skip_name_bounds: "skip_name p off = Inr n \<Longrightarrow> off < n \<and> n \<le> length p"
proof (induction p off rule: skip_name.induct)
  case (1 p off)
  then show ?case
    by (subst (asm) (2) skip_name.simps) (fastforce simp: Let_def split: if_splits)
qed

lemma uint16_shift: "uint16_at (a @ p) (length a + i) = uint16_at p i"
  by (simp add: uint16_at_def nth_append)

lemma encode_tlsa_length: "length (encode_tlsa r) = 15 + length (ta_data r)"
  by (simp add: encode_tlsa_def)

lemma read_answers_step:
  assumes "skip_name p off = Inr o1" and "uint16_at p o1 = 52" and "uint16_at p (o1 + 2) = 1" and "uint16_at p (o1 + 8) = n"
    and "o1 + 10 + n \<le> length p" and "3 \<le> n" and "take n (drop (o1 + 10) p) = rdata"
  shows "read_answers p off (Suc k) acc = read_answers p (o1 + 10 + n) k
     (acc @ [\<lparr>ta_usage = unat (rdata ! 0), ta_selector = unat (rdata ! 1), ta_matching = unat (rdata ! 2),
               ta_data = string_of (drop 3 rdata)\<rparr>])"
  using assms by (simp add: Let_def)

lemma read_answers_encoded:
  "list_all byte_sized rs \<Longrightarrow>
     read_answers (pre @ concat (map encode_tlsa rs)) (length pre) (length rs) acc = Inr (acc @ rs)"
proof (induction rs arbitrary: pre acc)
  case (Cons r rs)
  let ?n = "3 + length (ta_data r)"
  let ?tail = "concat (map encode_tlsa rs)"
  let ?p = "pre @ encode_tlsa r @ ?tail"
  let ?rd = "[of_nat (ta_usage r), of_nat (ta_selector r), of_nat (ta_matching r)] @ bytes_of (ta_data r) :: packet"
  have r: "byte_sized r" using Cons.prems by simp
  then have "?n div 256 < 256" by (auto simp: byte_sized_def intro!: less_mult_imp_div_less)
  then have len: "uint16_at ?p (length pre + 2 + 8) = ?n"
    by (simp add: uint16_at_def encode_tlsa_def be16_def nth_append unat_of_nat)
  have "read_answers ?p (length pre) (Suc (length rs)) acc = read_answers ?p (length pre + 2 + 10 + ?n) (length rs)
     (acc @ [\<lparr>ta_usage = unat (?rd ! 0), ta_selector = unat (?rd ! 1), ta_matching = unat (?rd ! 2), ta_data = string_of (drop 3 ?rd)\<rparr>])"
  proof (rule read_answers_step [OF _ _ _ len])
    show "skip_name ?p (length pre) = Inr (length pre + 2)"
      by (subst skip_name.simps) (simp add: encode_tlsa_def nth_append)
    show "uint16_at ?p (length pre + 2) = 52" "uint16_at ?p (length pre + 2 + 2) = 1"
      by (simp_all add: uint16_at_def encode_tlsa_def be16_def nth_append)
    show "take ?n (drop (length pre + 2 + 10) ?p) = ?rd"
      by (simp add: encode_tlsa_def be16_def take_Cons')
  qed (simp_all add: encode_tlsa_length)
  also have "\<dots> = read_answers ?p (length (pre @ encode_tlsa r)) (length rs) (acc @ [r])"
    using r by (cases r) (simp add: byte_sized_def unat_of_nat encode_tlsa_length add.commute add.left_commute)
  also have "\<dots> = Inr ((acc @ [r]) @ rs)"
    using Cons.IH [of "pre @ encode_tlsa r" "acc @ [r]"] Cons.prems by simp
  finally show ?case by simp
qed simp

section \<open>Claims\<close>

text \<open>C30: From the bytes of an answer to a query for any valid name, with any number of
  TLSA records behind a compressed name, the parser recovers exactly these records in their order and the
  authentic-data bit.\<close>
theorem tlsa_roundtrip:
  assumes "i < 65536" and "encode_labels ls = Some qname" and "length rs < 65536" and "list_all byte_sized rs"
  shows "parse_tlsa_response (encode_response i ad qname rs) i = Inr \<lparr>dn_authenticated = ad, dn_records = rs\<rparr>"
proof -
  let ?flags = "if ad then 33184 else 33152 :: nat"
  let ?head = "be16 i @ be16 ?flags @ be16 1 @ be16 (length rs) @ [0, 0, 0, 0]"
  let ?ans = "concat (map encode_tlsa rs)"
  let ?p = "encode_response i ad qname rs"
  have p: "?p = ?head @ qname @ 0 # (be16 52 @ be16 1 @ ?ans)"
    by (simp add: encode_response_def)
  have head: "uint16_at ?p 0 = i" "uint16_at ?p 2 = ?flags" "uint16_at ?p 4 = 1" "uint16_at ?p 6 = length rs"
    using assms by (simp_all add: p uint16_at_def be16_def unat_of_nat less_mult_imp_div_less)
  have "skip_name ?p (length ?head) = Inr (length ?head + length qname + 1)"
    unfolding p by (rule skip_encoded [OF assms(2)])
  then have q: "skip_questions ?p 12 1 = Inr (12 + length qname + 5)"
    by (simp add: p eval_nat_numeral)
  have "read_answers ((?head @ qname @ 0 # be16 52 @ be16 1) @ ?ans) (length (?head @ qname @ 0 # be16 52 @ be16 1)) (length rs) [] = Inr ([] @ rs)"
    by (rule read_answers_encoded [OF assms(4)])
  then have a: "read_answers ?p (12 + length qname + 5) (length rs) [] = Inr rs"
    by (simp add: p eval_nat_numeral)
  have "\<not> length ?p < 12" by (simp add: p)
  moreover have "?flags mod 16 = 0" "odd (?flags div 32) = ad" by auto
  ultimately show ?thesis
    by (simp only: parse_tlsa_response_def head q a Let_def if_False not_not sum.case simp_thms)
qed

definition w_tlsa :: tlsa_record where
  "w_tlsa = \<lparr>ta_usage = 3, ta_selector = 1, ta_matching = 1, ta_data = ''digest''\<rparr>"

theorem tlsa_roundtrip_witness:
  "parse_tlsa_response (encode_response 7 True (3 # bytes_of ''_25'') [w_tlsa]) 7 = Inr \<lparr>dn_authenticated = True, dn_records = [w_tlsa]\<rparr>"
  by (rule tlsa_roundtrip [of 7 "[''_25'']"]) (simp_all add: byte_sized_def w_tlsa_def)

text \<open>The authentic-data bits of a host and of its aliases are
  merged. When the answer for the host is authenticated and empty, and the answer for an alias is not
  authenticated, the unauthenticated records of the alias count as usable although the trust model requires
  authentication.\<close>
theorem dane_merges_unsigned:
  assumes "host \<noteq> []" and "trim_suffix (to_lower (trim_space host)) ''.'' = host"
    and "cname host = Some other" and "trim_suffix (to_lower (trim_space other)) ''.'' = other"
    and "other \<noteq> []" and "other \<noteq> host" and "cname other = None"
    and "lookup host 25 = Inr \<lparr>dn_authenticated = True, dn_records = []\<rparr>"
    and "lookup other 25 = Inr \<lparr>dn_authenticated = False, dn_records = rs\<rparr>" and "list_ex supported_profile rs"
  shows "dane_lookup cname lookup host 25 = Inr \<lparr>dn_authenticated = True, dn_records = rs\<rparr> \<and>
    has_usable_tlsa \<lparr>dn_authenticated = True, dn_records = rs\<rparr> ''ad_required'' \<and>
    \<not> has_usable_tlsa \<lparr>dn_authenticated = False, dn_records = rs\<rparr> ''ad_required''"
proof -
  have "rs \<noteq> []" using assms(10) by auto
  moreover have "expand_candidates cname host = [host, other]"
    using assms by (simp add: expand_candidates_def eval_nat_numeral Let_def)
  ultimately have "dane_lookup cname lookup host 25 = Inr \<lparr>dn_authenticated = True, dn_records = rs\<rparr>"
    using assms by (simp add: dane_lookup_def no_dane_def Let_def)
  then show ?thesis
    using assms(10) by (simp add: has_usable_tlsa_def go_eval)
qed

theorem dane_merges_unsigned_witness:
  "dane_lookup (\<lambda>h. if h = ''mx'' then Some ''alias'' else None)
     (\<lambda>h _. if h = ''mx'' then Inr \<lparr>dn_authenticated = True, dn_records = []\<rparr>
            else Inr \<lparr>dn_authenticated = False, dn_records = [w_tlsa]\<rparr> :: unit + dane_result) ''mx'' 25
   = Inr \<lparr>dn_authenticated = True, dn_records = [w_tlsa]\<rparr>"
  by (rule dane_merges_unsigned [where other = "''alias''", THEN conjunct1])
     (simp_all add: go_eval w_tlsa_def supported_profile_def)

end
