(* ===== verification/Client_Io.thy ===== *)
theory Client_Io
  imports Classification Dane
begin

text \<open>
  The wire of the delivery client (\<^verbatim>\<open>internal/delivery/smtp_client.go\<close>): writing lines, reading replies with
  \<^verbatim>\<open>textproto.Reader.ReadResponse\<close>, the expected reply codes and the extensions a server announces.

  A connection is the bytes that the peer sends until the connection ends and the error the next read
  gives then (\<open>io.EOF\<close>, a deadline, a reset). A write either succeeds or fails as the connection says for
  that write; the log keeps what was written, whether inside TLS or not, and the codes of the replies. A
  write that fails may have sent a part of the text.
\<close>

section \<open>The connection\<close>

datatype wire_event = Sent bool string | Broken bool string | Got nat

record wire =
  wr_input :: string
  wr_end :: derror
  wr_fails :: "nat \<Rightarrow> derror option"
  wr_writes :: nat
  wr_tls :: bool
  wr_handshake :: "derror + string"
  wr_certs :: "certificate list"
  wr_log :: "wire_event list"

text \<open>A write with its flush\<close>
definition wire_send :: "wire \<Rightarrow> string \<Rightarrow> wire \<times> derror option" where
  "wire_send w s =
     (case wr_fails w (wr_writes w) of
        None \<Rightarrow> (w\<lparr>wr_writes := wr_writes w + 1, wr_log := wr_log w @ [Sent (wr_tls w) s]\<rparr>, None)
      | Some e \<Rightarrow> (w\<lparr>wr_writes := wr_writes w + 1, wr_log := wr_log w @ [Broken (wr_tls w) s]\<rparr>, Some e))"

text \<open>\<^verbatim>\<open>writeLine\<close>\<close>
definition send_line :: "wire \<Rightarrow> string \<Rightarrow> wire \<times> derror option" where
  "send_line w l = wire_send w (l @ crlf)"

section \<open>Replies\<close>

text \<open>
  \<^verbatim>\<open>bufio.Reader.ReadLine\<close> at the end of the input: the bytes after the last newline are a line, unless
  they end where a full buffer of 4096 bytes ends.
\<close>
function last_fragment :: "string \<Rightarrow> bool" where
  "last_fragment s =
     (if length s < 4096 then s \<noteq> []
      else last_fragment (drop (if s ! 4095 = CR then 4095 else 4096) s))"
  by pat_completeness auto
termination by (relation "measure length") auto

declare last_fragment.simps [simp del]

text \<open>\<^verbatim>\<open>textproto.Reader.ReadLine\<close>\<close>
definition wire_line :: "string \<Rightarrow> (string \<times> string) option" where
  "wire_line s =
     (case cut_line s of
        (l, rest, True) \<Rightarrow> Some (trim_suffix (trim_suffix l [LF]) [CR], rest)
      | (l, rest, False) \<Rightarrow> if last_fragment l then Some (l, []) else None)"

lemma last_fragment_Nil [simp]: "\<not> last_fragment []"
  by (subst last_fragment.simps) simp

lemma wire_line_rest: "wire_line s = Some (l, rest) \<Longrightarrow> length rest < length s"
  using cut_line_rest [of s]
  by (cases "s = []") (auto simp: wire_line_def cut_line_def split: prod.splits bool.splits if_splits option.splits)

text \<open>\<^verbatim>\<open>parseCodeLine\<close>: the code, whether more lines follow, the text, and whether there was no error\<close>
definition parse_code_line :: "string \<Rightarrow> nat \<times> bool \<times> string \<times> bool" where
  "parse_code_line line =
     (if length line < 4 \<or> line ! 3 \<noteq> CHR '' '' \<and> line ! 3 \<noteq> CHR ''-'' then (0, False, [], False)
      else
        (let code = foldl (\<lambda>n c. n * 10 + (of_char c - 48)) 0 (take 3 line); cont = (line ! 3 = CHR ''-'') in
         if list_all is_digit (take 3 line) \<and> 100 \<le> code then (code, cont, drop 4 line, True)
         else (0, cont, [], False)))"

text \<open>The loop of \<^verbatim>\<open>ReadResponse\<close> over the further lines: \<open>None\<close> when the input ends.\<close>
function read_more :: "nat \<Rightarrow> string \<Rightarrow> string \<Rightarrow> (string \<times> string) option" where
  "read_more code text s =
     (case wire_line s of
        None \<Rightarrow> None
      | Some (line, rest) \<Rightarrow>
          (case parse_code_line line of
             (code2, cont, msg, ok) \<Rightarrow>
               if \<not> ok \<or> code2 \<noteq> code then read_more code (text @ [LF] @ trim_eol line) rest
               else if cont then read_more code (text @ [LF] @ msg) rest
               else Some (text @ [LF] @ msg, rest)))"
  by pat_completeness auto
termination by (relation "measure (\<lambda>(_, _, s). length s)") (auto dest: wire_line_rest)

declare read_more.simps [simp del]

text \<open>\<^verbatim>\<open>textproto.ProtocolError\<close>\<close>
definition invalid_reply :: "string \<Rightarrow> derror" where
  "invalid_reply line = OtherError (''invalid response: '' @ line)"

text \<open>\<^verbatim>\<open>ReadResponse (0)\<close>: an invalid first line that announces more lines is never matched by a later one.\<close>
definition read_response :: "derror \<Rightarrow> string \<Rightarrow> string \<times> (derror + nat \<times> string)" where
  "read_response end_error s =
     (case wire_line s of
        None \<Rightarrow> ([], Inl end_error)
      | Some (line, rest) \<Rightarrow>
          (case parse_code_line line of
             (code, cont, msg, ok) \<Rightarrow>
               if cont then
                 (case read_more code msg rest of
                    None \<Rightarrow> ([], Inl end_error)
                  | Some (text, rest') \<Rightarrow> (rest', Inr (code, text)))
               else if ok then (rest, Inr (code, msg))
               else (rest, Inl (invalid_reply line))))"

text \<open>Every line gets its code back, with a hyphen on all but the last.\<close>
fun code_lines :: "nat \<Rightarrow> string list \<Rightarrow> string list" where
  "code_lines code [] = []"
| "code_lines code [l] = [show_nat code @ '' '' @ l]"
| "code_lines code (l # m # ms) = (show_nat code @ ''-'' @ l) # code_lines code (m # ms)"

text \<open>\<^verbatim>\<open>readCode\<close>\<close>
definition read_code :: "wire \<Rightarrow> wire \<times> (derror + nat \<times> string)" where
  "read_code w =
     (case read_response (wr_end w) (wr_input w) of
        (rest, Inl e) \<Rightarrow> (w\<lparr>wr_input := rest\<rparr>, Inl e)
      | (rest, Inr (code, msg)) \<Rightarrow>
          (w\<lparr>wr_input := rest, wr_log := wr_log w @ [Got code]\<rparr>, Inr (code, join [LF] (code_lines code (split_on LF msg)))))"

definition reply_error :: "nat \<Rightarrow> string \<Rightarrow> derror" where
  "reply_error code line =
     SmtpError \<lparr>sr_stage = StageNone, sr_enhanced = response_enhanced_status code line, sr_code = code, sr_line = line\<rparr>"

definition read_expected :: "(nat \<Rightarrow> bool) \<Rightarrow> wire \<Rightarrow> wire \<times> derror option" where
  "read_expected ok w =
     (case read_code w of
        (w', Inl e) \<Rightarrow> (w', Some e)
      | (w', Inr (code, line)) \<Rightarrow> (w', if ok code then None else Some (reply_error code line)))"

definition is_2xx :: "nat \<Rightarrow> bool" where "is_2xx code \<longleftrightarrow> 200 \<le> code \<and> code \<le> 299"
definition is_2xx3xx :: "nat \<Rightarrow> bool" where "is_2xx3xx code \<longleftrightarrow> 200 \<le> code \<and> code \<le> 399"

text \<open>\<^verbatim>\<open>expect2xx\<close>, \<^verbatim>\<open>expect2xx3xx\<close>, \<^verbatim>\<open>expectCode\<close>\<close>
definition expect_2xx :: "wire \<Rightarrow> wire \<times> derror option" where
  "expect_2xx = read_expected is_2xx"

definition expect_2xx3xx :: "wire \<Rightarrow> wire \<times> derror option" where
  "expect_2xx3xx = read_expected is_2xx3xx"

definition expect_code :: "nat \<Rightarrow> wire \<Rightarrow> wire \<times> derror option" where
  "expect_code n = read_expected (\<lambda>code. code = n)"

text \<open>\<^verbatim>\<open>readLines\<close>\<close>
definition read_lines :: "wire \<Rightarrow> wire \<times> (derror + string list)" where
  "read_lines w =
     (case read_code w of
        (w', Inl e) \<Rightarrow> (w', Inl e)
      | (w', Inr (code, line)) \<Rightarrow>
          (w', if code < 200 \<or> 399 < code then Inl (reply_error code line) else Inr (split_on LF line)))"

section \<open>Extensions\<close>

text \<open>The text of an EHLO line without its code\<close>
definition ehlo_text :: "string \<Rightarrow> string" where
  "ehlo_text l =
     (let line = trim_space l in
      if 4 \<le> length line \<and> list_all is_digit (take 3 line) \<and> (line ! 3 = CHR '' '' \<or> line ! 3 = CHR ''-'')
      then drop 4 line else line)"

definition supports_auth_plain :: "string list \<Rightarrow> bool" where
  "supports_auth_plain ls =
     list_ex (\<lambda>l. case split_fields (ehlo_text l) of
                    verb # m # ms \<Rightarrow> equal_fold verb ''AUTH'' \<and> list_ex (\<lambda>x. equal_fold x ''PLAIN'') (m # ms)
                  | _ \<Rightarrow> False) ls"

definition supports_extension :: "string list \<Rightarrow> string \<Rightarrow> bool" where
  "supports_extension ls ext =
     list_ex (\<lambda>l. case split_fields (ehlo_text l) of
                    [] \<Rightarrow> False | verb # _ \<Rightarrow> equal_fold verb (to_upper (trim_space ext))) ls"

definition offers_starttls :: "string list \<Rightarrow> bool" where
  "offers_starttls ls = list_ex (\<lambda>l. contains_str (to_upper l) ''STARTTLS'') ls"

section \<open>What reading and writing do\<close>

named_theorems wire_simps "what the operations of the wire keep and log"

lemma wire_send_cases:
  obtains (sent) "wr_fails w (wr_writes w) = None"
      "wire_send w s = (w\<lparr>wr_writes := wr_writes w + 1, wr_log := wr_log w @ [Sent (wr_tls w) s]\<rparr>, None)"
    | (broken) e where "wr_fails w (wr_writes w) = Some e"
      "wire_send w s = (w\<lparr>wr_writes := wr_writes w + 1, wr_log := wr_log w @ [Broken (wr_tls w) s]\<rparr>, Some e)"
  by (cases "wr_fails w (wr_writes w)") (auto simp: wire_send_def)

lemma wire_send_keeps [wire_simps]:
  "wr_input (fst (wire_send w s)) = wr_input w" "wr_end (fst (wire_send w s)) = wr_end w"
  "wr_tls (fst (wire_send w s)) = wr_tls w" "wr_certs (fst (wire_send w s)) = wr_certs w"
  "wr_handshake (fst (wire_send w s)) = wr_handshake w" "wr_fails (fst (wire_send w s)) = wr_fails w"
  by (cases rule: wire_send_cases [of w s]; simp)+

lemma wire_send_log [wire_simps]:
  "wr_log (fst (wire_send w s)) =
     wr_log w @ [if snd (wire_send w s) = None then Sent (wr_tls w) s else Broken (wr_tls w) s]"
  by (cases rule: wire_send_cases [of w s]) simp_all

lemma read_code_cases:
  obtains (failed) rest e where "read_code w = (w\<lparr>wr_input := rest\<rparr>, Inl e)"
    | (got) rest code line where "read_code w = (w\<lparr>wr_input := rest, wr_log := wr_log w @ [Got code]\<rparr>, Inr (code, line))"
  by (cases "read_response (wr_end w) (wr_input w)"; cases "snd (read_response (wr_end w) (wr_input w))")
     (auto simp: read_code_def)

lemma read_expected_cases:
  obtains (failed) rest e where "read_expected ok w = (w\<lparr>wr_input := rest\<rparr>, Some e)" "read_code w = (w\<lparr>wr_input := rest\<rparr>, Inl e)"
    | (accepted) rest code where "ok code"
      "read_expected ok w = (w\<lparr>wr_input := rest, wr_log := wr_log w @ [Got code]\<rparr>, None)"
    | (refused) rest code line where "\<not> ok code"
      "read_expected ok w = (w\<lparr>wr_input := rest, wr_log := wr_log w @ [Got code]\<rparr>, Some (reply_error code line))"
proof (cases rule: read_code_cases [of w])
  case (failed rest e)
  then show ?thesis by (intro that(1)) (simp_all add: read_expected_def)
next
  case (got rest code line)
  then show ?thesis
    by (cases "ok code") (auto simp: read_expected_def intro: that(2) that(3))
qed

lemma read_expected_keeps [wire_simps]:
  "wr_end (fst (read_expected ok w)) = wr_end w" "wr_tls (fst (read_expected ok w)) = wr_tls w"
  "wr_certs (fst (read_expected ok w)) = wr_certs w" "wr_handshake (fst (read_expected ok w)) = wr_handshake w"
  "wr_fails (fst (read_expected ok w)) = wr_fails w" "wr_writes (fst (read_expected ok w)) = wr_writes w"
  by (cases rule: read_expected_cases [of ok w]; simp)+

lemma read_lines_cases:
  obtains (failed) rest e where "read_lines w = (w\<lparr>wr_input := rest\<rparr>, Inl e)"
    | (refused) rest code line where
      "read_lines w = (w\<lparr>wr_input := rest, wr_log := wr_log w @ [Got code]\<rparr>, Inl (reply_error code line))"
    | (lines) rest code ls where "is_2xx3xx code"
      "read_lines w = (w\<lparr>wr_input := rest, wr_log := wr_log w @ [Got code]\<rparr>, Inr ls)"
proof (cases rule: read_code_cases [of w])
  case (failed rest e)
  then show ?thesis by (intro that(1)) (simp add: read_lines_def)
next
  case (got rest code line)
  then show ?thesis
    by (cases "code < 200 \<or> 399 < code")
       (simp_all add: read_lines_def that(2) that(3) [of code rest "split_on LF line"] is_2xx3xx_def)
qed

text \<open>A reply that is read has a code of three digits.\<close>
lemma parse_code_line_range: "parse_code_line line = (code, cont, msg, True) \<Longrightarrow> 100 \<le> code"
  by (auto simp: parse_code_line_def Let_def split: if_splits)

text \<open>The error of a read is the end of the connection or an invalid reply.\<close>
lemma read_response_error:
  "read_response e s = (rest, Inl e') \<Longrightarrow> e' = e \<or> (\<exists>line. e' = invalid_reply line)"
  by (auto simp: read_response_def split: option.splits prod.splits if_splits)

lemma read_code_error:
  "read_code w = (w', Inl e) \<Longrightarrow> e = wr_end w \<or> (\<exists>line. e = invalid_reply line)"
  using read_response_error [of "wr_end w" "wr_input w"] by (auto simp: read_code_def split: prod.splits sum.splits)

end
