(* ===== verification/Client_Session.thy ===== *)
theory Client_Session
  imports Client_Io Message
begin

text \<open>
  A session of the delivery client with one server (\<^verbatim>\<open>internal/delivery/smtp_client.go\<close>, the session of
  \<^verbatim>\<open>smtp_pool.go\<close>): opening the connection with greeting, EHLO, STARTTLS and AUTH (\<^verbatim>\<open>openSMTPSession\<close>), and one mail
  transaction on it (\<^verbatim>\<open>deliverTransaction\<close>). The resolver, the dialler and the signing of the message are
  parameters. Deadlines show as the error at the end of the input of a connection.
\<close>

section \<open>Sessions\<close>

record pool_key =
  pk_host :: string
  pk_port :: int
  pk_source :: string
  pk_ehlo :: string
  pk_auth :: string
  pk_policy :: string

record smtp_session =
  ses_wire :: wire
  ses_created :: time
  ses_idle_since :: time
  ses_deliveries :: int
  ses_dsn :: bool
  ses_tls :: bool
  ses_require_tls :: bool
  ses_key :: pool_key

record relay_auth =
  rl_username :: string
  rl_password :: string

definition no_auth :: relay_auth where
  "no_auth = \<lparr>rl_username = [], rl_password = []\<rparr>"

text \<open>The network: \<^verbatim>\<open>resolveHostFn\<close> where it is set, and the dialler with the local address, the address and the port\<close>
record network =
  nt_resolve :: "(string \<Rightarrow> derror + string list) option"
  nt_dial :: "string \<Rightarrow> string \<Rightarrow> int \<Rightarrow> derror + wire"
  nt_crypto :: crypto

definition stage_response :: "smtp_stage \<Rightarrow> nat \<Rightarrow> string \<Rightarrow> derror" where
  "stage_response st code line = SmtpError \<lparr>sr_stage = st, sr_enhanced = [], sr_code = code, sr_line = line\<rparr>"

section \<open>Opening a session\<close>

definition is_v4_text :: "string \<Rightarrow> bool" where
  "is_v4_text s \<longleftrightarrow> (case parse_ip s of Some a \<Rightarrow> ip_to4 a \<noteq> None | None \<Rightarrow> False)"

text \<open>A source address and a destination of different families\<close>
definition family_mismatch :: "string \<Rightarrow> string \<Rightarrow> bool" where
  "family_mismatch source address \<longleftrightarrow> source \<noteq> [] \<and> parse_ip address \<noteq> None \<and> is_v4_text source \<noteq> is_v4_text address"

text \<open>The addresses in turn: the connection, or the last error\<close>
fun dial_any :: "network \<Rightarrow> pool_key \<Rightarrow> string list \<Rightarrow> derror option \<Rightarrow> derror option + wire" where
  "dial_any nt key [] err = Inl err"
| "dial_any nt key (a # as) err =
     (if family_mismatch (pk_source key) a then dial_any nt key as err
      else (case nt_dial nt (pk_source key) a (pk_port key) of
              Inr w \<Rightarrow> Inr w
            | Inl e \<Rightarrow> dial_any nt key as (Some e)))"

definition dial_addresses :: "network \<Rightarrow> pool_key \<Rightarrow> derror + string list" where
  "dial_addresses nt key =
     (case nt_resolve nt of
        Some resolve \<Rightarrow>
          if parse_ip (pk_host key) = None then
            (case resolve (pk_host key) of
               Inl e \<Rightarrow> Inl (at_stage StageDNS e)
             | Inr as \<Rightarrow> if as = [] then Inl (at_stage StageDNS (OtherError ''address lookup returned no results'')) else Inr as)
          else Inr [pk_host key]
      | None \<Rightarrow> Inr [pk_host key])"

definition client_dial :: "network \<Rightarrow> pool_key \<Rightarrow> derror + wire" where
  "client_dial nt key =
     (case dial_addresses nt key of
        Inl e \<Rightarrow> Inl e
      | Inr as \<Rightarrow>
          (case dial_any nt key as None of
             Inr w \<Rightarrow> Inr w
           | Inl (Some e) \<Rightarrow> Inl (at_stage StageConnect e)
           | Inl None \<Rightarrow> Inl (at_stage StageConnect (OtherError ''egress source and destination address families do not match''))))"

definition client_ehlo :: "string \<Rightarrow> wire \<Rightarrow> wire \<times> (derror + string list)" where
  "client_ehlo ehlo w =
     (case send_line w (''EHLO '' @ ehlo) of
        (w1, Some e) \<Rightarrow> (w1, Inl (at_stage StageEHLO e))
      | (w1, None) \<Rightarrow>
          (case read_lines w1 of
             (w2, Inl e) \<Rightarrow> (w2, Inl (at_stage StageEHLO e))
           | (w2, Inr ls) \<Rightarrow> (w2, Inr ls)))"

definition client_greet :: "string \<Rightarrow> wire \<Rightarrow> wire \<times> (derror + string list)" where
  "client_greet ehlo w =
     (case expect_code 220 w of
        (w1, Some e) \<Rightarrow> (w1, Inl (at_stage StageGreeting e))
      | (w1, None) \<Rightarrow> client_ehlo ehlo w1)"

text \<open>
  After a successful handshake the client forgets what it had read in the clear and greets again. The result is
  what the server announced last and whether TLS is active.
\<close>
definition client_handshake :: "network \<Rightarrow> pool_key \<Rightarrow> bool \<Rightarrow> dane_result option \<Rightarrow> wire \<Rightarrow> wire \<times> (derror + string list \<times> bool)" where
  "client_handshake nt key require dane w =
     (case wr_handshake w of
        Inl e \<Rightarrow> (w, Inl (if require then stage_response StageTLS 454 ''starttls handshake failed'' else at_stage StageTLS e))
      | Inr input \<Rightarrow>
          if (case dane of None \<Rightarrow> False | Some d \<Rightarrow> \<not> verify_tlsa (nt_crypto nt) (pk_host key) (wr_certs w) (dn_records d))
          then (w, Inl (stage_response StageTLS 550 ''dane authentication failed''))
          else (case client_ehlo (pk_ehlo key) (w\<lparr>wr_input := input, wr_tls := True\<rparr>) of
                  (w1, Inl e) \<Rightarrow> (w1, Inl e)
                | (w1, Inr ls) \<Rightarrow> (w1, Inr (ls, True))))"

definition client_starttls :: "network \<Rightarrow> pool_key \<Rightarrow> bool \<Rightarrow> dane_result option \<Rightarrow> string list \<Rightarrow> wire \<Rightarrow> wire \<times> (derror + string list \<times> bool)" where
  "client_starttls nt key require dane ls w =
     (if \<not> offers_starttls ls then
        (w, if require then Inl (stage_response StageTLS 454 ''mta-sts enforce requires starttls'') else Inr (ls, False))
      else (case send_line w ''STARTTLS'' of
              (w1, Some e) \<Rightarrow> (w1, Inl (at_stage StageTLS e))
            | (w1, None) \<Rightarrow>
                (case read_code w1 of
                   (w2, Inl e) \<Rightarrow> (w2, Inl (at_stage StageTLS e))
                 | (w2, Inr (code, line)) \<Rightarrow>
                     if code = 220 then client_handshake nt key require dane w2
                     else if require then (w2, Inl (at_stage StageTLS (reply_error code line)))
                     else (w2, Inr (ls, False)))))"

definition auth_payload :: "relay_auth \<Rightarrow> string" where
  "auth_payload auth = b64_encode ([CHR 0x00] @ rl_username auth @ [CHR 0x00] @ rl_password auth)"

definition client_auth :: "relay_auth \<Rightarrow> string list \<Rightarrow> bool \<Rightarrow> wire \<Rightarrow> wire \<times> derror option" where
  "client_auth auth ls tls w =
     (if rl_username auth = [] then (w, None)
      else if \<not> tls then (w, Some (stage_response StageTLS 454 ''relay authentication requires verified TLS''))
      else if \<not> supports_auth_plain ls then (w, Some (stage_response StageAUTH 504 ''relay does not advertise AUTH PLAIN''))
      else (case send_line w (''AUTH PLAIN '' @ auth_payload auth) of
              (w1, Some e) \<Rightarrow> (w1, Some (at_stage StageAUTH e))
            | (w1, None) \<Rightarrow>
                (case read_code w1 of
                   (w2, Inl e) \<Rightarrow> (w2, Some (at_stage StageAUTH e))
                 | (w2, Inr (code, line)) \<Rightarrow>
                     (w2, if code = 235 then None
                          else Some (SmtpError \<lparr>sr_stage = StageAUTH, sr_enhanced = response_enhanced_status code line,
                                                sr_code = code, sr_line = line\<rparr>)))))"

text \<open>The dialogue on a new connection\<close>
definition client_hello :: "network \<Rightarrow> pool_key \<Rightarrow> relay_auth \<Rightarrow> bool \<Rightarrow> dane_result option \<Rightarrow> wire \<Rightarrow> wire \<times> (derror + string list \<times> bool)" where
  "client_hello nt key auth require dane w =
     (case client_greet (pk_ehlo key) w of
        (w1, Inl e) \<Rightarrow> (w1, Inl e)
      | (w1, Inr ls) \<Rightarrow>
          (case client_starttls nt key require dane ls w1 of
             (w2, Inl e) \<Rightarrow> (w2, Inl e)
           | (w2, Inr (ls', tls)) \<Rightarrow>
               (case client_auth auth ls' tls w2 of
                  (w3, Some e) \<Rightarrow> (w3, Inl e)
                | (w3, None) \<Rightarrow> (w3, Inr (ls', tls)))))"

text \<open>\<^verbatim>\<open>openSMTPSession\<close>: the connection as it was left, if there was one, and the session or the error\<close>
definition open_smtp_session :: "network \<Rightarrow> pool_key \<Rightarrow> relay_auth \<Rightarrow> bool \<Rightarrow> dane_result option \<Rightarrow> time
    \<Rightarrow> wire option \<times> (derror + smtp_session)" where
  "open_smtp_session nt key auth require dane t =
     (case client_dial nt key of
        Inl e \<Rightarrow> (None, Inl e)
      | Inr w \<Rightarrow>
          (case client_hello nt key auth require dane w of
             (w1, Inl e) \<Rightarrow> (Some w1, Inl e)
           | (w1, Inr (ls, tls)) \<Rightarrow>
               (Some w1, Inr \<lparr>ses_wire = w1, ses_created = t, ses_idle_since = zero_time, ses_deliveries = 0,
                  ses_dsn = supports_extension ls ''DSN'', ses_tls = tls,
                  ses_require_tls = supports_extension ls ''REQUIRETLS'', ses_key = key\<rparr>)))"

section \<open>A transaction\<close>

definition mail_command :: "smtp_session \<Rightarrow> message \<Rightarrow> string" where
  "mail_command ses msg =
     ''MAIL FROM:<'' @ mail_from msg @ ''>'' @ (if require_tls msg then '' REQUIRETLS'' else []) @
     (case m_dsn msg of
        Some dsn \<Rightarrow>
          if ses_dsn ses then (if dsn_return dsn \<noteq> [] then '' RET='' @ dsn_return dsn else []) @
            (if envelope_id dsn \<noteq> [] then '' ENVID='' @ envelope_id dsn else []) else []
      | None \<Rightarrow> [])"

definition rcpt_command :: "bool \<Rightarrow> message \<Rightarrow> string \<Rightarrow> string" where
  "rcpt_command dsn_supported msg rcpt =
     ''RCPT TO:<'' @ rcpt @ ''>'' @
     (case m_dsn msg of
        Some dsn \<Rightarrow>
          (case map_of (dsn_recipients dsn) rcpt of
             Some o' \<Rightarrow>
               if dsn_supported then (if notify o' \<noteq> [] then '' NOTIFY='' @ join '','' (notify o') else []) @
                 (if original_recipient o' \<noteq> [] then '' ORCPT='' @ original_recipient o' else []) else []
           | None \<Rightarrow> [])
      | None \<Rightarrow> [])"

text \<open>\<^verbatim>\<open>resetSession\<close> and \<^verbatim>\<open>reusableAfterReject\<close>\<close>
definition reset_session :: "wire \<Rightarrow> wire \<times> bool" where
  "reset_session w =
     (case send_line w ''RSET'' of
        (w1, Some e) \<Rightarrow> (w1, False)
      | (w1, None) \<Rightarrow> (case expect_2xx w1 of (w2, err) \<Rightarrow> (w2, err = None)))"

definition reusable_after_reject :: "wire \<Rightarrow> derror \<Rightarrow> wire \<times> bool" where
  "reusable_after_reject w e =
     (case as_smtp e of
        Some r \<Rightarrow> if sr_code r = 421 then (w, False) else reset_session w
      | None \<Rightarrow> reset_session w)"

definition reject_with :: "wire \<Rightarrow> derror \<Rightarrow> derror \<Rightarrow> wire \<times> bool \<times> derror option" where
  "reject_with w e err = (case reusable_after_reject w e of (w1, ok) \<Rightarrow> (w1, ok, Some err))"

text \<open>The body and the final reply. The three writes of the code fail with the same error.\<close>
definition send_body :: "wire \<Rightarrow> string \<Rightarrow> wire \<times> bool \<times> derror option" where
  "send_body w payload =
     (case wire_send w (dot_stuff payload @ end_of_data) of
        (w1, Some e) \<Rightarrow> (w1, False, Some (at_stage StageDATA e))
      | (w1, None) \<Rightarrow>
          (case expect_2xx w1 of
             (w2, Some e) \<Rightarrow>
               (w2, False, Some (if is_eof e \<or> is_network e then StatusUnknown (at_stage StageDATA e)
                                 else Wrapped ''final delivery reject: '' (at_stage StageDATA e)))
           | (w2, None) \<Rightarrow> (w2, True, None)))"

definition send_data :: "(message \<Rightarrow> derror + string) \<Rightarrow> message \<Rightarrow> wire \<Rightarrow> wire \<times> bool \<times> derror option" where
  "send_data prepare msg w =
     (case send_line w ''DATA'' of
        (w1, Some e) \<Rightarrow> (w1, False, Some (at_stage StageDATA e))
      | (w1, None) \<Rightarrow>
          (case expect_code 354 w1 of
             (w2, Some e) \<Rightarrow> reject_with w2 e (Wrapped ''data not accepted: '' (at_stage StageDATA e))
           | (w2, None) \<Rightarrow>
               (case prepare msg of
                  Inl e \<Rightarrow> (case reset_session w2 of (w3, ok) \<Rightarrow> (w3, ok, Some e))
                | Inr payload \<Rightarrow> send_body w2 payload)))"

definition send_rcpt :: "(message \<Rightarrow> derror + string) \<Rightarrow> bool \<Rightarrow> message \<Rightarrow> string \<Rightarrow> wire \<Rightarrow> wire \<times> bool \<times> derror option" where
  "send_rcpt prepare dsn_supported msg rcpt w =
     (case send_line w (rcpt_command dsn_supported msg rcpt) of
        (w1, Some e) \<Rightarrow> (w1, False, Some (at_stage StageRCPT e))
      | (w1, None) \<Rightarrow>
          (case expect_2xx3xx w1 of
             (w2, Some e) \<Rightarrow> reject_with w2 e (Wrapped ''rcpt rejected: '' (at_stage StageRCPT e))
           | (w2, None) \<Rightarrow> send_data prepare msg w2))"

text \<open>\<^verbatim>\<open>deliverTransaction\<close>: the connection afterwards, whether it can be used again, and the error\<close>
definition deliver_transaction :: "(message \<Rightarrow> derror + string) \<Rightarrow> smtp_session \<Rightarrow> message \<Rightarrow> string \<Rightarrow> wire \<times> bool \<times> derror option" where
  "deliver_transaction prepare ses msg rcpt =
     (let w = ses_wire ses in
      if require_tls msg \<and> (\<not> ses_tls ses \<or> \<not> ses_require_tls ses)
      then (w, False, Some (stage_response StageTLS 550 ''5.7.30 REQUIRETLS support unavailable''))
      else (case send_line w (mail_command ses msg) of
              (w1, Some e) \<Rightarrow> (w1, False, Some (at_stage StageMAIL e))
            | (w1, None) \<Rightarrow>
                (case expect_2xx w1 of
                   (w2, Some e) \<Rightarrow> reject_with w2 e (Wrapped ''mail from rejected: '' (at_stage StageMAIL e))
                 | (w2, None) \<Rightarrow> send_rcpt prepare (ses_dsn ses) msg rcpt w2)))"

end
