(* ===== verification/Connection_Pool.thy ===== *)
theory Connection_Pool
  imports Client_Session "HOL-Library.AList" "HOL-Library.Multiset"
begin

text \<open>
  The pool of outbound connections (\<^verbatim>\<open>internal/delivery/smtp_pool.go\<close>) and the validation of its configuration
  (\<^verbatim>\<open>internal/config/smtp_connection_pool.go\<close>).

  The buffered channels that serve as semaphores are the number of their elements: one per key and one for
  all connections, and the channel \<^verbatim>\<open>changed\<close> of capacity one that wakes a waiting caller is a flag. A
  connection carries a number that names it. The operations below are the sections a caller runs without
  interruption; \<open>pool_step\<close> lets any number of callers run them in any order.
\<close>

section \<open>Configuration\<close>

record pool_config =
  pc_enabled :: bool
  pc_max :: int
  pc_max_key :: int
  pc_max_idle :: int
  pc_max_idle_key :: int
  pc_idle_timeout :: duration
  pc_max_lifetime :: duration
  pc_max_deliveries :: int

text \<open>\<^verbatim>\<open>defaultSMTPConnectionPoolConfig\<close>\<close>
definition default_pool_config :: pool_config where
  "default_pool_config =
     \<lparr>pc_enabled = False, pc_max = 64, pc_max_key = 4, pc_max_idle = 32, pc_max_idle_key = 2,
      pc_idle_timeout = 30 * second, pc_max_lifetime = 5 * minute, pc_max_deliveries = 100\<rparr>"

datatype pool_config_error = ConnectionLimits | IdleLimits | TimeLimits | DeliveryLimit

text \<open>\<^verbatim>\<open>Validate\<close>\<close>
definition pool_validate :: "pool_config \<Rightarrow> pool_config_error option" where
  "pool_validate c =
     (if pc_max c < 1 \<or> pc_max c > 100000 \<or> pc_max_key c < 1 \<or> pc_max_key c > pc_max c then Some ConnectionLimits
      else if pc_max_idle c < 0 \<or> pc_max_idle c > pc_max c \<or> pc_max_idle_key c < 0 \<or> pc_max_idle_key c > pc_max_key c then Some IdleLimits
      else if pc_idle_timeout c \<le> 0 \<or> pc_idle_timeout c > hour \<or> pc_max_lifetime c \<le> 0 \<or> pc_max_lifetime c > 24 * hour then Some TimeLimits
      else if pc_max_deliveries c < 1 \<or> pc_max_deliveries c > 1000000 then Some DeliveryLimit
      else None)"

section \<open>The pool\<close>

type_synonym pooled = "nat \<times> smtp_session"

record connection_pool =
  cp_cfg :: pool_config
  cp_idle :: "(pool_key \<times> pooled list) list"
  cp_keys :: "pool_key \<Rightarrow> nat"
  cp_total :: nat
  cp_changed :: bool
  cp_closed :: bool

text \<open>\<^verbatim>\<open>newSMTPConnectionPool\<close>\<close>
definition new_pool :: "pool_config \<Rightarrow> connection_pool option" where
  "new_pool cfg =
     (if \<not> pc_enabled cfg then None
      else Some \<lparr>cp_cfg = cfg, cp_idle = [], cp_keys = (\<lambda>_. 0), cp_total = 0, cp_changed = False, cp_closed = False\<rparr>)"

definition idle_of :: "connection_pool \<Rightarrow> pool_key \<Rightarrow> pooled list" where
  "idle_of p key = (case map_of (cp_idle p) key of None \<Rightarrow> [] | Some l \<Rightarrow> l)"

definition set_idle :: "pool_key \<Rightarrow> pooled list \<Rightarrow> connection_pool \<Rightarrow> connection_pool" where
  "set_idle key l p = p\<lparr>cp_idle := AList.update key l (cp_idle p)\<rparr>"

text \<open>\<^verbatim>\<open>idleCountLocked\<close>\<close>
definition idle_count :: "connection_pool \<Rightarrow> nat" where
  "idle_count p = sum_list (map (\<lambda>e. length (snd e)) (cp_idle p))"

text \<open>\<^verbatim>\<open>signalChanged\<close>\<close>
definition signal_changed :: "connection_pool \<Rightarrow> connection_pool" where
  "signal_changed p = p\<lparr>cp_changed := True\<rparr>"

text \<open>Receiving from the semaphores: one connection fewer\<close>
definition release_key :: "pool_key \<Rightarrow> connection_pool \<Rightarrow> connection_pool" where
  "release_key key p = p\<lparr>cp_keys := (cp_keys p)(key := cp_keys p key - 1)\<rparr>"

definition release_total :: "connection_pool \<Rightarrow> connection_pool" where
  "release_total p = p\<lparr>cp_total := cp_total p - 1\<rparr>"

text \<open>\<^verbatim>\<open>closeSessionLocked\<close>\<close>
definition close_session :: "connection_pool \<Rightarrow> pooled \<Rightarrow> connection_pool" where
  "close_session p s = signal_changed (release_total (release_key (ses_key (snd s)) p))"

section \<open>get\<close>

definition session_fresh :: "pool_config \<Rightarrow> time \<Rightarrow> pooled \<Rightarrow> bool" where
  "session_fresh cfg now s \<longleftrightarrow>
     time_sub now (ses_idle_since (snd s)) \<le> pc_idle_timeout cfg \<and>
     time_sub now (ses_created (snd s)) \<le> pc_max_lifetime cfg \<and> ses_deliveries (snd s) < pc_max_deliveries cfg"

text \<open>The loop over the idle sessions of the key, newest first\<close>
fun reuse_loop :: "connection_pool \<Rightarrow> pool_key \<Rightarrow> time \<Rightarrow> pooled list \<Rightarrow> connection_pool \<times> pooled option" where
  "reuse_loop p key now [] = (p, None)"
| "reuse_loop p key now (s # older) =
     (let p1 = set_idle key (rev older) p in
      if session_fresh (cp_cfg p) now s then (p1, Some s) else reuse_loop (close_session p1 s) key now older)"

datatype entered = PoolClosed | Reused pooled | NoIdle

text \<open>The section of \<^verbatim>\<open>get\<close> under the lock\<close>
definition pool_enter :: "connection_pool \<Rightarrow> pool_key \<Rightarrow> time \<Rightarrow> connection_pool \<times> entered" where
  "pool_enter p key now =
     (if cp_closed p then (p, PoolClosed)
      else (case reuse_loop p key now (rev (idle_of p key)) of
              (p', Some s) \<Rightarrow> (p', Reused s)
            | (p', None) \<Rightarrow> (p', NoIdle)))"

text \<open>The sends to the semaphores, which fail when the buffer is full\<close>
definition acquire_key :: "pool_key \<Rightarrow> connection_pool \<Rightarrow> connection_pool option" where
  "acquire_key key p =
     (if int (cp_keys p key) < pc_max_key (cp_cfg p) then Some (p\<lparr>cp_keys := (cp_keys p)(key := cp_keys p key + 1)\<rparr>) else None)"

definition acquire_total :: "connection_pool \<Rightarrow> connection_pool option" where
  "acquire_total p = (if int (cp_total p) < pc_max (cp_cfg p) then Some (p\<lparr>cp_total := cp_total p + 1\<rparr>) else None)"

text \<open>After a failed dial\<close>
definition dial_failed :: "pool_key \<Rightarrow> connection_pool \<Rightarrow> connection_pool" where
  "dial_failed key p = signal_changed (release_key key (release_total p))"

datatype got = GotSession pooled | GotError derror | GotClosed | GotWait

text \<open>
  One round of the loop of \<^verbatim>\<open>get\<close> without interference, with the number of a new connection and the outcome of
  the dial: \<open>GotWait\<close> when it waits for a change.
\<close>
definition pool_get :: "connection_pool \<Rightarrow> pool_key \<Rightarrow> time \<Rightarrow> nat \<Rightarrow> derror + smtp_session \<Rightarrow> connection_pool \<times> got" where
  "pool_get p key now n dial =
     (case pool_enter p key now of
        (p1, PoolClosed) \<Rightarrow> (p1, GotClosed)
      | (p1, Reused s) \<Rightarrow> (p1, GotSession s)
      | (p1, NoIdle) \<Rightarrow>
          (case acquire_key key p1 of
             None \<Rightarrow> (p1, GotWait)
           | Some p2 \<Rightarrow>
               (case acquire_total p2 of
                  None \<Rightarrow> (release_key key p2, GotWait)
                | Some p3 \<Rightarrow>
                    (case dial of
                       Inl e \<Rightarrow> (dial_failed key p3, GotError e)
                     | Inr s \<Rightarrow> (p3, GotSession (n, s\<lparr>ses_key := key\<rparr>))))))"

section \<open>put and Close\<close>

text \<open>\<^verbatim>\<open>put\<close>\<close>
definition pool_put :: "connection_pool \<Rightarrow> pooled \<Rightarrow> bool \<Rightarrow> time \<Rightarrow> connection_pool" where
  "pool_put p s0 reusable now =
     (let s = (fst s0, (snd s0)\<lparr>ses_deliveries := ses_deliveries (snd s0) + 1\<rparr>); cfg = cp_cfg p;
          key = ses_key (snd s); l = idle_of p key
      in if \<not> reusable \<or> cp_closed p \<or> time_sub now (ses_created (snd s)) \<ge> pc_max_lifetime cfg \<or>
            ses_deliveries (snd s) \<ge> pc_max_deliveries cfg \<or> int (length l) \<ge> pc_max_idle_key cfg \<or>
            int (idle_count p) \<ge> pc_max_idle cfg
         then close_session p s
         else signal_changed (set_idle key (l @ [(fst s, (snd s)\<lparr>ses_idle_since := now\<rparr>)]) p))"

text \<open>\<^verbatim>\<open>Close\<close>\<close>
definition pool_close :: "connection_pool \<Rightarrow> connection_pool" where
  "pool_close p =
     signal_changed ((foldl close_session (p\<lparr>cp_closed := True\<rparr>) (concat (map snd (cp_idle p))))\<lparr>cp_idle := []\<rparr>)"

section \<open>Callers\<close>

text \<open>
  Where a caller is: outside, at the head of the loop of \<^verbatim>\<open>get\<close>, before each of the two semaphores,
  dialling, waiting for a change, or using a session.
\<close>
datatype caller =
    Outside
  | AtHead pool_key
  | WantsKey pool_key
  | WantsTotal pool_key
  | Dialling pool_key
  | Waits pool_key
  | Uses pooled

type_synonym pool_state = "connection_pool \<times> caller list \<times> nat"

inductive pool_step :: "pool_state \<Rightarrow> pool_state \<Rightarrow> bool" where
  call: "i < length cs \<Longrightarrow> cs ! i = Outside \<Longrightarrow> pool_step (p, cs, n) (p, cs[i := AtHead key], n)"
| refused: "i < length cs \<Longrightarrow> cs ! i = AtHead key \<Longrightarrow> pool_enter p key now = (p', PoolClosed) \<Longrightarrow>
    pool_step (p, cs, n) (p', cs[i := Outside], n)"
| reuse: "i < length cs \<Longrightarrow> cs ! i = AtHead key \<Longrightarrow> pool_enter p key now = (p', Reused s) \<Longrightarrow>
    pool_step (p, cs, n) (p', cs[i := Uses s], n)"
| no_idle: "i < length cs \<Longrightarrow> cs ! i = AtHead key \<Longrightarrow> pool_enter p key now = (p', NoIdle) \<Longrightarrow>
    pool_step (p, cs, n) (p', cs[i := WantsKey key], n)"
| key_taken: "i < length cs \<Longrightarrow> cs ! i = WantsKey key \<Longrightarrow> acquire_key key p = Some p' \<Longrightarrow>
    pool_step (p, cs, n) (p', cs[i := WantsTotal key], n)"
| key_full: "i < length cs \<Longrightarrow> cs ! i = WantsKey key \<Longrightarrow> acquire_key key p = None \<Longrightarrow>
    pool_step (p, cs, n) (p, cs[i := Waits key], n)"
| total_taken: "i < length cs \<Longrightarrow> cs ! i = WantsTotal key \<Longrightarrow> acquire_total p = Some p' \<Longrightarrow>
    pool_step (p, cs, n) (p', cs[i := Dialling key], n)"
| total_full: "i < length cs \<Longrightarrow> cs ! i = WantsTotal key \<Longrightarrow> acquire_total p = None \<Longrightarrow>
    pool_step (p, cs, n) (release_key key p, cs[i := Waits key], n)"
| dialled: "i < length cs \<Longrightarrow> cs ! i = Dialling key \<Longrightarrow>
    pool_step (p, cs, n) (p, cs[i := Uses (n, s\<lparr>ses_key := key\<rparr>)], n + 1)"
| not_dialled: "i < length cs \<Longrightarrow> cs ! i = Dialling key \<Longrightarrow>
    pool_step (p, cs, n) (dial_failed key p, cs[i := Outside], n)"
| woken: "i < length cs \<Longrightarrow> cs ! i = Waits key \<Longrightarrow> cp_changed p \<Longrightarrow>
    pool_step (p, cs, n) (p\<lparr>cp_changed := False\<rparr>, cs[i := AtHead key], n)"
| gave_up: "i < length cs \<Longrightarrow> cs ! i = Waits key \<Longrightarrow> pool_step (p, cs, n) (p, cs[i := Outside], n)"
| works: "i < length cs \<Longrightarrow> cs ! i = Uses (c, s) \<Longrightarrow> ses_key s' = ses_key s \<Longrightarrow>
    pool_step (p, cs, n) (p, cs[i := Uses (c, s')], n)"
| returned: "i < length cs \<Longrightarrow> cs ! i = Uses s \<Longrightarrow>
    pool_step (p, cs, n) (pool_put p s reusable now, cs[i := Outside], n)"
| shut: "pool_step (p, cs, n) (pool_close p, cs, n)"

definition pool_run :: "pool_config \<Rightarrow> nat \<Rightarrow> pool_state \<Rightarrow> bool" where
  "pool_run cfg callers s \<longleftrightarrow>
     (\<exists>p. new_pool cfg = Some p \<and> pool_step\<^sup>*\<^sup>* (p, replicate callers Outside, 0) s)"

end
