(* ===== verification/Pool_Claims.thy ===== *)
theory Pool_Claims
  imports Connection_Pool
begin

text \<open>
  The invariant of the connection pool over all interleavings of its callers: the semaphores count exactly
  the connections that are open, the limits hold, and no connection is in two places.
\<close>

section \<open>Counting\<close>

lemma sum_list_update_eq:
  fixes f :: "'a \<Rightarrow> 'b :: comm_monoid_add"
  assumes "i < length xs"
  shows "sum_list (map f (xs[i := x])) + f (xs ! i) = sum_list (map f xs) + f x"
  using assms
proof (induction xs arbitrary: i)
  case (Cons y ys)
  then show ?case by (cases i) (auto simp: ac_simps)
qed simp

definition idle_sessions :: "connection_pool \<Rightarrow> pooled multiset" where
  "idle_sessions p = mset (concat (map snd (cp_idle p)))"

lemma mset_update: "mset (concat (map snd (AList.update k l xs))) + mset (case map_of xs k of None \<Rightarrow> [] | Some l \<Rightarrow> l)
    = mset (concat (map snd xs)) + mset l"
  by (induction xs) auto

lemma idle_sessions_update: "idle_sessions (set_idle k l p) + mset (idle_of p k) = idle_sessions p + mset l"
  using mset_update [of k l "cp_idle p"] by (simp add: idle_sessions_def set_idle_def idle_of_def)

lemma idle_count_size: "idle_count p = size (idle_sessions p)"
  by (simp add: idle_count_def idle_sessions_def length_concat comp_def)

lemma idle_of_set: "idle_of (set_idle k l p) k' = (if k' = k then l else idle_of p k')"
  by (simp add: idle_of_def set_idle_def update_conv')

section \<open>The invariant\<close>

text \<open>What a caller holds: a slot of a key, a slot of the total, a connection\<close>
fun holds_key :: "pool_key \<Rightarrow> caller \<Rightarrow> nat" where
  "holds_key k (WantsTotal k') = of_bool (k' = k)"
| "holds_key k (Dialling k') = of_bool (k' = k)"
| "holds_key k (Uses s) = of_bool (ses_key (snd s) = k)"
| "holds_key k _ = 0"

fun holds_total :: "caller \<Rightarrow> nat" where
  "holds_total (Dialling k) = 1"
| "holds_total (Uses s) = 1"
| "holds_total _ = 0"

fun holds_connection :: "caller \<Rightarrow> nat multiset" where
  "holds_connection (Uses s) = {#fst s#}"
| "holds_connection _ = {#}"

definition connections :: "connection_pool \<Rightarrow> caller list \<Rightarrow> nat multiset" where
  "connections p cs = sum_list (map holds_connection cs) + image_mset fst (idle_sessions p)"

definition pool_shape :: "connection_pool \<Rightarrow> bool" where
  "pool_shape p \<longleftrightarrow>
     (\<forall>k. mset (idle_of p k) = filter_mset (\<lambda>s. ses_key (snd s) = k) (idle_sessions p)) \<and>
     (\<forall>k. int (cp_keys p k) \<le> pc_max_key (cp_cfg p) \<and> int (length (idle_of p k)) \<le> pc_max_idle_key (cp_cfg p)) \<and>
     int (cp_total p) \<le> pc_max (cp_cfg p) \<and> int (idle_count p) \<le> pc_max_idle (cp_cfg p)"

definition pool_inv :: "pool_config \<Rightarrow> pool_state \<Rightarrow> bool" where
  "pool_inv cfg s = (case s of (p, cs, n) \<Rightarrow>
     cp_cfg p = cfg \<and> pool_shape p \<and>
     (\<forall>k. cp_keys p k = sum_list (map (holds_key k) cs) + length (idle_of p k)) \<and>
     cp_total p = sum_list (map holds_total cs) + idle_count p \<and>
     (\<forall>c. count (connections p cs) c \<le> of_bool (c < n)))"

text \<open>
  A section of a caller that moves the slots and connections between the caller and the pool, none of them
  lost: from what it held to what it holds afterwards.
\<close>
definition moves :: "connection_pool \<Rightarrow> caller \<Rightarrow> connection_pool \<Rightarrow> caller \<Rightarrow> bool" where
  "moves p c p' c' \<longleftrightarrow>
     cp_cfg p' = cp_cfg p \<and> pool_shape p' \<and>
     (\<forall>k. cp_keys p' k + (holds_key k c + length (idle_of p k)) = cp_keys p k + (holds_key k c' + length (idle_of p' k))) \<and>
     cp_total p' + (holds_total c + idle_count p) = cp_total p + (holds_total c' + idle_count p') \<and>
     holds_connection c' + image_mset fst (idle_sessions p') \<subseteq># holds_connection c + image_mset fst (idle_sessions p)"

lemma moves_inv:
  assumes inv: "pool_inv cfg (p, cs, n)" and i: "i < length cs" and m: "moves p (cs ! i) p' c'"
  shows "pool_inv cfg (p', cs[i := c'], n)"
proof -
  note u = sum_list_update_eq [OF i, where x = c']
  have keys: "cp_keys p' k = sum_list (map (holds_key k) (cs[i := c'])) + length (idle_of p' k)" for k
  proof -
    have "cp_keys p' k + (holds_key k (cs ! i) + length (idle_of p k)) = cp_keys p k + (holds_key k c' + length (idle_of p' k))"
      using m by (simp add: moves_def)
    then show ?thesis using u [of "holds_key k"] inv by (simp add: pool_inv_def)
  qed
  have total: "cp_total p' = sum_list (map holds_total (cs[i := c'])) + idle_count p'"
  proof -
    have "cp_total p' + (holds_total (cs ! i) + idle_count p) = cp_total p + (holds_total c' + idle_count p')"
      using m by (simp add: moves_def)
    then show ?thesis using u [of holds_total] inv by (simp add: pool_inv_def)
  qed
  have "connections p' (cs[i := c']) + holds_connection (cs ! i) \<subseteq># connections p cs + holds_connection (cs ! i)"
  proof -
    have "connections p' (cs[i := c']) + holds_connection (cs ! i) =
        sum_list (map holds_connection cs) + (holds_connection c' + image_mset fst (idle_sessions p'))"
      using u [of holds_connection] by (simp add: connections_def ac_simps)
    also have "\<dots> \<subseteq># sum_list (map holds_connection cs) + (holds_connection (cs ! i) + image_mset fst (idle_sessions p))"
      using m by (simp add: moves_def)
    finally show ?thesis by (simp add: connections_def ac_simps)
  qed
  then have "connections p' (cs[i := c']) \<subseteq># connections p cs" by simp
  then have "count (connections p' (cs[i := c'])) c \<le> count (connections p cs) c" for c
    by (simp add: mset_subset_eq_count)
  moreover have "count (connections p cs) c \<le> of_bool (c < n)" for c using inv by (simp add: pool_inv_def)
  ultimately have "count (connections p' (cs[i := c'])) c \<le> of_bool (c < n)" for c by (rule order_trans)
  then show ?thesis using keys total inv m by (simp add: pool_inv_def moves_def)
qed

lemma moves_trans [trans]: "moves p c p' c' \<Longrightarrow> moves p' c' p'' c'' \<Longrightarrow> moves p c p'' c''"
proof -
  assume m: "moves p c p' c'" "moves p' c' p'' c''"
  have "cp_keys p'' k + (holds_key k c + length (idle_of p k)) = cp_keys p k + (holds_key k c'' + length (idle_of p'' k))" for k
  proof -
    have "cp_keys p' k + (holds_key k c + length (idle_of p k)) = cp_keys p k + (holds_key k c' + length (idle_of p' k))"
      "cp_keys p'' k + (holds_key k c' + length (idle_of p' k)) = cp_keys p' k + (holds_key k c'' + length (idle_of p'' k))"
      using m by (simp_all add: moves_def)
    then show ?thesis by linarith
  qed
  moreover have "cp_total p'' + (holds_total c + idle_count p) = cp_total p + (holds_total c'' + idle_count p'')"
    using m by (simp add: moves_def)
  ultimately show ?thesis using m by (auto simp: moves_def intro: subset_mset.order_trans)
qed

text \<open>The slots of a caller and of the idle connections are among those the semaphores count.\<close>
definition backed :: "connection_pool \<Rightarrow> caller \<Rightarrow> bool" where
  "backed p c \<longleftrightarrow>
     (\<forall>k. holds_key k c + length (idle_of p k) \<le> cp_keys p k) \<and> holds_total c + idle_count p \<le> cp_total p"

lemma moves_backed:
  assumes "moves p c p' c'" "backed p c"
  shows "backed p' c'"
proof -
  have "holds_key k c' + length (idle_of p' k) \<le> cp_keys p' k" for k
  proof -
    have "cp_keys p' k + (holds_key k c + length (idle_of p k)) = cp_keys p k + (holds_key k c' + length (idle_of p' k))"
      "holds_key k c + length (idle_of p k) \<le> cp_keys p k"
      using assms by (simp_all add: moves_def backed_def)
    then show ?thesis by linarith
  qed
  moreover have "holds_total c' + idle_count p' \<le> cp_total p'" using assms by (simp add: moves_def backed_def)
  ultimately show ?thesis by (simp add: backed_def)
qed

lemma inv_backed: "pool_inv cfg (p, cs, n) \<Longrightarrow> i < length cs \<Longrightarrow> backed p (cs ! i)"
  using elem_le_sum_list [of i "map (holds_key k) cs" for k] elem_le_sum_list [of i "map holds_total cs"]
  by (simp add: pool_inv_def backed_def)

section \<open>The sections\<close>

lemma idle_fields [simp]:
  "idle_of (signal_changed p) = idle_of p" "idle_sessions (signal_changed p) = idle_sessions p" "idle_count (signal_changed p) = idle_count p"
  "idle_of (release_key k p) = idle_of p" "idle_sessions (release_key k p) = idle_sessions p" "idle_count (release_key k p) = idle_count p"
  "idle_of (release_total p) = idle_of p" "idle_sessions (release_total p) = idle_sessions p" "idle_count (release_total p) = idle_count p"
  by (simp_all add: fun_eq_iff idle_of_def idle_sessions_def idle_count_def signal_changed_def release_key_def release_total_def)

lemma slot_fields [simp]:
  "cp_cfg (signal_changed p) = cp_cfg p" "cp_keys (signal_changed p) = cp_keys p" "cp_total (signal_changed p) = cp_total p"
  "cp_cfg (release_key k p) = cp_cfg p" "cp_keys (release_key k p) = (cp_keys p)(k := cp_keys p k - 1)" "cp_total (release_key k p) = cp_total p"
  "cp_cfg (release_total p) = cp_cfg p" "cp_keys (release_total p) = cp_keys p" "cp_total (release_total p) = cp_total p - 1"
  "cp_cfg (set_idle k l p) = cp_cfg p" "cp_keys (set_idle k l p) = cp_keys p" "cp_total (set_idle k l p) = cp_total p"
  by (simp_all add: signal_changed_def release_key_def release_total_def set_idle_def)

text \<open>Putting back and closing\<close>
lemma close_moves:
  assumes "pool_shape p" "backed p (Uses s)" "ses_key (snd s') = ses_key (snd s)"
  shows "moves p (Uses s) (close_session p s') Outside"
proof -
  have "1 \<le> cp_keys p (ses_key (snd s))" using assms(2) by (auto simp: backed_def dest!: spec [of _ "ses_key (snd s)"])
  with assms show ?thesis
    by (auto simp: moves_def close_session_def pool_shape_def backed_def) (smt (verit) of_nat_diff)+
qed

lemma keys_of_idle: "pool_shape p \<Longrightarrow> s \<in> set (idle_of p k) \<Longrightarrow> ses_key (snd s) = k"
  unfolding pool_shape_def by (metis (mono_tags, lifting) mem_Collect_eq set_mset_filter set_mset_mset)

lemma shape_set_idle:
  assumes "pool_shape p" "\<forall>s \<in> set l. ses_key (snd s) = k" "int (length l) \<le> pc_max_idle_key (cp_cfg p)"
    and "int (idle_count (set_idle k l p)) \<le> pc_max_idle (cp_cfg p)"
  shows "pool_shape (set_idle k l p)"
proof -
  have "mset (idle_of (set_idle k l p) k') = filter_mset (\<lambda>s. ses_key (snd s) = k') (idle_sessions (set_idle k l p))" for k'
  proof -
    let ?f = "filter_mset (\<lambda>s. ses_key (snd s) = k')"
    have old: "mset (idle_of p k') = ?f (idle_sessions p)" using assms(1) by (simp add: pool_shape_def)
    have sum: "?f (idle_sessions (set_idle k l p)) + ?f (mset (idle_of p k)) = ?f (idle_sessions p) + ?f (mset l)"
      by (metis filter_union_mset idle_sessions_update)
    have keyed: "?f (mset xs) = (if k' = k then mset xs else {#})" if "\<forall>s \<in> set xs. ses_key (snd s) = k" for xs
      using that by (auto simp flip: mset_filter)
    have "?f (mset (idle_of p k)) = (if k' = k then mset (idle_of p k) else {#})"
      using keys_of_idle [OF assms(1)] by (intro keyed) blast
    with keyed [OF assms(2)] sum show ?thesis using old by (auto simp: idle_of_set)
  qed
  with assms show ?thesis by (simp add: pool_shape_def idle_of_set)
qed

lemma backed_outside: "backed p (AtHead key) = backed p Outside"
  by (simp add: backed_def)

lemma moves_outside: "moves p c p' (AtHead key) = moves p c p' Outside" "moves p (AtHead key) p' c = moves p Outside p' c"
  "moves p c p' (WantsKey key) = moves p c p' Outside" "moves p (WantsKey key) p' c = moves p Outside p' c"
  "moves p c p' (Waits key) = moves p c p' Outside" "moves p (Waits key) p' c = moves p Outside p' c"
  by (simp_all add: moves_def)

lemma pop_moves:
  assumes "pool_shape p" "idle_of p key = older @ [s]"
  shows "moves p Outside (set_idle key older p) (Uses s)"
proof -
  have u: "idle_sessions (set_idle key older p) + {#s#} = idle_sessions p"
    using idle_sessions_update [of key older p] by (simp add: assms)
  then have c: "Suc (idle_count (set_idle key older p)) = idle_count p"
    by (simp add: idle_count_size flip: u)
  have k: "ses_key (snd s) = key" "\<forall>x \<in> set older. ses_key (snd x) = key"
    using keys_of_idle [OF assms(1), of _ key] assms(2) by auto
  have "int (length (idle_of p key)) \<le> pc_max_idle_key (cp_cfg p)" "int (idle_count p) \<le> pc_max_idle (cp_cfg p)"
    using assms(1) by (simp_all add: pool_shape_def)
  then have "pool_shape (set_idle key older p)"
    using c k assms by (intro shape_set_idle) simp_all
  moreover have "image_mset fst (idle_sessions p) = image_mset fst (idle_sessions (set_idle key older p)) + {#fst s#}"
    by (simp flip: u)
  ultimately show ?thesis using c k assms by (auto simp: moves_def idle_of_set)
qed

lemma reuse_moves:
  assumes "reuse_loop p key now l = (p', res)" "idle_of p key = rev l" "pool_shape p" "backed p Outside"
  shows "moves p Outside p' (case res of None \<Rightarrow> Outside | Some s \<Rightarrow> Uses s) \<and>
    (\<forall>s. res = Some s \<longrightarrow> s \<in> set l)"
  using assms
proof (induction l arbitrary: p)
  case (Cons s older)
  let ?p1 = "set_idle key (rev older) p"
  have pop: "moves p Outside ?p1 (Uses s)" using Cons.prems by (intro pop_moves) simp_all
  show ?case
  proof (cases "session_fresh (cp_cfg p) now s")
    case True
    with Cons.prems pop show ?thesis by auto
  next
    case False
    have cl: "moves ?p1 (Uses s) (close_session ?p1 s) Outside"
      using pop Cons.prems moves_backed [OF pop] by (intro close_moves) (simp_all add: moves_def)
    note both = moves_trans [OF pop cl]
    have "idle_of (close_session ?p1 s) key = rev older" by (simp add: close_session_def idle_of_set)
    then have "moves (close_session ?p1 s) Outside p' (case res of None \<Rightarrow> Outside | Some s \<Rightarrow> Uses s) \<and> (\<forall>s. res = Some s \<longrightarrow> s \<in> set older)"
      using Cons False both moves_backed [OF both] by (intro Cons.IH) (simp_all add: moves_def Let_def)
    then show ?thesis using moves_trans [OF both] by auto
  qed
qed (simp add: moves_def)

lemma enter_moves:
  assumes "pool_enter p key now = (p', e)" "pool_shape p" "backed p Outside"
  shows "moves p Outside p' (case e of Reused s \<Rightarrow> Uses s | _ \<Rightarrow> Outside)"
    and "e = Reused s \<Longrightarrow> ses_key (snd s) = key"
proof -
  obtain q res where r: "reuse_loop p key now (rev (idle_of p key)) = (q, res)" by fastforce
  have "moves p Outside q (case res of None \<Rightarrow> Outside | Some s \<Rightarrow> Uses s) \<and> (\<forall>s. res = Some s \<longrightarrow> s \<in> set (rev (idle_of p key)))"
    by (rule reuse_moves [OF r]) (simp_all add: assms)
  moreover have "moves p Outside p Outside" using assms(2) by (simp add: moves_def)
  ultimately show "moves p Outside p' (case e of Reused s \<Rightarrow> Uses s | _ \<Rightarrow> Outside)" "e = Reused s \<Longrightarrow> ses_key (snd s) = key"
    using assms r by (auto simp: pool_enter_def simp del: split_paired_All split: if_splits option.splits intro: keys_of_idle)
qed

lemma acquire_moves:
  "pool_shape p \<Longrightarrow> acquire_key key p = Some p' \<Longrightarrow> moves p Outside p' (WantsTotal key)"
  "pool_shape p \<Longrightarrow> acquire_total p = Some p' \<Longrightarrow> moves p (WantsTotal key) p' (Dialling key)"
  by (auto simp: moves_def pool_shape_def acquire_key_def acquire_total_def idle_of_def idle_count_def idle_sessions_def split: if_splits)

lemma slots_held: "backed p (WantsTotal key) \<Longrightarrow> 1 \<le> cp_keys p key" "backed p (Dialling key) \<Longrightarrow> 1 \<le> cp_keys p key \<and> 1 \<le> cp_total p"
  by (auto simp: backed_def dest!: spec [of _ key])

lemma pool_shape_less:
  assumes "pool_shape p" "cp_cfg p' = cp_cfg p" "idle_of p' = idle_of p" "idle_sessions p' = idle_sessions p"
    "\<And>k. cp_keys p' k \<le> cp_keys p k" "cp_total p' \<le> cp_total p"
  shows "pool_shape p'"
proof -
  have "int (cp_keys p' k) \<le> int (cp_keys p k)" for k using assms(5) by simp
  moreover have "int (cp_keys p k) \<le> pc_max_key (cp_cfg p)" for k using assms(1) by (simp add: pool_shape_def)
  ultimately have "int (cp_keys p' k) \<le> pc_max_key (cp_cfg p)" for k by (rule order_trans)
  with assms(1-4,6) show ?thesis by (simp add: pool_shape_def idle_count_size)
qed

lemma release_moves:
  assumes "pool_shape p"
  shows "backed p (WantsTotal key) \<Longrightarrow> moves p (WantsTotal key) (release_key key p) Outside"
    and "backed p (Dialling key) \<Longrightarrow> moves p (Dialling key) (dial_failed key p) Outside"
proof -
  have "pool_shape (release_key key p)" "pool_shape (dial_failed key p)"
    using assms by (auto simp: dial_failed_def intro!: pool_shape_less [of p])
  then show "backed p (WantsTotal key) \<Longrightarrow> moves p (WantsTotal key) (release_key key p) Outside"
      "backed p (Dialling key) \<Longrightarrow> moves p (Dialling key) (dial_failed key p) Outside"
    using slots_held [of p key] by (auto simp: moves_def dial_failed_def)
qed

lemma put_moves:
  assumes "pool_shape p" "backed p (Uses s)"
  shows "moves p (Uses s) (pool_put p s reusable now) Outside"
proof -
  define key where "key = ses_key (snd s)"
  define s1 where "s1 = (fst s, (snd s)\<lparr>ses_deliveries := ses_deliveries (snd s) + 1\<rparr>)"
  define l where "l = idle_of p key @ [(fst s, (snd s1)\<lparr>ses_idle_since := now\<rparr>)]"
  have u: "idle_sessions (set_idle key l p) = idle_sessions p + {#last l#}"
    using idle_sessions_update [of key l p] by (simp add: l_def)
  have keyed: "\<forall>x \<in> set l. ses_key (snd x) = key"
    using keys_of_idle [OF assms(1)] by (auto simp: l_def s1_def key_def)
  consider "pool_put p s reusable now = close_session p s1"
    | "pool_put p s reusable now = signal_changed (set_idle key l p)" "int (length (idle_of p key)) < pc_max_idle_key (cp_cfg p)"
      "int (idle_count p) < pc_max_idle (cp_cfg p)"
    by (cases "pool_put p s reusable now = close_session p s1")
      (auto simp: pool_put_def Let_def s1_def l_def key_def not_le split: if_splits)
  then show ?thesis
  proof cases
    case 1
    then show ?thesis using close_moves [OF assms, of s1] by (simp add: s1_def)
  next
    case 2
    have "pool_shape (set_idle key l p)"
      using 2 keyed assms u by (intro shape_set_idle) (simp_all add: l_def idle_count_size)
    then have "pool_shape (signal_changed (set_idle key l p))" by (rule pool_shape_less) simp_all
    then show ?thesis using 2 u by (auto simp: moves_def idle_of_set idle_count_size l_def key_def)
  qed
qed

lemma close_all:
  "cp_keys (foldl close_session p ss) k = cp_keys p k - length (filter (\<lambda>s. ses_key (snd s) = k) ss)"
  "cp_total (foldl close_session p ss) = cp_total p - length ss"
  "cp_cfg (foldl close_session p ss) = cp_cfg p"
  by (induction ss arbitrary: p) (auto simp: close_session_def)

lemma close_inv:
  assumes "pool_inv cfg (p, cs, n)"
  shows "pool_inv cfg (pool_close p, cs, n)"
proof -
  define q where "q = p\<lparr>cp_closed := True\<rparr>"
  have shape: "pool_shape p" using assms by (simp add: pool_inv_def)
  have eq: "length (filter (\<lambda>s. ses_key (snd s) = k) (concat (map snd (cp_idle p)))) = length (idle_of p k)" for k
    using shape unfolding pool_shape_def idle_sessions_def by (metis mset_filter size_mset)
  have keys: "cp_keys (pool_close p) k = cp_keys p k - length (idle_of p k)" for k
    by (simp add: pool_close_def signal_changed_def close_all eq)
  have total: "cp_total (pool_close p) = cp_total p - idle_count p"
    by (simp add: pool_close_def signal_changed_def close_all idle_count_def length_concat comp_def)
  have rest: "cp_cfg (pool_close p) = cp_cfg p" "idle_of (pool_close p) k = []" "idle_count (pool_close p) = 0" "idle_sessions (pool_close p) = {#}" for k
    by (simp_all add: pool_close_def signal_changed_def close_all idle_of_def idle_count_def idle_sessions_def)
  have lim: "int (cp_keys p k) \<le> pc_max_key cfg" "int (length (idle_of p k)) \<le> pc_max_idle_key cfg" for k
    using shape assms by (auto simp: pool_shape_def pool_inv_def)
  have "int (cp_keys p k - length (idle_of p k)) \<le> pc_max_key cfg" "0 \<le> pc_max_idle_key cfg" for k
    using lim [of k] by linarith+
  then have "pool_shape (pool_close p)"
    using shape assms by (auto simp: pool_shape_def pool_inv_def keys total rest)
  moreover have "count (connections (pool_close p) cs) c \<le> of_bool (c < n)" for c
  proof (rule order_trans)
    show "count (connections (pool_close p) cs) c \<le> count (connections p cs) c" by (simp add: connections_def rest)
  qed (use assms in \<open>simp add: pool_inv_def\<close>)
  ultimately show ?thesis using assms by (simp add: pool_inv_def keys total rest)
qed

lemma dialled_inv:
  assumes inv: "pool_inv cfg (p, cs, n)" and i: "i < length cs" "cs ! i = Dialling key"
  shows "pool_inv cfg (p, cs[i := Uses (n, s\<lparr>ses_key := key\<rparr>)], n + 1)"
proof -
  let ?c = "Uses (n, s\<lparr>ses_key := key\<rparr>)"
  note u = sum_list_update_eq [OF i(1), where x = ?c, unfolded i(2)]
  have "sum_list (map (holds_key k) (cs[i := ?c])) = sum_list (map (holds_key k) cs)" for k using u [of "holds_key k"] by simp
  moreover have "sum_list (map holds_total (cs[i := ?c])) = sum_list (map holds_total cs)" using u [of holds_total] by simp
  moreover have "connections p (cs[i := ?c]) = add_mset n (connections p cs)" using u [of holds_connection] by (simp add: connections_def)
  moreover have "count (connections p cs) c \<le> of_bool (c < n)" for c using inv by (simp add: pool_inv_def)
  ultimately show ?thesis using inv by (auto simp: pool_inv_def less_Suc_eq) (metis (full_types) le_0_eq less_irrefl of_bool_eq(1))
qed

lemma pool_step_inv: "pool_step s t \<Longrightarrow> pool_inv cfg s \<Longrightarrow> pool_inv cfg t"
proof (induction rule: pool_step.induct)
  case (shut p cs n)
  then show ?case by (rule close_inv)
next
  case (dialled i cs key p n s)
  then show ?case by (intro dialled_inv)
next
  case (refused i cs key p now p' n)
  then show ?case using inv_backed [OF refused(4,1)] enter_moves(1) [OF refused(3)]
    by (intro moves_inv [OF refused(4,1)]) (auto simp: pool_inv_def backed_outside moves_outside)
next
  case (reuse i cs key p now p' s n)
  then show ?case using inv_backed [OF reuse(4,1)] enter_moves(1) [OF reuse(3)]
    by (intro moves_inv [OF reuse(4,1)]) (auto simp: pool_inv_def backed_outside moves_outside)
next
  case (no_idle i cs key p now p' n)
  then show ?case using inv_backed [OF no_idle(4,1)] enter_moves(1) [OF no_idle(3)]
    by (intro moves_inv [OF no_idle(4,1)]) (auto simp: pool_inv_def backed_outside moves_outside)
next
  case (key_taken i cs key p p' n)
  then show ?case by (intro moves_inv [OF key_taken(4,1)]) (auto simp: pool_inv_def moves_outside intro: acquire_moves)
next
  case (total_taken i cs key p p' n)
  then show ?case by (intro moves_inv [OF total_taken(4,1)]) (auto simp: pool_inv_def intro: acquire_moves)
next
  case (total_full i cs key p n)
  then show ?case using inv_backed [OF total_full(4,1)]
    by (intro moves_inv [OF total_full(4,1)]) (auto simp: pool_inv_def moves_outside intro: release_moves)
next
  case (not_dialled i cs key p n)
  then show ?case using inv_backed [OF not_dialled(3,1)]
    by (intro moves_inv [OF not_dialled(3,1)]) (auto simp: pool_inv_def intro: release_moves)
next
  case (returned i cs s p n reusable now)
  then show ?case using inv_backed [OF returned(3,1)]
    by (intro moves_inv [OF returned(3,1)]) (auto simp: pool_inv_def intro: put_moves)
next
  case (woken i cs key p n)
  then show ?case
    by (intro moves_inv [OF woken(4,1)]) (auto simp: moves_def pool_inv_def pool_shape_def idle_of_def idle_sessions_def idle_count_def)
next
  case (call i cs p n key)
  then show ?case by (intro moves_inv [OF call(3,1)]) (auto simp: pool_inv_def moves_def)
next
  case (key_full i cs key p n)
  then show ?case by (intro moves_inv [OF key_full(4,1)]) (auto simp: pool_inv_def moves_def)
next
  case (gave_up i cs key p n)
  then show ?case by (intro moves_inv [OF gave_up(3,1)]) (auto simp: pool_inv_def moves_def)
next
  case (works i cs c s s' p n)
  then show ?case by (intro moves_inv [OF works(4,1)]) (auto simp: pool_inv_def moves_def)
qed

lemma sum_list_replicate_zero: "sum_list (replicate n (0 :: 'b :: comm_monoid_add)) = 0"
  by (induction n) auto

lemma pool_run_inv:
  assumes "pool_run cfg m s" "pool_validate cfg = None"
  shows "pool_inv cfg s"
proof -
  obtain p where p: "new_pool cfg = Some p" and run: "pool_step\<^sup>*\<^sup>* (p, replicate m Outside, 0) s"
    using assms by (auto simp: pool_run_def)
  have "pool_inv cfg (p, replicate m Outside, 0)"
    using p assms(2)
    by (auto simp: new_pool_def pool_inv_def pool_shape_def idle_of_def idle_count_def idle_sessions_def connections_def
        sum_list_replicate_zero pool_validate_def split: if_splits)
  with run show ?thesis by (induction rule: rtranclp_induct) (auto intro: pool_step_inv)
qed

section \<open>Claims\<close>

text \<open>C10: However the deliveries interleave, and whatever they do with their connections, the connections to one key that are being opened,
  in use or idle never exceed the limit of the key, all of them never exceed the limit of the pool, and
  the idle ones never exceed theirs; the semaphores are exactly as full as there are connections, so
  giving one back never blocks.
\<close>
theorem pool_limits:
  assumes "pool_run cfg m (p, cs, n)" "pool_validate cfg = None"
  shows "cp_keys p k = sum_list (map (holds_key k) cs) + length (idle_of p k) \<and> int (cp_keys p k) \<le> pc_max_key cfg \<and>
    cp_total p = sum_list (map holds_total cs) + idle_count p \<and> int (cp_total p) \<le> pc_max cfg \<and>
    int (idle_count p) \<le> pc_max_idle cfg \<and> int (length (idle_of p k)) \<le> pc_max_idle_key cfg"
  using pool_run_inv [OF assms] by (auto simp: pool_inv_def pool_shape_def)

text \<open>C27: A connection that \<^verbatim>\<open>get\<close> reuses was opened for the same host, port, source address, EHLO name, credentials
  and TLS policy, and no other delivery is using it.
\<close>
theorem pool_exclusive:
  assumes "pool_run cfg m (p, cs, n)" "pool_validate cfg = None"
    and "i < length cs" "cs ! i = AtHead key" "pool_enter p key now = (p', Reused s)"
    and "j < length cs" "cs ! j = Uses t"
  shows "ses_key (snd s) = key \<and> fst s \<noteq> fst t"
proof
  have inv: "pool_inv cfg (p, cs, n)" by (rule pool_run_inv [OF assms(1,2)])
  have "backed p Outside" "pool_shape p" using inv_backed [OF inv assms(3)] inv by (simp_all add: assms backed_outside pool_inv_def)
  then show "ses_key (snd s) = key" using enter_moves(2) [OF assms(5)] by blast
  have inv': "pool_inv cfg (p', cs[i := Uses s], n)"
    by (rule pool_step_inv [OF _ inv]) (rule pool_step.reuse [OF assms(3,4,5)])
  have ij: "i \<noteq> j" using assms by auto
  have two: "holds_connection (xs ! i) + holds_connection (xs ! j) \<subseteq># sum_list (map holds_connection xs)"
    if "j < length xs" "i < length xs" for xs
    using sum_list_update_eq [OF that(1), of holds_connection Outside] sum_list_update_eq [of i "xs[j := Outside]" holds_connection Outside] that ij
    by simp (metis add.commute add.left_commute mset_subset_eq_add_right)
  have "{#fst s#} + {#fst t#} \<subseteq># connections p' (cs[i := Uses s])"
    using two [of "cs[i := Uses s]"] assms ij by (auto simp: connections_def intro: subset_mset.order_trans)
  then have "count ({#fst s#} + {#fst t#}) (fst s) \<le> count (connections p' (cs[i := Uses s])) (fst s)"
    by (rule mset_subset_eq_count)
  also have "\<dots> \<le> of_bool (fst s < n)" using inv' by (simp add: pool_inv_def)
  also have "\<dots> \<le> (1 :: nat)" by simp
  finally show "fst s \<noteq> fst t" by auto
qed

section \<open>Waiting callers\<close>

definition one_connection :: pool_config where
  "one_connection = \<lparr>pc_enabled = True, pc_max = 1, pc_max_key = 1, pc_max_idle = 1, pc_max_idle_key = 1,
     pc_idle_timeout = 30 * second, pc_max_lifetime = 5 * minute, pc_max_deliveries = 100\<rparr>"

definition host_key :: "string \<Rightarrow> pool_key" where
  "host_key h = \<lparr>pk_host = h, pk_port = 25, pk_source = [], pk_ehlo = ''mta.example'', pk_auth = [], pk_policy = []\<rparr>"

abbreviation "key_a \<equiv> host_key ''a.example''"
abbreviation "key_b \<equiv> host_key ''b.example''"

lemma host_key_differ: "key_a \<noteq> key_b" "key_b \<noteq> key_a"
  by (simp_all add: host_key_def)

definition quiet_wire :: wire where
  "quiet_wire = \<lparr>wr_input = [], wr_end = EofError, wr_fails = (\<lambda>_. None), wr_writes = 0, wr_tls = False,
     wr_handshake = Inr [], wr_certs = [], wr_log = []\<rparr>"

definition plain_session :: "int \<Rightarrow> smtp_session" where
  "plain_session k = \<lparr>ses_wire = quiet_wire, ses_created = 0, ses_idle_since = 0, ses_deliveries = k, ses_dsn = False,
     ses_tls = False, ses_require_tls = False, ses_key = key_a\<rparr>"

lemma plain_session_fields [simp]:
  "ses_key (plain_session k) = key_a" "ses_created (plain_session k) = 0" "ses_idle_since (plain_session k) = 0"
  "ses_deliveries (plain_session k) = k" "plain_session k\<lparr>ses_key := key_a\<rparr> = plain_session k"
  "plain_session k\<lparr>ses_deliveries := d, ses_idle_since := 0\<rparr> = plain_session d"
  by (simp_all add: plain_session_def)

text \<open>The pool with one connection for the first host: in use, or idle\<close>
definition busy_pool :: "bool \<Rightarrow> bool \<Rightarrow> bool \<Rightarrow> connection_pool" where
  "busy_pool idle waits_b changed =
     \<lparr>cp_cfg = one_connection, cp_idle = (if idle then [(key_a, [(0, plain_session 1)])] else []),
      cp_keys = (\<lambda>k. if k = key_a \<or> waits_b \<and> k = key_b then 1 else 0), cp_total = 1, cp_changed = changed, cp_closed = False\<rparr>"

lemmas busy_eval = busy_pool_def one_connection_def idle_of_def set_idle_def idle_count_def pool_enter_def session_fresh_def
  acquire_key_def acquire_total_def release_key_def signal_changed_def host_key_differ fun_eq_iff

lemma busy_steps:
  "acquire_key key_a (busy_pool i False c) = None"
  "acquire_key key_b (busy_pool i False c) = Some (busy_pool i True c)"
  "acquire_total (busy_pool i True c) = None"
  "release_key key_b (busy_pool i True c) = busy_pool i False c"
  "pool_enter (busy_pool False False c) key now = (busy_pool False False c, NoIdle)"
  "pool_enter (busy_pool i False c) key_b now = (busy_pool i False c, NoIdle)"
  "pool_put (busy_pool False False c) (0, plain_session 0) True 0 = busy_pool True False True"
  by (auto simp: busy_eval pool_put_def time_sub_def min_int64_def max_int64_def minute_def second_def Let_def)

text \<open>A caller opens a connection, in the sections of \<^verbatim>\<open>get\<close> and in one go\<close>
lemma opens_connection:
  assumes "i < length cs" "cs ! i = Outside" "idle_of p key = []" "\<not> cp_closed p"
    and "int (cp_keys p key) < pc_max_key (cp_cfg p)" "int (cp_total p) < pc_max (cp_cfg p)" "ses_key s = key"
  shows "pool_step\<^sup>*\<^sup>* (p, cs, n) (p\<lparr>cp_keys := (cp_keys p)(key := cp_keys p key + 1), cp_total := cp_total p + 1\<rparr>, cs[i := Uses (n, s)], n + 1)"
proof -
  let ?p1 = "p\<lparr>cp_keys := (cp_keys p)(key := cp_keys p key + 1)\<rparr>"
  let ?p2 = "?p1\<lparr>cp_total := cp_total p + 1\<rparr>"
  have key: "s\<lparr>ses_key := key\<rparr> = s" using assms(7) by (cases s) simp
  have "pool_step (p, cs, n) (p, cs[i := AtHead key], n)" by (rule pool_step.call [OF assms(1,2)])
  moreover have "pool_step (p, cs[i := AtHead key], n) (p, cs[i := WantsKey key], n)"
    using pool_step.no_idle [of i "cs[i := AtHead key]" key p 0 p n] assms by (simp add: pool_enter_def)
  moreover have "pool_step (p, cs[i := WantsKey key], n) (?p1, cs[i := WantsTotal key], n)"
    using pool_step.key_taken [of i "cs[i := WantsKey key]" key p ?p1 n] assms by (simp add: acquire_key_def)
  moreover have "pool_step (?p1, cs[i := WantsTotal key], n) (?p2, cs[i := Dialling key], n)"
    using pool_step.total_taken [of i "cs[i := WantsTotal key]" key ?p1 ?p2 n] assms by (simp add: acquire_total_def)
  moreover have "pool_step (?p2, cs[i := Dialling key], n) (?p2, cs[i := Uses (n, s)], n + 1)"
    using pool_step.dialled [of i "cs[i := Dialling key]" key ?p2 n s] assms key by simp
  ultimately have "pool_step\<^sup>*\<^sup>* (p, cs, n) (?p2, cs[i := Uses (n, s)], n + 1)"
    by (meson converse_rtranclp_into_rtranclp rtranclp.rtrancl_refl)
  then show ?thesis by simp
qed

lemma start_steps:
  assumes "new_pool one_connection = Some p"
  shows "pool_step\<^sup>*\<^sup>* (p, [Outside, Outside, Outside], 0) (busy_pool False False False, [Uses (0, plain_session 0), Outside, Outside], 1)"
proof -
  have p: "p = \<lparr>cp_cfg = one_connection, cp_idle = [], cp_keys = (\<lambda>_. 0), cp_total = 0, cp_changed = False, cp_closed = False\<rparr>"
    using assms by (simp add: new_pool_def one_connection_def)
  have "p\<lparr>cp_keys := (cp_keys p)(key_a := cp_keys p key_a + 1), cp_total := cp_total p + 1\<rparr> = busy_pool False False False"
    by (simp add: p busy_pool_def fun_eq_iff)
  with opens_connection [of 0 "[Outside, Outside, Outside]" p key_a "plain_session 0" 0] show ?thesis
    by (simp add: p idle_of_def one_connection_def)
qed

text \<open>A caller comes and waits, for the first host and for the second\<close>
lemma wait_a: "pool_step\<^sup>*\<^sup>* (busy_pool False False False, [c, Outside, d], n) (busy_pool False False False, [c, Waits key_a, d], n)"
proof -
  let ?p = "busy_pool False False False"
  have "pool_step (?p, [c, Outside, d], n) (?p, [c, AtHead key_a, d], n)"
    using pool_step.call [of 1 "[c, Outside, d]" ?p n key_a] by simp
  moreover have "pool_step (?p, [c, AtHead key_a, d], n) (?p, [c, WantsKey key_a, d], n)"
    using pool_step.no_idle [of 1 "[c, AtHead key_a, d]" key_a ?p 0 ?p n] by (simp add: busy_steps)
  moreover have "pool_step (?p, [c, WantsKey key_a, d], n) (?p, [c, Waits key_a, d], n)"
    using pool_step.key_full [of 1 "[c, WantsKey key_a, d]" key_a ?p n] by (simp add: busy_steps)
  ultimately show ?thesis by (meson converse_rtranclp_into_rtranclp rtranclp.rtrancl_refl)
qed

lemma wait_b: "pool_step\<^sup>*\<^sup>* (busy_pool i False c, [x, y, AtHead key_b], n) (busy_pool i False c, [x, y, Waits key_b], n)"
proof -
  let ?p = "busy_pool i False c" and ?q = "busy_pool i True c"
  have "pool_step (?p, [x, y, AtHead key_b], n) (?p, [x, y, WantsKey key_b], n)"
    using pool_step.no_idle [of 2 "[x, y, AtHead key_b]" key_b ?p 0 ?p n] by (simp add: busy_steps)
  moreover have "pool_step (?p, [x, y, WantsKey key_b], n) (?q, [x, y, WantsTotal key_b], n)"
    using pool_step.key_taken [of 2 "[x, y, WantsKey key_b]" key_b ?p ?q n] by (simp add: busy_steps)
  moreover have "pool_step (?q, [x, y, WantsTotal key_b], n) (?p, [x, y, Waits key_b], n)"
    using pool_step.total_full [of 2 "[x, y, WantsTotal key_b]" key_b ?q n] by (simp add: busy_steps)
  ultimately show ?thesis by (meson converse_rtranclp_into_rtranclp rtranclp.rtrancl_refl)
qed

lemma stuck_run: "pool_run one_connection 3 (busy_pool True False False, [Outside, Waits key_a, Waits key_b], 1)"
proof -
  obtain p where p: "new_pool one_connection = Some p" by (simp add: new_pool_def one_connection_def)
  let ?u = "Uses (0, plain_session 0)"
  have 1: "pool_step\<^sup>*\<^sup>* (busy_pool False False False, [?u, Waits key_a, Outside], 1) (busy_pool False False False, [?u, Waits key_a, AtHead key_b], 1)"
    using pool_step.call [of 2 "[?u, Waits key_a, Outside]" "busy_pool False False False" 1 key_b] by (simp add: r_into_rtranclp)
  have 2: "pool_step\<^sup>*\<^sup>* (busy_pool False False False, [?u, Waits key_a, Waits key_b], 1) (busy_pool True False True, [Outside, Waits key_a, Waits key_b], 1)"
    using pool_step.returned [of 0 "[?u, Waits key_a, Waits key_b]" "(0, plain_session 0)" "busy_pool False False False" 1 True 0]
    by (simp add: busy_steps r_into_rtranclp)
  have 3: "pool_step\<^sup>*\<^sup>* (busy_pool True False True, [Outside, Waits key_a, Waits key_b], 1) (busy_pool True False False, [Outside, Waits key_a, AtHead key_b], 1)"
    using pool_step.woken [of 2 "[Outside, Waits key_a, Waits key_b]" key_b "busy_pool True False True" 1]
    by (simp add: busy_pool_def r_into_rtranclp)
  have "pool_step\<^sup>*\<^sup>* (p, [Outside, Outside, Outside], 0) (busy_pool True False False, [Outside, Waits key_a, Waits key_b], 1)"
    by (rule rtranclp_trans [OF start_steps [OF p] rtranclp_trans [OF wait_a rtranclp_trans [OF 1 rtranclp_trans [OF wait_b
        rtranclp_trans [OF 2 rtranclp_trans [OF 3 wait_b]]]]]])
  then show ?thesis using p by (auto simp: pool_run_def numeral_3_eq_3)
qed

text \<open>The wake-up can reach the wrong caller: in a pool of one connection, which the validation accepts, a caller waits for a
  host whose only connection has come back and is idle and fresh, a second one waits for another host, and
  no step but a new call, the closing of the pool or the end of its context moves the first one, because the second has taken the signal
  and the idle connection of the one host keeps the slot that the other needs.
\<close>
theorem pool_wakeup_lost:
  "\<exists>p s. pool_validate one_connection = None \<and>
     pool_run one_connection 3 (p, [Outside, Waits key_a, Waits key_b], 1) \<and>
     idle_of p key_a = [s] \<and> session_fresh one_connection (20 * second) s \<and>
     (\<nexists>t. pool_step (p, [Outside, Waits key_a, Waits key_b], 1) t \<and> fst (snd t) ! 0 = Outside \<and>
        fst (snd t) ! 1 \<noteq> Waits key_a \<and> fst (snd t) ! 1 \<noteq> Outside)"
proof (intro exI conjI)
  show "pool_run one_connection 3 (busy_pool True False False, [Outside, Waits key_a, Waits key_b], 1)" by (rule stuck_run)
  show "pool_validate one_connection = None" by (simp add: pool_validate_def one_connection_def second_def minute_def hour_def)
  show "idle_of (busy_pool True False False) key_a = [(0, plain_session 1)]" by (simp add: busy_eval)
  show "session_fresh one_connection (20 * second) (0, plain_session 1)"
    by (simp add: session_fresh_def one_connection_def time_sub_def min_int64_def max_int64_def second_def minute_def)
  show "\<nexists>t. pool_step (busy_pool True False False, [Outside, Waits key_a, Waits key_b], 1) t \<and> fst (snd t) ! 0 = Outside \<and>
      fst (snd t) ! 1 \<noteq> Waits key_a \<and> fst (snd t) ! 1 \<noteq> Outside"
    by (auto simp: busy_pool_def nth_list_update nth_Cons numeral_2_eq_2 elim!: pool_step.cases split: nat.splits if_splits)
qed

theorem pool_limits_witness:
  "cp_total (busy_pool True False False) =
     sum_list (map holds_total [Outside, Waits key_a, Waits key_b]) + idle_count (busy_pool True False False) \<and>
   int (cp_total (busy_pool True False False)) \<le> 1"
proof -
  have "pool_validate one_connection = None" by (simp add: pool_validate_def one_connection_def second_def minute_def hour_def)
  from pool_limits [OF stuck_run this, of key_a] show ?thesis by (simp add: one_connection_def)
qed

text \<open>Two callers and two hosts: the connection of one is in use when the other takes an idle one.\<close>
definition two_connections :: pool_config where
  "two_connections = one_connection\<lparr>pc_max := 2, pc_max_key := 2, pc_max_idle := 2, pc_max_idle_key := 2\<rparr>"

definition shared_pool :: "pooled list \<Rightarrow> nat \<Rightarrow> bool \<Rightarrow> connection_pool" where
  "shared_pool idle k changed =
     \<lparr>cp_cfg = two_connections, cp_idle = (if idle = [] then [] else [(key_a, idle)]), cp_keys = (\<lambda>x. if x = key_a then k else 0),
      cp_total = k, cp_changed = changed, cp_closed = False\<rparr>"

lemmas shared_eval = shared_pool_def two_connections_def one_connection_def idle_of_def idle_count_def set_idle_def signal_changed_def
  time_sub_def min_int64_def max_int64_def minute_def second_def

lemma shared_run: "pool_run two_connections 2 (shared_pool [(0, plain_session 1)] 2 True, [AtHead key_a, Uses (1, plain_session 0)], 2)"
proof -
  have new: "new_pool two_connections = Some (shared_pool [] 0 False)"
    by (simp add: new_pool_def shared_eval fun_eq_iff)
  have 1: "pool_step\<^sup>*\<^sup>* (shared_pool [] 0 False, [Outside, Outside], 0) (shared_pool [] 1 False, [Uses (0, plain_session 0), Outside], 1)"
    using opens_connection [of 0 "[Outside, Outside]" "shared_pool [] 0 False" key_a "plain_session 0" 0]
    by (simp add: shared_eval if_distrib fun_upd_def cong: if_cong)
  have 2: "pool_step\<^sup>*\<^sup>* (shared_pool [] 1 False, [Uses (0, plain_session 0), Outside], 1)
      (shared_pool [] 2 False, [Uses (0, plain_session 0), Uses (1, plain_session 0)], 2)"
    using opens_connection [of 1 "[Uses (0, plain_session 0), Outside]" "shared_pool [] 1 False" key_a "plain_session 0" 1]
    by (simp add: shared_eval fun_upd_def numeral_2_eq_2 cong: if_cong)
  have put: "pool_put (shared_pool [] 2 False) (0, plain_session 0) True 0 = shared_pool [(0, plain_session 1)] 2 True"
    by (simp add: pool_put_def Let_def shared_eval)
  have 3: "pool_step (shared_pool [] 2 False, [Uses (0, plain_session 0), Uses (1, plain_session 0)], 2)
      (shared_pool [(0, plain_session 1)] 2 True, [Outside, Uses (1, plain_session 0)], 2)"
    using pool_step.returned [of 0 "[Uses (0, plain_session 0), Uses (1, plain_session 0)]" _ "shared_pool [] 2 False" 2 True 0] by (simp add: put)
  have 4: "pool_step (shared_pool [(0, plain_session 1)] 2 True, [Outside, Uses (1, plain_session 0)], 2)
      (shared_pool [(0, plain_session 1)] 2 True, [AtHead key_a, Uses (1, plain_session 0)], 2)"
    using pool_step.call [of 0 "[Outside, Uses (1, plain_session 0)]"] by simp
  have "pool_step\<^sup>*\<^sup>* (shared_pool [] 0 False, [Outside, Outside], 0)
      (shared_pool [(0, plain_session 1)] 2 True, [AtHead key_a, Uses (1, plain_session 0)], 2)"
    by (rule rtranclp_trans [OF 1 rtranclp_trans [OF 2 rtranclp_trans [OF r_into_rtranclp r_into_rtranclp]]]) (rule 3, rule 4)
  then show ?thesis using new by (simp add: pool_run_def numeral_2_eq_2)
qed

theorem pool_exclusive_witness:
  "\<exists>p'. pool_enter (shared_pool [(0, plain_session 1)] 2 True) key_a 0 = (p', Reused (0, plain_session 1)) \<and>
     ses_key (plain_session 1) = key_a \<and> (0 :: nat) \<noteq> 1"
proof -
  obtain p' where e: "pool_enter (shared_pool [(0, plain_session 1)] 2 True) key_a 0 = (p', Reused (0, plain_session 1))"
    by (simp add: pool_enter_def shared_eval session_fresh_def)
  have "pool_validate two_connections = None" by (simp add: pool_validate_def two_connections_def one_connection_def second_def minute_def hour_def)
  from pool_exclusive [OF shared_run this, of 0 key_a 0 p' "(0, plain_session 1)" 1 "(1, plain_session 0)"] e
  show ?thesis by simp
qed

end
