(* ===== verification/Client_Facts.thy ===== *)
theory Client_Facts
  imports Client_Session
begin

text \<open>
  What the operations of a session send: every text of a transaction goes through the same channel, in the clear
  only EHLO and STARTTLS go when TLS is required, and the outcome of a transaction is decided by the reply to the
  complete body.
\<close>

section \<open>What is sent\<close>

text \<open>The texts that went, or may have gone in part, in the clear\<close>
fun clear_texts :: "wire_event list \<Rightarrow> string list" where
  "clear_texts [] = []"
| "clear_texts (Sent tls s # evs) = (if tls then clear_texts evs else s # clear_texts evs)"
| "clear_texts (Broken tls s # evs) = (if tls then clear_texts evs else s # clear_texts evs)"
| "clear_texts (Got c # evs) = clear_texts evs"

lemma clear_texts_append [simp]: "clear_texts (a @ b) = clear_texts a @ clear_texts b"
  by (induction a rule: clear_texts.induct) auto

text \<open>The operation took the connection from one state to the other and sent in the clear only texts that satisfy \<open>P\<close>.\<close>
definition talks :: "(string \<Rightarrow> bool) \<Rightarrow> wire \<Rightarrow> wire \<Rightarrow> bool" where
  "talks P w w' \<longleftrightarrow> (\<exists>evs. wr_log w' = wr_log w @ evs \<and> list_all P (clear_texts evs)) \<and> wr_tls w' = wr_tls w \<and>
     wr_end w' = wr_end w \<and> wr_fails w' = wr_fails w"

lemma talks_refl [simp]: "talks P w w"
  by (simp add: talks_def)

lemma talks_input [simp]: "talks P w (w\<lparr>wr_input := r\<rparr>)"
  by (simp add: talks_def)

lemma talks_got [simp]: "talks P w (w\<lparr>wr_input := r, wr_log := wr_log w @ [Got c]\<rparr>)"
  by (simp add: talks_def)

lemma talks_trans: "talks P a b \<Longrightarrow> talks P b c \<Longrightarrow> talks P a c"
  unfolding talks_def by force

lemma talks_mono: "talks P a b \<Longrightarrow> (\<And>s. P s \<Longrightarrow> Q s) \<Longrightarrow> talks Q a b"
  unfolding talks_def by (meson list.pred_mono_strong)

lemma talks_send: "wr_tls w \<or> P s \<Longrightarrow> wire_send w s = (w1, r) \<Longrightarrow> talks P w w1"
  by (cases rule: wire_send_cases [of w s]) (auto simp: talks_def)

lemma talks_send_line: "wr_tls w \<or> P (l @ crlf) \<Longrightarrow> send_line w l = (w1, r) \<Longrightarrow> talks P w w1"
  unfolding send_line_def by (rule talks_send)

lemma talks_read_code: "read_code w = (w1, r) \<Longrightarrow> talks P w w1"
  by (cases rule: read_code_cases [of w]) auto

lemma talks_read_expected: "read_expected ok w = (w1, r) \<Longrightarrow> talks P w w1"
  by (cases rule: read_expected_cases [of ok w]) auto

lemma talks_expect:
  "expect_2xx w = (w1, r) \<Longrightarrow> talks P w w1" "expect_2xx3xx w = (w1, r) \<Longrightarrow> talks P w w1"
  "expect_code n w = (w1, r) \<Longrightarrow> talks P w w1"
  by (simp_all add: expect_2xx_def expect_2xx3xx_def expect_code_def talks_read_expected)

lemma talks_read_lines: "read_lines w = (w1, r) \<Longrightarrow> talks P w w1"
  by (cases rule: read_lines_cases [of w]) auto

lemma talks_tls: "talks P w w1 \<Longrightarrow> wr_tls w1 = wr_tls w"
  by (simp add: talks_def)

lemmas talks_steps = talks_read_code talks_expect talks_read_lines

subsection \<open>Inside a session\<close>

lemma talks_reset: "wr_tls w \<Longrightarrow> reset_session w = (w1, ok) \<Longrightarrow> talks P w w1"
  unfolding reset_session_def
  by (auto split: prod.splits option.splits dest!: talks_send_line [of w P "''RSET''", rotated] talks_expect(1) [of _ _ _ P] intro: talks_trans)

lemma talks_reject: "wr_tls w \<Longrightarrow> reject_with w e err = (w1, ok, r) \<Longrightarrow> talks P w w1"
  unfolding reject_with_def reusable_after_reject_def
  by (auto split: prod.splits option.splits if_splits intro: talks_reset)

lemma talks_send_body:
  "wr_tls w \<Longrightarrow> send_body w payload = (w1, ok, r) \<Longrightarrow> talks P w w1"
  unfolding send_body_def
  by (auto split: prod.splits option.splits dest!: talks_send [of w P _ , rotated] talks_expect(1) [of _ _ _ P] intro: talks_trans)

lemma talks_chain:
  assumes "talks P a b" and "talks P b c" and "wr_tls a \<Longrightarrow> talks P c d" and "wr_tls a"
  shows "talks P a d"
  using assms by (blast intro: talks_trans)

lemma talks_send_data: "wr_tls w \<Longrightarrow> send_data prepare msg w = (w', ok, r) \<Longrightarrow> talks P w w'"
proof -
  assume tls: "wr_tls w" and eq: "send_data prepare msg w = (w', ok, r)"
  obtain w1 r1 where s: "send_line w ''DATA'' = (w1, r1)" by force
  obtain w2 r2 where x: "expect_code 354 w1 = (w2, r2)" by force
  have t1: "talks P w w1" using tls s by (blast intro: talks_send_line)
  have t2: "talks P w1 w2" using x by (rule talks_expect(3))
  have tls2: "wr_tls w2" using t1 t2 tls by (simp add: talks_def)
  have "talks P w2 w'" if "r1 = None"
    using eq that tls2
    by (auto simp: send_data_def s x split: option.splits sum.splits prod.splits
          intro: talks_reject talks_reset talks_send_body)
  moreover have "w' = w1" if "r1 \<noteq> None" using eq that by (auto simp: send_data_def s)
  ultimately show ?thesis using t1 t2 by (cases "r1 = None") (auto intro: talks_trans)
qed

lemma talks_send_rcpt: "wr_tls w \<Longrightarrow> send_rcpt prepare d msg rcpt w = (w', ok, r) \<Longrightarrow> talks P w w'"
proof -
  assume tls: "wr_tls w" and eq: "send_rcpt prepare d msg rcpt w = (w', ok, r)"
  obtain w1 r1 where s: "send_line w (rcpt_command d msg rcpt) = (w1, r1)" by force
  obtain w2 r2 where x: "expect_2xx3xx w1 = (w2, r2)" by force
  have t1: "talks P w w1" using tls s by (blast intro: talks_send_line)
  have t2: "talks P w1 w2" using x by (rule talks_expect(2))
  have tls2: "wr_tls w2" using t1 t2 tls by (simp add: talks_def)
  have "talks P w2 w'" if "r1 = None"
    using eq that tls2
    by (auto simp: send_rcpt_def s x split: option.splits intro: talks_reject talks_send_data)
  moreover have "w' = w1" if "r1 \<noteq> None" using eq that by (auto simp: send_rcpt_def s)
  ultimately show ?thesis using t1 t2 by (cases "r1 = None") (auto intro: talks_trans)
qed

lemma talks_transaction:
  "wr_tls (ses_wire ses) \<Longrightarrow> deliver_transaction prepare ses msg rcpt = (w', ok, r) \<Longrightarrow> talks P (ses_wire ses) w'"
proof -
  assume tls: "wr_tls (ses_wire ses)" and eq: "deliver_transaction prepare ses msg rcpt = (w', ok, r)"
  let ?w = "ses_wire ses"
  obtain w1 r1 where s: "send_line ?w (mail_command ses msg) = (w1, r1)" by force
  obtain w2 r2 where x: "expect_2xx w1 = (w2, r2)" by force
  have t1: "talks P ?w w1" using tls s by (blast intro: talks_send_line)
  have t2: "talks P w1 w2" using x by (rule talks_expect(1))
  have tls2: "wr_tls w2" using t1 t2 tls by (simp add: talks_def)
  show ?thesis
  proof (cases "require_tls msg \<and> (\<not> ses_tls ses \<or> \<not> ses_require_tls ses) \<or> r1 \<noteq> None")
    case True
    then show ?thesis using eq t1 by (auto simp: deliver_transaction_def Let_def s split: if_splits)
  next
    case False
    then have "talks P w2 w'"
      using eq tls2
      by (auto simp: deliver_transaction_def Let_def s x split: option.splits if_splits intro: talks_reject talks_send_rcpt)
    then show ?thesis using t1 t2 by (blast intro: talks_trans)
  qed
qed

subsection \<open>Opening a session\<close>

abbreviation ehlo_line :: "pool_key \<Rightarrow> string" where
  "ehlo_line key \<equiv> ''EHLO '' @ pk_ehlo key @ crlf"

text \<open>What may go in the clear before TLS\<close>
definition plain_text :: "pool_key \<Rightarrow> string \<Rightarrow> bool" where
  "plain_text key s \<longleftrightarrow> s = ehlo_line key \<or> s = ''STARTTLS'' @ crlf"

lemma talks_ehlo: "wr_tls w \<or> P (''EHLO '' @ e @ crlf) \<Longrightarrow> client_ehlo e w = (w', r) \<Longrightarrow> talks P w w'"
proof -
  assume p: "wr_tls w \<or> P (''EHLO '' @ e @ crlf)" and eq: "client_ehlo e w = (w', r)"
  obtain w1 r1 where s: "send_line w (''EHLO '' @ e) = (w1, r1)" by force
  have t1: "talks P w w1" using p s by (intro talks_send_line) auto
  obtain w2 r2 where x: "read_lines w1 = (w2, r2)" by force
  have t2: "talks P w1 w2" using x by (rule talks_read_lines)
  show ?thesis
    using eq t1 t2 unfolding client_ehlo_def s prod.case x
    by (auto split: option.splits sum.splits intro: talks_trans)
qed

lemma talks_greet: "client_greet (pk_ehlo key) w = (w', r) \<Longrightarrow> talks (plain_text key) w w'"
proof -
  assume eq: "client_greet (pk_ehlo key) w = (w', r)"
  obtain w1 r1 where x: "expect_code 220 w = (w1, r1)" by force
  have t1: "talks (plain_text key) w w1" using x by (rule talks_expect(3))
  have "talks (plain_text key) w1 w'" if "r1 = None"
    using eq that by (intro talks_ehlo [of w1]) (auto simp: client_greet_def x plain_text_def)
  moreover have "w' = w1" if "r1 \<noteq> None" using eq that by (auto simp: client_greet_def x)
  ultimately show ?thesis using t1 by (cases "r1 = None") (auto intro: talks_trans)
qed

text \<open>A step that may turn TLS on: what it sends in the clear satisfies \<open>P\<close>, and TLS is never turned off.\<close>
definition opens :: "(string \<Rightarrow> bool) \<Rightarrow> wire \<Rightarrow> wire \<Rightarrow> bool" where
  "opens P w w' \<longleftrightarrow> (\<exists>evs. wr_log w' = wr_log w @ evs \<and> list_all P (clear_texts evs)) \<and> (wr_tls w \<longrightarrow> wr_tls w')"

lemma opens_talks: "talks P w w' \<Longrightarrow> opens P w w'"
  by (auto simp: talks_def opens_def)

lemma opens_trans: "opens P a b \<Longrightarrow> opens P b c \<Longrightarrow> opens P a c"
  unfolding opens_def by force

lemma opens_upgrade: "opens P w (w\<lparr>wr_input := i, wr_tls := True\<rparr>)"
  by (simp add: opens_def)

lemma opens_handshake:
  assumes "client_handshake nt key require dane w = (w', r)"
  shows "opens (plain_text key) w w' \<and> (\<forall>ls tls. r = Inr (ls, tls) \<longrightarrow> tls \<and> wr_tls w')"
proof (cases "wr_handshake w")
  case (Inr input)
  let ?w = "w\<lparr>wr_input := input, wr_tls := True\<rparr>"
  obtain w1 r1 where x: "client_ehlo (pk_ehlo key) ?w = (w1, r1)" by force
  have t: "talks (plain_text key) ?w w1" by (rule talks_ehlo [OF _ x]) simp
  then have "opens (plain_text key) w w1" by (rule opens_trans [OF opens_upgrade opens_talks])
  moreover have "wr_tls w1" using t by (simp add: talks_def)
  moreover have "opens (plain_text key) w w" by (simp add: opens_talks)
  ultimately show ?thesis
    using assms unfolding client_handshake_def Inr sum.case x prod.case
    by (cases r1) (auto split: if_splits)
qed (use assms in \<open>auto simp: client_handshake_def opens_talks\<close>)

lemma opens_starttls:
  assumes "client_starttls nt key require dane ls w = (w', r)" and "\<not> wr_tls w"
  shows "opens (plain_text key) w w' \<and>
    (\<forall>ls' tls. r = Inr (ls', tls) \<longrightarrow> (require \<longrightarrow> tls) \<and> tls = wr_tls w')"
proof (cases "offers_starttls ls")
  case True
  obtain w1 r1 where s: "send_line w ''STARTTLS'' = (w1, r1)" by force
  have t1: "talks (plain_text key) w w1" using s by (intro talks_send_line) (auto simp: plain_text_def)
  obtain w2 r2 where x: "read_code w1 = (w2, r2)" by force
  have t2: "talks (plain_text key) w1 w2" using x by (rule talks_read_code)
  have o2: "opens (plain_text key) w w2" using t1 t2 by (meson talks_trans opens_talks)
  have clear: "\<not> wr_tls w2" using t1 t2 assms(2) by (simp add: talks_def)
  show ?thesis
  proof (cases "r1 = None \<and> (\<exists>line. r2 = Inr (220, line))")
    case True
    then have "client_handshake nt key require dane w2 = (w', r)"
      using assms(1) \<open>offers_starttls ls\<close> by (auto simp: client_starttls_def s x)
    from opens_handshake [OF this] show ?thesis using o2 by (blast intro: opens_trans)
  next
    case False
    then show ?thesis
      using assms(1) \<open>offers_starttls ls\<close> o2 clear opens_talks [OF t1]
      by (auto simp: client_starttls_def s x split: option.splits sum.splits if_splits)
  qed
qed (use assms in \<open>auto simp: client_starttls_def opens_talks split: if_splits\<close>)

lemma talks_auth: "tls = wr_tls w \<Longrightarrow> client_auth auth ls tls w = (w', r) \<Longrightarrow> talks P w w'"
proof -
  assume tls: "tls = wr_tls w" and eq: "client_auth auth ls tls w = (w', r)"
  obtain w1 r1 where s: "send_line w (''AUTH PLAIN '' @ auth_payload auth) = (w1, r1)" by force
  have t1: "tls \<Longrightarrow> talks P w w1" using tls s by (blast intro: talks_send_line)
  obtain w2 r2 where x: "read_code w1 = (w2, r2)" by force
  have t2: "talks P w1 w2" using x by (rule talks_read_code)
  show ?thesis
    using eq t1 t2 unfolding client_auth_def s prod.case x
    by (auto split: if_splits option.splits sum.splits intro: talks_trans)
qed

lemma opens_hello:
  assumes "client_hello nt key auth require dane w = (w', r)" and "\<not> wr_tls w"
  shows "opens (plain_text key) w w' \<and> (\<forall>ls tls. r = Inr (ls, tls) \<longrightarrow> (require \<longrightarrow> tls) \<and> tls = wr_tls w')"
proof -
  obtain w1 r1 where g: "client_greet (pk_ehlo key) w = (w1, r1)" by force
  have t1: "talks (plain_text key) w w1" using g by (rule talks_greet)
  show ?thesis
  proof (cases r1)
    case (Inl e)
    then show ?thesis using assms t1 by (auto simp: client_hello_def g opens_talks)
  next
    case (Inr ls)
    obtain w2 r2 where s: "client_starttls nt key require dane ls w1 = (w2, r2)" by force
    have o2: "opens (plain_text key) w1 w2 \<and> (\<forall>ls' tls. r2 = Inr (ls', tls) \<longrightarrow> (require \<longrightarrow> tls) \<and> tls = wr_tls w2)"
      using s t1 assms(2) by (intro opens_starttls) (auto simp: talks_def)
    have o: "opens (plain_text key) w w2" using t1 o2 by (meson opens_talks opens_trans)
    show ?thesis
    proof (cases r2)
      case (Inl e)
      then show ?thesis using assms o by (auto simp: client_hello_def g Inr s)
    next
      case r2: (Inr p)
      obtain ls' tls where p: "p = (ls', tls)" by force
      obtain w3 r3 where a: "client_auth auth ls' tls w2 = (w3, r3)" by force
      have t3: "talks (plain_text key) w2 w3" using a o2 r2 p by (intro talks_auth) auto
      have "opens (plain_text key) w w3" using o t3 by (meson opens_talks opens_trans)
      moreover have "wr_tls w3 = wr_tls w2" using t3 by (simp add: talks_def)
      ultimately show ?thesis
        using assms o2 r2 p by (auto simp: client_hello_def g Inr s a split: option.splits)
    qed
  qed
qed

end
