(* ===== verification/Client_Outcome.thy ===== *)
theory Client_Outcome
  imports Client_Facts
begin

text \<open>
  The outcome of a transaction and the log: success means the final positive reply to the complete body, an
  unknown status means that the complete body was sent and no reply was read, and every other error but a
  final rejection means that the body was not sent completely.
\<close>

section \<open>The complete body\<close>

abbreviation body_of :: "wire \<Rightarrow> string \<Rightarrow> wire_event" where
  "body_of w payload \<equiv> Sent (wr_tls w) (dot_stuff payload @ end_of_data)"

lemma send_line_cases:
  obtains (sent) w1 where "send_line w l = (w1, None)" "wr_log w1 = wr_log w @ [Sent (wr_tls w) (l @ crlf)]"
      "wr_tls w1 = wr_tls w" "wr_end w1 = wr_end w" "wr_fails w1 = wr_fails w"
    | (broken) w1 e n where "send_line w l = (w1, Some e)" "wr_fails w n = Some e"
  unfolding send_line_def by (cases rule: wire_send_cases [of w "l @ crlf"]) (auto intro: that)

lemma expected_cases:
  obtains (failed) w1 e where "read_expected ok w = (w1, Some e)" "wr_log w1 = wr_log w" "wr_tls w1 = wr_tls w"
      "e = wr_end w \<or> (\<exists>line. e = invalid_reply line)" "wr_end w1 = wr_end w" "wr_fails w1 = wr_fails w"
    | (accepted) w1 code where "read_expected ok w = (w1, None)" "ok code" "wr_log w1 = wr_log w @ [Got code]" "wr_tls w1 = wr_tls w"
      "wr_end w1 = wr_end w" "wr_fails w1 = wr_fails w"
    | (refused) w1 code line where "read_expected ok w = (w1, Some (reply_error code line))" "\<not> ok code"
      "wr_log w1 = wr_log w @ [Got code]" "wr_tls w1 = wr_tls w" "wr_end w1 = wr_end w" "wr_fails w1 = wr_fails w"
proof (cases rule: read_expected_cases [of ok w])
  case (failed rest e)
  then show ?thesis using read_code_error [of w] by (intro that(1) [of "w\<lparr>wr_input := rest\<rparr>" e]) auto
next
  case (accepted rest code)
  then show ?thesis by (intro that(2) [of "w\<lparr>wr_input := rest, wr_log := wr_log w @ [Got code]\<rparr>" code]) auto
next
  case (refused rest code line)
  then show ?thesis by (intro that(3) [of "w\<lparr>wr_input := rest, wr_log := wr_log w @ [Got code]\<rparr>" code line]) auto
qed

section \<open>Success\<close>

lemma body_success:
  assumes "send_body w payload = (w', ok, None)"
  obtains c where "is_2xx c" "wr_log w' = wr_log w @ [body_of w payload, Got c]" "ok"
proof -
  obtain w1 r1 where s: "wire_send w (dot_stuff payload @ end_of_data) = (w1, r1)" by force
  have r1: "r1 = None" using assms by (auto simp: send_body_def s split: option.splits)
  then have log1: "wr_log w1 = wr_log w @ [body_of w payload]"
    using s by (cases rule: wire_send_cases [of w "dot_stuff payload @ end_of_data"]) auto
  show ?thesis
  proof (cases rule: expected_cases [of is_2xx w1])
    case (accepted w2 code)
    then show ?thesis using assms log1 by (intro that) (auto simp: send_body_def s r1 expect_2xx_def)
  qed (use assms in \<open>auto simp: send_body_def s r1 expect_2xx_def\<close>)
qed

lemma data_success:
  assumes "send_data prepare msg w = (w', ok, None)"
  obtains payload c where "prepare msg = Inr payload" "is_2xx c" "ok"
    "wr_log w' = wr_log w @ [Sent (wr_tls w) (''DATA'' @ crlf), Got 354, body_of w payload, Got c]"
proof (cases rule: send_line_cases [of w "''DATA''"])
  case (sent w1)
  show ?thesis
  proof (cases rule: expected_cases [of "\<lambda>code. code = 354" w1])
    case (accepted w2 code)
    then obtain payload where p: "prepare msg = Inr payload" "send_body w2 payload = (w', ok, None)"
      using assms by (auto simp: send_data_def sent expect_code_def split: sum.splits prod.splits)
    from p(2) obtain c where "is_2xx c" "wr_log w' = wr_log w2 @ [body_of w2 payload, Got c]" "ok" by (rule body_success)
    then show ?thesis using p(1) sent accepted by (intro that) auto
  qed (use assms in \<open>auto simp: send_data_def sent expect_code_def reject_with_def split: prod.splits\<close>)
qed (use assms in \<open>auto simp: send_data_def\<close>)

lemma rcpt_success:
  assumes "send_rcpt prepare d msg rcpt w = (w', ok, None)"
  obtains payload c1 c2 where "prepare msg = Inr payload" "is_2xx3xx c1" "is_2xx c2" "ok"
    "wr_log w' = wr_log w @ [Sent (wr_tls w) (rcpt_command d msg rcpt @ crlf), Got c1, Sent (wr_tls w) (''DATA'' @ crlf), Got 354,
       body_of w payload, Got c2]"
proof (cases rule: send_line_cases [of w "rcpt_command d msg rcpt"])
  case (sent w1)
  show ?thesis
  proof (cases rule: expected_cases [of is_2xx3xx w1])
    case (accepted w2 code)
    then have "send_data prepare msg w2 = (w', ok, None)"
      using assms by (simp add: send_rcpt_def sent expect_2xx3xx_def)
    then obtain payload c where "prepare msg = Inr payload" "is_2xx c" "ok"
      "wr_log w' = wr_log w2 @ [Sent (wr_tls w2) (''DATA'' @ crlf), Got 354, body_of w2 payload, Got c]"
      by (rule data_success)
    then show ?thesis using sent accepted by (intro that) auto
  qed (use assms in \<open>auto simp: send_rcpt_def sent expect_2xx3xx_def reject_with_def split: prod.splits\<close>)
qed (use assms in \<open>auto simp: send_rcpt_def\<close>)

lemma transaction_success:
  assumes "deliver_transaction prepare ses msg rcpt = (w', ok, None)"
  obtains payload c1 c2 c3 where "prepare msg = Inr payload" "is_2xx c1" "is_2xx3xx c2" "is_2xx c3" "ok"
    "require_tls msg \<longrightarrow> ses_tls ses \<and> ses_require_tls ses"
    "wr_log w' = wr_log (ses_wire ses) @
       [Sent (wr_tls (ses_wire ses)) (mail_command ses msg @ crlf), Got c1,
        Sent (wr_tls (ses_wire ses)) (rcpt_command (ses_dsn ses) msg rcpt @ crlf), Got c2,
        Sent (wr_tls (ses_wire ses)) (''DATA'' @ crlf), Got 354, body_of (ses_wire ses) payload, Got c3]"
proof -
  have t: "\<not> (require_tls msg \<and> (\<not> ses_tls ses \<or> \<not> ses_require_tls ses))"
    using assms by (auto simp: deliver_transaction_def Let_def split: if_splits)
  show ?thesis
  proof (cases rule: send_line_cases [of "ses_wire ses" "mail_command ses msg"])
    case (sent w1)
    show ?thesis
    proof (cases rule: expected_cases [of is_2xx w1])
      case (accepted w2 code)
      then have "send_rcpt prepare (ses_dsn ses) msg rcpt w2 = (w', ok, None)"
        using assms t by (auto simp: deliver_transaction_def Let_def sent expect_2xx_def)
      then obtain payload c2 c3 where "prepare msg = Inr payload" "is_2xx3xx c2" "is_2xx c3" "ok"
        "wr_log w' = wr_log w2 @ [Sent (wr_tls w2) (rcpt_command (ses_dsn ses) msg rcpt @ crlf), Got c2,
           Sent (wr_tls w2) (''DATA'' @ crlf), Got 354, body_of w2 payload, Got c3]"
        by (rule rcpt_success)
      then show ?thesis using sent accepted t by (intro that) auto
    qed (use assms t in \<open>auto simp: deliver_transaction_def Let_def sent expect_2xx_def reject_with_def split: prod.splits\<close>)
  qed (use assms t in \<open>auto simp: deliver_transaction_def Let_def\<close>)
qed

section \<open>Unknown status\<close>

text \<open>The errors of the connection and of the preparation are not themselves reports of an unknown status.\<close>
definition plain_errors :: "(message \<Rightarrow> derror + string) \<Rightarrow> message \<Rightarrow> wire \<Rightarrow> bool" where
  "plain_errors prepare msg w \<longleftrightarrow>
     \<not> is_unknown (wr_end w) \<and> as_smtp (wr_end w) = None \<and> (\<forall>n e. wr_fails w n = Some e \<longrightarrow> \<not> is_unknown e) \<and> (\<forall>e. prepare msg = Inl e \<longrightarrow> \<not> is_unknown e)"

lemma at_stage_unknown [simp]: "\<not> is_unknown e \<Longrightarrow> \<not> is_unknown (at_stage st e)"
  by (cases "as_smtp e") (simp_all add: at_stage_def)

lemma reply_error_known [simp]:
  "\<not> is_unknown (reply_error c l)" "as_smtp (reply_error c l) \<noteq> None" "\<not> is_eof (reply_error c l)" "\<not> is_network (reply_error c l)"
  by (simp_all add: reply_error_def is_eof_def is_network_def)

lemma invalid_reply_known [simp]:
  "\<not> is_unknown (invalid_reply l)" "as_smtp (invalid_reply l) = None" "\<not> is_eof (invalid_reply l)" "\<not> is_network (invalid_reply l)"
  by (simp_all add: invalid_reply_def is_eof_def is_network_def)

text \<open>The last thing the connection saw is the complete body: no reply to it was read.\<close>
definition unanswered_body :: "wire \<Rightarrow> wire \<Rightarrow> string \<Rightarrow> bool" where
  "unanswered_body w w' payload \<longleftrightarrow> (\<exists>evs. wr_log w' = wr_log w @ evs @ [body_of w payload])"

lemma body_outcome:
  assumes "send_body w payload = (w', ok, r)" and "\<not> is_unknown (wr_end w)" and "\<And>n e. wr_fails w n = Some e \<Longrightarrow> \<not> is_unknown e"
  shows "(\<exists>e. r = Some e \<and> is_unknown e) \<Longrightarrow> wr_log w' = wr_log w @ [body_of w payload]"
    and "wr_log w' = wr_log w @ [body_of w payload] \<Longrightarrow> is_eof (wr_end w) \<or> is_network (wr_end w) \<Longrightarrow>
       (\<exists>e. r = Some e \<and> is_unknown e) \<or>
       (\<exists>line. r = Some (Wrapped ''final delivery reject: '' (at_stage StageDATA (invalid_reply line))))"
proof -
  obtain w1 r1 where s: "wire_send w (dot_stuff payload @ end_of_data) = (w1, r1)" by force
  have "wr_log w1 = wr_log w @ [if r1 = None then body_of w payload else Broken (wr_tls w) (dot_stuff payload @ end_of_data)]"
    "wr_end w1 = wr_end w" "\<And>e. r1 = Some e \<Longrightarrow> \<not> is_unknown e"
    using s assms(3) by (cases rule: wire_send_cases [of w "dot_stuff payload @ end_of_data"]; auto)+
  note f = this
  have "((\<exists>e. r = Some e \<and> is_unknown e) \<longrightarrow> wr_log w' = wr_log w @ [body_of w payload]) \<and>
    (wr_log w' = wr_log w @ [body_of w payload] \<longrightarrow> is_eof (wr_end w) \<or> is_network (wr_end w) \<longrightarrow>
       (\<exists>e. r = Some e \<and> is_unknown e) \<or>
       (\<exists>line. r = Some (Wrapped ''final delivery reject: '' (at_stage StageDATA (invalid_reply line)))))"
  proof (cases r1)
    case (Some e)
    then show ?thesis using assms(1) f by (auto simp: send_body_def s)
  next
    case None
    show ?thesis
    proof (cases rule: expected_cases [of is_2xx w1])
      case (failed w2 e)
      then show ?thesis using assms(1,2) f None by (auto simp: send_body_def s expect_2xx_def)
    next
      case (accepted w2 code)
      then show ?thesis using assms(1) f None by (auto simp: send_body_def s expect_2xx_def)
    next
      case (refused w2 code line)
      then show ?thesis using assms(1) f None refused by (auto simp: send_body_def s expect_2xx_def)
    qed
  qed
  then show "(\<exists>e. r = Some e \<and> is_unknown e) \<Longrightarrow> wr_log w' = wr_log w @ [body_of w payload]"
    and "wr_log w' = wr_log w @ [body_of w payload] \<Longrightarrow> is_eof (wr_end w) \<or> is_network (wr_end w) \<Longrightarrow>
       (\<exists>e. r = Some e \<and> is_unknown e) \<or>
       (\<exists>line. r = Some (Wrapped ''final delivery reject: '' (at_stage StageDATA (invalid_reply line))))"
    by blast+
qed

text \<open>The last event of the operation is not the end of a body.\<close>
definition settled :: "wire \<Rightarrow> wire \<Rightarrow> bool" where
  "settled w w' \<longleftrightarrow> wr_log w' = wr_log w \<or>
     (\<exists>evs ev. wr_log w' = wr_log w @ evs @ [ev] \<and> (\<forall>tls s. ev = Sent tls s \<longrightarrow> \<not> suffix end_of_data s))"

lemma settled_not_body: "settled w w' \<Longrightarrow> \<not> unanswered_body w w' payload"
  by (auto simp: settled_def unanswered_body_def suffix_def)

lemma settled_after: "wr_log w = wr_log v @ evs \<Longrightarrow> settled w w' \<Longrightarrow> evs = [] \<or> wr_log w' \<noteq> wr_log w \<Longrightarrow> settled v w'"
  unfolding settled_def by force

lemma rset_no_body [simp]: "\<not> suffix end_of_data (''RSET'' @ crlf)"
  by (simp add: end_of_data_def crlf_def suffix_def)

lemma send_line_settled: "send_line w l = (w', Some e) \<Longrightarrow> settled w w'"
  unfolding send_line_def by (cases rule: wire_send_cases [of w "l @ crlf"]) (auto simp: settled_def)

lemma reset_settled: "reset_session w = (w', ok) \<Longrightarrow> settled w w' \<and> wr_log w' \<noteq> wr_log w"
proof -
  assume eq: "reset_session w = (w', ok)"
  obtain w1 r1 where s: "send_line w ''RSET'' = (w1, r1)" by force
  have l1: "wr_log w1 = wr_log w @ [if r1 = None then Sent (wr_tls w) (''RSET'' @ crlf) else Broken (wr_tls w) (''RSET'' @ crlf)]"
    using s unfolding send_line_def by (cases rule: wire_send_cases [of w "''RSET'' @ crlf"]) auto
  show ?thesis
  proof (cases r1)
    case (Some e)
    then show ?thesis using eq l1 by (auto simp: reset_session_def s settled_def)
  next
    case None
    show ?thesis
      using eq l1 None rset_no_body
      by (cases rule: expected_cases [of is_2xx w1]) (auto simp: reset_session_def s expect_2xx_def settled_def)
  qed
qed

lemma reject_settled:
  assumes "reject_with w e err = (w', ok, r)" and "as_smtp e = None \<or> (\<exists>c evs. wr_log w = wr_log v @ evs @ [Got c])"
    and "\<exists>evs. wr_log w = wr_log v @ evs"
  shows "settled v w'"
proof (cases "\<exists>r. as_smtp e = Some r \<and> sr_code r = 421")
  case True
  then obtain c evs where "wr_log w = wr_log v @ evs @ [Got c]" using assms(2) by auto
  then show ?thesis using assms(1) True by (auto simp: reject_with_def reusable_after_reject_def settled_def)
next
  case False
  then have "reset_session w = (w', ok)"
    using assms(1) by (auto simp: reject_with_def reusable_after_reject_def split: option.splits prod.splits if_splits)
  from reset_settled [OF this] assms(3) show ?thesis by (auto intro: settled_after)
qed

abbreviation follows :: "wire \<Rightarrow> wire \<Rightarrow> bool" where
  "follows \<equiv> talks (\<lambda>_. True)"

text \<open>Either the body was sent from some later state, or the operation ended before it with a known error.\<close>
definition branch :: "(message \<Rightarrow> derror + string) \<Rightarrow> message \<Rightarrow> wire \<Rightarrow> wire \<Rightarrow> bool \<Rightarrow> derror option \<Rightarrow> bool" where
  "branch prepare msg v w' ok r \<longleftrightarrow>
     (\<exists>payload w. prepare msg = Inr payload \<and> follows v w \<and> send_body w payload = (w', ok, r)) \<or>
     settled v w' \<and> (\<exists>e. r = Some e \<and> \<not> is_unknown e)"

lemma follows_log: "follows v w \<Longrightarrow> \<exists>evs. wr_log w = wr_log v @ evs"
  by (auto simp: talks_def)

lemma settled_follows: "follows v w \<Longrightarrow> settled w w' \<Longrightarrow> wr_log w' \<noteq> wr_log w \<Longrightarrow> settled v w'"
  using follows_log settled_after by metis

lemma branch_send:
  assumes "follows v w" and "plain_errors prepare msg v" and "send_line w l = (w1, Some e)"
  shows "branch prepare msg v w1 ok (Some (at_stage st e))"
proof -
  have "wr_log w1 \<noteq> wr_log w" using assms(3) by (auto simp: send_line_def wire_send_def split: option.splits)
  moreover have "\<not> is_unknown e"
    using assms by (cases rule: send_line_cases [of w l]) (auto simp: plain_errors_def talks_def)
  ultimately show ?thesis
    using assms settled_follows [OF assms(1) send_line_settled [OF assms(3)]] by (simp add: branch_def)
qed

lemma branch_expect:
  assumes "follows v w" and "plain_errors prepare msg v" and "read_expected p w = (w1, Some e)"
    and "reject_with w1 e (Wrapped t (at_stage st e)) = (w', ok, r)"
  shows "branch prepare msg v w' ok r"
proof -
  have r: "r = Some (Wrapped t (at_stage st e))" using assms(4) by (auto simp: reject_with_def split: prod.splits)
  have f: "follows v w1" using assms(1,3) by (blast intro: talks_trans talks_read_expected)
  obtain evs where evs: "wr_log w = wr_log v @ evs" using follows_log [OF assms(1)] by blast
  have "settled v w' \<and> \<not> is_unknown e"
  proof (cases rule: expected_cases [of p w])
    case (failed w2 e2)
    then have "as_smtp e = None" "\<not> is_unknown e"
      using assms by (auto simp: plain_errors_def talks_def)
    then show ?thesis using reject_settled [OF assms(4), of v] follows_log [OF f] by simp
  next
    case (accepted w2 code)
    then show ?thesis using assms(3) by simp
  next
    case (refused w2 code line)
    then show ?thesis using reject_settled [OF assms(4), of v] assms(3) evs by auto
  qed
  then show ?thesis by (simp add: branch_def r)
qed

lemma branch_data:
  assumes "follows v w" and "plain_errors prepare msg v" and "send_data prepare msg w = (w', ok, r)"
  shows "branch prepare msg v w' ok r"
proof -
  obtain w1 r1 where s: "send_line w ''DATA'' = (w1, r1)" by force
  show ?thesis
  proof (cases r1)
    case (Some e)
    then show ?thesis using assms branch_send [OF assms(1,2), of "''DATA''" w1 e] s by (auto simp: send_data_def)
  next
    case None
    have f1: "follows v w1" using assms(1) s by (blast intro: talks_trans talks_send_line)
    obtain w2 r2 where x: "read_expected (\<lambda>c. c = 354) w1 = (w2, r2)" by force
    have f2: "follows v w2" using f1 x by (blast intro: talks_trans talks_read_expected)
    show ?thesis
    proof (cases r2)
      case (Some e)
      then show ?thesis
        using assms(3) None
        by (intro branch_expect [OF f1 assms(2), of "\<lambda>c. c = 354" w2 e]) (auto simp: send_data_def s x expect_code_def)
    next
      case r2: None
      show ?thesis
      proof (cases "prepare msg")
        case (Inl e)
        then have "reset_session w2 = (w', ok)" "r = Some e"
          using assms(3) None r2 by (auto simp: send_data_def s x expect_code_def split: prod.splits)
        then show ?thesis
          using reset_settled [of w2 w' ok] settled_follows [OF f2] assms(2) Inl by (auto simp: branch_def plain_errors_def)
      next
        case (Inr payload)
        then show ?thesis using assms(3) None r2 f2 by (auto simp: branch_def send_data_def s x expect_code_def)
      qed
    qed
  qed
qed

lemma branch_rcpt:
  assumes "follows v w" and "plain_errors prepare msg v" and "send_rcpt prepare d msg rcpt w = (w', ok, r)"
  shows "branch prepare msg v w' ok r"
proof -
  obtain w1 r1 where s: "send_line w (rcpt_command d msg rcpt) = (w1, r1)" by force
  obtain w2 r2 where x: "read_expected is_2xx3xx w1 = (w2, r2)" by force
  have f1: "follows v w1" using assms(1) s by (blast intro: talks_trans talks_send_line)
  have f2: "follows v w2" using f1 x by (blast intro: talks_trans talks_read_expected)
  consider (broken) e where "r1 = Some e" | (refused) e where "r1 = None" "r2 = Some e" | (ok) "r1 = None" "r2 = None"
    by (cases r1; cases r2) auto
  then show ?thesis
  proof cases
    case broken
    then show ?thesis using assms branch_send [OF assms(1,2)] s by (auto simp: send_rcpt_def)
  next
    case refused
    then show ?thesis
      using assms(3) by (intro branch_expect [OF f1 assms(2), of is_2xx3xx w2 e]) (auto simp: send_rcpt_def s x expect_2xx3xx_def)
  next
    case ok
    then show ?thesis using assms(3) by (intro branch_data [OF f2 assms(2)]) (simp add: send_rcpt_def s x expect_2xx3xx_def)
  qed
qed

lemma transaction_branch:
  assumes "deliver_transaction prepare ses msg rcpt = (w', ok, r)" and "plain_errors prepare msg (ses_wire ses)"
  shows "branch prepare msg (ses_wire ses) w' ok r"
proof (cases "require_tls msg \<and> (\<not> ses_tls ses \<or> \<not> ses_require_tls ses)")
  case True
  then show ?thesis
    using assms(1) by (auto simp: deliver_transaction_def Let_def branch_def settled_def stage_response_def)
next
  case False
  let ?w = "ses_wire ses"
  obtain w1 r1 where s: "send_line ?w (mail_command ses msg) = (w1, r1)" by force
  obtain w2 r2 where x: "read_expected is_2xx w1 = (w2, r2)" by force
  have f0: "follows ?w ?w" by simp
  have f1: "follows ?w w1" using s by (blast intro: talks_send_line)
  have f2: "follows ?w w2" using f1 x by (blast intro: talks_trans talks_read_expected)
  have eq: "(case r1 of Some e \<Rightarrow> (w1, False, Some (at_stage StageMAIL e))
      | None \<Rightarrow> (case r2 of Some e \<Rightarrow> reject_with w2 e (Wrapped ''mail from rejected: '' (at_stage StageMAIL e))
          | None \<Rightarrow> send_rcpt prepare (ses_dsn ses) msg rcpt w2)) = (w', ok, r)"
    using assms(1) False unfolding deliver_transaction_def Let_def s expect_2xx_def prod.case x
    by (auto split: option.splits)
  consider (broken) e where "r1 = Some e" | (refused) e where "r1 = None" "r2 = Some e" | (ok) "r1 = None" "r2 = None"
    by (cases r1; cases r2) auto
  then show ?thesis
  proof cases
    case broken
    then show ?thesis using eq branch_send [OF f0 assms(2)] s by auto
  next
    case refused
    then show ?thesis using eq x by (intro branch_expect [OF f1 assms(2), of is_2xx w2 e]) auto
  next
    case ok
    then show ?thesis using eq by (intro branch_rcpt [OF f2 assms(2)]) simp
  qed
qed

lemma follows_body: "follows v w \<Longrightarrow> wr_log w' = wr_log w @ [body_of w payload] \<Longrightarrow> unanswered_body v w' payload"
  by (auto simp: unanswered_body_def talks_def)

lemma transaction_unknown:
  assumes "deliver_transaction prepare ses msg rcpt = (w', ok, Some e)" and "is_unknown e" and "plain_errors prepare msg (ses_wire ses)"
  obtains payload where "prepare msg = Inr payload" "unanswered_body (ses_wire ses) w' payload"
proof -
  obtain payload w where p: "prepare msg = Inr payload" "follows (ses_wire ses) w" "send_body w payload = (w', ok, Some e)"
    using transaction_branch [OF assms(1,3)] assms(2) by (auto simp: branch_def)
  have "wr_log w' = wr_log w @ [body_of w payload]"
    using body_outcome(1) [OF p(3)] p(2) assms(2,3) by (auto simp: plain_errors_def talks_def)
  then show ?thesis using that p follows_body by blast
qed

lemma body_log_cases:
  "send_body w payload = (w', ok, r) \<Longrightarrow> wr_log w' = wr_log w @ [body_of w payload] \<or> settled w w' \<and> wr_log w' \<noteq> wr_log w"
proof -
  assume eq: "send_body w payload = (w', ok, r)"
  obtain w1 r1 where s: "wire_send w (dot_stuff payload @ end_of_data) = (w1, r1)" by force
  have l1: "wr_log w1 = wr_log w @ [if r1 = None then body_of w payload else Broken (wr_tls w) (dot_stuff payload @ end_of_data)]"
    using s by (cases rule: wire_send_cases [of w "dot_stuff payload @ end_of_data"]) auto
  show ?thesis
  proof (cases r1)
    case (Some e)
    then show ?thesis using eq l1 by (auto simp: send_body_def s settled_def)
  next
    case None
    then show ?thesis using eq l1
      by (cases rule: expected_cases [of is_2xx w1]) (auto simp: send_body_def s expect_2xx_def settled_def)
  qed
qed

lemma transaction_unanswered:
  assumes "deliver_transaction prepare ses msg rcpt = (w', ok, r)" and "plain_errors prepare msg (ses_wire ses)"
    and "prepare msg = Inr payload" and "unanswered_body (ses_wire ses) w' payload"
    and "is_eof (wr_end (ses_wire ses)) \<or> is_network (wr_end (ses_wire ses))"
  shows "(\<exists>e. r = Some e \<and> is_unknown e) \<or>
    (\<exists>line. r = Some (Wrapped ''final delivery reject: '' (at_stage StageDATA (invalid_reply line))))"
proof -
  obtain w where p: "follows (ses_wire ses) w" "send_body w payload = (w', ok, r)"
    using transaction_branch [OF assms(1,2)] settled_not_body assms(3,4) by (auto simp: branch_def)
  have "wr_log w' = wr_log w @ [body_of w payload]"
    using body_log_cases [OF p(2)] settled_follows [OF p(1)] settled_not_body assms(4) by blast
  then show ?thesis
    using body_outcome(2) [OF p(2)] p(1) assms(2,5) by (auto simp: plain_errors_def talks_def)
qed

end
