(* ===== verification/Router.thy ===== *)
theory Router
  imports Classification "HOL-Library.AList" "HOL-Library.Product_Lexorder" "HOL-Library.Multiset"
begin

text \<open>
  MX resolution (\<^verbatim>\<open>internal/router/mx.go\<close>) and the resolver with a cache (\<^verbatim>\<open>internal/router/cache.go\<close>). The DNS resolver of Go's library is an argument: what it
  answers for a name. A result is a value with an optional error, as in Go.

  A map is an association list; the order in which Go ranges over it is not specified, and the lemmas hold
  for every order. A lookup holds the lock for two sections, with the query between them: \<open>cache_begin\<close>
  and \<open>cache_finish\<close>, the same for MX records and for addresses.
\<close>

record mx_host =
  mx_name :: string
  mx_pref :: nat

type_synonym 'v answer = "'v \<times> derror option"

text \<open>\<^verbatim>\<open>normalizeDNSName\<close>\<close>
definition normalize_name :: "string \<Rightarrow> string" where
  "normalize_name s = trim_suffix (to_lower (trim_space s)) ''.''"

text \<open>The records as hosts, by preference and then by name\<close>
definition mx_order :: "mx_host list \<Rightarrow> mx_host list" where
  "mx_order hosts = sort_key (\<lambda>h. (mx_pref h, mx_name h)) (map (\<lambda>m. m\<lparr>mx_name := trim_suffix (mx_name m) ''.''\<rparr>) hosts)"

text \<open>\<^verbatim>\<open>ResolveMX\<close>, with the answers for MX records and for addresses\<close>
definition resolve_mx :: "(string \<Rightarrow> mx_host list answer) \<Rightarrow> (string \<Rightarrow> string list answer) \<Rightarrow> string \<Rightarrow> mx_host list answer" where
  "resolve_mx lookup_mx lookup_host domain =
     (case lookup_mx domain of
        (mx, err) \<Rightarrow>
          if err \<noteq> None \<or> mx = [] then
            (case lookup_host domain of
               (addrs, aerr) \<Rightarrow>
                 if aerr \<noteq> None \<or> addrs = [] then ([], err)
                 else ([\<lparr>mx_name = trim_suffix domain ''.'', mx_pref = 0\<rparr>], None))
          else (mx_order mx, None))"

section \<open>The cache\<close>

record dns_config =
  dc_enabled :: bool
  dc_positive :: duration
  dc_negative :: duration
  dc_capacity :: int

text \<open>The settings of \<^verbatim>\<open>NewCachedResolver\<close>\<close>
definition cache_settings :: "dns_config \<Rightarrow> dns_config" where
  "cache_settings c =
     c\<lparr>dc_positive := (if dc_positive c \<le> 0 then minute else dc_positive c),
       dc_negative := (if dc_negative c \<le> 0 then 30 * second else dc_negative c),
       dc_capacity := (if dc_capacity c \<le> 0 then 10000 else dc_capacity c)\<rparr>"

record 'v cache_entry =
  ce_answer :: "'v answer"
  ce_expires :: time
  ce_used :: time

type_synonym 'v entries = "(string \<times> 'v cache_entry) list"

text \<open>\<^verbatim>\<open>oldestMX\<close> and \<^verbatim>\<open>oldestHost\<close>\<close>
definition oldest :: "'v entries \<Rightarrow> string" where
  "oldest es = fst (foldl (\<lambda>(key, used) (k, e). if key = [] \<or> ce_used e < used then (k, ce_used e) else (key, used)) ([], zero_time) es)"

lemma oldest_step:
  "fst (foldl (\<lambda>(key, used) (k, e). if key = [] \<or> ce_used e < used then (k, ce_used e) else (key, used)) (k0, t0) es) \<in> insert k0 (fst ` set es)"
proof (induction es arbitrary: k0 t0)
  case (Cons x es)
  obtain k e where x: "x = (k, e)" by (cases x)
  show ?case using Cons.IH [of k "ce_used e"] Cons.IH [of k0 t0] by (auto simp: x)
qed simp

lemma oldest_in: "es \<noteq> [] \<Longrightarrow> oldest es \<in> fst ` set es"
proof (cases es)
  case (Cons x xs)
  obtain k e where x: "x = (k, e)" by (cases x)
  show ?thesis using oldest_step [of k "ce_used e" xs] by (simp add: oldest_def Cons x)
qed simp

lemma delete_shorter: "k \<in> fst ` set es \<Longrightarrow> length (AList.delete k es) < length es"
  unfolding AList.delete_eq by (induction es) (auto simp: less_Suc_eq_le rev_image_eqI intro: Suc_leI)

text \<open>
  The eviction loop while the capacity is reached. The capacity is positive, as the constructor makes it: with
  none the loop of the program would not end.
\<close>
function evict_loop :: "int \<Rightarrow> 'v entries \<Rightarrow> 'v entries" where
  "evict_loop cap es = (if cap \<le> 0 \<or> int (length es) < cap then es else evict_loop cap (AList.delete (oldest es) es))"
  by pat_completeness auto
termination
  by (relation "measure (\<lambda>(_, es). length es)") (auto intro!: delete_shorter oldest_in)

declare evict_loop.simps [simp del]

text \<open>\<^verbatim>\<open>evictMXLocked\<close> and \<^verbatim>\<open>evictHostLocked\<close>\<close>
definition evict :: "dns_config \<Rightarrow> time \<Rightarrow> 'v entries \<Rightarrow> 'v entries" where
  "evict cfg now es = evict_loop (dc_capacity cfg) (filter (\<lambda>(k, e). now < ce_expires e) es)"

text \<open>
  \<^verbatim>\<open>cacheableDNSResult\<close>: \<open>done\<close> is that the context has ended, \<open>times_out\<close> what \<^verbatim>\<open>net.Error.Timeout\<close> says
  of the error, cancelled and expired contexts included.
\<close>
definition cacheable :: "(derror \<Rightarrow> bool) \<Rightarrow> bool \<Rightarrow> derror option \<Rightarrow> bool" where
  "cacheable times_out ended err \<longleftrightarrow> \<not> ended \<and> (case err of None \<Rightarrow> True | Some e \<Rightarrow> \<not> times_out e)"

text \<open>One of the two caches with the names that are being looked up\<close>
record 'v dns_cache =
  da_entries :: "'v entries"
  da_calls :: "string list"

datatype 'v begun = Hit "'v answer" | Join | Lead

text \<open>The first section: an answer from the cache, waiting for a lookup under way, or a lookup of one's own\<close>
definition cache_begin :: "'v dns_cache \<Rightarrow> time \<Rightarrow> string \<Rightarrow> 'v dns_cache \<times> 'v begun" where
  "cache_begin c now key =
     (case map_of (da_entries c) key of
        Some e \<Rightarrow>
          if now < ce_expires e then (c\<lparr>da_entries := AList.update key (e\<lparr>ce_used := now\<rparr>) (da_entries c)\<rparr>, Hit (ce_answer e))
          else if key \<in> set (da_calls c) then (c, Join)
          else (c\<lparr>da_calls := key # da_calls c\<rparr>, Lead)
      | None \<Rightarrow> if key \<in> set (da_calls c) then (c, Join) else (c\<lparr>da_calls := key # da_calls c\<rparr>, Lead))"

text \<open>The second section, with the time of the first\<close>
definition cache_finish :: "dns_config \<Rightarrow> bool \<Rightarrow> 'v dns_cache \<Rightarrow> time \<Rightarrow> string \<Rightarrow> 'v answer \<Rightarrow> 'v dns_cache" where
  "cache_finish cfg keep c now key ans =
     (let c1 = c\<lparr>da_calls := removeAll key (da_calls c)\<rparr> in
      if keep then
        c1\<lparr>da_entries := AList.update key
             \<lparr>ce_answer = ans, ce_expires = now + (if snd ans = None then dc_positive cfg else dc_negative cfg), ce_used = now\<rparr>
             (evict cfg now (da_entries c1))\<rparr>
      else c1)"

text \<open>
  A lookup through a cache: \<open>query\<close> is what it costs without the cache, \<open>joined\<close> the answer of the lookup
  that was under way, or the end of the context while waiting for it.
\<close>
definition cached_lookup ::
    "dns_config \<Rightarrow> (derror \<Rightarrow> bool) \<Rightarrow> bool \<Rightarrow> time \<Rightarrow> string \<Rightarrow> 'v answer \<Rightarrow> ('s \<Rightarrow> 's \<times> 'v answer)
     \<Rightarrow> ('s \<Rightarrow> 'v dns_cache) \<Rightarrow> ('v dns_cache \<Rightarrow> 's \<Rightarrow> 's) \<Rightarrow> 's \<Rightarrow> 's \<times> 'v answer" where
  "cached_lookup cfg times_out ended now key joined query get put s =
     (if \<not> dc_enabled cfg then query s
      else (case cache_begin (get s) now key of
        (c, Hit ans) \<Rightarrow> (put c s, ans)
      | (c, Join) \<Rightarrow> (put c s, joined)
      | (c, Lead) \<Rightarrow>
          (case query (put c s) of
             (s', ans) \<Rightarrow> (put (cache_finish cfg (cacheable times_out ended (snd ans)) (get s') now key ans) s', ans))))"

record cached_resolver =
  cr_cfg :: dns_config
  cr_mx :: "mx_host list dns_cache"
  cr_host :: "string list dns_cache"

text \<open>\<^verbatim>\<open>NewCachedResolver\<close>\<close>
definition new_cached_resolver :: "dns_config \<Rightarrow> cached_resolver" where
  "new_cached_resolver cfg =
     \<lparr>cr_cfg = cache_settings cfg, cr_mx = \<lparr>da_entries = [], da_calls = []\<rparr>, cr_host = \<lparr>da_entries = [], da_calls = []\<rparr>\<rparr>"

text \<open>What the lookups meet: the resolver's answers, the answers of lookups under way, the ended context and the time\<close>
record dns_world =
  dw_mx :: "string \<Rightarrow> mx_host list answer"
  dw_host :: "string \<Rightarrow> string list answer"
  dw_joined_mx :: "mx_host list answer"
  dw_joined_host :: "string list answer"
  dw_times_out :: "derror \<Rightarrow> bool"
  dw_ended :: bool
  dw_now :: time

text \<open>\<^verbatim>\<open>LookupHost\<close>\<close>
definition cached_host :: "dns_world \<Rightarrow> string \<Rightarrow> cached_resolver \<Rightarrow> cached_resolver \<times> string list answer" where
  "cached_host w host r =
     (let key = normalize_name host in
      cached_lookup (cr_cfg r) (dw_times_out w) (dw_ended w) (dw_now w) key (dw_joined_host w) (\<lambda>r. (r, dw_host w key))
        cr_host (\<lambda>c r. r\<lparr>cr_host := c\<rparr>) r)"

text \<open>\<^verbatim>\<open>lookupMXAndFallback\<close>\<close>
definition mx_and_fallback :: "dns_world \<Rightarrow> string \<Rightarrow> cached_resolver \<Rightarrow> cached_resolver \<times> mx_host list answer" where
  "mx_and_fallback w domain r =
     (case dw_mx w domain of
        (mx, err) \<Rightarrow>
          if err \<noteq> None \<or> mx = [] then
            (case cached_host w domain r of
               (r', addrs, aerr) \<Rightarrow>
                 if aerr \<noteq> None \<or> addrs = [] then (r', [], if err \<noteq> None then err else aerr)
                 else (r', [\<lparr>mx_name = domain, mx_pref = 0\<rparr>], None))
          else (r, mx_order mx, None))"

text \<open>\<^verbatim>\<open>LookupMX\<close>\<close>
definition cached_mx :: "dns_world \<Rightarrow> string \<Rightarrow> cached_resolver \<Rightarrow> cached_resolver \<times> mx_host list answer" where
  "cached_mx w domain r =
     (let key = normalize_name domain in
      cached_lookup (cr_cfg r) (dw_times_out w) (dw_ended w) (dw_now w) key (dw_joined_mx w) (mx_and_fallback w key)
        cr_mx (\<lambda>c r. r\<lparr>cr_mx := c\<rparr>) r)"

section \<open>Interleaved lookups\<close>

text \<open>
  The cache, the lookups under way with the time they began, and the answers got so far with the name and
  the time of their lookup.
\<close>
type_synonym 'v cache_state = "'v dns_cache \<times> (string \<times> time) list \<times> (string \<times> time \<times> 'v answer) list"

inductive cache_step :: "dns_config \<Rightarrow> (derror \<Rightarrow> bool) \<Rightarrow> 'v cache_state \<Rightarrow> 'v cache_state \<Rightarrow> bool" for cfg times_out where
  answered: "cache_begin c now key = (c', Hit ans) \<Longrightarrow> cache_step cfg times_out (c, qs, h) (c', qs, h)"
| joins: "cache_begin c now key = (c', Join) \<Longrightarrow> cache_step cfg times_out (c, qs, h) (c', qs, h)"
| leads: "cache_begin c now key = (c', Lead) \<Longrightarrow> cache_step cfg times_out (c, qs, h) (c', (key, now) # qs, h)"
| finishes: "(key, now) \<in> set qs \<Longrightarrow> c' = cache_finish cfg (cacheable times_out ended (snd ans)) c now key ans \<Longrightarrow>
    cache_step cfg times_out (c, qs, h) (c', remove1 (key, now) qs, (key, now, ans) # h)"

definition cache_run :: "dns_config \<Rightarrow> (derror \<Rightarrow> bool) \<Rightarrow> 'v cache_state \<Rightarrow> bool" where
  "cache_run cfg times_out s \<longleftrightarrow> (cache_step cfg times_out)\<^sup>*\<^sup>* (\<lparr>da_entries = [], da_calls = []\<rparr>, [], []) s"

text \<open>An entry is an answer that was got for its name, with the time it may be used for, and no timeout.\<close>
definition entry_ok :: "dns_config \<Rightarrow> (derror \<Rightarrow> bool) \<Rightarrow> (string \<times> time \<times> 'v answer) list \<Rightarrow> string \<times> 'v cache_entry \<Rightarrow> bool" where
  "entry_ok cfg times_out h p \<longleftrightarrow>
     (\<exists>t. (fst p, t, ce_answer (snd p)) \<in> set h \<and>
        ce_expires (snd p) = t + (if snd (ce_answer (snd p)) = None then dc_positive cfg else dc_negative cfg)) \<and>
     (case snd (ce_answer (snd p)) of None \<Rightarrow> True | Some er \<Rightarrow> \<not> times_out er)"

lemma entry_ok_used [simp]: "entry_ok cfg times_out h (k, e\<lparr>ce_used := t\<rparr>) = entry_ok cfg times_out h (k, e)"
  by (simp add: entry_ok_def)

lemma entry_ok_Cons: "entry_ok cfg times_out h p \<Longrightarrow> entry_ok cfg times_out (x # h) p"
  by (auto simp: entry_ok_def)

definition cache_inv :: "dns_config \<Rightarrow> (derror \<Rightarrow> bool) \<Rightarrow> 'v cache_state \<Rightarrow> bool" where
  "cache_inv cfg times_out s = (case s of (c, qs, h) \<Rightarrow>
     distinct (map fst (da_entries c)) \<and> int (length (da_entries c)) \<le> dc_capacity cfg \<and>
     mset (map fst qs) = mset (da_calls c) \<and> distinct (da_calls c) \<and>
     (\<forall>p \<in> set (da_entries c). entry_ok cfg times_out h p))"

lemma evict_loop_subset: "set (evict_loop cap es) \<subseteq> set es \<and> (distinct (map fst es) \<longrightarrow> distinct (map fst (evict_loop cap es)))"
proof (induction cap es rule: evict_loop.induct)
  case (1 cap es)
  show ?case
  proof (cases "cap \<le> 0 \<or> int (length es) < cap")
    case False
    with 1 have "set (evict_loop cap es) \<subseteq> set (AList.delete (oldest es) es)"
      "distinct (map fst es) \<longrightarrow> distinct (map fst (evict_loop cap es))"
      by (subst evict_loop.simps, auto simp: distinct_delete)+
    then show ?thesis by (auto simp: AList.delete_eq)
  qed (simp add: evict_loop.simps)
qed

lemma evict_loop_bound: "0 < cap \<Longrightarrow> int (length (evict_loop cap es)) < cap"
  by (induction cap es rule: evict_loop.induct) (subst evict_loop.simps, auto)

lemma update_length: "length (AList.update k v xs) \<le> Suc (length xs)"
  by (induction xs) auto

lemma update_present_length: "map_of xs k \<noteq> None \<Longrightarrow> length (AList.update k v xs) = length xs"
  by (induction xs) auto

lemma update_set: "distinct (map fst xs) \<Longrightarrow> set (AList.update k v xs) = insert (k, v) {p \<in> set xs. fst p \<noteq> k}"
  by (induction xs) (auto simp: rev_image_eqI)

lemma begin_inv:
  assumes "cache_begin c now key = (c', b)" "cache_inv cfg times_out (c, qs, h)"
  shows "case b of Lead \<Rightarrow> cache_inv cfg times_out (c', (key, now) # qs, h) | _ \<Rightarrow> cache_inv cfg times_out (c', qs, h)"
proof (cases "\<exists>ans. b = Hit ans")
  case True
  then obtain e where e: "map_of (da_entries c) key = Some e" and c': "c' = c\<lparr>da_entries := AList.update key (e\<lparr>ce_used := now\<rparr>) (da_entries c)\<rparr>"
    using assms(1) by (auto simp: cache_begin_def split: option.splits if_splits)
  have "(key, e) \<in> set (da_entries c)" using e by (rule map_of_SomeD)
  then have "entry_ok cfg times_out h (key, e)" using assms(2) by (auto simp: cache_inv_def)
  moreover have "length (da_entries c') = length (da_entries c)" using e by (simp add: c' update_present_length)
  ultimately show ?thesis
    using True assms(2) by (auto simp: cache_inv_def c' update_set distinct_update)
next
  case False
  with assms(1) consider "b = Join" "c' = c" | "b = Lead" "c' = c\<lparr>da_calls := key # da_calls c\<rparr>" "key \<notin> set (da_calls c)"
    by (auto simp: cache_begin_def simp del: split_paired_Ex split_paired_All split: option.splits if_splits)
  then show ?thesis using assms(2) by cases (simp_all add: cache_inv_def)
qed

lemma finish_inv:
  assumes inv: "cache_inv cfg times_out (c, qs, h)" and q: "(key, now) \<in> set qs" and cap: "0 < dc_capacity cfg"
  shows "cache_inv cfg times_out (cache_finish cfg (cacheable times_out ended (snd ans)) c now key ans, remove1 (key, now) qs, (key, now, ans) # h)"
proof -
  define es where "es = evict cfg now (da_entries c)"
  have d: "distinct (da_calls c)" and m: "mset (map fst qs) = mset (da_calls c)" using inv by (simp_all add: cache_inv_def)
  have calls: "mset (map fst (remove1 (key, now) qs)) = mset (removeAll key (da_calls c))"
    using q m d by (simp add: image_mset_Diff distinct_remove1_removeAll [symmetric])
  have "distinct (map fst (filter (\<lambda>(k, e). now < ce_expires e) (da_entries c)))"
    using inv by (auto simp: cache_inv_def intro: distinct_map_filter)
  then have es: "set es \<subseteq> set (da_entries c)" "distinct (map fst es)" "int (length es) < dc_capacity cfg"
    using evict_loop_subset [of "dc_capacity cfg" "filter (\<lambda>(k, e). now < ce_expires e) (da_entries c)"] evict_loop_bound [OF cap]
    by (auto simp: es_def evict_def)
  have "int (length (AList.update key v es)) \<le> dc_capacity cfg" for v using update_length [of key v es] es(3) by linarith
  moreover have "entry_ok cfg times_out ((key, now, ans) # h)
      (key, \<lparr>ce_answer = ans, ce_expires = now + (if snd ans = None then dc_positive cfg else dc_negative cfg), ce_used = now\<rparr>)"
    if "cacheable times_out ended (snd ans)"
    using that by (auto simp: entry_ok_def cacheable_def split: option.splits)
  moreover have "\<forall>p \<in> set (da_entries c). entry_ok cfg times_out ((key, now, ans) # h) p"
    using inv by (auto simp: cache_inv_def intro: entry_ok_Cons)
  ultimately show ?thesis
    using inv es d calls
    by (auto simp: cache_inv_def cache_finish_def Let_def es_def [symmetric] update_set distinct_update distinct_removeAll simp del: removeAll.simps)
qed

lemma cache_run_inv:
  assumes "cache_run cfg times_out s" "0 < dc_capacity cfg"
  shows "cache_inv cfg times_out s"
  using assms(1) unfolding cache_run_def
proof (induction rule: rtranclp_induct)
  case base
  then show ?case using assms(2) by (simp add: cache_inv_def)
next
  case (step s t)
  from step(2) step(3) show ?case
    by (cases rule: cache_step.cases) (auto dest!: begin_inv intro!: finish_inv assms(2))
qed

section \<open>Claims\<close>

text \<open>However lookups of the cache interleave: it never holds more names than its capacity, a name is looked up
  by one caller at a time, and an answer from the cache is one that the resolver gave for that very name
  less than the time to live of its kind ago, and never a timeout.
\<close>
theorem dns_cache_exact:
  assumes "cache_run (cache_settings cfg) times_out (c, qs, h)"
  shows "int (length (da_entries c)) \<le> dc_capacity (cache_settings cfg) \<and> distinct (map fst qs) \<and>
    (cache_begin c now key = (c', Hit ans) \<longrightarrow>
       (\<exists>t. (key, t, ans) \<in> set h \<and>
          now < t + (if snd ans = None then dc_positive (cache_settings cfg) else dc_negative (cache_settings cfg))) \<and>
       (\<forall>e. snd ans = Some e \<longrightarrow> \<not> times_out e))"
proof -
  have inv: "cache_inv (cache_settings cfg) times_out (c, qs, h)"
    by (rule cache_run_inv [OF assms]) (simp add: cache_settings_def)
  have "distinct (map fst qs)" using inv by (simp add: cache_inv_def) (metis mset_eq_imp_distinct_iff mset_map)
  moreover have "entry_ok (cache_settings cfg) times_out h (key, e) \<and> now < ce_expires e \<and> ce_answer e = ans"
    if "cache_begin c now key = (c', Hit ans)" "map_of (da_entries c) key = Some e" for e
    using that inv by (auto simp: cache_begin_def cache_inv_def dest: map_of_SomeD split: if_splits)
  moreover have "\<exists>e. map_of (da_entries c) key = Some e" if "cache_begin c now key = (c', Hit ans)"
    using that by (auto simp: cache_begin_def split: option.splits if_splits)
  ultimately show ?thesis using inv by (fastforce simp: cache_inv_def entry_ok_def split: option.splits)
qed

definition sample_answer :: "string list answer" where "sample_answer = ([''192.0.2.1''], None)"

definition sample_cache :: "string list dns_cache" where
  "sample_cache = \<lparr>da_entries = [(''mx.example'', \<lparr>ce_answer = sample_answer, ce_expires = minute, ce_used = 0\<rparr>)], da_calls = []\<rparr>"

definition sample_dns :: dns_config where
  "sample_dns = \<lparr>dc_enabled = True, dc_positive = 0, dc_negative = 0, dc_capacity = 1\<rparr>"

lemma sample_cache_run: "cache_run (cache_settings sample_dns) (\<lambda>_. False) (sample_cache, [], [(''mx.example'', 0, sample_answer)])"
proof -
  let ?c0 = "\<lparr>da_entries = [], da_calls = []\<rparr> :: string list dns_cache" and ?k = "''mx.example''"
  let ?step = "cache_step (cache_settings sample_dns) (\<lambda>_. False)"
  have "?step (?c0, [], []) (?c0\<lparr>da_calls := [?k]\<rparr>, [(?k, 0)], [])"
    by (rule cache_step.leads) (simp add: cache_begin_def)
  moreover have f: "cache_finish (cache_settings sample_dns) (cacheable (\<lambda>_. False) False (snd sample_answer)) (?c0\<lparr>da_calls := [?k]\<rparr>) 0 ?k sample_answer = sample_cache"
    by (simp add: cache_finish_def cacheable_def sample_answer_def sample_cache_def evict_def evict_loop.simps cache_settings_def sample_dns_def)
  moreover have "?step (?c0\<lparr>da_calls := [?k]\<rparr>, [(?k, 0)], []) (sample_cache, [], [(?k, 0, sample_answer)])"
    using cache_step.finishes [of ?k 0 "[(?k, 0)]" _ "cache_settings sample_dns" "\<lambda>_. False" False sample_answer, OF _ refl, of "?c0\<lparr>da_calls := [?k]\<rparr>" "[]"]
    unfolding f by simp
  ultimately show ?thesis
    unfolding cache_run_def by (rule_tac rtranclp.rtrancl_into_rtrancl [OF r_into_rtranclp])
qed

theorem dns_cache_exact_witness:
  "\<exists>c'. cache_begin sample_cache (30 * second) ''mx.example'' = (c', Hit sample_answer) \<and>
     (\<exists>t. (''mx.example'', t, sample_answer) \<in> set [(''mx.example'', 0, sample_answer)] \<and> 30 * second < t + minute)"
proof -
  obtain c' where b: "cache_begin sample_cache (30 * second) ''mx.example'' = (c', Hit sample_answer)"
    by (simp add: cache_begin_def sample_cache_def second_def minute_def)
  have "(''mx.example'', 0, sample_answer) \<in> set [(''mx.example'', 0, sample_answer)] \<and> 30 * second < 0 + minute"
    using dns_cache_exact [OF sample_cache_run, of "30 * second" "''mx.example''" c' sample_answer] b
    by (auto simp: sample_answer_def cache_settings_def sample_dns_def)
  with b show ?thesis by blast
qed

text \<open>The hosts of a domain come in the order of their preference and among equals of their names, none is
  lost or invented, and where the records cannot be had or there are none the domain itself is the host only if it has an address.
\<close>
theorem mx_targets_exact:
  assumes "resolve_mx lookup_mx lookup_host domain = (hosts, None)"
  shows "sorted (map (\<lambda>h. (mx_pref h, mx_name h)) hosts) \<and>
    (mset hosts = image_mset (\<lambda>m. m\<lparr>mx_name := trim_suffix (mx_name m) ''.''\<rparr>) (mset (fst (lookup_mx domain))) \<or>
     hosts = [\<lparr>mx_name = trim_suffix domain ''.'', mx_pref = 0\<rparr>] \<and> fst (lookup_host domain) \<noteq> [] \<and>
       (snd (lookup_mx domain) \<noteq> None \<or> fst (lookup_mx domain) = []))"
  using assms by (auto simp: resolve_mx_def mx_order_def split: prod.splits if_splits)

theorem mx_targets_exact_witness:
  "fst (resolve_mx (\<lambda>_. ([\<lparr>mx_name = ''b.example.'', mx_pref = 10\<rparr>, \<lparr>mx_name = ''a.example.'', mx_pref = 10\<rparr>], None)) (\<lambda>_. ([], None)) ''example'') =
     [\<lparr>mx_name = ''a.example'', mx_pref = 10\<rparr>, \<lparr>mx_name = ''b.example'', mx_pref = 10\<rparr>] \<and>
   sorted (map (\<lambda>h. (mx_pref h, mx_name h)) [\<lparr>mx_name = ''a.example'', mx_pref = 10\<rparr>, \<lparr>mx_name = ''b.example'', mx_pref = 10\<rparr>])"
proof -
  have r: "resolve_mx (\<lambda>_. ([\<lparr>mx_name = ''b.example.'', mx_pref = 10\<rparr>, \<lparr>mx_name = ''a.example.'', mx_pref = 10\<rparr>], None)) (\<lambda>_. ([], None)) ''example'' =
      ([\<lparr>mx_name = ''a.example'', mx_pref = 10\<rparr>, \<lparr>mx_name = ''b.example'', mx_pref = 10\<rparr>], None)"
    by code_simp
  from mx_targets_exact [OF r] r show ?thesis by simp
qed

end
