(* ===== verification/Egress_Routes.thy ===== *)
theory Egress_Routes
  imports Client_Session Smtp_Session Router
begin

text \<open>
  Named delivery routes (\<^verbatim>\<open>internal/delivery/routes.go\<close>, \<^verbatim>\<open>internal/config/delivery_routes.go\<close>) and the selection of a
  local source address with daily limits (\<^verbatim>\<open>internal/delivery/egress.go\<close>, \<^verbatim>\<open>internal/config/egress.go\<close>).

  The date of the usage is the number of the UTC day, \<open>None\<close> the empty date of a fresh state. The file of
  the usage is a part of the state; a save that fails before the rename leaves it as it was.
\<close>

section \<open>Egress configuration\<close>

record egress_source =
  es_name :: string
  es_ip :: string
  es_ehlo :: string
  es_weight :: int
  es_daily_limit :: int
  es_stopped :: bool

record egress_pool =
  ep_name :: string
  ep_sources :: "string list"

record egress_config =
  ec_sources :: "egress_source list"
  ec_pools :: "egress_pool list"
  ec_tenants :: "(string \<times> string) list"

datatype egress_error = BadSource | BadPool | UnknownSource | BadTenant

definition source_valid :: "egress_source \<Rightarrow> bool" where
  "source_valid s \<longleftrightarrow>
     es_name s \<noteq> [] \<and> parse_ip (es_ip s) \<noteq> None \<and> valid_local_domain (to_lower (trim_suffix (es_ehlo s) ''.'')) \<and>
     1 \<le> es_weight s \<and> es_weight s \<le> 100 \<and> 0 \<le> es_daily_limit s"

fun pools_valid :: "string list \<Rightarrow> string list \<Rightarrow> egress_pool list \<Rightarrow> egress_error option" where
  "pools_valid sources seen [] = None"
| "pools_valid sources seen (p # ps) =
     (if ep_name p = [] \<or> ep_name p \<in> set seen \<or> ep_sources p = [] then Some BadPool
      else if \<not> list_all (\<lambda>n. n \<in> set sources) (ep_sources p) then Some UnknownSource
      else pools_valid sources (ep_name p # seen) ps)"

text \<open>\<^verbatim>\<open>validateEgress\<close>\<close>
definition validate_egress :: "egress_config \<Rightarrow> egress_error option" where
  "validate_egress c =
     (let names = map es_name (ec_sources c) in
      if \<not> list_all source_valid (ec_sources c) \<or> \<not> distinct names then Some BadSource
      else (case pools_valid names [] (ec_pools c) of
        Some e \<Rightarrow> Some e
      | None \<Rightarrow>
          if list_all (\<lambda>(t, p). trim_space t \<noteq> [] \<and> p \<in> set (map ep_name (ec_pools c))) (ec_tenants c) then None
          else Some BadTenant))"

section \<open>Routes\<close>

record delivery_route =
  dr_name :: string
  dr_domains :: "string list"
  dr_mode :: string
  dr_host :: string
  dr_port :: int
  dr_require_tls :: bool
  dr_username :: string
  dr_password_file :: string
  dr_socket :: string
  dr_pool :: string
  dr_password :: string

definition empty_route :: delivery_route where
  "empty_route = \<lparr>dr_name = [], dr_domains = [], dr_mode = [], dr_host = [], dr_port = 0, dr_require_tls = False,
     dr_username = [], dr_password_file = [], dr_socket = [], dr_pool = [], dr_password = []\<rparr>"

datatype route_error =
    RouteNoName | RouteDuplicate string | RouteUnknownPool string | RouteNoDomains string | RouteBadDomain string
  | RouteIncompatible string | RouteNoHost string | RouteBadPort string | RouteHalfCredentials string | RouteAuthNoTls
  | RouteNoSocket string | RouteBadMode string | RouteNoSecret string | RouteEmptySecret string

definition has_relay_settings :: "delivery_route \<Rightarrow> bool" where
  "has_relay_settings r \<longleftrightarrow> dr_host r \<noteq> [] \<or> dr_port r \<noteq> 0 \<or> dr_require_tls r \<or> dr_username r \<noteq> [] \<or> dr_password_file r \<noteq> []"

text \<open>The settings of each mode\<close>
definition mode_error :: "delivery_route \<Rightarrow> string \<Rightarrow> route_error option" where
  "mode_error r name =
     (let mode = to_lower (trim_space (dr_mode r)) in
      if mode = ''mx'' \<or> mode = ''local_spool'' then
        (if has_relay_settings r \<or> dr_socket r \<noteq> [] then Some (RouteIncompatible name)
         else if equal_fold (dr_mode r) ''local_spool'' \<and> dr_pool r \<noteq> [] then Some (RouteIncompatible name)
         else None)
      else if mode = ''relay'' then
        (let credentials = dr_username r \<noteq> [] \<or> dr_password_file r \<noteq> [] in
         if trim_space (dr_host r) = [] then Some (RouteNoHost name)
         else if dr_port r < 0 \<or> dr_port r > 65535 then Some (RouteBadPort name)
         else if credentials \<and> (dr_username r = [] \<or> dr_password_file r = []) then Some (RouteHalfCredentials name)
         else if credentials \<and> \<not> dr_require_tls r then Some RouteAuthNoTls
         else if dr_socket r \<noteq> [] then Some (RouteIncompatible name)
         else None)
      else if mode = ''lmtp'' then
        (if trim_space (dr_socket r) = [] then Some (RouteNoSocket name)
         else if has_relay_settings r then Some (RouteIncompatible name)
         else if dr_pool r \<noteq> [] then Some (RouteIncompatible name)
         else None)
      else Some (RouteBadMode name))"

text \<open>\<^verbatim>\<open>validateDeliveryRoutes\<close>\<close>
fun validate_routes :: "string list \<Rightarrow> string list \<Rightarrow> delivery_route list \<Rightarrow> route_error option" where
  "validate_routes pools seen [] = None"
| "validate_routes pools seen (r # rs) =
     (let name = trim_space (dr_name r) in
      if name = [] then Some RouteNoName
      else if name \<in> set seen then Some (RouteDuplicate name)
      else if dr_pool r \<noteq> [] \<and> dr_pool r \<notin> set pools then Some (RouteUnknownPool name)
      else if dr_domains r = [] then Some (RouteNoDomains name)
      else if \<not> list_all (\<lambda>d. valid_local_domain (trim_suffix (to_lower (trim_space d)) ''.'')) (dr_domains r) then Some (RouteBadDomain name)
      else (case mode_error r name of Some e \<Rightarrow> Some e | None \<Rightarrow> validate_routes pools (name # seen) rs))"

text \<open>\<^verbatim>\<open>loadDeliveryRoutes\<close>, with the files that can be read\<close>
fun load_routes :: "(string \<Rightarrow> string option) \<Rightarrow> delivery_route list \<Rightarrow> route_error + delivery_route list" where
  "load_routes secrets [] = Inr []"
| "load_routes secrets (r # rs) =
     (case (if dr_password_file r = [] then Inr (r\<lparr>dr_password := []\<rparr>)
            else (case secrets (dr_password_file r) of
              None \<Rightarrow> Inl (RouteNoSecret (dr_name r))
            | Some secret \<Rightarrow>
                (let pw = trim_eol secret in
                 if pw = [] then Inl (RouteEmptySecret (dr_name r)) else Inr (r\<lparr>dr_password := pw\<rparr>)))) of
        Inl e \<Rightarrow> Inl e
      | Inr r' \<Rightarrow> (case load_routes secrets rs of Inl e \<Rightarrow> Inl e | Inr rs' \<Rightarrow> Inr (r' # rs')))"

text \<open>\<^verbatim>\<open>strings.TrimPrefix\<close>\<close>
definition trim_prefix :: "string \<Rightarrow> string \<Rightarrow> string" where
  "trim_prefix s p = (if has_prefix s p then drop (length p) s else s)"

definition route_domain :: "string \<Rightarrow> string" where
  "route_domain s = trim_prefix (normalize_name s) ''.''"

definition route_matches :: "string \<Rightarrow> delivery_route \<Rightarrow> bool" where
  "route_matches domain r \<longleftrightarrow>
     list_ex (\<lambda>d. domain = route_domain d \<or> has_suffix domain (''.'' @ route_domain d)) (dr_domains r)"

text \<open>\<^verbatim>\<open>routeFor\<close>\<close>
definition route_for :: "delivery_route list \<Rightarrow> string \<Rightarrow> delivery_route option" where
  "route_for routes domain = find (route_matches (normalize_name domain)) routes"

section \<open>The egress manager\<close>

record egress_usage =
  eu_date :: "int option"
  eu_counts :: "string \<Rightarrow> int"

record egress_manager =
  em_sources :: "string \<rightharpoonup> egress_source"
  em_cycles :: "string \<Rightarrow> string list"
  em_cursors :: "string \<Rightarrow> nat"
  em_tenants :: "string \<Rightarrow> string"
  em_usage :: egress_usage
  em_file :: "egress_usage option"

definition empty_usage :: egress_usage where "empty_usage = \<lparr>eu_date = None, eu_counts = (\<lambda>_. 0)\<rparr>"

text \<open>The zero value of a source\<close>
definition no_source :: egress_source where
  "no_source = \<lparr>es_name = [], es_ip = [], es_ehlo = [], es_weight = 0, es_daily_limit = 0, es_stopped = False\<rparr>"

definition the_source :: "egress_manager \<Rightarrow> string \<Rightarrow> egress_source" where
  "the_source m name = (case em_sources m name of None \<Rightarrow> no_source | Some s \<Rightarrow> s)"

datatype egress_state_error = NotAssigned string | InvalidUsage | UnreadableUsage

text \<open>The state file: missing, unreadable, no valid state, or a usage with the names that it counts\<close>
datatype usage_file = NoFile | Unreadable | Malformed | UsageFile egress_usage "string list"

text \<open>The source as often as its weight says, for every source of the pool\<close>
definition pool_cycle :: "(string \<rightharpoonup> egress_source) \<Rightarrow> string list \<Rightarrow> string list" where
  "pool_cycle sources names =
     concat (map (\<lambda>n. replicate (nat (case sources n of None \<Rightarrow> 0 | Some s \<Rightarrow> es_weight s)) n) names)"

text \<open>\<^verbatim>\<open>newEgressManager\<close>, with the addresses of the interfaces: without sources there is no manager.\<close>
definition new_egress_manager :: "egress_config \<Rightarrow> ip list \<Rightarrow> usage_file \<Rightarrow> egress_state_error + egress_manager option" where
  "new_egress_manager c local f =
     (if ec_sources c = [] then Inr None
      else (case find (\<lambda>s. \<not> (case parse_ip (es_ip s) of None \<Rightarrow> False | Some a \<Rightarrow> list_ex (ip_equal a) local)) (ec_sources c) of
        Some s \<Rightarrow> Inl (NotAssigned (es_name s))
      | None \<Rightarrow>
          (let sources = map_of (rev (map (\<lambda>s. (es_name s, s)) (ec_sources c)));
               m = \<lparr>em_sources = sources,
                    em_cycles = (\<lambda>p. concat (map (\<lambda>q. if ep_name q = p then pool_cycle sources (ep_sources q) else []) (ec_pools c))),
                    em_cursors = (\<lambda>_. 0),
                    em_tenants = (\<lambda>t. case map_of (rev (map (\<lambda>(t, p). (to_lower (trim_space t), p)) (ec_tenants c))) t of None \<Rightarrow> [] | Some p \<Rightarrow> p),
                    em_usage = empty_usage, em_file = None\<rparr>
           in case f of
                NoFile \<Rightarrow> Inr (Some m)
              | Unreadable \<Rightarrow> Inl UnreadableUsage
              | Malformed \<Rightarrow> Inl InvalidUsage
              | UsageFile u names \<Rightarrow>
                  if list_all (\<lambda>n. sources n \<noteq> None \<and> 0 \<le> eu_counts u n) names then Inr (Some (m\<lparr>em_usage := u, em_file := Some u\<rparr>))
                  else Inl InvalidUsage)))"

text \<open>\<^verbatim>\<open>poolFor\<close>\<close>
definition pool_for :: "egress_manager \<Rightarrow> string \<Rightarrow> string \<Rightarrow> string" where
  "pool_for m route_pool t =
     (let p = em_tenants m (to_lower (trim_space t)) in if p \<noteq> [] then p else route_pool)"

record egress_selection =
  sel_name :: string
  sel_ip :: string
  sel_ehlo :: string

definition no_selection :: egress_selection where "no_selection = \<lparr>sel_name = [], sel_ip = [], sel_ehlo = []\<rparr>"

definition egress_day :: "time \<Rightarrow> int" where "egress_day t = t div (24 * hour)"

text \<open>\<^verbatim>\<open>saveLocked\<close>, with the error of the first system call that fails\<close>
definition save_usage :: "derror option \<Rightarrow> egress_manager \<Rightarrow> egress_manager \<times> derror option" where
  "save_usage fault m = (case fault of None \<Rightarrow> (m\<lparr>em_file := Some (em_usage m)\<rparr>, None) | Some e \<Rightarrow> (m, Some e))"

definition count_source :: "string \<Rightarrow> int \<Rightarrow> egress_manager \<Rightarrow> egress_manager" where
  "count_source name d m = m\<lparr>em_usage := (em_usage m)\<lparr>eu_counts := (eu_counts (em_usage m))(name := eu_counts (em_usage m) name + d)\<rparr>\<rparr>"

text \<open>The counts of a new day\<close>
definition new_day :: "time \<Rightarrow> egress_manager \<Rightarrow> egress_manager" where
  "new_day tm m =
     (if eu_date (em_usage m) \<noteq> Some (egress_day tm) then m\<lparr>em_usage := \<lparr>eu_date = Some (egress_day tm), eu_counts = (\<lambda>_. 0)\<rparr>\<rparr> else m)"

definition advance :: "string \<Rightarrow> egress_manager \<Rightarrow> egress_manager" where
  "advance pool m = m\<lparr>em_cursors := (em_cursors m)(pool := em_cursors m pool + 1)\<rparr>"

text \<open>\<^verbatim>\<open>selectSource\<close>\<close>
definition select_source :: "derror option \<Rightarrow> time \<Rightarrow> string \<Rightarrow> egress_manager \<Rightarrow> egress_manager \<times> (derror + egress_selection)" where
  "select_source fault tm pool m0 =
     (if pool = [] then (m0, Inr no_selection)
      else if em_cycles m0 pool = [] then (m0, Inl (OtherError ''egress pool is empty''))
      else
        (let m1 = new_day tm m0; cycle = em_cycles m1 pool;
             name = cycle ! (em_cursors m1 pool mod length cycle);
             m = advance pool m1;
             s = the_source m name
         in if es_stopped s \<or> es_daily_limit s > 0 \<and> eu_counts (em_usage m) name \<ge> es_daily_limit s then
              (m, Inl (DeferredBy ((egress_day tm + 1) * (24 * hour) - tm)))
            else (case save_usage fault (count_source name 1 m) of
                    (m', Some e) \<Rightarrow> (count_source name (- 1) m', Inl e)
                  | (m', None) \<Rightarrow> (m', Inr \<lparr>sel_name = name, sel_ip = es_ip s, sel_ehlo = trim_suffix (es_ehlo s) ''.''\<rparr>))))"

section \<open>Daily limits\<close>

text \<open>
  The manager with its file, the last day, and the sources handed out with their days. The manager may be
  stopped and started again between selections, and every save may fail; the clock does not go back to an
  earlier day.
\<close>
type_synonym egress_state = "egress_manager \<times> int \<times> (int \<times> string) list"

inductive egress_step :: "egress_state \<Rightarrow> egress_state \<Rightarrow> bool" where
  selects: "select_source fault tm pool m = (m', Inr sel) \<Longrightarrow> pool \<noteq> [] \<Longrightarrow> d \<le> egress_day tm \<Longrightarrow>
    egress_step (m, d, h) (m', egress_day tm, (egress_day tm, sel_name sel) # h)"
| denies: "select_source fault tm pool m = (m', Inl e) \<Longrightarrow> d \<le> egress_day tm \<Longrightarrow> egress_step (m, d, h) (m', egress_day tm, h)"
| restarts: "egress_step (m, d, h) (m\<lparr>em_usage := (case em_file m of None \<Rightarrow> empty_usage | Some u \<Rightarrow> u), em_cursors := (\<lambda>_. 0)\<rparr>, d, h)"

definition usage_on :: "int \<Rightarrow> egress_usage \<Rightarrow> string \<Rightarrow> int" where
  "usage_on d u n = (if eu_date u = Some d then eu_counts u n else 0)"

definition date_by :: "int \<Rightarrow> egress_usage \<Rightarrow> bool" where
  "date_by d u \<longleftrightarrow> (case eu_date u of None \<Rightarrow> True | Some x \<Rightarrow> x \<le> d)"

definition file_usage :: "egress_manager \<Rightarrow> egress_usage" where
  "file_usage m = (case em_file m of None \<Rightarrow> empty_usage | Some u \<Rightarrow> u)"

definition limit_kept :: "(string \<rightharpoonup> egress_source) \<Rightarrow> (int \<times> string) list \<Rightarrow> bool" where
  "limit_kept sources h \<longleftrightarrow>
     (\<forall>d n s. sources n = Some s \<and> 0 < es_daily_limit s \<longrightarrow> int (count_list h (d, n)) \<le> es_daily_limit s)"

definition egress_inv :: "(string \<rightharpoonup> egress_source) \<Rightarrow> egress_state \<Rightarrow> bool" where
  "egress_inv sources s = (case s of (m, d, h) \<Rightarrow>
     em_sources m = sources \<and> date_by d (em_usage m) \<and> date_by d (file_usage m) \<and> (\<forall>p \<in> set h. fst p \<le> d) \<and>
     (\<forall>n. usage_on d (file_usage m) n = int (count_list h (d, n))) \<and>
     (\<forall>n. usage_on d (em_usage m) n = int (count_list h (d, n))) \<and> limit_kept sources h)"

lemma new_day_fields [simp]: "em_sources (new_day tm m) = em_sources m" "em_file (new_day tm m) = em_file m"
  "file_usage (new_day tm m) = file_usage m" "eu_date (em_usage (new_day tm m)) = Some (egress_day tm)"
  by (simp_all add: new_day_def file_usage_def)

text \<open>The invariant goes on to later days, and opening the day keeps it.\<close>
lemma later_day_inv:
  assumes inv: "egress_inv sources (m, d, h)" and "d \<le> d'"
  shows "egress_inv sources (m, d', h)"
proof (cases "d = d'")
  case False
  then have less: "d < d'" using assms(2) by simp
  then have "count_list h (d', n) = 0" for n
    using inv by (force simp: egress_inv_def count_list_0_iff)
  moreover have "eu_date u \<noteq> Some d' \<and> date_by d' u" if "date_by d u" for u
    using that less by (auto simp: date_by_def split: option.splits)
  ultimately show ?thesis using inv less by (force simp: egress_inv_def usage_on_def)
qed (use inv in simp)

lemma new_day_inv:
  assumes "egress_inv sources (m, d, h)" "d \<le> egress_day tm"
  shows "egress_inv sources (new_day tm m, egress_day tm, h)"
  using later_day_inv [OF assms] by (auto simp: egress_inv_def new_day_def usage_on_def date_by_def file_usage_def split: if_splits)

lemma count_source_fields [simp]: "em_sources (count_source n d m) = em_sources m" "em_file (count_source n d m) = em_file m"
  "eu_date (em_usage (count_source n d m)) = eu_date (em_usage m)" "file_usage (count_source n d m) = file_usage m"
  "count_source n (- 1) (count_source n 1 m) = m"
  by (simp_all add: count_source_def file_usage_def)

lemma advance_inv [simp]: "egress_inv sources (advance pool m, d, h) = egress_inv sources (m, d, h)"
  by (simp add: egress_inv_def advance_def file_usage_def)

lemma select_cases:
  assumes "select_source fault tm pool m = (m', res)" "pool \<noteq> []"
  obtains (empty) e where "m' = m" "res = Inl e"
  | (denied) e where "m' = advance pool (new_day tm m)" "res = Inl e"
  | (selected) name s where "res = Inr s" "sel_name s = name"
      "m' = (count_source name 1 (advance pool (new_day tm m)))\<lparr>em_file := Some (em_usage (count_source name 1 (advance pool (new_day tm m))))\<rparr>"
      "\<not> (es_daily_limit (the_source m name) > 0 \<and> eu_counts (em_usage (new_day tm m)) name \<ge> es_daily_limit (the_source m name))"
proof -
  define m2 where "m2 = advance pool (new_day tm m)"
  have src: "the_source m2 name = the_source m name" for name by (simp add: m2_def the_source_def advance_def)
  have usage: "em_usage m2 = em_usage (new_day tm m)" by (simp add: m2_def advance_def)
  define name where "name = em_cycles (new_day tm m) pool ! (em_cursors (new_day tm m) pool mod length (em_cycles (new_day tm m) pool))"
  let ?s = "the_source m name"
  have eq: "select_source fault tm pool m =
     (if em_cycles m pool = [] then (m, Inl (OtherError ''egress pool is empty''))
      else if es_stopped ?s \<or> es_daily_limit ?s > 0 \<and> eu_counts (em_usage (new_day tm m)) name \<ge> es_daily_limit ?s then
        (m2, Inl (DeferredBy ((egress_day tm + 1) * (24 * hour) - tm)))
      else (case fault of Some e \<Rightarrow> (m2, Inl e)
            | None \<Rightarrow> ((count_source name 1 m2)\<lparr>em_file := Some (em_usage (count_source name 1 m2))\<rparr>,
                Inr \<lparr>sel_name = name, sel_ip = es_ip ?s, sel_ehlo = trim_suffix (es_ehlo ?s) ''.''\<rparr>)))"
    using assms(2) unfolding select_source_def Let_def m2_def [symmetric] name_def [symmetric] src usage
    by (cases fault) (simp_all add: save_usage_def)
  show thesis
  proof (cases "em_cycles m pool = []")
    case True
    with assms(1) eq show ?thesis by (intro empty) auto
  next
    case cyc: False
    show ?thesis
    proof (cases "es_stopped ?s \<or> es_daily_limit ?s > 0 \<and> eu_counts (em_usage (new_day tm m)) name \<ge> es_daily_limit ?s")
      case True
      with assms(1) eq cyc show ?thesis by (intro denied) (auto simp: m2_def)
    next
      case False
      with assms(1) eq cyc show ?thesis by (cases fault) (auto simp: m2_def intro: denied selected)
    qed
  qed
qed

lemma selected_inv:
  assumes inv: "egress_inv sources (m, d, h)" and date: "eu_date (em_usage m) = Some d"
    and lim: "\<not> (es_daily_limit (the_source m n) > 0 \<and> eu_counts (em_usage m) n \<ge> es_daily_limit (the_source m n))"
  shows "egress_inv sources ((count_source n 1 m)\<lparr>em_file := Some (em_usage (count_source n 1 m))\<rparr>, d, (d, n) # h)"
proof -
  have c: "eu_counts (em_usage m) k = int (count_list h (d, k))" for k using inv date by (simp add: egress_inv_def usage_on_def)
  have "limit_kept sources ((d, n) # h)"
    using inv lim by (auto simp: egress_inv_def limit_kept_def the_source_def c)
  then show ?thesis
    using inv date by (auto simp: egress_inv_def usage_on_def file_usage_def count_source_def c date_by_def)
qed

lemma egress_step_inv: "egress_step s t \<Longrightarrow> egress_inv sources s \<Longrightarrow> egress_inv sources t"
proof (induction rule: egress_step.induct)
  case (selects fault tm pool m m' sel d h)
  note day = new_day_inv [OF selects(4,3)]
  show ?case using selects(1,2)
  proof (cases rule: select_cases)
    case (selected name s)
    have "the_source (advance pool (new_day tm m)) name = the_source m name" "em_usage (advance pool (new_day tm m)) = em_usage (new_day tm m)"
      by (simp_all add: the_source_def advance_def)
    then show ?thesis
      using selected day selected_inv [of sources "advance pool (new_day tm m)" "egress_day tm" h name] by simp
  qed simp_all
next
  case (denies fault tm pool m m' e d h)
  note day = later_day_inv [OF denies(3,2)] and opened = new_day_inv [OF denies(3,2)]
  show ?case
  proof (cases "pool = []")
    case True
    then show ?thesis using denies(1) by (simp add: select_source_def)
  next
    case False
    from denies(1) False show ?thesis by (cases rule: select_cases) (use day opened in simp_all)
  qed
next
  case (restarts m d h)
  then show ?case by (simp add: egress_inv_def file_usage_def)
qed

definition egress_run :: "egress_manager \<Rightarrow> egress_state \<Rightarrow> bool" where
  "egress_run m s \<longleftrightarrow> (\<exists>d. egress_step\<^sup>*\<^sup>* (m, d, []) s)"

text \<open>Of a source with a daily limit no more selections succeed on one day than the limit, over any sequence
  of selections in all pools, with restarts at any moment and with any saves failing, as long as the clock
  does not go back over midnight.
\<close>
theorem egress_limit_kept:
  assumes "new_egress_manager cfg local NoFile = Inr (Some m0)" "egress_run m0 (m, d, h)"
    and "em_sources m0 n = Some s" "0 < es_daily_limit s"
  shows "int (count_list h (day, n)) \<le> es_daily_limit s"
proof -
  obtain d0 where run: "egress_step\<^sup>*\<^sup>* (m0, d0, []) (m, d, h)" using assms(2) by (auto simp: egress_run_def)
  have "em_usage m0 = empty_usage" "em_file m0 = None" using assms(1) by (auto simp: new_egress_manager_def Let_def split: if_splits option.splits)
  then have "egress_inv (em_sources m0) (m0, d0, [])"
    by (simp add: egress_inv_def file_usage_def usage_on_def date_by_def empty_usage_def limit_kept_def)
  with run have "egress_inv (em_sources m0) (m, d, h)"
    by (induction rule: rtranclp_induct) (auto intro: egress_step_inv)
  then show ?thesis using assms(3,4) by (simp add: egress_inv_def limit_kept_def)
qed

definition sample_source :: egress_source where
  "sample_source = \<lparr>es_name = ''a'', es_ip = ''192.0.2.1'', es_ehlo = ''a.example'', es_weight = 1, es_daily_limit = 1, es_stopped = False\<rparr>"

definition sample_egress :: egress_config where
  "sample_egress = \<lparr>ec_sources = [sample_source], ec_pools = [\<lparr>ep_name = ''p'', ep_sources = [''a'']\<rparr>], ec_tenants = []\<rparr>"

lemma sample_egress_manager: "\<exists>m. new_egress_manager sample_egress [the (parse_ip ''192.0.2.1'')] NoFile = Inr (Some m) \<and>
    em_sources m = [''a'' \<mapsto> sample_source] \<and> em_cycles m ''p'' = [''a''] \<and> em_usage m = empty_usage \<and> em_cursors m = (\<lambda>_. 0) \<and> em_file m = None"
proof -
  have ip: "parse_ip ''192.0.2.1'' = Some [0, 0, 0, 0, 0, 0, 0, 0, 0, 0, 255, 255, 192, 0, 2, 1]" by code_simp
  show ?thesis
    by (simp add: new_egress_manager_def sample_egress_def sample_source_def ip ip_equal_def pool_cycle_def Let_def)
qed

theorem egress_limit_kept_witness:
  "\<exists>m0 m d. new_egress_manager sample_egress [the (parse_ip ''192.0.2.1'')] NoFile = Inr (Some m0) \<and>
     egress_run m0 (m, d, [(0, ''a'')]) \<and> int (count_list [(0, ''a'')] (0, ''a'')) \<le> es_daily_limit sample_source"
proof -
  obtain m0 where m0: "new_egress_manager sample_egress [the (parse_ip ''192.0.2.1'')] NoFile = Inr (Some m0)"
      "em_sources m0 = [''a'' \<mapsto> sample_source]" "em_cycles m0 ''p'' = [''a'']" "em_usage m0 = empty_usage" "em_cursors m0 = (\<lambda>_. 0)"
    using sample_egress_manager by auto
  have day: "egress_day 0 = 0" by (simp add: egress_day_def)
  obtain m sel where s: "select_source None 0 ''p'' m0 = (m, Inr sel)" "sel_name sel = ''a''"
    by (simp add: select_source_def advance_def m0 new_day_def empty_usage_def the_source_def save_usage_def count_source_def Let_def sample_source_def day)
  have "egress_step (m0, 0, []) (m, 0, [(0, ''a'')])" using egress_step.selects [OF s(1), of 0 "[]"] s(2) by (simp add: day)
  then have run: "egress_run m0 (m, 0, [(0, ''a'')])" by (auto simp: egress_run_def)
  from egress_limit_kept [OF m0(1) run, of "''a''" sample_source 0] m0(1,2) run show ?thesis
    by (auto simp: sample_source_def)
qed

end
