(* ===== verification/Shaping.thy ===== *)
theory Shaping
  imports Complex_Main Router
begin

text \<open>
  MX shaping (\<^verbatim>\<open>internal/shaping/shaper.go\<close>, \<^verbatim>\<open>limiter.go\<close>, \<^verbatim>\<open>internal/config/shaping.go\<close>): the groups of domains, the cached
  MX lookup, and the limiter in memory with its token buckets and connection leases. The limiter on Redis is
  code on a server and not modelled; \<open>acquire_with\<close> takes whatever a limiter answers.

  The tokens of a bucket are rational numbers, where the program computes with \<^verbatim>\<open>float64\<close>: the model
  leaves the rounding out. The leases do not depend on it. SHA-256 is an argument.
\<close>

section \<open>Configuration\<close>

record shaping_limits =
  sl_messages :: int
  sl_message_burst :: int
  sl_connections :: int
  sl_connection_burst :: int
  sl_max_connections :: int

record shaping_provider =
  sp_name :: string
  sp_domains :: "string list"
  sp_suffixes :: "string list"
  sp_limits :: shaping_limits

record shaping_config =
  sc_enabled :: bool
  sc_backend :: string
  sc_cache_ttl :: duration
  sc_retry_delay :: duration
  sc_default :: shaping_limits
  sc_providers :: "shaping_provider list"

datatype shaping_error = BadBackend | BadTimes | BadProviderName | BadProviderDomain | BadSuffix | BadLimits

definition limits_valid :: "shaping_limits \<Rightarrow> bool" where
  "limits_valid l \<longleftrightarrow>
     list_all (\<lambda>n. 0 \<le> n \<and> n \<le> 1000000)
       [sl_messages l, sl_message_burst l, sl_connections l, sl_connection_burst l, sl_max_connections l]"

fun provider_domains :: "string list \<Rightarrow> string list \<Rightarrow> string list option" where
  "provider_domains seen [] = Some seen"
| "provider_domains seen (d # ds) =
     (let n = normalize_name d in if n = [] \<or> n \<in> set seen then None else provider_domains (n # seen) ds)"

definition blank_suffix :: "string \<Rightarrow> bool" where
  "blank_suffix s \<longleftrightarrow> list_all (\<lambda>c. c = CHR ''.'' \<or> c = CHR '' '') s"

fun providers_valid :: "string list \<Rightarrow> string list \<Rightarrow> shaping_provider list \<Rightarrow> shaping_error option" where
  "providers_valid names domains [] = None"
| "providers_valid names domains (p # ps) =
     (if sp_name p = [] \<or> sp_name p \<in> set names then Some BadProviderName
      else (case provider_domains domains (sp_domains p) of
        None \<Rightarrow> Some BadProviderDomain
      | Some domains' \<Rightarrow>
          if list_ex blank_suffix (sp_suffixes p) then Some BadSuffix
          else providers_valid (sp_name p # names) domains' ps))"

text \<open>\<^verbatim>\<open>MXShapingConfig.Validate\<close>\<close>
definition shaping_validate :: "shaping_config \<Rightarrow> shaping_error option" where
  "shaping_validate c =
     (if \<not> sc_enabled c then None
      else if sc_backend c \<notin> {[], ''memory'', ''redis''} then Some BadBackend
      else if sc_cache_ttl c < 0 \<or> sc_cache_ttl c > hour \<or> sc_retry_delay c < 0 \<or> sc_retry_delay c > hour then Some BadTimes
      else (case providers_valid [] [] (sc_providers c) of
        Some e \<Rightarrow> Some e
      | None \<Rightarrow> if list_all limits_valid (sc_default c # map sp_limits (sc_providers c)) then None else Some BadLimits))"

section \<open>Groups\<close>

definition suffix_matches :: "mx_host list \<Rightarrow> string \<Rightarrow> bool" where
  "suffix_matches hosts s =
     (let suffix = normalize_name s in
      list_ex (\<lambda>h. normalize_name (mx_name h) = suffix \<or> has_suffix (normalize_name (mx_name h)) (''.'' @ suffix)) hosts)"

text \<open>The names of the hosts as a set, in order\<close>
definition host_set :: "mx_host list \<Rightarrow> string list" where
  "host_set hosts = sort (remdups (filter (\<lambda>h. h \<noteq> []) (map (\<lambda>h. normalize_name (mx_name h)) hosts)))"

text \<open>\<^verbatim>\<open>Group\<close>, with SHA-256 in hexadecimal\<close>
definition shaping_group :: "(string \<Rightarrow> string) \<Rightarrow> shaping_config \<Rightarrow> string \<Rightarrow> mx_host list \<Rightarrow> string \<times> shaping_limits" where
  "shaping_group sha256 c domain hosts =
     (case find (\<lambda>p. list_ex (\<lambda>d. normalize_name d = normalize_name domain) (sp_domains p)) (sc_providers c) of
        Some p \<Rightarrow> (''provider:'' @ sp_name p, sp_limits p)
      | None \<Rightarrow>
          (case find (\<lambda>p. list_ex (suffix_matches hosts) (sp_suffixes p)) (sc_providers c) of
             Some p \<Rightarrow> (''provider:'' @ sp_name p, sp_limits p)
           | None \<Rightarrow> (''mx:'' @ sha256 (join [CHR 0x0A] (host_set hosts)), sc_default c)))"

section \<open>Buckets\<close>

record bucket =
  bk_tokens :: rat
  bk_updated :: time

definition new_bucket :: bucket where "new_bucket = \<lparr>bk_tokens = 0, bk_updated = zero_time\<rparr>"

text \<open>\<^verbatim>\<open>refill\<close>\<close>
definition refill :: "time \<Rightarrow> int \<Rightarrow> int \<Rightarrow> bucket \<Rightarrow> bucket" where
  "refill now rate burst b =
     (if rate = 0 then b
      else
        (let cap = of_int (if burst = 0 then 1 else burst) in
         if is_zero (bk_updated b) then \<lparr>bk_tokens = cap, bk_updated = now\<rparr>
         else \<lparr>bk_tokens = min cap (bk_tokens b + max 0 (of_int (time_sub now (bk_updated b)) / of_int second) * of_int rate / 60),
               bk_updated = now\<rparr>))"

text \<open>\<^verbatim>\<open>delay\<close>\<close>
definition bucket_delay :: "int \<Rightarrow> bucket \<Rightarrow> duration" where
  "bucket_delay rate b =
     (if rate = 0 \<or> bk_tokens b \<ge> 1 then 0 else \<lceil>(1 - bk_tokens b) * 60 / of_int rate * of_int second\<rceil>)"

section \<open>The limiter in memory\<close>

record memory_state =
  ms_messages :: bucket
  ms_connections :: bucket
  ms_leases :: "(nat \<times> time) list"
  ms_last :: time
  ms_idle_ttl :: duration

record memory_limiter =
  ml_states :: "(string \<times> memory_state) list"
  ml_seq :: nat

text \<open>\<^verbatim>\<open>idleTTL\<close>\<close>
definition bucket_ttl :: "int \<Rightarrow> int \<Rightarrow> duration \<Rightarrow> duration" where
  "bucket_ttl rate burst ttl =
     (if rate > 0 then max ttl (\<lceil>of_int (max burst 1) * 60 / (of_int rate :: rat)\<rceil> * second + minute) else ttl)"

definition idle_ttl :: "shaping_limits \<Rightarrow> duration \<Rightarrow> duration" where
  "idle_ttl l lease_ttl =
     bucket_ttl (sl_connections l) (sl_connection_burst l)
       (bucket_ttl (sl_messages l) (sl_message_burst l) (lease_ttl + minute))"

definition max_groups :: nat where "max_groups = 10000"

text \<open>The state of the group, made when there is room for it\<close>
definition group_state :: "memory_limiter \<Rightarrow> time \<Rightarrow> string \<Rightarrow> shaping_limits \<Rightarrow> duration \<Rightarrow> (string \<times> memory_state) list \<times> memory_state option" where
  "group_state l now key limits ttl =
     (case map_of (ml_states l) key of
        Some s \<Rightarrow> (ml_states l, Some s)
      | None \<Rightarrow>
          (let states = (if max_groups \<le> length (ml_states l)
                         then filter (\<lambda>(k, v). \<not> time_sub now (ms_last v) > ms_idle_ttl v) (ml_states l) else ml_states l)
           in if max_groups \<le> length states then (states, None)
              else (states, Some \<lparr>ms_messages = new_bucket, ms_connections = new_bucket, ms_leases = [], ms_last = zero_time,
                                  ms_idle_ttl = idle_ttl limits ttl\<rparr>)))"

text \<open>The state after the expired leases are dropped and the buckets refilled\<close>
definition refreshed :: "time \<Rightarrow> shaping_limits \<Rightarrow> memory_state \<Rightarrow> memory_state" where
  "refreshed now l s =
     s\<lparr>ms_last := now, ms_leases := filter (\<lambda>(t, x). now < x) (ms_leases s),
       ms_messages := refill now (sl_messages l) (sl_message_burst l) (ms_messages s),
       ms_connections := refill now (sl_connections l) (sl_connection_burst l) (ms_connections s)\<rparr>"

definition group_wait :: "shaping_limits \<Rightarrow> bool \<Rightarrow> memory_state \<Rightarrow> duration" where
  "group_wait l message s =
     (let wait = bucket_delay (sl_connections l) (ms_connections s);
          wait = (if message then max wait (bucket_delay (sl_messages l) (ms_messages s)) else wait)
      in if sl_max_connections l > 0 \<and> int (length (ms_leases s)) \<ge> sl_max_connections l then max wait (100 * millisecond) else wait)"

definition spend :: "bucket \<Rightarrow> bucket" where "spend b = b\<lparr>bk_tokens := bk_tokens b - 1\<rparr>"

text \<open>The tokens of an admitted connection, and of its message\<close>
definition spent :: "shaping_limits \<Rightarrow> bool \<Rightarrow> memory_state \<Rightarrow> memory_state" where
  "spent l message s =
     (let s1 = (if message \<and> sl_messages l > 0 then s\<lparr>ms_messages := spend (ms_messages s)\<rparr> else s)
      in if sl_connections l > 0 then s1\<lparr>ms_connections := spend (ms_connections s1)\<rparr> else s1)"

datatype acquired = Admitted nat | MustWait duration | NoCapacity

text \<open>\<^verbatim>\<open>memoryLimiter.acquire\<close>, with a context that has not ended\<close>
definition memory_acquire :: "memory_limiter \<Rightarrow> time \<Rightarrow> string \<Rightarrow> shaping_limits \<Rightarrow> bool \<Rightarrow> duration \<Rightarrow> memory_limiter \<times> acquired" where
  "memory_acquire l now key limits message ttl =
     (case group_state l now key limits ttl of
        (states, None) \<Rightarrow> (l\<lparr>ml_states := states\<rparr>, NoCapacity)
      | (states, Some s0) \<Rightarrow>
          (let s = refreshed now limits s0; wait = group_wait limits message s in
           if wait > 0 then (l\<lparr>ml_states := AList.update key s states\<rparr>, MustWait wait)
           else
             (let s2 = spent limits message s; token = ml_seq l + 1 in
               (\<lparr>ml_states = AList.update key (s2\<lparr>ms_leases := ms_leases s2 @ [(token, now + ttl)]\<rparr>) states, ml_seq = token\<rparr>,
                  Admitted token))))"

text \<open>The release of a lease\<close>
definition memory_release :: "memory_limiter \<Rightarrow> string \<Rightarrow> nat \<Rightarrow> memory_limiter" where
  "memory_release l key token =
     (case map_of (ml_states l) key of
        None \<Rightarrow> l
      | Some s \<Rightarrow> l\<lparr>ml_states := AList.update key (s\<lparr>ms_leases := filter (\<lambda>(t, x). t \<noteq> token) (ms_leases s)\<rparr>) (ml_states l)\<rparr>)"

section \<open>The shaper\<close>

record shaper =
  sh_cfg :: shaping_config
  sh_lease_ttl :: duration
  sh_cache :: "(string \<times> mx_host list \<times> time) list"

datatype shaper_error = ShapingMode | ShapingConfig shaping_error

text \<open>\<^verbatim>\<open>New\<close>, with the delivery mode and the timeouts of dialling and sending\<close>
definition new_shaper :: "shaping_config \<Rightarrow> string \<Rightarrow> duration \<Rightarrow> duration \<Rightarrow> shaper_error + shaper option" where
  "new_shaper c mode dial send =
     (if \<not> sc_enabled c then Inr None
      else if to_lower (trim_space mode) \<notin> {[], ''mx'', ''relay''} then Inl ShapingMode
      else (case shaping_validate c of
        Some e \<Rightarrow> Inl (ShapingConfig e)
      | None \<Rightarrow>
          Inr (Some \<lparr>sh_cfg = c\<lparr>sc_retry_delay := (if sc_retry_delay c = 0 then second else sc_retry_delay c)\<rparr>,
                     sh_lease_ttl = (if dial + send + 30 * second < minute then minute else dial + send + 30 * second),
                     sh_cache = []\<rparr>)))"

text \<open>The part of \<^verbatim>\<open>Lookup\<close> after the snapshot: the answer of the resolver, kept while there is room\<close>
definition fresh_lookup :: "shaper \<Rightarrow> time \<Rightarrow> (string \<Rightarrow> mx_host list answer) \<Rightarrow> string \<Rightarrow> shaper \<times> (derror + mx_host list)" where
  "fresh_lookup s now lookup domain =
     (case lookup domain of
        (_, Some e) \<Rightarrow> (s, Inl e)
      | (hosts, None) \<Rightarrow>
          if \<not> list_ex (\<lambda>h. normalize_name (mx_name h) \<noteq> []) hosts then
            (s, Inl (OtherError ''MX shaping requires a nonempty MX result''))
          else if sc_cache_ttl (sh_cfg s) > 0 then
            (let cache = (if 10000 \<le> length (sh_cache s) then filter (\<lambda>(k, h, x). now < x) (sh_cache s) else sh_cache s) in
             (s\<lparr>sh_cache := (if length cache < 10000 then AList.update (normalize_name domain) (hosts, now + sc_cache_ttl (sh_cfg s)) cache else cache)\<rparr>,
              Inr hosts))
          else (s, Inr hosts))"

text \<open>\<^verbatim>\<open>Lookup\<close>, with a context that has not ended\<close>
definition shaper_lookup :: "shaper \<Rightarrow> time \<Rightarrow> (string \<Rightarrow> mx_host list answer) \<Rightarrow> string \<Rightarrow> shaper \<times> (derror + mx_host list)" where
  "shaper_lookup s now lookup domain =
     (case map_of (sh_cache s) (normalize_name domain) of
        Some (hosts, expires) \<Rightarrow> if now < expires then (s, Inr hosts) else fresh_lookup s now lookup domain
      | None \<Rightarrow> fresh_lookup s now lookup domain)"

text \<open>What a limiter answers: an error, a delay, or a lease\<close>
datatype 'l limiter_answer = LimiterError | LimiterDelay duration | Lease 'l

text \<open>\<^verbatim>\<open>Acquire\<close>: the delay before the next attempt is at least the retry delay.\<close>
definition acquire_with :: "shaper \<Rightarrow> bool \<Rightarrow> 'l limiter_answer \<Rightarrow> derror + 'l" where
  "acquire_with s ended ans =
     (case ans of
        LimiterError \<Rightarrow> if ended then Inl Canceled else Inl (DeferredBy (sc_retry_delay (sh_cfg s)))
      | LimiterDelay d \<Rightarrow> Inl (DeferredBy (max d (sc_retry_delay (sh_cfg s))))
      | Lease l \<Rightarrow> Inr l)"

definition memory_answer :: "acquired \<Rightarrow> nat limiter_answer" where
  "memory_answer a = (case a of Admitted t \<Rightarrow> Lease t | MustWait d \<Rightarrow> LimiterDelay d | NoCapacity \<Rightarrow> LimiterError)"

section \<open>Concurrent connections\<close>

text \<open>
  The limiter, the time, and the leases that were granted and not released, with their groups. The time does
  not go back; the limits belong to the group, as \<^verbatim>\<open>Group\<close> gives them.
\<close>
type_synonym shaping_state = "memory_limiter \<times> time \<times> (string \<times> nat \<times> time) list"

inductive shaping_step :: "(string \<Rightarrow> shaping_limits) \<Rightarrow> duration \<Rightarrow> shaping_state \<Rightarrow> shaping_state \<Rightarrow> bool" for limits ttl where
  admits: "memory_acquire l now key (limits key) message ttl = (l', Admitted t) \<Longrightarrow> old \<le> now \<Longrightarrow>
    shaping_step limits ttl (l, old, g) (l', now, (key, t, now + ttl) # g)"
| defers: "memory_acquire l now key (limits key) message ttl = (l', a) \<Longrightarrow> (\<forall>t. a \<noteq> Admitted t) \<Longrightarrow> old \<le> now \<Longrightarrow>
    shaping_step limits ttl (l, old, g) (l', now, g)"
| releases: "(key, t, x) \<in> set g \<Longrightarrow> old \<le> now \<Longrightarrow>
    shaping_step limits ttl (l, old, g) (memory_release l key t, now, filter (\<lambda>(k, u, y). u \<noteq> t) g)"
| waits: "old \<le> now \<Longrightarrow> shaping_step limits ttl (l, old, g) (l, now, g)"

text \<open>The leases of a group that are out and have not expired\<close>
definition live_leases :: "shaping_state \<Rightarrow> string \<Rightarrow> (string \<times> nat \<times> time) list" where
  "live_leases s key = filter (\<lambda>(k, t, x). k = key \<and> fst (snd s) < x) (snd (snd s))"

definition leases_of :: "memory_limiter \<Rightarrow> string \<Rightarrow> (nat \<times> time) list" where
  "leases_of l key = (case map_of (ml_states l) key of None \<Rightarrow> [] | Some s \<Rightarrow> ms_leases s)"

definition group_ok :: "duration \<Rightarrow> shaping_limits \<Rightarrow> memory_state \<Rightarrow> bool" where
  "group_ok ttl lm s \<longleftrightarrow>
     ttl \<le> ms_idle_ttl s \<and> (\<forall>(t, x) \<in> set (ms_leases s). x \<le> ms_last s + ttl) \<and>
     (0 < sl_max_connections lm \<longrightarrow> int (length (ms_leases s)) \<le> sl_max_connections lm)"

lemma map_of_filter_Some: "map_of (filter P xs) k = Some v \<Longrightarrow> distinct (map fst xs) \<Longrightarrow> map_of xs k = Some v \<and> P (k, v)"
  by (auto dest!: map_of_SomeD intro: map_of_is_SomeI)

lemma map_of_filter_keeps: "map_of xs k = Some v \<Longrightarrow> distinct (map fst xs) \<Longrightarrow> P (k, v) \<Longrightarrow> map_of (filter P xs) k = Some v"
  by (auto simp: distinct_map_filter dest!: map_of_SomeD intro!: map_of_is_SomeI)

lemma idle_ttl_ge: "lease_ttl \<le> idle_ttl l lease_ttl"
proof -
  have "t \<le> bucket_ttl rate burst t" for rate burst t by (simp add: bucket_ttl_def)
  from order_trans [OF this this] have "lease_ttl + minute \<le> idle_ttl l lease_ttl" by (simp add: idle_ttl_def)
  then show ?thesis by (simp add: minute_def second_def)
qed

lemma time_sub_greater: "0 \<le> d \<Longrightarrow> d < time_sub a b \<Longrightarrow> b + d < a"
  by (auto simp: time_sub_def min_int64_def max_def min_def split: if_splits)

text \<open>The group keeps its unexpired leases, also when idle groups are dropped.\<close>
lemma group_state_cases:
  assumes "group_state l now key lm ttl = (states, res)"
  obtains (known) s where "states = ml_states l" "res = Some s" "map_of (ml_states l) key = Some s"
  | (fresh) P where "map_of (ml_states l) key = None" "states = filter P (ml_states l)"
      "\<And>k v. \<not> P (k, v) \<Longrightarrow> ms_idle_ttl v < time_sub now (ms_last v)"
      "\<And>s. res = Some s \<Longrightarrow> ms_leases s = [] \<and> ms_idle_ttl s = idle_ttl lm ttl"
proof (cases "map_of (ml_states l) key")
  case None
  show ?thesis
  proof (rule fresh [of "if max_groups \<le> length (ml_states l) then (\<lambda>(k, v). \<not> ms_idle_ttl v < time_sub now (ms_last v)) else (\<lambda>_. True)"])
  qed (use None assms in \<open>auto simp: group_state_def Let_def split: if_splits\<close>)
next
  case (Some s)
  with assms show ?thesis by (intro known [of s]) (auto simp: group_state_def)
qed

lemma refreshed_fields [simp]: "ms_leases (refreshed now l s) = filter (\<lambda>(t, x). now < x) (ms_leases s)"
  "ms_last (refreshed now l s) = now" "ms_idle_ttl (refreshed now l s) = ms_idle_ttl s"
  by (simp_all add: refreshed_def)

lemma spent_fields [simp]: "ms_leases (spent l m s) = ms_leases s" "ms_last (spent l m s) = ms_last s" "ms_idle_ttl (spent l m s) = ms_idle_ttl s"
  by (simp_all add: spent_def Let_def)

lemma filter_within: "int (length xs) \<le> n \<Longrightarrow> int (length (filter P xs)) \<le> n"
  using length_filter_le [of P xs] by linarith

lemma refreshed_ok:
  assumes "group_ok ttl lm s" "ms_last s \<le> now"
  shows "group_ok ttl lm (refreshed now lm s)"
  using assms by (auto simp: group_ok_def intro: filter_within)

text \<open>What the limiter holds of a group at a time\<close>
definition states_ok :: "(string \<Rightarrow> shaping_limits) \<Rightarrow> duration \<Rightarrow> time \<Rightarrow> (string \<times> memory_state) list \<Rightarrow> bool" where
  "states_ok limits ttl now states \<longleftrightarrow> distinct (map fst states) \<and>
     (\<forall>key st. map_of states key = Some st \<longrightarrow> group_ok ttl (limits key) st \<and> ms_last st \<le> now)"

lemma states_ok_update:
  "states_ok limits ttl now states \<Longrightarrow> group_ok ttl (limits key) st \<Longrightarrow> ms_last st \<le> now \<Longrightarrow>
   states_ok limits ttl now (AList.update key st states)"
  by (auto simp: states_ok_def update_conv' distinct_update)

lemma states_ok_filter: "states_ok limits ttl now states \<Longrightarrow> states_ok limits ttl now (filter P states)"
  by (auto simp: states_ok_def distinct_map_filter dest!: map_of_filter_Some)

lemma states_ok_later: "states_ok limits ttl old states \<Longrightarrow> old \<le> now \<Longrightarrow> states_ok limits ttl now states"
  by (force simp: states_ok_def)

definition unexpired :: "time \<Rightarrow> memory_limiter \<Rightarrow> string \<Rightarrow> (nat \<times> time) set" where
  "unexpired now l key = {(t, x) \<in> set (leases_of l key). now < x}"

text \<open>Getting a lease: the other unexpired leases stay, and the group is within its limit.\<close>
lemma acquire_keeps:
  assumes ok: "states_ok limits ttl now (ml_states l)" and ttl: "0 \<le> ttl"
    and acq: "memory_acquire l now key (limits key) message ttl = (l', a)"
  shows "states_ok limits ttl now (ml_states l')" and "unexpired now l k \<subseteq> set (leases_of l' k)"
    and "a = Admitted t \<Longrightarrow> t = ml_seq l + 1 \<and> ml_seq l' = t \<and> (t, now + ttl) \<in> set (leases_of l' key)"
    and "\<forall>t. a \<noteq> Admitted t \<Longrightarrow> ml_seq l' = ml_seq l"
proof -
  obtain states res where gs: "group_state l now key (limits key) ttl = (states, res)" by fastforce
  have st: "states_ok limits ttl now states"
    using gs ok by (cases rule: group_state_cases) (auto intro: states_ok_filter)
  have keep: "unexpired now l k \<subseteq> set (case map_of states k of None \<Rightarrow> [] | Some s \<Rightarrow> ms_leases s)" for k
    using gs
  proof (cases rule: group_state_cases)
    case (known s)
    then show ?thesis by (auto simp: unexpired_def leases_of_def split: option.splits)
  next
    case (fresh P)
    show ?thesis
    proof
      fix p assume p: "p \<in> unexpired now l k"
      then obtain s where s: "map_of (ml_states l) k = Some s" "p \<in> set (ms_leases s)" "now < snd p"
        by (cases "map_of (ml_states l) k") (auto simp: unexpired_def leases_of_def)
      have "group_ok ttl (limits k) s" using ok s(1) by (auto simp: states_ok_def)
      then have x: "snd p \<le> ms_last s + ttl" "ttl \<le> ms_idle_ttl s" using s(2) by (auto simp: group_ok_def)
      have "P (k, s)"
      proof (rule ccontr)
        assume "\<not> P (k, s)"
        from time_sub_greater [OF _ fresh(3) [OF this]] x ttl s(3) show False by simp
      qed
      then have "map_of states k = Some s"
        using s(1) ok fresh(2) by (simp add: states_ok_def map_of_filter_keeps)
      then show "p \<in> set (case map_of states k of None \<Rightarrow> [] | Some s \<Rightarrow> ms_leases s)" using s(2) by simp
    qed
  qed
  have new: "group_ok ttl (limits key) (refreshed now (limits key) s) \<and> unexpired now l key \<subseteq> set (ms_leases (refreshed now (limits key) s))"
    if "res = Some s" for s
    using gs
  proof (cases rule: group_state_cases)
    case (known s')
    with that ok have "group_ok ttl (limits key) s" "ms_last s \<le> now" by (auto simp: states_ok_def)
    then show ?thesis using refreshed_ok known that by (auto simp: unexpired_def leases_of_def)
  next
    case (fresh P)
    from fresh(4) [OF that] fresh(1) show ?thesis using idle_ttl_ge [of ttl "limits key"] by (auto simp: group_ok_def unexpired_def leases_of_def)
  qed
  have upd: "states_ok limits ttl now (AList.update key s' states)"
      "unexpired now l k \<subseteq> set (case map_of (AList.update key s' states) k of None \<Rightarrow> [] | Some s \<Rightarrow> ms_leases s)"
    if "group_ok ttl (limits key) s'" "ms_last s' \<le> now" "unexpired now l key \<subseteq> set (ms_leases s')" for s' k
    using that st keep [of k] states_ok_update by (auto simp: update_conv')
  consider (full) "res = None" "l' = l\<lparr>ml_states := states\<rparr>" "a = NoCapacity"
    | (wait) s d where "res = Some s" "l' = l\<lparr>ml_states := AList.update key (refreshed now (limits key) s) states\<rparr>" "a = MustWait d"
    | (lease) s s' where "res = Some s" "ms_leases s' = ms_leases (refreshed now (limits key) s) @ [(ml_seq l + 1, now + ttl)]"
        "ms_last s' = now" "ms_idle_ttl s' = ms_idle_ttl s" "group_wait (limits key) message (refreshed now (limits key) s) \<le> 0"
        "l' = \<lparr>ml_states = AList.update key s' states, ml_seq = ml_seq l + 1\<rparr>" "a = Admitted (ml_seq l + 1)"
  proof (cases res)
    case None
    with acq show ?thesis by (intro full) (auto simp: memory_acquire_def gs)
  next
    case (Some s)
    let ?w = "group_wait (limits key) message (refreshed now (limits key) s)"
    show ?thesis
    proof (cases "0 < ?w")
      case True
      with acq Some show ?thesis by (intro wait [of s ?w]) (auto simp: memory_acquire_def gs Let_def)
    next
      case False
      let ?s = "spent (limits key) message (refreshed now (limits key) s)"
      from False acq Some show ?thesis
        by (intro lease [of s "?s\<lparr>ms_leases := ms_leases ?s @ [(ml_seq l + 1, now + ttl)]\<rparr>"]) (auto simp: memory_acquire_def gs Let_def)
    qed
  qed
  then have "states_ok limits ttl now (ml_states l') \<and> (\<forall>k. unexpired now l k \<subseteq> set (leases_of l' k)) \<and>
      (\<forall>t. a = Admitted t \<longrightarrow> t = ml_seq l + 1 \<and> ml_seq l' = t \<and> (t, now + ttl) \<in> set (leases_of l' key)) \<and>
      ((\<forall>t. a \<noteq> Admitted t) \<longrightarrow> ml_seq l' = ml_seq l)"
  proof cases
    case full
    then show ?thesis using st keep by (simp add: leases_of_def)
  next
    case (wait s d)
    then show ?thesis using new upd [of "refreshed now (limits key) s"] by (simp add: leases_of_def)
  next
    case (lease s s')
    have "int (length (ms_leases (refreshed now (limits key) s))) < sl_max_connections (limits key)" if "0 < sl_max_connections (limits key)"
      using lease(5) that by (auto simp: group_wait_def Let_def millisecond_def max_def split: if_splits)
    then have pre: "group_ok ttl (limits key) s'" "ms_last s' \<le> now" "unexpired now l key \<subseteq> set (ms_leases s')"
      using new [OF lease(1)] lease by (auto simp: group_ok_def)
    have "(ml_seq l + 1, now + ttl) \<in> set (leases_of l' key)" using lease by (simp add: leases_of_def update_conv')
    then show ?thesis using upd [OF pre] lease(6,7) by (simp add: leases_of_def)
  qed
  then show "states_ok limits ttl now (ml_states l')" "unexpired now l k \<subseteq> set (leases_of l' k)"
    "a = Admitted t \<Longrightarrow> t = ml_seq l + 1 \<and> ml_seq l' = t \<and> (t, now + ttl) \<in> set (leases_of l' key)"
    "\<forall>t. a \<noteq> Admitted t \<Longrightarrow> ml_seq l' = ml_seq l" by auto
qed

lemma release_keeps:
  assumes "states_ok limits ttl now (ml_states l)"
  shows "states_ok limits ttl now (ml_states (memory_release l key t))"
    and "p \<in> set (leases_of l k) \<Longrightarrow> fst p \<noteq> t \<Longrightarrow> p \<in> set (leases_of (memory_release l key t) k)"
    and "ml_seq (memory_release l key t) = ml_seq l"
proof -
  have "group_ok ttl (limits key) (s\<lparr>ms_leases := filter (\<lambda>(u, x). u \<noteq> t) (ms_leases s)\<rparr>)" if "map_of (ml_states l) key = Some s" for s
    using assms that by (auto simp: states_ok_def group_ok_def intro!: filter_within)
  moreover have "ms_last s \<le> now" if "map_of (ml_states l) key = Some s" for s using assms that by (simp add: states_ok_def)
  ultimately show "states_ok limits ttl now (ml_states (memory_release l key t))"
    by (cases "map_of (ml_states l) key") (simp_all add: memory_release_def assms states_ok_update)
  show "p \<in> set (leases_of l k) \<Longrightarrow> fst p \<noteq> t \<Longrightarrow> p \<in> set (leases_of (memory_release l key t) k)"
    by (auto simp: memory_release_def leases_of_def update_conv' split: option.splits if_splits)
  show "ml_seq (memory_release l key t) = ml_seq l" by (simp add: memory_release_def split: option.splits)
qed

definition shaping_inv :: "(string \<Rightarrow> shaping_limits) \<Rightarrow> duration \<Rightarrow> shaping_state \<Rightarrow> bool" where
  "shaping_inv limits ttl s = (case s of (l, now, g) \<Rightarrow>
     states_ok limits ttl now (ml_states l) \<and> distinct (map (fst \<circ> snd) g) \<and> (\<forall>p \<in> set g. fst (snd p) \<le> ml_seq l) \<and>
     (\<forall>p \<in> set g. now < snd (snd p) \<longrightarrow> snd p \<in> set (leases_of l (fst p))))"

lemma acquire_inv:
  assumes inv: "shaping_inv limits ttl (l, old, g)" and "old \<le> now" "0 \<le> ttl"
    and acq: "memory_acquire l now key (limits key) message ttl = (l', a)"
  shows "a = Admitted t \<Longrightarrow> shaping_inv limits ttl (l', now, (key, t, now + ttl) # g)"
    and "\<forall>t. a \<noteq> Admitted t \<Longrightarrow> shaping_inv limits ttl (l', now, g)"
proof -
  have ok: "states_ok limits ttl now (ml_states l)" using inv states_ok_later [OF _ assms(2)] by (simp add: shaping_inv_def)
  note keeps = acquire_keeps [OF ok assms(3) acq]
  have kept: "\<forall>p \<in> set g. now < snd (snd p) \<longrightarrow> snd p \<in> set (leases_of l' (fst p))"
  proof (intro ballI impI)
    fix p assume p: "p \<in> set g" "now < snd (snd p)"
    then have "snd p \<in> unexpired now l (fst p)" using inv assms(2) by (force simp: shaping_inv_def unexpired_def)
    then show "snd p \<in> set (leases_of l' (fst p))" using keeps(2) by blast
  qed
  have bound: "\<forall>p \<in> set g. fst (snd p) \<le> ml_seq l" and dist: "distinct (map (fst \<circ> snd) g)" using inv by (simp_all add: shaping_inv_def)
  show "shaping_inv limits ttl (l', now, (key, t, now + ttl) # g)" if "a = Admitted t"
  proof -
    have t: "t = ml_seq l + 1" "ml_seq l' = t" "(t, now + ttl) \<in> set (leases_of l' key)" using keeps(3) [OF that] by auto
    moreover have "fst (snd p) \<noteq> t \<and> fst (snd p) \<le> t" if "p \<in> set g" for p using bound that t(1) by force
    ultimately show ?thesis using keeps(1) kept dist by (force simp: shaping_inv_def)
  qed
  show "shaping_inv limits ttl (l', now, g)" if "\<forall>t. a \<noteq> Admitted t"
    using keeps(1) keeps(4) [OF that] kept bound dist by (simp add: shaping_inv_def)
qed

lemma shaping_step_inv: "shaping_step limits ttl s t \<Longrightarrow> 0 \<le> ttl \<Longrightarrow> shaping_inv limits ttl s \<Longrightarrow> shaping_inv limits ttl t"
proof (induction rule: shaping_step.induct)
  case (admits l now key message l' t old g)
  then show ?case using acquire_inv(1) by blast
next
  case (defers l now key message l' a old g)
  then show ?case using acquire_inv(2) by blast
next
  case (releases key t x g old now l)
  then have ok: "states_ok limits ttl now (ml_states l)" using states_ok_later by (auto simp: shaping_inv_def)
  note keeps = release_keeps [OF ok, where key = key and t = t]
  have g: "filter (\<lambda>(k, u, y). u \<noteq> t) g = filter (\<lambda>p. fst (snd p) \<noteq> t) g" by (rule filter_cong) auto
  show ?case unfolding g
    using releases keeps by (force simp: shaping_inv_def distinct_map_filter comp_def)
next
  case (waits old now l g)
  then show ?case using states_ok_later by (force simp: shaping_inv_def)
qed

definition shaping_run :: "(string \<Rightarrow> shaping_limits) \<Rightarrow> duration \<Rightarrow> shaping_state \<Rightarrow> bool" where
  "shaping_run limits ttl s \<longleftrightarrow> (\<exists>start. (shaping_step limits ttl)\<^sup>*\<^sup>* (\<lparr>ml_states = [], ml_seq = 0\<rparr>, start, []) s)"

lemma shaping_run_inv:
  assumes "shaping_run limits ttl s" "0 \<le> ttl"
  shows "shaping_inv limits ttl s"
proof -
  obtain start where run: "(shaping_step limits ttl)\<^sup>*\<^sup>* (\<lparr>ml_states = [], ml_seq = 0\<rparr>, start, []) s"
    using assms by (auto simp: shaping_run_def)
  have "shaping_inv limits ttl (\<lparr>ml_states = [], ml_seq = 0\<rparr>, start, [])"
    by (simp add: shaping_inv_def states_ok_def)
  with run show ?thesis by (induction rule: rtranclp_induct) (auto intro: shaping_step_inv assms(2))
qed

text \<open>At every moment of every run the connections of a group that are open, neither released nor expired,
  are at most the configured maximum, also after the states of idle groups were dropped to make room.
\<close>
theorem shaping_connections_bound:
  assumes "shaping_run limits ttl s" "0 \<le> ttl" "0 < sl_max_connections (limits key)"
  shows "int (length (live_leases s key)) \<le> sl_max_connections (limits key)"
proof -
  obtain l now g where s: "s = (l, now, g)" by (cases s)
  have inv: "shaping_inv limits ttl (l, now, g)" using shaping_run_inv [OF assms(1,2)] s by simp
  let ?live = "filter (\<lambda>(k, t, x). k = key \<and> now < x) g"
  have "distinct (map (fst \<circ> snd) g)" using inv by (simp add: shaping_inv_def)
  then have "distinct (map (fst \<circ> snd) ?live)" by (rule distinct_map_filter)
  then have "distinct (map snd ?live)" by (simp only: map_map [symmetric] distinct_map)
  moreover have "set (map snd ?live) \<subseteq> set (leases_of l key)" using inv by (force simp: shaping_inv_def)
  ultimately have "length (map snd ?live) \<le> length (leases_of l key)"
    by (metis (no_types) card_length card_mono distinct_card finite_set le_trans)
  moreover have "int (length (leases_of l key)) \<le> sl_max_connections (limits key)"
    using inv assms(3) by (auto simp: shaping_inv_def states_ok_def group_ok_def leases_of_def split: option.splits)
  ultimately show ?thesis by (simp add: live_leases_def s)
qed

definition one_lease :: "string \<Rightarrow> shaping_limits" where
  "one_lease key = \<lparr>sl_messages = 0, sl_message_burst = 0, sl_connections = 0, sl_connection_burst = 0, sl_max_connections = 1\<rparr>"

lemma shaping_run_first:
  assumes "memory_acquire \<lparr>ml_states = [], ml_seq = 0\<rparr> now key (limits key) message ttl = (l, Admitted t)"
  shows "shaping_run limits ttl (l, now, [(key, t, now + ttl)])"
  unfolding shaping_run_def using shaping_step.admits [where limits = limits and ttl = ttl and old = now and g = "[]", OF assms order_refl] by blast

theorem shaping_connections_bound_witness:
  "\<exists>l. shaping_run one_lease minute (l, 0, [(''mx:a'', 1, 0 + minute)]) \<and>
     int (length (live_leases (l, 0, [(''mx:a'', 1, 0 + minute)]) ''mx:a'')) \<le> sl_max_connections (one_lease ''mx:a'')"
proof -
  obtain l where a: "memory_acquire \<lparr>ml_states = [], ml_seq = 0\<rparr> 0 ''mx:a'' (one_lease ''mx:a'') True minute = (l, Admitted 1)"
    by (simp add: memory_acquire_def group_state_def max_groups_def group_wait_def bucket_delay_def one_lease_def refreshed_def spent_def Let_def)
  note run = shaping_run_first [where limits = one_lease, OF a]
  have pre: "0 \<le> minute" "0 < sl_max_connections (one_lease ''mx:a'')" by (simp_all add: one_lease_def minute_def second_def)
  from run shaping_connections_bound [OF run pre] show ?thesis by blast
qed

end
