(* ===== verification/Client_Deliver.thy ===== *)
theory Client_Deliver
  imports Client_Outcome Connection_Pool Egress_Routes Mta_Sts Shaping
begin

text \<open>
  Delivering a message to a recipient (\<^verbatim>\<open>internal/delivery/smtp_client.go\<close>): one host (\<^verbatim>\<open>deliverHost\<close>), the hosts of a
  domain under DANE and MTA-STS (\<^verbatim>\<open>deliverByMX\<close>), the choice between MX, relay, LMTP and spool (\<^verbatim>\<open>Deliver\<close>), and
  the spool on disk.

  What the client calls through fields (\<^verbatim>\<open>deliverHostFn\<close>, \<^verbatim>\<open>deliverLMTPFn\<close>, \<^verbatim>\<open>resolveMXFn\<close>, the signers, the spool)
  is an argument here too; \<open>deliver_host\<close>, \<open>deliver_lmtp\<close> and \<open>write_spool\<close> are what the constructor puts there.
  Tracing, metrics and TLS reports are left out.
\<close>

section \<open>The message that is sent\<close>

record signers =
  sg_error :: "derror option"
  sg_dkim :: "(string \<Rightarrow> derror + string) option"
  sg_arc :: "(string \<Rightarrow> derror + string) option"
  sg_author :: "string \<Rightarrow> derror + string"
  sg_profiles :: "(string \<Rightarrow> derror + ((string \<Rightarrow> derror + string) option \<times> (string \<Rightarrow> derror + string) option)) option"

definition sign_with :: "(string \<Rightarrow> derror + string) option \<Rightarrow> derror + string \<Rightarrow> derror + string" where
  "sign_with signer raw =
     (case raw of
        Inl e \<Rightarrow> Inl e
      | Inr text \<Rightarrow> (case signer of None \<Rightarrow> Inr text | Some sign \<Rightarrow> sign text))"

text \<open>\<^verbatim>\<open>prepareOutboundData\<close>\<close>
definition prepare_data :: "signers \<Rightarrow> string \<Rightarrow> derror + string" where
  "prepare_data sg raw =
     (if sg_profiles sg \<noteq> None then Inl (OtherError ''profile signing requires trusted message identity'')
      else (case sg_error sg of
        Some e \<Rightarrow> Inl e
      | None \<Rightarrow> sign_with (sg_arc sg) (sign_with (sg_dkim sg) (Inr raw))))"

definition the_domain :: "string \<Rightarrow> string" where
  "the_domain a = (case domain_of a of None \<Rightarrow> [] | Some d \<Rightarrow> d)"

text \<open>\<^verbatim>\<open>prepareOutboundMessage\<close>\<close>
definition prepare_message :: "signers \<Rightarrow> derror option \<Rightarrow> message \<Rightarrow> derror + string" where
  "prepare_message sg ended msg =
     (case ended of
        Some e \<Rightarrow> Inl e
      | None \<Rightarrow>
          (case sg_profiles sg of
             None \<Rightarrow> prepare_data sg (m_data msg)
           | Some profiles \<Rightarrow>
               (case m_signing msg of
                  None \<Rightarrow> if mail_from msg = [] then Inr (m_data msg)
                     else Inl (OtherError ''message has no trusted signing identity; migrate legacy queue before enabling profiles'')
                | Some ident \<Rightarrow>
                    (let domain = signing_domain ident in
                     if domain = [] then Inr (m_data msg)
                     else (case sg_author sg (m_data msg) of
                       Inl e \<Rightarrow> Inl e
                     | Inr author \<Rightarrow>
                         if domain \<noteq> to_lower domain \<or> domain \<noteq> the_domain author \<or>
                            mail_from msg \<noteq> [] \<and> domain \<noteq> the_domain (mail_from msg)
                         then Inl (OtherError ''persisted signing identity does not match message'')
                         else (case profiles domain of
                           Inl e \<Rightarrow> Inl e
                         | Inr (None, _) \<Rightarrow> Inr (m_data msg)
                         | Inr (Some dkim, arc) \<Rightarrow> sign_with arc (dkim (m_data msg))))))))"

section \<open>One host\<close>

record host_env =
  he_network :: network
  he_admit :: "derror option"
  he_selection :: egress_selection
  he_auth :: relay_auth
  he_hostname :: string
  he_prepare :: "message \<Rightarrow> derror + string"
  he_ended :: derror
  he_time :: time
  he_number :: nat

text \<open>The text of a TLS policy: \<^verbatim>\<open>fmt.Sprintf ("require=%t,dane=%v")\<close>\<close>
definition show_bool :: "bool \<Rightarrow> string" where "show_bool b = (if b then ''true'' else ''false'')"

definition show_tlsa :: "tlsa_record \<Rightarrow> string" where
  "show_tlsa r = ''{'' @ join '' '' [show_nat (ta_usage r), show_nat (ta_selector r), show_nat (ta_matching r),
     ''['' @ join '' '' (map (\<lambda>c. show_nat (of_char c)) (ta_data r)) @ '']''] @ ''}''"

definition policy_text :: "bool \<Rightarrow> dane_result option \<Rightarrow> string" where
  "policy_text require dane =
     ''require='' @ show_bool require @ '',dane='' @
     (case dane of
        None \<Rightarrow> ''<nil>''
      | Some d \<Rightarrow> ''&{'' @ show_bool (dn_authenticated d) @ '' ['' @ join '' '' (map show_tlsa (dn_records d)) @ '']}'')"

definition host_key_of :: "host_env \<Rightarrow> string \<Rightarrow> int \<Rightarrow> bool \<Rightarrow> dane_result option \<Rightarrow> pool_key" where
  "host_key_of env host port require dane =
     \<lparr>pk_host = to_lower (trim_suffix host ''.''), pk_port = port, pk_source = sel_ip (he_selection env),
      pk_ehlo = (if sel_ehlo (he_selection env) = [] then he_hostname env else sel_ehlo (he_selection env)),
      pk_auth = rl_username (he_auth env), pk_policy = policy_text require dane\<rparr>"

definition quit :: "wire \<Rightarrow> wire" where
  "quit w = fst (read_code (fst (send_line w ''QUIT'')))"

text \<open>A session from the pool where there is one, or a new one\<close>
definition obtain_session :: "host_env \<Rightarrow> connection_pool option \<Rightarrow> pool_key \<Rightarrow> bool \<Rightarrow> dane_result option
    \<Rightarrow> connection_pool option \<times> wire option \<times> (derror + pooled)" where
  "obtain_session env pool key require dane =
     (case open_smtp_session (he_network env) key (he_auth env) require dane (he_time env) of
        (w, dialled) \<Rightarrow>
          (case pool of
             None \<Rightarrow> (None, w, case dialled of Inl e \<Rightarrow> Inl e | Inr s \<Rightarrow> Inr (he_number env, s))
           | Some p \<Rightarrow>
               (case pool_get p key (he_time env) (he_number env) dialled of
                  (p', GotSession s) \<Rightarrow> (Some p', None, Inr s)
                | (p', GotError e) \<Rightarrow> (Some p', w, Inl e)
                | (p', GotClosed) \<Rightarrow> (Some p', None, Inl (OtherError ''SMTP connection pool is closed''))
                | (p', GotWait) \<Rightarrow> (Some p', None, Inl (he_ended env)))))"

text \<open>\<^verbatim>\<open>deliverHost\<close>: the pool, the connection as it was left, and the error\<close>
definition deliver_host :: "host_env \<Rightarrow> connection_pool option \<Rightarrow> string \<Rightarrow> int \<Rightarrow> message \<Rightarrow> string \<Rightarrow> bool \<Rightarrow> dane_result option
    \<Rightarrow> connection_pool option \<times> wire option \<times> derror option" where
  "deliver_host env pool host port0 msg rcpt require0 dane =
     (let port = (if port0 \<le> 0 then 25 else port0); require = (require0 \<or> require_tls msg) in
      case he_admit env of
        Some e \<Rightarrow> (pool, None, Some e)
      | None \<Rightarrow>
          (let key = host_key_of env host port require dane in
           case obtain_session env pool key require dane of
             (pool', w, Inl e) \<Rightarrow> (pool', w, Some e)
           | (pool', _, Inr s) \<Rightarrow>
               (case deliver_transaction (he_prepare env) (snd s) msg rcpt of
                  (w', reusable, err) \<Rightarrow>
                    (case pool' of
                       None \<Rightarrow> (None, Some (quit w'), err)
                     | Some p \<Rightarrow> (Some (pool_put p (fst s, (snd s)\<lparr>ses_wire := w'\<rparr>) reusable (he_time env)), Some w', err)))))"

section \<open>The hosts of a domain\<close>

text \<open>\<^verbatim>\<open>classifyDANEFailure\<close>\<close>
definition classify_dane_failure :: "derror option \<Rightarrow> derror option" where
  "classify_dane_failure err =
     (case err of
        None \<Rightarrow> None
      | Some e \<Rightarrow>
          (case as_smtp e of
             None \<Rightarrow> Some e
           | Some r \<Rightarrow>
               (let line = to_lower (trim_space (sr_line r)) in
                if sr_temporary r \<and> (line = ''starttls handshake failed'' \<or> line = ''mta-sts enforce requires starttls'')
                then Some (stage_response StageTLS 550 ''dane authentication failed'')
                else Some e)))"

text \<open>What the policies make of the hosts: the hosts to try, whether TLS is required, and the TLSA records of each\<close>
record mx_plan =
  mp_hosts :: "mx_host list"
  mp_require :: bool
  mp_dane :: "string \<rightharpoonup> dane_result"
  mp_dane_active :: bool

definition usable_dane :: "(string \<Rightarrow> derror + dane_result) \<Rightarrow> string \<Rightarrow> string \<Rightarrow> dane_result option" where
  "usable_dane lookup trust host =
     (case lookup host of Inl _ \<Rightarrow> None | Inr r \<Rightarrow> if has_usable_tlsa r trust then Some r else None)"

definition plan_hosts ::
    "(string \<Rightarrow> derror + dane_result) \<Rightarrow> string \<Rightarrow> sts_error + sts_policy \<Rightarrow> mx_host list \<Rightarrow> derror + mx_plan" where
  "plan_hosts dane trust sts hosts =
     (let candidates = filter (\<lambda>h. usable_dane dane trust (mx_name h) \<noteq> None) hosts in
      if candidates \<noteq> [] then
        Inr \<lparr>mp_hosts = candidates, mp_require = True, mp_dane = usable_dane dane trust, mp_dane_active = True\<rparr>
      else (case sts of
        Inl _ \<Rightarrow> Inr \<lparr>mp_hosts = hosts, mp_require = False, mp_dane = Map.empty, mp_dane_active = False\<rparr>
      | Inr p \<Rightarrow>
          if sts_mode p = ''enforce'' then
            (let allowed = filter (\<lambda>h. allows_mx p (mx_name h)) hosts in
             if allowed = [] then Inl (stage_response StageTLS 454 ''mta-sts policy mismatch: no allowed mx'')
             else Inr \<lparr>mp_hosts = allowed, mp_require = True, mp_dane = Map.empty, mp_dane_active = False\<rparr>)
          else Inr \<lparr>mp_hosts = hosts, mp_require = False, mp_dane = Map.empty, mp_dane_active = False\<rparr>))"

text \<open>The call of \<^verbatim>\<open>deliverHostFn\<close>: the host, the port, whether TLS is required and the TLSA records\<close>
type_synonym 's host_fn = "'s \<Rightarrow> string \<Rightarrow> int \<Rightarrow> bool \<Rightarrow> dane_result option \<Rightarrow> 's \<times> derror option"

text \<open>The loop over the hosts, with the last error\<close>
fun mx_loop :: "'s host_fn \<Rightarrow> mx_plan \<Rightarrow> mx_host list \<Rightarrow> derror option \<Rightarrow> 's \<Rightarrow> 's \<times> derror option" where
  "mx_loop deliver plan [] prev s =
     (s, Some (case prev of None \<Rightarrow> OtherError ''no mx targets'' | Some e \<Rightarrow> e))"
| "mx_loop deliver plan (h # hs) prev s =
     (case deliver s (mx_name h) 25 (mp_require plan) (if mp_dane_active plan then mp_dane plan (mx_name h) else None) of
        (s', r) \<Rightarrow>
          (case (if mp_dane_active plan then classify_dane_failure r else r) of
             None \<Rightarrow> (s', None)
           | Some e \<Rightarrow>
               if as_deferred e \<noteq> None then (s', Some (case prev of None \<Rightarrow> e | Some l \<Rightarrow> l))
               else mx_loop deliver plan hs (Some e) s'))"

text \<open>\<^verbatim>\<open>deliverByMX\<close>\<close>
definition deliver_by_mx :: "'s host_fn \<Rightarrow> (string \<Rightarrow> mx_host list answer) \<Rightarrow> (string \<Rightarrow> derror + dane_result) \<Rightarrow> string
    \<Rightarrow> (string \<Rightarrow> sts_error + sts_policy) \<Rightarrow> string \<Rightarrow> 's \<Rightarrow> 's \<times> derror option" where
  "deliver_by_mx deliver resolve dane trust sts rcpt s =
     (case domain_of rcpt of
        None \<Rightarrow> (s, Some (OtherError ''invalid rcpt domain''))
      | Some domain \<Rightarrow>
          (case resolve domain of
             (_, Some e) \<Rightarrow> (s, Some (Wrapped ''mx lookup failed: '' (at_stage StageDNS e)))
           | (hosts, None) \<Rightarrow>
               (case plan_hosts dane trust (sts domain) hosts of
                  Inl e \<Rightarrow> (s, Some e)
                | Inr plan \<Rightarrow> mx_loop deliver plan (mp_hosts plan) None s)))"

section \<open>LMTP\<close>

type_synonym results = "(string \<times> derror option) list"

text \<open>\<^verbatim>\<open>setAll\<close>: the error for every recipient that has no result\<close>
definition set_all :: "string list \<Rightarrow> derror \<Rightarrow> results \<Rightarrow> results" where
  "set_all rcpts e res = foldl (\<lambda>r x. if map_of r x = None then AList.update x (Some e) r else r) res rcpts"

definition lmtp_mail :: "bool \<Rightarrow> message \<Rightarrow> string" where
  "lmtp_mail dsn_supported msg =
     ''MAIL FROM:<'' @ mail_from msg @ ''>'' @
     (case m_dsn msg of
        Some dsn \<Rightarrow>
          if dsn_supported then (if dsn_return dsn \<noteq> [] then '' RET='' @ dsn_return dsn else []) @
            (if envelope_id dsn \<noteq> [] then '' ENVID='' @ envelope_id dsn else []) else []
      | None \<Rightarrow> [])"

text \<open>The recipients in turn: those that were accepted, or the error of a write\<close>
fun lmtp_rcpts :: "bool \<Rightarrow> message \<Rightarrow> string list \<Rightarrow> wire \<Rightarrow> results \<Rightarrow> string list \<Rightarrow> wire \<times> results \<times> (derror + string list)" where
  "lmtp_rcpts d msg [] w res accepted = (w, res, Inr (rev accepted))"
| "lmtp_rcpts d msg (r # rs) w res accepted =
     (case send_line w (rcpt_command d msg r) of
        (w1, Some e) \<Rightarrow> (w1, res, Inl (at_stage StageRCPT e))
      | (w1, None) \<Rightarrow>
          (case expect_2xx3xx w1 of
             (w2, Some e) \<Rightarrow> lmtp_rcpts d msg rs w2 (AList.update r (Some (Wrapped ''rcpt rejected: '' (at_stage StageRCPT e))) res) accepted
           | (w2, None) \<Rightarrow> lmtp_rcpts d msg rs w2 res (r # accepted)))"

text \<open>One final reply for every accepted recipient; after a failed read the others are without\<close>
fun lmtp_finals :: "string list \<Rightarrow> string list \<Rightarrow> wire \<Rightarrow> results \<Rightarrow> wire \<times> results" where
  "lmtp_finals accepted [] w res = (w, res)"
| "lmtp_finals accepted (r # rs) w res =
     (case read_code w of
        (w1, Inl e) \<Rightarrow>
          (w1, set_all accepted (at_stage StageDATA (OtherError ''LMTP final response missing'')) (AList.update r (Some (at_stage StageDATA e)) res))
      | (w1, Inr (code, line)) \<Rightarrow>
          lmtp_finals accepted rs w1
            (AList.update r (if is_2xx code then None
               else Some (SmtpError \<lparr>sr_stage = StageDATA, sr_enhanced = response_enhanced_status code line, sr_code = code, sr_line = line\<rparr>)) res))"

definition lmtp_data :: "(message \<Rightarrow> derror + string) \<Rightarrow> message \<Rightarrow> string list \<Rightarrow> string list \<Rightarrow> wire \<Rightarrow> results \<Rightarrow> wire \<times> results" where
  "lmtp_data prepare msg rcpts accepted w res =
     (case send_line w ''DATA'' of
        (w1, Some e) \<Rightarrow> (w1, set_all rcpts (at_stage StageDATA e) res)
      | (w1, None) \<Rightarrow>
          (case expect_code 354 w1 of
             (w2, Some e) \<Rightarrow> (w2, set_all rcpts (at_stage StageDATA e) res)
           | (w2, None) \<Rightarrow>
               (case prepare msg of
                  Inl e \<Rightarrow> (w2, set_all rcpts e res)
                | Inr payload \<Rightarrow>
                    (case wire_send w2 (dot_stuff payload @ end_of_data) of
                       (w3, Some e) \<Rightarrow> (w3, set_all rcpts (at_stage StageDATA e) res)
                     | (w3, None) \<Rightarrow>
                         (case lmtp_finals accepted accepted w3 res of
                            (w4, res') \<Rightarrow> (fst (send_line w4 ''QUIT''), res'))))))"

definition lmtp_session :: "(message \<Rightarrow> derror + string) \<Rightarrow> string \<Rightarrow> message \<Rightarrow> string list \<Rightarrow> wire \<Rightarrow> wire \<times> results" where
  "lmtp_session prepare hostname msg rcpts w =
     (case expect_code 220 w of
        (w1, Some e) \<Rightarrow> (w1, set_all rcpts (at_stage StageGreeting e) [])
      | (w1, None) \<Rightarrow>
          (case send_line w1 (''LHLO '' @ hostname) of
             (w2, Some e) \<Rightarrow> (w2, set_all rcpts (at_stage StageEHLO e) [])
           | (w2, None) \<Rightarrow>
               (case read_lines w2 of
                  (w3, Inl e) \<Rightarrow> (w3, set_all rcpts (at_stage StageEHLO e) [])
                | (w3, Inr ls) \<Rightarrow>
                    (let d = supports_extension ls ''DSN'' in
                     case send_line w3 (lmtp_mail d msg) of
                       (w4, Some e) \<Rightarrow> (w4, set_all rcpts (at_stage StageMAIL e) [])
                     | (w4, None) \<Rightarrow>
                         (case expect_2xx w4 of
                            (w5, Some e) \<Rightarrow> (w5, set_all rcpts (at_stage StageMAIL e) [])
                          | (w5, None) \<Rightarrow>
                              (case lmtp_rcpts d msg rcpts w5 [] [] of
                                 (w6, res, Inl e) \<Rightarrow> (w6, set_all rcpts e res)
                               | (w6, res, Inr accepted) \<Rightarrow>
                                   if accepted = [] then (w6, res) else lmtp_data prepare msg rcpts accepted w6 res))))))"

text \<open>\<^verbatim>\<open>deliverLMTP\<close>, with what dialling the socket gives\<close>
definition deliver_lmtp :: "(string \<Rightarrow> derror + wire) \<Rightarrow> (message \<Rightarrow> derror + string) \<Rightarrow> string \<Rightarrow> string \<Rightarrow> message \<Rightarrow> string list \<Rightarrow> wire option \<times> results" where
  "deliver_lmtp dial prepare hostname socket msg rcpts =
     (case dial (trim_space socket) of
        Inl e \<Rightarrow> (None, set_all rcpts (at_stage StageConnect e) [])
      | Inr w \<Rightarrow> (case lmtp_session prepare hostname msg rcpts w of (w', res) \<Rightarrow> (Some w', res)))"

section \<open>The spool on disk\<close>

text \<open>\<^verbatim>\<open>sanitizeFilename\<close>\<close>
definition safe_char :: "char \<Rightarrow> bool" where
  "safe_char c \<longleftrightarrow> is_lower c \<or> is_digit c \<or> c = CHR ''.'' \<or> c = CHR ''_'' \<or> c = CHR ''-''"

definition sanitize_filename :: "string \<Rightarrow> string" where
  "sanitize_filename v =
     (let v' = to_lower (trim_space v) in
      if v' = [] then ''unknown'' else map (\<lambda>c. if safe_char c then c else CHR ''_'') v')"

definition spool_name :: "time \<Rightarrow> message \<Rightarrow> string \<Rightarrow> string" where
  "spool_name t msg rcpt =
     (let i = trim_space (m_id msg) in (if i = [] then show_int t else i) @ ''_'' @ sanitize_filename rcpt @ ''.eml'')"

text \<open>
  \<^verbatim>\<open>writeLocalSpool\<close>: the files of the spool directory by name, the faults of creating the directory and of
  writing the file. The bytes written are what it returns.
\<close>
definition write_spool :: "derror option \<Rightarrow> derror option \<Rightarrow> time \<Rightarrow> (message \<Rightarrow> derror + string) \<Rightarrow> message \<Rightarrow> string
    \<Rightarrow> (string \<rightharpoonup> string) \<Rightarrow> (string \<rightharpoonup> string) \<times> (derror + nat)" where
  "write_spool mkdir_fault write_fault t prepare msg rcpt dir =
     (case mkdir_fault of
        Some e \<Rightarrow> (dir, Inl e)
      | None \<Rightarrow>
          (case prepare msg of
             Inl e \<Rightarrow> (dir, Inl e)
           | Inr payload \<Rightarrow>
               (case write_fault of
                  Some e \<Rightarrow> (dir, Inl e)
                | None \<Rightarrow> (dir(spool_name t msg rcpt \<mapsto> payload), Inr (length payload)))))"

section \<open>Deliver\<close>

record client_config =
  cc_mode :: string
  cc_relay_host :: string
  cc_relay_port :: int
  cc_relay_tls :: bool
  cc_trust :: string
  cc_routes :: "delivery_route list"

text \<open>
  What \<^verbatim>\<open>Deliver\<close> calls: the error of the initialisation, the end of the context, the fault of saving the
  egress usage, the time, the delivery to a host with a source address and credentials, the spool and LMTP.
\<close>
record 's client_env =
  cl_init :: "derror option"
  cl_ended :: "derror option"
  cl_save_fault :: "derror option"
  cl_time :: time
  cl_host :: "egress_selection \<Rightarrow> relay_auth \<Rightarrow> 's host_fn"
  cl_resolve :: "string \<Rightarrow> mx_host list answer"
  cl_dane :: "string \<Rightarrow> derror + dane_result"
  cl_sts :: "string \<Rightarrow> sts_error + sts_policy"
  cl_spool :: "'s \<Rightarrow> 's \<times> derror option"
  cl_lmtp :: "string \<Rightarrow> string list \<Rightarrow> 's \<Rightarrow> 's \<times> results"

definition requiretls_refused :: "string \<Rightarrow> derror" where
  "requiretls_refused what = stage_response StageTLS 550 (''5.7.30 REQUIRETLS is not supported by '' @ what)"

text \<open>The route of a recipient and the mode\<close>
definition client_route :: "client_config \<Rightarrow> string \<Rightarrow> delivery_route option" where
  "client_route cfg rcpt = route_for (cc_routes cfg) (the_domain rcpt)"

definition client_mode :: "client_config \<Rightarrow> delivery_route option \<Rightarrow> string" where
  "client_mode cfg route =
     (let mode = to_lower (trim_space (case route of None \<Rightarrow> cc_mode cfg | Some r \<Rightarrow> dr_mode r)) in if mode = [] then ''mx'' else mode)"

text \<open>The choice of the source address, for MX and relay only\<close>
definition client_source :: "'s client_env \<Rightarrow> delivery_route option \<Rightarrow> string \<Rightarrow> string \<Rightarrow> egress_manager option
    \<Rightarrow> egress_manager option \<times> (derror + egress_selection)" where
  "client_source env route mode tnt eg =
     (if mode = ''mx'' \<or> mode = ''relay'' then
        (case eg of
           None \<Rightarrow> (None, Inr no_selection)
         | Some m \<Rightarrow>
             (case select_source (cl_save_fault env) (cl_time env) (pool_for m (case route of None \<Rightarrow> [] | Some r \<Rightarrow> dr_pool r) tnt) m of
                (m', sel) \<Rightarrow> (Some m', sel)))
      else (eg, Inr no_selection))"

definition deliver_relay :: "'s client_env \<Rightarrow> client_config \<Rightarrow> delivery_route option \<Rightarrow> egress_selection \<Rightarrow> 's \<Rightarrow> 's \<times> derror option" where
  "deliver_relay env cfg route sel s =
     (let (host, port, require, auth) =
        (case route of
           None \<Rightarrow> (cc_relay_host cfg, cc_relay_port cfg, cc_relay_tls cfg, no_auth)
         | Some r \<Rightarrow> (dr_host r, dr_port r, dr_require_tls r,
             if dr_username r \<noteq> [] then \<lparr>rl_username = dr_username r, rl_password = dr_password r\<rparr> else no_auth))
      in if trim_space host = [] then (s, Some (OtherError ''relay mode requires MTA_RELAY_HOST''))
         else cl_host env sel auth s host (if port \<le> 0 then 25 else port) require None)"

text \<open>The switch over the mode\<close>
definition deliver_mode :: "'s client_env \<Rightarrow> client_config \<Rightarrow> delivery_route option \<Rightarrow> string \<Rightarrow> egress_selection \<Rightarrow> message \<Rightarrow> string \<Rightarrow> 's \<Rightarrow> 's \<times> derror option" where
  "deliver_mode env cfg route mode sel msg rcpt s =
     (if mode = ''mx'' then deliver_by_mx (cl_host env sel no_auth) (cl_resolve env) (cl_dane env) (cc_trust cfg) (cl_sts env) rcpt s
      else if mode = ''local_spool'' then
        (if require_tls msg then (s, Some (requiretls_refused ''local spool delivery'')) else cl_spool env s)
      else if mode = ''relay'' then deliver_relay env cfg route sel s
      else if mode = ''lmtp'' then
        (if require_tls msg then (s, Some (requiretls_refused ''LMTP delivery''))
         else (case route of
           None \<Rightarrow> (s, Some (OtherError ''LMTP requires a named delivery route''))
         | Some r \<Rightarrow>
             (case cl_lmtp env (dr_socket r) [rcpt] s of
                (s', res) \<Rightarrow> (s', case map_of res rcpt of None \<Rightarrow> None | Some e \<Rightarrow> e))))
      else (s, Some (OtherError (''unknown delivery mode: '' @ mode))))"

text \<open>\<^verbatim>\<open>Deliver\<close>\<close>
definition client_deliver :: "'s client_env \<Rightarrow> client_config \<Rightarrow> message \<Rightarrow> string \<Rightarrow> egress_manager option \<times> 's \<Rightarrow> (egress_manager option \<times> 's) \<times> derror option" where
  "client_deliver env cfg msg rcpt st =
     (case cl_init env of
        Some e \<Rightarrow> (st, Some e)
      | None \<Rightarrow>
          (case cl_ended env of
             Some e \<Rightarrow> (st, Some e)
           | None \<Rightarrow>
               (let route = client_route cfg rcpt; mode = client_mode cfg route in
                case client_source env route mode (tenant msg) (fst st) of
                  (eg, Inl e) \<Rightarrow> ((eg, snd st), Some e)
                | (eg, Inr sel) \<Rightarrow>
                    (case deliver_mode env cfg route mode sel msg rcpt (snd st) of (s', err) \<Rightarrow> ((eg, s'), err)))))"

text \<open>\<^verbatim>\<open>RouteMetadata\<close>\<close>
definition route_metadata :: "client_config \<Rightarrow> string \<Rightarrow> string \<times> string \<times> bool" where
  "route_metadata cfg rcpt =
     (let route = client_route cfg rcpt; mode = client_mode cfg route in
      (case route of None \<Rightarrow> [] | Some r \<Rightarrow> dr_name r, mode,
       mode = ''relay'' \<and> (case route of None \<Rightarrow> cc_relay_tls cfg | Some r \<Rightarrow> dr_require_tls r)))"

definition lmtp_route :: "client_config \<Rightarrow> string \<Rightarrow> delivery_route option" where
  "lmtp_route cfg domain =
     (case route_for (cc_routes cfg) domain of
        None \<Rightarrow> None
      | Some r \<Rightarrow> if equal_fold (trim_space (dr_mode r)) ''lmtp'' then Some r else None)"

text \<open>\<^verbatim>\<open>BatchKey\<close>\<close>
definition batch_key :: "client_config \<Rightarrow> string \<Rightarrow> string option" where
  "batch_key cfg rcpt = (case domain_of rcpt of None \<Rightarrow> None | Some d \<Rightarrow> map_option dr_name (lmtp_route cfg d))"

fun deliver_each :: "'s client_env \<Rightarrow> client_config \<Rightarrow> message \<Rightarrow> string list \<Rightarrow> egress_manager option \<times> 's \<Rightarrow> results
    \<Rightarrow> (egress_manager option \<times> 's) \<times> results" where
  "deliver_each env cfg msg [] st res = (st, res)"
| "deliver_each env cfg msg (r # rs) st res =
     (case client_deliver env cfg msg r st of (st', e) \<Rightarrow> deliver_each env cfg msg rs st' (AList.update r e res))"

text \<open>\<^verbatim>\<open>DeliverBatch\<close>\<close>
definition deliver_batch :: "'s client_env \<Rightarrow> client_config \<Rightarrow> message \<Rightarrow> string list \<Rightarrow> egress_manager option \<times> 's \<Rightarrow> (egress_manager option \<times> 's) \<times> results" where
  "deliver_batch env cfg msg rcpts st =
     (case rcpts of
        [] \<Rightarrow> (st, [])
      | first # others \<Rightarrow>
          if require_tls msg then (st, set_all rcpts (requiretls_refused ''LMTP delivery'') [])
          else (case cl_init env of
            Some e \<Rightarrow> (st, set_all rcpts e [])
          | None \<Rightarrow>
              (case cl_ended env of
                 Some e \<Rightarrow> (st, set_all rcpts e [])
               | None \<Rightarrow>
                   (case domain_of first of
                      None \<Rightarrow> (st, [(first, Some (OtherError ''invalid recipient domain''))])
                    | Some domain \<Rightarrow>
                        (case lmtp_route cfg domain of
                           None \<Rightarrow> deliver_each env cfg msg rcpts st []
                         | Some route \<Rightarrow>
                             (case find (\<lambda>r. batch_key cfg r \<noteq> Some (dr_name route)) others of
                                Some r \<Rightarrow> (st, [(r, Some (OtherError ''LMTP batch contains recipients from different routes''))])
                              | None \<Rightarrow>
                                  (case cl_lmtp env (dr_socket route) rcpts (snd st) of (s', res) \<Rightarrow> ((fst st, s'), res))))))))"

section \<open>Runs\<close>

text \<open>The delivery to hosts with the pool and the connections so far as its state\<close>
definition host_fn_of :: "(nat \<Rightarrow> host_env) \<Rightarrow> message \<Rightarrow> string \<Rightarrow> (connection_pool option \<times> wire list) host_fn" where
  "host_fn_of env msg rcpt s host port require dane =
     (case deliver_host (env (length (snd s))) (fst s) host port msg rcpt require dane of
        (pool', w, err) \<Rightarrow> ((pool', snd s @ (case w of None \<Rightarrow> [] | Some w' \<Rightarrow> [w'])), err))"

text \<open>The calls that a delivery makes\<close>
definition recorded :: "'s host_fn \<Rightarrow> ('s \<times> (string \<times> int \<times> bool \<times> dane_result option) list) host_fn" where
  "recorded deliver st host port require d =
     (case deliver (fst st) host port require d of (s', r) \<Rightarrow> ((s', snd st @ [(host, port, require, d)]), r))"

end
