(* ===== verification/Client_Samples.thy ===== *)
theory Client_Samples
  imports Client_Deliver
begin

text \<open>Deliveries on concrete connections: the theorems of the client at work.\<close>

definition crlf_lines :: "string list \<Rightarrow> string" where
  "crlf_lines ls = concat (map (\<lambda>l. l @ crlf) ls)"

definition mx_wire :: wire where
  "mx_wire = \<lparr>wr_input = crlf_lines [''220 mx'', ''250 STARTTLS'', ''220 go''], wr_end = EofError, wr_fails = (\<lambda>_. None), wr_writes = 0, wr_tls = False,
     wr_handshake = Inr (crlf_lines [''250 mx'', ''250 ok'', ''250 ok'', ''354 go'', ''250 queued'', ''221 bye'']), wr_certs = [], wr_log = []\<rparr>"

definition plain_wire :: wire where
  "plain_wire = mx_wire\<lparr>wr_input := crlf_lines [''220 mx'', ''250 mx'', ''250 ok'', ''250 ok'', ''354 go'', ''250 queued'', ''221 bye'']\<rparr>"

definition sample_crypto :: crypto where
  "sample_crypto = \<lparr>cy_sha256 = (\<lambda>s. s), cy_sha512 = (\<lambda>s. s), cy_host_ok = (\<lambda>_ _. True)\<rparr>"

definition dials :: "wire \<Rightarrow> network" where
  "dials w = \<lparr>nt_resolve = None, nt_dial = (\<lambda>_ _ _. Inr w), nt_crypto = sample_crypto\<rparr>"

definition sample_env :: "wire \<Rightarrow> host_env" where
  "sample_env w = \<lparr>he_network = dials w, he_admit = None, he_selection = no_selection, he_auth = no_auth, he_hostname = ''me'',
     he_prepare = (\<lambda>m. Inr (m_data m)), he_ended = Canceled, he_time = 0, he_number = 0\<rparr>"

definition mail :: "bool \<Rightarrow> message" where
  "mail tls = (new_message ''m1'')\<lparr>mail_from := ''a@b'', require_tls := tls, m_data := ''x''\<rparr>"

definition lmtp_wire :: wire where
  "lmtp_wire = mx_wire\<lparr>wr_input := crlf_lines [''220 lm'', ''250 lm'', ''250 ok'', ''250 ok'', ''354 go'', ''250 stored'']\<rparr>"

text \<open>The deliveries of the witnesses, evaluated\<close>

abbreviation "tls_delivery \<equiv> deliver_host (sample_env mx_wire) None ''mx.c'' 25 (mail False) ''u@c'' True None"
abbreviation "mx_delivery \<equiv> deliver_by_mx (host_fn_of (\<lambda>_. sample_env plain_wire) (mail False) ''u@c'')
  (\<lambda>_. ([\<lparr>mx_name = ''mx.c'', mx_pref = 0\<rparr>], None)) (\<lambda>_. Inl EofError) [] (\<lambda>_. Inl EmptyDomain) ''u@c'' (None, [])"
abbreviation "lmtp_delivery \<equiv> deliver_lmtp (\<lambda>_. Inr lmtp_wire) (\<lambda>m. Inr (m_data m)) ''me'' ''/s'' (mail False) [''u@c'']"

lemma deliveries_succeed:
  "fst (snd tls_delivery) \<noteq> None \<and> snd (snd tls_delivery) = None \<and> snd mx_delivery = None \<and>
   map_of (snd lmtp_delivery) ''u@c'' = Some None"
  by code_simp

definition policy_c :: sts_policy where
  "policy_c = \<lparr>sts_version = ''STSv1'', sts_mode = ''enforce'', sts_mx = [''*.c''], sts_max_age = hour, sts_expires = 0, sts_id = []\<rparr>"

definition hosts_cd :: "mx_host list" where
  "hosts_cd = [\<lparr>mx_name = ''mx.c'', mx_pref = 0\<rparr>, \<lparr>mx_name = ''mx.d'', mx_pref = 1\<rparr>]"

abbreviation "recorded_delivery \<equiv> deliver_by_mx (recorded (\<lambda>s h p r d. (s :: unit, None))) (\<lambda>_. (hosts_cd, None)) (\<lambda>_. Inl EofError) [] (\<lambda>_. Inr policy_c) ''u@c'' ((), [])"

lemma recorded_calls: "recorded_delivery = (((), [(''mx.c'', 25, True, None)]), None)"
  by code_simp

lemma sample_domain: "domain_of ''u@c'' = Some ''c''"
  by code_simp

end
