(* ===== verification/Client_Claims.thy ===== *)
theory Client_Claims
  imports Client_Samples
begin

text \<open>
  What the delivery client promises: nothing of a message leaves in the clear where TLS is required, a delivery is
  reported as done only after the server accepted the message, the policies of the recipient's domain bind every attempt,
  and LMTP accounts for every recipient. Some theorems state where the code falls short.
\<close>

section \<open>TLS\<close>

text \<open>A session of a key that requires TLS has it, and nothing else than the opening went in the clear.\<close>
definition session_secure :: "pooled \<Rightarrow> bool" where
  "session_secure s \<longleftrightarrow>
     (has_prefix (pk_policy (ses_key (snd s))) ''require=true'' \<longrightarrow>
        wr_tls (ses_wire (snd s)) \<and> list_all (plain_text (ses_key (snd s))) (clear_texts (wr_log (ses_wire (snd s)))))"

definition pool_secure :: "connection_pool option \<Rightarrow> bool" where
  "pool_secure pool = (case pool of None \<Rightarrow> True | Some p \<Rightarrow> \<forall>e \<in> set (cp_idle p). \<forall>s \<in> set (snd e). session_secure s \<and> ses_key (snd s) = fst e)"

lemma policy_prefix: "has_prefix (policy_text require dane) ''require=true'' = require"
  by (simp add: policy_text_def show_bool_def has_prefix_def)

lemma dial_any_inv: "dial_any nt key as err = Inr w \<Longrightarrow> \<exists>a. nt_dial nt (pk_source key) a (pk_port key) = Inr w"
  by (induction nt key as err rule: dial_any.induct) (auto split: if_splits sum.splits)

lemma client_dial_inv: "client_dial nt key = Inr w \<Longrightarrow> \<exists>a. nt_dial nt (pk_source key) a (pk_port key) = Inr w"
  by (auto simp: client_dial_def split: sum.splits option.splits dest: dial_any_inv)

text \<open>A connection starts without TLS and with nothing sent.\<close>
definition fresh_dials :: "network \<Rightarrow> bool" where
  "fresh_dials nt \<longleftrightarrow> (\<forall>src a p w. nt_dial nt src a p = Inr w \<longrightarrow> wr_log w = [] \<and> \<not> wr_tls w)"

lemma open_session_clear:
  assumes "open_smtp_session nt key auth require dane t = (w, r)" "fresh_dials nt"
  shows "\<And>w'. w = Some w' \<Longrightarrow> list_all (plain_text key) (clear_texts (wr_log w'))"
    and "\<And>s. r = Inr s \<Longrightarrow> w = Some (ses_wire s) \<and> ses_key s = key \<and> (require \<longrightarrow> wr_tls (ses_wire s))"
proof -
  have "(\<forall>w'. w = Some w' \<longrightarrow> list_all (plain_text key) (clear_texts (wr_log w'))) \<and>
    (\<forall>s. r = Inr s \<longrightarrow> w = Some (ses_wire s) \<and> ses_key s = key \<and> (require \<longrightarrow> wr_tls (ses_wire s)))"
  proof (cases "client_dial nt key")
    case (Inl e)
    then show ?thesis using assms(1) by (auto simp: open_smtp_session_def)
  next
    case (Inr w0)
    then have w0: "wr_log w0 = []" "\<not> wr_tls w0" using assms(2) client_dial_inv [OF Inr] by (auto simp: fresh_dials_def)
    obtain w1 res where h: "client_hello nt key auth require dane w0 = (w1, res)" by force
    have ok: "list_all (plain_text key) (clear_texts (wr_log w1))" "\<And>ls tls. res = Inr (ls, tls) \<Longrightarrow> require \<longrightarrow> wr_tls w1"
      using opens_hello [OF h w0(2)] w0(1) by (auto simp: opens_def)
    show ?thesis
    proof (cases res)
      case (Inl e)
      then have "w = Some w1 \<and> r = Inl e" using assms(1) Inr by (simp add: open_smtp_session_def h)
      then show ?thesis using ok(1) by simp
    next
      case res: (Inr p)
      obtain ls tls where p: "p = (ls, tls)" by (cases p)
      obtain s where "w = Some w1" "r = Inr s" "ses_wire s = w1" "ses_key s = key"
        using assms(1) Inr by (auto simp: open_smtp_session_def h res p)
      then show ?thesis using ok(1) ok(2) [of ls tls] res p by simp
    qed
  qed
  then show "\<And>w'. w = Some w' \<Longrightarrow> list_all (plain_text key) (clear_texts (wr_log w'))"
    "\<And>s. r = Inr s \<Longrightarrow> w = Some (ses_wire s) \<and> ses_key s = key \<and> (require \<longrightarrow> wr_tls (ses_wire s))" by blast+
qed

lemma update_entries: "set (AList.update k l xs) \<subseteq> insert (k, l) (set xs)"
  by (induction xs) auto

lemma secure_update:
  assumes "pool_secure (Some p)" "\<forall>s \<in> set l. session_secure s \<and> ses_key (snd s) = k"
  shows "pool_secure (Some (set_idle k l p))"
  using assms update_entries [of k l "cp_idle p"] by (fastforce simp: pool_secure_def set_idle_def)

lemma secure_idle [simp]: "pool_secure (Some (p\<lparr>cp_keys := a\<rparr>)) = pool_secure (Some p)" "pool_secure (Some (p\<lparr>cp_total := b\<rparr>)) = pool_secure (Some p)"
  "pool_secure (Some (p\<lparr>cp_changed := c\<rparr>)) = pool_secure (Some p)"
  by (simp_all add: pool_secure_def)

lemma close_secure: "pool_secure (Some (close_session p s)) = pool_secure (Some p)"
  by (simp add: close_session_def signal_changed_def release_total_def release_key_def pool_secure_def)

lemma idle_of_secure: "pool_secure (Some p) \<Longrightarrow> s \<in> set (idle_of p k) \<Longrightarrow> session_secure s \<and> ses_key (snd s) = k"
  by (cases "map_of (cp_idle p) k") (auto simp: pool_secure_def idle_of_def dest!: map_of_SomeD)

lemma reuse_secure:
  assumes "reuse_loop p key tm l = (p', res)" "pool_secure (Some p)" "\<forall>s \<in> set l. session_secure s \<and> ses_key (snd s) = key"
  shows "pool_secure (Some p') \<and> (\<forall>s. res = Some s \<longrightarrow> s \<in> set l)"
  using assms
proof (induction l arbitrary: p)
  case (Cons s older)
  have sec: "pool_secure (Some (set_idle key (rev older) p))" using Cons.prems by (intro secure_update) simp_all
  show ?case
  proof (cases "session_fresh (cp_cfg p) tm s")
    case True
    then show ?thesis using Cons.prems sec by auto
  next
    case False
    then show ?thesis using Cons.prems sec Cons.IH [of "close_session (set_idle key (rev older) p) s"] by (auto simp: close_secure Let_def)
  qed
qed auto

lemma enter_secure:
  assumes "pool_enter p key tm = (p', e)" "pool_secure (Some p)"
  shows "pool_secure (Some p') \<and> (\<forall>s. e = Reused s \<longrightarrow> session_secure s \<and> ses_key (snd s) = key)"
proof -
  obtain q res where r: "reuse_loop p key tm (rev (idle_of p key)) = (q, res)" by fastforce
  have "pool_secure (Some q) \<and> (\<forall>s. res = Some s \<longrightarrow> s \<in> set (rev (idle_of p key)))"
    by (rule reuse_secure [OF r assms(2)]) (use idle_of_secure [OF assms(2)] in simp)
  then show ?thesis
    using assms r idle_of_secure [OF assms(2)] by (auto simp: pool_enter_def simp del: split_paired_All split: if_splits option.splits)
qed

lemma get_secure:
  assumes "pool_get p key tm n dial = (p', g)" "pool_secure (Some p)"
  shows "pool_secure (Some p') \<and>
    (\<forall>s. g = GotSession s \<longrightarrow> session_secure s \<and> ses_key (snd s) = key \<or> (\<exists>s0. dial = Inr s0 \<and> s = (n, s0\<lparr>ses_key := key\<rparr>)))"
proof -
  obtain p1 e where e: "pool_enter p key tm = (p1, e)" by fastforce
  have 1: "pool_secure (Some p1)" "\<And>s. e = Reused s \<Longrightarrow> session_secure s \<and> ses_key (snd s) = key" using enter_secure [OF e assms(2)] by auto
  show ?thesis
  proof (cases e)
    case PoolClosed
    then show ?thesis using assms(1) 1 by (auto simp: pool_get_def e)
  next
    case (Reused s)
    then show ?thesis using assms(1) 1(1) 1(2) [OF Reused] by (auto simp: pool_get_def e)
  next
    case NoIdle
    then show ?thesis
      using assms(1) 1(1)
      by (auto simp: pool_get_def e acquire_key_def acquire_total_def release_key_def dial_failed_def signal_changed_def release_total_def
          pool_secure_def split: if_splits sum.splits)
  qed
qed

lemma put_secure:
  assumes "pool_secure (Some p)" "session_secure s"
  shows "pool_secure (Some (pool_put p s reusable tm))"
proof -
  define s1 where "s1 = (fst s, (snd s)\<lparr>ses_deliveries := ses_deliveries (snd s) + 1, ses_idle_since := tm\<rparr>)"
  have "session_secure s1" "ses_key (snd s1) = ses_key (snd s)" using assms(2) by (simp_all add: session_secure_def s1_def)
  then have "pool_secure (Some (set_idle (ses_key (snd s)) (idle_of p (ses_key (snd s)) @ [s1]) p))"
    using assms(1) idle_of_secure [OF assms(1)] by (intro secure_update) auto
  then show ?thesis
    using assms(1) by (auto simp: pool_put_def Let_def close_secure signal_changed_def s1_def)
qed

lemma quit_clear: "wr_tls w \<Longrightarrow> list_all P (clear_texts (wr_log w)) \<Longrightarrow> list_all P (clear_texts (wr_log (quit w)))"
proof -
  assume tls: "wr_tls w" and ok: "list_all P (clear_texts (wr_log w))"
  obtain w1 r1 where s: "send_line w ''QUIT'' = (w1, r1)" by force
  obtain w2 r2 where c: "read_code w1 = (w2, r2)" by force
  have "talks P w w2" using talks_trans [OF talks_send_line [OF _ s] talks_read_code [OF c]] tls by blast
  then show ?thesis using ok by (auto simp: quit_def s c talks_def)
qed

text \<open>The session that a delivery uses is secure, be it new or from the pool.\<close>
lemma obtain_secure:
  assumes "obtain_session env pool key require dane = (pool', w, r)" "pool_secure pool" "fresh_dials (he_network env)"
    and "pk_policy key = policy_text require dane"
  shows "pool_secure pool' \<and> (pool' = None \<longleftrightarrow> pool = None) \<and>
    (\<forall>w'. w = Some w' \<longrightarrow> list_all (plain_text key) (clear_texts (wr_log w'))) \<and>
    (\<forall>s. r = Inr s \<longrightarrow> session_secure s \<and> ses_key (snd s) = key)"
proof -
  obtain w0 d where o: "open_smtp_session (he_network env) key (he_auth env) require dane (he_time env) = (w0, d)" by fastforce
  note opened = open_session_clear [OF o assms(3)]
  have new: "session_secure (n, s\<lparr>ses_key := key\<rparr>) \<and> s\<lparr>ses_key := key\<rparr> = s \<and> ses_key s = key" if "d = Inr s" for n s
    using opened(1) [of "ses_wire s"] opened(2) [OF that] assms(4) by (auto simp: session_secure_def policy_prefix)
  show ?thesis
  proof (cases pool)
    case None
    then show ?thesis using assms(1) opened(1) new by (auto simp: obtain_session_def o pool_secure_def split: sum.splits) metis+
  next
    case (Some p)
    obtain p' g where g: "pool_get p key (he_time env) (he_number env) d = (p', g)" by fastforce
    have "pool_secure (Some p')" "\<And>s. g = GotSession s \<Longrightarrow> session_secure s \<and> ses_key (snd s) = key"
      using get_secure [OF g] assms(2) Some new by (auto simp: simp del: split_paired_All)
    then show ?thesis
      using assms(1) Some opened(1) by (cases g) (auto simp: obtain_session_def o g simp del: split_paired_All)
  qed
qed

text \<open>C3: Where TLS is required, by the route, by the policies of the domain or by REQUIRETLS of the message, a delivery to a
  host sends nothing in the clear but EHLO and STARTTLS: no address, no credentials, nothing of the message. This holds for new connections and for those from the
  pool, and what goes back to the pool keeps it for the deliveries that follow.
\<close>
theorem required_tls_enforced:
  assumes "require0 \<or> require_tls msg" "fresh_dials (he_network env)" "pool_secure pool"
    and "deliver_host env pool host port msg rcpt require0 dane = (pool', w, err)"
  shows "pool_secure pool' \<and>
    (\<forall>w'. w = Some w' \<longrightarrow>
       list_all (plain_text (host_key_of env host (if port \<le> 0 then 25 else port) True dane)) (clear_texts (wr_log w')))"
proof -
  let ?key = "host_key_of env host (if port \<le> 0 then 25 else port) True dane"
  have req: "(require0 \<or> require_tls msg) = True" using assms(1) by simp
  obtain p1 w1 r where o: "obtain_session env pool ?key True dane = (p1, w1, r)" by (cases "obtain_session env pool ?key True dane") auto
  note ob = obtain_secure [OF o assms(3,2)]
  have pol: "pk_policy ?key = policy_text True dane" by (simp add: host_key_of_def)
  show ?thesis
  proof (cases "he_admit env")
    case (Some e)
    then show ?thesis using assms(3,4) by (auto simp: deliver_host_def)
  next
    case admitted: None
    show ?thesis
    proof (cases r)
      case (Inl e)
      then show ?thesis using assms(4) admitted o ob [OF pol] by (auto simp: deliver_host_def req Let_def)
    next
      case (Inr s)
      obtain w2 reusable r2 where t: "deliver_transaction (he_prepare env) (snd s) msg rcpt = (w2, reusable, r2)"
        by (cases "deliver_transaction (he_prepare env) (snd s) msg rcpt") auto
      have s: "session_secure s" "ses_key (snd s) = ?key" using ob [OF pol] Inr by auto
      then have tls: "wr_tls (ses_wire (snd s))" "list_all (plain_text ?key) (clear_texts (wr_log (ses_wire (snd s))))"
        by (auto simp: session_secure_def pol policy_prefix)
      have "talks (plain_text ?key) (ses_wire (snd s)) w2" by (rule talks_transaction [OF tls(1) t])
      then have w2: "wr_tls w2" "list_all (plain_text ?key) (clear_texts (wr_log w2))" using tls by (auto simp: talks_def)
      then have "session_secure (fst s, (snd s)\<lparr>ses_wire := w2\<rparr>)" using s(2) by (simp add: session_secure_def)
      then show ?thesis
        using assms(4) admitted o ob [OF pol] Inr t w2 quit_clear [OF w2] put_secure
        by (auto simp: deliver_host_def req Let_def split: option.splits)
    qed
  qed
qed

theorem required_tls_enforced_witness:
  "\<exists>w. fst (snd tls_delivery) = Some w \<and> list_all (plain_text (host_key_of (sample_env mx_wire) ''mx.c'' 25 True None)) (clear_texts (wr_log w))"
proof -
  obtain p w e where d: "tls_delivery = (p, w, e)" by (cases tls_delivery) auto
  then obtain w' where w': "w = Some w'" using deliveries_succeed by auto
  have "fresh_dials (he_network (sample_env mx_wire))" by (simp add: fresh_dials_def sample_env_def dials_def mx_wire_def)
  from required_tls_enforced [OF _ this _ d] show ?thesis by (simp add: d w' pool_secure_def)
qed

section \<open>Accepted messages\<close>

text \<open>
  Somewhere on the connection: MAIL was answered with success, RCPT for the recipient, DATA with 354, then
  the whole stuffed text was sent, and the reply to it was success.
\<close>
definition accepted_on :: "wire \<Rightarrow> (message \<Rightarrow> derror + string) \<Rightarrow> message \<Rightarrow> string \<Rightarrow> bool" where
  "accepted_on w prepare msg rcpt \<longleftrightarrow>
     (\<exists>before after ses payload tls c1 c2 c3.
        prepare msg = Inr payload \<and> is_2xx c1 \<and> is_2xx3xx c2 \<and> is_2xx c3 \<and>
        wr_log w = before @
          [wire_event.Sent tls (mail_command ses msg @ crlf), Got c1, wire_event.Sent tls (rcpt_command (ses_dsn ses) msg rcpt @ crlf), Got c2,
           wire_event.Sent tls (''DATA'' @ crlf), Got 354, wire_event.Sent tls (dot_stuff payload @ end_of_data), Got c3] @ after)"

lemma quit_log: "\<exists>evs. wr_log (quit w) = wr_log w @ evs"
proof -
  obtain w1 r1 where s: "send_line w ''QUIT'' = (w1, r1)" by force
  obtain w2 r2 where c: "read_code w1 = (w2, r2)" by force
  have "talks (\<lambda>_. True) w w1" by (rule talks_send_line [OF _ s]) simp
  then have "talks (\<lambda>_. True) w w2" by (rule talks_trans [OF _ talks_read_code [OF c]])
  then show ?thesis by (auto simp: quit_def s c talks_def)
qed

lemma accepted_more:
  assumes "accepted_on w prepare msg rcpt" "wr_log w' = wr_log w @ evs"
  shows "accepted_on w' prepare msg rcpt"
proof -
  obtain before after ses payload tls c1 c2 c3 where a: "prepare msg = Inr payload" "is_2xx c1" "is_2xx3xx c2" "is_2xx c3"
      "wr_log w = before @
          [wire_event.Sent tls (mail_command ses msg @ crlf), Got c1, wire_event.Sent tls (rcpt_command (ses_dsn ses) msg rcpt @ crlf), Got c2,
           wire_event.Sent tls (''DATA'' @ crlf), Got 354, wire_event.Sent tls (dot_stuff payload @ end_of_data), Got c3] @ after"
    using assms(1) unfolding accepted_on_def by blast
  show ?thesis unfolding accepted_on_def assms(2) a(5)
    by (rule exI [of _ before], rule exI [of _ "after @ evs"], rule exI [of _ ses], rule exI [of _ payload],
        rule exI [of _ tls], rule exI [of _ c1], rule exI [of _ c2], rule exI [of _ c3])
      (simp only: a append_assoc simp_thms)
qed

lemma transaction_accepted:
  assumes "deliver_transaction prepare ses msg rcpt = (w', ok, None)"
  shows "accepted_on w' prepare msg rcpt"
  using assms
proof (rule transaction_success)
  fix payload c1 c2 c3
  assume "prepare msg = Inr payload" "is_2xx c1" "is_2xx3xx c2" "is_2xx c3"
    and "wr_log w' = wr_log (ses_wire ses) @
       [wire_event.Sent (wr_tls (ses_wire ses)) (mail_command ses msg @ crlf), Got c1,
        wire_event.Sent (wr_tls (ses_wire ses)) (rcpt_command (ses_dsn ses) msg rcpt @ crlf), Got c2,
        wire_event.Sent (wr_tls (ses_wire ses)) (''DATA'' @ crlf), Got 354, body_of (ses_wire ses) payload, Got c3]"
  note facts = this
  show ?thesis unfolding accepted_on_def
    by (rule exI [of _ "wr_log (ses_wire ses)"], rule exI [of _ "[]"], rule exI [of _ ses], rule exI [of _ payload],
        rule exI [of _ "wr_tls (ses_wire ses)"], rule exI [of _ c1], rule exI [of _ c2], rule exI [of _ c3])
      (simp only: facts append_Nil2 simp_thms)
qed

lemma deliver_host_accepted:
  assumes "deliver_host env pool host port msg rcpt require dane = (pool', w, None)"
  shows "\<exists>w'. w = Some w' \<and> accepted_on w' (he_prepare env) msg rcpt"
proof -
  let ?key = "host_key_of env host (if port \<le> 0 then 25 else port) (require \<or> require_tls msg) dane"
  have adm: "he_admit env = None" using assms by (cases "he_admit env") (simp_all add: deliver_host_def Let_def)
  obtain p1 w1 r where o: "obtain_session env pool ?key (require \<or> require_tls msg) dane = (p1, w1, r)"
    by (cases "obtain_session env pool ?key (require \<or> require_tls msg) dane") auto
  then obtain s where r: "r = Inr s" using assms adm by (cases r) (auto simp: deliver_host_def Let_def)
  obtain w2 reusable r2 where t: "deliver_transaction (he_prepare env) (snd s) msg rcpt = (w2, reusable, r2)"
    by (cases "deliver_transaction (he_prepare env) (snd s) msg rcpt") auto
  have r2: "r2 = None" using assms adm o r t by (auto simp: deliver_host_def Let_def split: option.splits)
  have acc: "accepted_on w2 (he_prepare env) msg rcpt" using t unfolding r2 by (rule transaction_accepted)
  show ?thesis
  proof (cases p1)
    case None
    then show ?thesis using assms adm o r t accepted_more [OF acc] quit_log [of w2] by (auto simp: deliver_host_def Let_def)
  next
    case (Some p)
    then show ?thesis using assms adm o r t acc by (auto simp: deliver_host_def Let_def)
  qed
qed

text \<open>The hosts in turn: success is the success of the last call.\<close>
lemma mx_loop_success:
  "mx_loop deliver plan hs prev s = (s', None) \<Longrightarrow>
   \<exists>h \<in> set hs. \<exists>s0. deliver s0 (mx_name h) 25 (mp_require plan) (if mp_dane_active plan then mp_dane plan (mx_name h) else None) = (s', None)"
proof (induction deliver plan hs prev s rule: mx_loop.induct)
  case (2 deliver plan h hs prev s)
  obtain s1 r where d: "deliver s (mx_name h) 25 (mp_require plan) (if mp_dane_active plan then mp_dane plan (mx_name h) else None) = (s1, r)" by fastforce
  have none: "classify_dane_failure r = None \<longleftrightarrow> r = None"
    by (auto simp: classify_dane_failure_def Let_def split: option.splits if_splits)
  show ?case
  proof (cases "if mp_dane_active plan then classify_dane_failure r else r")
    case None
    then have "r = None" using none by (auto split: if_splits)
    then show ?thesis using 2(2) d None by (auto intro!: bexI [of _ h])
  next
    case (Some e)
    then have "as_deferred e = None" "mx_loop deliver plan hs (Some e) s1 = (s', None)" using 2(2) d by (auto split: if_splits option.splits)
    then show ?thesis using 2(1) [OF d [symmetric] Some] by auto
  qed
qed simp

text \<open>C6: A message is reported as delivered to the mail exchangers of a domain only after one of them answered
  the complete text, sent for this sender and this recipient, with a success code.
\<close>
theorem delivered_means_accepted:
  assumes "deliver_by_mx (host_fn_of env msg rcpt) resolve dane trust sts rcpt s = ((pool', ws), None)"
  shows "ws \<noteq> [] \<and> (\<exists>n. accepted_on (last ws) (he_prepare (env n)) msg rcpt)"
proof -
  obtain plan where "mx_loop (host_fn_of env msg rcpt) plan (mp_hosts plan) None s = ((pool', ws), None)"
    using assms by (auto simp: deliver_by_mx_def split: option.splits prod.splits sum.splits)
  from mx_loop_success [OF this] obtain s0 host require d where
    call: "host_fn_of env msg rcpt s0 host 25 require d = ((pool', ws), None)" by blast
  obtain p1 w r where h: "deliver_host (env (length (snd s0))) (fst s0) host 25 msg rcpt require d = (p1, w, r)"
    by (cases "deliver_host (env (length (snd s0))) (fst s0) host 25 msg rcpt require d") auto
  have r: "r = None" "ws = snd s0 @ (case w of None \<Rightarrow> [] | Some w' \<Rightarrow> [w'])" using call by (simp_all add: host_fn_of_def h)
  from deliver_host_accepted [OF h [unfolded r(1)]] obtain w' where "w = Some w'" "accepted_on w' (he_prepare (env (length (snd s0)))) msg rcpt" by blast
  then show ?thesis using r(2) by auto
qed

theorem delivered_means_accepted_witness:
  "snd mx_delivery = None \<and> accepted_on (last (snd (fst mx_delivery))) (he_prepare (sample_env plain_wire)) (mail False) ''u@c''"
proof -
  obtain p ws e where d: "mx_delivery = ((p, ws), e)" by (cases mx_delivery) auto
  have "e = None" using deliveries_succeed d by simp
  with d delivered_means_accepted [of "\<lambda>_. sample_env plain_wire" "mail False" "''u@c''"] show ?thesis by fastforce
qed

section \<open>Policies\<close>

lemma mx_loop_calls:
  "mx_loop (recorded deliver) plan hs prev (s, calls) = ((s', calls'), r) \<Longrightarrow>
   \<exists>new. calls' = calls @ new \<and>
     (\<forall>c \<in> set new. \<exists>h \<in> set hs. c = (mx_name h, 25, mp_require plan, if mp_dane_active plan then mp_dane plan (mx_name h) else None))"
proof (induction hs arbitrary: prev s calls)
  case (Cons h hs)
  define c where "c = (mx_name h, 25 :: int, mp_require plan, if mp_dane_active plan then mp_dane plan (mx_name h) else None)"
  obtain s1 r1 where d: "deliver s (mx_name h) 25 (mp_require plan) (if mp_dane_active plan then mp_dane plan (mx_name h) else None) = (s1, r1)" by fastforce
  have rec: "recorded deliver (s, calls) (mx_name h) 25 (mp_require plan) (if mp_dane_active plan then mp_dane plan (mx_name h) else None) = ((s1, calls @ [c]), r1)"
    by (simp add: recorded_def d c_def)
  show ?case
  proof (cases "calls' = calls @ [c]")
    case True
    then show ?thesis by (auto simp: c_def)
  next
    case False
    then obtain e where "mx_loop (recorded deliver) plan hs (Some e) (s1, calls @ [c]) = ((s', calls'), r)"
      using Cons.prems rec by (auto split: option.splits if_splits)
    from Cons.IH [OF this] obtain new where "calls' = (calls @ [c]) @ new"
      "\<forall>c \<in> set new. \<exists>h \<in> set hs. c = (mx_name h, 25, mp_require plan, if mp_dane_active plan then mp_dane plan (mx_name h) else None)" by blast
    then show ?thesis by (intro exI [of _ "c # new"]) (auto simp: c_def)
  qed
qed auto

text \<open>C12: The policies of the recipient's domain bind every attempt: if one of its hosts has usable TLSA records, only hosts with
  usable records are tried, each with TLS required and its own records; otherwise, if its MTA-STS policy is enforced, only hosts that the policy allows are
  tried, each with TLS required. Every host tried is one of the domain's, on port 25.
\<close>
theorem domain_policies_enforced:
  assumes "domain_of rcpt = Some domain" "resolve domain = (hosts, None)"
    and "deliver_by_mx (recorded deliver) resolve dane trust sts rcpt (s, []) = ((s', calls), r)"
    and "(h, port, require, d) \<in> set calls"
  shows "h \<in> mx_name ` set hosts \<and> port = 25 \<and>
    (if \<exists>x \<in> set hosts. usable_dane dane trust (mx_name x) \<noteq> None
     then require \<and> d \<noteq> None \<and> d = usable_dane dane trust h
     else (\<forall>p. sts domain = Inr p \<and> sts_mode p = ''enforce'' \<longrightarrow> require \<and> allows_mx p h))"
proof -
  have eq: "(case plan_hosts dane trust (sts domain) hosts of Inl e \<Rightarrow> ((s, []), Some e)
      | Inr plan \<Rightarrow> mx_loop (recorded deliver) plan (mp_hosts plan) None (s, [])) = ((s', calls), r)"
    using assms(1-3) by (simp add: deliver_by_mx_def)
  then obtain plan where plan: "plan_hosts dane trust (sts domain) hosts = Inr plan" "mx_loop (recorded deliver) plan (mp_hosts plan) None (s, []) = ((s', calls), r)"
    using assms(4) by (auto split: sum.splits)
  from mx_loop_calls [OF plan(2)] assms(4) obtain x where
    x: "x \<in> set (mp_hosts plan)" "h = mx_name x" "port = 25" "require = mp_require plan" "d = (if mp_dane_active plan then mp_dane plan (mx_name x) else None)"
    by auto
  show ?thesis
  proof (cases "filter (\<lambda>h. usable_dane dane trust (mx_name h) \<noteq> None) hosts = []")
    case True
    then have none: "\<not> (\<exists>x \<in> set hosts. usable_dane dane trust (mx_name x) \<noteq> None)" by (simp add: filter_empty_conv)
    have "set (mp_hosts plan) \<subseteq> set hosts" "\<forall>p. sts domain = Inr p \<and> sts_mode p = ''enforce'' \<longrightarrow> mp_require plan \<and> (\<forall>x \<in> set (mp_hosts plan). allows_mx p (mx_name x))"
      using plan(1) True by (auto simp: plan_hosts_def Let_def split: sum.splits if_splits)
    then show ?thesis using x unfolding if_not_P [OF none] by auto
  next
    case False
    then have some: "\<exists>x \<in> set hosts. usable_dane dane trust (mx_name x) \<noteq> None" by (auto simp: filter_empty_conv)
    have "plan = \<lparr>mp_hosts = filter (\<lambda>h. usable_dane dane trust (mx_name h) \<noteq> None) hosts, mp_require = True, mp_dane = usable_dane dane trust, mp_dane_active = True\<rparr>"
      using plan(1) False by (simp add: plan_hosts_def Let_def)
    then show ?thesis using x unfolding if_P [OF some] by auto
  qed
qed

theorem domain_policies_enforced_witness:
  "recorded_delivery = (((), [(''mx.c'', 25, True, None)]), None) \<and> allows_mx policy_c ''mx.c''"
proof -
  have none: "\<not> (\<exists>x \<in> set hosts_cd. usable_dane (\<lambda>_. Inl EofError) [] (mx_name x) \<noteq> None)" by (simp add: usable_dane_def)
  show ?thesis
    using domain_policies_enforced [OF sample_domain _ recorded_calls, of hosts_cd "''mx.c''" 25 True None] recorded_calls
    unfolding if_not_P [OF none] by (simp add: policy_c_def)
qed

end
