(* ===== verification/Client_Edges.thy ===== *)
theory Client_Edges
  imports Client_Claims
begin

text \<open>
  LMTP accounts for every recipient, and the places where the delivery client does not do what it means to:
  an unknown status is hidden by the next host, a null MX leads to the local host, and two recipients
  share a spool file.
\<close>

section \<open>LMTP\<close>

lemma set_all_Cons: "set_all (x # rcpts) e res = set_all rcpts e (if map_of res x = None then AList.update x (Some e) res else res)"
  by (simp add: set_all_def)

lemma set_all_map: "map_of (set_all rcpts e res) r =
    (case map_of res r of None \<Rightarrow> if r \<in> set rcpts then Some (Some e) else None | Some x \<Rightarrow> Some x)"
proof (induction rcpts arbitrary: res)
  case Nil
  show ?case by (simp add: set_all_def split: option.splits)
next
  case (Cons x rcpts)
  show ?case unfolding set_all_Cons Cons.IH by (auto simp: update_conv' split: option.splits)
qed

text \<open>Every recipient has a result, and a result without error stands for a success.\<close>
definition lmtp_settled :: "string list \<Rightarrow> results \<Rightarrow> bool \<Rightarrow> bool" where
  "lmtp_settled rcpts res good \<longleftrightarrow> (\<forall>r \<in> set rcpts. map_of res r \<noteq> None) \<and> (\<forall>r. map_of res r = Some None \<longrightarrow> good)"

definition no_success :: "results \<Rightarrow> bool" where
  "no_success res \<longleftrightarrow> (\<forall>r. map_of res r \<noteq> Some None)"

lemma no_success_Nil [simp]: "no_success []"
  by (simp add: no_success_def)

lemma set_all_settled: "no_success res \<Longrightarrow> lmtp_settled rcpts (set_all rcpts e res) good"
  unfolding lmtp_settled_def no_success_def
  by (auto simp: set_all_map split: option.splits)

text \<open>After the recipients each one is accepted or has an error.\<close>
lemma rcpts_settled:
  assumes "lmtp_rcpts d msg rs w res acc = (w', res', out)" "no_success res"
  shows "no_success res' \<and> (\<forall>r. map_of res r \<noteq> None \<longrightarrow> map_of res' r \<noteq> None) \<and>
    (\<forall>accepted. out = Inr accepted \<longrightarrow> set acc \<subseteq> set accepted \<and> (\<forall>r \<in> set rs. r \<in> set accepted \<or> map_of res' r \<noteq> None))"
  using assms
proof (induction rs arbitrary: w res acc)
  case (Cons r rs)
  obtain w1 e1 where s: "send_line w (rcpt_command d msg r) = (w1, e1)" by fastforce
  obtain w2 e2 where x: "expect_2xx3xx w1 = (w2, e2)" by fastforce
  consider (broken) e where "e1 = Some e" | (refused) e where "e1 = None" "e2 = Some e" | (ok) "e1 = None" "e2 = None"
    by (cases e1; cases e2) auto
  then show ?case
  proof cases
    case broken
    then show ?thesis using Cons.prems s by auto
  next
    case (refused e)
    let ?res = "AList.update r (Some (Wrapped ''rcpt rejected: '' (at_stage StageRCPT e))) res"
    have ns: "no_success ?res" using Cons.prems(2) by (simp add: no_success_def update_conv')
    have eq: "lmtp_rcpts d msg rs w2 ?res acc = (w', res', out)" using Cons.prems(1) s x refused by simp
    note ih = Cons.IH [OF eq ns]
    have "map_of ?res r \<noteq> None" by (simp add: update_conv')
    then have "map_of res' r \<noteq> None" using ih by blast
    moreover have "map_of ?res k \<noteq> None" if "map_of res k \<noteq> None" for k using that by (simp add: update_conv')
    ultimately show ?thesis using ih by (metis set_ConsD)
  next
    case ok
    have eq: "lmtp_rcpts d msg rs w2 res (r # acc) = (w', res', out)" using Cons.prems(1) s x ok by simp
    from Cons.IH [OF eq Cons.prems(2)] show ?thesis by auto
  qed
qed auto

lemma finals_settled:
  assumes "lmtp_finals accepted rs w res = (w', res')" "set rs \<subseteq> set accepted"
  shows "\<exists>evs. wr_log w' = wr_log w @ evs \<and>
    (\<forall>r. map_of res r \<noteq> None \<longrightarrow> map_of res' r \<noteq> None) \<and>
    (\<forall>r \<in> set rs. map_of res' r \<noteq> None) \<and>
    (\<forall>r. map_of res' r = Some None \<longrightarrow> map_of res r = Some None \<or> (\<exists>c. Got c \<in> set evs \<and> is_2xx c))"
  using assms
proof (induction rs arbitrary: w res)
  case (Cons r rs)
  show ?case
  proof (cases rule: read_code_cases [of w])
    case (failed rest e)
    let ?res = "AList.update r (Some (at_stage StageDATA e)) res"
    have w': "w' = w\<lparr>wr_input := rest\<rparr>" "res' = set_all accepted (at_stage StageDATA (OtherError ''LMTP final response missing'')) ?res"
      using Cons.prems(1) failed by auto
    have all: "map_of res' k \<noteq> None" if "k \<in> set accepted" for k
      unfolding w'(2) set_all_map using that by (simp split: option.splits)
    have old: "map_of res' k \<noteq> None" if "map_of res k \<noteq> None" for k
      unfolding w'(2) set_all_map using that by (auto simp: update_conv' split: option.splits)
    have good: "map_of res k = Some None" if "map_of res' k = Some None" for k
      using that unfolding w'(2) set_all_map by (auto simp: update_conv' split: option.splits if_splits)
    show ?thesis using w'(1) all old good Cons.prems(2) by (intro exI [of _ "[]"]) auto
  next
    case (got rest code line)
    let ?w = "w\<lparr>wr_input := rest, wr_log := wr_log w @ [Got code]\<rparr>"
    let ?x = "if is_2xx code then None
      else Some (SmtpError \<lparr>sr_stage = StageDATA, sr_enhanced = response_enhanced_status code line, sr_code = code, sr_line = line\<rparr>)"
    have eq: "lmtp_finals accepted rs ?w (AList.update r ?x res) = (w', res')" using Cons.prems(1) got by simp
    from Cons.IH [OF eq] Cons.prems(2) obtain evs where
      ih: "wr_log w' = wr_log ?w @ evs" "\<forall>k. map_of (AList.update r ?x res) k \<noteq> None \<longrightarrow> map_of res' k \<noteq> None"
        "\<forall>k \<in> set rs. map_of res' k \<noteq> None"
        "\<forall>k. map_of res' k = Some None \<longrightarrow> map_of (AList.update r ?x res) k = Some None \<or> (\<exists>c. Got c \<in> set evs \<and> is_2xx c)"
      by auto
    have good: "map_of res k = Some None \<or> (\<exists>c. Got c \<in> set (Got code # evs) \<and> is_2xx c)" if "map_of res' k = Some None" for k
      using ih(4) [rule_format, OF that] by (auto simp: update_conv' split: if_splits)
    have rest: "map_of res' k \<noteq> None" if "map_of res k \<noteq> None \<or> k = r" for k
      using ih(2) that by (auto simp: update_conv')
    show ?thesis using ih(1,3) good rest by (intro exI [of _ "Got code # evs"]) auto
  qed
qed auto

text \<open>What a connection must have seen for a recipient to count as delivered\<close>
definition body_confirmed :: "(message \<Rightarrow> derror + string) \<Rightarrow> message \<Rightarrow> wire \<Rightarrow> bool" where
  "body_confirmed prepare msg w \<longleftrightarrow>
     (\<exists>payload tls before after c. prepare msg = Inr payload \<and>
        wr_log w = before @ wire_event.Sent tls (dot_stuff payload @ end_of_data) # after \<and> Got c \<in> set after \<and> is_2xx c)"

lemma data_settled:
  assumes "lmtp_data prepare msg rcpts accepted w res = (w', res')" "no_success res"
    and "\<forall>r \<in> set rcpts. r \<in> set accepted \<or> map_of res r \<noteq> None"
  shows "lmtp_settled rcpts res' (body_confirmed prepare msg w')"
proof -
  obtain w1 e1 where s: "send_line w ''DATA'' = (w1, e1)" by fastforce
  obtain w2 e2 where x: "expect_code 354 w1 = (w2, e2)" by fastforce
  show ?thesis
  proof (cases "e1 = None \<and> e2 = None")
    case False
    then obtain e where "res' = set_all rcpts e res" using assms(1) s x by (cases e1; cases e2) (auto simp: lmtp_data_def)
    then show ?thesis using set_all_settled [OF assms(2)] by simp
  next
    case True
    show ?thesis
    proof (cases "prepare msg")
      case (Inl e)
      then show ?thesis using assms(1) s x True set_all_settled [OF assms(2)] by (auto simp: lmtp_data_def)
    next
      case (Inr payload)
      obtain w3 e3 where b: "wire_send w2 (dot_stuff payload @ end_of_data) = (w3, e3)" by fastforce
      show ?thesis
      proof (cases e3)
        case (Some e)
        then show ?thesis using assms(1) s x True Inr b set_all_settled [OF assms(2)] by (auto simp: lmtp_data_def)
      next
        case None
        have log3: "wr_log w3 = wr_log w2 @ [wire_event.Sent (wr_tls w2) (dot_stuff payload @ end_of_data)]"
          using b None by (cases rule: wire_send_cases [of w2 "dot_stuff payload @ end_of_data"]) auto
        obtain w4 where f: "lmtp_finals accepted accepted w3 res = (w4, res')" and w': "w' = fst (send_line w4 ''QUIT'')"
          using assms(1) s x True Inr b None by (auto simp: lmtp_data_def split: prod.splits)
        obtain w5 e5 where q: "send_line w4 ''QUIT'' = (w5, e5)" by fastforce
        have "talks (\<lambda>_. True) w4 w5" by (rule talks_send_line [OF _ q]) simp
        then obtain evs' where log5: "wr_log w' = wr_log w4 @ evs'" by (auto simp: w' q talks_def)
        from finals_settled [OF f] obtain evs where
          fin: "wr_log w4 = wr_log w3 @ evs" "\<forall>r. map_of res r \<noteq> None \<longrightarrow> map_of res' r \<noteq> None" "\<forall>r \<in> set accepted. map_of res' r \<noteq> None"
            "\<forall>r. map_of res' r = Some None \<longrightarrow> map_of res r = Some None \<or> (\<exists>c. Got c \<in> set evs \<and> is_2xx c)"
          by auto
        have "body_confirmed prepare msg w'" if success: "map_of res' r = Some None" for r
        proof -
          obtain c where c: "Got c \<in> set evs" "is_2xx c" using fin(4) [rule_format, OF success] assms(2) by (auto simp: no_success_def)
          show ?thesis unfolding body_confirmed_def
            by (rule exI [of _ payload], rule exI [of _ "wr_tls w2"], rule exI [of _ "wr_log w2"], rule exI [of _ "evs @ evs'"], rule exI [of _ c])
              (simp add: Inr log5 fin(1) log3 c)
        qed
        then show ?thesis using assms(3) fin(2,3) by (auto simp: lmtp_settled_def)
      qed
    qed
  qed
qed

text \<open>C32: LMTP delivers a result for every recipient it was given, and a result without error only after the
  complete text was sent and the server answered with success. As the dispatcher takes a missing result for a
  success, this is what keeps a recipient from being lost.
\<close>
theorem lmtp_accounts_for_all:
  assumes "deliver_lmtp dial prepare hostname socket msg rcpts = (w, res)" "r \<in> set rcpts"
  shows "\<exists>x. map_of res r = Some x \<and> (x = None \<longrightarrow> (\<exists>w'. w = Some w' \<and> body_confirmed prepare msg w'))"
proof -
  have "lmtp_settled rcpts res (\<exists>w'. w = Some w' \<and> body_confirmed prepare msg w')"
  proof (cases "dial (trim_space socket)")
    case (Inl e)
    then show ?thesis using assms(1) set_all_settled [OF no_success_Nil] by (auto simp: deliver_lmtp_def)
  next
    case (Inr w0)
    then obtain w' where w': "w = Some w'" "lmtp_session prepare hostname msg rcpts w0 = (w', res)"
      using assms(1) by (auto simp: deliver_lmtp_def split: prod.splits)
    have "lmtp_settled rcpts res (body_confirmed prepare msg w')"
    proof (cases "\<exists>e. res = set_all rcpts e []")
      case True
      then show ?thesis using set_all_settled [OF no_success_Nil] by auto
    next
      case False
      then obtain d w5 w6 res6 out where l: "lmtp_rcpts d msg rcpts w5 [] [] = (w6, res6, out)"
          "(w', res) = (case out of Inl e \<Rightarrow> (w6, set_all rcpts e res6)
             | Inr accepted \<Rightarrow> if accepted = [] then (w6, res6) else lmtp_data prepare msg rcpts accepted w6 res6)"
        using w'(2) by (auto simp: lmtp_session_def Let_def split: prod.splits option.splits sum.splits)
      from rcpts_settled [OF l(1)] have r6: "no_success res6"
        "\<And>accepted. out = Inr accepted \<Longrightarrow> \<forall>r \<in> set rcpts. r \<in> set accepted \<or> map_of res6 r \<noteq> None" by auto
      show ?thesis
      proof (cases out)
        case (Inl e)
        then show ?thesis using l(2) set_all_settled [OF r6(1)] by simp
      next
        case (Inr accepted)
        then show ?thesis
          using l(2) r6 data_settled [of prepare msg rcpts accepted w6 res6 w' res]
          by (cases "accepted = []") (auto simp: lmtp_settled_def no_success_def)
      qed
    qed
    then show ?thesis using w'(1) by simp
  qed
  then show ?thesis using assms(2) by (auto simp: lmtp_settled_def)
qed

theorem lmtp_accounts_for_all_witness:
  "map_of (snd lmtp_delivery) ''u@c'' = Some None \<and> (\<exists>w. fst lmtp_delivery = Some w \<and> body_confirmed (\<lambda>m. Inr (m_data m)) (mail False) w)"
proof -
  obtain w res where d: "lmtp_delivery = (w, res)" by (cases lmtp_delivery) auto
  have "map_of res ''u@c'' = Some None" using deliveries_succeed d by simp
  then show ?thesis using lmtp_accounts_for_all [OF d, of "''u@c''"] d by simp
qed

section \<open>An unknown status and the next host\<close>


text \<open>Two hosts, the first of which breaks off after the text; the state counts the attempts.\<close>
definition breaking_hosts :: "nat host_fn" where
  "breaking_hosts n host port require d =
     (n + 1, Some (if host = ''a.example'' then StatusUnknown (StageError StageDATA EofError) else NetError ''connection refused''))"

definition two_hosts :: "mx_host list" where
  "two_hosts = [\<lparr>mx_name = ''a.example'', mx_pref = 10\<rparr>, \<lparr>mx_name = ''b.example'', mx_pref = 20\<rparr>]"


section \<open>Null MX\<close>

text \<open>A domain that takes no mail says so with a single MX record for the root. The root becomes the empty
  name, the client delivers to it like to any host, and without the DNS cache it dials the empty address, which the network takes for the local
  host.
\<close>
theorem null_mx_dials_local_host:
  assumes "domain_of rcpt = Some domain" "lookup_mx domain = ([\<lparr>mx_name = ''.'', mx_pref = 0\<rparr>], None)"
    and "usable_dane dane trust [] = None" "sts domain = Inl none"
    and "nt_resolve (he_network env) = None" "he_admit env = None" "\<not> require_tls msg"
    and "nt_dial (he_network env) (sel_ip (he_selection env)) [] 25 = Inr w"
    and "client_hello (he_network env) (host_key_of env [] 25 False None) (he_auth env) False None w = (w1, Inr (ls, tls))"
  shows "\<exists>ses w2 ok err. ses_wire ses = w1 \<and>
    deliver_transaction (he_prepare env) ses msg rcpt = (w2, ok, err) \<and>
    fst (deliver_by_mx (host_fn_of (\<lambda>_. env) msg rcpt) (resolve_mx lookup_mx lookup_host) dane trust sts rcpt (None, [])) = (None, [quit w2])"
proof -
  define key where "key = host_key_of env [] 25 False None"
  have k: "pk_host key = []" "pk_port key = 25" "pk_source key = sel_ip (he_selection env)" by (simp_all add: key_def host_key_of_def to_lower_def trim_suffix_def has_suffix_def)
  have r: "resolve_mx lookup_mx lookup_host domain = ([\<lparr>mx_name = [], mx_pref = 0\<rparr>], None)"
    by (simp add: resolve_mx_def assms(2) mx_order_def trim_suffix_def has_suffix_def)
  have pn: "parse_ip [] = None" by code_simp
  have dial: "client_dial (he_network env) key = Inr w"
    using assms(5,8) by (simp add: client_dial_def dial_addresses_def k family_mismatch_def pn)
  obtain ses where o: "open_smtp_session (he_network env) key (he_auth env) False None (he_time env) = (Some w1, Inr ses)" "ses_wire ses = w1"
    using assms(9) by (simp add: open_smtp_session_def dial key_def [symmetric])
  obtain w2 ok err where t: "deliver_transaction (he_prepare env) ses msg rcpt = (w2, ok, err)"
    by (cases "deliver_transaction (he_prepare env) ses msg rcpt") auto
  have h: "deliver_host env None [] 25 msg rcpt False None = (None, Some (quit w2), err)"
    using assms(6,7) o t by (simp add: deliver_host_def obtain_session_def key_def)
  have "fst (deliver_by_mx (host_fn_of (\<lambda>_. env) msg rcpt) (resolve_mx lookup_mx lookup_host) dane trust sts rcpt (None, [])) = (None, [quit w2])"
    using assms(1,3,4) by (simp add: deliver_by_mx_def r plan_hosts_def host_fn_of_def h split: option.splits)
  with o t show ?thesis by blast
qed

theorem null_mx_dials_local_host_witness:
  "\<exists>ses w2 ok err. deliver_transaction (\<lambda>m. Inr (m_data m)) ses (mail False) ''u@c'' = (w2, ok, err) \<and>
    fst (deliver_by_mx (host_fn_of (\<lambda>_. sample_env plain_wire) (mail False) ''u@c'')
      (resolve_mx (\<lambda>_. ([\<lparr>mx_name = ''.'', mx_pref = 0\<rparr>], None)) (\<lambda>_. ([], None))) (\<lambda>_. Inl EofError) [] (\<lambda>_. Inl EmptyDomain) ''u@c'' (None, [])) =
      (None, [quit w2])"
proof -
  let ?h = "client_hello (dials plain_wire) (host_key_of (sample_env plain_wire) [] 25 False None) no_auth False None plain_wire"
  have "case snd ?h of Inr _ \<Rightarrow> True | Inl _ \<Rightarrow> False" by code_simp
  then obtain w1 ls tls where h: "?h = (w1, Inr (ls, tls))" by (cases ?h) (auto split: sum.splits)
  show ?thesis
    using null_mx_dials_local_host [OF sample_domain, of "\<lambda>_. ([\<lparr>mx_name = ''.'', mx_pref = 0\<rparr>], None)" "\<lambda>_. Inl EofError" "[]"
        "\<lambda>_. Inl EmptyDomain" EmptyDomain "sample_env plain_wire" "mail False" plain_wire w1 ls tls "\<lambda>_. ([], None)"] h
    by (auto simp: usable_dane_def sample_env_def dials_def mail_def new_message_def)
qed

section \<open>The spool\<close>

lemma sanitize_safe: "c \<in> set (sanitize_filename v) \<Longrightarrow> safe_char c"
  by (auto simp: sanitize_filename_def Let_def safe_char_def is_lower_def split: if_splits)

text \<open>The name of a spool file has no separator in the part made from the recipient, so that no address
  leads out of the directory; but two recipients of one message whose addresses differ only in case or in special characters
  get the same file, and the second text replaces the first while both deliveries succeed.
\<close>
theorem spool_recipients_collide:
  assumes "sanitize_filename r1 = sanitize_filename r2" "trim_space (m_id msg) \<noteq> []"
    and "write_spool None None t1 prepare msg r1 dir = (dir1, Inr n1)" "write_spool None None t2 prepare msg r2 dir1 = (dir2, Inr n2)"
  shows "CHR ''/'' \<notin> set (sanitize_filename r1) \<and> dir2 = dir1 \<and> spool_name t1 msg r1 = spool_name t2 msg r2"
proof -
  have name: "spool_name t1 msg r1 = spool_name t2 msg r2" using assms(1,2) by (simp add: spool_name_def Let_def)
  obtain payload where p: "prepare msg = Inr payload" using assms(3) by (auto simp: write_spool_def split: sum.splits)
  have "\<not> safe_char CHR ''/''" by code_simp
  then have "CHR ''/'' \<notin> set (sanitize_filename r1)" using sanitize_safe by blast
  then show ?thesis using name assms(3,4) by (auto simp: write_spool_def p)
qed

theorem spool_recipients_collide_witness:
  "\<exists>dir1 dir2 n1 n2. write_spool None None 0 (\<lambda>m. Inr (m_data m)) (mail False) ''a+b@c'' Map.empty = (dir1, Inr n1) \<and>
     write_spool None None 0 (\<lambda>m. Inr (m_data m)) (mail False) ''a_b@c'' dir1 = (dir2, Inr n2) \<and> dir2 = dir1"
proof -
  have eq: "sanitize_filename ''a+b@c'' = sanitize_filename ''a_b@c'' \<and> trim_space (m_id (mail False)) \<noteq> []" by code_simp
  obtain dir1 n1 where 1: "write_spool None None 0 (\<lambda>m. Inr (m_data m)) (mail False) ''a+b@c'' Map.empty = (dir1, Inr n1)"
    by (simp add: write_spool_def)
  obtain dir2 n2 where 2: "write_spool None None 0 (\<lambda>m. Inr (m_data m)) (mail False) ''a_b@c'' dir1 = (dir2, Inr n2)"
    by (simp add: write_spool_def)
  from spool_recipients_collide [OF conjunct1 [OF eq] conjunct2 [OF eq] 1 2] 1 2 show ?thesis by blast
qed

end
