(* ===== verification/Spf_Macros.thy ===== *)
theory Spf_Macros
  imports Net_Ip Smtp_Envelope
begin

text \<open>
  The macros of SPF (\<^verbatim>\<open>internal/mailauth/spf_macros.go\<close>): their expansion with transformers and delimiters, the
  domain names made from them, and the delimiters of a term that are not inside a macro. Every error of the expansion is a \<open>permerror\<close> to the evaluation, so that its text is all that is kept of it.
\<close>

section \<open>Values\<close>

record macro_context =
  mc_sender :: string
  mc_domain :: string
  mc_helo :: string
  mc_ip :: ip
  mc_time :: time
  mc_explanation :: bool

text \<open>The local part and the domain of the sender, cut at the last at sign\<close>
definition cut_sender :: "string \<Rightarrow> string \<times> string" where
  "cut_sender s =
     (case index_byte (rev s) CHR ''@'' of
        None \<Rightarrow> (s, [])
      | Some i \<Rightarrow> (take (length s - 1 - i) s, drop (length s - i) s))"

definition nibbles :: "ip \<Rightarrow> string" where
  "nibbles a = join ''.'' (concat (map (\<lambda>b. [[hex_digit (unat b div 16)], [hex_digit (unat b mod 16)]]) a))"

text \<open>\<^verbatim>\<open>base\<close>, with the lower-case letter\<close>
definition macro_base :: "macro_context \<Rightarrow> char \<Rightarrow> string + string" where
  "macro_base m l =
     (let sender0 = trim_space (mc_sender m); sender = (if sender0 = [] then ''postmaster@'' @ mc_helo m else sender0);
          (loc, origin) = cut_sender sender
      in if l = CHR ''s'' then Inr sender
         else if l = CHR ''l'' then Inr loc
         else if l = CHR ''o'' then Inr (to_lower origin)
         else if l = CHR ''d'' then Inr (to_lower (mc_domain m))
         else if l = CHR ''h'' then Inr (to_lower (mc_helo m))
         else if l = CHR ''p'' then Inr ''unknown''
         else if l = CHR ''i'' then
           (case ip_to4 (mc_ip m) of
              Some _ \<Rightarrow> Inr (ip_string (mc_ip m))
            | None \<Rightarrow> if length (mc_ip m) = 16 then Inr (nibbles (mc_ip m)) else Inl ''missing SPF client IP'')
         else if l = CHR ''v'' then Inr (if ip_to4 (mc_ip m) \<noteq> None then ''in-addr'' else ''ip6'')
         else if l = CHR ''c'' \<or> l = CHR ''r'' \<or> l = CHR ''t'' then
           (if \<not> mc_explanation m then Inl ''SPF macro is only allowed in explanation text''
            else if l = CHR ''c'' then Inr (ip_string (mc_ip m))
            else if l = CHR ''r'' then Inr ''unknown''
            else Inr (show_int (mc_time m div second)))
         else Inl ''unknown SPF macro'')"

definition escape_upper :: "nat \<Rightarrow> char" where
  "escape_upper d = (if d < 10 then char_of (48 + d) else char_of (55 + d))"

text \<open>\<^verbatim>\<open>escapeSPFMacro\<close>\<close>
definition escape_macro :: "string \<Rightarrow> string" where
  "escape_macro v =
     concat (map (\<lambda>c. if is_lower c \<or> is_upper c \<or> is_digit c \<or> c \<in> set ''-._~'' then [c]
                      else [CHR ''%'', escape_upper (of_char c div 16), escape_upper (of_char c mod 16)]) v)"

text \<open>Splitting at each byte of a set, with the empty parts\<close>
fun split_any :: "(char \<Rightarrow> bool) \<Rightarrow> string \<Rightarrow> string list" where
  "split_any p [] = [[]]"
| "split_any p (x # xs) =
     (if p x then [] # split_any p xs
      else (case split_any p xs of [] \<Rightarrow> [[x]] | y # ys \<Rightarrow> (x # y) # ys))"

text \<open>The count of a transformer, which stops growing once it exceeds the length of the value\<close>
definition macro_count :: "nat \<Rightarrow> string \<Rightarrow> nat" where
  "macro_count len ds = foldl (\<lambda>n c. if n \<le> len then n * 10 + (of_char c - 48) else n) 0 ds"

text \<open>\<^verbatim>\<open>value\<close>\<close>
definition macro_value :: "macro_context \<Rightarrow> string \<Rightarrow> string + string" where
  "macro_value m token =
     (case token of
        [] \<Rightarrow> Inl ''empty SPF macro''
      | letter # rest0 \<Rightarrow>
          (case macro_base m (lower_char letter) of
             Inl e \<Rightarrow> Inl e
           | Inr v \<Rightarrow>
               (let ds = takeWhile is_digit rest0; rest1 = dropWhile is_digit rest0;
                    reverse = has_prefix rest1 ''r'' \<or> has_prefix rest1 ''R'';
                    rest = (if reverse then tl rest1 else rest1)
                in if ds \<noteq> [] \<and> list_all (\<lambda>c. c = CHR ''0'') ds then Inl ''zero SPF macro transformer''
                   else if \<not> list_all (\<lambda>c. c \<in> set ''.-+,/_='') rest then Inl ''invalid SPF macro delimiter''
                   else
                     (let v1 = (if rest0 = [] then v
                                else (let parts = split_any (\<lambda>c. c \<in> set (if rest = [] then ''.'' else rest)) v;
                                          parts1 = (if reverse then rev parts else parts);
                                          n = macro_count (length v) ds
                                      in join ''.'' (if 0 < n \<and> n < length parts1 then drop (length parts1 - n) parts1 else parts1)))
                      in Inr (if letter \<noteq> lower_char letter then escape_macro v1 else v1)))))"

section \<open>Expansion\<close>

definition printable :: "char \<Rightarrow> bool" where
  "printable c \<longleftrightarrow> 32 \<le> (of_char c :: nat) \<and> (of_char c :: nat) \<le> 126"

function expand_loop :: "macro_context \<Rightarrow> string \<Rightarrow> string + string" where
  "expand_loop m [] = Inr []"
| "expand_loop m (ch # r) =
     (if \<not> printable ch \<or> ch = CHR '' '' \<and> \<not> mc_explanation m then Inl ''invalid SPF macro literal''
      else if ch \<noteq> CHR ''%'' then (case expand_loop m r of Inl e \<Rightarrow> Inl e | Inr s \<Rightarrow> Inr (ch # s))
      else (case r of
        [] \<Rightarrow> Inl ''incomplete SPF macro escape''
      | c # rest \<Rightarrow>
          if c = CHR ''%'' then (case expand_loop m rest of Inl e \<Rightarrow> Inl e | Inr s \<Rightarrow> Inr (CHR ''%'' # s))
          else if c = CHR ''_'' then (case expand_loop m rest of Inl e \<Rightarrow> Inl e | Inr s \<Rightarrow> Inr (CHR '' '' # s))
          else if c = CHR ''-'' then (case expand_loop m rest of Inl e \<Rightarrow> Inl e | Inr s \<Rightarrow> Inr (''%20'' @ s))
          else if c = CHR ''{'' then
            (case index_byte rest CHR ''}'' of
               None \<Rightarrow> Inl ''unterminated SPF macro''
             | Some i \<Rightarrow>
                 (case macro_value m (take i rest) of
                    Inl e \<Rightarrow> Inl e
                  | Inr v \<Rightarrow> (case expand_loop m (drop (Suc i) rest) of Inl e \<Rightarrow> Inl e | Inr s \<Rightarrow> Inr (v @ s))))
          else Inl ''invalid SPF macro escape''))"
  by pat_completeness auto
termination by (relation "measure (\<lambda>(_, s). length s)") auto

text \<open>\<^verbatim>\<open>expand\<close>\<close>
definition macro_expand :: "macro_context \<Rightarrow> string \<Rightarrow> string + string" where
  "macro_expand m spec =
     (case expand_loop m spec of
        Inl e \<Rightarrow> Inl e
      | Inr s \<Rightarrow> if list_all printable s then Inr s else Inl ''non-ASCII or control character in SPF macro result'')"

text \<open>The loop that drops labels from the left of a name that is too long\<close>
lemma index_byte_bound: "index_byte s c = Some i \<Longrightarrow> i < length s"
  by (induction s arbitrary: i) (auto split: if_splits)

function shorten :: "string \<Rightarrow> string option" where
  "shorten s = (if length s \<le> 253 then Some s
     else (case index_byte s CHR ''.'' of None \<Rightarrow> None | Some i \<Rightarrow> shorten (drop (Suc i) s)))"
  by pat_completeness auto
termination by (relation "measure length") (auto dest: index_byte_bound)

declare shorten.simps [simp del]

text \<open>\<^verbatim>\<open>domainSpec\<close>\<close>
definition domain_spec :: "macro_context \<Rightarrow> string \<Rightarrow> string + string" where
  "domain_spec m spec =
     (case macro_expand m spec of
        Inl e \<Rightarrow> Inl e
      | Inr s0 \<Rightarrow>
          (case shorten (trim_suffix s0 ''.'') of
             None \<Rightarrow> Inl ''SPF domain exceeds DNS length limit''
           | Some s \<Rightarrow>
               if s = [] then Inl ''empty SPF domain''
               else if \<not> list_all (\<lambda>l. l \<noteq> [] \<and> length l \<le> 63) (split_on CHR ''.'' s) then Inl ''invalid SPF domain label length''
               else if contains_any s [CHR '' '', CHR 0x09, CHR 0x0D, CHR 0x0A] then Inl ''invalid SPF domain whitespace''
               else Inr s))"

section \<open>Terms\<close>

text \<open>\<^verbatim>\<open>spfDelimiterOutsideMacro\<close>, with the position of the text\<close>
function delimiter_at :: "nat \<Rightarrow> string \<Rightarrow> char \<Rightarrow> nat option" where
  "delimiter_at i [] d = None"
| "delimiter_at i (x # xs) d =
     (case xs of
        c # r \<Rightarrow>
          if x = CHR ''%'' then
            (if c = CHR ''{'' then
               (case index_byte r CHR ''}'' of None \<Rightarrow> None | Some e \<Rightarrow> delimiter_at (i + e + 3) (drop (Suc e) r) d)
             else delimiter_at (i + 2) r d)
          else if x = d then Some i else delimiter_at (i + 1) xs d
      | [] \<Rightarrow> if x = d then Some i else None)"
  by pat_completeness auto
termination by (relation "measure (\<lambda>(_, s, _). length s)") auto

definition delimiter_outside :: "string \<Rightarrow> char \<Rightarrow> nat option" where
  "delimiter_outside s d = delimiter_at 0 s d"

text \<open>\<^verbatim>\<open>spfModifierSeparator\<close>\<close>
definition modifier_separator :: "string \<Rightarrow> nat option" where
  "modifier_separator term =
     (case delimiter_outside term CHR ''='' of
        None \<Rightarrow> None
      | Some i \<Rightarrow> if contains_any (take i term) '':/'' then None else Some i)"

section \<open>Facts\<close>

lemma shorten_length: "shorten s = Some t \<Longrightarrow> length t \<le> 253"
  by (induction s rule: shorten.induct) (subst (asm) (2) shorten.simps, auto split: if_splits option.splits)

text \<open>A name that comes out of a macro can be asked for: its length and the lengths of its labels are those of DNS, and it is printable without blanks.\<close>
lemma domain_spec_name:
  assumes "domain_spec m spec = Inr s"
  shows "s \<noteq> [] \<and> length s \<le> 253 \<and> (\<forall>l \<in> set (split_on CHR ''.'' s). l \<noteq> [] \<and> length l \<le> 63) \<and> CHR '' '' \<notin> set s"
  using assms
  by (auto simp: domain_spec_def list_all_iff contains_any_def list_ex_iff split: sum.splits option.splits if_splits dest: shorten_length)

end
