(* ===== verification/Spf.thy ===== *)
theory Spf
  imports Spf_Macros Router
begin

text \<open>
  The evaluation of SPF (\<^verbatim>\<open>internal/mailauth/spf.go\<close>) over the answers of a resolver, with the limits on lookups and
  on the depth of includes and redirects. The state also counts the queries that were really asked, which the
  program does not; nothing depends on the count.
\<close>

section \<open>The state\<close>

record spf_dns =
  sd_txt :: "string \<Rightarrow> string + string list"
  sd_ip :: "string \<Rightarrow> string + ip list"
  sd_mx :: "string \<Rightarrow> string + mx_host list"
  sd_addr :: "string \<Rightarrow> string + string list"

record spf_state =
  ss_lookups :: int
  ss_voids :: int
  ss_active :: "string list"
  ss_asked :: nat

definition new_spf_state :: spf_state where
  "new_spf_state = \<lparr>ss_lookups = 0, ss_voids = 0, ss_active = [], ss_asked = 0\<rparr>"

datatype spf_error = LookupLimit | VoidLimit | ResultError string string | DnsFailure string

text \<open>\<^verbatim>\<open>enterDomain\<close>, \<^verbatim>\<open>leaveDomain\<close>\<close>
definition enter_domain :: "string \<Rightarrow> spf_state \<Rightarrow> spf_state option" where
  "enter_domain d st = (if d \<in> set (ss_active st) then None else Some (st\<lparr>ss_active := d # ss_active st\<rparr>))"

definition leave_domain :: "string \<Rightarrow> spf_state \<Rightarrow> spf_state" where
  "leave_domain d st = st\<lparr>ss_active := removeAll d (ss_active st)\<rparr>"

text \<open>\<^verbatim>\<open>consumeLookup\<close>, \<^verbatim>\<open>consumeVoid\<close>\<close>
definition consume_lookup :: "spf_state \<Rightarrow> spf_state \<times> bool" where
  "consume_lookup st = (st\<lparr>ss_lookups := ss_lookups st + 1\<rparr>, ss_lookups st + 1 \<le> 10)"

definition consume_void :: "spf_state \<Rightarrow> spf_state \<times> bool" where
  "consume_void st = (st\<lparr>ss_voids := ss_voids st + 1\<rparr>, ss_voids st + 1 \<le> 2)"

text \<open>\<^verbatim>\<open>lookupTXT\<close>, \<^verbatim>\<open>lookupIP\<close>, \<^verbatim>\<open>lookupMX\<close>, \<^verbatim>\<open>lookupAddr\<close>: one counted query\<close>
definition counted :: "(string \<Rightarrow> string + 'a list) \<Rightarrow> string \<Rightarrow> spf_state \<Rightarrow> spf_state \<times> (spf_error + 'a list)" where
  "counted ask name st =
     (case consume_lookup st of
        (st1, False) \<Rightarrow> (st1, Inl LookupLimit)
      | (st1, True) \<Rightarrow>
          (let st2 = st1\<lparr>ss_asked := ss_asked st1 + 1\<rparr> in
           case ask name of
             Inl e \<Rightarrow> (st2, Inl (DnsFailure e))
           | Inr [] \<Rightarrow> (case consume_void st2 of (st3, True) \<Rightarrow> (st3, Inr []) | (st3, False) \<Rightarrow> (st3, Inl VoidLimit))
           | Inr xs \<Rightarrow> (st2, Inr xs)))"

section \<open>Records and terms\<close>

definition is_spf_record :: "string \<Rightarrow> bool" where
  "is_spf_record v \<longleftrightarrow> has_prefix (to_lower (trim_space v)) ''v=spf1''"

text \<open>\<^verbatim>\<open>lookupSPFRecord\<close>\<close>
definition lookup_spf_record :: "spf_dns \<Rightarrow> string \<Rightarrow> spf_state \<Rightarrow> spf_state \<times> (spf_error + string option)" where
  "lookup_spf_record dns domain st =
     (case counted (sd_txt dns) domain st of
        (st1, Inl e) \<Rightarrow> (st1, Inl e)
      | (st1, Inr txt) \<Rightarrow>
          (st1, case filter is_spf_record txt of
             [] \<Rightarrow> Inr None
           | [r] \<Rightarrow> Inr (Some (trim_space r))
           | _ \<Rightarrow> Inl (ResultError ''permerror'' ''multiple spf records'')))"

text \<open>\<^verbatim>\<open>fmt.Sscanf (s, "%d")\<close>\<close>
definition scan_int :: "string \<Rightarrow> int option" where
  "scan_int s =
     (let neg = has_prefix s ''-''; r = (if neg \<or> has_prefix s ''+'' then tl s else s); ds = takeWhile is_digit r
      in if ds = [] then None else parse_int64 ((if neg then ''-'' else []) @ ds))"

definition scan_prefix :: "string \<Rightarrow> int \<Rightarrow> int" where
  "scan_prefix s old = (case scan_int s of None \<Rightarrow> old | Some n \<Rightarrow> n)"

text \<open>\<^verbatim>\<open>parseMechanism\<close>\<close>
definition parse_mechanism :: "string \<Rightarrow> string \<times> string \<times> int" where
  "parse_mechanism term =
     (let (name0, arg0) = (case index_byte term CHR '':'' of None \<Rightarrow> (term, []) | Some i \<Rightarrow> (take i term, drop (Suc i) term));
          name = to_lower name0
      in if name = ''ip4'' \<or> name = ''ip6'' then (name, arg0, -1)
         else
           (let (arg, p) = (case delimiter_outside arg0 CHR ''/'' of
                  None \<Rightarrow> (arg0, -1) | Some i \<Rightarrow> (take i arg0, scan_prefix (drop (Suc i) arg0) (-1)))
            in case index_byte name CHR ''/'' of
                 None \<Rightarrow> (name, arg, p)
               | Some i \<Rightarrow> (take i name, arg, scan_prefix (drop (Suc i) name) p)))"

text \<open>\<^verbatim>\<open>qualifierResult\<close>\<close>
definition qualifier_result :: "char \<Rightarrow> string" where
  "qualifier_result q =
     (if q = CHR ''-'' then ''fail'' else if q = CHR ''~'' then ''softfail'' else if q = CHR ''?'' then ''neutral'' else ''pass'')"

text \<open>\<^verbatim>\<open>domainMatches\<close>\<close>
definition domain_matches :: "string \<Rightarrow> string \<Rightarrow> bool" where
  "domain_matches host domain \<longleftrightarrow> host \<noteq> [] \<and> domain \<noteq> [] \<and> (host = domain \<or> has_suffix host (''.'' @ domain))"

text \<open>\<^verbatim>\<open>matchPrefix\<close>; an address of four bytes is an IPv4 address to \<^verbatim>\<open>netip\<close>, the same address in sixteen is not.\<close>
definition match_prefix :: "ip \<Rightarrow> ip \<Rightarrow> int \<Rightarrow> bool" where
  "match_prefix a b p \<longleftrightarrow>
     length a \<in> {4, 16} \<and> length b \<in> {4, 16} \<and> (length a = 4) = (length b = 4) \<and> prefix_contains (unmap a, p) (unmap b)"

text \<open>\<^verbatim>\<open>matchIPMechanism\<close>\<close>
definition match_ip :: "ip \<Rightarrow> string \<Rightarrow> spf_error + bool" where
  "match_ip remote cidr0 =
     (let cidr = (if CHR ''/'' \<in> set cidr0 then cidr0 else if CHR '':'' \<in> set cidr0 then cidr0 @ ''/128'' else cidr0 @ ''/32'') in
      case parse_prefix cidr of
        None \<Rightarrow> Inl (DnsFailure ''netip.ParsePrefix'')
      | Some pfx \<Rightarrow> if length remote \<in> {4, 16} then Inr (prefix_contains pfx (unmap remote)) else Inl (DnsFailure ''invalid remote ip''))"

section \<open>Mechanisms\<close>

text \<open>\<^verbatim>\<open>matchHostIPs\<close>\<close>
definition match_host :: "spf_dns \<Rightarrow> ip \<Rightarrow> string \<Rightarrow> int \<Rightarrow> spf_state \<Rightarrow> spf_state \<times> (spf_error + bool)" where
  "match_host dns remote host p st =
     (case counted (sd_ip dns) host st of
        (st1, Inl e) \<Rightarrow> (st1, Inl e)
      | (st1, Inr ips) \<Rightarrow> (st1, Inr (list_ex (\<lambda>a. ip_equal a remote \<or> 0 \<le> p \<and> match_prefix remote a p) ips)))"

fun match_mx_hosts :: "spf_dns \<Rightarrow> ip \<Rightarrow> mx_host list \<Rightarrow> int \<Rightarrow> spf_state \<Rightarrow> spf_state \<times> bool" where
  "match_mx_hosts dns remote [] p st = (st, False)"
| "match_mx_hosts dns remote (m # ms) p st =
     (case match_host dns remote (trim_suffix (mx_name m) ''.'') p st of
        (st1, Inl _) \<Rightarrow> match_mx_hosts dns remote ms p st1
      | (st1, Inr ok) \<Rightarrow> if ok then (st1, True) else match_mx_hosts dns remote ms p st1)"

text \<open>\<^verbatim>\<open>matchMX\<close>\<close>
definition match_mx :: "spf_dns \<Rightarrow> ip \<Rightarrow> string \<Rightarrow> int \<Rightarrow> spf_state \<Rightarrow> spf_state \<times> (spf_error + bool)" where
  "match_mx dns remote domain p st =
     (case counted (sd_mx dns) domain st of
        (st1, Inl e) \<Rightarrow> (st1, Inl e)
      | (st1, Inr ms) \<Rightarrow> (case match_mx_hosts dns remote ms p st1 of (st2, ok) \<Rightarrow> (st2, Inr ok)))"

text \<open>\<^verbatim>\<open>matchExists\<close>\<close>
definition match_exists :: "spf_dns \<Rightarrow> string \<Rightarrow> spf_state \<Rightarrow> spf_state \<times> (spf_error + bool)" where
  "match_exists dns host st =
     (case counted (sd_ip dns) host st of (st1, Inl e) \<Rightarrow> (st1, Inl e) | (st1, Inr ips) \<Rightarrow> (st1, Inr (ips \<noteq> [])))"

fun match_names :: "spf_dns \<Rightarrow> ip \<Rightarrow> string \<Rightarrow> string list \<Rightarrow> spf_state \<Rightarrow> spf_state \<times> bool" where
  "match_names dns remote target [] st = (st, False)"
| "match_names dns remote target (n # ns) st =
     (let host = to_lower (trim_suffix (trim_space n) ''.'') in
      if \<not> domain_matches host target then match_names dns remote target ns st
      else (case counted (sd_ip dns) host st of
        (st1, Inl _) \<Rightarrow> match_names dns remote target ns st1
      | (st1, Inr ips) \<Rightarrow> if list_ex (\<lambda>a. ip_equal a remote) ips then (st1, True) else match_names dns remote target ns st1))"

text \<open>\<^verbatim>\<open>matchPTR\<close>\<close>
definition match_ptr :: "spf_dns \<Rightarrow> ip \<Rightarrow> string \<Rightarrow> spf_state \<Rightarrow> spf_state \<times> (spf_error + bool)" where
  "match_ptr dns remote target st =
     (case counted (sd_addr dns) (ip_string remote) st of
        (st1, Inl e) \<Rightarrow> (st1, Inl e)
      | (st1, Inr names) \<Rightarrow>
          (case match_names dns remote (to_lower (trim_suffix (trim_space target) ''.'')) names st1 of (st2, ok) \<Rightarrow> (st2, Inr ok)))"

text \<open>The evaluation of a domain, as includes and redirects call it\<close>
type_synonym spf_eval = "string \<Rightarrow> spf_state \<Rightarrow> spf_state \<times> string \<times> string"

text \<open>\<^verbatim>\<open>matchMechanism\<close>: \<open>None\<close> for a mechanism that is skipped\<close>
definition match_mechanism :: "spf_eval \<Rightarrow> spf_dns \<Rightarrow> ip \<Rightarrow> string \<Rightarrow> string \<Rightarrow> string \<Rightarrow> int \<Rightarrow> spf_state \<Rightarrow> spf_state \<times> (spf_error + bool option)" where
  "match_mechanism eval dns remote domain name arg p st =
     (let host = (if arg = [] then domain else arg);
          lift = (\<lambda>r. case r of (st', Inl e) \<Rightarrow> (st', Inl e) | (st', Inr b) \<Rightarrow> (st', Inr (Some b)))
      in if name = ''all'' then (st, Inr (Some True))
         else if name = ''ip4'' \<or> name = ''ip6'' then
           (if arg = [] then (st, Inr None) else (st, case match_ip remote arg of Inl e \<Rightarrow> Inl e | Inr b \<Rightarrow> Inr (Some b)))
         else if name = ''a'' then lift (match_host dns remote host p st)
         else if name = ''mx'' then lift (match_mx dns remote host p st)
         else if name = ''include'' then
           (if arg = [] then (st, Inr (Some False))
            else (case eval arg st of
              (st1, res, reason) \<Rightarrow>
                if res = ''pass'' then (st1, Inr (Some True))
                else if res = ''permerror'' \<or> res = ''temperror'' then (st1, Inl (ResultError res reason))
                else (st1, Inr (Some False))))
         else if name = ''exists'' then
           (if arg = [] then (st, Inr (Some False)) else lift (match_exists dns arg st))
         else if name = ''ptr'' then lift (match_ptr dns remote host st)
         else (st, Inr None))"

section \<open>Evaluation\<close>

definition error_result :: "spf_error \<Rightarrow> string \<times> string" where
  "error_result e =
     (case e of
        ResultError res reason \<Rightarrow> (res, reason)
      | LookupLimit \<Rightarrow> (''permerror'', ''spf dns lookup limit exceeded'')
      | VoidLimit \<Rightarrow> (''permerror'', ''spf void lookup limit exceeded'')
      | DnsFailure text \<Rightarrow> (''temperror'', text))"

text \<open>The last modifier of a name\<close>
definition spf_modifier :: "string \<Rightarrow> string list \<Rightarrow> string" where
  "spf_modifier name terms =
     foldl (\<lambda>v t. case modifier_separator t of
         None \<Rightarrow> v
       | Some i \<Rightarrow> if to_lower (trim_space (take i t)) = name then trim_space (drop (Suc i) t) else v) [] terms"

text \<open>\<^verbatim>\<open>lookupSPFExplanation\<close>, which is not counted\<close>
definition lookup_explanation :: "spf_dns \<Rightarrow> string \<Rightarrow> string option" where
  "lookup_explanation dns domain =
     (case sd_txt dns domain of
        Inr [v] \<Rightarrow> if trim_space v = [] \<or> is_spf_record v then None else Some (trim_space v)
      | _ \<Rightarrow> None)"

text \<open>\<^verbatim>\<open>explain\<close>\<close>
definition explain :: "spf_dns \<Rightarrow> macro_context \<Rightarrow> string \<Rightarrow> string option" where
  "explain dns m spec =
     (case domain_spec m spec of
        Inl _ \<Rightarrow> None
      | Inr domain \<Rightarrow>
          (case lookup_explanation dns domain of
             None \<Rightarrow> None
           | Some text \<Rightarrow>
               (case macro_expand (m\<lparr>mc_explanation := True\<rparr>) text of
                  Inl _ \<Rightarrow> None
                | Inr s \<Rightarrow> if length s > 512 then None else Some s)))"

definition takes_domain :: "string \<Rightarrow> bool" where
  "takes_domain name \<longleftrightarrow> name \<in> {''a'', ''mx'', ''include'', ''exists'', ''ptr''}"

text \<open>The loop over the mechanisms: the result of the first that matches, or \<open>None\<close>\<close>
fun eval_terms :: "spf_eval \<Rightarrow> spf_dns \<Rightarrow> macro_context \<Rightarrow> string \<Rightarrow> string list \<Rightarrow> spf_state \<Rightarrow> spf_state \<times> (string \<times> string) option" where
  "eval_terms eval dns m expl [] st = (st, None)"
| "eval_terms eval dns m expl (t # ts) st =
     (if t = [] \<or> modifier_separator t \<noteq> None then eval_terms eval dns m expl ts st
      else
        (let (q, body) = (if hd t \<in> set ''+-~?'' then (hd t, tl t) else (CHR ''+'', t));
             (name, arg0, p) = parse_mechanism body
         in case (if arg0 \<noteq> [] \<and> takes_domain name then domain_spec m arg0 else Inr arg0) of
              Inl e \<Rightarrow> (st, Some (''permerror'', e))
            | Inr arg \<Rightarrow>
                (case match_mechanism eval dns (mc_ip m) (mc_domain m) name arg p st of
                   (st1, Inl e) \<Rightarrow> (st1, Some (error_result e))
                 | (st1, Inr (Some True)) \<Rightarrow>
                     (st1, Some (qualifier_result q,
                        case (if qualifier_result q = ''fail'' \<and> expl \<noteq> [] then explain dns m expl else None) of
                          Some text \<Rightarrow> text
                        | None \<Rightarrow> ''matched '' @ name))
                 | (st1, Inr _) \<Rightarrow> eval_terms eval dns m expl ts st1)))"

text \<open>The part of \<^verbatim>\<open>evalSPFDomain\<close> between entering and leaving the domain\<close>
definition eval_record :: "spf_eval \<Rightarrow> spf_dns \<Rightarrow> macro_context \<Rightarrow> spf_state \<Rightarrow> spf_state \<times> string \<times> string" where
  "eval_record eval dns m st =
     (case lookup_spf_record dns (mc_domain m) st of
        (st1, Inl e) \<Rightarrow> (st1, error_result e)
      | (st1, Inr None) \<Rightarrow> (st1, ''none'', ''no spf record'')
      | (st1, Inr (Some record)) \<Rightarrow>
          (case split_fields record of
             [] \<Rightarrow> (st1, ''permerror'', ''invalid spf header'')
           | h # terms \<Rightarrow>
               if to_lower h \<noteq> ''v=spf1'' then (st1, ''permerror'', ''invalid spf header'')
               else (case eval_terms eval dns m (spf_modifier ''exp'' terms) terms st1 of
                 (st2, Some r) \<Rightarrow> (st2, r)
               | (st2, None) \<Rightarrow>
                   if spf_modifier ''redirect'' terms \<noteq> [] then
                     (case domain_spec m (spf_modifier ''redirect'' terms) of
                        Inl e \<Rightarrow> (st2, ''permerror'', e)
                      | Inr target \<Rightarrow>
                          (case eval target st2 of
                             (st3, res, reason) \<Rightarrow>
                               if res = ''none'' then (st3, ''permerror'', ''redirect target has no spf record'') else (st3, res, reason)))
                   else (st2, ''neutral'', ''no mechanism matched''))))"

text \<open>
  \<^verbatim>\<open>evalSPFDomain\<close>: the first argument is 11 minus the depth, so that it ends where the depth exceeds ten.
\<close>
primrec eval_spf_domain :: "nat \<Rightarrow> spf_dns \<Rightarrow> macro_context \<Rightarrow> spf_eval" where
  "eval_spf_domain 0 dns m raw st = (st, ''permerror'', ''include recursion too deep'')"
| "eval_spf_domain (Suc n) dns m raw st =
     (let domain = to_lower (trim_space raw) in
      if domain = [] then (st, ''permerror'', ''invalid domain'')
      else (case enter_domain domain st of
        None \<Rightarrow> (st, ''permerror'', ''spf cyclic include/redirect detected'')
      | Some st1 \<Rightarrow>
          (case eval_record (eval_spf_domain n dns m) dns (m\<lparr>mc_domain := domain\<rparr>) st1 of
             (st2, r) \<Rightarrow> (leave_domain domain st2, r))))"

record spf_result =
  sr_domain :: string
  sr_result :: string
  sr_reason :: string

text \<open>\<^verbatim>\<open>EvalSPFMailFrom\<close>, \<^verbatim>\<open>EvalSPFHelo\<close>, \<^verbatim>\<open>EvalSPF\<close>, with the state at the end\<close>
definition run_spf :: "spf_dns \<Rightarrow> time \<Rightarrow> ip \<Rightarrow> string \<Rightarrow> string \<Rightarrow> string \<Rightarrow> spf_state \<times> spf_result" where
  "run_spf dns t remote domain sender helo =
     (case eval_spf_domain 11 dns \<lparr>mc_sender = sender, mc_domain = domain, mc_helo = helo, mc_ip = remote, mc_time = t, mc_explanation = False\<rparr>
             domain new_spf_state of
        (st, res, reason) \<Rightarrow> (st, \<lparr>sr_domain = domain, sr_result = res, sr_reason = reason\<rparr>))"

definition eval_spf_mail_from :: "spf_dns \<Rightarrow> time \<Rightarrow> ip option \<Rightarrow> string \<Rightarrow> string \<Rightarrow> spf_state \<times> spf_result" where
  "eval_spf_mail_from dns t remote sender helo =
     (case domain_of sender of
        None \<Rightarrow> (new_spf_state, \<lparr>sr_domain = [], sr_result = ''none'', sr_reason = ''no domain''\<rparr>)
      | Some d \<Rightarrow>
          (case remote of
             None \<Rightarrow> (new_spf_state, \<lparr>sr_domain = d, sr_result = ''temperror'', sr_reason = ''missing remote ip''\<rparr>)
           | Some a \<Rightarrow> run_spf dns t a d sender helo))"

definition eval_spf_helo :: "spf_dns \<Rightarrow> time \<Rightarrow> ip option \<Rightarrow> string \<Rightarrow> spf_state \<times> spf_result" where
  "eval_spf_helo dns t remote helo =
     (let d = to_lower (trim_space helo) in
      if d = [] then (new_spf_state, \<lparr>sr_domain = [], sr_result = ''none'', sr_reason = ''no domain''\<rparr>)
      else (case remote of
        None \<Rightarrow> (new_spf_state, \<lparr>sr_domain = d, sr_result = ''temperror'', sr_reason = ''missing remote ip''\<rparr>)
      | Some a \<Rightarrow> run_spf dns t a d [] helo))"

definition eval_spf :: "spf_dns \<Rightarrow> time \<Rightarrow> ip option \<Rightarrow> string \<Rightarrow> string \<Rightarrow> spf_state \<times> spf_result" where
  "eval_spf dns t remote sender helo =
     (if trim_space sender \<noteq> [] then eval_spf_mail_from dns t remote sender helo else eval_spf_helo dns t remote helo)"

end
