(* ===== verification/Dmarc.thy ===== *)
theory Dmarc
  imports Spf
begin

text \<open>
  DMARC in its two versions (\<^verbatim>\<open>internal/mailauth/dmarc.go\<close>, \<^verbatim>\<open>dmarcbis.go\<close>), the header fields of a message (\<^verbatim>\<open>headers.go\<close>)
  and the decision about a message (\<^verbatim>\<open>pipeline.go\<close>). The resolver and the verification of DKIM and ARC
  signatures are parameters.
\<close>

unbundle bit_operations_syntax

section \<open>Results\<close>

record dkim_sig =
  dk_domain :: string
  dk_selector :: string
  dk_result :: string
  dk_reason :: string

record dkim_result =
  dr_result :: string
  dr_sigs :: "dkim_sig list"

record arc_result =
  ar_result :: string
  ar_reason :: string

record bis_result =
  br_result :: string
  br_author :: string
  br_policy_domain :: string
  br_org :: string
  br_policy :: string
  br_p :: string
  br_sp :: string
  br_np :: string
  br_fo :: string
  br_adkim :: string
  br_aspf :: string
  br_testing :: string
  br_spf_aligned :: bool
  br_dkim_aligned :: bool
  br_rua :: "string list"
  br_ruf :: "string list"
  br_discovery :: string
  br_reason :: string

record dmarc_result =
  dm_engine :: string
  dm_legacy_result :: string
  dm_legacy_policy :: string
  dm_domain :: string
  dm_result :: string
  dm_policy :: string
  dm_sub_policy :: string
  dm_percent :: int
  dm_fo :: "string list"
  dm_rf :: "string list"
  dm_ri :: int
  dm_rua :: "string list"
  dm_ruf :: "string list"
  dm_reason :: string
  dm_bis :: "bis_result option"

definition no_bis :: bis_result where
  "no_bis = \<lparr>br_result = [], br_author = [], br_policy_domain = [], br_org = [], br_policy = [], br_p = [], br_sp = [], br_np = [],
     br_fo = [], br_adkim = [], br_aspf = [], br_testing = [], br_spf_aligned = False, br_dkim_aligned = False, br_rua = [], br_ruf = [],
     br_discovery = [], br_reason = []\<rparr>"

definition no_dmarc :: dmarc_result where
  "no_dmarc = \<lparr>dm_engine = [], dm_legacy_result = [], dm_legacy_policy = [], dm_domain = [], dm_result = [], dm_policy = [], dm_sub_policy = [],
     dm_percent = 0, dm_fo = [], dm_rf = [], dm_ri = 0, dm_rua = [], dm_ruf = [], dm_reason = [], dm_bis = None\<rparr>"

text \<open>The error of a lookup: whether the name does not exist, and its text\<close>
record dns_failure =
  df_not_found :: bool
  df_text :: string

record dmarc_dns =
  dd_txt :: "string \<Rightarrow> dns_failure + string list"
  dd_bis_txt :: "string \<Rightarrow> dns_failure + string list"
  dd_ip :: "string \<Rightarrow> dns_failure option"

section \<open>Domains and tags\<close>

text \<open>\<^verbatim>\<open>strings.Trim\<close>\<close>
definition trim_set :: "string \<Rightarrow> string \<Rightarrow> string" where
  "trim_set cs s = trim_left (\<lambda>c. c \<in> set cs) (trim_right (\<lambda>c. c \<in> set cs) s)"

text \<open>\<^verbatim>\<open>parseTagList\<close>\<close>
definition tag_part :: "string \<Rightarrow> (string \<Rightarrow> string) \<Rightarrow> string \<Rightarrow> string" where
  "tag_part p m =
     (case index_byte (trim_space p) CHR ''='' of
        Some (Suc i) \<Rightarrow> m(to_lower (trim_space (take (Suc i) (trim_space p))) := trim_space (drop (Suc (Suc i)) (trim_space p)))
      | _ \<Rightarrow> m)"

definition parse_tag_list :: "string \<Rightarrow> string \<Rightarrow> string" where
  "parse_tag_list v = fold tag_part (split_on CHR '';'' v) (\<lambda>_. [])"

definition two_level_psl :: "string list" where
  "two_level_psl = [''co.uk'', ''org.uk'', ''gov.uk'', ''ac.uk'', ''co.jp'', ''or.jp'', ''ne.jp'', ''com.au'', ''net.au'', ''org.au'',
     ''co.nz'', ''co.kr'', ''co.in'', ''com.br'', ''com.mx'', ''com.tr'', ''com.cn'', ''com.tw'', ''com.hk'', ''com.sg'']"

text \<open>\<^verbatim>\<open>organizationalDomain\<close>, with the labels from the last one on\<close>
definition organizational_domain :: "string \<Rightarrow> string" where
  "organizational_domain d =
     (let domain = trim_set ''.'' (to_lower d) in
      if domain = [] then []
      else (case rev (split_on CHR ''.'' domain) of
        l1 # l2 # l3 # _ \<Rightarrow>
          (let suffix2 = l2 @ ''.'' @ l1 in if suffix2 \<in> set two_level_psl then l3 @ ''.'' @ suffix2 else suffix2)
      | _ \<Rightarrow> domain))"

text \<open>\<^verbatim>\<open>aligned\<close>\<close>
definition aligned :: "string \<Rightarrow> string \<Rightarrow> string \<Rightarrow> bool" where
  "aligned from auth mode \<longleftrightarrow>
     from \<noteq> [] \<and> auth \<noteq> [] \<and>
     (if equal_fold mode ''s'' then equal_fold from auth else organizational_domain from = organizational_domain auth)"

text \<open>\<^verbatim>\<open>parseDMARCInt\<close>\<close>
fun dmarc_digits :: "int \<Rightarrow> string \<Rightarrow> int option" where
  "dmarc_digits n [] = Some n"
| "dmarc_digits n (c # cs) =
     (if is_digit c then dmarc_digits (wrap64 (n * 10 + (int (of_char c) - 48))) cs else None)"

definition parse_dmarc_int :: "string \<Rightarrow> int \<Rightarrow> int" where
  "parse_dmarc_int v def =
     (if trim_space v = [] then def else (case dmarc_digits 0 (trim_space v) of None \<Rightarrow> def | Some n \<Rightarrow> n))"

text \<open>\<^verbatim>\<open>parseDMARCTokenList\<close>, where \<open>None\<close> is the nil default\<close>
definition parse_token_list :: "string \<Rightarrow> string list option \<Rightarrow> char \<Rightarrow> string list" where
  "parse_token_list v def sep =
     (let d = (case def of None \<Rightarrow> [] | Some xs \<Rightarrow> xs) in
      if trim_space v = [] then d
      else (let out = filter (\<lambda>s. s \<noteq> []) (map trim_space (split_on sep (trim_space v))) in if out = [] then d else out))"

section \<open>The first version\<close>

text \<open>\<^verbatim>\<open>lookupDMARCAt\<close>, \<^verbatim>\<open>lookupDMARC\<close>\<close>
definition lookup_dmarc_at :: "(string \<Rightarrow> dns_failure + string list) \<Rightarrow> string \<Rightarrow> dns_failure + string option" where
  "lookup_dmarc_at txt domain =
     (case txt (''_dmarc.'' @ domain) of
        Inl e \<Rightarrow> Inl e
      | Inr ts \<Rightarrow> Inr (List.find (\<lambda>s. has_prefix (to_lower s) ''v=dmarc1'') (map trim_space ts)))"

definition lookup_dmarc :: "(string \<Rightarrow> dns_failure + string list) \<Rightarrow> string \<Rightarrow> dns_failure + (string \<times> string) option" where
  "lookup_dmarc txt from =
     (let domain = to_lower (trim_set ''.'' (trim_space from)) in
      if domain = [] then Inr None
      else (case lookup_dmarc_at txt domain of
        Inl e \<Rightarrow> Inl e
      | Inr (Some rec) \<Rightarrow> Inr (Some (rec, domain))
      | Inr None \<Rightarrow>
          (let org = organizational_domain domain in
           if org \<noteq> [] \<and> org \<noteq> domain
           then (case lookup_dmarc_at txt org of
                   Inl e \<Rightarrow> Inl e | Inr (Some rec) \<Rightarrow> Inr (Some (rec, org)) | Inr None \<Rightarrow> Inr None)
           else Inr None)))"

definition default_tag :: "string \<Rightarrow> string \<Rightarrow> string" where
  "default_tag d v = (if v = [] then d else v)"

definition sub_policy :: "string \<Rightarrow> string" where
  "sub_policy rec =
     default_tag (default_tag ''none'' (to_lower (parse_tag_list rec ''p''))) (to_lower (parse_tag_list rec ''sp''))"

text \<open>The policy for the author's domain, which is that for subdomains when the record is that of another domain\<close>
definition effective_policy :: "string \<Rightarrow> string \<Rightarrow> string \<Rightarrow> string" where
  "effective_policy rec from domain =
     (if equal_fold (trim_space from) (trim_space domain)
      then default_tag ''none'' (to_lower (parse_tag_list rec ''p'')) else sub_policy rec)"

definition spf_aligned :: "string \<Rightarrow> string \<Rightarrow> spf_result \<Rightarrow> bool" where
  "spf_aligned rec from spf \<longleftrightarrow>
     equal_fold (sr_result spf) ''pass'' \<and> aligned from (sr_domain spf) (default_tag ''r'' (parse_tag_list rec ''aspf''))"

definition dkim_aligned :: "string \<Rightarrow> string \<Rightarrow> dkim_result \<Rightarrow> bool" where
  "dkim_aligned rec from dkim \<longleftrightarrow>
     list_ex (\<lambda>s. equal_fold (dk_result s) ''pass'' \<and> aligned from (dk_domain s) (default_tag ''r'' (parse_tag_list rec ''adkim'')))
       (dr_sigs dkim)"

text \<open>\<^verbatim>\<open>EvalDMARC\<close>\<close>
definition eval_dmarc :: "(string \<Rightarrow> dns_failure + string list) \<Rightarrow> string \<Rightarrow> spf_result \<Rightarrow> dkim_result \<Rightarrow> dmarc_result" where
  "eval_dmarc txt from spf dkim =
     (if from = [] then no_dmarc\<lparr>dm_engine := ''legacy'', dm_result := ''permerror'', dm_reason := ''missing From domain''\<rparr>
      else (case lookup_dmarc txt from of
        Inl e \<Rightarrow> no_dmarc\<lparr>dm_engine := ''legacy'', dm_domain := from, dm_result := ''temperror'', dm_reason := df_text e\<rparr>
      | Inr None \<Rightarrow> no_dmarc\<lparr>dm_engine := ''legacy'', dm_domain := from, dm_result := ''none'', dm_policy := ''none'', dm_sub_policy := ''none'',
          dm_percent := 100, dm_ri := 86400, dm_reason := ''no dmarc record''\<rparr>
      | Inr (Some (rec, domain)) \<Rightarrow>
          (let pol = parse_tag_list rec;
               ok = spf_aligned rec from spf \<or> dkim_aligned rec from dkim
           in \<lparr>dm_engine = ''legacy'', dm_legacy_result = [], dm_legacy_policy = [], dm_domain = from, dm_result = (if ok then ''pass'' else ''fail''),
               dm_policy = effective_policy rec from domain, dm_sub_policy = sub_policy rec, dm_percent = parse_dmarc_int (pol ''pct'') 100,
               dm_fo = parse_token_list (pol ''fo'') (Some [''0'']) CHR '':'', dm_rf = parse_token_list (pol ''rf'') (Some [''afrf'']) CHR '':'',
               dm_ri = parse_dmarc_int (pol ''ri'') 86400, dm_rua = parse_token_list (pol ''rua'') None CHR '','',
               dm_ruf = parse_token_list (pol ''ruf'') None CHR '','', dm_reason = (if ok then [] else ''alignment failed''), dm_bis = None\<rparr>)))"

section \<open>The second version\<close>

type_synonym tags = "string \<rightharpoonup> string"

definition tag :: "tags \<Rightarrow> string \<Rightarrow> string" where
  "tag m k = (case m k of None \<Rightarrow> [] | Some v \<Rightarrow> v)"

record bis_record =
  bi_domain :: string
  bi_tags :: tags

text \<open>\<^verbatim>\<open>normalizeDMARCDomain\<close>\<close>
definition normalize_dmarc :: "string \<Rightarrow> string" where
  "normalize_dmarc d = trim_set ''.'' (to_lower (trim_space d))"

text \<open>The loop of \<^verbatim>\<open>parseDMARCbisRecord\<close>: whether this is the first part, and whether a tag was read\<close>
fun bis_tags :: "bool \<Rightarrow> bool \<Rightarrow> tags \<Rightarrow> string list \<Rightarrow> tags option" where
  "bis_tags first_part first_tag m [] = Some m"
| "bis_tags first_part first_tag m (p # ps) =
     (if trim_space p = [] then (if first_part then None else bis_tags False first_tag m ps)
      else (case split_2 CHR ''='' (trim_space p) of
        (_, None) \<Rightarrow> None
      | (k, Some v) \<Rightarrow>
          (let key = to_lower (trim_space k); val = to_lower (trim_space v) in
           if key = [] \<or> val = [] \<or> contains_any key [CHR '' '', CHR 9] \<or> m key \<noteq> None \<or> first_tag \<and> key \<noteq> ''v'' then None
           else bis_tags False False (m(key \<mapsto> val)) ps)))"

definition one_of :: "string list \<Rightarrow> string option \<Rightarrow> bool" where
  "one_of xs v \<longleftrightarrow> (case v of None \<Rightarrow> True | Some x \<Rightarrow> x \<in> set xs)"

definition policies :: "string list" where "policies = [''none'', ''quarantine'', ''reject'']"

text \<open>\<^verbatim>\<open>parseDMARCbisRecord\<close>\<close>
definition parse_bis_record :: "string \<Rightarrow> tags option" where
  "parse_bis_record raw =
     (case bis_tags True True Map.empty (split_on CHR '';'' raw) of
        None \<Rightarrow> None
      | Some m \<Rightarrow>
          if tag m ''v'' \<noteq> ''dmarc1'' \<or> \<not> one_of policies (m ''p'') \<or> \<not> one_of policies (m ''sp'') \<or> \<not> one_of policies (m ''np'') \<or>
             \<not> one_of [''y'', ''n''] (m ''psd'') \<or> \<not> one_of [''y'', ''n''] (m ''t'') \<or>
             \<not> one_of [''r'', ''s''] (m ''aspf'') \<or> \<not> one_of [''r'', ''s''] (m ''adkim'') then None
          else Some (if tag m ''p'' = [] then m(''p'' \<mapsto> ''none'') else m))"

text \<open>The query of a step of the walk: the records so far and whether to stop\<close>
definition bis_query :: "(string \<Rightarrow> dns_failure + string list) \<Rightarrow> string \<Rightarrow> bis_record list \<Rightarrow> dns_failure + bis_record list \<times> bool" where
  "bis_query txt name records =
     (case txt (''_dmarc.'' @ name) of
        Inl e \<Rightarrow> if df_not_found e then Inr (records, False) else Inl e
      | Inr answers \<Rightarrow>
          (case List.map_filter parse_bis_record answers of
             [m] \<Rightarrow> Inr (records @ [\<lparr>bi_domain = name, bi_tags = m\<rparr>], tag m ''psd'' = ''y'' \<or> tag m ''psd'' = ''n'')
           | _ \<Rightarrow> Inr (records, False)))"

fun bis_walk :: "(string \<Rightarrow> dns_failure + string list) \<Rightarrow> string list \<Rightarrow> nat \<Rightarrow> bis_record list \<Rightarrow> dns_failure + bis_record list" where
  "bis_walk txt [] queries records = Inr records"
| "bis_walk txt (n # ns) queries records =
     (if queries < 8 then
        (case bis_query txt n records of
           Inl e \<Rightarrow> Inl e
         | Inr (records', stop) \<Rightarrow> if stop then Inr records' else bis_walk txt ns (queries + 1) records')
      else Inr records)"

text \<open>The names above the domain that the walk visits\<close>
definition parent_names :: "string list \<Rightarrow> string list" where
  "parent_names labels =
     map (\<lambda>i. join ''.'' (drop i labels)) [(if length labels > 8 then length labels - 7 else 1)..<length labels]"

text \<open>\<^verbatim>\<open>dmarcBisTreeWalk\<close>\<close>
definition bis_tree_walk :: "(string \<Rightarrow> dns_failure + string list) \<Rightarrow> string \<Rightarrow> dns_failure + bis_record list" where
  "bis_tree_walk txt raw =
     (let domain = normalize_dmarc raw; labels = split_on CHR ''.'' domain in
      if domain = [] then Inr []
      else if length labels > 127 then Inl \<lparr>df_not_found = False, df_text = ''invalid Author Domain''\<rparr>
      else (case bis_query txt domain [] of
        Inl e \<Rightarrow> Inl e
      | Inr (records, stop) \<Rightarrow> if stop then Inr records else bis_walk txt (parent_names labels) 1 records))"

text \<open>\<^verbatim>\<open>labelChild\<close>\<close>
definition label_child :: "string \<Rightarrow> string \<Rightarrow> string" where
  "label_child subject parent =
     (if subject = parent \<or> \<not> has_suffix subject (''.'' @ parent) then parent
      else (let child = trim_suffix subject (''.'' @ parent) in
            if CHR ''.'' \<notin> set child then subject else child @ ''.'' @ parent))"

text \<open>\<^verbatim>\<open>dmarcBisOrgFromRecords\<close>\<close>
fun org_loop :: "string \<Rightarrow> string \<Rightarrow> bis_record list \<Rightarrow> string" where
  "org_loop domain final [] = final"
| "org_loop domain final (r # rs) =
     (if tag (bi_tags r) ''psd'' = ''n'' then bi_domain r
      else if bi_domain r \<noteq> domain \<and> tag (bi_tags r) ''psd'' = ''y'' then label_child domain (bi_domain r)
      else org_loop domain final rs)"

definition org_from_records :: "string \<Rightarrow> bis_record list \<Rightarrow> string" where
  "org_from_records domain rs = org_loop domain (bi_domain (last rs)) rs"

text \<open>\<^verbatim>\<open>dmarcBisOrg\<close>, \<^verbatim>\<open>dmarcBisAligned\<close>\<close>
definition bis_org :: "(string \<Rightarrow> dns_failure + string list) \<Rightarrow> string \<Rightarrow> dns_failure + string" where
  "bis_org txt raw =
     (let domain = normalize_dmarc raw in
      case bis_tree_walk txt domain of
        Inl e \<Rightarrow> Inl e
      | Inr rs \<Rightarrow> Inr (if rs = [] then domain else org_from_records domain rs))"

definition bis_aligned :: "(string \<Rightarrow> dns_failure + string list) \<Rightarrow> string \<Rightarrow> string \<Rightarrow> string \<Rightarrow> string \<Rightarrow> dns_failure + bool" where
  "bis_aligned txt author raw org mode =
     (let ident = normalize_dmarc raw in
      if ident = [] then Inr False
      else if mode = ''s'' then Inr (ident = author)
      else (case bis_org txt ident of Inl e \<Rightarrow> Inl e | Inr o1 \<Rightarrow> Inr (o1 = org)))"

fun bis_dkim :: "(string \<Rightarrow> dns_failure + bool) \<Rightarrow> dkim_sig list \<Rightarrow> dns_failure + bool" where
  "bis_dkim check [] = Inr False"
| "bis_dkim check (s # ss) =
     (if equal_fold (dk_result s) ''pass'' then
        (case check (dk_domain s) of Inl e \<Rightarrow> Inl e | Inr True \<Rightarrow> Inr True | Inr False \<Rightarrow> bis_dkim check ss)
      else bis_dkim check ss)"

text \<open>\<^verbatim>\<open>dmarcBisDomainExists\<close>\<close>
definition domain_exists :: "(string \<Rightarrow> dns_failure option) \<Rightarrow> string \<Rightarrow> dns_failure + bool" where
  "domain_exists ip d =
     (case ip d of None \<Rightarrow> Inr True | Some e \<Rightarrow> if df_not_found e then Inr False else Inl e)"

text \<open>The policy of the record for the author: for subdomains, or for names that do not exist\<close>
definition bis_policy :: "tags \<Rightarrow> bool \<Rightarrow> bool \<Rightarrow> string" where
  "bis_policy m own ex =
     (if own then tag m ''p'' else default_tag (tag m ''p'') (tag m (if ex then ''sp'' else ''np'')))"

text \<open>The policy after \<^verbatim>\<open>t=y\<close>\<close>
definition tested_policy :: "string \<Rightarrow> string" where
  "tested_policy p = (if p = ''reject'' then ''quarantine'' else if p = ''quarantine'' then ''none'' else p)"

text \<open>The result for a record once the identifiers are compared\<close>
definition bis_verdict :: "string \<Rightarrow> string \<Rightarrow> bis_record \<Rightarrow> string \<Rightarrow> bool \<Rightarrow> bool \<Rightarrow> bis_result" where
  "bis_verdict author org r policy spf_ok dkim_ok =
     (let m = bi_tags r; ok = spf_ok \<or> dkim_ok; reduced = tag m ''t'' = ''y'' \<and> \<not> ok
      in \<lparr>br_result = (if ok then ''pass'' else ''fail''), br_author = author, br_policy_domain = bi_domain r, br_org = org,
          br_policy = (if reduced then tested_policy policy else policy), br_p = tag m ''p'', br_sp = tag m ''sp'', br_np = tag m ''np'',
          br_fo = tag m ''fo'', br_adkim = tag m ''adkim'', br_aspf = tag m ''aspf'', br_testing = default_tag ''n'' (tag m ''t''),
          br_spf_aligned = spf_ok, br_dkim_aligned = dkim_ok, br_rua = parse_token_list (tag m ''rua'') None CHR '','',
          br_ruf = parse_token_list (tag m ''ruf'') None CHR '','', br_discovery = ''treewalk'',
          br_reason = (if reduced then ''assessment policy reduced by t=y'' else if ok then [] else ''alignment failed'')\<rparr>)"

text \<open>\<^verbatim>\<open>EvalDMARCbis\<close>\<close>
definition eval_dmarcbis :: "dmarc_dns \<Rightarrow> string \<Rightarrow> spf_result \<Rightarrow> dkim_result \<Rightarrow> bis_result" where
  "eval_dmarcbis dns raw spf dkim =
     (let author = normalize_dmarc raw in
      if author = [] then no_bis\<lparr>br_result := ''permerror'', br_reason := ''missing Author Domain''\<rparr>
      else (case bis_tree_walk (dd_bis_txt dns) author of
        Inl _ \<Rightarrow> no_bis\<lparr>br_result := ''temperror'', br_author := author, br_reason := ''DNS lookup failed''\<rparr>
      | Inr [] \<Rightarrow> no_bis\<lparr>br_result := ''none'', br_author := author, br_org := author, br_reason := ''no applicable policy''\<rparr>
      | Inr (r # rs) \<Rightarrow>
          (let org = org_from_records author (r # rs); m = bi_tags r; own = bi_domain r = author in
           case (if own then Inr True else domain_exists (dd_ip dns) author) of
             Inl _ \<Rightarrow> no_bis\<lparr>br_result := ''temperror'', br_author := author, br_policy_domain := bi_domain r, br_org := org,
                        br_reason := ''Author Domain existence lookup failed''\<rparr>
           | Inr ex \<Rightarrow>
               (let policy = bis_policy m own ex;
                    failed = no_bis\<lparr>br_result := ''temperror'', br_author := author, br_policy_domain := bi_domain r, br_org := org, br_policy := policy,
                      br_discovery := ''treewalk'', br_reason := ''identifier alignment lookup failed''\<rparr>
                in case (if equal_fold (sr_result spf) ''pass''
                         then bis_aligned (dd_bis_txt dns) author (sr_domain spf) org (default_tag ''r'' (tag m ''aspf'')) else Inr False) of
                     Inl _ \<Rightarrow> failed
                   | Inr spf_ok \<Rightarrow>
                       (case bis_dkim (\<lambda>d. bis_aligned (dd_bis_txt dns) author d org (default_tag ''r'' (tag m ''adkim''))) (dr_sigs dkim) of
                          Inl _ \<Rightarrow> failed
                        | Inr dkim_ok \<Rightarrow> bis_verdict author org r policy spf_ok dkim_ok)))))"

end
