(* ===== verification/Mail_Policy.thy ===== *)
theory Mail_Policy
  imports Dmarc
begin

text \<open>
  The header fields of a message (\<^verbatim>\<open>internal/mailauth/headers.go\<close>), the domain of its author, and the decision about it from
  the results of SPF, DKIM, ARC and DMARC (\<^verbatim>\<open>pipeline.go\<close>).
\<close>

section \<open>Header fields\<close>

record header =
  hd_name :: string
  hd_value :: string
  hd_raw :: string

text \<open>\<^verbatim>\<open>splitLines\<close>, \<^verbatim>\<open>unfold\<close>\<close>
definition split_lines :: "string \<Rightarrow> string list" where
  "split_lines s = split_on LF (crlf_to_lf s)"

definition unfold_value :: "string \<Rightarrow> string" where
  "unfold_value v = join '' '' (split_fields (map (\<lambda>c. if c = LF then CHR '' '' else c) (crlf_to_lf v)))"

definition flushed :: "string \<Rightarrow> string \<Rightarrow> header list" where
  "flushed name val = (if name = [] then [] else [\<lparr>hd_name = name, hd_value = unfold_value val, hd_raw = val\<rparr>])"

text \<open>
  The loop of \<^verbatim>\<open>ParseHeaders\<close> with the current name and value. A value is only discarded together with a name, so that
  the value of a field whose name is white space goes into the next field.
\<close>
fun header_loop :: "string \<Rightarrow> string \<Rightarrow> string list \<Rightarrow> header list" where
  "header_loop name val [] = flushed name val"
| "header_loop name val (l # ls) =
     (if l = [] then header_loop name val ls
      else if hd l = CHR '' '' \<or> hd l = CHR 9 then header_loop name (if name = [] then val else val @ LF # l) ls
      else (let val' = (if name = [] then val else []) in
            flushed name val @
            (case index_byte l CHR '':'' of
               Some (Suc i) \<Rightarrow> header_loop (trim_space (take (Suc i) l)) (val' @ trim_space (drop (Suc (Suc i)) l)) ls
             | _ \<Rightarrow> header_loop [] val' ls)))"

definition parse_headers :: "string \<Rightarrow> header list" where
  "parse_headers part = header_loop [] [] (split_lines part)"

text \<open>\<^verbatim>\<open>FirstHeader\<close>\<close>
definition first_header :: "header list \<Rightarrow> string \<Rightarrow> string option" where
  "first_header hs name = map_option hd_value (List.find (\<lambda>h. equal_fold (hd_name h) name) hs)"

definition last_index :: "string \<Rightarrow> char \<Rightarrow> nat option" where
  "last_index s c = map_option (\<lambda>i. length s - 1 - i) (index_byte (rev s) c)"

text \<open>\<^verbatim>\<open>ExtractFromDomain\<close>\<close>
definition from_address :: "string \<Rightarrow> string" where
  "from_address from =
     (case last_index from CHR ''<'' of
        None \<Rightarrow> from
      | Some i \<Rightarrow> (case index_byte (drop i from) CHR ''>'' of Some (Suc j) \<Rightarrow> take j (drop (Suc i) from) | _ \<Rightarrow> from))"

definition extract_from_domain :: "header list \<Rightarrow> string" where
  "extract_from_domain hs =
     (case first_header hs ''From'' of
        None \<Rightarrow> []
      | Some from \<Rightarrow> (case domain_of (trim_set [CHR '' '', CHR 9, CHR 34, CHR 39] (from_address from)) of None \<Rightarrow> [] | Some d \<Rightarrow> d))"

section \<open>The decision\<close>

record spf_policy =
  sp_helo :: string
  sp_mail_from :: string
  sp_arc :: string
  sp_dmarc :: string

definition default_spf_policy :: spf_policy where
  "default_spf_policy = \<lparr>sp_helo = ''advisory'', sp_mail_from = ''advisory'', sp_arc = ''accept'', sp_dmarc = ''legacy''\<rparr>"

datatype policy_action = MailAccept | MailQuarantine | MailReject

record mail_result =
  mr_spf :: spf_result
  mr_spf_helo :: spf_result
  mr_spf_mail_from :: spf_result
  mr_dkim :: dkim_result
  mr_dmarc :: dmarc_result
  mr_arc :: arc_result
  mr_action :: policy_action
  mr_reason :: string

text \<open>\<^verbatim>\<open>normalizeSPFMode\<close>, \<^verbatim>\<open>normalizeARCFailureMode\<close>\<close>
definition normalize_mode :: "string list \<Rightarrow> string \<Rightarrow> string \<Rightarrow> string" where
  "normalize_mode modes v def = (if to_lower (trim_space v) \<in> set modes then to_lower (trim_space v) else def)"

abbreviation spf_modes :: "string list" where "spf_modes \<equiv> [''off'', ''advisory'', ''enforce'']"
abbreviation arc_modes :: "string list" where "arc_modes \<equiv> [''accept'', ''quarantine'', ''reject'']"

text \<open>\<^verbatim>\<open>spfRejected\<close>\<close>
definition spf_rejected :: "string \<Rightarrow> bool" where
  "spf_rejected v \<longleftrightarrow> to_lower (trim_space v) \<in> {''fail'', ''softfail'', ''permerror'', ''temperror''}"

text \<open>\<^verbatim>\<open>isEnforcingDMARCPolicy\<close>\<close>
definition enforcing_policy :: "string \<Rightarrow> bool" where
  "enforcing_policy p \<longleftrightarrow> to_lower (trim_space p) \<in> {''reject'', ''quarantine''}"

text \<open>FNV-1a with 32 bits (\<^verbatim>\<open>hash/fnv\<close>) and \<^verbatim>\<open>dmarcSamplingBucket\<close>\<close>
definition fnv32a :: "string \<Rightarrow> 32 word" where
  "fnv32a s = foldl (\<lambda>h c. (h XOR word_of_nat (of_char c)) * 16777619) 2166136261 s"

definition sampling_bucket :: "string \<Rightarrow> string \<Rightarrow> string \<Rightarrow> int" where
  "sampling_bucket helo sender raw =
     int (unat (fnv32a (to_lower (trim_space helo) @ [CHR 0x00] @ to_lower (trim_space sender) @ [CHR 0x00] @ take 4096 raw)) mod 100)"

text \<open>\<^verbatim>\<open>shouldApplyDMARCPolicy\<close>\<close>
definition should_apply :: "dmarc_result \<Rightarrow> string \<Rightarrow> string \<Rightarrow> string \<Rightarrow> bool" where
  "should_apply d helo sender raw \<longleftrightarrow>
     enforcing_policy (dm_policy d) \<and>
     (dm_percent d \<ge> 100 \<or> dm_percent d > 0 \<and> sampling_bucket helo sender raw < dm_percent d)"

text \<open>\<^verbatim>\<open>applyDMARCbisPolicy\<close>\<close>
definition apply_bis :: "bis_result \<Rightarrow> mail_result \<Rightarrow> mail_result" where
  "apply_bis b r =
     (let d = mr_dmarc r;
          d' = d\<lparr>dm_legacy_result := dm_result d, dm_legacy_policy := dm_policy d, dm_engine := ''treewalk'', dm_result := br_result b,
            dm_policy := br_policy b, dm_domain := br_author b, dm_sub_policy := br_sp b, dm_percent := 100, dm_ri := 86400,
            dm_fo := parse_token_list (br_fo b) (Some [''0'']) CHR '':'', dm_rf := [], dm_rua := br_rua b, dm_ruf := br_ruf b\<rparr>;
          r' = r\<lparr>mr_dmarc := d', mr_action := MailAccept, mr_reason := []\<rparr>
      in if \<not> equal_fold (br_result b) ''fail'' then r'
         else if to_lower (br_policy b) = ''reject'' then r'\<lparr>mr_action := MailReject, mr_reason := ''dmarcbis reject policy''\<rparr>
         else if to_lower (br_policy b) = ''quarantine'' then r'\<lparr>mr_action := MailQuarantine, mr_reason := ''dmarcbis quarantine policy''\<rparr>
         else r')"

text \<open>What a failed ARC chain does to a message that would be accepted\<close>
definition apply_arc :: "string \<Rightarrow> mail_result \<Rightarrow> mail_result" where
  "apply_arc mode r =
     (if mr_action r = MailAccept \<and> equal_fold (trim_space (ar_result (mr_arc r))) ''fail'' then
        (if mode = ''reject'' then r\<lparr>mr_action := MailReject, mr_reason := ''arc failure policy''\<rparr>
         else if mode = ''quarantine'' then r\<lparr>mr_action := MailQuarantine, mr_reason := ''arc failure policy''\<rparr>
         else r)
      else r)"

text \<open>The action of the first version of DMARC; \<open>Inl\<close> when the message is sampled out and ARC is not looked at.\<close>
definition apply_dmarc :: "string \<Rightarrow> string \<Rightarrow> string \<Rightarrow> mail_result \<Rightarrow> mail_result + mail_result" where
  "apply_dmarc helo sender raw r =
     (let d = mr_dmarc r in
      if to_lower (dm_result d) \<noteq> ''fail'' then Inr (r\<lparr>mr_action := MailAccept\<rparr>)
      else if enforcing_policy (dm_policy d) \<and> \<not> should_apply d helo sender raw
      then Inl (r\<lparr>mr_action := MailAccept, mr_reason := ''dmarc policy sampled out (pct='' @ show_int (dm_percent d) @ '')''\<rparr>)
      else if to_lower (dm_policy d) = ''reject'' then Inr (r\<lparr>mr_action := MailReject, mr_reason := ''dmarc reject policy''\<rparr>)
      else if to_lower (dm_policy d) = ''quarantine'' then Inr (r\<lparr>mr_action := MailQuarantine, mr_reason := ''dmarc quarantine policy''\<rparr>)
      else Inr (r\<lparr>mr_action := MailAccept\<rparr>))"

text \<open>What the evaluation asks and verifies: the resolvers, the clock, and the verification of signatures\<close>
record auth_env =
  ae_spf :: spf_dns
  ae_dmarc :: dmarc_dns
  ae_now :: time
  ae_dkim :: "header list \<Rightarrow> string \<Rightarrow> dkim_result"
  ae_arc :: "header list \<Rightarrow> string \<Rightarrow> arc_result"

definition refused :: "string \<Rightarrow> mail_result" where
  "refused reason =
     (let none = \<lparr>sr_domain = [], sr_result = [], sr_reason = []\<rparr> in
      \<lparr>mr_spf = none, mr_spf_helo = none, mr_spf_mail_from = none, mr_dkim = \<lparr>dr_result = [], dr_sigs = []\<rparr>, mr_dmarc = no_dmarc,
       mr_arc = \<lparr>ar_result = [], ar_reason = []\<rparr>, mr_action = MailReject, mr_reason = reason\<rparr>)"

definition helo_result :: "auth_env \<Rightarrow> ip option \<Rightarrow> string \<Rightarrow> spf_policy \<Rightarrow> spf_result" where
  "helo_result env remote helo policy =
     (if normalize_mode spf_modes (sp_helo policy) ''advisory'' = ''off'' then \<lparr>sr_domain = [], sr_result = ''none'', sr_reason = ''helo spf disabled''\<rparr>
      else snd (eval_spf_helo (ae_spf env) (ae_now env) remote helo))"

definition mail_from_result :: "auth_env \<Rightarrow> ip option \<Rightarrow> string \<Rightarrow> string \<Rightarrow> spf_policy \<Rightarrow> spf_result" where
  "mail_from_result env remote helo sender policy =
     (if normalize_mode spf_modes (sp_mail_from policy) ''advisory'' = ''off'' then \<lparr>sr_domain = [], sr_result = ''none'', sr_reason = ''mailfrom spf disabled''\<rparr>
      else snd (eval_spf_mail_from (ae_spf env) (ae_now env) remote sender helo))"

definition effective_spf :: "auth_env \<Rightarrow> ip option \<Rightarrow> string \<Rightarrow> string \<Rightarrow> spf_policy \<Rightarrow> spf_result" where
  "effective_spf env remote helo sender policy =
     (if trim_space sender = [] \<or> normalize_mode spf_modes (sp_mail_from policy) ''advisory'' = ''off''
      then helo_result env remote helo policy else mail_from_result env remote helo sender policy)"

text \<open>The results before any decision\<close>
definition mail_evidence :: "auth_env \<Rightarrow> ip option \<Rightarrow> string \<Rightarrow> string \<Rightarrow> spf_policy \<Rightarrow> header list \<Rightarrow> string \<Rightarrow> mail_result" where
  "mail_evidence env remote helo sender policy hs body =
     (let spf = effective_spf env remote helo sender policy; dkim = ae_dkim env hs body; from = extract_from_domain hs;
          mode = to_lower (trim_space (sp_dmarc policy));
          d = eval_dmarc (dd_txt (ae_dmarc env)) from spf dkim
      in \<lparr>mr_spf = spf, mr_spf_helo = helo_result env remote helo policy, mr_spf_mail_from = mail_from_result env remote helo sender policy,
          mr_dkim = dkim, mr_dmarc = (if mode \<in> {''shadow'', ''enforce''} then d\<lparr>dm_bis := Some (eval_dmarcbis (ae_dmarc env) from spf dkim)\<rparr> else d),
          mr_arc = ae_arc env hs body, mr_action = MailAccept, mr_reason = []\<rparr>)"

text \<open>\<^verbatim>\<open>EvaluateWithPolicy\<close>\<close>
definition evaluate_with_policy :: "auth_env \<Rightarrow> ip option \<Rightarrow> string \<Rightarrow> string \<Rightarrow> string \<Rightarrow> spf_policy \<Rightarrow> mail_result" where
  "evaluate_with_policy env remote helo sender raw policy =
     (case split_message raw of
        None \<Rightarrow> refused ''invalid message format''
      | Some (head, body) \<Rightarrow>
          (let r = mail_evidence env remote helo sender policy (parse_headers head) body;
               arc = normalize_mode arc_modes (sp_arc policy) ''accept''
           in if normalize_mode spf_modes (sp_helo policy) ''advisory'' = ''enforce'' \<and> spf_rejected (sr_result (mr_spf_helo r))
              then r\<lparr>mr_action := MailReject, mr_reason := ''spf helo policy''\<rparr>
              else if normalize_mode spf_modes (sp_mail_from policy) ''advisory'' = ''enforce'' \<and> trim_space sender \<noteq> [] \<and>
                      spf_rejected (sr_result (mr_spf_mail_from r))
              then r\<lparr>mr_action := MailReject, mr_reason := ''spf mailfrom policy''\<rparr>
              else if to_lower (trim_space (sp_dmarc policy)) = ''enforce''
              then (case dm_bis (mr_dmarc r) of None \<Rightarrow> r | Some b \<Rightarrow> apply_arc arc (apply_bis b r))
              else (case apply_dmarc helo sender raw r of Inl r' \<Rightarrow> r' | Inr r' \<Rightarrow> apply_arc arc r')))"

text \<open>\<^verbatim>\<open>Evaluate\<close>, \<^verbatim>\<open>EvaluateWithDMARCbis\<close>\<close>
definition evaluate_mail :: "auth_env \<Rightarrow> ip option \<Rightarrow> string \<Rightarrow> string \<Rightarrow> string \<Rightarrow> mail_result" where
  "evaluate_mail env remote helo sender raw = evaluate_with_policy env remote helo sender raw default_spf_policy"

definition evaluate_with_dmarcbis :: "auth_env \<Rightarrow> ip option \<Rightarrow> string \<Rightarrow> string \<Rightarrow> string \<Rightarrow> spf_policy \<Rightarrow> mail_result" where
  "evaluate_with_dmarcbis env remote helo sender raw policy =
     evaluate_with_policy env remote helo sender raw (policy\<lparr>sp_dmarc := ''shadow''\<rparr>)"

text \<open>\<^verbatim>\<open>BuildAuthResultsHeader\<close>\<close>
definition build_auth_results :: "string \<Rightarrow> mail_result \<Rightarrow> string \<Rightarrow> string" where
  "build_auth_results hostname res sender =
     (let dom = (case List.find (\<lambda>s. dk_result s = ''pass'') (dr_sigs (mr_dkim res)) of None \<Rightarrow> [] | Some s \<Rightarrow> dk_domain s)
      in ''Authentication-Results: '' @ join ''; ''
        [hostname, ''spf='' @ sr_result (mr_spf res) @ '' smtp.mailfrom='' @ sender,
         ''dkim='' @ dr_result (mr_dkim res) @ (if dom \<noteq> [] then '' header.d='' @ dom else []),
         ''dmarc='' @ dm_result (mr_dmarc res) @ '' header.from='' @ dm_domain (mr_dmarc res), ''arc='' @ ar_result (mr_arc res)])"

end
