(* ===== verification/Spf_Claims.thy ===== *)
theory Spf_Claims
  imports Spf
begin

text \<open>
  What the evaluation of SPF guarantees for every resolver: the bound on its queries, the values of its result, and
  that a sender passes only if a record authorises the address of the client.
\<close>

section \<open>Lookups and the active domains\<close>

text \<open>The queries that were asked are the lookups that were counted, up to the limit.\<close>
definition asked_exact :: "spf_state \<Rightarrow> bool" where
  "asked_exact st \<longleftrightarrow> 0 \<le> ss_lookups st \<and> int (ss_asked st) = min (ss_lookups st) 10"

definition advances :: "spf_state \<Rightarrow> spf_state \<Rightarrow> bool" where
  "advances st st' \<longleftrightarrow> ss_active st' = ss_active st \<and> (asked_exact st \<longrightarrow> asked_exact st')"

lemma advances_refl [simp]: "advances st st"
  by (simp add: advances_def)

lemma advances_trans: "advances a b \<Longrightarrow> advances b c \<Longrightarrow> advances a c"
  by (simp add: advances_def)

lemma counted_advances: "counted ask name st = (st', r) \<Longrightarrow> advances st st'"
  by (auto simp: counted_def consume_lookup_def consume_void_def advances_def asked_exact_def Let_def
      split: bool.splits sum.splits list.splits if_splits)

lemma record_advances: "lookup_spf_record dns d st = (st', r) \<Longrightarrow> advances st st'"
  by (auto simp: lookup_spf_record_def dest: counted_advances split: prod.splits sum.splits)

lemma host_advances: "match_host dns a h p st = (st', r) \<Longrightarrow> advances st st'"
  by (auto simp: match_host_def dest: counted_advances split: prod.splits sum.splits)

lemma mx_hosts_advances: "match_mx_hosts dns a ms p st = (st', r) \<Longrightarrow> advances st st'"
proof (induction ms arbitrary: st)
  case (Cons m ms)
  then show ?case by (auto dest: host_advances intro: advances_trans split: prod.splits sum.splits if_splits)
qed simp

lemma names_advances: "match_names dns a d ns st = (st', r) \<Longrightarrow> advances st st'"
proof (induction ns arbitrary: st)
  case (Cons n ns)
  then show ?case by (auto simp: Let_def dest: counted_advances intro: advances_trans split: prod.splits sum.splits if_splits)
qed simp

lemma mx_advances: "match_mx dns a d p st = (st', r) \<Longrightarrow> advances st st'"
  by (auto simp: match_mx_def dest: counted_advances mx_hosts_advances intro: advances_trans split: prod.splits sum.splits)

lemma exists_advances: "match_exists dns h st = (st', r) \<Longrightarrow> advances st st'"
  by (auto simp: match_exists_def dest: counted_advances split: prod.splits sum.splits)

lemma ptr_advances: "match_ptr dns a d st = (st', r) \<Longrightarrow> advances st st'"
  by (auto simp: match_ptr_def dest: counted_advances names_advances intro: advances_trans split: prod.splits sum.splits)

lemmas matcher_advances = host_advances mx_advances exists_advances ptr_advances

definition spf_results :: "string set" where
  "spf_results = {''none'', ''neutral'', ''pass'', ''fail'', ''softfail'', ''temperror'', ''permerror''}"

lemma qualifier_result_ok [simp]: "qualifier_result q \<in> spf_results"
  by (simp add: qualifier_result_def spf_results_def)

lemma constant_results [simp]: "''permerror'' \<in> spf_results" "''none'' \<in> spf_results" "''neutral'' \<in> spf_results"
  by (simp_all add: spf_results_def)

text \<open>Errors that a mechanism can report\<close>
definition error_ok :: "spf_error \<Rightarrow> bool" where
  "error_ok e \<longleftrightarrow> fst (error_result e) \<in> {''temperror'', ''permerror''}"

lemma error_ok_simps [simp]: "error_ok LookupLimit" "error_ok VoidLimit" "error_ok (DnsFailure t)"
  "error_ok (ResultError res reason) \<longleftrightarrow> res \<in> {''temperror'', ''permerror''}"
  by (simp_all add: error_ok_def error_result_def)

lemma error_ok_result: "error_ok e \<Longrightarrow> fst (error_result e) \<in> spf_results \<and> fst (error_result e) \<noteq> ''pass''"
  by (auto simp: error_ok_def spf_results_def)

lemma counted_error: "counted ask name st = (st', Inl e) \<Longrightarrow> error_ok e"
  by (auto simp: counted_def consume_lookup_def consume_void_def Let_def split: bool.splits sum.splits list.splits if_splits)

lemma record_error: "lookup_spf_record dns d st = (st', Inl e) \<Longrightarrow> error_ok e"
  by (auto simp: lookup_spf_record_def dest: counted_error split: prod.splits sum.splits list.splits)

lemma matcher_error:
  "match_host dns a h p st = (st', Inl e) \<Longrightarrow> error_ok e" "match_mx dns a h p st = (st', Inl e) \<Longrightarrow> error_ok e"
  "match_exists dns h st = (st', Inl e) \<Longrightarrow> error_ok e" "match_ptr dns a h st = (st', Inl e) \<Longrightarrow> error_ok e"
  "match_ip a arg = Inl e \<Longrightarrow> error_ok e"
  by (auto simp: match_host_def match_mx_def match_exists_def match_ptr_def match_ip_def Let_def dest: counted_error
      split: prod.splits sum.splits option.splits if_splits)

section \<open>Authorisation\<close>

text \<open>A host has an address that covers the client.\<close>
definition host_covers :: "spf_dns \<Rightarrow> ip \<Rightarrow> string \<Rightarrow> int \<Rightarrow> bool" where
  "host_covers dns a h p \<longleftrightarrow> (\<exists>ips. sd_ip dns h = Inr ips \<and> (\<exists>x \<in> set ips. ip_equal x a \<or> 0 \<le> p \<and> match_prefix a x p))"

text \<open>A name of the client's address that lies in the domain and leads back to the address\<close>
definition name_covers :: "spf_dns \<Rightarrow> ip \<Rightarrow> string \<Rightarrow> string \<Rightarrow> bool" where
  "name_covers dns a d n \<longleftrightarrow>
     (let h = to_lower (trim_suffix (trim_space n) ''.'') in
      domain_matches h d \<and> (\<exists>ips. sd_ip dns h = Inr ips \<and> (\<exists>x \<in> set ips. ip_equal x a)))"

text \<open>What the mechanisms other than include say of a client, in terms of the answers of the resolver\<close>
definition covers :: "spf_dns \<Rightarrow> ip \<Rightarrow> string \<Rightarrow> string \<Rightarrow> string \<Rightarrow> int \<Rightarrow> bool" where
  "covers dns a d name arg p \<longleftrightarrow>
     (let host = (if arg = [] then d else arg) in
      name = ''all'' \<or>
      name \<in> {''ip4'', ''ip6''} \<and> arg \<noteq> [] \<and> match_ip a arg = Inr True \<or>
      name = ''a'' \<and> host_covers dns a host p \<or>
      name = ''mx'' \<and> (\<exists>ms. sd_mx dns host = Inr ms \<and> (\<exists>m \<in> set ms. host_covers dns a (trim_suffix (mx_name m) ''.'') p)) \<or>
      name = ''exists'' \<and> arg \<noteq> [] \<and> (\<exists>ips. sd_ip dns arg = Inr ips \<and> ips \<noteq> []) \<or>
      name = ''ptr'' \<and> (\<exists>ns. sd_addr dns (ip_string a) = Inr ns \<and>
        (\<exists>n \<in> set ns. name_covers dns a (to_lower (trim_suffix (trim_space host) ''.'')) n)))"

text \<open>The mechanism of a term that lets a matching client pass, with its expanded argument\<close>
definition passing_term :: "macro_context \<Rightarrow> string \<Rightarrow> string \<Rightarrow> string \<Rightarrow> int \<Rightarrow> bool" where
  "passing_term m t name arg p \<longleftrightarrow>
     t \<noteq> [] \<and> modifier_separator t = None \<and>
     (let (q, body) = (if hd t \<in> set ''+-~?'' then (hd t, tl t) else (CHR ''+'', t)) in
      qualifier_result q = ''pass'' \<and>
      (\<exists>arg0. parse_mechanism body = (name, arg0, p) \<and>
         (if arg0 \<noteq> [] \<and> takes_domain name then domain_spec m arg0 else Inr arg0) = Inr arg))"

text \<open>The terms of the one record of a domain\<close>
definition published :: "spf_dns \<Rightarrow> string \<Rightarrow> string list \<Rightarrow> bool" where
  "published dns d terms \<longleftrightarrow>
     (\<exists>txt r h. sd_txt dns d = Inr txt \<and> filter is_spf_record txt = [r] \<and> split_fields (trim_space r) = h # terms \<and> to_lower h = ''v=spf1'')"

text \<open>A domain authorises a client by a term of its record, by a domain that it includes, or by the one it redirects to.\<close>
inductive authorizes :: "spf_dns \<Rightarrow> macro_context \<Rightarrow> string \<Rightarrow> bool" for dns m where
  by_term: "d = to_lower (trim_space raw) \<Longrightarrow> published dns d terms \<Longrightarrow> t \<in> set terms \<Longrightarrow> passing_term (m\<lparr>mc_domain := d\<rparr>) t name arg p \<Longrightarrow>
     covers dns (mc_ip m) d name arg p \<Longrightarrow> authorizes dns m raw"
| by_include: "d = to_lower (trim_space raw) \<Longrightarrow> published dns d terms \<Longrightarrow> t \<in> set terms \<Longrightarrow> passing_term (m\<lparr>mc_domain := d\<rparr>) t ''include'' arg p \<Longrightarrow>
     authorizes dns m arg \<Longrightarrow> authorizes dns m raw"
| by_redirect: "d = to_lower (trim_space raw) \<Longrightarrow> published dns d terms \<Longrightarrow>
     domain_spec (m\<lparr>mc_domain := d\<rparr>) (spf_modifier ''redirect'' terms) = Inr target \<Longrightarrow>
     authorizes dns m target \<Longrightarrow> authorizes dns m raw"

lemma counted_answer: "counted ask name st = (st', Inr xs) \<Longrightarrow> ask name = Inr xs"
  by (auto simp: counted_def consume_lookup_def consume_void_def Let_def split: bool.splits sum.splits list.splits if_splits)

lemma match_host_covers: "match_host dns a h p st = (st', Inr True) \<Longrightarrow> host_covers dns a h p"
  by (auto simp: match_host_def host_covers_def list_ex_iff dest!: counted_answer split: prod.splits sum.splits)

lemma match_mx_hosts_covers:
  "match_mx_hosts dns a ms p st = (st', True) \<Longrightarrow> \<exists>m \<in> set ms. host_covers dns a (trim_suffix (mx_name m) ''.'') p"
proof (induction ms arbitrary: st)
  case (Cons m ms)
  then show ?case by (auto dest: match_host_covers split: prod.splits sum.splits if_splits)
qed simp

lemma match_names_covers: "match_names dns a d ns st = (st', True) \<Longrightarrow> \<exists>n \<in> set ns. name_covers dns a d n"
proof (induction ns arbitrary: st)
  case (Cons n ns)
  then show ?case
    by (auto simp: Let_def name_covers_def list_ex_iff dest!: counted_answer split: prod.splits sum.splits if_splits)
qed simp

lemma matcher_covers:
  "match_mx dns a h p st = (st', Inr True) \<Longrightarrow> \<exists>ms. sd_mx dns h = Inr ms \<and> (\<exists>m \<in> set ms. host_covers dns a (trim_suffix (mx_name m) ''.'') p)"
  "match_exists dns h st = (st', Inr True) \<Longrightarrow> \<exists>ips. sd_ip dns h = Inr ips \<and> ips \<noteq> []"
  "match_ptr dns a h st = (st', Inr True) \<Longrightarrow>
     \<exists>ns. sd_addr dns (ip_string a) = Inr ns \<and> (\<exists>n \<in> set ns. name_covers dns a (to_lower (trim_suffix (trim_space h) ''.'')) n)"
  by (auto simp: match_mx_def match_exists_def match_ptr_def dest!: counted_answer dest: match_mx_hosts_covers match_names_covers
      split: prod.splits sum.splits)

text \<open>The reasons for which a record lets the client pass, given the domains that do\<close>
definition record_passes :: "(string \<Rightarrow> bool) \<Rightarrow> spf_dns \<Rightarrow> macro_context \<Rightarrow> bool" where
  "record_passes auth dns m \<longleftrightarrow>
     (\<exists>terms. published dns (mc_domain m) terms \<and>
        ((\<exists>t \<in> set terms. \<exists>name arg p. passing_term m t name arg p \<and>
            (covers dns (mc_ip m) (mc_domain m) name arg p \<or> name = ''include'' \<and> auth arg)) \<or>
         (\<exists>target. domain_spec m (spf_modifier ''redirect'' terms) = Inr target \<and> auth target)))"

section \<open>Evaluation of included domains\<close>

text \<open>
  What the evaluation of a record relies on when it follows an include or a redirect: the state advances, the result
  is one of the seven, and it is a pass only for domains of a given set.
\<close>
locale spf_evaluator =
  fixes eval :: spf_eval and auth :: "string \<Rightarrow> bool"
  assumes eval_advances: "eval d st = (st', r) \<Longrightarrow> advances st st'"
    and eval_result: "eval d st = (st', r) \<Longrightarrow> fst r \<in> spf_results"
    and eval_pass: "eval d st = (st', ''pass'', reason) \<Longrightarrow> auth d"
begin

lemma mechanism_advances:
  assumes "match_mechanism eval dns a d name arg p st = (st', r)"
  shows "advances st st'"
proof -
  have lift: "advances st st'"
    if "(case f of (s, Inl e) \<Rightarrow> (s, Inl e) | (s, Inr b) \<Rightarrow> (s, Inr (Some b))) = (st', r)" "\<And>s x. f = (s, x) \<Longrightarrow> advances st s"
    for f :: "spf_state \<times> (spf_error + bool)"
    using that by (auto split: prod.splits sum.splits)
  show ?thesis using assms
    by (auto simp: match_mechanism_def Let_def dest!: lift dest: matcher_advances eval_advances
        split: if_splits prod.splits sum.splits)
qed

lemma mechanism_error:
  assumes "match_mechanism eval dns a d name arg p st = (st', Inl e)"
  shows "error_ok e"
  using assms
  by (auto simp: match_mechanism_def Let_def dest: matcher_error split: if_splits prod.splits sum.splits)

lemma mechanism_covers:
  assumes "match_mechanism eval dns a d name arg p st = (st', Inr (Some True))"
  shows "covers dns a d name arg p \<or> name = ''include'' \<and> auth arg"
  using assms
  by (auto simp: match_mechanism_def covers_def Let_def dest: matcher_covers match_host_covers eval_pass split: if_splits prod.splits sum.splits)

text \<open>What one term does: it is passed over, it ends the evaluation with an error, or it decides.\<close>
lemma terms_Cons:
  assumes "eval_terms eval dns m expl (t # ts) st = (st', r)"
  obtains (skip) st1 where "advances st st1" "eval_terms eval dns m expl ts st1 = (st', r)"
  | (malformed) e where "st' = st" "r = Some (''permerror'', e)"
  | (fails) e where "advances st st'" "r = Some (error_result e)" "error_ok e"
  | (decides) q reason name arg p where "advances st st'" "r = Some (qualifier_result q, reason)"
      "qualifier_result q = ''pass'' \<Longrightarrow> passing_term m t name arg p"
      "covers dns (mc_ip m) (mc_domain m) name arg p \<or> name = ''include'' \<and> auth arg"
proof (cases "t = [] \<or> modifier_separator t \<noteq> None")
  case True
  then show ?thesis using assms skip [of st] by simp
next
  case False
  obtain q body where q: "(if hd t \<in> set ''+-~?'' then (hd t, tl t) else (CHR ''+'', t)) = (q, body)" by (meson surj_pair)
  obtain name arg0 p where pm: "parse_mechanism body = (name, arg0, p)" by (metis prod_cases3)
  note run = assms [unfolded eval_terms.simps, unfolded q pm Let_def prod.case]
  show ?thesis
  proof (cases "if arg0 \<noteq> [] \<and> takes_domain name then domain_spec m arg0 else Inr arg0")
    case (Inl e)
    then show ?thesis using run False malformed [of e] by (simp only: if_False sum.case prod.inject)
  next
    case (Inr arg)
    have pass: "passing_term m t name arg p" if "qualifier_result q = ''pass''"
      using that False q pm Inr by (simp add: passing_term_def del: if_split)
    obtain st1 x where mm: "match_mechanism eval dns (mc_ip m) (mc_domain m) name arg p st = (st1, x)" by (meson surj_pair)
    note adv = mechanism_advances [OF mm]
    note run' = run [unfolded Inr mm sum.case prod.case]
    consider e where "x = Inl e" | "x = Inr (Some True)" | "x = Inr (Some False)" | "x = Inr None"
      by (metis sum.exhaust option.exhaust)
    then show ?thesis
    proof cases
      case 1
      then show ?thesis using run' False adv fails [of e] mechanism_error [OF mm [unfolded 1]] by simp
    next
      case 2
      then have "st' = st1" "\<exists>reason. r = Some (qualifier_result q, reason)" using run' False by auto
      then show ?thesis using adv decides [OF _ _ pass mechanism_covers [OF mm [unfolded 2]], of q] by blast
    qed (use run' False adv skip in simp_all)
  qed
qed

lemma terms_advance: "eval_terms eval dns m expl ts st = (st', r) \<Longrightarrow> advances st st'"
proof (induction ts arbitrary: st)
  case (Cons t ts)
  from Cons.prems show ?case by (cases rule: terms_Cons) (auto intro: advances_trans Cons.IH)
qed simp

lemma terms_result: "eval_terms eval dns m expl ts st = (st', Some r) \<Longrightarrow> fst r \<in> spf_results"
proof (induction ts arbitrary: st)
  case (Cons t ts)
  from Cons.prems show ?case
    by (cases rule: terms_Cons) (auto intro: Cons.IH dest: error_ok_result)
qed simp

lemma terms_pass:
  "eval_terms eval dns m expl ts st = (st', Some (''pass'', reason)) \<Longrightarrow>
   \<exists>t \<in> set ts. \<exists>name arg p. passing_term m t name arg p \<and>
     (covers dns (mc_ip m) (mc_domain m) name arg p \<or> name = ''include'' \<and> auth arg)"
proof (induction ts arbitrary: st)
  case (Cons t ts)
  from Cons.prems show ?case
  proof (cases rule: terms_Cons)
    case (skip st1)
    then show ?thesis using Cons.IH by auto
  next
    case (fails e)
    then show ?thesis using error_ok_result [of e] by (metis fst_conv option.inject)
  next
    case (decides q reason' name arg p)
    then show ?thesis by auto
  qed simp
qed simp

lemma record_cases:
  assumes "eval_record eval dns m st = (st', r)"
  shows "advances st st' \<and> fst r \<in> spf_results \<and> (fst r = ''pass'' \<longrightarrow> record_passes auth dns m)"
proof -
  obtain st1 x where lk: "lookup_spf_record dns (mc_domain m) st = (st1, x)" by (meson surj_pair)
  note run = assms [unfolded eval_record_def lk prod.case]
  note adv = record_advances [OF lk]
  consider (e) e where "x = Inl e" | (none) "x = Inr None" | (bad) s where "x = Inr (Some s)" "split_fields s = [] \<or> to_lower (hd (split_fields s)) \<noteq> ''v=spf1''"
    | (good) s h terms where "x = Inr (Some s)" "split_fields s = h # terms" "to_lower h = ''v=spf1''"
    by (metis list.exhaust_sel option.exhaust sum.exhaust)
  then show ?thesis
  proof cases
    case e
    then show ?thesis using run adv error_ok_result record_error lk by fastforce
  next
    case none
    then show ?thesis using run adv by auto
  next
    case bad
    then show ?thesis using run adv by (auto split: list.splits)
  next
    case good
    have pub: "published dns (mc_domain m) terms"
      using lk good by (auto simp: lookup_spf_record_def published_def dest!: counted_answer split: prod.splits sum.splits list.splits)
    obtain st2 y where tm: "eval_terms eval dns m (spf_modifier ''exp'' terms) terms st1 = (st2, y)" by (meson surj_pair)
    note run2 = run [unfolded good sum.case option.case list.case tm prod.case, simplified good simp_thms if_False]
    have adv2: "advances st st2" using adv terms_advance [OF tm] by (rule advances_trans)
    show ?thesis
    proof (cases y)
      case (Some v)
      then show ?thesis using run2 adv2 terms_result [OF tm [unfolded Some]] pub terms_pass [of dns m _ terms st1 st2 "snd v"] tm
        unfolding record_passes_def by (cases v) auto
    next
      case None
      note run3 = run2 [unfolded None option.case]
      show ?thesis
      proof (cases "domain_spec m (spf_modifier ''redirect'' terms)")
        case (Inl e)
        then show ?thesis using run3 adv2 by (auto split: if_splits)
      next
        case (Inr target)
        obtain st3 res reason where ev: "eval target st2 = (st3, res, reason)" by (metis prod_cases3)
        have adv3: "advances st st3" using adv2 eval_advances [OF ev] by (rule advances_trans)
        have "fst r = ''pass'' \<Longrightarrow> spf_modifier ''redirect'' terms \<noteq> [] \<Longrightarrow> auth target"
          using run3 Inr ev eval_pass [of target st2 st3 reason] by (auto split: if_splits)
        then show ?thesis using run3 Inr ev adv2 adv3 eval_result [OF ev] pub unfolding record_passes_def by (auto split: if_splits)
      qed
    qed
  qed
qed

end

section \<open>The evaluation as a whole\<close>

lemma eval_spf_evaluator: "spf_evaluator (eval_spf_domain n dns m) (authorizes dns m)"
proof (induction n)
  case 0
  show ?case by unfold_locales auto
next
  case (Suc n)
  define P where "P d st st' r \<longleftrightarrow> advances st st' \<and> fst r \<in> spf_results \<and> (fst r = ''pass'' \<longrightarrow> authorizes dns m d)"
    for d st st' and r :: "string \<times> string"
  have "P raw st st' r" if ev: "eval_spf_domain (Suc n) dns m raw st = (st', r)" for raw st st' r
  proof (cases "to_lower (trim_space raw) = [] \<or> to_lower (trim_space raw) \<in> set (ss_active st)")
    case True
    then show ?thesis using ev by (auto simp: P_def enter_domain_def Let_def split: if_splits)
  next
    case False
    let ?d = "to_lower (trim_space raw)" and ?m = "m\<lparr>mc_domain := to_lower (trim_space raw)\<rparr>"
    let ?st1 = "st\<lparr>ss_active := ?d # ss_active st\<rparr>"
    obtain st2 where rec: "eval_record (eval_spf_domain n dns m) dns ?m ?st1 = (st2, r)" and st': "st' = leave_domain ?d st2"
      using ev False by (auto simp: enter_domain_def Let_def split: prod.splits)
    note rc = spf_evaluator.record_cases [OF Suc rec]
    have adv: "advances st st'" using rc False by (auto simp: st' leave_domain_def advances_def asked_exact_def)
    have "authorizes dns m raw" if "record_passes (authorizes dns m) dns ?m"
      using that unfolding record_passes_def
      by (auto intro: by_term [OF refl] by_include [OF refl] by_redirect [OF refl])
    then show ?thesis using rc adv by (simp add: P_def)
  qed
  then show ?case unfolding P_def by unfold_locales (metis, metis, metis fst_conv)
qed

interpretation spf: spf_evaluator "eval_spf_domain n dns m" "authorizes dns m" for n dns m
  by (rule eval_spf_evaluator)

lemma run_spf_facts:
  assumes "run_spf dns t a d sender helo = (st, res)"
  shows "asked_exact st \<and> ss_active st = [] \<and> sr_result res \<in> spf_results \<and>
    (sr_result res = ''pass'' \<longrightarrow> authorizes dns \<lparr>mc_sender = sender, mc_domain = d, mc_helo = helo, mc_ip = a, mc_time = t, mc_explanation = False\<rparr> d)"
proof -
  obtain st1 r where ev: "eval_spf_domain 11 dns \<lparr>mc_sender = sender, mc_domain = d, mc_helo = helo, mc_ip = a, mc_time = t, mc_explanation = False\<rparr> d new_spf_state = (st1, r)"
    by (meson surj_pair)
  have eq: "st = st1" "sr_result res = fst r" using assms ev by (auto simp: run_spf_def split: prod.splits)
  have "fst r = ''pass'' \<Longrightarrow> authorizes dns \<lparr>mc_sender = sender, mc_domain = d, mc_helo = helo, mc_ip = a, mc_time = t, mc_explanation = False\<rparr> d"
    by (rule spf.eval_pass [where reason = "snd r"]) (use ev in \<open>simp add: prod_eq_iff\<close>)
  then show ?thesis using eq spf.eval_advances [OF ev] spf.eval_result [OF ev] by (auto simp: advances_def asked_exact_def new_spf_state_def)
qed

text \<open>A domain that includes another one, and a client of the other\<close>
definition spf_zone :: spf_dns where
  "spf_zone = \<lparr>sd_txt = (\<lambda>d. if d = ''a.jp'' then Inr [''v=spf1 include:b.jp -all''] else if d = ''b.jp'' then Inr [''v=spf1 ip4:192.0.2.0/24''] else Inr []),
     sd_ip = (\<lambda>_. Inr []), sd_mx = (\<lambda>_. Inr []), sd_addr = (\<lambda>_. Inr [])\<rparr>"

definition spf_sender :: string where "spf_sender = ''u@a.jp''"

lemma spf_zone_eval:
  "eval_spf spf_zone 0 (Some [192, 0, 2, 7]) spf_sender ''h'' =
     (\<lparr>ss_lookups = 2, ss_voids = 0, ss_active = [], ss_asked = 2\<rparr>, \<lparr>sr_domain = ''a.jp'', sr_result = ''pass'', sr_reason = ''matched include''\<rparr>) \<and>
   trim_space spf_sender \<noteq> []"
  by code_simp



text \<open>C16: A client passes SPF only if it is authorised: the domain of the sender, a domain that it includes or one
  that it redirects to publishes exactly one record, with a passing term whose mechanism covers the address of the client according to the
  answers of the resolver.\<close>
theorem spf_pass_authorized:
  assumes "eval_spf dns t remote sender helo = (st, res)" "sr_result res = ''pass''"
  shows "\<exists>a. remote = Some a \<and>
    authorizes dns \<lparr>mc_sender = (if trim_space sender = [] then [] else sender), mc_domain = sr_domain res, mc_helo = helo, mc_ip = a, mc_time = t,
      mc_explanation = False\<rparr> (sr_domain res)"
proof -
  have "res = \<lparr>sr_domain = d, sr_result = sr_result res, sr_reason = sr_reason res\<rparr>" if "run_spf dns t a d s helo = (st, res)" for a d s
    using that by (auto simp: run_spf_def split: prod.splits)
  then have dom: "sr_domain res = d" if "run_spf dns t a d s helo = (st, res)" for a d s
    using that by (metis spf_result.select_convs(1))
  show ?thesis
  proof (cases "trim_space sender = []")
    case True
    then obtain a where "remote = Some a" "run_spf dns t a (to_lower (trim_space helo)) [] helo = (st, res)"
      using assms by (auto simp: eval_spf_def eval_spf_helo_def Let_def split: if_splits option.splits)
    then show ?thesis using run_spf_facts dom assms(2) True by fastforce
  next
    case False
    then obtain a d where "remote = Some a" "run_spf dns t a d sender helo = (st, res)"
      using assms by (auto simp: eval_spf_def eval_spf_mail_from_def split: option.splits)
    then show ?thesis using run_spf_facts dom assms(2) False by fastforce
  qed
qed

theorem spf_pass_authorized_witness:
  "authorizes spf_zone \<lparr>mc_sender = spf_sender, mc_domain = ''a.jp'', mc_helo = ''h'', mc_ip = [192, 0, 2, 7], mc_time = 0, mc_explanation = False\<rparr> ''a.jp''"
  using spf_pass_authorized [OF conjunct1 [OF spf_zone_eval]] conjunct2 [OF spf_zone_eval] by simp

text \<open>The prefix length of an \<^verbatim>\<open>a\<close> or \<^verbatim>\<open>mx\<close> mechanism has no effect for IPv4: \<^verbatim>\<open>net.ParseIP\<close> gives the address of the client in
  sixteen bytes and the resolver gives the addresses of a host in four, and \<^verbatim>\<open>matchPrefix\<close> takes the two for addresses of
  different families. Only the very addresses of the host match.\<close>
theorem spf_prefix_ignored:
  assumes "length remote = 16" "\<And>h ips. sd_ip dns h = Inr ips \<Longrightarrow> list_all (\<lambda>a. length a = 4) ips"
  shows "match_host dns remote host p st = match_host dns remote host (-1) st \<and>
    match_mx dns remote host p st = match_mx dns remote host (-1) st"
proof -
  have "list_ex (\<lambda>a. ip_equal a remote \<or> 0 \<le> p \<and> match_prefix remote a p) ips = list_ex (\<lambda>a. ip_equal a remote) ips"
    if "list_all (\<lambda>a. length a = 4) ips" for ips
    using that assms(1) by (induction ips) (auto simp: match_prefix_def)
  then have host: "match_host dns remote h p st = match_host dns remote h (-1) st" for h st
    by (auto simp: match_host_def dest!: counted_answer assms(2) split: prod.splits sum.splits)
  have "match_mx_hosts dns remote ms p st = match_mx_hosts dns remote ms (-1) st" for ms st
    by (induction ms arbitrary: st) (auto simp: host split: prod.splits sum.splits)
  then show ?thesis by (auto simp: host match_mx_def)
qed

text \<open>A client next to the only address of its host\<close>
definition spf_neighbour :: spf_dns where
  "spf_neighbour = spf_zone\<lparr>sd_ip := (\<lambda>_. Inr [[192, 0, 2, 1]])\<rparr>"

theorem spf_prefix_ignored_witness:
  "snd (match_host spf_neighbour (v4_in_6 [192, 0, 2, 7]) ''a.jp'' 24 new_spf_state) = Inr False"
proof -
  have "length (v4_in_6 [192, 0, 2, 7]) = 16" by code_simp
  from spf_prefix_ignored [OF this, of spf_neighbour "''a.jp''" 24 new_spf_state]
  have "match_host spf_neighbour (v4_in_6 [192, 0, 2, 7]) ''a.jp'' 24 new_spf_state = match_host spf_neighbour (v4_in_6 [192, 0, 2, 7]) ''a.jp'' (-1) new_spf_state"
    by (auto simp: spf_neighbour_def)
  moreover have "snd (match_host spf_neighbour (v4_in_6 [192, 0, 2, 7]) ''a.jp'' (-1) new_spf_state) = Inr False" by code_simp
  ultimately show ?thesis by simp
qed

end
