(* ===== verification/Mail_Policy_Claims.thy ===== *)
theory Mail_Policy_Claims
  imports Mail_Policy Spf_Claims
begin

text \<open>
  What the decision about a message guarantees: mail in the name of a domain that asks for rejection is not accepted
  without a signature or an authorised client of an aligned domain. And where it does not hold: a subdomain
  without a record of its own, in the first version.
\<close>

section \<open>Evidence\<close>

text \<open>The client is authorised by SPF for a domain that is aligned with the author's.\<close>
definition client_vouched :: "auth_env \<Rightarrow> ip option \<Rightarrow> string \<Rightarrow> string \<Rightarrow> string \<Rightarrow> bool" where
  "client_vouched env remote helo from mode \<longleftrightarrow>
     (\<exists>a d s. remote = Some a \<and> aligned from d mode \<and>
        authorizes (ae_spf env) \<lparr>mc_sender = s, mc_domain = d, mc_helo = helo, mc_ip = a, mc_time = ae_now env, mc_explanation = False\<rparr> d)"

definition signature_vouched :: "dkim_result \<Rightarrow> string \<Rightarrow> string \<Rightarrow> bool" where
  "signature_vouched dkim from mode \<longleftrightarrow> (\<exists>s \<in> set (dr_sigs dkim). equal_fold (dk_result s) ''pass'' \<and> aligned from (dk_domain s) mode)"

lemma fold_pass: "x \<in> spf_results \<Longrightarrow> equal_fold x ''pass'' \<Longrightarrow> x = ''pass''"
  by (auto simp: spf_results_def equal_fold_def to_lower_def lower_char_def is_upper_def)

lemma run_spf_domain: "run_spf dns t a d s helo = (st, res) \<Longrightarrow> sr_domain res = d"
  by (auto simp: run_spf_def split: prod.splits)

text \<open>A result of SPF that passes names an authorised client.\<close>
lemma spf_evidence:
  assumes "equal_fold (sr_result (effective_spf env remote helo sender policy)) ''pass''"
  shows "\<exists>a s. remote = Some a \<and> authorizes (ae_spf env)
    \<lparr>mc_sender = s, mc_domain = sr_domain (effective_spf env remote helo sender policy), mc_helo = helo, mc_ip = a, mc_time = ae_now env, mc_explanation = False\<rparr>
    (sr_domain (effective_spf env remote helo sender policy))"
proof -
  have none: "\<not> equal_fold ''none'' ''pass''" "\<not> equal_fold ''temperror'' ''pass''" by code_simp+
  have run: ?thesis if "remote = Some a" "run_spf (ae_spf env) (ae_now env) a d s helo = (st, effective_spf env remote helo sender policy)" for a d s st
    using that run_spf_facts [OF that(2)] run_spf_domain [OF that(2)] assms fold_pass by metis
  have "\<exists>a d s st. remote = Some a \<and> run_spf (ae_spf env) (ae_now env) a d s helo = (st, effective_spf env remote helo sender policy)"
    using assms none
    by (auto simp: effective_spf_def helo_result_def mail_from_result_def eval_spf_helo_def eval_spf_mail_from_def Let_def
        split: if_splits option.splits) (metis prod.collapse)+
  then show ?thesis using run by blast
qed

lemma spf_aligned_vouched:
  assumes "spf_aligned rec from (effective_spf env remote helo sender policy)"
  shows "client_vouched env remote helo from (default_tag ''r'' (parse_tag_list rec ''aspf''))"
  using assms spf_evidence unfolding spf_aligned_def client_vouched_def by blast

lemma dkim_aligned_vouched:
  "dkim_aligned rec from dkim \<longleftrightarrow> signature_vouched dkim from (default_tag ''r'' (parse_tag_list rec ''adkim''))"
  by (auto simp: dkim_aligned_def signature_vouched_def list_ex_iff)

section \<open>Rejection\<close>

lemma apply_arc_reject: "mr_action r = MailReject \<Longrightarrow> apply_arc mode r = r"
  by (simp add: apply_arc_def)

lemma lower_reject [simp]: "to_lower ''reject'' = ''reject''" "trim_space ''reject'' = ''reject''" "to_lower ''fail'' = ''fail''"
  by code_simp+

lemma mail_evidence_fields [simp]:
  "mr_dmarc (mail_evidence env remote helo sender policy hs body) =
     (let d = eval_dmarc (dd_txt (ae_dmarc env)) (extract_from_domain hs) (effective_spf env remote helo sender policy) (ae_dkim env hs body) in
      if to_lower (trim_space (sp_dmarc policy)) \<in> {''shadow'', ''enforce''}
      then d\<lparr>dm_bis := Some (eval_dmarcbis (ae_dmarc env) (extract_from_domain hs) (effective_spf env remote helo sender policy) (ae_dkim env hs body))\<rparr> else d)"
  "mr_action (mail_evidence env remote helo sender policy hs body) = MailAccept"
  "mr_arc (mail_evidence env remote helo sender policy hs body) = ae_arc env hs body"
  by (simp_all add: mail_evidence_def Let_def)

text \<open>The first version asks for rejection: a record with the policy reject for all messages applies to the author's domain.\<close>
definition asks_reject :: "dmarc_dns \<Rightarrow> string \<Rightarrow> string \<Rightarrow> bool" where
  "asks_reject dns from rec \<longleftrightarrow>
     from \<noteq> [] \<and> (\<exists>domain. lookup_dmarc (dd_txt dns) from = Inr (Some (rec, domain)) \<and> effective_policy rec from domain = ''reject'') \<and>
     parse_dmarc_int (parse_tag_list rec ''pct'') 100 \<ge> 100"

lemma spoofed_rejected:
  assumes "split_message raw = Some (head, body)" "from = extract_from_domain (parse_headers head)"
    and "asks_reject (ae_dmarc env) from rec" "to_lower (trim_space (sp_dmarc policy)) \<noteq> ''enforce''"
    and "\<not> client_vouched env remote helo from (default_tag ''r'' (parse_tag_list rec ''aspf''))"
    and "\<not> signature_vouched (ae_dkim env (parse_headers head) body) from (default_tag ''r'' (parse_tag_list rec ''adkim''))"
  shows "mr_action (evaluate_with_policy env remote helo sender raw policy) = MailReject"
proof -
  let ?r = "mail_evidence env remote helo sender policy (parse_headers head) body"
  have d: "dm_result (mr_dmarc ?r) = ''fail'' \<and> dm_policy (mr_dmarc ?r) = ''reject'' \<and> dm_percent (mr_dmarc ?r) \<ge> 100"
    using assms spf_aligned_vouched dkim_aligned_vouched by (auto simp: asks_reject_def eval_dmarc_def Let_def)
  then have "should_apply (mr_dmarc ?r) helo sender raw" by (simp add: should_apply_def enforcing_policy_def)
  then have "apply_dmarc helo sender raw ?r = Inr (?r\<lparr>mr_action := MailReject, mr_reason := ''dmarc reject policy''\<rparr>)"
    using d by (simp add: apply_dmarc_def Let_def del: mail_evidence_fields)
  then show ?thesis using assms(1,4) by (simp add: evaluate_with_policy_def Let_def apply_arc_reject del: mail_evidence_fields)
qed

section \<open>Subdomains\<close>

lemma lower_char_dot: "lower_char c = CHR ''.'' \<longleftrightarrow> c = CHR ''.''"
proof (cases "is_upper c")
  case True
  have b: "65 \<le> (of_char c :: nat)" "(of_char c :: nat) \<le> 90"
    using True by (simp_all add: is_upper_def less_eq_char_def)
  have "(of_char (lower_char c) :: nat) = of_char c + 32"
    using b by (simp add: lower_char_def True)
  then have "lower_char c \<noteq> CHR ''.''" "c \<noteq> CHR ''.''" using b by auto
  then show ?thesis by simp
qed (simp add: lower_char_def)

lemma normalize_dmarc_lower: "to_lower (trim_set ''.'' (trim_space d)) = normalize_dmarc d"
  by (simp add: normalize_dmarc_def trim_set_def trim_left_def trim_right_def to_lower_def dropWhile_map rev_map comp_def lower_char_dot)

text \<open>In the first version a subdomain without a record of its own is not protected by the record of its
  organisation. Where there is no record the resolver returns an error, and every error ends the evaluation as a
  temporary one, before the organisational domain is asked: the message is accepted, whatever that domain publishes and although nothing
  vouches for it.\<close>
theorem dmarc_subdomain_unprotected:
  assumes "split_message raw = Some (head, body)" "author = extract_from_domain (parse_headers head)" "author \<noteq> []"
    and "normalize_dmarc author \<noteq> []" "dd_txt (ae_dmarc env) (''_dmarc.'' @ normalize_dmarc author) = Inl e" "df_not_found e"
    and "normalize_mode spf_modes (sp_helo policy) ''advisory'' \<noteq> ''enforce''" "normalize_mode spf_modes (sp_mail_from policy) ''advisory'' \<noteq> ''enforce''"
    and "to_lower (trim_space (sp_dmarc policy)) \<noteq> ''enforce''" "\<not> equal_fold (trim_space (ar_result (ae_arc env (parse_headers head) body))) ''fail''"
  shows "mr_action (evaluate_with_policy env remote helo sender raw policy) = MailAccept"
proof -
  let ?r = "mail_evidence env remote helo sender policy (parse_headers head) body"
  have "dm_result (mr_dmarc ?r) = ''temperror''"
    using assms(2-5) by (simp add: eval_dmarc_def lookup_dmarc_def lookup_dmarc_at_def normalize_dmarc_lower Let_def)
  moreover have "to_lower ''temperror'' \<noteq> ''fail''" by code_simp
  ultimately have "apply_dmarc helo sender raw ?r = Inr (?r\<lparr>mr_action := MailAccept\<rparr>)"
    by (simp add: apply_dmarc_def Let_def del: mail_evidence_fields(1))
  then show ?thesis using assms(1,7-10) by (simp add: evaluate_with_policy_def apply_arc_def Let_def)
qed

text \<open>A bank that asks for rejection, and mail in the name of a subdomain\<close>
definition sub_env :: auth_env where
  "sub_env = \<lparr>ae_spf = \<lparr>sd_txt = (\<lambda>_. Inr []), sd_ip = (\<lambda>_. Inr []), sd_mx = (\<lambda>_. Inr []), sd_addr = (\<lambda>_. Inr [])\<rparr>,
     ae_dmarc = \<lparr>dd_txt = (\<lambda>d. if d = ''_dmarc.bank.jp'' then Inr [''v=DMARC1; p=reject''] else Inl \<lparr>df_not_found = True, df_text = ''no such host''\<rparr>),
       dd_bis_txt = (\<lambda>_. Inr []), dd_ip = (\<lambda>_. None)\<rparr>,
     ae_now = 0, ae_dkim = (\<lambda>_ _. \<lparr>dr_result = ''none'', dr_sigs = []\<rparr>), ae_arc = (\<lambda>_ _. \<lparr>ar_result = ''none'', ar_reason = []\<rparr>)\<rparr>"

definition sub_mail :: string where "sub_mail = ''From: <ceo@pay.bank.jp>'' @ crlf @ crlf @ ''pay''"

lemma sub_eval:
  "split_message sub_mail = Some (''From: <ceo@pay.bank.jp>'', ''pay'') \<and> extract_from_domain (parse_headers ''From: <ceo@pay.bank.jp>'') = ''pay.bank.jp'' \<and>
   normalize_dmarc ''pay.bank.jp'' = ''pay.bank.jp'' \<and> \<not> equal_fold (trim_space ''none'') ''fail'' \<and>
   normalize_mode spf_modes (sp_helo default_spf_policy) ''advisory'' = ''advisory'' \<and>
   normalize_mode spf_modes (sp_mail_from default_spf_policy) ''advisory'' = ''advisory'' \<and> to_lower (trim_space (sp_dmarc default_spf_policy)) = ''legacy''"
  by code_simp

theorem dmarc_subdomain_unprotected_witness:
  "mr_action (evaluate_with_policy sub_env (Some [192, 0, 2, 1]) ''h'' [] sub_mail default_spf_policy) = MailAccept"
  by (rule dmarc_subdomain_unprotected [where author = "''pay.bank.jp''" and e = "\<lparr>df_not_found = True, df_text = ''no such host''\<rparr>"])
    (use sub_eval in \<open>auto simp: sub_env_def\<close>)

section \<open>The walk of the second version\<close>

text \<open>The names the walk may ask for: that of the author and at most seven above it\<close>
definition walk_names :: "string \<Rightarrow> string list" where
  "walk_names d = normalize_dmarc d # parent_names (split_on CHR ''.'' (normalize_dmarc d))"

lemma bis_query_cong: "ask (''_dmarc.'' @ n) = ask' (''_dmarc.'' @ n) \<Longrightarrow> bis_query ask n rs = bis_query ask' n rs"
  by (simp add: bis_query_def)

lemma bis_walk_cong: "\<forall>n \<in> set ns. ask (''_dmarc.'' @ n) = ask' (''_dmarc.'' @ n) \<Longrightarrow> bis_walk ask ns q rs = bis_walk ask' ns q rs"
  by (induction ns arbitrary: q rs) (auto simp: bis_query_cong [of ask _ ask'] split: sum.splits)

text \<open>The walk depends on the records of at most eight names, however many labels the author's domain has.\<close>
lemma bis_walk_bounded:
  "length (walk_names d) \<le> 8 \<and>
   ((\<forall>n \<in> set (walk_names d). ask (''_dmarc.'' @ n) = ask' (''_dmarc.'' @ n)) \<longrightarrow> bis_tree_walk ask d = bis_tree_walk ask' d)"
proof
  show "length (walk_names d) \<le> 8" by (auto simp: walk_names_def parent_names_def)
  have "bis_tree_walk ask d = bis_tree_walk ask' d" if "\<forall>n \<in> set (walk_names d). ask (''_dmarc.'' @ n) = ask' (''_dmarc.'' @ n)"
  proof -
    have q: "bis_query ask (normalize_dmarc d) [] = bis_query ask' (normalize_dmarc d) []" by (rule bis_query_cong) (use that in \<open>simp add: walk_names_def\<close>)
    have w: "bis_walk ask (parent_names (split_on CHR ''.'' (normalize_dmarc d))) q rs = bis_walk ask' (parent_names (split_on CHR ''.'' (normalize_dmarc d))) q rs" for q rs
      by (rule bis_walk_cong) (use that in \<open>simp add: walk_names_def\<close>)
    show ?thesis by (simp add: bis_tree_walk_def Let_def q w split: sum.splits prod.splits)
  qed
  then show "(\<forall>n \<in> set (walk_names d). ask (''_dmarc.'' @ n) = ask' (''_dmarc.'' @ n)) \<longrightarrow> bis_tree_walk ask d = bis_tree_walk ask' d" by blast
qed

text \<open>
  Below a public suffix the organisational domain should be the name with one more label; \<^verbatim>\<open>labelChild\<close> returns the whole
  name instead, whatever its number of labels.
\<close>
lemma label_child_subject: "subject \<noteq> parent \<Longrightarrow> has_suffix subject (''.'' @ parent) \<Longrightarrow> label_child subject parent = subject"
  by (auto simp: label_child_def trim_suffix_def has_suffix_iff_suffix Let_def suffix_def)

end
