(* ===== verification/Mail_Listener.thy ===== *)
theory Mail_Listener
  imports Mail_Policy_Claims Smtp_Claims
begin

text \<open>
  The listener with the decision about a message: the verdict of \<^verbatim>\<open>mailauth\<close> as \<^verbatim>\<open>handleDataCommand\<close> uses it.
\<close>

text \<open>The call of \<^verbatim>\<open>EvaluateWithPolicy\<close> in \<^verbatim>\<open>handleDataCommand\<close> and the header of its result\<close>
definition listener_auth :: "(nat \<Rightarrow> auth_env) \<Rightarrow> string \<Rightarrow> spf_policy \<Rightarrow> nat \<Rightarrow> ip option \<Rightarrow> string \<Rightarrow> string \<Rightarrow> string \<Rightarrow> string list \<Rightarrow> mail_verdict" where
  "listener_auth env hostname policy n remote helo sender data rcpts =
     (let r = evaluate_with_policy (env n) remote helo sender data policy
      in \<lparr>mv_action = (case mr_action r of MailAccept \<Rightarrow> ActionAccept | MailQuarantine \<Rightarrow> ActionQuarantine | MailReject \<Rightarrow> ActionReject),
          mv_header = build_auth_results hostname r sender\<rparr>)"


text \<open>A domain that asks for rejection, a client without any record, and its message\<close>
definition bank_env :: auth_env where
  "bank_env = \<lparr>ae_spf = \<lparr>sd_txt = (\<lambda>_. Inr []), sd_ip = (\<lambda>_. Inr []), sd_mx = (\<lambda>_. Inr []), sd_addr = (\<lambda>_. Inr [])\<rparr>,
     ae_dmarc = \<lparr>dd_txt = (\<lambda>d. if d = ''_dmarc.bank.jp'' then Inr [''v=DMARC1; p=reject''] else Inl \<lparr>df_not_found = True, df_text = ''no such host''\<rparr>),
       dd_bis_txt = (\<lambda>_. Inr []), dd_ip = (\<lambda>_. None)\<rparr>,
     ae_now = 0, ae_dkim = (\<lambda>_ _. \<lparr>dr_result = ''none'', dr_sigs = []\<rparr>), ae_arc = (\<lambda>_ _. \<lparr>ar_result = ''none'', ar_reason = []\<rparr>)\<rparr>"

definition bank_mail :: string where "bank_mail = ''From: Bank <ceo@bank.jp>'' @ crlf @ crlf @ ''pay'' @ crlf"

definition bank_client :: "(store, limit_hits) smtp_state" where
  "bank_client = (w_client (bank_mail @ ''.'' @ crlf))\<lparr>sm_session := (new_session ''192.0.2.1:25'' True)\<lparr>ss_rcpt_to := [''u@v.jp'']\<rparr>\<rparr>"

definition bank_server :: "(env, store, limit_hits) smtp_server" where
  "bank_server = w_server\<lparr>sv_mailauth := listener_auth (\<lambda>_. bank_env) ''mx'' default_spf_policy\<rparr>"

lemma bank_eval:
  "read_data (sv_max_message_bytes bank_server) [] (cn_input (sm_conn bank_client)) = Inr (bank_mail, []) \<and>
   split_message bank_mail = Some (''From: Bank <ceo@bank.jp>'', ''pay'' @ crlf) \<and>
   extract_from_domain (parse_headers ''From: Bank <ceo@bank.jp>'') = ''bank.jp'' \<and>
   lookup_dmarc (dd_txt (ae_dmarc bank_env)) ''bank.jp'' = Inr (Some (''v=DMARC1; p=reject'', ''bank.jp'')) \<and>
   effective_policy ''v=DMARC1; p=reject'' ''bank.jp'' ''bank.jp'' = ''reject'' \<and>
   parse_dmarc_int (parse_tag_list ''v=DMARC1; p=reject'' ''pct'') 100 = 100 \<and>
   to_lower (trim_space (sp_dmarc default_spf_policy)) \<noteq> ''enforce''"
  by code_simp

lemma bank_unvouched: "\<not> authorizes (ae_spf bank_env) m d"
proof
  assume "authorizes (ae_spf bank_env) m d"
  then show False by cases (auto simp: published_def bank_env_def)
qed


end
