(* ===== verification/Http_Injection.thy ===== *)
theory Http_Injection
  imports Smtp_Session
begin

text \<open>
  Submission over HTTP (\<^verbatim>\<open>internal/httpinjection\<close>): the rate of a principal, the store that makes requests idempotent, over files in
  which every call may fail, the message made from a request, and the handler. The decoding of JSON, SHA-256 and the author of a
  message are parameters.
\<close>

section \<open>The configuration\<close>

record http_config =
  hc_enabled :: bool
  hc_listen :: string
  hc_ttl :: duration
  hc_rate :: int

definition default_http_config :: http_config where
  "default_http_config = \<lparr>hc_enabled = False, hc_listen = ''127.0.0.1:8443'', hc_ttl = 24 * hour, hc_rate = 60\<rparr>"

datatype http_config_error = NoListenAddr | NoCertificate | BadTtl | BadRate

text \<open>\<^verbatim>\<open>HTTPInjectionConfig.Validate\<close>\<close>
definition http_validate :: "http_config \<Rightarrow> string \<Rightarrow> string \<Rightarrow> http_config_error option" where
  "http_validate c cert key =
     (if \<not> hc_enabled c then None
      else if trim_space (hc_listen c) = [] then Some NoListenAddr
      else if trim_space cert = [] \<or> trim_space key = [] then Some NoCertificate
      else if hc_ttl c < minute \<or> hc_ttl c > 30 * 24 * hour then Some BadTtl
      else if hc_rate c < 1 \<or> hc_rate c > 100000 then Some BadRate
      else None)"

section \<open>The rate of a principal\<close>

text \<open>The start of the window and the count\<close>
type_synonym rate_windows = "string \<Rightarrow> time \<times> int"

definition no_windows :: rate_windows where "no_windows = (\<lambda>_. (zero_time, 0))"

text \<open>\<^verbatim>\<open>principalLimiter.allow\<close>\<close>
definition principal_allow :: "int \<Rightarrow> rate_windows \<Rightarrow> string \<Rightarrow> time \<Rightarrow> rate_windows \<times> bool" where
  "principal_allow lim ws who t =
     (let key = to_lower (trim_space who); (start, n) = ws key in
      if is_zero start \<or> time_sub t start \<ge> minute then (ws(key := (t, 1)), True)
      else if n \<ge> lim then (ws, False)
      else (ws(key := (start, n + 1)), True))"

section \<open>The idempotency store\<close>

record idem_record =
  id_principal :: string
  id_key :: string
  id_hash :: string
  id_message :: string
  id_committed :: bool
  id_expires :: time

text \<open>A file is a record or cannot be decoded.\<close>
datatype idem_file = IdemRecord idem_record | IdemGarbage

type_synonym idem_files = "string \<rightharpoonup> idem_file"

text \<open>
  What happens to a write: it is done, it fails before the file is renamed, or the directory cannot be synchronised
  after it was.
\<close>
datatype write_outcome = Written | NotWritten | NotSynced

text \<open>The calls of one request: its clock readings, the failing reads and removals, and its two writes\<close>
record inject_env =
  iv_now :: "nat \<Rightarrow> time"
  iv_read_fails :: "nat \<Rightarrow> bool"
  iv_remove_fails :: bool
  iv_write :: "nat \<Rightarrow> write_outcome"

datatype idem_error = IdemIO | IdemDecode | IdemScope | IdemMissing

definition idem_scope :: "string \<Rightarrow> string \<Rightarrow> string" where
  "idem_scope who key = to_lower (trim_space who) @ [CHR 0x00] @ key"

text \<open>\<^verbatim>\<open>read\<close>\<close>
definition idem_read :: "bool \<Rightarrow> idem_files \<Rightarrow> string \<Rightarrow> idem_error + idem_record" where
  "idem_read fault fs p =
     (if fault then Inl IdemIO
      else (case fs p of None \<Rightarrow> Inl IdemMissing | Some IdemGarbage \<Rightarrow> Inl IdemDecode | Some (IdemRecord r) \<Rightarrow> Inr r))"

text \<open>\<^verbatim>\<open>write\<close>\<close>
definition idem_write :: "write_outcome \<Rightarrow> idem_files \<Rightarrow> string \<Rightarrow> idem_record \<Rightarrow> idem_files \<times> idem_error option" where
  "idem_write out fs p r =
     (case out of
        Written \<Rightarrow> (fs(p \<mapsto> IdemRecord r), None)
      | NotWritten \<Rightarrow> (fs, Some IdemIO)
      | NotSynced \<Rightarrow> (fs(p \<mapsto> IdemRecord r), Some IdemIO))"

text \<open>\<^verbatim>\<open>lookup\<close>, with the path of a scope\<close>
definition idem_lookup :: "inject_env \<Rightarrow> (string \<Rightarrow> string) \<Rightarrow> string \<Rightarrow> string \<Rightarrow> idem_files \<Rightarrow> idem_files \<times> (idem_error + idem_record option)" where
  "idem_lookup env sha who key fs =
     (let p = sha (idem_scope who key) in
      case idem_read (iv_read_fails env 0) fs p of
        Inl IdemMissing \<Rightarrow> (fs, Inr None)
      | Inl e \<Rightarrow> (fs, Inl e)
      | Inr r \<Rightarrow>
          if \<not> id_expires r > iv_now env 1 then
            (if iv_remove_fails env then (fs, Inl IdemIO) else (fs(p := None), Inr None))
          else if id_principal r \<noteq> to_lower (trim_space who) \<or> id_key r \<noteq> key then (fs, Inl IdemScope)
          else (fs, Inr (Some r)))"

text \<open>\<^verbatim>\<open>prepare\<close>, \<^verbatim>\<open>commit\<close>\<close>
definition idem_prepare :: "inject_env \<Rightarrow> (string \<Rightarrow> string) \<Rightarrow> duration \<Rightarrow> string \<Rightarrow> string \<Rightarrow> string \<Rightarrow> string \<Rightarrow> idem_files \<Rightarrow> idem_files \<times> idem_error option" where
  "idem_prepare env sha ttl who key hash i fs =
     idem_write (iv_write env 0) fs (sha (idem_scope who key))
       \<lparr>id_principal = to_lower (trim_space who), id_key = key, id_hash = hash, id_message = i, id_committed = False, id_expires = iv_now env 2 + ttl\<rparr>"

definition idem_commit :: "inject_env \<Rightarrow> (string \<Rightarrow> string) \<Rightarrow> duration \<Rightarrow> string \<Rightarrow> string \<Rightarrow> idem_files \<Rightarrow> idem_files \<times> idem_error option" where
  "idem_commit env sha ttl who key fs =
     (let p = sha (idem_scope who key) in
      case idem_read (iv_read_fails env 1) fs p of
        Inl e \<Rightarrow> (fs, Some e)
      | Inr r \<Rightarrow> idem_write (iv_write env 1) fs p (r\<lparr>id_committed := True, id_expires := iv_now env 3 + ttl\<rparr>))"

section \<open>The message of a request\<close>

record inject_request =
  ir_from :: string
  ir_recipients :: "string list"
  ir_raw :: string

text \<open>\<^verbatim>\<open>normalizeMessage\<close>\<close>
definition normalize_message :: "string \<Rightarrow> int \<Rightarrow> string option" where
  "normalize_message raw bound =
     (if raw = [] \<or> int (length raw) > bound \<or> CHR 0x00 \<in> set raw then None
      else (let ls = split_on LF (map (\<lambda>c. if c = CR then LF else c) (crlf_to_lf raw));
                joined = join crlf ls;
                data = (if has_suffix joined crlf then joined else joined @ crlf)
            in if list_ex (\<lambda>l. length l > 998) ls then None
               else if int (length data) > bound \<or> \<not> contains_str data (crlf @ crlf) then None
               else Some data))"

text \<open>\<^verbatim>\<open>validIdempotencyKey\<close>\<close>
definition valid_idempotency_key :: "string \<Rightarrow> bool" where
  "valid_idempotency_key key \<longleftrightarrow>
     1 \<le> length key \<and> length key \<le> 200 \<and> list_all (\<lambda>c. 33 \<le> (of_char c :: nat) \<and> (of_char c :: nat) \<le> 126) key"

text \<open>The recipients in their order, without repetitions\<close>
fun inject_recipients :: "string list \<Rightarrow> string list \<Rightarrow> string list option" where
  "inject_recipients seen [] = Some []"
| "inject_recipients seen (raw # rs) =
     (case normalize_path raw of
        Inl _ \<Rightarrow> None
      | Inr a \<Rightarrow>
          if a = [] \<or> \<not> is_ascii a then None
          else if a \<in> set seen then inject_recipients seen rs
          else map_option ((#) a) (inject_recipients (a # seen) rs))"

text \<open>The settings and parameters of the handler\<close>
record ('e, 's) inject_api =
  ia_queue :: "('e, 's) backend"
  ia_password :: "auth_backend option"
  ia_bearer :: "(nat \<Rightarrow> string \<Rightarrow> string \<Rightarrow> auth_result) option"
  ia_limits :: smtp_limits
  ia_max_bytes :: int
  ia_sender_identity :: bool
  ia_ttl :: duration
  ia_rate :: int
  ia_sha :: "string \<Rightarrow> string"
  ia_canonical :: "string \<Rightarrow> string list \<Rightarrow> string \<Rightarrow> string"
  ia_author :: "string \<Rightarrow> string option"

definition inject_id :: "('e, 's) inject_api \<Rightarrow> principal \<Rightarrow> string \<Rightarrow> string" where
  "inject_id api pr key = ''http-'' @ take 32 (ia_sha api (to_lower (pr_username pr) @ [CHR 0x00] @ key))"

definition inject_domain :: "string \<Rightarrow> string" where
  "inject_domain a = (case domain_of a of None \<Rightarrow> [] | Some d \<Rightarrow> d)"

definition inject_message :: "('e, 's) inject_api \<Rightarrow> principal \<Rightarrow> string \<Rightarrow> string \<Rightarrow> string list \<Rightarrow> string \<Rightarrow> string \<Rightarrow> message" where
  "inject_message api pr key sender rcpts data domain =
     (new_message (inject_id api pr key))\<lparr>remote_addr := ''http-injection'', m_helo := ''http-injection'', mail_from := sender, rcpt_to := rcpts,
        m_data := data, tenant := to_lower (trim_space (pr_username pr)), traffic_class := ''transactional'',
        m_signing := Some \<lparr>signing_domain = domain\<rparr>\<rparr>"

text \<open>\<^verbatim>\<open>buildMessage\<close>: the error code of the reply, or the message and the hash of the request\<close>
definition build_message :: "('e, 's) inject_api \<Rightarrow> principal \<Rightarrow> string \<Rightarrow> inject_request \<Rightarrow> string + message \<times> string" where
  "build_message api pr key rq =
     (case normalize_path (ir_from rq) of
        Inl _ \<Rightarrow> Inl ''invalid_envelope_from''
      | Inr sender \<Rightarrow>
          if sender = [] \<or> \<not> is_ascii sender then Inl ''invalid_envelope_from''
          else if ia_sender_identity api \<and> \<not> sender_allowed pr sender then Inl ''sender_not_allowed''
          else if ir_recipients rq = [] \<or> int (length (ir_recipients rq)) > sl_max_recipients (with_defaults (ia_limits api)) then Inl ''invalid_recipients''
          else (case inject_recipients [] (ir_recipients rq) of
            None \<Rightarrow> Inl ''invalid_recipients''
          | Some rcpts \<Rightarrow>
              (case normalize_message (ir_raw rq) (ia_max_bytes api) of
                 None \<Rightarrow> Inl ''invalid_raw_message''
               | Some data \<Rightarrow>
                   (case ia_author api data of
                      None \<Rightarrow> Inl ''author_not_allowed''
                    | Some author \<Rightarrow>
                        if \<not> sender_allowed pr author then Inl ''author_not_allowed''
                        else if inject_domain author \<noteq> inject_domain sender then Inl ''author_envelope_domain_mismatch''
                        else Inr (inject_message api pr key sender rcpts data (inject_domain author),
                                  ia_sha api (ia_canonical api sender rcpts data))))))"

section \<open>The handler\<close>

text \<open>A request: its method and header fields, and its body as the decoder of JSON returns it\<close>
record http_request =
  hq_method :: string
  hq_content_type :: string
  hq_authorization :: string
  hq_user :: string
  hq_key :: string
  hq_body :: "inject_request option"
  hq_number :: nat

text \<open>\<^verbatim>\<open>Request.BasicAuth\<close> of \<^verbatim>\<open>net/http\<close>\<close>
definition basic_auth :: "string \<Rightarrow> (string \<times> string) option" where
  "basic_auth h =
     (if length h < 6 \<or> \<not> equal_fold (take 6 h) ''Basic '' then None
      else (case b64_decode False (drop 6 h) of
        None \<Rightarrow> None
      | Some s \<Rightarrow> (case split_2 CHR '':'' s of (_, None) \<Rightarrow> None | (u, Some p) \<Rightarrow> Some (u, p))))"

text \<open>\<^verbatim>\<open>authenticate\<close>\<close>
definition inject_authenticate :: "('e, 's) inject_api \<Rightarrow> http_request \<Rightarrow> principal \<times> bool" where
  "inject_authenticate api rq =
     (case (basic_auth (hq_authorization rq), ia_password api) of
        (Some (u, p), Some be) \<Rightarrow>
          (case ab_detailed be of
             Some f \<Rightarrow> (au_principal (f (hq_number rq) u p), au_success (f (hq_number rq) u p))
           | None \<Rightarrow> ab_password be (hq_number rq) u p)
      | _ \<Rightarrow>
          (let h = trim_space (hq_authorization rq) in
           case ia_bearer api of
             Some f \<Rightarrow>
               if has_prefix h ''Bearer '' then
                 (let r = f (hq_number rq) (to_lower (trim_space (hq_user rq))) (trim_space (drop 7 h)) in (au_principal r, au_success r))
               else (no_principal, False)
           | None \<Rightarrow> (no_principal, False)))"

datatype http_answer = HttpError nat string | HttpAccepted string | HttpReplayed string

record 's inject_state =
  is_windows :: rate_windows
  is_files :: idem_files
  is_queue :: 's

text \<open>The answer when the key is known: it was used for another request, or the request was completed\<close>
definition known_answer :: "idem_record option \<Rightarrow> string \<Rightarrow> http_answer option" where
  "known_answer found hash =
     (case found of
        None \<Rightarrow> None
      | Some r \<Rightarrow>
          if id_hash r \<noteq> hash then Some (HttpError 409 ''idempotency_key_reused'')
          else if id_committed r then Some (HttpReplayed (id_message r)) else None)"

text \<open>From the claim of the key to the reply: prepare, enqueue, commit\<close>
definition inject_enqueue :: "('e, 's) inject_api \<Rightarrow> inject_env \<Rightarrow> 'e \<Rightarrow> string \<Rightarrow> string \<Rightarrow> message \<Rightarrow> string \<Rightarrow> 's inject_state \<Rightarrow> 's inject_state \<times> http_answer" where
  "inject_enqueue api env e who key msg hash st =
     (case idem_prepare env (ia_sha api) (ia_ttl api) who key hash (m_id msg) (is_files st) of
        (fs1, Some _) \<Rightarrow> (st\<lparr>is_files := fs1\<rparr>, HttpError 503 ''idempotency_unavailable'')
      | (fs1, None) \<Rightarrow>
          (case be_enqueue (ia_queue api) e (is_queue st) msg of
             (q, _, Some _) \<Rightarrow> (st\<lparr>is_files := fs1, is_queue := q\<rparr>, HttpError 503 ''enqueue_failed'')
           | (q, _, None) \<Rightarrow>
               (case idem_commit env (ia_sha api) (ia_ttl api) who key fs1 of
                  (fs2, Some _) \<Rightarrow> (st\<lparr>is_files := fs2, is_queue := q\<rparr>, HttpError 503 ''idempotency_unavailable'')
                | (fs2, None) \<Rightarrow> (st\<lparr>is_files := fs2, is_queue := q\<rparr>, HttpAccepted (m_id msg)))))"

text \<open>The part of the handler under its lock\<close>
definition inject_claim :: "('e, 's) inject_api \<Rightarrow> inject_env \<Rightarrow> 'e \<Rightarrow> string \<Rightarrow> string \<Rightarrow> message \<Rightarrow> string \<Rightarrow> 's inject_state \<Rightarrow> 's inject_state \<times> http_answer" where
  "inject_claim api env e who key msg hash st =
     (case idem_lookup env (ia_sha api) who key (is_files st) of
        (fs, Inl _) \<Rightarrow> (st\<lparr>is_files := fs\<rparr>, HttpError 503 ''idempotency_unavailable'')
      | (fs, Inr found) \<Rightarrow>
          (case known_answer found hash of
             Some a \<Rightarrow> (st\<lparr>is_files := fs\<rparr>, a)
           | None \<Rightarrow> inject_enqueue api env e who key msg hash (st\<lparr>is_files := fs\<rparr>)))"

text \<open>\<^verbatim>\<open>handleInject\<close>; the trace of the request becomes part of the message.\<close>
definition handle_inject :: "('e, 's) inject_api \<Rightarrow> inject_env \<Rightarrow> 'e \<Rightarrow> string \<times> string \<Rightarrow> http_request \<Rightarrow> 's inject_state \<Rightarrow> 's inject_state \<times> http_answer" where
  "handle_inject api env e trace rq st =
     (if hq_method rq \<noteq> ''POST'' then (st, HttpError 405 ''method_not_allowed'')
      else if to_lower (trim_space (hd (split_on CHR '';'' (hq_content_type rq)))) \<noteq> ''application/json'' then (st, HttpError 415 ''unsupported_media_type'')
      else (case inject_authenticate api rq of
        (pr, ok) \<Rightarrow>
          if \<not> ok then (st, HttpError 401 ''unauthorized'')
          else (case principal_allow (ia_rate api) (is_windows st) (pr_username pr) (iv_now env 0) of
            (ws, allowed) \<Rightarrow>
              (let st1 = st\<lparr>is_windows := ws\<rparr>; key = trim_space (hq_key rq) in
               if \<not> allowed then (st1, HttpError 429 ''rate_limited'')
               else if \<not> valid_idempotency_key key then (st1, HttpError 400 ''invalid_idempotency_key'')
               else (case hq_body rq of
                 None \<Rightarrow> (st1, HttpError 400 ''invalid_request'')
               | Some body \<Rightarrow>
                   (case build_message api pr key body of
                      Inl code \<Rightarrow> (st1, HttpError 422 code)
                    | Inr (msg, hash) \<Rightarrow>
                        inject_claim api env e (pr_username pr) key (msg\<lparr>trace_parent := fst trace, trace_state := snd trace\<rparr>) hash st1))))))"

end
