(* ===== verification/Http_Claims.thy ===== *)
theory Http_Claims
  imports Http_Injection
begin

text \<open>
  What an answer over HTTP promises: the message is in the queue, or was put there by the request whose answer is repeated, whatever
  fails and whatever others do to the queue. And where a positive answer promises nothing: a key that is used again after its time.
\<close>

section \<open>The messages of requests\<close>

text \<open>The message and the hash of a request whose sender is known and whose contents are in order\<close>
definition request_message :: "('e, 's) inject_api \<Rightarrow> string \<times> string \<Rightarrow> http_request \<Rightarrow> (message \<times> string) option" where
  "request_message api trace rq =
     (case inject_authenticate api rq of
        (pr, ok) \<Rightarrow>
          if \<not> ok then None
          else (case hq_body rq of
                  None \<Rightarrow> None
                | Some body \<Rightarrow>
                    (case build_message api pr (trim_space (hq_key rq)) body of
                       Inl _ \<Rightarrow> None
                     | Inr (m, h) \<Rightarrow> Some (m\<lparr>trace_parent := fst trace, trace_state := snd trace\<rparr>, h))))"

text \<open>The request left the queue as a successful \<^verbatim>\<open>Enqueue\<close> of the message leaves it.\<close>
definition stored_by :: "('e, 's) inject_api \<Rightarrow> 'e \<Rightarrow> message \<Rightarrow> 's inject_state \<Rightarrow> 's inject_state \<Rightarrow> bool" where
  "stored_by api e m st st' \<longleftrightarrow> (\<exists>m'. be_enqueue (ia_queue api) e (is_queue st) m = (is_queue st', m', None))"

definition taken :: "('e, 's) inject_api \<Rightarrow> 'e \<Rightarrow> (message \<times> string) option \<Rightarrow> 's inject_state \<Rightarrow> 's inject_state \<Rightarrow> (message \<times> string) list" where
  "taken api e found st st' =
     (case found of None \<Rightarrow> [] | Some (m, h) \<Rightarrow> if stored_by api e m st st' then [(m, h)] else [])"

section \<open>Committed records\<close>

text \<open>A record that is marked as committed belongs to a message that the queue took.\<close>
definition committed_logged :: "(message \<times> string) list \<Rightarrow> 's inject_state \<Rightarrow> bool" where
  "committed_logged log st \<longleftrightarrow>
     (\<forall>p r. is_files st p = Some (IdemRecord r) \<longrightarrow> id_committed r \<longrightarrow> (\<exists>m. (m, id_hash r) \<in> set log \<and> m_id m = id_message r))"

lemma committed_logged_frame [simp]:
  "committed_logged log (st\<lparr>is_queue := q\<rparr>) = committed_logged log st" "committed_logged log (st\<lparr>is_windows := ws\<rparr>) = committed_logged log st"
  "committed_logged log (st\<lparr>is_files := fs, is_queue := q\<rparr>) = committed_logged log (st\<lparr>is_files := fs\<rparr>)"
  by (simp_all add: committed_logged_def)

lemma committed_logged_more: "committed_logged log st \<Longrightarrow> committed_logged (log @ ms) st"
  by (fastforce simp: committed_logged_def)

lemma idem_write_files:
  assumes "idem_write out fs p r = (fs', err)"
  shows "fs' = fs \<or> fs' = fs(p \<mapsto> IdemRecord r)" "err = None \<Longrightarrow> fs' = fs(p \<mapsto> IdemRecord r)"
  using assms by (auto simp: idem_write_def split: write_outcome.splits)

lemma idem_lookup_files:
  assumes "idem_lookup env sha who key fs = (fs', res)"
  shows "fs' = fs \<or> fs' = fs(sha (idem_scope who key) := None)"
    and "res = Inr (Some r) \<Longrightarrow> fs' = fs \<and> fs (sha (idem_scope who key)) = Some (IdemRecord r)"
  using assms
  by (auto simp: idem_lookup_def idem_read_def Let_def split: idem_error.splits sum.splits if_splits option.splits idem_file.splits)

text \<open>Two steps of the handler that keep the invariant: the claim of a key, and its commitment once the message was taken\<close>
lemma prepare_logged:
  assumes "idem_prepare env sha ttl who key hash i (is_files st) = (fs, err)" "committed_logged log st"
  shows "committed_logged log (st\<lparr>is_files := fs\<rparr>)"
  using idem_write_files(1) [OF assms(1) [unfolded idem_prepare_def]] assms(2) by (auto simp: committed_logged_def split: if_splits)

lemma commit_logged:
  assumes "idem_commit env sha ttl who key (is_files st) = (fs, err)" "committed_logged log st"
    and "is_files st (sha (idem_scope who key)) = Some (IdemRecord r)" "(m, id_hash r) \<in> set log" "m_id m = id_message r"
  shows "committed_logged log (st\<lparr>is_files := fs\<rparr>)"
proof -
  let ?p = "sha (idem_scope who key)" and ?r = "r\<lparr>id_committed := True, id_expires := iv_now env 3 + ttl\<rparr>"
  have "fs = is_files st \<or> fs = (is_files st)(?p \<mapsto> IdemRecord ?r)"
    using assms(1,3) idem_write_files(1) by (auto simp: idem_commit_def idem_read_def Let_def split: if_splits)
  moreover have "\<exists>m. (m, id_hash r) \<in> set log \<and> m_id m = id_message r" using assms(4,5) by blast
  ultimately show ?thesis
  proof (elim disjE)
    assume fs: "fs = (is_files st)(?p \<mapsto> IdemRecord ?r)" and m: "\<exists>m. (m, id_hash r) \<in> set log \<and> m_id m = id_message r"
    show ?thesis
      unfolding committed_logged_def
    proof (intro allI impI)
      fix p x assume x: "is_files (st\<lparr>is_files := fs\<rparr>) p = Some (IdemRecord x)" "id_committed x"
      show "\<exists>m. (m, id_hash x) \<in> set log \<and> m_id m = id_message x"
      proof (cases "p = ?p")
        case True
        then have "id_hash x = id_hash r" "id_message x = id_message r" using x(1) fs by auto
        then show ?thesis using m by simp
      qed (use x fs assms(2) in \<open>simp add: committed_logged_def\<close>)
    qed
  qed (use assms(2) in simp)
qed

section \<open>Requests\<close>

text \<open>What an answer means, for a request with the message \<open>m\<close> and the hash \<open>h\<close>\<close>
definition answer_ok :: "('e, 's) inject_api \<Rightarrow> 'e \<Rightarrow> (message \<times> string) list \<Rightarrow> message \<Rightarrow> string \<Rightarrow> 's inject_state \<Rightarrow> 's inject_state \<Rightarrow> http_answer \<Rightarrow> bool" where
  "answer_ok api e log m h st st' a \<longleftrightarrow>
     (case a of
        HttpError _ _ \<Rightarrow> True
      | HttpAccepted i \<Rightarrow> m_id m = i \<and> stored_by api e m st st'
      | HttpReplayed i \<Rightarrow> \<exists>m0. (m0, h) \<in> set log \<and> m_id m0 = i)"

lemma enqueue_answer:
  assumes "inject_enqueue api env e who key m h st = (st', a)" "committed_logged log st"
  shows "committed_logged (log @ taken api e (Some (m, h)) st st') st' \<and> answer_ok api e log m h st st' a"
proof -
  obtain fs1 e1 where p: "idem_prepare env (ia_sha api) (ia_ttl api) who key h (m_id m) (is_files st) = (fs1, e1)" by fastforce
  note c1 = prepare_logged [OF p assms(2)]
  show ?thesis
  proof (cases e1)
    case (Some x)
    then show ?thesis using assms(1) committed_logged_more [OF c1] by (auto simp: inject_enqueue_def p answer_ok_def)
  next
    case None
    obtain q m' e2 where q: "be_enqueue (ia_queue api) e (is_queue st) m = (q, m', e2)" by (metis prod_cases3)
    show ?thesis
    proof (cases e2)
      case (Some x)
      then show ?thesis using assms(1) None committed_logged_more [OF c1] by (auto simp: inject_enqueue_def p q answer_ok_def)
    next
      case None2: None
      have stored: "fs1 (ia_sha api (idem_scope who key)) = Some (IdemRecord \<lparr>id_principal = to_lower (trim_space who), id_key = key, id_hash = h,
          id_message = m_id m, id_committed = False, id_expires = iv_now env 2 + ia_ttl api\<rparr>)"
        using idem_write_files(2) [OF p [unfolded idem_prepare_def] None] by simp
      obtain fs2 e3 where k: "idem_commit env (ia_sha api) (ia_ttl api) who key fs1 = (fs2, e3)" by fastforce
      have st': "st' = st\<lparr>is_files := fs2, is_queue := q\<rparr>" "a = HttpAccepted i \<Longrightarrow> i = m_id m" "a \<noteq> HttpReplayed i" for i
        using assms(1) None None2 by (cases e3; auto simp: inject_enqueue_def p q k)+
      have by_m: "stored_by api e m st st'" using q None2 by (simp add: stored_by_def st')
      have "committed_logged (log @ [(m, h)]) (st\<lparr>is_files := fs1\<rparr>)" by (rule committed_logged_more [OF c1])
      note cl = commit_logged [OF _ this, of env "ia_sha api" "ia_ttl api" who key fs2 e3, simplified, OF k stored, of m]
      have "committed_logged (log @ [(m, h)]) (st\<lparr>is_files := fs2\<rparr>)" using cl by simp
      then show ?thesis using by_m st' by (auto simp: taken_def answer_ok_def split: http_answer.split)
    qed
  qed
qed

lemma claim_answer:
  assumes "inject_claim api env e who key m h st = (st', a)" "committed_logged log st"
  shows "committed_logged (log @ taken api e (Some (m, h)) st st') st' \<and> answer_ok api e log m h st st' a"
proof -
  obtain fs res where l: "idem_lookup env (ia_sha api) who key (is_files st) = (fs, res)" by fastforce
  have c: "committed_logged log (st\<lparr>is_files := fs\<rparr>)"
    using idem_lookup_files(1) [OF l] assms(2) by (auto simp: committed_logged_def split: if_splits)
  consider (err) x where "res = Inl x" | (known) r x where "res = Inr (Some r)" "known_answer (Some r) h = Some x"
    | (fresh) f where "res = Inr f" "known_answer f h = None"
  proof (cases res)
    case (Inr f)
    show ?thesis
    proof (cases "known_answer f h")
      case (Some x)
      then obtain r where "f = Some r" by (cases f) (auto simp: known_answer_def)
      with Inr Some that(2) show ?thesis by blast
    qed (use Inr that(3) in blast)
  qed (use that(1) in blast)
  then show ?thesis
  proof cases
    case err
    then show ?thesis using assms(1) committed_logged_more [OF c] by (auto simp: inject_claim_def l answer_ok_def)
  next
    case known
    have "is_files st (ia_sha api (idem_scope who key)) = Some (IdemRecord r)" using idem_lookup_files(2) [OF l] known(1) by auto
    with known(2) assms(2) have "answer_ok api e log m h st (st\<lparr>is_files := fs\<rparr>) x"
      by (auto simp: known_answer_def answer_ok_def committed_logged_def split: if_splits)
    then show ?thesis using assms(1) known committed_logged_more [OF c] by (auto simp: inject_claim_def l)
  next
    case fresh
    have "stored_by api e m (st\<lparr>is_files := fs\<rparr>) = stored_by api e m st" by (simp add: stored_by_def fun_eq_iff)
    then show ?thesis
      using assms(1) fresh enqueue_answer [OF _ c, of api env e who key m h st' a]
      by (simp add: inject_claim_def l taken_def answer_ok_def cong: http_answer.case_cong)
  qed
qed

lemma handle_answer:
  assumes "handle_inject api env e trace rq st = (st', a)" "committed_logged log st"
  shows "committed_logged (log @ taken api e (request_message api trace rq) st st') st' \<and>
    ((\<exists>c t. a = HttpError c t) \<or> (\<exists>m h. request_message api trace rq = Some (m, h) \<and> answer_ok api e log m h st st' a))"
proof -
  obtain pr ok where au: "inject_authenticate api rq = (pr, ok)" by fastforce
  obtain ws allowed where al: "principal_allow (ia_rate api) (is_windows st) (pr_username pr) (iv_now env 0) = (ws, allowed)" by fastforce
  consider (error) c t where "a = HttpError c t" "is_files st' = is_files st"
    | (claim) m h where "request_message api trace rq = Some (m, h)"
        "inject_claim api env e (pr_username pr) (trim_space (hq_key rq)) m h (st\<lparr>is_windows := ws\<rparr>) = (st', a)"
    using assms(1) by (auto simp: handle_inject_def request_message_def au al Let_def split: if_splits option.splits sum.splits prod.splits)
  then show ?thesis
  proof cases
    case error
    then have "committed_logged log st'" using assms(2) by (simp add: committed_logged_def)
    with error committed_logged_more show ?thesis by blast
  next
    case claim
    have "stored_by api e m (st\<lparr>is_windows := ws\<rparr>) = stored_by api e m st" by (simp add: stored_by_def fun_eq_iff)
    with claim_answer [OF claim(2)] assms(2) claim(1) show ?thesis
      by (simp add: taken_def answer_ok_def cong: http_answer.case_cong)
  qed
qed

text \<open>To the queue a request is one call of \<^verbatim>\<open>Enqueue\<close> at most.\<close>
lemma handle_inject_queue:
  assumes "handle_inject api env e trace rq st = (st', a)"
  shows "is_queue st' = is_queue st \<or> (\<exists>m. is_queue st' = fst (be_enqueue (ia_queue api) e (is_queue st) m))"
  using assms
  by (auto simp: handle_inject_def inject_claim_def inject_enqueue_def Let_def split: if_splits option.splits sum.splits prod.splits) (metis fst_conv)+

section \<open>Runs\<close>

text \<open>
  Requests with any faults, with a log of the messages that the queue took from them and the hashes of their requests; between two requests the
  other users of the queue do whatever they want with it: it is replaced by any other.
\<close>
inductive inject_run :: "(env, store) inject_api \<Rightarrow> store inject_state \<Rightarrow> (message \<times> string) list \<Rightarrow> store inject_state \<Rightarrow> bool" for api st0 where
  Start: "inject_run api st0 [] st0"
| Request: "inject_run api st0 log st \<Longrightarrow> handle_inject api env e trace rq st = (st', a) \<Longrightarrow>
    inject_run api st0 (log @ taken api e (request_message api trace rq) st st') st'"
| Others: "inject_run api st0 log st \<Longrightarrow> inject_run api st0 log (st\<lparr>is_queue := q\<rparr>)"

lemma inject_run_logged: "inject_run api st0 log st \<Longrightarrow> committed_logged [] st0 \<Longrightarrow> committed_logged log st"
  by (induction rule: inject_run.induct) (simp_all add: handle_answer)


text \<open>The identifier of a message is made from the principal and the key alone.\<close>
lemma build_message_id: "build_message api pr key rq = Inr (m, h) \<Longrightarrow> m_id m = inject_id api pr key"
  by (auto simp: build_message_def inject_message_def new_message_def split: sum.splits if_splits option.splits)


text \<open>A handler with one principal, and a request to it\<close>
definition http_queue_env :: env where
  "http_queue_env = \<lparr>now = 100, io_fails = (\<lambda>_ _ _. False), json_len = (\<lambda>_. Some 10), free_bytes = Some 1000\<rparr>"

definition http_store :: store where
  "http_store = \<lparr>limits = \<lparr>max_messages = 0, max_bytes = 0, min_free_bytes = 0, low_percent = 0\<rparr>, paused = False, files = (\<lambda>_. [])\<rparr>"

definition http_principal :: principal where "http_principal = no_principal\<lparr>pr_username := ''a@b.jp''\<rparr>"

definition http_api :: "(env, store) inject_api" where
  "http_api = \<lparr>ia_queue = local_backend, ia_password = None,
     ia_bearer = Some (\<lambda>_ _ token. \<lparr>au_principal = http_principal, au_success = (token = ''t''), au_reason = []\<rparr>),
     ia_limits = \<lparr>sl_max_connections = 0, sl_max_connections_per_ip = 0, sl_max_recipients = 0, sl_max_messages = 0, sl_max_bytes = 0,
        sl_max_auth_failures = 0, sl_max_rcpt_failures = 0, sl_idle_timeout = 0, sl_max_lifetime = 0\<rparr>,
     ia_max_bytes = 1000, ia_sender_identity = True, ia_ttl = hour, ia_rate = 60, ia_sha = (\<lambda>_. ''5a''), ia_canonical = (\<lambda>_ _ data. data),
     ia_author = (\<lambda>_. Some ''a@b.jp'')\<rparr>"

definition http_env :: inject_env where
  "http_env = \<lparr>iv_now = (\<lambda>_. 0), iv_read_fails = (\<lambda>_. False), iv_remove_fails = False, iv_write = (\<lambda>_. Written)\<rparr>"

definition http_post :: http_request where
  "http_post = \<lparr>hq_method = ''POST'', hq_content_type = ''application/json; charset=utf-8'', hq_authorization = ''Bearer t'', hq_user = ''a@b.jp'',
     hq_key = ''k1'', hq_body = Some \<lparr>ir_from = ''a@b.jp'', ir_recipients = [''u@v.jp''], ir_raw = ''From: a@b.jp'' @ [LF, LF] @ ''hi''\<rparr>, hq_number = 0\<rparr>"

definition http_start :: "store inject_state" where
  "http_start = \<lparr>is_windows = no_windows, is_files = Map.empty, is_queue = http_store\<rparr>"

lemma http_eval: "snd (handle_inject http_api http_env http_queue_env ([], []) http_post http_start) = HttpAccepted ''http-5a''"
  by code_simp

text \<open>The request is sent twice, and in between the queue is emptied: the second one is answered as a repetition of the first.\<close>
definition http_after :: "store inject_state" where
  "http_after = fst (handle_inject http_api http_env http_queue_env ([], []) http_post http_start)"

definition http_emptied :: "store inject_state" where
  "http_emptied = http_after\<lparr>is_queue := http_store\<rparr>"

lemma http_replay: "snd (handle_inject http_api http_env http_queue_env ([], []) http_post http_emptied) = HttpReplayed ''http-5a''"
  by code_simp


text \<open>An expired record, and a queue that has sent its message\<close>
definition http_sent :: "store inject_state" where
  "http_sent = http_start\<lparr>is_files := [''5a'' \<mapsto> IdemRecord \<lparr>id_principal = ''a@b.jp'', id_key = ''k1'', id_hash = ''x'', id_message = ''http-5a'',
       id_committed = True, id_expires = -1\<rparr>],
     is_queue := http_store\<lparr>files := (\<lambda>_. [])(Sent := [(''http-5a.json'', JsonMsg (new_message ''http-5a''))])\<rparr>\<rparr>"

lemma http_sent_state:
  "message_state http_queue_env (is_queue http_sent) ''http-5a'' = Inr StSent \<and> trim_space ''http-5a'' \<noteq> []"
  by code_simp


end
