(* ===== verification/Dkim.thy ===== *)
theory Dkim
  imports Mail_Policy
begin

text \<open>
  DKIM: the verification of signatures (\<^verbatim>\<open>internal/mailauth/dkim.go\<close>) and their creation (\<^verbatim>\<open>internal/dkim/signer.go\<close>).
  The hash function, the signature schemes and the formats of keys are those of the library \<^verbatim>\<open>crypto\<close> and parameters of
  the definitions, as are the resolver and the file with the key.
\<close>

unbundle bit_operations_syntax

section \<open>Cryptography\<close>

datatype pub_key = PubRsa string | PubEd string | PubOther string
datatype priv_key = PrivRsa string | PrivEd string | PrivOther string

text \<open>\<^verbatim>\<open>sha256.Sum256\<close>, \<^verbatim>\<open>x509.ParsePKIXPublicKey\<close>, \<^verbatim>\<open>ParsePKCS1PublicKey\<close>, \<^verbatim>\<open>rsa.VerifyPKCS1v15\<close>, \<^verbatim>\<open>ed25519.Verify\<close>, \<^verbatim>\<open>crypto.Signer\<close>, and
  \<^verbatim>\<open>pem.Decode\<close> with the parsers of private keys\<close>
record crypto =
  cr_sha :: "string \<Rightarrow> string"
  cr_pkix :: "string \<Rightarrow> pub_key option"
  cr_pkcs1_public :: "string \<Rightarrow> string option"
  cr_marshal :: "pub_key \<Rightarrow> string option"
  cr_verify_rsa :: "string \<Rightarrow> string \<Rightarrow> string \<Rightarrow> bool"
  cr_verify_ed :: "string \<Rightarrow> string \<Rightarrow> string \<Rightarrow> bool"
  cr_public :: "priv_key \<Rightarrow> pub_key"
  cr_sign :: "priv_key \<Rightarrow> string \<Rightarrow> string option"
  cr_pem :: "string \<Rightarrow> (string \<times> string) option"
  cr_pkcs1 :: "string \<Rightarrow> priv_key option"
  cr_pkcs8 :: "string \<Rightarrow> priv_key option"

text \<open>\<^verbatim>\<open>equalBytes\<close>\<close>
definition equal_bytes :: "string \<Rightarrow> string \<Rightarrow> bool" where
  "equal_bytes a b \<longleftrightarrow>
     length a = length b \<and>
     foldl (\<lambda>(x :: 8 word) (c, d). x OR (word_of_nat (of_char c) XOR word_of_nat (of_char d))) 0 (zip a b) = 0"

section \<open>Canonical forms\<close>

text \<open>\<^verbatim>\<open>collapseWSP\<close>, \<^verbatim>\<open>canonHeader\<close>\<close>
definition collapse_wsp :: "string \<Rightarrow> string" where
  "collapse_wsp s = join '' '' (split_fields s)"

definition canon_header :: "string \<Rightarrow> string \<Rightarrow> string \<Rightarrow> string" where
  "canon_header name val mode =
     (if mode = ''relaxed'' then to_lower (trim_space name) @ '':'' @ collapse_wsp (trim_space val) @ crlf
      else name @ '':'' @ val @ crlf)"

text \<open>\<^verbatim>\<open>parseCanon\<close>\<close>
definition parse_canon :: "string \<Rightarrow> string \<times> string" where
  "parse_canon c =
     (if c = [] then (''simple'', ''simple'')
      else (case split_2 CHR ''/'' (to_lower c) of (h, None) \<Rightarrow> (h, ''simple'') | (h, Some b) \<Rightarrow> (h, b)))"

abbreviation is_wsp :: "char \<Rightarrow> bool" where "is_wsp c \<equiv> c = CHR '' '' \<or> c = CHR 9"

text \<open>The empty lines at the end\<close>
definition drop_empty_end :: "string list \<Rightarrow> string list" where
  "drop_empty_end ls = rev (dropWhile (\<lambda>l. l = []) (rev ls))"

text \<open>\<^verbatim>\<open>canonicalizeBodyWithLength\<close>\<close>
definition canon_line :: "string \<Rightarrow> string \<Rightarrow> string" where
  "canon_line mode l =
     (let x = trim_suffix l [CHR 0x0D] in if mode = ''relaxed'' then collapse_wsp (trim_right is_wsp x) else x)"

definition canonical_body :: "string \<Rightarrow> string \<Rightarrow> string \<Rightarrow> string + string" where
  "canonical_body body mode len =
     (let ls = drop_empty_end (map (canon_line mode) (split_lines (crlf_to_lf body))) in
      if ls = [] then Inr crlf
      else (let out = join crlf ls @ crlf in
            if trim_space len = [] then Inr out
            else (case parse_int64 (trim_space len) of
                    None \<Rightarrow> Inl ''invalid l tag''
                  | Some n \<Rightarrow> if n < 0 \<or> n > int (length out) then Inl ''invalid l tag'' else Inr (take (nat n) out))))"

section \<open>Signed data\<close>

text \<open>\<^verbatim>\<open>findHeaderFromBottom\<close>: the last unused field of a name among the first \<open>n\<close>\<close>
fun find_from_bottom :: "string list \<Rightarrow> bool list \<Rightarrow> string \<Rightarrow> nat \<Rightarrow> nat option" where
  "find_from_bottom names used name 0 = None"
| "find_from_bottom names used name (Suc i) =
     (if used ! i then find_from_bottom names used name i
      else if equal_fold (names ! i) name then Some i
      else find_from_bottom names used name i)"

text \<open>The loop of \<^verbatim>\<open>buildSignedData\<close> over the names of the tag \<^verbatim>\<open>h\<close>\<close>
fun signed_fields :: "header list \<Rightarrow> string \<Rightarrow> bool list \<Rightarrow> string list \<Rightarrow> string" where
  "signed_fields hs canon used [] = []"
| "signed_fields hs canon used (n # ns) =
     (let hn = trim_space n in
      if hn = [] then signed_fields hs canon used ns
      else (case find_from_bottom (map hd_name hs) used hn (length hs) of
              None \<Rightarrow> signed_fields hs canon used ns
            | Some i \<Rightarrow> canon_header (hd_name (hs ! i)) (hd_value (hs ! i)) canon @ signed_fields hs canon (used[i := True]) ns))"

text \<open>\<^verbatim>\<open>stripBTag\<close>, \<^verbatim>\<open>compactBTag\<close>\<close>
definition strip_b_tag :: "string \<Rightarrow> string" where
  "strip_b_tag sig =
     trim_space (join '';'' (map (\<lambda>p. if has_prefix (to_lower (trim_space p)) ''b='' then '' b='' else p) (split_on CHR '';'' sig)))"

definition compact_b_tag :: "string \<Rightarrow> string" where
  "compact_b_tag v = join [] (split_fields v)"

text \<open>\<^verbatim>\<open>buildSignedData\<close>; its error for an empty list of names cannot happen, as \<^verbatim>\<open>strings.Split\<close> returns one part at least.\<close>
definition build_signed_data :: "header list \<Rightarrow> string \<Rightarrow> string \<Rightarrow> string \<Rightarrow> string \<Rightarrow> string" where
  "build_signed_data hs h_tag sig canon field =
     signed_fields hs canon (replicate (length hs) False) (split_on CHR '':'' (to_lower h_tag)) @
     trim_suffix (canon_header field (strip_b_tag sig) canon) crlf"

section \<open>Keys\<close>

text \<open>\<^verbatim>\<open>dkimLookupError\<close>: the result of a signature and the reason\<close>
type_synonym dkim_error = "string \<times> string"

text \<open>\<^verbatim>\<open>lookupDKIMKey\<close>; an error of the resolver is a temporary one.\<close>
definition published_key :: "crypto \<Rightarrow> string list \<Rightarrow> dkim_error + pub_key" where
  "published_key cr txt =
     (let tags = parse_tag_list (concat txt); p = tags ''p''; k = to_lower (tags ''k'') in
      if p = [] then Inl (''permerror'', ''missing p tag'')
      else (case b64_decode False (trim_space p) of
        None \<Rightarrow> Inl (''permerror'', ''invalid p tag'')
      | Some der \<Rightarrow>
          if k = ''ed25519'' then
            (if length der \<noteq> 32 then Inl (''permerror'', ''invalid Ed25519 public key length'') else Inr (PubEd der))
          else if k = [] \<or> k = ''rsa'' then
            (case cr_pkix cr der of
               None \<Rightarrow> Inl (''permerror'', ''invalid public key'')
             | Some (PubRsa x) \<Rightarrow> Inr (PubRsa x)
             | Some _ \<Rightarrow> Inl (''permerror'', ''non-rsa dkim key''))
          else Inl (''permerror'', ''unsupported key type'')))"

definition lookup_dkim_key :: "crypto \<Rightarrow> (string \<Rightarrow> string + string list) \<Rightarrow> string \<Rightarrow> string \<Rightarrow> dkim_error + pub_key" where
  "lookup_dkim_key cr txt domain selector =
     (case txt (selector @ ''._domainkey.'' @ domain) of Inl e \<Rightarrow> Inl (''temperror'', e) | Inr records \<Rightarrow> published_key cr records)"

text \<open>\<^verbatim>\<open>supportedSignatureAlgorithm\<close>, \<^verbatim>\<open>verifySHA256Signature\<close>\<close>
definition supported_algorithm :: "string \<Rightarrow> bool" where
  "supported_algorithm a \<longleftrightarrow> a = ''rsa-sha256'' \<or> a = ''ed25519-sha256''"

definition verify_signature :: "crypto \<Rightarrow> pub_key \<Rightarrow> string \<Rightarrow> string \<Rightarrow> string \<Rightarrow> dkim_error option" where
  "verify_signature cr pub algo hash sig =
     (case pub of
        PubRsa k \<Rightarrow> if algo = ''rsa-sha256'' then (if cr_verify_rsa cr k hash sig then None else Some (''fail'', ''signature verify failed''))
                    else Some (''permerror'', ''key type does not match signature algorithm'')
      | PubEd k \<Rightarrow> if algo = ''ed25519-sha256'' then (if cr_verify_ed cr k hash sig then None else Some (''fail'', ''signature verify failed''))
                   else Some (''permerror'', ''key type does not match signature algorithm'')
      | PubOther _ \<Rightarrow> Some (''permerror'', ''key type does not match signature algorithm''))"

section \<open>Verification\<close>

text \<open>\<^verbatim>\<open>validateDKIMTimeTags\<close>, with the time in seconds\<close>
definition check_expiry :: "int option \<Rightarrow> string \<Rightarrow> int \<Rightarrow> string option" where
  "check_expiry t x now =
     (if x = [] then None
      else (case parse_int64 x of
              None \<Rightarrow> Some ''invalid x tag''
            | Some n \<Rightarrow> if n < 0 then Some ''invalid x tag''
                        else if (case t of None \<Rightarrow> False | Some s \<Rightarrow> n < s) then Some ''x tag is earlier than t tag''
                        else if now > n then Some ''signature expired'' else None))"

definition check_times :: "(string \<Rightarrow> string) \<Rightarrow> int \<Rightarrow> string option" where
  "check_times tags now =
     (let t = trim_space (tags ''t''); x = trim_space (tags ''x'') in
      if t = [] then check_expiry None x now
      else (case parse_int64 t of
              None \<Rightarrow> Some ''invalid t tag''
            | Some n \<Rightarrow> if n < 0 then Some ''invalid t tag'' else check_expiry (Some n) x now))"

text \<open>The checks of \<^verbatim>\<open>verifyDKIMSig\<close> on the tags\<close>
definition signature_tags :: "(string \<Rightarrow> string) \<Rightarrow> int \<Rightarrow> string option" where
  "signature_tags tags now =
     (if tags ''v'' \<noteq> ''1'' \<or> tags ''d'' = [] \<or> tags ''s'' = [] \<or> \<not> supported_algorithm (to_lower (tags ''a'')) then Some ''unsupported signature parameters''
      else if trim_space (tags ''h'') = [] then Some ''missing h tag''
      else if trim_space (tags ''bh'') = [] then Some ''missing bh tag''
      else if trim_space (tags ''b'') = [] then Some ''missing b tag''
      else check_times tags now)"

text \<open>The comparison with the tag \<^verbatim>\<open>bh\<close>\<close>
definition body_hash_error :: "crypto \<Rightarrow> (string \<Rightarrow> string) \<Rightarrow> string \<Rightarrow> dkim_error option" where
  "body_hash_error cr tags body =
     (case canonical_body body (snd (parse_canon (tags ''c''))) (tags ''l'') of
        Inl e \<Rightarrow> Some (''permerror'', e)
      | Inr canon \<Rightarrow>
          (case b64_decode False (trim_space (tags ''bh'')) of
             None \<Rightarrow> Some (''fail'', ''body hash mismatch'')
           | Some want \<Rightarrow> if equal_bytes (cr_sha cr canon) want then None else Some (''fail'', ''body hash mismatch'')))"

text \<open>The key, the tag \<^verbatim>\<open>b\<close> and the signature of the data\<close>
definition key_error :: "crypto \<Rightarrow> (string \<Rightarrow> string + string list) \<Rightarrow> (string \<Rightarrow> string) \<Rightarrow> string \<Rightarrow> dkim_error option" where
  "key_error cr txt tags data =
     (case lookup_dkim_key cr txt (to_lower (tags ''d'')) (tags ''s'') of
        Inl e \<Rightarrow> Some e
      | Inr pub \<Rightarrow>
          (case b64_decode False (compact_b_tag (tags ''b'')) of
             None \<Rightarrow> Some (''permerror'', ''invalid b tag'')
           | Some sig \<Rightarrow> verify_signature cr pub (to_lower (tags ''a'')) (cr_sha cr data) sig))"

definition signature_error :: "crypto \<Rightarrow> (string \<Rightarrow> string + string list) \<Rightarrow> int \<Rightarrow> header list \<Rightarrow> string \<Rightarrow> string \<Rightarrow> dkim_error option" where
  "signature_error cr txt now hs body sig =
     (let tags = parse_tag_list sig in
      case signature_tags tags now of
        Some e \<Rightarrow> Some (''permerror'', e)
      | None \<Rightarrow>
          (case body_hash_error cr tags body of
             Some e \<Rightarrow> Some e
           | None \<Rightarrow> key_error cr txt tags (build_signed_data hs (tags ''h'') sig (fst (parse_canon (tags ''c''))) ''DKIM-Signature'')))"

text \<open>\<^verbatim>\<open>verifyDKIMSig\<close>\<close>
definition verify_dkim_sig :: "crypto \<Rightarrow> (string \<Rightarrow> string + string list) \<Rightarrow> int \<Rightarrow> header list \<Rightarrow> string \<Rightarrow> string \<Rightarrow> dkim_sig" where
  "verify_dkim_sig cr txt now hs body sig =
     (let r = (case signature_error cr txt now hs body sig of None \<Rightarrow> (''pass'', []) | Some e \<Rightarrow> e) in
      \<lparr>dk_domain = to_lower (parse_tag_list sig ''d''), dk_selector = parse_tag_list sig ''s'', dk_result = fst r, dk_reason = snd r\<rparr>)"

text \<open>\<^verbatim>\<open>aggregateDKIMResults\<close>\<close>
definition aggregate_dkim :: "dkim_sig list \<Rightarrow> string" where
  "aggregate_dkim rs =
     (let results = map (\<lambda>r. to_lower (trim_space (dk_result r))) rs in
      if rs = [] then ''none''
      else if ''pass'' \<in> set results then ''pass''
      else if ''temperror'' \<in> set results then ''temperror''
      else if ''permerror'' \<in> set results then ''permerror''
      else if ''none'' \<in> set results then ''none'' else ''fail'')"

text \<open>\<^verbatim>\<open>HeaderValues\<close>, \<^verbatim>\<open>EvalDKIM\<close>; every signature is checked at its own time.\<close>
definition header_values :: "header list \<Rightarrow> string \<Rightarrow> string list" where
  "header_values hs name = map hd_value (filter (\<lambda>h. to_lower (hd_name h) = to_lower name) hs)"

definition eval_dkim :: "crypto \<Rightarrow> (string \<Rightarrow> string + string list) \<Rightarrow> (nat \<Rightarrow> int) \<Rightarrow> header list \<Rightarrow> string \<Rightarrow> dkim_result" where
  "eval_dkim cr txt now hs body =
     (let sigs = header_values hs ''DKIM-Signature'';
          rs = map (\<lambda>(i, sig). verify_dkim_sig cr txt (now i) hs body sig) (enumerate 0 sigs)
      in if sigs = [] then \<lparr>dr_result = ''none'', dr_sigs = []\<rparr> else \<lparr>dr_result = aggregate_dkim rs, dr_sigs = rs\<rparr>)"

section \<open>Signing\<close>

record raw_header =
  rh_name :: string
  rh_value :: string

text \<open>\<^verbatim>\<open>parseRawHeaders\<close>, the loop with the current name and value\<close>
definition raw_flushed :: "string \<Rightarrow> string \<Rightarrow> raw_header list" where
  "raw_flushed name val = (if name = [] then [] else [\<lparr>rh_name = name, rh_value = val\<rparr>])"

fun raw_loop :: "string \<Rightarrow> string \<Rightarrow> string list \<Rightarrow> raw_header list" where
  "raw_loop name val [] = raw_flushed name val"
| "raw_loop name val (l # ls) =
     (if l = [] then raw_loop name val ls
      else if hd l = CHR '' '' \<or> hd l = CHR 9 then raw_loop name (if name = [] then val else val @ CHR '' '' # trim_left is_wsp l) ls
      else (let val' = (if name = [] then val else []) in
            raw_flushed name val @
            (case index_byte l CHR '':'' of
               Some (Suc i) \<Rightarrow> raw_loop (trim_space (take (Suc i) l)) (val' @ trim_space (drop (Suc (Suc i)) l)) ls
             | _ \<Rightarrow> raw_loop [] val' ls)))"

definition parse_raw_headers :: "string \<Rightarrow> raw_header list" where
  "parse_raw_headers part = raw_loop [] [] (split_on LF (crlf_to_lf part))"

text \<open>\<^verbatim>\<open>canonHeaderRelaxed\<close>, \<^verbatim>\<open>buildSignedHeaders\<close>\<close>
definition canon_header_relaxed :: "string \<Rightarrow> string \<Rightarrow> string" where
  "canon_header_relaxed name val = to_lower (trim_space name) @ '':'' @ collapse_wsp (trim_space val) @ crlf"

fun build_signed_headers :: "raw_header list \<Rightarrow> bool list \<Rightarrow> string list \<Rightarrow> string list \<times> string" where
  "build_signed_headers hs used [] = ([], [])"
| "build_signed_headers hs used (n # ns) =
     (let target = to_lower (trim_space n) in
      if target = [] then build_signed_headers hs used ns
      else (case find_from_bottom (map rh_name hs) used target (length hs) of
              None \<Rightarrow> build_signed_headers hs used ns
            | Some i \<Rightarrow> (case build_signed_headers hs (used[i := True]) ns of
                (names, text) \<Rightarrow> (target # names, canon_header_relaxed (rh_name (hs ! i)) (rh_value (hs ! i)) @ text))))"

text \<open>\<^verbatim>\<open>bodyHash\<close>\<close>
definition signer_body :: "string \<Rightarrow> string" where
  "signer_body body =
     (let ls = drop_empty_end (map (\<lambda>l. collapse_wsp (trim_right is_wsp l)) (split_on LF (crlf_to_lf body))) in
      if ls = [] then crlf else join crlf ls @ crlf)"

definition body_hash :: "crypto \<Rightarrow> string \<Rightarrow> string" where
  "body_hash cr body = b64_encode (cr_sha cr (signer_body body))"

text \<open>\<^verbatim>\<open>parseHeaderList\<close>\<close>
definition parse_header_list :: "string \<Rightarrow> string list" where
  "parse_header_list v =
     (if trim_space v = [] then []
      else filter (\<lambda>x. x \<noteq> []) (map (\<lambda>p. to_lower (trim_space p)) (split_on CHR '':'' (trim_space v))))"

text \<open>\<^verbatim>\<open>signatureAlgorithm\<close>, \<^verbatim>\<open>signSHA256\<close>\<close>
definition signature_algorithm :: "priv_key \<Rightarrow> string" where
  "signature_algorithm key = (case key of PrivEd _ \<Rightarrow> ''ed25519-sha256'' | _ \<Rightarrow> ''rsa-sha256'')"

definition sign_sha256 :: "crypto \<Rightarrow> priv_key \<Rightarrow> string \<Rightarrow> string option" where
  "sign_sha256 cr key data = map_option b64_encode (cr_sign cr key (cr_sha cr data))"

text \<open>\<^verbatim>\<open>loadPrivateKey\<close> on what the file contains, \<open>None\<close> when it cannot be read\<close>
definition load_private_key :: "crypto \<Rightarrow> string option \<Rightarrow> string + priv_key" where
  "load_private_key cr content =
     (case content of
        None \<Rightarrow> Inl ''cannot read key''
      | Some b \<Rightarrow>
          (case cr_pem cr b of
             None \<Rightarrow> Inl ''invalid pem private key''
           | Some (kind, der) \<Rightarrow>
               if kind = ''RSA PRIVATE KEY'' then (case cr_pkcs1 cr der of None \<Rightarrow> Inl ''invalid key'' | Some k \<Rightarrow> Inr k)
               else if kind = ''PRIVATE KEY'' then
                 (case cr_pkcs8 cr der of
                    None \<Rightarrow> Inl ''invalid key''
                  | Some (PrivOther _) \<Rightarrow> Inl ''private key must be RSA or Ed25519''
                  | Some k \<Rightarrow> Inr k)
               else Inl (''unsupported private key type: '' @ kind)))"

record file_signer =
  fs_fixed :: bool
  fs_domain :: string
  fs_selector :: string
  fs_headers :: "string list"
  fs_mtime :: time
  fs_key :: "priv_key option"

text \<open>The file with the key at one moment: when it was changed, and what it contains; \<open>None\<close> for an error\<close>
record key_file =
  kf_mtime :: "time option"
  kf_content :: "string option"

text \<open>\<^verbatim>\<open>reloadIfNeeded\<close>\<close>
definition reload_if_needed :: "crypto \<Rightarrow> key_file \<Rightarrow> file_signer \<Rightarrow> file_signer \<times> string option" where
  "reload_if_needed cr kf s =
     (if fs_fixed s then (s, None)
      else (case kf_mtime kf of
        None \<Rightarrow> (s, Some ''cannot stat key'')
      | Some t \<Rightarrow>
          if \<not> (fs_key s = None \<or> t > fs_mtime s) then (s, None)
          else (case load_private_key cr (kf_content kf) of
                  Inl e \<Rightarrow> (s, Some e)
                | Inr k \<Rightarrow> (s\<lparr>fs_key := Some k, fs_mtime := t\<rparr>, None))))"

abbreviation default_signed :: "string list" where
  "default_signed \<equiv> [''from'', ''to'', ''subject'', ''date'', ''message-id'']"

text \<open>\<^verbatim>\<open>NewFileSigner\<close>\<close>
definition new_file_signer :: "crypto \<Rightarrow> key_file \<Rightarrow> string \<Rightarrow> string \<Rightarrow> string \<Rightarrow> string \<Rightarrow> string + file_signer" where
  "new_file_signer cr kf domain selector path headers =
     (let d = to_lower (trim_space domain); s = trim_space selector; h = parse_header_list headers in
      if d = [] \<or> s = [] \<or> trim_space path = [] then Inl ''dkim signer requires domain, selector, and private key file''
      else (case reload_if_needed cr kf \<lparr>fs_fixed = False, fs_domain = d, fs_selector = s, fs_headers = (if h = [] then default_signed else h),
                   fs_mtime = zero_time, fs_key = None\<rparr> of
              (signer, None) \<Rightarrow> Inr signer
            | (_, Some e) \<Rightarrow> Inl e))"

text \<open>The value of the signature field without the signature\<close>
definition signature_base :: "crypto \<Rightarrow> file_signer \<Rightarrow> priv_key \<Rightarrow> int \<Rightarrow> string list \<Rightarrow> string \<Rightarrow> string" where
  "signature_base cr s key t names body =
     ''v=1; a='' @ signature_algorithm key @ ''; c=relaxed/relaxed; d='' @ fs_domain s @ ''; s='' @ fs_selector s @ ''; t='' @ show_int t @
     ''; h='' @ join '':'' names @ ''; bh='' @ body_hash cr body @ ''; b=''"

text \<open>\<^verbatim>\<open>FileSigner.Sign\<close> after the key was loaded\<close>
definition sign_with_key :: "crypto \<Rightarrow> file_signer \<Rightarrow> priv_key \<Rightarrow> int \<Rightarrow> string \<Rightarrow> string + string" where
  "sign_with_key cr s key t raw =
     (case split_message raw of
        None \<Rightarrow> Inl ''invalid message format''
      | Some (head, body) \<Rightarrow>
          (let hs = parse_raw_headers head in
           if hs = [] then Inl ''missing headers''
           else (case build_signed_headers hs (replicate (length hs) False) (fs_headers s) of (names, canon) \<Rightarrow>
             if names = [] then Inl ''no headers available for dkim signing''
             else (let base = signature_base cr s key t names body;
                       data = canon @ trim_suffix (canon_header_relaxed ''DKIM-Signature'' base) crlf
                   in case sign_sha256 cr key data of
                        None \<Rightarrow> Inl ''signing failed''
                      | Some sig \<Rightarrow> Inr (''DKIM-Signature: '' @ base @ sig @ crlf @ head @ crlf @ crlf @ body)))))"

definition dkim_sign :: "crypto \<Rightarrow> key_file \<Rightarrow> int \<Rightarrow> file_signer \<Rightarrow> string \<Rightarrow> file_signer \<times> (string + string)" where
  "dkim_sign cr kf t s raw =
     (case reload_if_needed cr kf s of
        (s', Some e) \<Rightarrow> (s', Inl e)
      | (s', None) \<Rightarrow> (s', case fs_key s' of None \<Rightarrow> Inl ''no key'' | Some key \<Rightarrow> sign_with_key cr s' key t raw))"

end
