(* ===== verification/Arc.thy ===== *)
theory Arc
  imports Dkim
begin

text \<open>
  ARC chains: their verification (\<^verbatim>\<open>internal/mailauth/arc.go\<close>), the seals the agent adds (\<^verbatim>\<open>internal/dkim/arc_signer.go\<close>) and the
  signer of the delivery client, which verifies before it seals (\<^verbatim>\<open>internal/delivery/arc_signer.go\<close>).
\<close>

section \<open>Verification\<close>

text \<open>\<^verbatim>\<open>strconv.Atoi\<close> on 64 bits\<close>
abbreviation atoi :: "string \<Rightarrow> int option" where "atoi \<equiv> parse_int64"

text \<open>\<^verbatim>\<open>buildARCInstanceMap\<close>: the loop over the values, then the check for gaps\<close>
fun instance_loop :: "string list \<Rightarrow> (int \<rightharpoonup> string) \<Rightarrow> string + (int \<rightharpoonup> string)" where
  "instance_loop [] m = Inr m"
| "instance_loop (v # vs) m =
     (case atoi (trim_space (parse_tag_list v ''i'')) of
        None \<Rightarrow> Inl ''invalid i tag''
      | Some i \<Rightarrow>
          if i \<le> 0 then Inl ''invalid i tag''
          else if m i \<noteq> None then Inl (''duplicate i='' @ show_int i)
          else instance_loop vs (m(i \<mapsto> v)))"

definition instance_map :: "string list \<Rightarrow> string + (int \<rightharpoonup> string)" where
  "instance_map vs =
     (case instance_loop vs Map.empty of
        Inl e \<Rightarrow> Inl e
      | Inr m \<Rightarrow> (case List.find (\<lambda>i. m (int i) = None) [1..<length vs + 1] of
                    Some i \<Rightarrow> Inl (''missing i='' @ show_nat i)
                  | None \<Rightarrow> Inr m))"

text \<open>\<^verbatim>\<open>validSealCV\<close>, \<^verbatim>\<open>headerByInstance\<close>; what cannot be read as a number counts as zero.\<close>
definition valid_seal_cv :: "string \<Rightarrow> int \<Rightarrow> bool" where
  "valid_seal_cv cv i \<longleftrightarrow> (if i \<le> 1 then cv = ''none'' else cv = ''pass'' \<or> cv = ''fail'')"

definition tag_instance :: "string \<Rightarrow> int" where
  "tag_instance v = (case atoi (parse_tag_list v ''i'') of None \<Rightarrow> 0 | Some i \<Rightarrow> i)"

definition header_by_instance :: "header list \<Rightarrow> string \<Rightarrow> int \<Rightarrow> string option" where
  "header_by_instance hs name want =
     map_option hd_value (List.find (\<lambda>h. equal_fold (hd_name h) name \<and> tag_instance (hd_value h) = want) hs)"

text \<open>\<^verbatim>\<open>buildARCSealSignedData\<close>: the sets from \<open>i\<close> on\<close>
fun seal_sets :: "header list \<Rightarrow> int \<Rightarrow> nat \<Rightarrow> int \<Rightarrow> string + string" where
  "seal_sets hs upto_i 0 i = Inr []"
| "seal_sets hs upto_i (Suc n) i =
     (case header_by_instance hs ''ARC-Authentication-Results'' i of
        None \<Rightarrow> Inl (''missing arc-authentication-results i='' @ show_int i)
      | Some aar \<Rightarrow> (case header_by_instance hs ''ARC-Message-Signature'' i of
          None \<Rightarrow> Inl (''missing arc-message-signature i='' @ show_int i)
        | Some ams \<Rightarrow> (case header_by_instance hs ''ARC-Seal'' i of
            None \<Rightarrow> Inl (''missing arc-seal i='' @ show_int i)
          | Some seal \<Rightarrow>
              (case seal_sets hs upto_i n (i + 1) of
                 Inl e \<Rightarrow> Inl e
               | Inr rest \<Rightarrow>
                   Inr (canon_header ''ARC-Authentication-Results'' aar ''relaxed'' @ canon_header ''ARC-Message-Signature'' ams ''relaxed'' @
                        canon_header ''ARC-Seal'' (if i = upto_i then strip_b_tag seal else seal) ''relaxed'' @ rest)))))"

definition seal_data :: "header list \<Rightarrow> int \<Rightarrow> string + string" where
  "seal_data hs upto_i =
     (if upto_i \<le> 0 then Inl ''invalid instance''
      else (let start = (case header_by_instance hs ''ARC-Seal'' upto_i of
                           Some seal \<Rightarrow> if parse_tag_list seal ''cv'' = ''fail'' then upto_i else 1
                         | None \<Rightarrow> 1)
            in case seal_sets hs upto_i (nat (upto_i - start + 1)) start of Inl e \<Rightarrow> Inl e | Inr d \<Rightarrow> Inr (trim_suffix d crlf)))"

text \<open>The end of \<^verbatim>\<open>verifyARCMessageSignature\<close> and \<^verbatim>\<open>verifyARCSeal\<close>: the key and the signature, and what is reported\<close>
definition arc_key_error :: "crypto \<Rightarrow> (string \<Rightarrow> string + string list) \<Rightarrow> (string \<Rightarrow> string) \<Rightarrow> string \<Rightarrow> string \<Rightarrow> string option" where
  "arc_key_error cr txt tags data reason =
     (case lookup_dkim_key cr txt (to_lower (tags ''d'')) (tags ''s'') of
        Inl e \<Rightarrow> Some (snd e)
      | Inr pub \<Rightarrow>
          (case b64_decode False (compact_b_tag (tags ''b'')) of
             None \<Rightarrow> Some ''invalid b tag''
           | Some sig \<Rightarrow> if verify_signature cr pub (to_lower (tags ''a'')) (cr_sha cr data) sig = None then None else Some reason))"

definition key_parameters :: "(string \<Rightarrow> string) \<Rightarrow> bool" where
  "key_parameters tags \<longleftrightarrow> tags ''i'' \<noteq> [] \<and> tags ''d'' \<noteq> [] \<and> tags ''s'' \<noteq> [] \<and> supported_algorithm (to_lower (tags ''a''))"

text \<open>\<^verbatim>\<open>verifyARCMessageSignature\<close>\<close>
definition arc_message_error :: "crypto \<Rightarrow> (string \<Rightarrow> string + string list) \<Rightarrow> header list \<Rightarrow> string \<Rightarrow> string \<Rightarrow> string option" where
  "arc_message_error cr txt hs body sig =
     (let tags = parse_tag_list sig in
      if \<not> key_parameters tags then Some ''unsupported signature parameters''
      else if trim_space (tags ''h'') = [] \<or> trim_space (tags ''bh'') = [] then Some ''missing h/bh tag''
      else (case body_hash_error cr tags body of
        Some e \<Rightarrow> Some (snd e)
      | None \<Rightarrow> arc_key_error cr txt tags (build_signed_data hs (tags ''h'') sig (fst (parse_canon (tags ''c''))) ''ARC-Message-Signature'')
                  ''signature verify failed''))"

text \<open>\<^verbatim>\<open>verifyARCSeal\<close>\<close>
definition arc_seal_error :: "crypto \<Rightarrow> (string \<Rightarrow> string + string list) \<Rightarrow> header list \<Rightarrow> string \<Rightarrow> int \<Rightarrow> string option" where
  "arc_seal_error cr txt hs seal i =
     (let tags = parse_tag_list seal in
      if atoi (trim_space (tags ''i'')) \<noteq> Some i then Some ''invalid i tag''
      else if \<not> key_parameters tags then Some ''unsupported seal parameters''
      else if \<not> valid_seal_cv (to_lower (trim_space (tags ''cv''))) i then Some ''invalid cv tag''
      else (case seal_data hs i of Inl e \<Rightarrow> Some e | Inr data \<Rightarrow> arc_key_error cr txt tags data ''seal verify failed''))"

definition arc_fail :: "string \<Rightarrow> arc_result" where
  "arc_fail reason = \<lparr>ar_result = ''fail'', ar_reason = reason\<rparr>"

text \<open>The loop of \<^verbatim>\<open>EvalARC\<close> over the sets \<open>i\<close> to \<open>n\<close>\<close>
definition arc_set_error :: "crypto \<Rightarrow> (string \<Rightarrow> string + string list) \<Rightarrow> header list \<Rightarrow> string \<Rightarrow> (int \<rightharpoonup> string) \<Rightarrow> (int \<rightharpoonup> string) \<Rightarrow> (int \<rightharpoonup> string) \<Rightarrow> int \<Rightarrow> int \<Rightarrow> string option" where
  "arc_set_error cr txt hs body seals msgs aars n i =
     (case (msgs i, seals i, aars i) of
        (Some ams, Some seal, Some _) \<Rightarrow>
          if to_lower (trim_space (parse_tag_list seal ''cv'')) = ''fail'' then Some (''chain reports cv=fail i='' @ show_int i)
          else (case (if i = n then arc_message_error cr txt hs body ams else None) of
            Some e \<Rightarrow> Some (''arc message signature verify failed i='' @ show_int i @ '': '' @ e)
          | None \<Rightarrow> (case arc_seal_error cr txt hs seal i of
              Some e \<Rightarrow> Some (''arc seal verify failed i='' @ show_int i @ '': '' @ e)
            | None \<Rightarrow> None))
      | _ \<Rightarrow> Some (''missing instance i='' @ show_int i))"

fun arc_loop :: "crypto \<Rightarrow> (string \<Rightarrow> string + string list) \<Rightarrow> header list \<Rightarrow> string \<Rightarrow> (int \<rightharpoonup> string) \<Rightarrow> (int \<rightharpoonup> string) \<Rightarrow> (int \<rightharpoonup> string) \<Rightarrow> int \<Rightarrow> int list \<Rightarrow> arc_result" where
  "arc_loop cr txt hs body seals msgs aars n [] = \<lparr>ar_result = ''pass'', ar_reason = ''arc chain cryptographically valid''\<rparr>"
| "arc_loop cr txt hs body seals msgs aars n (i # is) =
     (case arc_set_error cr txt hs body seals msgs aars n i of
        Some e \<Rightarrow> arc_fail e
      | None \<Rightarrow> arc_loop cr txt hs body seals msgs aars n is)"

text \<open>\<^verbatim>\<open>EvalARC\<close>\<close>
definition eval_arc :: "crypto \<Rightarrow> (string \<Rightarrow> string + string list) \<Rightarrow> header list \<Rightarrow> string \<Rightarrow> arc_result" where
  "eval_arc cr txt hs body =
     (let seals = header_values hs ''ARC-Seal''; msgs = header_values hs ''ARC-Message-Signature'';
          aars = header_values hs ''ARC-Authentication-Results''; n = length seals
      in if seals = [] \<and> msgs = [] \<and> aars = [] then \<lparr>ar_result = ''none'', ar_reason = []\<rparr>
         else if n \<noteq> length msgs \<or> n \<noteq> length aars then arc_fail ''arc set counts mismatch''
         else (case instance_map seals of
           Inl e \<Rightarrow> arc_fail (''invalid arc-seal instances: '' @ e)
         | Inr sm \<Rightarrow> (case instance_map msgs of
             Inl e \<Rightarrow> arc_fail (''invalid arc-message-signature instances: '' @ e)
           | Inr mm \<Rightarrow> (case instance_map aars of
               Inl e \<Rightarrow> arc_fail (''invalid arc-authentication-results instances: '' @ e)
             | Inr am \<Rightarrow>
                 if n > 50 then arc_fail ''arc chain exceeds 50 sets''
                 else arc_loop cr txt hs body sm mm am (int n) [1..int n]))))"

section \<open>Sealing\<close>

record arc_signer =
  as_base :: file_signer
  as_authserv :: string

text \<open>\<^verbatim>\<open>NewARCFileSigner\<close>, \<^verbatim>\<open>reloadIfNeeded\<close>\<close>
definition new_arc_signer :: "crypto \<Rightarrow> key_file \<Rightarrow> string \<Rightarrow> string \<Rightarrow> string \<Rightarrow> string \<Rightarrow> string \<Rightarrow> string + arc_signer" where
  "new_arc_signer cr kf domain selector path authserv headers =
     (let d = to_lower (trim_space domain); s = trim_space selector; a = trim_space authserv; h = parse_header_list headers in
      if d = [] \<or> s = [] \<or> trim_space path = [] then Inl ''arc signer requires domain, selector, and private key file''
      else (case reload_if_needed cr kf \<lparr>fs_fixed = False, fs_domain = d, fs_selector = s, fs_headers = (if h = [] then default_signed else h),
                   fs_mtime = zero_time, fs_key = None\<rparr> of
              (base, None) \<Rightarrow> Inr \<lparr>as_base = base, as_authserv = (if a = [] then ''kuroshio.local'' else a)\<rparr>
            | (_, Some e) \<Rightarrow> Inl e))"

definition arc_reload :: "crypto \<Rightarrow> key_file \<Rightarrow> arc_signer \<Rightarrow> arc_signer \<times> string option" where
  "arc_reload cr kf s = (case reload_if_needed cr kf (as_base s) of (b, e) \<Rightarrow> (s\<lparr>as_base := b\<rparr>, e))"

text \<open>\<^verbatim>\<open>isARCHeader\<close>, \<^verbatim>\<open>arcTag\<close>\<close>
abbreviation arc_names :: "string list" where
  "arc_names \<equiv> [''arc-authentication-results'', ''arc-message-signature'', ''arc-seal'']"

definition is_arc_header :: "string \<Rightarrow> bool" where
  "is_arc_header name \<longleftrightarrow> to_lower name \<in> set arc_names"

definition arc_tag :: "string \<Rightarrow> string \<Rightarrow> string" where
  "arc_tag val name =
     (case List.find (\<lambda>p. case split_2 CHR ''='' (trim_space p) of (k, Some v) \<Rightarrow> k = name | _ \<Rightarrow> False) (split_on CHR '';'' val) of
        None \<Rightarrow> []
      | Some p \<Rightarrow> (case split_2 CHR ''='' (trim_space p) of (_, Some v) \<Rightarrow> trim_space v | _ \<Rightarrow> []))"

record arc_chain =
  ac_max :: int
  ac_valid :: bool
  ac_stop :: bool
  ac_sets :: "int \<Rightarrow> string \<Rightarrow> raw_header option"

text \<open>\<^verbatim>\<open>inspectARCChain\<close>: the loop over the fields, which returns at once when an instance is ambiguous\<close>
fun chain_fields :: "raw_header list \<Rightarrow> arc_chain \<Rightarrow> arc_chain \<times> bool" where
  "chain_fields [] st = (st, False)"
| "chain_fields (h # hs) st =
     (if \<not> is_arc_header (rh_name h) then chain_fields hs st
      else (case atoi (arc_tag (fst (split_2 CHR '';'' (rh_value h))) ''i'') of
              None \<Rightarrow> (st\<lparr>ac_stop := True\<rparr>, True)
            | Some i \<Rightarrow>
                if i < 1 \<or> i \<ge> 50 then (st\<lparr>ac_stop := True\<rparr>, True)
                else (let name = to_lower (rh_name h) in
                      chain_fields hs (st\<lparr>ac_max := max i (ac_max st), ac_valid := (ac_valid st \<and> ac_sets st i name = None),
                        ac_sets := (ac_sets st)(i := (ac_sets st i)(name \<mapsto> h))\<rparr>))))"

text \<open>The checks of one set\<close>
definition set_seal_cv :: "arc_chain \<Rightarrow> int \<Rightarrow> string" where
  "set_seal_cv st i = arc_tag (case ac_sets st i ''arc-seal'' of None \<Rightarrow> [] | Some h \<Rightarrow> rh_value h) ''cv''"

definition set_complete :: "arc_chain \<Rightarrow> int \<Rightarrow> bool" where
  "set_complete st i \<longleftrightarrow> list_all (\<lambda>n. ac_sets st i n \<noteq> None) arc_names"

definition check_set :: "arc_chain \<Rightarrow> int \<Rightarrow> arc_chain" where
  "check_set st i =
     st\<lparr>ac_stop := (ac_stop st \<or> i = ac_max st \<and> set_seal_cv st i = ''fail''),
        ac_valid := (ac_valid st \<and> set_complete st i \<and> \<not> (i = 1 \<and> set_seal_cv st i \<noteq> ''none'' \<or> i > 1 \<and> set_seal_cv st i \<noteq> ''pass''))\<rparr>"

definition inspect_chain :: "raw_header list \<Rightarrow> arc_chain" where
  "inspect_chain hs =
     (case chain_fields hs \<lparr>ac_max = 0, ac_valid = True, ac_stop = False, ac_sets = (\<lambda>_ _. None)\<rparr> of
        (st, True) \<Rightarrow> st
      | (st, False) \<Rightarrow> foldl check_set st [1..ac_max st])"

text \<open>\<^verbatim>\<open>signedData\<close>\<close>
definition chain_data :: "arc_chain \<Rightarrow> string" where
  "chain_data st =
     concat (map (\<lambda>i. concat (map (\<lambda>n. case ac_sets st i n of None \<Rightarrow> canon_header_relaxed [] [] | Some h \<Rightarrow> canon_header_relaxed (rh_name h) (rh_value h)) arc_names))
       [1..ac_max st])"

text \<open>\<^verbatim>\<open>buildAARValue\<close>: the results of the agent itself are copied, without those for ARC.\<close>
definition own_results :: "string \<Rightarrow> raw_header \<Rightarrow> bool" where
  "own_results authserv h \<longleftrightarrow>
     equal_fold (rh_name h) ''Authentication-Results'' \<and>
     trim_space (fst (split_2 CHR '';'' (collapse_wsp (trim_space (rh_value h))))) = authserv"

definition build_aar_value :: "string \<Rightarrow> raw_header list \<Rightarrow> int \<Rightarrow> string \<Rightarrow> string" where
  "build_aar_value authserv hs i cv =
     (case List.find (own_results authserv) hs of
        None \<Rightarrow> ''i='' @ show_int i @ ''; '' @ authserv @ ''; arc='' @ cv
      | Some h \<Rightarrow>
          (let parts = map trim_space (tl (split_on CHR '';'' (collapse_wsp (trim_space (rh_value h)))));
               kept = filter (\<lambda>p. trim_space (fst (split_2 CHR ''='' p)) \<noteq> ''arc'' \<and> p \<noteq> []) parts
           in join ''; '' ([''i='' @ show_int i, authserv] @ kept @ [''arc='' @ cv])))"

text \<open>The names of the fields that the message signature covers\<close>
definition arc_wanted :: "arc_signer \<Rightarrow> raw_header list \<Rightarrow> string list" where
  "arc_wanted s hs =
     filter (\<lambda>n. n \<noteq> ''authentication-results'' \<and> \<not> is_arc_header n) (fs_headers (as_base s)) @
     map (\<lambda>_. ''dkim-signature'') (filter (\<lambda>h. equal_fold (rh_name h) ''DKIM-Signature'') hs)"

definition ams_base :: "crypto \<Rightarrow> file_signer \<Rightarrow> priv_key \<Rightarrow> int \<Rightarrow> int \<Rightarrow> string list \<Rightarrow> string \<Rightarrow> string" where
  "ams_base cr s key i t names body =
     ''i='' @ show_int i @ ''; a='' @ signature_algorithm key @ ''; c=relaxed/relaxed; d='' @ fs_domain s @ ''; s='' @ fs_selector s @ ''; t='' @ show_int t @
     ''; h='' @ join '':'' names @ ''; bh='' @ body_hash cr body @ ''; b=''"

definition seal_base :: "file_signer \<Rightarrow> priv_key \<Rightarrow> int \<Rightarrow> int \<Rightarrow> string \<Rightarrow> string" where
  "seal_base s key i t cv =
     ''i='' @ show_int i @ ''; cv='' @ cv @ ''; a='' @ signature_algorithm key @ ''; d='' @ fs_domain s @ ''; s='' @ fs_selector s @ ''; t='' @ show_int t @ ''; b=''"

text \<open>The status of the chain that the seal states\<close>
definition chain_status :: "arc_chain \<Rightarrow> string \<Rightarrow> string" where
  "chain_status chain validation =
     (if ac_max chain > 0 then (if ac_valid chain \<and> validation = ''pass'' then ''pass'' else ''fail'') else ''none'')"

text \<open>The two signatures of a new set and the fields in front of the message\<close>
definition add_set :: "crypto \<Rightarrow> arc_signer \<Rightarrow> priv_key \<Rightarrow> int \<Rightarrow> string \<Rightarrow> arc_chain \<Rightarrow> string \<Rightarrow> raw_header list \<Rightarrow> string \<Rightarrow> string \<Rightarrow> string + string" where
  "add_set cr s key t cv chain raw hs body authres =
     (case build_signed_headers hs (replicate (length hs) False) (arc_wanted s hs) of (names, canon) \<Rightarrow>
        if names = [] then Inl ''no headers available for arc message signature''
        else (let i = ac_max chain + 1; base = ams_base cr (as_base s) key i t names body
              in case sign_sha256 cr key (trim_suffix (canon @ canon_header_relaxed ''ARC-Message-Signature'' base) crlf) of
                   None \<Rightarrow> Inl ''signing failed''
                 | Some sig \<Rightarrow>
                     (let ams = base @ sig; sb = seal_base (as_base s) key i t cv;
                          data = canon_header_relaxed ''ARC-Authentication-Results'' authres @ canon_header_relaxed ''ARC-Message-Signature'' ams @
                            canon_header_relaxed ''ARC-Seal'' sb
                      in case sign_sha256 cr key (trim_suffix ((if cv = ''pass'' then chain_data chain else []) @ data) crlf) of
                           None \<Rightarrow> Inl ''signing failed''
                         | Some sig2 \<Rightarrow>
                             Inr (''ARC-Seal: '' @ sb @ sig2 @ crlf @ ''ARC-Message-Signature: '' @ ams @ crlf @
                                  ''ARC-Authentication-Results: '' @ authres @ crlf @ raw))))"

text \<open>\<^verbatim>\<open>SignWithChainValidation\<close> after the key was loaded, and with it; \<^verbatim>\<open>Sign\<close>\<close>
definition seal_with_key :: "crypto \<Rightarrow> arc_signer \<Rightarrow> priv_key \<Rightarrow> int \<Rightarrow> string \<Rightarrow> string \<Rightarrow> string + string" where
  "seal_with_key cr s key t raw validation =
     (case split_message raw of
        None \<Rightarrow> Inl ''invalid message format''
      | Some (head, body) \<Rightarrow>
          (let hs = parse_raw_headers head in
           if hs = [] then Inl ''missing headers''
           else (let chain = inspect_chain hs in
                 if ac_stop chain then Inr raw
                 else (let cv = chain_status chain validation in
                       add_set cr s key t cv chain raw hs body (build_aar_value (as_authserv s) hs (ac_max chain + 1) cv)))))"

definition sign_with_validation :: "crypto \<Rightarrow> key_file \<Rightarrow> int \<Rightarrow> arc_signer \<Rightarrow> string \<Rightarrow> string \<Rightarrow> arc_signer \<times> (string + string)" where
  "sign_with_validation cr kf t s raw validation =
     (case arc_reload cr kf s of
        (s', Some e) \<Rightarrow> (s', Inl e)
      | (s', None) \<Rightarrow> (s', case fs_key (as_base s') of None \<Rightarrow> Inl ''no key'' | Some key \<Rightarrow> seal_with_key cr s' key t raw validation))"

definition arc_sign :: "crypto \<Rightarrow> key_file \<Rightarrow> int \<Rightarrow> arc_signer \<Rightarrow> string \<Rightarrow> arc_signer \<times> (string + string)" where
  "arc_sign cr kf t s raw = sign_with_validation cr kf t s raw ''fail''"

text \<open>\<^verbatim>\<open>validatedARCSigner.Sign\<close>\<close>
definition validated_seal :: "crypto \<Rightarrow> (string \<Rightarrow> string + string list) \<Rightarrow> key_file \<Rightarrow> int \<Rightarrow> arc_signer \<Rightarrow> string \<Rightarrow> arc_signer \<times> (string + string)" where
  "validated_seal cr txt kf t s raw =
     (case split_message raw of
        None \<Rightarrow> (s, Inl ''invalid message format'')
      | Some (head, body) \<Rightarrow> sign_with_validation cr kf t s raw (ar_result (eval_arc cr txt (parse_headers head) body)))"

end
