(* ===== verification/Dkim_Facts.thy ===== *)
theory Dkim_Facts
  imports Dkim
begin

text \<open>
  The lemmas behind DKIM: the words of a text, lines, the separation of header and body, the two parsers of header fields and
  the two searches for the fields that are signed.
\<close>

section \<open>Words\<close>

lemma fields_acc_space: "is_space c \<Longrightarrow> fields_acc acc (a @ c # b) = fields_acc acc a @ fields_acc [] b"
  by (induction acc a rule: fields_acc.induct) auto

lemma fields_space: "is_space c \<Longrightarrow> split_fields (a @ c # b) = split_fields a @ split_fields b"
  by (simp add: split_fields_def fields_acc_space)

lemma fields_Nil [simp]: "split_fields [] = []"
  by (simp add: split_fields_def)

lemma fields_Cons_space: "is_space c \<Longrightarrow> split_fields (c # s) = split_fields s"
  using fields_space [of c "[]" s] by simp

lemma fields_dropWhile: "(\<And>c. p c \<Longrightarrow> is_space c) \<Longrightarrow> split_fields (dropWhile p s) = split_fields s"
  by (induction s) (auto simp: fields_Cons_space)

lemma fields_snoc_space: "is_space c \<Longrightarrow> split_fields (s @ [c]) = split_fields s"
  using fields_space [of c s "[]"] by simp

lemma fields_trim_right: "(\<And>c. p c \<Longrightarrow> is_space c) \<Longrightarrow> split_fields (trim_right p s) = split_fields s"
proof (induction s rule: rev_induct)
  case (snoc x xs)
  then show ?case by (cases "p x") (auto simp: trim_right_append trim_right_keep fields_snoc_space)
qed (simp add: trim_right_def)

lemma fields_trim_space [simp]: "split_fields (trim_space s) = split_fields s"
  by (simp add: trim_space_def trim_left_def fields_trim_right fields_dropWhile)

lemma wsp_space: "is_wsp c \<Longrightarrow> is_space c"
  by (auto simp: is_space_def)

lemma fields_trim_wsp [simp]:
  "split_fields (trim_left is_wsp s) = split_fields s" "split_fields (trim_right is_wsp s) = split_fields s"
  unfolding trim_left_def by (rule fields_dropWhile fields_trim_right, erule wsp_space)+

definition words_ok :: "string list \<Rightarrow> bool" where
  "words_ok ws \<longleftrightarrow> (\<forall>w \<in> set ws. w \<noteq> [] \<and> (\<forall>c \<in> set w. \<not> is_space c))"

lemma words_ok_simps [simp]: "words_ok []" "words_ok (w # ws) \<longleftrightarrow> w \<noteq> [] \<and> (\<forall>c \<in> set w. \<not> is_space c) \<and> words_ok ws"
  by (auto simp: words_ok_def)

lemma fields_acc_words: "\<forall>c \<in> set acc. \<not> is_space c \<Longrightarrow> words_ok (fields_acc acc s)"
proof (induction s arbitrary: acc)
  case (Cons x xs)
  have "words_ok (fields_acc [] xs)" using Cons.IH [of "[]"] by simp
  moreover have "words_ok (fields_acc (x # acc) xs)" if "\<not> is_space x" using Cons that by simp
  ultimately show ?case using Cons.prems by simp
qed simp

lemma fields_words [simp]: "words_ok (split_fields s)"
  by (simp add: split_fields_def fields_acc_words)

lemma fields_acc_one: "\<forall>c \<in> set w. \<not> is_space c \<Longrightarrow> fields_acc acc w = (if acc = [] \<and> w = [] then [] else [rev acc @ w])"
  by (induction w arbitrary: acc) auto

lemma fields_join: "words_ok ws \<Longrightarrow> split_fields (join '' '' ws) = ws"
proof (induction "'' ''" ws rule: join.induct)
  case (3 x y ys)
  have one: "split_fields x = [x]" using 3(2) by (simp add: split_fields_def fields_acc_one)
  have "split_fields (join '' '' (y # ys)) = y # ys" using 3 by simp
  then show ?case using fields_space [of "CHR '' ''" x] one by (simp add: is_space_def)
qed (auto simp: split_fields_def fields_acc_one)

lemma collapse_fields [simp]: "split_fields (collapse_wsp s) = split_fields s"
  by (simp add: collapse_wsp_def fields_join)

lemma collapse_trim [simp]: "collapse_wsp (trim_space s) = collapse_wsp s"
  by (simp add: collapse_wsp_def)

lemma collapse_idem [simp]: "collapse_wsp (collapse_wsp s) = collapse_wsp s"
  by (simp only: collapse_wsp_def [of "collapse_wsp s"]) (simp add: collapse_wsp_def fields_join)

lemma join_words_ends: "words_ok ws \<Longrightarrow> join '' '' ws = [] \<or> \<not> is_space (hd (join '' '' ws)) \<and> \<not> is_space (last (join '' '' ws))"
proof (induction "'' ''" ws rule: join.induct)
  case (3 x y ys)
  then have "join '' '' (y # ys) \<noteq> []" by (cases ys) (auto simp: words_ok_def)
  with 3 show ?case by (auto simp: words_ok_def)
qed (auto simp: words_ok_def)

lemma trim_collapse [simp]: "trim_space (collapse_wsp s) = collapse_wsp s"
  using join_words_ends [of "split_fields s"] by (simp add: collapse_wsp_def trim_space_id)

section \<open>Lines\<close>

text \<open>Line ends with and without a carriage return give the same lines up to that character.\<close>
definition same_line :: "string \<Rightarrow> string \<Rightarrow> bool" where
  "same_line x y \<longleftrightarrow> y = x \<or> y = x @ [CHR 0x0D]"

lemma same_line_refl [simp]: "same_line x x"
  by (simp add: same_line_def)

lemma same_lines_Cons:
  "list_all2 same_line (split_on LF s) (split_on LF t) \<Longrightarrow> list_all2 same_line (split_on LF (a # s)) (split_on LF (a # t))"
  by (cases "split_on LF s"; cases "split_on LF t") (auto simp: same_line_def)

lemma crlf_lines: "list_all2 same_line (split_on LF (crlf_to_lf s)) (split_on LF s)"
proof (induction s rule: crlf_to_lf.induct)
  case (1 a b xs)
  show ?case
  proof (cases "a = CHR 0x0D \<and> b = CHR 0x0A")
    case True
    then show ?thesis using 1(1) by (auto simp: same_line_def)
  next
    case False
    then have "crlf_to_lf (a # b # xs) = a # crlf_to_lf (b # xs)" by auto
    with 1(2) [OF False] show ?thesis by (metis same_lines_Cons)
  qed
qed (auto simp: same_line_def)

lemma same_line_fields: "same_line x y \<Longrightarrow> split_fields x = split_fields y"
  by (auto simp: same_line_def fields_snoc_space is_space_def)

lemma list_all2_map_eq: "list_all2 R xs ys \<Longrightarrow> (\<And>x y. R x y \<Longrightarrow> f x = f y) \<Longrightarrow> map f xs = map f ys"
  by (induction rule: list_all2_induct) auto

lemma crlf_collapse: "map collapse_wsp (split_on LF (crlf_to_lf s)) = map collapse_wsp (split_on LF s)"
  by (rule list_all2_map_eq [OF crlf_lines]) (simp add: collapse_wsp_def same_line_fields)

text \<open>The relaxed form of a body is the same for the signer and the verifier.\<close>
lemma collapse_trim_right [simp]: "collapse_wsp (trim_right is_wsp s) = collapse_wsp s"
  by (simp add: collapse_wsp_def)

lemma canon_line_relaxed: "canon_line ''relaxed'' = collapse_wsp"
proof
  fix l
  have "split_fields (trim_suffix l [CHR 0x0D]) = split_fields l"
  proof (cases "suffix [CHR 0x0D] l")
    case True
    then obtain x where "l = x @ [CHR 0x0D]" by (auto simp: suffix_def)
    then show ?thesis by (simp add: trim_suffix_def fields_snoc_space is_space_def)
  qed (simp add: trim_suffix_def has_suffix_iff_suffix)
  then show "canon_line ''relaxed'' l = collapse_wsp l" by (simp add: canon_line_def Let_def collapse_wsp_def)
qed

lemma bodies_agree: "canonical_body body ''relaxed'' [] = Inr (signer_body body)"
proof -
  have "map (canon_line ''relaxed'') (split_lines (crlf_to_lf body)) = map (\<lambda>l. collapse_wsp (trim_right is_wsp l)) (split_on LF (crlf_to_lf body))"
    using crlf_collapse [of "crlf_to_lf body"] by (simp add: split_lines_def canon_line_relaxed)
  then show ?thesis by (simp add: canonical_body_def signer_body_def Let_def)
qed

section \<open>Header and body\<close>

lemma index_str_Some: "index_str s p = Some i \<Longrightarrow> has_prefix (drop i s) p \<and> i \<le> length s \<and> (\<forall>j < i. \<not> has_prefix (drop j s) p)"
proof (induction s p arbitrary: i rule: index_str.induct)
  case (2 x xs p)
  show ?case
  proof (cases "has_prefix (x # xs) p")
    case True
    with 2 show ?thesis by simp
  next
    case False
    with 2 obtain k where k: "i = Suc k" "index_str xs p = Some k" by auto
    then have "\<not> has_prefix (drop j (x # xs)) p" if "j < i" for j using 2(1) [OF False k(2)] that False by (cases j) auto
    with k 2(1) [OF False k(2)] show ?thesis by auto
  qed
qed (auto simp: has_prefix_def split: if_splits)

lemma index_str_first:
  "has_prefix (drop i s) p \<Longrightarrow> i \<le> length s \<Longrightarrow> (\<And>j. j < i \<Longrightarrow> \<not> has_prefix (drop j s) p) \<Longrightarrow> index_str s p = Some i"
proof (induction s p arbitrary: i rule: index_str.induct)
  case (2 x xs p)
  show ?case
  proof (cases i)
    case 0
    with 2 show ?thesis by simp
  next
    case (Suc k)
    have no: "\<not> has_prefix (x # xs) p" using 2(4) [of 0] Suc by simp
    have "\<not> has_prefix (drop j xs) p" if "j < k" for j using 2(4) [of "Suc j"] Suc that by simp
    then have "index_str xs p = Some k" using 2(1) [OF no, of k] 2(2,3) Suc by simp
    then show ?thesis using Suc no by simp
  qed
qed (auto simp: has_prefix_def)

lemma index_str_None: "index_str s p = None \<Longrightarrow> p \<noteq> [] \<Longrightarrow> \<not> has_prefix (drop j s) p"
proof (induction s p arbitrary: j rule: index_str.induct)
  case (2 x xs p)
  then show ?case by (cases j) (auto split: if_splits)
qed (simp add: has_prefix_def)

lemma has_prefix_4: "has_prefix s (crlf @ crlf) \<longleftrightarrow>
    4 \<le> length s \<and> s ! 0 = CHR 0x0D \<and> s ! 1 = LF \<and> s ! 2 = CHR 0x0D \<and> s ! 3 = LF"
  by (cases s; cases "tl s"; cases "tl (tl s)"; cases "tl (tl (tl s))") (auto simp: has_prefix_def crlf_def numeral_3_eq_3)

lemma has_prefix_2: "has_prefix s [LF, LF] \<longleftrightarrow> 2 \<le> length s \<and> s ! 0 = LF \<and> s ! 1 = LF"
  by (cases s; cases "tl s") (auto simp: has_prefix_def)

lemma has_prefix_inside: "k + length p \<le> length x \<Longrightarrow> has_prefix (drop k (x @ r)) p \<longleftrightarrow> has_prefix (drop k x) p"
  by (simp add: has_prefix_def)

lemma length_crlf_crlf: "length (crlf @ crlf) = 4"
  by (simp add: crlf_def)

lemma has_prefix_at: "k \<le> length s \<Longrightarrow> has_prefix (drop k s) (crlf @ crlf) \<longleftrightarrow>
    k + 4 \<le> length s \<and> s ! k = CHR 0x0D \<and> s ! (k + 1) = LF \<and> s ! (k + 2) = CHR 0x0D \<and> s ! (k + 3) = LF"
  by (auto simp: has_prefix_4)

text \<open>What \<^verbatim>\<open>splitMessage\<close> finds\<close>
lemma split_message_parts:
  assumes "split_message raw = Some (head, body)"
  shows "raw = head @ crlf @ crlf @ body \<and> (\<forall>k < length head. \<not> has_prefix (drop k raw) (crlf @ crlf)) \<or>
    raw = head @ [LF, LF] @ body \<and> (\<forall>k. \<not> has_prefix (drop k raw) (crlf @ crlf)) \<and> (\<forall>k < length head. \<not> has_prefix (drop k raw) [LF, LF])"
proof (cases "index_str raw (crlf @ crlf)")
  case (Some i)
  note f = index_str_Some [OF Some]
  have "head = take i raw" "body = drop (i + 4) raw" using assms Some by (simp_all add: split_message_def)
  moreover have "drop i raw = (crlf @ crlf) @ drop 4 (drop i raw)"
    using f append_take_drop_id [of "length (crlf @ crlf)" "drop i raw"] unfolding has_prefix_def by (metis length_crlf_crlf)
  ultimately have "raw = head @ crlf @ crlf @ body" "length head = i"
    using f append_take_drop_id [of i raw] by (simp_all add: add.commute)
  then show ?thesis using f by simp
next
  case None
  then obtain i where i: "index_str raw [LF, LF] = Some i" "head = take i raw" "body = drop (i + 2) raw"
    using assms by (auto simp: split_message_def split: option.splits)
  note f = index_str_Some [OF i(1)]
  have "drop i raw = [LF, LF] @ drop 2 (drop i raw)"
    using f append_take_drop_id [of "length [LF, LF]" "drop i raw"] unfolding has_prefix_def by (simp add: numeral_2_eq_2)
  then have "raw = head @ [LF, LF] @ body" "length head = i"
    using f i append_take_drop_id [of i raw] by (simp_all add: add.commute)
  then show ?thesis using f index_str_None [OF None] by (simp add: crlf_def)
qed

text \<open>The header has no blank line, and none begins in it when a blank line with carriage returns follows.\<close>
lemma split_message_head:
  assumes "split_message raw = Some (head, body)" "k < length head"
  shows "\<not> has_prefix (drop k (head @ crlf @ crlf @ rest)) (crlf @ crlf)"
  using split_message_parts [OF assms(1)]
proof (elim disjE conjE)
  assume raw: "raw = head @ crlf @ crlf @ body" "\<forall>k < length head. \<not> has_prefix (drop k raw) (crlf @ crlf)"
  have "k + length (crlf @ crlf) \<le> length (head @ crlf @ crlf)" using assms(2) by simp
  from has_prefix_inside [OF this, of rest] has_prefix_inside [OF this, of body] raw assms(2) show ?thesis by simp
next
  assume raw: "raw = head @ [LF, LF] @ body" "\<forall>k. \<not> has_prefix (drop k raw) (crlf @ crlf)"
    "\<forall>k < length head. \<not> has_prefix (drop k raw) [LF, LF]"
  let ?s = "head @ crlf @ crlf @ rest"
  show ?thesis
  proof
    assume h: "has_prefix (drop k ?s) (crlf @ crlf)"
    then have c: "?s ! (k + 1) = LF" "?s ! (k + 2) = CHR 0x0D" "?s ! (k + 3) = LF"
      using assms(2) has_prefix_at [of k ?s] by (simp_all del: drop_append)
    consider "k + 4 \<le> length head" | "length head = k + 1" | "length head = k + 2" | "length head = k + 3" using assms(2) by linarith
    then show False
    proof cases
      case 1
      then have "k + length (crlf @ crlf) \<le> length head" by (simp add: length_crlf_crlf del: length_append)
      from has_prefix_inside [OF this] h have "has_prefix (drop k raw) (crlf @ crlf)" unfolding raw(1) by blast
      then show ?thesis using raw(2) by blast
    next
      case 2
      then show ?thesis using c(1) by (simp add: nth_append crlf_def)
    next
      case 3
      then have "head ! (k + 1) = LF" using c(1) by (simp add: nth_append)
      then have "has_prefix (drop (k + 1) raw) [LF, LF]" using 3 raw(1) by (simp add: has_prefix_2 nth_append)
      then show ?thesis using raw(3) 3 by simp
    next
      case 4
      then show ?thesis using c(3) by (simp add: nth_append crlf_def)
    qed
  qed
qed

text \<open>A line in front of a header that begins with a field does not change where the body begins.\<close>
lemma split_message_prepend:
  assumes "split_message raw = Some (head, body)" "head \<noteq> []" "\<not> is_space (hd head)" "LF \<notin> set line" "CHR 0x0D \<notin> set line"
  shows "split_message (line @ crlf @ head @ crlf @ crlf @ body) = Some (line @ crlf @ head, body)"
proof -
  let ?s = "line @ crlf @ head @ crlf @ crlf @ body"
  have no: "\<not> has_prefix (drop j ?s) (crlf @ crlf)" if j: "j < length (line @ crlf @ head)" for j
  proof -
    consider (line) "j < length line" | (cr) "j = length line" | (lf) "j = length line + 1"
      | (head) k where "j = length line + 2 + k" "k < length head"
    proof (cases "length line + 2 \<le> j")
      case True
      then obtain k where "j = length line + 2 + k" using le_Suc_ex by blast
      then show ?thesis using j that(4) [of k] by (simp add: crlf_def)
    next
      case False
      then have "j < length line \<or> j = length line \<or> j = length line + 1" by linarith
      then show ?thesis using that(1-3) by blast
    qed
    then show ?thesis
    proof cases
      case line
      then have "?s ! j \<in> set line" by (simp add: nth_append)
      then show ?thesis using assms(5) j has_prefix_at [of j ?s] by (auto simp del: drop_append)
    next
      case cr
      have "?s ! (j + 2) = hd head" using cr assms(2) by (simp add: crlf_def nth_append hd_conv_nth)
      then show ?thesis using assms(3) j has_prefix_at [of j ?s] by (auto simp: is_space_def simp del: drop_append)
    next
      case lf
      then have "?s ! j = LF" by (simp add: crlf_def nth_append)
      then show ?thesis using j has_prefix_at [of j ?s] by (auto simp del: drop_append)
    next
      case head
      then have "drop j ?s = drop k (head @ crlf @ crlf @ body)" by (simp add: crlf_def)
      then show ?thesis using split_message_head [OF assms(1) head(2), of body] by simp
    qed
  qed
  have "index_str ?s (crlf @ crlf) = Some (length (line @ crlf @ head))"
    by (rule index_str_first) (use no in \<open>auto simp: has_prefix_def\<close>)
  moreover have "drop (length x) (x @ y) = y" for x y :: string by simp
  from this [of "line @ crlf @ head @ crlf @ crlf" body] have "drop (length (line @ crlf @ head) + 4) ?s = body"
    by (simp only: length_append append_assoc length_crlf_crlf [unfolded length_append] add.assoc)
  ultimately show ?thesis by (simp add: split_message_def)
qed

section \<open>The two parsers\<close>

lemma crlf_to_lf_prepend: "CHR 0x0D \<notin> set line \<Longrightarrow> crlf_to_lf (line @ crlf @ s) = line @ LF # crlf_to_lf s"
proof (induction line)
  case (Cons a l)
  have "crlf_to_lf (a # b # xs) = a # crlf_to_lf (b # xs)" if "a \<noteq> CHR 0x0D" for b xs using that by simp
  with Cons show ?case by (cases l) (auto simp: crlf_def)
qed (simp add: crlf_def)

lemma split_lines_prepend:
  "CHR 0x0D \<notin> set line \<Longrightarrow> LF \<notin> set line \<Longrightarrow> split_lines (line @ crlf @ s) = line # split_lines s"
  by (simp add: split_lines_def crlf_to_lf_prepend split_on_append)

lemma split_lines_head:
  assumes "s \<noteq> []" "\<not> is_space (hd s)"
  obtains l ls where "split_lines s = (hd s # l) # ls"
proof -
  obtain c r where s: "s = c # r" using assms(1) by (cases s) auto
  with assms(2) have c: "c \<noteq> CHR 0x0D" "c \<noteq> LF" by (auto simp: is_space_def)
  then have "crlf_to_lf s = c # crlf_to_lf r" by (cases r) (auto simp: s)
  moreover obtain y ys where "split_on LF (crlf_to_lf r) = y # ys" by (meson split_on_ne list.exhaust)
  ultimately show ?thesis using c that s by (simp add: split_lines_def)
qed

lemma fields_acc_map: "(\<And>c. is_space (f c) = is_space c) \<Longrightarrow> (\<And>c. \<not> is_space c \<Longrightarrow> f c = c) \<Longrightarrow> fields_acc acc (map f s) = fields_acc acc s"
  by (induction s arbitrary: acc) auto

lemma fields_acc_crlf: "fields_acc acc (crlf_to_lf s) = fields_acc acc s"
proof (induction s arbitrary: acc rule: crlf_to_lf.induct)
  case (1 a b xs)
  show ?case
  proof (cases "a = CHR 0x0D \<and> b = CHR 0x0A")
    case True
    then show ?thesis using 1(1) by (auto simp: is_space_def)
  next
    case False
    then have "crlf_to_lf (a # b # xs) = a # crlf_to_lf (b # xs)" by auto
    then show ?thesis using 1(2) [OF False] by (simp only: fields_acc.simps)
  qed
qed auto

lemma unfold_value_collapse: "unfold_value v = collapse_wsp v"
proof -
  have "fields_acc [] (map (\<lambda>c. if c = LF then CHR '' '' else c) (crlf_to_lf v)) = fields_acc [] (crlf_to_lf v)"
    by (rule fields_acc_map) (auto simp: is_space_def)
  then show ?thesis by (simp add: unfold_value_def collapse_wsp_def split_fields_def fields_acc_crlf)
qed

text \<open>A field of the verifier and the same field of the signer\<close>
definition same_field :: "header \<Rightarrow> raw_header \<Rightarrow> bool" where
  "same_field h r \<longleftrightarrow> hd_name h = rh_name r \<and> hd_value h = collapse_wsp (rh_value r)"

lemma flushed_same: "split_fields v = split_fields w \<Longrightarrow> list_all2 same_field (flushed n v) (raw_flushed n w)"
  by (simp add: flushed_def raw_flushed_def same_field_def unfold_value_collapse collapse_wsp_def)

lemma loops_same:
  assumes "split_fields v = split_fields w" "n = [] \<Longrightarrow> v = w"
  shows "list_all2 same_field (header_loop n v ls) (raw_loop n w ls)"
  using assms
proof (induction ls arbitrary: n v w)
  case Nil
  then show ?case by (simp add: flushed_same)
next
  case (Cons l ls)
  show ?case
  proof (cases "l = [] \<or> hd l = CHR '' '' \<or> hd l = CHR 9")
    case True
    have f: "split_fields (v @ LF # l) = split_fields (w @ CHR '' '' # trim_left is_wsp l)"
      using Cons.prems(1) fields_space [of LF v l] fields_space [of "CHR '' ''" w "trim_left is_wsp l"] by (simp add: is_space_def)
    have "list_all2 same_field (header_loop n (v @ LF # l) ls) (raw_loop n (w @ CHR '' '' # trim_left is_wsp l) ls)" if "n \<noteq> []"
      by (rule Cons.IH [OF f]) (use that in simp)
    then show ?thesis using True Cons.IH [OF Cons.prems] Cons.prems by auto
  next
    case False
    let ?v = "if n = [] then v else []" and ?w = "if n = [] then w else []"
    have vw: "?v = ?w" using Cons.prems(2) by auto
    have "list_all2 same_field (header_loop m x ls) (raw_loop m x ls)" for m x using Cons.IH by simp
    then have "list_all2 same_field
        (case index_byte l CHR '':'' of Some (Suc i) \<Rightarrow> header_loop (trim_space (take (Suc i) l)) (?v @ trim_space (drop (Suc (Suc i)) l)) ls | _ \<Rightarrow> header_loop [] ?v ls)
        (case index_byte l CHR '':'' of Some (Suc i) \<Rightarrow> raw_loop (trim_space (take (Suc i) l)) (?w @ trim_space (drop (Suc (Suc i)) l)) ls | _ \<Rightarrow> raw_loop [] ?w ls)"
      unfolding vw by (auto split: option.split nat.split)
    from list_all2_appendI [OF flushed_same [OF Cons.prems(1), of n] this] False show ?thesis by (simp add: Let_def)
  qed
qed

lemma parsers_same: "list_all2 same_field (parse_headers head) (parse_raw_headers head)"
  by (simp add: parse_headers_def parse_raw_headers_def split_lines_def loops_same)

text \<open>A field in front of a header that begins with a field\<close>
lemma parse_headers_prepend:
  assumes "head \<noteq> []" "\<not> is_space (hd head)" "CHR 0x0D \<notin> set (name @ v)" "LF \<notin> set (name @ v)"
    and "name \<noteq> []" "\<forall>c \<in> set name. \<not> is_space c \<and> c \<noteq> CHR '':''"
  shows "parse_headers (name @ '': '' @ v @ crlf @ head) =
    \<lparr>hd_name = name, hd_value = collapse_wsp v, hd_raw = trim_space v\<rparr> # parse_headers head"
proof -
  let ?line = "name @ '': '' @ v"
  obtain l ls where h: "split_lines head = (hd head # l) # ls" using split_lines_head [OF assms(1,2)] .
  have lines: "split_lines (name @ '': '' @ v @ crlf @ head) = ?line # split_lines head"
    using split_lines_prepend [of ?line head] assms(3,4) by simp
  have i: "index_byte ?line CHR '':'' = Some (length name)" using assms(6) by (induction name) auto
  obtain c n where n: "name = c # n" using assms(5) by (cases name) auto
  have not_wsp: "\<not> is_wsp c" "\<not> is_wsp (hd head)" using assms(2,6) n by (auto simp: is_space_def)
  have trim: "trim_space name = name" using assms(5,6) by (intro trim_space_id) auto
  have first: "header_loop [] [] (?line # split_lines head) = header_loop name (trim_space ('' '' @ v)) (split_lines head)"
    using i not_wsp(1) trim n by (simp add: Let_def flushed_def)
  have rest: "header_loop name x (split_lines head) = flushed name x @ header_loop [] [] (split_lines head)" for x
    using not_wsp(2) assms(5) unfolding h by (simp add: Let_def flushed_def [of "[]"] del: split_paired_All)
  have "trim_space ('' '' @ v) = trim_space v" by (simp add: trim_space_def trim_left_def is_space_def)
  with lines first rest [of "trim_space ('' '' @ v)"] show ?thesis
    using assms(5) collapse_trim [of "'' '' @ v"] collapse_trim [of v]
    by (simp add: parse_headers_def flushed_def unfold_value_collapse del: header_loop.simps collapse_trim)
qed

section \<open>The two searches\<close>

lemma find_shift:
  "find_from_bottom ns us t k = Some i \<Longrightarrow> length ps = length vs \<Longrightarrow>
    find_from_bottom (ps @ ns) (vs @ us) t (length ps + k) = Some (length ps + i)"
  by (induction k) (auto simp: nth_append split: if_splits)

lemma find_range: "find_from_bottom ns us t k = Some i \<Longrightarrow> i < k \<and> equal_fold (ns ! i) t"
  by (induction k) (auto split: if_splits simp: less_SucI)

lemma trim_lower: "trim_space (to_lower (trim_space s)) = to_lower (trim_space s)"
  by (simp add: trim_space_lower)

text \<open>One step of \<^verbatim>\<open>buildSignedHeaders\<close>: the name is skipped, or a field is found.\<close>
lemma build_signed_Cons:
  assumes "build_signed_headers rs used (n # ns) = (names, out)"
  obtains (skip) "build_signed_headers rs used ns = (names, out)"
  | (found) i ns' out' where "to_lower (trim_space n) \<noteq> []" "find_from_bottom (map rh_name rs) used (to_lower (trim_space n)) (length rs) = Some i"
      "build_signed_headers rs (used[i := True]) ns = (ns', out')" "names = to_lower (trim_space n) # ns'"
      "out = canon_header_relaxed (rh_name (rs ! i)) (rh_value (rs ! i)) @ out'"
proof (cases "to_lower (trim_space n) = [] \<or> find_from_bottom (map rh_name rs) used (to_lower (trim_space n)) (length rs) = None")
  case True
  then have "build_signed_headers rs used ns = (names, out)" using assms by (cases "trim_space n = []") (auto simp: Let_def)
  then show ?thesis by (rule skip)
next
  case False
  then obtain i where i: "find_from_bottom (map rh_name rs) used (to_lower (trim_space n)) (length rs) = Some i" by auto
  obtain ns' out' where r: "build_signed_headers rs (used[i := True]) ns = (ns', out')" by fastforce
  show ?thesis using found [OF _ i r] assms False i r by (simp add: Let_def)
qed

text \<open>Fields in front are never taken for one of the fields that the signer found.\<close>
lemma searches_agree:
  assumes "build_signed_headers rs used want = (names, out)" "list_all2 same_field hs rs"
  shows "signed_fields (xs @ hs) ''relaxed'' (replicate (length xs) False @ used) names = out"
  using assms(1)
proof (induction want arbitrary: used names out)
  case (Cons n ns)
  let ?us = "replicate (length xs) False"
  have names: "map hd_name hs = map rh_name rs" "length hs = length rs"
    using assms(2) by (auto simp: list_all2_conv_all_nth same_field_def intro: nth_equalityI)
  from Cons.prems show ?case
  proof (cases rule: build_signed_Cons)
    case skip
    then show ?thesis by (rule Cons.IH)
  next
    case (found i ns' out')
    have f: "find_from_bottom (map hd_name (xs @ hs)) (?us @ used) (to_lower (trim_space n)) (length (xs @ hs)) = Some (length xs + i)"
      using find_shift [OF found(2), of "map hd_name xs" ?us] names by simp
    have "same_field (hs ! i) (rs ! i)" using find_range [OF found(2)] assms(2) by (simp add: list_all2_conv_all_nth)
    then have c: "canon_header (hd_name (hs ! i)) (hd_value (hs ! i)) ''relaxed'' = canon_header_relaxed (rh_name (rs ! i)) (rh_value (rs ! i))"
      by (simp add: canon_header_def canon_header_relaxed_def same_field_def)
    have u: "(?us @ used)[length xs + i := True] = ?us @ used[i := True]" by (simp add: list_update_append)
    show ?thesis using found(1) f c Cons.IH [OF found(3)] unfolding found(4,5) by (simp add: Let_def trim_lower u nth_append)
  qed
qed simp

lemma trim_suffix_crlf: "trim_suffix (a @ crlf) crlf = a"
  by (simp add: trim_suffix_def)

lemma canon_relaxed_text: "canon_header_relaxed name v = to_lower (trim_space name) @ '':'' @ collapse_wsp v @ crlf"
  by (simp add: canon_header_relaxed_def)

lemma canon_header_same: "canon_header name v ''relaxed'' = canon_header_relaxed name v"
  by (simp add: canon_header_def canon_header_relaxed_def)

lemma trim_suffix_canon: "trim_suffix (a @ canon_header_relaxed name v) crlf = a @ trim_suffix (canon_header_relaxed name v) crlf"
  using trim_suffix_crlf [of "a @ to_lower (trim_space name) @ '':'' @ collapse_wsp v"]
    trim_suffix_crlf [of "to_lower (trim_space name) @ '':'' @ collapse_wsp v"]
  by (simp add: canon_relaxed_text)

end
