(* ===== verification/Dkim_Tags.thy ===== *)
theory Dkim_Tags
  imports Dkim_Facts
begin

text \<open>
  Lists of tags as the signers write them: what the verifiers read in them, and what is left when the signature is taken out.
\<close>

section \<open>Tags\<close>

text \<open>A value that survives in a list of tags\<close>
definition plain_value :: "string \<Rightarrow> bool" where
  "plain_value s \<longleftrightarrow> (\<forall>c \<in> set s. \<not> is_space c \<and> c \<noteq> CHR '';'')"

lemma plain_value_append [simp]: "plain_value (s @ t) \<longleftrightarrow> plain_value s \<and> plain_value t"
  by (auto simp: plain_value_def)

lemma plain_value_Cons [simp]: "plain_value (c # s) \<longleftrightarrow> \<not> is_space c \<and> c \<noteq> CHR '';'' \<and> plain_value s"
  by (auto simp: plain_value_def)

lemma plain_value_Nil [simp]: "plain_value []"
  by (simp add: plain_value_def)

lemma plain_semicolon: "plain_value s \<Longrightarrow> CHR '';'' \<notin> set s"
  by (auto simp: plain_value_def)

lemma plain_spaces: "plain_value s \<Longrightarrow> \<forall>c \<in> set s. \<not> is_space c"
  by (auto simp: plain_value_def)

lemma plain_trim: "plain_value s \<Longrightarrow> trim_space s = s"
  by (rule trim_space_id) (metis plain_spaces last_in_set list.set_sel(1))

lemma b64_val_semicolon: "b64_val CHR '';'' = None"
  by (simp add: b64_val_def is_digit_def is_lower_def is_upper_def less_eq_char_def)

lemma b64_char_plain: "n < 64 \<Longrightarrow> b64_char n \<noteq> CHR '';''"
  using b64_val_char(1) [of n] b64_val_semicolon by (metis option.distinct(1))

lemma b64_plain: "plain_value (b64_encode s)"
proof (induction s rule: b64_encode.induct)
  case (2 a)
  then show ?case by (auto simp: Let_def b64_parts b64_char_plain)
next
  case (3 a b)
  then show ?case by (auto simp: Let_def b64_parts b64_char_plain)
next
  case (4 a b c r)
  then show ?case by (auto simp: Let_def b64_parts b64_char_plain)
qed simp

lemma digit_char_digit: "d < 10 \<Longrightarrow> is_digit (digit_char d) \<and> of_char (digit_char d) = 48 + d"
  by (simp add: digit_char_def is_digit_def less_eq_char_def)

lemma show_nat_digits: "show_nat n \<noteq> [] \<and> list_all is_digit (show_nat n) \<and> digits_value (show_nat n) = int n"
proof (induction n rule: show_nat.induct)
  case (1 n)
  show ?case
  proof (cases "n < 10")
    case True
    then show ?thesis using digit_char_digit [OF True] by (simp add: show_nat.simps [of n] digits_value_def)
  next
    case False
    have "int (n div 10) * 10 + int (n mod 10) = int n" using div_mult_mod_eq [of n 10] by presburger
    then show ?thesis using False 1 digit_char_digit [of "n mod 10"] by (simp add: show_nat.simps [of n] digits_value_def)
  qed
qed

lemma digit_plain: "is_digit c \<Longrightarrow> \<not> is_space c \<and> c \<noteq> CHR '';'' \<and> c \<noteq> CHR ''-'' \<and> c \<noteq> CHR ''+''"
  by (auto simp: is_digit_def is_space_def less_eq_char_def)

lemma show_int_value:
  assumes "0 \<le> t" "t \<le> max_int64"
  shows "plain_value (show_int t)" "show_int t \<noteq> []" "parse_int64 (show_int t) = Some t"
proof -
  obtain c cs where c: "show_nat (nat t) = c # cs" using show_nat_digits [of "nat t"] by (cases "show_nat (nat t)") auto
  have d: "\<forall>x \<in> set (show_nat (nat t)). is_digit x" using show_nat_digits [of "nat t"] by (simp add: list_all_iff)
  show "plain_value (show_int t)" using d digit_plain assms(1) by (auto simp: plain_value_def show_int_def)
  show "show_int t \<noteq> []" using c assms(1) by (simp add: show_int_def)
  have "\<not> has_prefix (show_nat (nat t)) ''-''" "\<not> has_prefix (show_nat (nat t)) ''+''"
    using c d digit_plain [of c] by (auto simp: has_prefix_def)
  then show "parse_int64 (show_int t) = Some t"
    using show_nat_digits [of "nat t"] assms by (simp add: parse_int64_def show_int_def Let_def min_int64_def)
qed

text \<open>One tag of a list\<close>
lemma tag_part_eq:
  assumes "k \<noteq> []" "\<forall>c \<in> set k. \<not> is_space c \<and> c \<noteq> CHR ''=''" "to_lower k = k" "plain_value v"
  shows "tag_part ('' '' @ k @ ''='' @ v) m = m(k := v)" "tag_part (k @ ''='' @ v) m = m(k := v)"
    "trim_space ('' '' @ k @ ''='' @ v) = k @ ''='' @ v"
proof -
  have x: "trim_space (k @ ''='' @ v) = k @ ''='' @ v"
    using assms by (intro trim_space_id) (auto simp: plain_value_def hd_append last_append)
  have y: "trim_space ('' '' @ s) = trim_space s" for s by (simp add: trim_space_def trim_left_def is_space_def)
  show "trim_space ('' '' @ k @ ''='' @ v) = k @ ''='' @ v" using x y [of "k @ ''='' @ v"] by simp
  have i: "index_byte (k @ ''='' @ v) CHR ''='' = Some (length k)" using assms(2) by (induction k) auto
  have k: "trim_space k = k" using assms(1,2) by (intro trim_space_id) auto
  obtain n where n: "length k = Suc n" using assms(1) by (cases k) auto
  have "tag_part p m = m(k := v)" if "trim_space p = k @ ''='' @ v" for p
    using i k n assms(3) plain_trim [OF assms(4)] unfolding tag_part_def that by simp
  then show "tag_part ('' '' @ k @ ''='' @ v) m = m(k := v)" "tag_part (k @ ''='' @ v) m = m(k := v)" using x y by simp_all
qed

lemma split_on_join: "xs \<noteq> [] \<Longrightarrow> \<forall>x \<in> set xs. c \<notin> set x \<Longrightarrow> split_on c (join [c] xs) = xs"
  by (induction "[c]" xs rule: join.induct) (auto simp: split_on_absent split_on_append)

section \<open>Lists of tags\<close>

text \<open>The text of a list of tags, and the tags that survive in it\<close>
definition tag_pair :: "string \<times> string \<Rightarrow> string" where
  "tag_pair kv = fst kv @ ''='' @ snd kv"

definition tag_text :: "(string \<times> string) list \<Rightarrow> string" where
  "tag_text kvs = join ''; '' (map tag_pair kvs)"

definition tag_ok :: "string \<times> string \<Rightarrow> bool" where
  "tag_ok kv \<longleftrightarrow> fst kv \<noteq> [] \<and> plain_value (fst kv) \<and> CHR ''='' \<notin> set (fst kv) \<and> to_lower (fst kv) = fst kv \<and> plain_value (snd kv)"

lemma tag_pair_plain: "tag_ok kv \<Longrightarrow> plain_value (tag_pair kv) \<and> tag_pair kv \<noteq> []"
  by (auto simp: tag_ok_def tag_pair_def)

text \<open>The parts between semicolons: every one but the first begins with a space.\<close>
lemma tag_text_Cons: "kvs \<noteq> [] \<Longrightarrow> tag_text (kv # kvs) = tag_pair kv @ CHR '';'' # CHR '' '' # tag_text kvs"
  by (cases kvs) (simp_all add: tag_text_def)

lemma split_space: "split_on CHR '';'' (CHR '' '' # s) = (CHR '' '' # hd (split_on CHR '';'' s)) # tl (split_on CHR '';'' s)"
  by (cases "split_on CHR '';'' s") auto

lemma tag_text_split:
  assumes "list_all tag_ok (kv # kvs)"
  shows "split_on CHR '';'' (tag_text (kv # kvs)) = tag_pair kv # map (\<lambda>p. CHR '' '' # tag_pair p) kvs"
  using assms
proof (induction kvs arbitrary: kv)
  case Nil
  then show ?case using plain_semicolon tag_pair_plain by (simp add: tag_text_def split_on_absent)
next
  case (Cons p ps)
  have "CHR '';'' \<notin> set (tag_pair kv)" using Cons.prems plain_semicolon tag_pair_plain by simp
  then have "split_on CHR '';'' (tag_text (kv # p # ps)) = tag_pair kv # split_on CHR '';'' (CHR '' '' # tag_text (p # ps))"
    by (simp add: tag_text_Cons split_on_append del: split_on.simps)
  then show ?case using Cons.IH [of p] Cons.prems by (simp add: split_space)
qed

lemma tag_step:
  assumes "tag_ok kv"
  shows "tag_part (tag_pair kv) m = m(fst kv := snd kv)" "tag_part (CHR '' '' # tag_pair kv) m = m(fst kv := snd kv)"
    "trim_space (CHR '' '' # tag_pair kv) = tag_pair kv" "trim_space (tag_pair kv) = tag_pair kv"
proof -
  have "fst kv \<noteq> []" "\<forall>c \<in> set (fst kv). \<not> is_space c \<and> c \<noteq> CHR ''=''" "to_lower (fst kv) = fst kv" "plain_value (snd kv)"
    using assms by (auto simp: tag_ok_def plain_value_def)
  note f = tag_part_eq [OF this]
  show "tag_part (tag_pair kv) m = m(fst kv := snd kv)" "tag_part (CHR '' '' # tag_pair kv) m = m(fst kv := snd kv)"
    "trim_space (CHR '' '' # tag_pair kv) = tag_pair kv" using f by (simp_all add: tag_pair_def)
  show "trim_space (tag_pair kv) = tag_pair kv" using tag_pair_plain [OF assms] by (simp add: plain_trim)
qed

text \<open>The verifier reads the tags that were written.\<close>
lemma tag_text_tags:
  assumes "list_all tag_ok kvs" "kvs \<noteq> []"
  shows "parse_tag_list (tag_text kvs) = fold (\<lambda>kv m. m(fst kv := snd kv)) kvs (\<lambda>_. [])"
proof -
  obtain p ps where kvs: "kvs = p # ps" using assms(2) by (cases kvs) auto
  have "fold tag_part (map (\<lambda>q. CHR '' '' # tag_pair q) ps) m = fold (\<lambda>kv m. m(fst kv := snd kv)) ps m" for m
    using assms(1) kvs by (induction ps arbitrary: m kvs) (auto simp: tag_step)
  then show ?thesis using assms(1) unfolding kvs parse_tag_list_def by (simp add: tag_text_split tag_step)
qed

lemma tag_text_words:
  assumes "list_all tag_ok (kvs @ [kv])"
  shows "tag_text (kvs @ [kv]) = join '' '' (map (\<lambda>p. tag_pair p @ '';'') kvs @ [tag_pair kv]) \<and> words_ok (map (\<lambda>p. tag_pair p @ '';'') kvs @ [tag_pair kv])"
  using assms
proof (induction kvs)
  case Nil
  then show ?case using tag_pair_plain [of kv] plain_spaces [of "tag_pair kv"] by (simp add: tag_text_def)
next
  case (Cons p ps)
  have w: "tag_pair p \<noteq> []" "\<forall>c \<in> set (tag_pair p). \<not> is_space c" using Cons.prems tag_pair_plain [of p] plain_spaces by auto
  have "join '' '' ((tag_pair p @ '';'') # map (\<lambda>p. tag_pair p @ '';'') ps @ [tag_pair kv]) =
      tag_pair p @ '';'' @ '' '' @ join '' '' (map (\<lambda>p. tag_pair p @ '';'') ps @ [tag_pair kv])"
    by (cases ps) simp_all
  then show ?case using Cons w by (simp add: tag_text_Cons is_space_def)
qed

text \<open>There is no white space to collapse and no line end.\<close>
lemma tag_text_collapse:
  assumes "list_all tag_ok kvs" "kvs \<noteq> []"
  shows "collapse_wsp (tag_text kvs) = tag_text kvs"
proof -
  obtain ps p where "kvs = ps @ [p]" using assms(2) by (cases kvs rule: rev_cases) auto
  then show ?thesis using tag_text_words [of ps p] assms(1) unfolding collapse_wsp_def by (metis fields_join)
qed

lemma collapse_lines: "CHR 0x0D \<notin> set (collapse_wsp s) \<and> LF \<notin> set (collapse_wsp s)"
proof -
  have "c \<notin> set (join '' '' ws)" if "words_ok ws" "is_space c" "c \<noteq> CHR '' ''" for c ws
    using set_join [of c "'' ''" ws] that by (auto simp: words_ok_def)
  from this [OF fields_words [of s]] show ?thesis by (simp add: collapse_wsp_def is_space_def)
qed

lemma tag_text_lines:
  assumes "list_all tag_ok kvs" "kvs \<noteq> []"
  shows "CHR 0x0D \<notin> set (tag_text kvs)" "LF \<notin> set (tag_text kvs)"
  using collapse_lines [of "tag_text kvs"] tag_text_collapse [OF assms] by simp_all

text \<open>Taking the signature out\<close>
lemma tag_pair_b: "tag_ok kv \<Longrightarrow> has_prefix (to_lower (tag_pair kv)) ''b='' \<longleftrightarrow> fst kv = ''b''"
proof -
  assume ok: "tag_ok kv"
  have e: "to_lower ''='' = ''=''" by (simp add: to_lower_def lower_char_def is_upper_def less_eq_char_def)
  obtain c k where k: "fst kv = c # k" using ok by (cases "fst kv") (auto simp: tag_ok_def)
  have "to_lower (tag_pair kv) = c # k @ ''='' @ to_lower (snd kv)"
    using ok e to_lower_append [of "fst kv" "''='' @ snd kv"] to_lower_append [of "''=''" "snd kv"]
    unfolding tag_pair_def by (simp only: tag_ok_def k append_Cons append_Nil)
  moreover have "CHR ''='' \<notin> set k" using ok k by (simp add: tag_ok_def)
  ultimately show "has_prefix (to_lower (tag_pair kv)) ''b='' \<longleftrightarrow> fst kv = ''b''"
    unfolding k by (cases k) (auto simp: has_prefix_def)
qed

lemma join_spaced: "ps \<noteq> [] \<Longrightarrow> join '';'' (x # map (\<lambda>p. CHR '' '' # tag_pair p) ps) = x @ CHR '';'' # CHR '' '' # tag_text ps"
proof (induction ps arbitrary: x)
  case (Cons p ps)
  then show ?case by (cases ps) (auto simp: tag_text_def)
qed simp

lemma tag_text_strip:
  assumes "list_all tag_ok (kvs @ [(''b'', v)])" "kvs \<noteq> []" "\<forall>kv \<in> set kvs. fst kv \<noteq> ''b''"
  shows "strip_b_tag (tag_text (kvs @ [(''b'', v)])) = tag_text (kvs @ [(''b'', [])])"
proof -
  obtain p ps where kvs: "kvs = p # ps" using assms(2) by (cases kvs) auto
  let ?f = "\<lambda>q. if has_prefix (to_lower (trim_space q)) ''b='' then '' b='' else q"
  have ok: "tag_ok p" "list_all tag_ok (ps @ [(''b'', v)])" using assms(1) kvs by simp_all
  have keep: "?f (CHR '' '' # tag_pair q) = CHR '' '' # tag_pair q" if "q \<in> set ps" for q
    using that ok(2) assms(3) kvs tag_pair_b [of q] by (auto simp: list_all_iff tag_step)
  have b: "?f (CHR '' '' # tag_pair (''b'', v)) = CHR '' '' # tag_pair (''b'', [])"
    using ok(2) tag_pair_b [of "(''b'', v)"] by (simp add: tag_step) (simp add: tag_pair_def)
  have "map ?f (split_on CHR '';'' (tag_text (kvs @ [(''b'', v)]))) = tag_pair p # map (\<lambda>q. CHR '' '' # tag_pair q) (ps @ [(''b'', [])])"
    using assms(1,3) keep b tag_pair_b [OF ok(1)] tag_step(4) [OF ok(1)] tag_text_split [of p "ps @ [(''b'', v)]"] kvs by simp
  then have "strip_b_tag (tag_text (kvs @ [(''b'', v)])) = trim_space (join '';'' (tag_pair p # map (\<lambda>q. CHR '' '' # tag_pair q) (ps @ [(''b'', [])])))"
    by (simp only: strip_b_tag_def)
  also have "\<dots> = trim_space (tag_text (kvs @ [(''b'', [])]))"
    using join_spaced [of "ps @ [(''b'', [])]" "tag_pair p"] tag_text_Cons [of "ps @ [(''b'', [])]" p] kvs by simp
  also have "\<dots> = tag_text (kvs @ [(''b'', [])])"
  proof -
    have "list_all tag_ok (kvs @ [(''b'', [])])" using assms(1) by (simp add: tag_ok_def)
    from tag_text_collapse [OF this] trim_collapse show ?thesis by (metis append_is_Nil_conv not_Cons_self2)
  qed
  finally show ?thesis .
qed

section \<open>Names and keys\<close>

text \<open>What \<^verbatim>\<open>Sign\<close> and the verification expect of a key: they work together, and hashes and signatures are not empty.\<close>
definition key_pair :: "crypto \<Rightarrow> priv_key \<Rightarrow> bool" where
  "key_pair cr key \<longleftrightarrow>
     (\<forall>h sig. cr_sign cr key h = Some sig \<longrightarrow> sig \<noteq> [] \<and> verify_signature cr (cr_public cr key) (signature_algorithm key) h sig = None) \<and>
     (\<forall>x. cr_sha cr x \<noteq> [])"

text \<open>The names in the configuration of a signer: a domain in small letters, and no separators\<close>
definition signer_names :: "file_signer \<Rightarrow> bool" where
  "signer_names s \<longleftrightarrow>
     fs_domain s \<noteq> [] \<and> fs_selector s \<noteq> [] \<and> to_lower (fs_domain s) = fs_domain s \<and> plain_value (fs_domain s) \<and> plain_value (fs_selector s) \<and>
     list_all (\<lambda>n. plain_value n \<and> CHR '':'' \<notin> set n) (fs_headers s)"

lemma equal_bytes_refl [simp]: "equal_bytes a a"
proof -
  have "foldl (\<lambda>(x :: 8 word) (c, d). x OR (word_of_nat (of_char c) XOR word_of_nat (of_char d))) 0 (zip a a) = 0"
    by (induction a) simp_all
  then show ?thesis by (simp add: equal_bytes_def)
qed

lemma lower_char_keeps: "\<not> is_upper c \<Longrightarrow> lower_char c = c"
  by (simp add: lower_char_def)

lemma lower_plain: "plain_value s \<Longrightarrow> plain_value (to_lower s)"
proof -
  have "\<not> is_space (lower_char c) \<and> lower_char c \<noteq> CHR '';''" if "\<not> is_space c" "c \<noteq> CHR '';''" for c
  proof (cases "is_upper c")
    case True
    have "65 \<le> (of_char c :: nat)" "(of_char c :: nat) \<le> 90" using True by (simp_all add: is_upper_def less_eq_char_def)
    then have "(of_char (lower_char c) :: nat) = of_char c + 32" "65 \<le> (of_char c :: nat)" by (simp_all add: lower_char_def True)
    then show ?thesis by (auto simp: is_space_def)
  qed (use that in \<open>simp add: lower_char_keeps\<close>)
  then show "plain_value s \<Longrightarrow> plain_value (to_lower s)" by (auto simp: plain_value_def to_lower_def)
qed

lemma lower_colon: "CHR '':'' \<notin> set s \<Longrightarrow> CHR '':'' \<notin> set (to_lower s)"
proof -
  have "lower_char c \<noteq> CHR '':''" if "c \<noteq> CHR '':''" for c
  proof (cases "is_upper c")
    case True
    have "65 \<le> (of_char c :: nat)" "(of_char c :: nat) \<le> 90" using True by (simp_all add: is_upper_def less_eq_char_def)
    then have "(of_char (lower_char c) :: nat) = of_char c + 32" "65 \<le> (of_char c :: nat)" by (simp_all add: lower_char_def True)
    then show ?thesis by auto
  qed (use that in \<open>simp add: lower_char_keeps\<close>)
  then show "CHR '':'' \<notin> set s \<Longrightarrow> CHR '':'' \<notin> set (to_lower s)" by (force simp: to_lower_def)
qed

text \<open>The names that end up in the tag \<^verbatim>\<open>h\<close>\<close>
lemma signed_names:
  assumes "build_signed_headers rs used want = (names, out)" "list_all (\<lambda>n. plain_value n \<and> CHR '':'' \<notin> set n) want"
  shows "\<forall>n \<in> set names. n \<noteq> [] \<and> plain_value n \<and> CHR '':'' \<notin> set n \<and> to_lower n = n"
  using assms
proof (induction want arbitrary: used names out)
  case (Cons n ns)
  have n: "plain_value n" "CHR '':'' \<notin> set n" "list_all (\<lambda>n. plain_value n \<and> CHR '':'' \<notin> set n) ns" using Cons.prems(2) by simp_all
  from Cons.prems(1) show ?case
  proof (cases rule: build_signed_Cons)
    case skip
    then show ?thesis using Cons.IH n(3) by blast
  next
    case (found i ns' out')
    from found(1) Cons.IH [OF found(3) n(3)] lower_plain [OF n(1)] lower_colon [OF n(2)]
    show ?thesis unfolding found(4) plain_trim [OF n(1)] by simp
  qed
qed simp

lemma to_lower_colon: "to_lower (CHR '':'' # s) = CHR '':'' # to_lower s"
  by (simp add: to_lower_def lower_char_def is_upper_def less_eq_char_def)

lemma to_lower_join: "\<forall>n \<in> set ns. to_lower n = n \<Longrightarrow> to_lower (join '':'' ns) = join '':'' ns"
  by (induction "'':''" ns rule: join.induct) (auto simp: to_lower_append to_lower_colon)

lemma plain_join: "\<forall>n \<in> set ns. plain_value n \<Longrightarrow> plain_value (join '':'' ns)"
  by (induction "'':''" ns rule: join.induct) (auto simp: is_space_def)

lemma relaxed_canon: "parse_canon ''relaxed/relaxed'' = (''relaxed'', ''relaxed'')"
  by code_simp

text \<open>The tags of a signature of the agent pass the checks of the verifier.\<close>
lemma algorithm_facts: "plain_value (signature_algorithm key)" "to_lower (signature_algorithm key) = signature_algorithm key"
  "supported_algorithm (signature_algorithm key)"
proof -
  have "plain_value ''ed25519-sha256'' \<and> to_lower ''ed25519-sha256'' = ''ed25519-sha256'' \<and>
      plain_value ''rsa-sha256'' \<and> to_lower ''rsa-sha256'' = ''rsa-sha256''"
    by (simp add: is_space_def to_lower_def lower_char_def is_upper_def less_eq_char_def)
  then show "plain_value (signature_algorithm key)" "to_lower (signature_algorithm key) = signature_algorithm key"
    "supported_algorithm (signature_algorithm key)"
    by (simp_all add: signature_algorithm_def supported_algorithm_def split: priv_key.split)
qed

section \<open>What the verifier makes of a new signature\<close>

text \<open>The data the verifier builds for a signature in front of a header is what was signed.\<close>
lemma signed_data_agrees:
  assumes "build_signed_headers (parse_raw_headers head) (replicate (length (parse_raw_headers head)) False) want = (names, out)" "names \<noteq> []"
    and "list_all (\<lambda>n. plain_value n \<and> CHR '':'' \<notin> set n) want" "strip_b_tag v = base"
  shows "build_signed_data (xs @ parse_headers head) (join '':'' names) v ''relaxed'' field = out @ trim_suffix (canon_header_relaxed field base) crlf"
proof -
  have ns: "\<forall>n \<in> set names. n \<noteq> [] \<and> plain_value n \<and> CHR '':'' \<notin> set n \<and> to_lower n = n" using signed_names [OF assms(1,3)] .
  have names: "split_on CHR '':'' (to_lower (join '':'' names)) = names" using ns assms(2) by (simp add: to_lower_join split_on_join)
  have "replicate (length (xs @ parse_headers head)) False = replicate (length xs) False @ replicate (length (parse_raw_headers head)) False"
    using list_all2_lengthD [OF parsers_same [of head]] by (simp add: replicate_add)
  then show ?thesis using searches_agree [OF assms(1) parsers_same, of xs] by (simp add: build_signed_data_def names assms(4) canon_header_same)
qed

lemma names_join:
  assumes "build_signed_headers rs used want = (names, out)" "names \<noteq> []" "list_all (\<lambda>n. plain_value n \<and> CHR '':'' \<notin> set n) want"
  shows "plain_value (join '':'' names) \<and> join '':'' names \<noteq> []"
proof -
  have ns: "\<forall>n \<in> set names. n \<noteq> [] \<and> plain_value n \<and> CHR '':'' \<notin> set n \<and> to_lower n = n" using signed_names [OF assms(1,3)] .
  then have "join '':'' names \<noteq> []" using assms(2) by (cases names; cases "tl names") auto
  with ns show ?thesis by (simp add: plain_join)
qed

lemma own_body_hash:
  assumes "tags ''c'' = ''relaxed/relaxed''" "tags ''l'' = []" "tags ''bh'' = body_hash cr body"
  shows "body_hash_error cr tags body = None"
proof -
  have "trim_space (body_hash cr body) = body_hash cr body" "b64_decode False (body_hash cr body) = Some (cr_sha cr (signer_body body))"
    by (simp_all add: body_hash_def plain_trim b64_plain b64_decode_encode)
  then show ?thesis using assms by (simp add: body_hash_error_def relaxed_canon bodies_agree)
qed

lemma compact_b64 [simp]: "compact_b_tag (b64_encode s) = b64_encode s"
  using plain_spaces [OF b64_plain] by (simp add: compact_b_tag_def split_fields_def fields_acc_one)

text \<open>The signature of a key pair is valid for the published key.\<close>
lemma own_signature:
  assumes "key_pair cr key" "cr_sign cr key h = Some sig"
  shows "verify_signature cr (cr_public cr key) (to_lower (signature_algorithm key)) h sig = None" "b64_encode sig \<noteq> []"
  using assms by (auto simp: key_pair_def algorithm_facts)

lemma reload_keeps: "reload_if_needed cr kf s = (s', e) \<Longrightarrow> fs_domain s' = fs_domain s \<and> fs_selector s' = fs_selector s \<and> fs_headers s' = fs_headers s"
  by (auto simp: reload_if_needed_def split: if_splits option.splits sum.splits)

end
