(* ===== verification/Dkim_Claims.thy ===== *)
theory Dkim_Claims
  imports Dkim_Tags
begin

text \<open>
  What DKIM promises: the messages the agent signs pass the verification of the agent, and what passes was signed with the
  key that the domain publishes. And where the canonical forms differ from RFC 6376.
\<close>

section \<open>The value of a signature\<close>

definition sig_tags :: "string \<Rightarrow> string \<Rightarrow> string \<Rightarrow> string \<Rightarrow> string \<Rightarrow> string \<Rightarrow> (string \<times> string) list" where
  "sig_tags algo d s t h bh =
     [(''v'', ''1''), (''a'', algo), (''c'', ''relaxed/relaxed''), (''d'', d), (''s'', s), (''t'', t), (''h'', h), (''bh'', bh)]"

abbreviation sig_value :: "string \<Rightarrow> string \<Rightarrow> string \<Rightarrow> string \<Rightarrow> string \<Rightarrow> string \<Rightarrow> string \<Rightarrow> string" where
  "sig_value algo d s t h bh b \<equiv> tag_text (sig_tags algo d s t h bh @ [(''b'', b)])"

definition plain_all :: "string list \<Rightarrow> bool" where "plain_all xs \<longleftrightarrow> list_all plain_value xs"

lemma signature_base_value:
  "signature_base cr sg key t names body @ b =
     sig_value (signature_algorithm key) (fs_domain sg) (fs_selector sg) (show_int t) (join '':'' names) (body_hash cr body) b"
  by (simp add: signature_base_def tag_text_def sig_tags_def tag_pair_def)

lemma sig_tags_ok: "plain_all [algo, d, s, t, h, bh, b] \<Longrightarrow> list_all tag_ok (sig_tags algo d s t h bh @ [(''b'', b)])"
  by (simp add: sig_tags_def tag_ok_def plain_all_def is_space_def to_lower_def lower_char_def is_upper_def less_eq_char_def)

lemma sig_collapse: "plain_all [algo, d, s, t, h, bh, b] \<Longrightarrow> collapse_wsp (sig_value algo d s t h bh b) = sig_value algo d s t h bh b"
  using tag_text_collapse [OF sig_tags_ok] by simp

lemma sig_tag_list:
  "plain_all [algo, d, s, t, h, bh, b] \<Longrightarrow> parse_tag_list (sig_value algo d s t h bh b) =
    (\<lambda>_. [])(''v'' := ''1'', ''a'' := algo, ''c'' := ''relaxed/relaxed'', ''d'' := d, ''s'' := s, ''t'' := t, ''h'' := h, ''bh'' := bh, ''b'' := b)"
  using tag_text_tags [OF sig_tags_ok, of algo d s t h bh b] by (simp add: sig_tags_def)

lemma sig_strip: "plain_all [algo, d, s, t, h, bh, b] \<Longrightarrow> strip_b_tag (sig_value algo d s t h bh b) = sig_value algo d s t h bh []"
  by (rule tag_text_strip [OF sig_tags_ok]) (auto simp: sig_tags_def)

lemma sig_value_lines:
  "plain_all [algo, d, s, t, h, bh, b] \<Longrightarrow> CHR 0x0D \<notin> set (sig_value algo d s t h bh b) \<and> LF \<notin> set (sig_value algo d s t h bh b)"
  using tag_text_lines [OF sig_tags_ok] by simp

section \<open>Signing and verifying\<close>

text \<open>The message that \<^verbatim>\<open>Sign\<close> makes, seen by the verifier\<close>
lemma sign_with_key_result:
  assumes "sign_with_key cr s key t raw = Inr mail" "split_message raw = Some (head, body)"
  obtains names out sig where "build_signed_headers (parse_raw_headers head) (replicate (length (parse_raw_headers head)) False) (fs_headers s) = (names, out)"
    "names \<noteq> []" "cr_sign cr key (cr_sha cr (out @ trim_suffix (canon_header_relaxed ''DKIM-Signature'' (signature_base cr s key t names body)) crlf)) = Some sig"
    "mail = ''DKIM-Signature: '' @ (signature_base cr s key t names body @ b64_encode sig) @ crlf @ head @ crlf @ crlf @ body"
  using assms that
  by (auto simp: sign_with_key_def sign_sha256_def Let_def split: if_splits option.splits prod.splits)

text \<open>The signature that was put in front of the message passes.\<close>
lemma own_signature_passes:
  assumes build: "build_signed_headers (parse_raw_headers head) (replicate (length (parse_raw_headers head)) False) (fs_headers s) = (names, out)" "names \<noteq> []"
    and sign: "cr_sign cr key (cr_sha cr (out @ trim_suffix (canon_header_relaxed ''DKIM-Signature'' (signature_base cr s key t names body)) crlf)) = Some sig"
    and s: "signer_names s" "key_pair cr key" "0 \<le> t" "t \<le> max_int64"
    and key: "lookup_dkim_key cr txt (fs_domain s) (fs_selector s) = Inr (cr_public cr key)"
  shows "verify_dkim_sig cr txt tm (x # parse_headers head) body (signature_base cr s key t names body @ b64_encode sig) =
    \<lparr>dk_domain = fs_domain s, dk_selector = fs_selector s, dk_result = ''pass'', dk_reason = []\<rparr>"
proof -
  let ?algo = "signature_algorithm key" and ?d = "fs_domain s" and ?s = "fs_selector s" and ?t = "show_int t"
    and ?h = "join '':'' names" and ?bh = "body_hash cr body" and ?b = "b64_encode sig"
  let ?v = "sig_value ?algo ?d ?s ?t ?h ?bh ?b"
  have hs: "list_all (\<lambda>n. plain_value n \<and> CHR '':'' \<notin> set n) (fs_headers s)" using s(1) by (simp add: signer_names_def)
  have d: "?d \<noteq> []" "?s \<noteq> []" "to_lower ?d = ?d" "plain_value ?d" "plain_value ?s" using s(1) by (simp_all add: signer_names_def)
  note h = names_join [OF build hs]
  have plain: "plain_all [?algo, ?d, ?s, ?t, ?h, ?bh, ?b]"
    using d h s(3,4) by (simp add: plain_all_def algorithm_facts show_int_value b64_plain body_hash_def)
  have bne: "?b \<noteq> []" "?bh \<noteq> []" using own_signature(2) [OF s(2) sign] s(2) by (auto simp: key_pair_def body_hash_def)
  note tags = sig_tag_list [OF plain]
  have checks: "signature_tags (parse_tag_list ?v) tm = None"
    using d h bne show_int_value [OF s(3,4)] plain s(3)
    by (simp add: tags signature_tags_def check_times_def check_expiry_def algorithm_facts plain_all_def plain_trim Let_def)
  have hash: "body_hash_error cr (parse_tag_list ?v) body = None" by (rule own_body_hash) (simp_all add: tags)
  have strip: "strip_b_tag ?v = signature_base cr s key t names body"
    using sig_strip [OF plain] signature_base_value [of cr s key t names body "[]"] by simp
  have sig: "key_error cr txt (parse_tag_list ?v) (build_signed_data (x # parse_headers head) ?h ?v ''relaxed'' ''DKIM-Signature'') = None"
    using own_signature(1) [OF s(2) sign] key d(3) signed_data_agrees [OF build hs strip, of "[x]"]
    by (simp add: tags key_error_def b64_decode_encode)
  have "signature_error cr txt tm (x # parse_headers head) body ?v = None"
    using checks hash sig by (simp add: signature_error_def Let_def tags relaxed_canon)
  then show ?thesis unfolding signature_base_value by (simp add: verify_dkim_sig_def Let_def tags d(3))
qed

text \<open>The message made by the signer: header and body as before, with the signature as the first field\<close>
lemma dkim_signed_mail:
  assumes "dkim_sign cr kf t s raw = (s', Inr mail)" "fs_key s' = Some key"
    and "split_message raw = Some (head, body)" "head \<noteq> []" "\<not> is_space (hd head)"
    and "signer_names s" "key_pair cr key" "0 \<le> t" "t \<le> max_int64"
    and "lookup_dkim_key cr txt (fs_domain s) (fs_selector s) = Inr (cr_public cr key)"
  obtains head' x where "split_message mail = Some (head', body)" "parse_headers head' = x # parse_headers head" "hd_name x = ''DKIM-Signature''"
    "\<And>tm. verify_dkim_sig cr txt tm (x # parse_headers head) body (hd_value x) =
       \<lparr>dk_domain = fs_domain s, dk_selector = fs_selector s, dk_result = ''pass'', dk_reason = []\<rparr>"
proof -
  have r: "reload_if_needed cr kf s = (s', None)" "sign_with_key cr s' key t raw = Inr mail"
    using assms(1,2) by (auto simp: dkim_sign_def split: prod.splits option.splits)
  have same: "fs_domain s' = fs_domain s" "fs_selector s' = fs_selector s" "signer_names s'"
    using reload_keeps [OF r(1)] assms(6) by (auto simp: signer_names_def)
  obtain names out sig where b: "build_signed_headers (parse_raw_headers head) (replicate (length (parse_raw_headers head)) False) (fs_headers s') = (names, out)" "names \<noteq> []"
    and k: "cr_sign cr key (cr_sha cr (out @ trim_suffix (canon_header_relaxed ''DKIM-Signature'' (signature_base cr s' key t names body)) crlf)) = Some sig"
    and mail: "mail = ''DKIM-Signature: '' @ (signature_base cr s' key t names body @ b64_encode sig) @ crlf @ head @ crlf @ crlf @ body"
    using sign_with_key_result [OF r(2) assms(3)] .
  let ?v = "signature_base cr s' key t names body @ b64_encode sig"
  have hs: "list_all (\<lambda>n. plain_value n \<and> CHR '':'' \<notin> set n) (fs_headers s')" using same(3) by (simp add: signer_names_def)
  have plain: "plain_all [signature_algorithm key, fs_domain s', fs_selector s', show_int t, join '':'' names, body_hash cr body, b64_encode sig]"
    using names_join [OF b hs] same(3) assms(8,9) by (simp add: plain_all_def algorithm_facts show_int_value b64_plain body_hash_def signer_names_def)
  have v: "CHR 0x0D \<notin> set ?v" "LF \<notin> set ?v" "collapse_wsp ?v = ?v"
    using sig_value_lines [OF plain] sig_collapse [OF plain] unfolding signature_base_value by blast+
  let ?x = "\<lparr>hd_name = ''DKIM-Signature'', hd_value = ?v, hd_raw = trim_space ?v\<rparr>"
  have split: "split_message mail = Some (''DKIM-Signature: '' @ ?v @ crlf @ head, body)"
    using split_message_prepend [OF assms(3,4,5), of "''DKIM-Signature: '' @ ?v"] v(1,2) unfolding mail by simp
  have "parse_headers (''DKIM-Signature'' @ '': '' @ ?v @ crlf @ head) = ?x # parse_headers head"
    using parse_headers_prepend [OF assms(4,5), of "''DKIM-Signature''" ?v] v by (simp add: is_space_def)
  moreover have "verify_dkim_sig cr txt tm (?x # parse_headers head) body ?v =
      \<lparr>dk_domain = fs_domain s, dk_selector = fs_selector s, dk_result = ''pass'', dk_reason = []\<rparr>" for tm
    using own_signature_passes [OF b k same(3) assms(7-9)] assms(10) same(1,2) by simp
  ultimately show ?thesis using that [OF split, of ?x] by simp
qed

lemma dkim_first_passes:
  assumes "verify_dkim_sig cr txt (now 0) (x # hs) body (hd_value x) = r" "hd_name x = ''DKIM-Signature''" "dk_result r = ''pass''"
  shows "dr_result (eval_dkim cr txt now (x # hs) body) = ''pass'' \<and> r \<in> set (dr_sigs (eval_dkim cr txt now (x # hs) body))"
proof -
  obtain vs where "header_values (x # hs) ''DKIM-Signature'' = hd_value x # vs" using assms(2) by (simp add: header_values_def)
  moreover have "to_lower (trim_space ''pass'') = ''pass''" by code_simp
  ultimately show ?thesis using assms(1,3) by (simp add: eval_dkim_def Let_def aggregate_dkim_def)
qed

text \<open>C14: What the agent signs, it verifies: a message that begins with a header field and is signed with the key of a signer passes the
  verification wherever the public key of the signer is found under its selector, with the domain of the signer, and with the
  body unchanged, whatever other signatures the message carries.\<close>
theorem dkim_sign_verify:
  assumes "dkim_sign cr kf t s raw = (s', Inr mail)" "fs_key s' = Some key"
    and "split_message raw = Some (head, body)" "head \<noteq> []" "\<not> is_space (hd head)"
    and "signer_names s" "key_pair cr key" "0 \<le> t" "t \<le> max_int64"
    and "lookup_dkim_key cr txt (fs_domain s) (fs_selector s) = Inr (cr_public cr key)"
  shows "\<exists>head'. split_message mail = Some (head', body) \<and>
    dr_result (eval_dkim cr txt now (parse_headers head') body) = ''pass'' \<and>
    \<lparr>dk_domain = fs_domain s, dk_selector = fs_selector s, dk_result = ''pass'', dk_reason = []\<rparr> \<in> set (dr_sigs (eval_dkim cr txt now (parse_headers head') body))"
proof -
  obtain head' x where m: "split_message mail = Some (head', body)" "parse_headers head' = x # parse_headers head" "hd_name x = ''DKIM-Signature''"
    "\<And>tm. verify_dkim_sig cr txt tm (x # parse_headers head) body (hd_value x) =
       \<lparr>dk_domain = fs_domain s, dk_selector = fs_selector s, dk_result = ''pass'', dk_reason = []\<rparr>"
    using dkim_signed_mail [OF assms] by blast
  from dkim_first_passes [OF m(4) m(3)] m(1,2) show ?thesis by auto
qed

lemma signed_author: "hd_name x = ''DKIM-Signature'' \<Longrightarrow> extract_from_domain (x # hs) = extract_from_domain hs"
proof -
  have "\<not> equal_fold ''DKIM-Signature'' ''From''" by code_simp
  then show "hd_name x = ''DKIM-Signature'' \<Longrightarrow> extract_from_domain (x # hs) = extract_from_domain hs"
    by (simp add: extract_from_domain_def first_header_def)
qed

lemma modes_advisory:
  "normalize_mode spf_modes ''advisory'' ''advisory'' = ''advisory'' \<and> normalize_mode arc_modes ''accept'' ''accept'' = ''accept'' \<and>
   to_lower (trim_space ''legacy'') = ''legacy'' \<and> to_lower ''pass'' = ''pass'' \<and> to_lower ''none'' = ''none'' \<and> to_lower ''temperror'' = ''temperror'' \<and> equal_fold ''pass'' ''pass''"
  by code_simp

text \<open>C37: A message that is signed for the domain of its author is accepted by the policy of the listener, whatever record the domain
  publishes for DMARC, however SPF judges the client, and whatever the state of its ARC chain.\<close>
theorem signed_mail_accepted:
  assumes "dkim_sign cr kf t s raw = (s', Inr mail)" "fs_key s' = Some key"
    and "split_message raw = Some (head, body)" "head \<noteq> []" "\<not> is_space (hd head)"
    and "signer_names s" "key_pair cr key" "0 \<le> t" "t \<le> max_int64"
    and "lookup_dkim_key cr txt (fs_domain s) (fs_selector s) = Inr (cr_public cr key)"
    and "extract_from_domain (parse_headers head) = fs_domain s" "ae_dkim env = eval_dkim cr txt now"
  shows "mr_action (evaluate_mail env remote helo sender mail) = MailAccept"
proof -
  obtain head' x where m: "split_message mail = Some (head', body)" "parse_headers head' = x # parse_headers head" "hd_name x = ''DKIM-Signature''"
    "\<And>tm. verify_dkim_sig cr txt tm (x # parse_headers head) body (hd_value x) =
       \<lparr>dk_domain = fs_domain s, dk_selector = fs_selector s, dk_result = ''pass'', dk_reason = []\<rparr>"
    using dkim_signed_mail [OF assms(1-10)] by blast
  let ?r = "\<lparr>dk_domain = fs_domain s, dk_selector = fs_selector s, dk_result = ''pass'', dk_reason = []\<rparr>"
  have d: "fs_domain s \<noteq> []" using assms(6) by (simp add: signer_names_def)
  have sig: "?r \<in> set (dr_sigs (eval_dkim cr txt now (parse_headers head') body))"
    using dkim_first_passes [OF m(4) m(3)] m(2) by simp
  have "aligned (fs_domain s) (fs_domain s) mode" for mode using d by (simp add: aligned_def)
  then have al: "dkim_aligned rec (fs_domain s) (eval_dkim cr txt now (parse_headers head') body)" for rec
    using sig modes_advisory unfolding dkim_aligned_def list_ex_iff by (intro bexI [of _ ?r]) simp_all
  have author: "extract_from_domain (parse_headers head') = fs_domain s" using m(2) signed_author [OF m(3)] assms(11) by simp
  have "to_lower (dm_result (eval_dmarc d (fs_domain s) spf (eval_dkim cr txt now (parse_headers head') body))) \<noteq> ''fail''" for d spf
    using al assms(6) modes_advisory by (auto simp: eval_dmarc_def signer_names_def Let_def split: sum.split option.split)
  then show ?thesis using modes_advisory m(1) author assms(12)
    by (simp add: evaluate_mail_def evaluate_with_policy_def default_spf_policy_def Let_def mail_evidence_def apply_dmarc_def apply_arc_def)
qed

section \<open>What a pass means\<close>

text \<open>The comparison of hashes in constant time is equality.\<close>
lemma or_zero: "x OR y = (0 :: 8 word) \<longleftrightarrow> x = 0 \<and> y = 0"
proof
  assume a: "x OR y = 0"
  then have "x AND (x OR y) = 0" "y AND (x OR y) = 0" by simp_all
  moreover have "x AND (x OR y) = x" "y AND (x OR y) = y" by (rule bit_eqI; simp add: bit_simps; blast)+
  ultimately show "x = 0 \<and> y = 0" by simp
qed simp

lemma xor_zero: "x XOR y = (0 :: 8 word) \<longleftrightarrow> x = y"
proof
  assume "x XOR y = 0"
  then have "(x XOR y) XOR y = y" by simp
  then show "x = y" by (simp add: xor.assoc)
qed simp

lemma byte_eq: "(word_of_nat (of_char c) :: 8 word) = word_of_nat (of_char d) \<longleftrightarrow> c = d"
proof
  assume "(word_of_nat (of_char c) :: 8 word) = word_of_nat (of_char d)"
  then have "unat (word_of_nat (of_char c) :: 8 word) = unat (word_of_nat (of_char d) :: 8 word)" by simp
  then show "c = d" by (simp add: unat_of_nat)
qed simp

lemma equal_bytes_eq: "equal_bytes a b \<longleftrightarrow> a = b"
proof -
  let ?f = "\<lambda>(x :: 8 word) (c, d). x OR (word_of_nat (of_char c) XOR word_of_nat (of_char d))"
  have "foldl ?f x (zip a b) = 0 \<longleftrightarrow> x = 0 \<and> a = b" if "length a = length b" for x
    using that by (induction a b arbitrary: x rule: list_induct2) (auto simp: or_zero xor_zero byte_eq)
  then show ?thesis by (auto simp: equal_bytes_def)
qed

lemma verify_pass:
  assumes "dk_result (verify_dkim_sig cr txt tm hs body sig) = ''pass''" "tags = parse_tag_list sig"
  shows "(\<exists>pub b. lookup_dkim_key cr txt (to_lower (tags ''d'')) (tags ''s'') = Inr pub \<and>
      verify_signature cr pub (to_lower (tags ''a'')) (cr_sha cr (build_signed_data hs (tags ''h'') sig (fst (parse_canon (tags ''c''))) ''DKIM-Signature'')) b = None) \<and>
    (\<exists>canon. canonical_body body (snd (parse_canon (tags ''c''))) (tags ''l'') = Inr canon \<and> b64_decode False (trim_space (tags ''bh'')) = Some (cr_sha cr canon))"
proof -
  have fails: "verify_signature cr pub algo h b = Some e \<Longrightarrow> fst e \<noteq> ''pass''" for pub algo h b e
    by (auto simp: verify_signature_def split: pub_key.splits if_splits)
  have keys: "lookup_dkim_key cr txt d sl = Inl e \<Longrightarrow> fst e \<noteq> ''pass''" for d sl e
    by (auto simp: lookup_dkim_key_def published_key_def Let_def split: sum.splits if_splits option.splits pub_key.splits)
  have ke: "key_error cr txt tags data = Some e \<Longrightarrow> fst e \<noteq> ''pass''" for data e
    using fails keys by (simp add: key_error_def split: option.splits sum.splits) auto
  have be: "body_hash_error cr tags body = Some e \<Longrightarrow> fst e \<noteq> ''pass''" for e
    by (auto simp: body_hash_error_def split: option.splits sum.splits if_splits)
  let ?data = "build_signed_data hs (tags ''h'') sig (fst (parse_canon (tags ''c''))) ''DKIM-Signature''"
  have err: "signature_error cr txt tm hs body sig = (case signature_tags tags tm of Some e \<Rightarrow> Some (''permerror'', e)
      | None \<Rightarrow> (case body_hash_error cr tags body of Some e \<Rightarrow> Some e | None \<Rightarrow> key_error cr txt tags ?data))"
    unfolding assms(2) by (simp add: signature_error_def Let_def)
  have "signature_error cr txt tm hs body sig = Some e \<Longrightarrow> fst e \<noteq> ''pass''" for e
    unfolding err using ke [of ?data e] be [of e] by (cases "signature_tags tags tm"; cases "body_hash_error cr tags body") auto
  then have "signature_error cr txt tm hs body sig = None"
    using assms(1) by (cases "signature_error cr txt tm hs body sig") (simp_all add: verify_dkim_sig_def Let_def)
  then have no: "body_hash_error cr tags body = None" "key_error cr txt tags ?data = None"
    unfolding err by (cases "signature_tags tags tm"; cases "body_hash_error cr tags body"; simp)+
  have "\<exists>canon. canonical_body body (snd (parse_canon (tags ''c''))) (tags ''l'') = Inr canon \<and> b64_decode False (trim_space (tags ''bh'')) = Some (cr_sha cr canon)"
    using no(1) by (auto simp: body_hash_error_def equal_bytes_eq split: option.splits sum.splits if_splits)
  moreover have "\<exists>pub b. lookup_dkim_key cr txt (to_lower (tags ''d'')) (tags ''s'') = Inr pub \<and>
      verify_signature cr pub (to_lower (tags ''a'')) (cr_sha cr ?data) b = None"
    using no(2) unfolding key_error_def by (auto split: option.splits sum.splits)
  ultimately show ?thesis by blast
qed

text \<open>C36: A pass is the word of the key's owner: when the key that a domain publishes verifies only signatures of data that its owner signed,
  then a signature that passes covers data with the hash of such data, made of the header of this message, and the hash of the
  canonical body of this message is the one in the signature.\<close>
theorem dkim_pass_authentic:
  assumes "r \<in> set (dr_sigs (eval_dkim cr txt now hs body))" "dk_result r = ''pass''"
    and "\<And>pub algo h b. lookup_dkim_key cr txt (dk_domain r) (dk_selector r) = Inr pub \<Longrightarrow> verify_signature cr pub algo h b = None \<Longrightarrow> h \<in> cr_sha cr ` owner"
  shows "\<exists>sig \<in> set (header_values hs ''DKIM-Signature''). \<exists>canon.
    to_lower (parse_tag_list sig ''d'') = dk_domain r \<and> parse_tag_list sig ''s'' = dk_selector r \<and>
    cr_sha cr (build_signed_data hs (parse_tag_list sig ''h'') sig (fst (parse_canon (parse_tag_list sig ''c''))) ''DKIM-Signature'') \<in> cr_sha cr ` owner \<and>
    canonical_body body (snd (parse_canon (parse_tag_list sig ''c''))) (parse_tag_list sig ''l'') = Inr canon \<and>
    b64_decode False (trim_space (parse_tag_list sig ''bh'')) = Some (cr_sha cr canon)"
proof -
  let ?sigs = "header_values hs ''DKIM-Signature''"
  obtain i where i: "i < length ?sigs" "r = verify_dkim_sig cr txt (now i) hs body (?sigs ! i)"
    using assms(1) by (auto simp: eval_dkim_def Let_def in_set_enumerate_eq split: if_splits)
  have d: "dk_domain r = to_lower (parse_tag_list (?sigs ! i) ''d'')" "dk_selector r = parse_tag_list (?sigs ! i) ''s''"
    using i(2) by (simp_all add: verify_dkim_sig_def Let_def)
  from verify_pass [OF assms(2) [unfolded i(2)] refl] obtain pub b canon where
    v: "lookup_dkim_key cr txt (dk_domain r) (dk_selector r) = Inr pub"
      "verify_signature cr pub (to_lower (parse_tag_list (?sigs ! i) ''a'')) (cr_sha cr (build_signed_data hs (parse_tag_list (?sigs ! i) ''h'') (?sigs ! i)
        (fst (parse_canon (parse_tag_list (?sigs ! i) ''c''))) ''DKIM-Signature'')) b = None"
    and c: "canonical_body body (snd (parse_canon (parse_tag_list (?sigs ! i) ''c''))) (parse_tag_list (?sigs ! i) ''l'') = Inr canon"
      "b64_decode False (trim_space (parse_tag_list (?sigs ! i) ''bh'')) = Some (cr_sha cr canon)"
    unfolding d by blast
  have "?sigs ! i \<in> set ?sigs" using i(1) by simp
  then show ?thesis using assms(3) [OF v] c d [symmetric] by blast
qed

section \<open>Examples\<close>

text \<open>A key that signs data beginning with the author only, its record, and a message\<close>
definition demo_crypto :: crypto where
  "demo_crypto = \<lparr>cr_sha = (\<lambda>x. CHR ''h'' # x), cr_pkix = (\<lambda>_. None), cr_pkcs1_public = (\<lambda>_. None), cr_marshal = (\<lambda>_. Some []),
     cr_verify_rsa = (\<lambda>_ _ _. False), cr_verify_ed = (\<lambda>k h sig. has_prefix h ''hfrom:'' \<and> sig = CHR ''s'' # h),
     cr_public = (\<lambda>_. PubEd (replicate 32 CHR ''k'')), cr_sign = (\<lambda>_ h. if has_prefix h ''hfrom:'' then Some (CHR ''s'' # h) else None),
     cr_pem = (\<lambda>_. None), cr_pkcs1 = (\<lambda>_. None), cr_pkcs8 = (\<lambda>_. None)\<rparr>"

definition demo_key :: priv_key where "demo_key = PrivEd ''secret''"

definition demo_signer :: file_signer where
  "demo_signer = \<lparr>fs_fixed = True, fs_domain = ''a.jp'', fs_selector = ''s'', fs_headers = [''from''], fs_mtime = 0, fs_key = Some demo_key\<rparr>"

definition demo_txt :: "string \<Rightarrow> string + string list" where
  "demo_txt name = (if name = ''s._domainkey.a.jp'' then Inr [''k=ed25519; p='' @ b64_encode (replicate 32 CHR ''k'')] else Inl ''no such host'')"

definition demo_raw :: string where "demo_raw = ''From: <u@a.jp>'' @ [LF, LF] @ ''hi'' @ [LF]"

definition no_file :: key_file where "no_file = \<lparr>kf_mtime = None, kf_content = None\<rparr>"

definition demo_mail :: string where
  "demo_mail = (case snd (dkim_sign demo_crypto no_file 7 demo_signer demo_raw) of Inr m \<Rightarrow> m | Inl _ \<Rightarrow> [])"

lemma demo_eval:
  "case dkim_sign demo_crypto no_file 7 demo_signer demo_raw of (s', Inr m) \<Rightarrow> fs_key s' = Some demo_key | _ \<Rightarrow> False"
  "split_message demo_raw = Some (''From: <u@a.jp>'', ''hi'' @ [LF])"
  "\<not> is_space (hd ''From: <u@a.jp>'')"
  "lookup_dkim_key demo_crypto demo_txt ''a.jp'' ''s'' = Inr (PubEd (replicate 32 CHR ''k''))"
  "extract_from_domain (parse_headers ''From: <u@a.jp>'') = ''a.jp''"
  by code_simp+

lemma demo_pair: "key_pair demo_crypto demo_key"
  by (simp add: key_pair_def demo_crypto_def demo_key_def verify_signature_def signature_algorithm_def)

lemma demo_names: "signer_names demo_signer"
  by (simp add: signer_names_def demo_signer_def is_space_def to_lower_def lower_char_def is_upper_def less_eq_char_def)

lemma demo_signed: obtains s' where "dkim_sign demo_crypto no_file 7 demo_signer demo_raw = (s', Inr demo_mail)" "fs_key s' = Some demo_key"
  using demo_eval(1) unfolding demo_mail_def by (auto split: prod.splits sum.splits)

lemma demo_lookup: "lookup_dkim_key demo_crypto demo_txt (fs_domain demo_signer) (fs_selector demo_signer) = Inr (cr_public demo_crypto demo_key)"
  using demo_eval(4) by (simp add: demo_signer_def demo_crypto_def)

theorem dkim_sign_verify_witness:
  "\<exists>head'. split_message demo_mail = Some (head', ''hi'' @ [LF]) \<and>
    dr_result (eval_dkim demo_crypto demo_txt (\<lambda>_. 9) (parse_headers head') (''hi'' @ [LF])) = ''pass''"
proof -
  obtain s' where "dkim_sign demo_crypto no_file 7 demo_signer demo_raw = (s', Inr demo_mail)" "fs_key s' = Some demo_key" by (rule demo_signed)
  from dkim_sign_verify [OF this demo_eval(2) _ demo_eval(3) demo_names demo_pair _ _ demo_lookup, where now = "\<lambda>_. 9"]
  show ?thesis by (auto simp: max_int64_def)
qed

definition demo_auth :: auth_env where
  "demo_auth = \<lparr>ae_spf = \<lparr>sd_txt = (\<lambda>_. Inr [''v=spf1 -all'']), sd_ip = (\<lambda>_. Inr []), sd_mx = (\<lambda>_. Inr []), sd_addr = (\<lambda>_. Inr [])\<rparr>,
     ae_dmarc = \<lparr>dd_txt = (\<lambda>_. Inr [''v=DMARC1; p=reject'']), dd_bis_txt = (\<lambda>_. Inr []), dd_ip = (\<lambda>_. None)\<rparr>,
     ae_now = 0, ae_dkim = eval_dkim demo_crypto demo_txt (\<lambda>_. 9), ae_arc = (\<lambda>_ _. \<lparr>ar_result = ''fail'', ar_reason = []\<rparr>)\<rparr>"

theorem signed_mail_accepted_witness:
  "mr_action (evaluate_mail demo_auth None ''x.jp'' ''u@a.jp'' demo_mail) = MailAccept"
proof -
  obtain s' where "dkim_sign demo_crypto no_file 7 demo_signer demo_raw = (s', Inr demo_mail)" "fs_key s' = Some demo_key" by (rule demo_signed)
  from signed_mail_accepted [OF this demo_eval(2) _ demo_eval(3) demo_names demo_pair _ _ demo_lookup, of demo_auth "\<lambda>_. 9"] demo_eval(5)
  show ?thesis by (auto simp: max_int64_def demo_auth_def demo_signer_def)
qed

lemma demo_owner: "verify_signature demo_crypto pub algo h b = None \<Longrightarrow> h \<in> cr_sha demo_crypto ` {x. has_prefix x ''from:''}"
proof -
  assume "verify_signature demo_crypto pub algo h b = None"
  then have "has_prefix h ''hfrom:''" by (auto simp: verify_signature_def demo_crypto_def split: pub_key.splits if_splits)
  then show ?thesis by (cases h) (auto simp: has_prefix_def demo_crypto_def)
qed

lemma demo_passes:
  obtains head where "split_message demo_mail = Some (head, ''hi'' @ [LF])"
    "\<lparr>dk_domain = ''a.jp'', dk_selector = ''s'', dk_result = ''pass'', dk_reason = []\<rparr> \<in> set (dr_sigs (eval_dkim demo_crypto demo_txt (\<lambda>_. 9) (parse_headers head) (''hi'' @ [LF])))"
proof -
  obtain s' where s: "dkim_sign demo_crypto no_file 7 demo_signer demo_raw = (s', Inr demo_mail)" "fs_key s' = Some demo_key" by (rule demo_signed)
  have t: "''From: <u@a.jp>'' \<noteq> []" "0 \<le> (7 :: int)" "7 \<le> max_int64" by (simp_all add: max_int64_def)
  obtain head' x where m: "split_message demo_mail = Some (head', ''hi'' @ [LF])" "parse_headers head' = x # parse_headers ''From: <u@a.jp>''"
    "hd_name x = ''DKIM-Signature''" "\<And>tm. verify_dkim_sig demo_crypto demo_txt tm (x # parse_headers ''From: <u@a.jp>'') (''hi'' @ [LF]) (hd_value x) =
       \<lparr>dk_domain = fs_domain demo_signer, dk_selector = fs_selector demo_signer, dk_result = ''pass'', dk_reason = []\<rparr>"
    using dkim_signed_mail [OF s demo_eval(2) t(1) demo_eval(3) demo_names demo_pair t(2,3) demo_lookup] by blast
  from dkim_first_passes [where now = "\<lambda>_. 9", OF m(4) m(3)] m(1,2) show ?thesis by (intro that [of head']) (simp_all add: demo_signer_def)
qed

theorem dkim_pass_authentic_witness:
  "\<exists>head body. split_message demo_mail = Some (head, body) \<and> (\<exists>sig \<in> set (header_values (parse_headers head) ''DKIM-Signature''). \<exists>canon.
     canonical_body body (snd (parse_canon (parse_tag_list sig ''c''))) (parse_tag_list sig ''l'') = Inr canon \<and>
     b64_decode False (trim_space (parse_tag_list sig ''bh'')) = Some (cr_sha demo_crypto canon))"
proof -
  obtain head where m: "split_message demo_mail = Some (head, ''hi'' @ [LF])"
    "\<lparr>dk_domain = ''a.jp'', dk_selector = ''s'', dk_result = ''pass'', dk_reason = []\<rparr> \<in> set (dr_sigs (eval_dkim demo_crypto demo_txt (\<lambda>_. 9) (parse_headers head) (''hi'' @ [LF])))"
    by (rule demo_passes)
  from dkim_pass_authentic [OF m(2), of "{x. has_prefix x ''from:''}"] demo_owner m(1) show ?thesis by simp blast
qed

section \<open>Where the canonical forms differ from RFC 6376\<close>

text \<open>The relaxed form of RFC 6376 keeps one space at the beginning of an indented line and is empty for an empty body; the code drops the
  space, so that indented text and text that is not indented have the same hash, and writes one line end for an empty body.\<close>
lemma relaxed_drops_indent:
  "canonical_body ('' x'' @ crlf) ''relaxed'' [] = canonical_body (''x'' @ crlf) ''relaxed'' []" "canonical_body [] ''relaxed'' [] = Inr crlf"
  by code_simp+

text \<open>The simple form of a field is the field as it is; the parser has already removed the space after the colon, so that signatures
  over the simple form of a field written the usual way are computed over other data.\<close>
lemma simple_loses_space:
  "map (\<lambda>h. canon_header (hd_name h) (hd_value h) ''simple'') (parse_headers ''Subject: hi'') = [''Subject:hi'' @ crlf]"
  by code_simp

text \<open>A tag \<^verbatim>\<open>b\<close> without a space in front gets one when it is emptied, and one with a space before the equals sign is not emptied.\<close>
lemma strip_adds_space: "strip_b_tag ''bh=x;b=y'' = ''bh=x; b=''" "strip_b_tag ''bh=x; b =y'' = ''bh=x; b =y''"
  by code_simp+

end
