(* ===== verification/Arc_Claims.thy ===== *)
theory Arc_Claims
  imports Arc Dkim_Claims
begin

text \<open>
  What the seals of the agent say: a chain is declared valid only after every seal of it was verified, and a chain that the agent
  begins is valid.
\<close>

section \<open>What a verified chain is\<close>

definition chain_verified :: "crypto \<Rightarrow> (string \<Rightarrow> string + string list) \<Rightarrow> header list \<Rightarrow> string \<Rightarrow> int \<Rightarrow> bool" where
  "chain_verified cr txt hs body n \<longleftrightarrow>
     1 \<le> n \<and> n \<le> 50 \<and>
     (\<forall>i \<in> {1..n}. \<exists>seal \<in> set (header_values hs ''ARC-Seal''). arc_seal_error cr txt hs seal i = None \<and>
        to_lower (trim_space (parse_tag_list seal ''cv'')) = (if i = 1 then ''none'' else ''pass'')) \<and>
     (\<exists>ams \<in> set (header_values hs ''ARC-Message-Signature''). arc_message_error cr txt hs body ams = None \<and>
        atoi (trim_space (parse_tag_list ams ''i'')) = Some n)"

lemma instance_loop_range:
  assumes "instance_loop vs m = Inr m'" "m' i = Some v"
  shows "m i = Some v \<or> v \<in> set vs \<and> atoi (trim_space (parse_tag_list v ''i'')) = Some i"
  using assms
proof (induction vs m rule: instance_loop.induct)
  case (2 w vs m)
  then obtain j where j: "atoi (trim_space (parse_tag_list w ''i'')) = Some j" "\<not> j \<le> 0" "m j = None" "instance_loop vs (m(j \<mapsto> w)) = Inr m'"
    by (auto split: option.splits if_splits)
  have "(m(j \<mapsto> w)) i = Some v \<or> v \<in> set vs \<and> atoi (trim_space (parse_tag_list v ''i'')) = Some i"
    by (rule 2(1) [OF j(1,2)]) (use j(3,4) 2(3) in \<open>simp_all add: fun_upd_def\<close>)
  then show ?case using j(1) by (auto split: if_splits)
qed simp

lemma instance_map_value:
  assumes "instance_map vs = Inr m" "m i = Some v"
  shows "v \<in> set vs \<and> atoi (trim_space (parse_tag_list v ''i'')) = Some i"
  using assms instance_loop_range [of vs Map.empty m i v] by (auto simp: instance_map_def split: sum.splits option.splits)

lemma arc_loop_pass:
  "ar_result (arc_loop cr txt hs body sm mm am n is) = ''pass'' \<Longrightarrow> i \<in> set is \<Longrightarrow> arc_set_error cr txt hs body sm mm am n i = None"
  by (induction "is") (auto simp: arc_fail_def split: option.splits)

text \<open>The sets of a chain that passes\<close>
lemma arc_set_ok:
  assumes "arc_set_error cr txt hs body sm mm am n i = None"
  obtains ams seal where "mm i = Some ams" "sm i = Some seal" "to_lower (trim_space (parse_tag_list seal ''cv'')) \<noteq> ''fail''"
    "arc_seal_error cr txt hs seal i = None" "i = n \<Longrightarrow> arc_message_error cr txt hs body ams = None"
  using assms that by (auto simp: arc_set_error_def split: option.splits if_splits)

lemma seal_error_cv:
  "arc_seal_error cr txt hs seal i = None \<Longrightarrow> valid_seal_cv (to_lower (trim_space (parse_tag_list seal ''cv''))) i"
  by (auto simp: arc_seal_error_def Let_def split: if_splits)

lemma eval_arc_pass:
  assumes "ar_result (eval_arc cr txt hs body) = ''pass''"
  shows "chain_verified cr txt hs body (int (length (header_values hs ''ARC-Seal'')))"
proof -
  let ?seals = "header_values hs ''ARC-Seal''" and ?msgs = "header_values hs ''ARC-Message-Signature''"
  let ?aars = "header_values hs ''ARC-Authentication-Results''"
  have len: "length ?msgs = length ?seals" "length ?aars = length ?seals" "?seals \<noteq> []"
    using assms by (auto simp: eval_arc_def Let_def arc_fail_def split: if_splits)
  obtain sm mm am where m: "instance_map ?seals = Inr sm" "instance_map ?msgs = Inr mm" "?seals \<noteq> []" "length ?seals \<le> 50"
    and loop: "ar_result (arc_loop cr txt hs body sm mm am (int (length ?seals)) [1..int (length ?seals)]) = ''pass''"
    using assms len by (simp add: eval_arc_def Let_def arc_fail_def split: if_splits sum.splits)
  have one: "1 \<le> int (length ?seals)" using m(3) by (cases ?seals) auto
  have set_ok: "\<exists>seal \<in> set ?seals. arc_seal_error cr txt hs seal i = None \<and> to_lower (trim_space (parse_tag_list seal ''cv'')) = (if i = 1 then ''none'' else ''pass'')"
    if "i \<in> {1..int (length ?seals)}" for i
  proof -
    have "arc_set_error cr txt hs body sm mm am (int (length ?seals)) i = None" using arc_loop_pass [OF loop] that by simp
    then obtain ams seal where s: "sm i = Some seal" "to_lower (trim_space (parse_tag_list seal ''cv'')) \<noteq> ''fail''" "arc_seal_error cr txt hs seal i = None"
      by (rule arc_set_ok)
    then show ?thesis using seal_error_cv [OF s(3)] instance_map_value [OF m(1) s(1)] that
      by (auto simp: valid_seal_cv_def split: if_splits)
  qed
  have "arc_set_error cr txt hs body sm mm am (int (length ?seals)) (int (length ?seals)) = None" using arc_loop_pass [OF loop] one by simp
  then obtain ams where "mm (int (length ?seals)) = Some ams" "arc_message_error cr txt hs body ams = None" by (rule arc_set_ok) blast
  then have "\<exists>ams \<in> set ?msgs. arc_message_error cr txt hs body ams = None \<and> atoi (trim_space (parse_tag_list ams ''i'')) = Some (int (length ?seals))"
    using instance_map_value [OF m(2)] by blast
  then show ?thesis using set_ok one m(4) by (simp add: chain_verified_def)
qed

section \<open>What a seal says\<close>

text \<open>The highest instance of a chain that may be extended, and whether there are fields of a chain at all\<close>
lemma chain_fields_max:
  assumes "chain_fields hs st = (st', False)" "0 \<le> ac_max st" "ac_max st < 50"
  shows "0 \<le> ac_max st' \<and> ac_max st' < 50 \<and> ac_max st \<le> ac_max st' \<and> ac_stop st' = ac_stop st \<and> ((\<exists>h \<in> set hs. is_arc_header (rh_name h)) \<longrightarrow> 0 < ac_max st')"
  using assms
proof (induction hs st rule: chain_fields.induct)
  case (2 h hs st)
  show ?case
  proof (cases "is_arc_header (rh_name h)")
    case True
    then obtain i where i: "atoi (arc_tag (fst (split_2 CHR '';'' (rh_value h))) ''i'') = Some i" "\<not> (i < 1 \<or> i \<ge> 50)"
      using 2(3) by (auto split: option.splits if_splits)
    from 2(2) [OF _ i refl] 2(3-5) True i show ?thesis by (fastforce simp: Let_def max_def split: if_splits)
  qed (use 2 in auto)
qed simp

lemma check_sets_max: "ac_max (foldl check_set st is) = ac_max st"
  by (induction "is" arbitrary: st) (simp_all add: check_set_def)

lemma inspect_bounds:
  assumes "\<not> ac_stop (inspect_chain hs)"
  shows "0 \<le> ac_max (inspect_chain hs) \<and> ac_max (inspect_chain hs) < 50 \<and>
    ((\<exists>h \<in> set hs. is_arc_header (rh_name h)) \<longrightarrow> 0 < ac_max (inspect_chain hs))"
proof -
  let ?st = "\<lparr>ac_max = 0, ac_valid = True, ac_stop = False, ac_sets = (\<lambda>_ _. None)\<rparr>"
  have "chain_fields hs st = (st', True) \<Longrightarrow> ac_stop st'" for st st'
    by (induction hs st rule: chain_fields.induct) (auto simp: Let_def split: option.splits if_splits)
  then obtain st' where c: "chain_fields hs ?st = (st', False)"
    using assms by (cases "chain_fields hs ?st"; cases "snd (chain_fields hs ?st)") (auto simp: inspect_chain_def)
  with chain_fields_max [OF c] show ?thesis by (simp add: inspect_chain_def check_sets_max)
qed

lemma add_set_text:
  assumes "add_set cr s key t cv chain raw hs body authres = Inr mail"
  shows "\<exists>sig rest. mail = ''ARC-Seal: '' @ seal_base (as_base s) key (ac_max chain + 1) t cv @ sig @ crlf @ rest @ raw"
  using assms by (auto simp: add_set_def Let_def split: prod.splits if_splits option.splits) (metis append_assoc append_Cons append_Nil)+


section \<open>A new chain\<close>

text \<open>A line in front of a message as it is\<close>
lemma index_str_line:
  assumes "\<And>j. j < length x \<Longrightarrow> \<not> has_prefix (drop j (x @ s)) p"
  shows "index_str (x @ s) p = map_option (\<lambda>i. length x + i) (index_str s p)"
  using assms
proof (induction x)
  case (Cons c x)
  have "\<not> has_prefix (c # x @ s) p" using Cons.prems [of 0] by simp
  moreover have "\<not> has_prefix (drop j (x @ s)) p" if "j < length x" for j using Cons.prems [of "Suc j"] that by simp
  ultimately show ?case using Cons.IH by (cases "index_str s p") simp_all
qed (cases "index_str s p"; simp)

lemma split_message_line:
  assumes "LF \<notin> set line" "CHR 0x0D \<notin> set line" "raw \<noteq> []" "\<not> is_space (hd raw)" "split_message raw = Some (head, body)"
  shows "split_message (line @ crlf @ raw) = Some (line @ crlf @ head, body)"
proof -
  let ?x = "line @ crlf"
  obtain c r where raw: "raw = c # r" "\<not> is_space c" using assms(3,4) by (cases raw) auto
  have c: "c \<noteq> LF" "c \<noteq> CHR 0x0D" using raw(2) by (auto simp: is_space_def)
  have at: "?x ! j \<in> set line \<or> j = length line \<or> j = length line + 1" if "j < length ?x" for j
    using that by (cases "j < length line") (auto simp: crlf_def nth_append)
  have nth: "(?x @ raw) ! length line = CHR 0x0D" "(?x @ raw) ! (length line + 1) = LF" "(?x @ raw) ! (length line + 2) = c"
    by (simp_all add: crlf_def raw(1) nth_append)
  have first: "(?x @ raw) ! j = ?x ! j" if "j < length ?x" for j using that by (simp only: nth_append if_True)
  have four: "\<not> has_prefix (drop j (?x @ raw)) (crlf @ crlf)" if j: "j < length ?x" for j
    using at [OF j] first [OF j] nth assms(2) c j has_prefix_at [of j "?x @ raw"] by (auto simp del: drop_append append_assoc)
  have two: "\<not> has_prefix (drop j (?x @ raw)) [LF, LF]" if j: "j < length ?x" for j
  proof
    assume h: "has_prefix (drop j (?x @ raw)) [LF, LF]"
    then have "(?x @ raw) ! j = LF" "(?x @ raw) ! (j + 1) = LF" using j by (simp_all add: has_prefix_2 del: drop_append append_assoc)
    then show False using at [OF j] first [OF j] nth assms(1) c by (auto simp del: append_assoc)
  qed
  have i: "index_str (?x @ raw) (crlf @ crlf) = map_option (\<lambda>i. length ?x + i) (index_str raw (crlf @ crlf))"
    "index_str (?x @ raw) [LF, LF] = map_option (\<lambda>i. length ?x + i) (index_str raw [LF, LF])"
    by (rule index_str_line, fact)+
  have take: "take (length ?x + i) (?x @ raw) = ?x @ take i raw" "drop (length ?x + i + n) (?x @ raw) = drop (i + n) raw" for i n
    by (simp_all del: append_assoc add: add.assoc)
  have "split_message (?x @ raw) = Some (?x @ head, body)"
  proof (cases "index_str raw (crlf @ crlf)")
    case (Some k)
    then have "head = take k raw" "body = drop (k + 4) raw" using assms(5) by (simp_all add: split_message_def)
    then show ?thesis by (simp only: split_message_def i Some option.map option.case take)
  next
    case None
    then obtain k where k: "index_str raw [LF, LF] = Some k" "head = take k raw" "body = drop (k + 2) raw"
      using assms(5) by (auto simp: split_message_def split: option.splits)
    then show ?thesis by (simp only: split_message_def i None option.map option.case take)
  qed
  then show ?thesis by simp
qed

text \<open>The two lists of tags in a set\<close>
definition ams_tags :: "string \<Rightarrow> string \<Rightarrow> string \<Rightarrow> string \<Rightarrow> string \<Rightarrow> string \<Rightarrow> string \<Rightarrow> (string \<times> string) list" where
  "ams_tags i algo d s t h bh =
     [(''i'', i), (''a'', algo), (''c'', ''relaxed/relaxed''), (''d'', d), (''s'', s), (''t'', t), (''h'', h), (''bh'', bh)]"

definition seal_tags :: "string \<Rightarrow> string \<Rightarrow> string \<Rightarrow> string \<Rightarrow> string \<Rightarrow> string \<Rightarrow> (string \<times> string) list" where
  "seal_tags i cv algo d s t = [(''i'', i), (''cv'', cv), (''a'', algo), (''d'', d), (''s'', s), (''t'', t)]"

lemma ams_base_tags:
  "ams_base cr s key i t names body @ b =
     tag_text (ams_tags (show_int i) (signature_algorithm key) (fs_domain s) (fs_selector s) (show_int t) (join '':'' names) (body_hash cr body) @ [(''b'', b)])"
  by (simp add: ams_base_def tag_text_def ams_tags_def tag_pair_def)

lemma seal_base_tags:
  "seal_base s key i t cv @ b =
     tag_text (seal_tags (show_int i) cv (signature_algorithm key) (fs_domain s) (fs_selector s) (show_int t) @ [(''b'', b)])"
  by (simp add: seal_base_def tag_text_def seal_tags_def tag_pair_def)

lemma arc_tags_ok:
  "list_all plain_value [i, algo, d, s, t, h, bh, b] \<Longrightarrow> list_all tag_ok (ams_tags i algo d s t h bh @ [(''b'', b)])"
  "list_all plain_value [i, cv, algo, d, s, t, b] \<Longrightarrow> list_all tag_ok (seal_tags i cv algo d s t @ [(''b'', b)])"
  by (simp_all add: ams_tags_def seal_tags_def tag_ok_def is_space_def to_lower_def lower_char_def is_upper_def less_eq_char_def)

text \<open>What a list of tags needs to be the value of a field: nothing to collapse, no line ends, and the empty signature is what is left\<close>
lemma tag_value:
  assumes "list_all tag_ok (kvs @ [(''b'', b)])" "kvs \<noteq> []" "\<forall>kv \<in> set kvs. fst kv \<noteq> ''b''"
  shows "collapse_wsp (tag_text (kvs @ [(''b'', b)])) = tag_text (kvs @ [(''b'', b)])"
    "CHR 0x0D \<notin> set (tag_text (kvs @ [(''b'', b)]))" "LF \<notin> set (tag_text (kvs @ [(''b'', b)]))"
    "strip_b_tag (tag_text (kvs @ [(''b'', b)])) = tag_text (kvs @ [(''b'', [])])"
  using tag_text_collapse [OF assms(1)] tag_text_lines [OF assms(1)] tag_text_strip [OF assms] by simp_all

text \<open>The key of a signer, as both verifications use it\<close>
lemma own_arc_key:
  assumes "key_pair cr key" "cr_sign cr key (cr_sha cr data) = Some sig" "to_lower d = d"
    and "lookup_dkim_key cr txt d sel = Inr (cr_public cr key)"
    and "tags ''d'' = d" "tags ''s'' = sel" "tags ''a'' = signature_algorithm key" "tags ''b'' = b64_encode sig"
  shows "arc_key_error cr txt tags data reason = None"
  using own_signature(1) [OF assms(1,2)] assms(3-8) by (simp add: arc_key_error_def b64_decode_encode)

lemma set_trim_space: "set (trim_space s) \<subseteq> set s"
  unfolding trim_space_def trim_left_def trim_right_def
  by (metis set_rev set_dropWhileD subsetI)

lemma set_split_on: "x \<in> set (split_on c s) \<Longrightarrow> set x \<subseteq> set s"
proof (induction c s arbitrary: x rule: split_on.induct)
  case (2 c y ys)
  obtain z zs where "split_on c ys = z # zs" by (meson split_on_ne list.exhaust)
  moreover from this 2 have "set z \<subseteq> set ys" "\<And>w. w \<in> set zs \<Longrightarrow> set w \<subseteq> set ys" by (cases "y = c"; auto)+
  ultimately show ?case using 2(3) by (auto split: if_splits)
qed simp

text \<open>The authentication results are one line.\<close>
lemma aar_line:
  assumes "plain_value authserv" "plain_value cv" "0 \<le> i" "i \<le> max_int64" "is_space c" "c \<noteq> CHR '' ''"
  shows "c \<notin> set (build_aar_value authserv hs i cv)"
proof -
  have p: "c \<notin> set w" if "plain_value w" for w using that assms(5) by (auto simp: plain_value_def)
  have lit: "c \<notin> set ''i=''" "c \<notin> set ''; ''" "c \<notin> set ''; arc=''" "c \<notin> set ''arc=''" using assms(5,6) by (auto simp: is_space_def)
  show ?thesis
  proof (cases "List.find (own_results authserv) hs")
    case None
    then show ?thesis using p [OF assms(1)] p [OF assms(2)] p [OF show_int_value(1) [OF assms(3,4)]] lit by (simp add: build_aar_value_def)
  next
    case (Some h)
    let ?v = "collapse_wsp (trim_space (rh_value h))"
    have v: "c \<notin> set ?v" using set_join [of c "'' ''" "split_fields (rh_value h)"] assms(5,6) fields_words [of "rh_value h"] by (auto simp: collapse_wsp_def words_ok_def)
    have "c \<notin> set q" if q: "q \<in> set (map trim_space (tl (split_on CHR '';'' ?v)))" for q
    proof -
      obtain w where "w \<in> set (split_on CHR '';'' ?v)" "q = trim_space w" using q list.set_sel(2) [OF split_on_ne] by auto
      then show ?thesis using set_trim_space [of w] set_split_on [of w "CHR '';''" ?v] v by auto
    qed
    then have kept: "c \<notin> set q" if "q \<in> set (filter (\<lambda>p. trim_space (fst (split_2 CHR ''='' p)) \<noteq> ''arc'' \<and> p \<noteq> []) (map trim_space (tl (split_on CHR '';'' ?v))))" for q
      using that by (meson filter_is_subset subsetD)
    let ?parts = "[''i='' @ show_int i, authserv] @ filter (\<lambda>p. trim_space (fst (split_2 CHR ''='' p)) \<noteq> ''arc'' \<and> p \<noteq> [])
      (map trim_space (tl (split_on CHR '';'' ?v))) @ [''arc='' @ cv]"
    have ends: "c \<notin> set (''i='' @ show_int i)" "c \<notin> set authserv" "c \<notin> set (''arc='' @ cv)"
      using p [OF assms(1)] p [OF assms(2)] p [OF show_int_value(1) [OF assms(3,4)]] lit(1,4) by (simp_all only: set_append Un_iff simp_thms)
    have "c \<notin> set q" if "q \<in> set ?parts" for q
    proof -
      from that consider "q = ''i='' @ show_int i" | "q = authserv" | "q = ''arc='' @ cv"
        | "q \<in> set (filter (\<lambda>p. trim_space (fst (split_2 CHR ''='' p)) \<noteq> ''arc'' \<and> p \<noteq> []) (map trim_space (tl (split_on CHR '';'' ?v))))"
        unfolding set_append list.set by blast
      then show ?thesis by cases (use ends kept in \<open>simp_all only: simp_thms\<close>)
    qed
    then have "c \<notin> set (join ''; '' ?parts)" using lit(2) set_join [of c "''; ''" ?parts] by blast
    then show ?thesis by (simp only: build_aar_value_def Let_def Some option.case not_False_eq_True)
  qed
qed

lemma inspect_none: "\<forall>h \<in> set hs. \<not> is_arc_header (rh_name h) \<Longrightarrow> \<not> ac_stop (inspect_chain hs) \<and> ac_max (inspect_chain hs) = 0"
proof -
  assume a: "\<forall>h \<in> set hs. \<not> is_arc_header (rh_name h)"
  have "chain_fields hs st = (st, False)" for st using a by (induction hs) auto
  then show ?thesis by (simp add: inspect_chain_def)
qed

text \<open>No field of the message is taken for one of the new set.\<close>
lemma arc_names_lower:
  "to_lower ''ARC-Seal'' = ''arc-seal'' \<and> to_lower ''ARC-Message-Signature'' = ''arc-message-signature'' \<and>
   to_lower ''ARC-Authentication-Results'' = ''arc-authentication-results''"
  by code_simp

lemma no_arc_values:
  assumes "\<forall>h \<in> set (parse_raw_headers head). \<not> is_arc_header (rh_name h)" "to_lower name \<in> set arc_names"
  shows "header_values (parse_headers head) name = []"
proof -
  have "to_lower (hd_name h) \<noteq> to_lower name" if h: "h \<in> set (parse_headers head)" for h
  proof -
    obtain r where "r \<in> set (parse_raw_headers head)" "same_field h r"
      using h list_all2_nthD [OF parsers_same [of head]] list_all2_lengthD [OF parsers_same [of head]] by (metis in_set_conv_nth)
    then have "\<not> is_arc_header (hd_name h)" using assms(1) by (simp add: same_field_def)
    then show ?thesis using assms(2) by (auto simp only: is_arc_header_def)
  qed
  then have "filter (\<lambda>h. to_lower (hd_name h) = to_lower name) (parse_headers head) = []" by (simp add: filter_empty_conv)
  then show ?thesis by (simp only: header_values_def list.map)
qed

lemma canon_collapse: "canon_header_relaxed name (collapse_wsp v) = canon_header_relaxed name v"
  by (simp add: canon_header_relaxed_def)

text \<open>The data of the first seal\<close>
lemma first_seal_data:
  assumes "hd_name x1 = ''ARC-Seal''" "hd_name x2 = ''ARC-Message-Signature''" "hd_name x3 = ''ARC-Authentication-Results''"
    and "tag_instance (hd_value x1) = 1" "tag_instance (hd_value x2) = 1" "tag_instance (hd_value x3) = 1"
  shows "seal_data (x1 # x2 # x3 # hs) 1 =
    Inr (trim_suffix (canon_header_relaxed ''ARC-Authentication-Results'' (hd_value x3) @ canon_header_relaxed ''ARC-Message-Signature'' (hd_value x2) @
      canon_header_relaxed ''ARC-Seal'' (strip_b_tag (hd_value x1))) crlf)"
proof -
  have ne: "\<not> equal_fold ''ARC-Seal'' ''ARC-Message-Signature''" "\<not> equal_fold ''ARC-Seal'' ''ARC-Authentication-Results''"
    "\<not> equal_fold ''ARC-Message-Signature'' ''ARC-Authentication-Results''"
    using arc_names_lower by (simp_all add: equal_fold_def)
  have "header_by_instance (x1 # x2 # x3 # hs) ''ARC-Seal'' 1 = Some (hd_value x1)"
    "header_by_instance (x1 # x2 # x3 # hs) ''ARC-Message-Signature'' 1 = Some (hd_value x2)"
    "header_by_instance (x1 # x2 # x3 # hs) ''ARC-Authentication-Results'' 1 = Some (hd_value x3)"
    using assms ne by (simp_all add: header_by_instance_def)
  then show ?thesis by (simp add: seal_data_def canon_header_same del: seal_sets.simps(1)) (simp add: numeral_eq_Suc canon_header_same)
qed

lemma atoi_one: "atoi ''1'' = Some 1" "trim_space ''1'' = ''1''" "show_int 1 = ''1''"
  by code_simp+

lemma instance_single:
  assumes "parse_tag_list v ''i'' = ''1''"
  shows "instance_map [v] = Inr [1 \<mapsto> v]" "tag_instance v = 1"
  using assms atoi_one by (simp_all add: instance_map_def tag_instance_def)

text \<open>A message with exactly one set of fields\<close>
lemma eval_arc_single:
  assumes "header_values hs ''ARC-Seal'' = [seal]" "header_values hs ''ARC-Message-Signature'' = [ams]" "header_values hs ''ARC-Authentication-Results'' = [aar]"
    and "parse_tag_list seal ''i'' = ''1''" "parse_tag_list ams ''i'' = ''1''" "parse_tag_list aar ''i'' = ''1''" "parse_tag_list seal ''cv'' = ''none''"
    and "arc_message_error cr txt hs body ams = None" "arc_seal_error cr txt hs seal 1 = None"
  shows "ar_result (eval_arc cr txt hs body) = ''pass''"
proof -
  have cv: "to_lower (trim_space ''none'') \<noteq> ''fail''" by code_simp
  have "arc_set_error cr txt hs body [1 \<mapsto> seal] [1 \<mapsto> ams] [1 \<mapsto> aar] 1 1 = None"
    using assms(7-9) cv by (simp add: arc_set_error_def)
  then show ?thesis using instance_single assms(1-6) by (simp add: eval_arc_def Let_def)
qed

text \<open>The texts of a new set\<close>
lemma add_set_first:
  assumes "add_set cr s key t cv chain raw hs body authres = Inr mail" "cv \<noteq> ''pass''"
  obtains names out sig sig2 where "build_signed_headers hs (replicate (length hs) False) (arc_wanted s hs) = (names, out)" "names \<noteq> []"
    "cr_sign cr key (cr_sha cr (out @ trim_suffix (canon_header_relaxed ''ARC-Message-Signature'' (ams_base cr (as_base s) key (ac_max chain + 1) t names body)) crlf)) = Some sig"
    "cr_sign cr key (cr_sha cr (trim_suffix (canon_header_relaxed ''ARC-Authentication-Results'' authres @
       canon_header_relaxed ''ARC-Message-Signature'' (ams_base cr (as_base s) key (ac_max chain + 1) t names body @ b64_encode sig) @
       canon_header_relaxed ''ARC-Seal'' (seal_base (as_base s) key (ac_max chain + 1) t cv)) crlf)) = Some sig2"
    "mail = (''ARC-Seal: '' @ (seal_base (as_base s) key (ac_max chain + 1) t cv @ b64_encode sig2)) @ crlf @
       (''ARC-Message-Signature: '' @ (ams_base cr (as_base s) key (ac_max chain + 1) t names body @ b64_encode sig)) @ crlf @
       (''ARC-Authentication-Results: '' @ authres) @ crlf @ raw"
  using assms that
  by (auto simp: add_set_def sign_sha256_def Let_def trim_suffix_canon split: prod.splits if_splits option.splits)

text \<open>The names of the fields under the message signature have no separators.\<close>
lemma arc_wanted_plain:
  assumes "signer_names (as_base s)"
  shows "list_all (\<lambda>n. plain_value n \<and> CHR '':'' \<notin> set n) (arc_wanted s hs)"
proof -
  have d: "plain_value ''dkim-signature'' \<and> CHR '':'' \<notin> set ''dkim-signature''" by (simp add: is_space_def)
  have f: "plain_value n \<and> CHR '':'' \<notin> set n" if "n \<in> set (fs_headers (as_base s))" for n
    using assms that by (simp add: signer_names_def list_all_iff)
  have "n \<in> set (arc_wanted s hs) \<Longrightarrow> n \<in> set (fs_headers (as_base s)) \<or> n = ''dkim-signature''" for n
    unfolding arc_wanted_def by auto
  then show ?thesis using d f unfolding list_all_iff by blast
qed

text \<open>A field in front of a message: where the body begins, and what the parser sees\<close>
lemma front_field:
  assumes "split_message raw = Some (head, body)" "raw \<noteq> []" "\<not> is_space (hd raw)" "head \<noteq> []" "\<not> is_space (hd head)"
    and "CHR 0x0D \<notin> set (name @ v)" "LF \<notin> set (name @ v)" "name \<noteq> []" "\<forall>c \<in> set name. \<not> is_space c \<and> c \<noteq> CHR '':''"
  shows "split_message ((name @ '': '' @ v) @ crlf @ raw) = Some ((name @ '': '' @ v) @ crlf @ head, body)"
    "parse_headers ((name @ '': '' @ v) @ crlf @ head) = \<lparr>hd_name = name, hd_value = collapse_wsp v, hd_raw = trim_space v\<rparr> # parse_headers head"
    "\<not> is_space (hd ((name @ '': '' @ v) @ crlf @ raw))" "\<not> is_space (hd ((name @ '': '' @ v) @ crlf @ head))"
proof -
  show "split_message ((name @ '': '' @ v) @ crlf @ raw) = Some ((name @ '': '' @ v) @ crlf @ head, body)"
    by (rule split_message_line) (use assms in auto)
  show "parse_headers ((name @ '': '' @ v) @ crlf @ head) = \<lparr>hd_name = name, hd_value = collapse_wsp v, hd_raw = trim_space v\<rparr> # parse_headers head"
    using parse_headers_prepend [OF assms(4-9)] by simp
  show "\<not> is_space (hd ((name @ '': '' @ v) @ crlf @ raw))" "\<not> is_space (hd ((name @ '': '' @ v) @ crlf @ head))"
    using assms(8,9) by (cases name; simp)+
qed

text \<open>The three fields of the first set in front of the message\<close>
lemma three_fields:
  assumes "split_message raw = Some (head, body)" "head \<noteq> []" "\<not> is_space (hd head)"
    and "CHR 0x0D \<notin> set seal" "LF \<notin> set seal" "CHR 0x0D \<notin> set ams" "LF \<notin> set ams" "CHR 0x0D \<notin> set aar" "LF \<notin> set aar"
  shows "\<exists>head'. split_message ((''ARC-Seal: '' @ seal) @ crlf @ (''ARC-Message-Signature: '' @ ams) @ crlf @ (''ARC-Authentication-Results: '' @ aar) @ crlf @ raw) =
      Some (head', body) \<and>
    parse_headers head' = \<lparr>hd_name = ''ARC-Seal'', hd_value = collapse_wsp seal, hd_raw = trim_space seal\<rparr> #
      \<lparr>hd_name = ''ARC-Message-Signature'', hd_value = collapse_wsp ams, hd_raw = trim_space ams\<rparr> #
      \<lparr>hd_name = ''ARC-Authentication-Results'', hd_value = collapse_wsp aar, hd_raw = trim_space aar\<rparr> # parse_headers head"
proof -
  have raw: "raw \<noteq> []" "\<not> is_space (hd raw)" using split_message_parts [OF assms(1)] assms(2,3) by auto
  have n: "CHR 0x0D \<notin> set (name @ v) \<and> LF \<notin> set (name @ v) \<and> name \<noteq> [] \<and> (\<forall>c \<in> set name. \<not> is_space c \<and> c \<noteq> CHR '':'')"
    if "CHR 0x0D \<notin> set v" "LF \<notin> set v" "name = ''ARC-Seal'' \<or> name = ''ARC-Message-Signature'' \<or> name = ''ARC-Authentication-Results''" for name v
    using that by (auto simp: is_space_def)
  note n1 = n [OF assms(8,9), of "''ARC-Authentication-Results''"] and n2 = n [OF assms(6,7), of "''ARC-Message-Signature''"]
    and n3 = n [OF assms(4,5), of "''ARC-Seal''"]
  note f1 = front_field [OF assms(1) raw assms(2,3), of "''ARC-Authentication-Results''" aar]
  note f2 = front_field [OF f1(1) _ f1(3) _ f1(4), of "''ARC-Message-Signature''" ams]
  note f3 = front_field [OF f2(1) _ f2(3) _ f2(4), of "''ARC-Seal''" seal]
  show ?thesis using f3(1,2) f2(2) f1(2) n1 n2 n3 by simp
qed

text \<open>The message signature and the seal of the first set, as the verification sees them\<close>
lemma own_ams:
  assumes build: "build_signed_headers (parse_raw_headers head) (replicate (length (parse_raw_headers head)) False) want = (names, out)" "names \<noteq> []"
    and want: "list_all (\<lambda>n. plain_value n \<and> CHR '':'' \<notin> set n) want"
    and sign: "cr_sign cr key (cr_sha cr (out @ trim_suffix (canon_header_relaxed ''ARC-Message-Signature'' (ams_base cr s key 1 t names body)) crlf)) = Some sig"
    and s: "signer_names s" "key_pair cr key" "0 \<le> t" "t \<le> max_int64"
    and key: "lookup_dkim_key cr txt (fs_domain s) (fs_selector s) = Inr (cr_public cr key)"
    and v: "v = ams_base cr s key 1 t names body @ b64_encode sig"
  shows "collapse_wsp v = v" "CHR 0x0D \<notin> set v" "LF \<notin> set v" "parse_tag_list v ''i'' = ''1''"
    "arc_message_error cr txt (xs @ parse_headers head) body v = None"
proof -
  let ?tags = "ams_tags ''1'' (signature_algorithm key) (fs_domain s) (fs_selector s) (show_int t) (join '':'' names) (body_hash cr body)"
  have d: "fs_domain s \<noteq> []" "fs_selector s \<noteq> []" "to_lower (fs_domain s) = fs_domain s" "plain_value (fs_domain s)" "plain_value (fs_selector s)"
    using s(1) by (simp_all add: signer_names_def)
  note h = names_join [OF build want]
  have one: "plain_value ''1''" by (simp add: is_space_def)
  have ok: "list_all tag_ok (?tags @ [(''b'', b64_encode sig)])"
    by (rule arc_tags_ok(1)) (use d h one s(3,4) in \<open>simp add: algorithm_facts show_int_value b64_plain body_hash_def\<close>)
  have tx: "v = tag_text (?tags @ [(''b'', b64_encode sig)])" "ams_base cr s key 1 t names body = tag_text (?tags @ [(''b'', [])])"
    using ams_base_tags [of cr s key 1 t names body] ams_base_tags [of cr s key 1 t names body "[]"] by (simp_all add: v atoi_one(3))
  note f = tag_value [OF ok]
  show "collapse_wsp v = v" "CHR 0x0D \<notin> set v" "LF \<notin> set v" using f(1-3) unfolding tx(1) by (simp_all add: ams_tags_def)
  have tags: "parse_tag_list v = (\<lambda>_. [])(''i'' := ''1'', ''a'' := signature_algorithm key, ''c'' := ''relaxed/relaxed'', ''d'' := fs_domain s, ''s'' := fs_selector s,
      ''t'' := show_int t, ''h'' := join '':'' names, ''bh'' := body_hash cr body, ''b'' := b64_encode sig)"
    using tag_text_tags [OF ok] unfolding tx(1) by (simp add: ams_tags_def)
  then show "parse_tag_list v ''i'' = ''1''" by simp
  have strip: "strip_b_tag v = ams_base cr s key 1 t names body" using f(4) unfolding tx by (simp add: ams_tags_def)
  have bh: "body_hash cr body \<noteq> []" "plain_value (body_hash cr body)" using s(2) by (simp_all add: key_pair_def body_hash_def b64_plain)
  have hash: "body_hash_error cr (parse_tag_list v) body = None" by (rule own_body_hash) (simp_all add: tags)
  have "arc_key_error cr txt (parse_tag_list v) (build_signed_data (xs @ parse_headers head) (join '':'' names) v ''relaxed'' ''ARC-Message-Signature'') ''signature verify failed'' = None"
    unfolding signed_data_agrees [OF build want strip] by (rule own_arc_key [OF s(2) sign d(3) key]) (simp_all add: tags)
  then show "arc_message_error cr txt (xs @ parse_headers head) body v = None"
    using d h bh hash by (simp add: arc_message_error_def Let_def key_parameters_def tags algorithm_facts plain_trim relaxed_canon)
qed

lemma own_seal:
  assumes sign: "cr_sign cr key (cr_sha cr data) = Some sig"
    and s: "signer_names s" "key_pair cr key" "0 \<le> t" "t \<le> max_int64"
    and key: "lookup_dkim_key cr txt (fs_domain s) (fs_selector s) = Inr (cr_public cr key)"
    and v: "v = seal_base s key 1 t ''none'' @ b64_encode sig"
  shows "collapse_wsp v = v" "CHR 0x0D \<notin> set v" "LF \<notin> set v" "parse_tag_list v ''i'' = ''1''" "parse_tag_list v ''cv'' = ''none''"
    "strip_b_tag v = seal_base s key 1 t ''none''" "seal_data hs 1 = Inr data \<Longrightarrow> arc_seal_error cr txt hs v 1 = None"
proof -
  let ?tags = "seal_tags ''1'' ''none'' (signature_algorithm key) (fs_domain s) (fs_selector s) (show_int t)"
  have d: "fs_domain s \<noteq> []" "fs_selector s \<noteq> []" "to_lower (fs_domain s) = fs_domain s" "plain_value (fs_domain s)" "plain_value (fs_selector s)"
    using s(1) by (simp_all add: signer_names_def)
  have lit: "plain_value ''1''" "plain_value ''none''" "to_lower (trim_space ''none'') = ''none''" by (simp add: is_space_def, simp add: is_space_def, code_simp)
  have ok: "list_all tag_ok (?tags @ [(''b'', b64_encode sig)])"
    by (rule arc_tags_ok(2)) (use d lit s(3,4) in \<open>simp add: algorithm_facts show_int_value b64_plain\<close>)
  have tx: "v = tag_text (?tags @ [(''b'', b64_encode sig)])" "seal_base s key 1 t ''none'' = tag_text (?tags @ [(''b'', [])])"
    using seal_base_tags [of s key 1 t "''none''"] seal_base_tags [of s key 1 t "''none''" "[]"] by (simp_all add: v atoi_one(3))
  note f = tag_value [OF ok]
  show "collapse_wsp v = v" "CHR 0x0D \<notin> set v" "LF \<notin> set v" using f(1-3) unfolding tx(1) by (simp_all add: seal_tags_def)
  have tags: "parse_tag_list v = (\<lambda>_. [])(''i'' := ''1'', ''cv'' := ''none'', ''a'' := signature_algorithm key, ''d'' := fs_domain s, ''s'' := fs_selector s,
      ''t'' := show_int t, ''b'' := b64_encode sig)"
    using tag_text_tags [OF ok] unfolding tx(1) by (simp add: seal_tags_def)
  then show "parse_tag_list v ''i'' = ''1''" "parse_tag_list v ''cv'' = ''none''" by simp_all
  show "strip_b_tag v = seal_base s key 1 t ''none''" using f(4) unfolding tx by (simp add: seal_tags_def)
  have "arc_key_error cr txt (parse_tag_list v) data ''seal verify failed'' = None"
    by (rule own_arc_key [OF s(2) sign d(3) key]) (simp_all add: tags)
  then show "arc_seal_error cr txt hs v 1 = None" if "seal_data hs 1 = Inr data"
    using that d lit(3) by (simp add: arc_seal_error_def Let_def key_parameters_def tags algorithm_facts atoi_one valid_seal_cv_def)
qed

text \<open>C39: A chain that the agent begins is valid: a message without ARC fields that begins with a header field, sealed with the key of a signer, has
  a chain that passes the verification wherever the public key of the signer is found, as long as the authentication results the
  agent copies into the set do not themselves contain a tag for the instance.\<close>
theorem arc_new_chain_verifies:
  assumes "sign_with_validation cr kf t s raw validation = (s', Inr mail)" "fs_key (as_base s') = Some key"
    and "split_message raw = Some (head, body)" "head \<noteq> []" "\<not> is_space (hd head)"
    and "\<forall>h \<in> set (parse_raw_headers head). \<not> is_arc_header (rh_name h)"
    and "signer_names (as_base s)" "plain_value (as_authserv s)" "key_pair cr key" "0 \<le> t" "t \<le> max_int64"
    and "lookup_dkim_key cr txt (fs_domain (as_base s)) (fs_selector (as_base s)) = Inr (cr_public cr key)"
    and "parse_tag_list (collapse_wsp (build_aar_value (as_authserv s) (parse_raw_headers head) 1 ''none'')) ''i'' = ''1''"
  shows "\<exists>head'. split_message mail = Some (head', body) \<and> ar_result (eval_arc cr txt (parse_headers head') body) = ''pass''"
proof -
  let ?hs = "parse_raw_headers head" and ?b = "as_base s'"
  let ?aar = "build_aar_value (as_authserv s') ?hs 1 ''none''"
  obtain base e where r: "reload_if_needed cr kf (as_base s) = (base, e)" by fastforce
  have s': "s' = s\<lparr>as_base := base\<rparr>" "seal_with_key cr s' key t raw validation = Inr mail"
    using assms(1,2) r by (auto simp: sign_with_validation_def arc_reload_def split: prod.splits option.splits)
  have same: "fs_domain ?b = fs_domain (as_base s)" "fs_selector ?b = fs_selector (as_base s)" "signer_names ?b" "as_authserv s' = as_authserv s"
    using reload_keeps [OF r] assms(7) s'(1) by (auto simp: signer_names_def)
  have chain: "\<not> ac_stop (inspect_chain ?hs)" "ac_max (inspect_chain ?hs) = 0" using inspect_none [OF assms(6)] by blast+
  have "add_set cr s' key t ''none'' (inspect_chain ?hs) raw ?hs body ?aar = Inr mail"
    using s'(2) assms(3) chain by (simp add: seal_with_key_def Let_def chain_status_def split: if_splits)
  then obtain names out sig sig2 where b: "build_signed_headers ?hs (replicate (length ?hs) False) (arc_wanted s' ?hs) = (names, out)" "names \<noteq> []"
    and k1: "cr_sign cr key (cr_sha cr (out @ trim_suffix (canon_header_relaxed ''ARC-Message-Signature'' (ams_base cr ?b key 1 t names body)) crlf)) = Some sig"
    and k2: "cr_sign cr key (cr_sha cr (trim_suffix (canon_header_relaxed ''ARC-Authentication-Results'' ?aar @
       canon_header_relaxed ''ARC-Message-Signature'' (ams_base cr ?b key 1 t names body @ b64_encode sig) @
       canon_header_relaxed ''ARC-Seal'' (seal_base ?b key 1 t ''none'')) crlf)) = Some sig2"
    and mail: "mail = (''ARC-Seal: '' @ (seal_base ?b key 1 t ''none'' @ b64_encode sig2)) @ crlf @
       (''ARC-Message-Signature: '' @ (ams_base cr ?b key 1 t names body @ b64_encode sig)) @ crlf @ (''ARC-Authentication-Results: '' @ ?aar) @ crlf @ raw"
    by (rule add_set_first) (use chain(2) in simp_all)
  let ?seal = "seal_base ?b key 1 t ''none'' @ b64_encode sig2" and ?ams = "ams_base cr ?b key 1 t names body @ b64_encode sig"
  note want = arc_wanted_plain [OF same(3)]
  have key: "lookup_dkim_key cr txt (fs_domain ?b) (fs_selector ?b) = Inr (cr_public cr key)" using assms(12) same(1,2) by simp
  note ams = own_ams [OF b want k1 same(3) assms(9-11) key refl]
  note seal = own_seal [OF k2 same(3) assms(9-11) key refl]
  have none: "plain_value ''none''" by (simp add: is_space_def)
  have "c \<notin> set ?aar" if "is_space c" "c \<noteq> CHR '' ''" for c
    by (rule aar_line [OF _ none _ _ that]) (use assms(8) same(4) in \<open>simp_all add: max_int64_def\<close>)
  then have aar: "CHR 0x0D \<notin> set ?aar" "LF \<notin> set ?aar" by (simp_all add: is_space_def)
  let ?x1 = "\<lparr>hd_name = ''ARC-Seal'', hd_value = ?seal, hd_raw = trim_space ?seal\<rparr>"
    and ?x2 = "\<lparr>hd_name = ''ARC-Message-Signature'', hd_value = ?ams, hd_raw = trim_space ?ams\<rparr>"
    and ?x3 = "\<lparr>hd_name = ''ARC-Authentication-Results'', hd_value = collapse_wsp ?aar, hd_raw = trim_space ?aar\<rparr>"
  obtain head' where m: "split_message mail = Some (head', body)" "parse_headers head' = ?x1 # ?x2 # ?x3 # parse_headers head"
    using three_fields [OF assms(3-5) seal(2,3) ams(2,3) aar] unfolding mail seal(1) ams(1) by blast
  let ?all = "?x1 # ?x2 # ?x3 # parse_headers head"
  have i3: "parse_tag_list (collapse_wsp ?aar) ''i'' = ''1''" using assms(13) same(4) by simp
  have data: "seal_data ?all 1 = Inr (trim_suffix (canon_header_relaxed ''ARC-Authentication-Results'' ?aar @
      canon_header_relaxed ''ARC-Message-Signature'' ?ams @ canon_header_relaxed ''ARC-Seal'' (seal_base ?b key 1 t ''none'')) crlf)"
    using first_seal_data [of ?x1 ?x2 ?x3 "parse_headers head"] instance_single(2) [OF seal(4)] instance_single(2) [OF ams(4)] instance_single(2) [OF i3]
    by (simp only: header.simps seal(6) canon_collapse simp_thms)
  have vals: "header_values ?all ''ARC-Seal'' = [?seal]" "header_values ?all ''ARC-Message-Signature'' = [?ams]"
    "header_values ?all ''ARC-Authentication-Results'' = [collapse_wsp ?aar]"
    using no_arc_values [OF assms(6), of "''ARC-Seal''"] no_arc_values [OF assms(6), of "''ARC-Message-Signature''"]
      no_arc_values [OF assms(6), of "''ARC-Authentication-Results''"] arc_names_lower by (simp_all add: header_values_def)
  have "arc_message_error cr txt ?all body ?ams = None" using ams(5) [of "[?x1, ?x2, ?x3]"] by simp
  from eval_arc_single [OF vals seal(4) ams(4) i3 seal(5) this seal(7) [OF data]] m show ?thesis by simp
qed

section \<open>Examples\<close>

text \<open>A key that signs everything, a signer, and the message of the example for DKIM\<close>
definition arc_crypto :: crypto where
  "arc_crypto = demo_crypto\<lparr>cr_sha := (\<lambda>x. CHR ''h'' # take 3 x), cr_sign := (\<lambda>_ h. Some (CHR ''s'' # h)), cr_verify_ed := (\<lambda>k h sig. sig = CHR ''s'' # h)\<rparr>"

definition demo_sealer :: arc_signer where
  "demo_sealer = \<lparr>as_base = demo_signer, as_authserv = ''mx''\<rparr>"

definition sealed_mail :: "string \<Rightarrow> string" where
  "sealed_mail v = (case snd (sign_with_validation arc_crypto no_file 7 demo_sealer demo_raw v) of Inr m \<Rightarrow> m | Inl _ \<Rightarrow> [])"

lemma sealed_eval:
  "case sign_with_validation arc_crypto no_file 7 demo_sealer demo_raw ''none'' of (s', Inr m) \<Rightarrow> fs_key (as_base s') = Some demo_key | _ \<Rightarrow> False"
  by code_simp

lemma sealed_facts:
  "list_all (\<lambda>h. \<not> is_arc_header (rh_name h)) (parse_raw_headers ''From: <u@a.jp>'')"
  "parse_tag_list (collapse_wsp (build_aar_value ''mx'' (parse_raw_headers ''From: <u@a.jp>'') 1 ''none'')) ''i'' = ''1''"
  "ar_result (eval_arc arc_crypto demo_txt (parse_headers ''From: <u@a.jp>'') (''hi'' @ [LF])) = ''none''"
  by code_simp+

lemma sealed_lookup: "lookup_dkim_key arc_crypto demo_txt ''a.jp'' ''s'' = Inr (PubEd (replicate 32 CHR ''k''))"
  by code_simp

lemma sealed_signed:
  obtains s' where "sign_with_validation arc_crypto no_file 7 demo_sealer demo_raw ''none'' = (s', Inr (sealed_mail ''none''))" "fs_key (as_base s') = Some demo_key"
  using sealed_eval unfolding sealed_mail_def by (auto split: prod.splits sum.splits)

theorem arc_new_chain_verifies_witness:
  "\<exists>head'. split_message (sealed_mail ''none'') = Some (head', ''hi'' @ [LF]) \<and>
     ar_result (eval_arc arc_crypto demo_txt (parse_headers head') (''hi'' @ [LF])) = ''pass''"
proof -
  obtain s' where s: "sign_with_validation arc_crypto no_file 7 demo_sealer demo_raw ''none'' = (s', Inr (sealed_mail ''none''))" "fs_key (as_base s') = Some demo_key"
    by (rule sealed_signed)
  have p: "key_pair arc_crypto demo_key"
    by (simp add: key_pair_def arc_crypto_def demo_crypto_def demo_key_def verify_signature_def signature_algorithm_def)
  have n: "signer_names (as_base demo_sealer)" "plain_value (as_authserv demo_sealer)" using demo_names by (simp_all add: demo_sealer_def is_space_def)
  have l: "lookup_dkim_key arc_crypto demo_txt (fs_domain (as_base demo_sealer)) (fs_selector (as_base demo_sealer)) = Inr (cr_public arc_crypto demo_key)"
    using sealed_lookup by (simp add: demo_sealer_def demo_signer_def arc_crypto_def demo_crypto_def)
  have a: "parse_tag_list (collapse_wsp (build_aar_value (as_authserv demo_sealer) (parse_raw_headers ''From: <u@a.jp>'') 1 ''none'')) ''i'' = ''1''"
    using sealed_facts(2) by (simp add: demo_sealer_def)
  have h: "\<forall>h \<in> set (parse_raw_headers ''From: <u@a.jp>''). \<not> is_arc_header (rh_name h)" using sealed_facts(1) by (simp only: list_all_iff)
  from arc_new_chain_verifies [OF s demo_eval(2) _ demo_eval(3) h n p _ _ l a] show ?thesis by (simp add: max_int64_def)
qed


end
