(* ===== verification/Retention.thy ===== *)
theory Retention
  imports Queue_Claims
begin

text \<open>
  The retention sweep (\<^verbatim>\<open>internal/retention/retention.go\<close>): a process of its own that removes old files from the
  directories of sent, dead and poisoned messages. It takes no lock of the queue, so what it does to one file (the look at its time
  and the removal) is a step that other operations may come between. The times of the files belong to the environment
  of a sweep, as do the failures of the system calls.
\<close>

record retention_policy =
  sent_ttl :: duration
  dlq_ttl :: duration
  poison_ttl :: duration
  sweep_interval :: duration

record sweep_env =
  sw_env :: env
  sw_mtime :: "qdir \<Rightarrow> string \<Rightarrow> time option"

section \<open>The operations\<close>

text \<open>One entry of the loop in \<^verbatim>\<open>removeOlder\<close>; the number is that of the removed files. A file whose time cannot be read is
  kept, and so is one whose removal fails.\<close>
definition sweep_entry :: "sweep_env \<Rightarrow> qdir \<Rightarrow> time \<Rightarrow> string \<Rightarrow> store \<Rightarrow> store \<times> nat" where
  "sweep_entry se d cutoff n s =
     (case sw_mtime se d n of
        None \<Rightarrow> (s, 0)
      | Some t \<Rightarrow>
          if cutoff < t then (s, 0)
          else (let r = os_remove (sw_env se) s d n in (fst r, if snd r = None then 1 else 0)))"

fun sweep_entries :: "sweep_env \<Rightarrow> qdir \<Rightarrow> time \<Rightarrow> string list \<Rightarrow> store \<Rightarrow> nat \<Rightarrow> store \<times> nat" where
  "sweep_entries se d cutoff [] s removed = (s, removed)"
| "sweep_entries se d cutoff (n # ns) s removed =
     (let r = sweep_entry se d cutoff n s in sweep_entries se d cutoff ns (fst r) (removed + snd r))"

text \<open>\<^verbatim>\<open>removeOlder\<close>; the directories of the queue exist.\<close>
definition remove_older :: "sweep_env \<Rightarrow> store \<Rightarrow> qdir \<Rightarrow> duration \<Rightarrow> store \<times> (qerror + nat)" where
  "remove_older se s d ttl =
     (if ttl \<le> 0 then (s, Inr 0)
      else (case os_read_dir (sw_env se) s d of
              Inl err \<Rightarrow> (s, Inl err)
            | Inr ns \<Rightarrow> (let r = sweep_entries se d (now (sw_env se) - ttl) ns s 0 in (fst r, Inr (snd r)))))"

text \<open>The directories of a sweep in the order of the code, each with its time to live; an error ends the sweep.\<close>
fun sweep_dirs :: "sweep_env \<Rightarrow> (qdir \<times> duration) list \<Rightarrow> store \<Rightarrow> nat \<Rightarrow> store \<times> (qerror + nat)" where
  "sweep_dirs se [] s deleted = (s, Inr deleted)"
| "sweep_dirs se ((d, ttl) # ds) s deleted =
     (let r = remove_older se s d ttl in
      case snd r of
        Inl err \<Rightarrow> (fst r, Inl err)
      | Inr n \<Rightarrow> sweep_dirs se ds (fst r) (deleted + n))"

definition sweep_plan :: "retention_policy \<Rightarrow> (qdir \<times> duration) list" where
  "sweep_plan p = [(Sent, sent_ttl p), (Dlq, dlq_ttl p), (Poison, poison_ttl p)]"

text \<open>\<^verbatim>\<open>sweep\<close>\<close>
definition sweep :: "sweep_env \<Rightarrow> string \<Rightarrow> retention_policy \<Rightarrow> store \<Rightarrow> store \<times> (qerror + nat)" where
  "sweep se root p s = (if root = [] then (s, Inr 0) else sweep_dirs se (sweep_plan p) s 0)"

text \<open>\<^verbatim>\<open>Run\<close>: the period of the ticker, and the sweeps at the start and at every tick until the context ends; errors are
  logged only.\<close>
definition sweep_period :: "retention_policy \<Rightarrow> duration" where
  "sweep_period p = (if sweep_interval p \<le> 0 then 3600 * 10 ^ 9 else sweep_interval p)"

definition retention_run :: "string \<Rightarrow> retention_policy \<Rightarrow> sweep_env \<Rightarrow> sweep_env list \<Rightarrow> store \<Rightarrow> store" where
  "retention_run root p first ticks s = foldl (\<lambda>s se. fst (sweep se root p s)) s (first # ticks)"

section \<open>What a sweep removes\<close>

text \<open>The time to live of a directory; those of pending messages have none.\<close>
fun ttl_of :: "retention_policy \<Rightarrow> qdir \<Rightarrow> duration" where
  "ttl_of p Sent = sent_ttl p"
| "ttl_of p Dlq = dlq_ttl p"
| "ttl_of p Poison = poison_ttl p"
| "ttl_of p _ = 0"

text \<open>A file that has outlived the time its directory gives it\<close>
definition older :: "sweep_env \<Rightarrow> qdir \<Rightarrow> duration \<Rightarrow> string \<Rightarrow> bool" where
  "older se d ttl n \<longleftrightarrow> 0 < ttl \<and> (\<exists>t. sw_mtime se d n = Some t \<and> t \<le> now (sw_env se) - ttl)"

definition outlived :: "sweep_env \<Rightarrow> retention_policy \<Rightarrow> qdir \<Rightarrow> string \<Rightarrow> bool" where
  "outlived se p d n \<longleftrightarrow> older se d (ttl_of p d) n"

lemma sweep_entry_file_at:
  "file_at (fst (sweep_entry se d cutoff n s)) d' n' =
     (if d' = d \<and> n' = n \<and> (\<exists>t. sw_mtime se d n = Some t \<and> t \<le> cutoff) \<and> \<not> io_fails (sw_env se) OpRemove d n then None
      else file_at s d' n')"
  by (auto simp: sweep_entry_def Let_def os_remove_file_at split: option.splits)

lemma sweep_entries_file_at:
  "file_at (fst (sweep_entries se d cutoff ns s k)) d' n' =
     (if d' = d \<and> n' \<in> set ns \<and> (\<exists>t. sw_mtime se d n' = Some t \<and> t \<le> cutoff) \<and> \<not> io_fails (sw_env se) OpRemove d n' then None
      else file_at s d' n')"
  by (induction ns arbitrary: s k) (auto simp: Let_def sweep_entry_file_at)

lemma remove_older_file_at:
  "file_at (fst (remove_older se s d ttl)) d' n =
     (if d' = d \<and> older se d ttl n \<and> \<not> io_fails (sw_env se) OpReadDir d [] \<and> \<not> io_fails (sw_env se) OpRemove d n then None
      else file_at s d' n)"
proof (cases "0 < ttl \<and> \<not> io_fails (sw_env se) OpReadDir d []")
  case True
  have "n \<notin> set (map fst (files s d)) \<Longrightarrow> file_at s d n = None"
    by (simp add: file_at_def map_of_eq_None_iff)
  with True show ?thesis
    by (auto simp: remove_older_def os_read_dir_def older_def Let_def sweep_entries_file_at simp del: set_map)
next
  case False
  then show ?thesis by (auto simp: remove_older_def os_read_dir_def older_def)
qed

lemma remove_older_ok: "no_faults (sw_env se) \<Longrightarrow> \<exists>k. snd (remove_older se s d ttl) = Inr k"
  by (simp add: remove_older_def os_read_dir_def Let_def)

lemma sweep_dirs_only:
  "file_at (fst (sweep_dirs se ds s k)) d n = file_at s d n \<or>
     file_at (fst (sweep_dirs se ds s k)) d n = None \<and> (\<exists>ttl. (d, ttl) \<in> set ds \<and> older se d ttl n)"
proof (induction ds arbitrary: s k)
  case (Cons x ds)
  obtain d1 ttl where x: "x = (d1, ttl)" by force
  let ?s = "fst (remove_older se s d1 ttl)"
  have r: "file_at ?s d n = file_at s d n \<or> file_at ?s d n = None \<and> d = d1 \<and> older se d ttl n"
    by (simp add: remove_older_file_at)
  show ?case
  proof (cases "snd (remove_older se s d1 ttl)")
    case (Inl err)
    with r show ?thesis by (auto simp: x Let_def)
  next
    case (Inr m)
    with r Cons.IH [of ?s "k + m"] show ?thesis by (auto simp: x Let_def)
  qed
qed simp

lemma sweep_dirs_all:
  assumes "no_faults (sw_env se)"
  shows "file_at (fst (sweep_dirs se ds s k)) d n =
     (if \<exists>ttl. (d, ttl) \<in> set ds \<and> older se d ttl n then None else file_at s d n)"
proof (induction ds arbitrary: s k)
  case (Cons x ds)
  obtain d1 ttl where x: "x = (d1, ttl)" by force
  let ?s = "fst (remove_older se s d1 ttl)"
  obtain m where "snd (remove_older se s d1 ttl) = Inr m" using remove_older_ok [OF assms] by blast
  then have "fst (sweep_dirs se (x # ds) s k) = fst (sweep_dirs se ds ?s (k + m))" by (simp add: x Let_def)
  moreover have "file_at ?s d n = (if d = d1 \<and> older se d1 ttl n then None else file_at s d n)"
    using assms by (simp add: remove_older_file_at)
  ultimately show ?case using Cons.IH [of ?s "k + m"] by (auto simp: x)
qed simp

lemma plan_outlived: "(\<exists>ttl. (d, ttl) \<in> set (sweep_plan p) \<and> older se d ttl n) \<longleftrightarrow> outlived se p d n"
  by (cases d) (auto simp: sweep_plan_def outlived_def older_def)

section \<open>Single steps\<close>

text \<open>What the sweeper does to one file, when it gets to it.\<close>
inductive sweep_step :: "sweep_env \<Rightarrow> retention_policy \<Rightarrow> store \<Rightarrow> store \<Rightarrow> bool" where
  "(d, ttl) \<in> set (sweep_plan p) \<Longrightarrow> 0 < ttl \<Longrightarrow> sweep_step se p s (fst (sweep_entry se d (now (sw_env se) - ttl) n s))"

lemma sweep_entries_steps:
  "(d, ttl) \<in> set (sweep_plan p) \<Longrightarrow> 0 < ttl \<Longrightarrow>
     (sweep_step se p)\<^sup>*\<^sup>* s (fst (sweep_entries se d (now (sw_env se) - ttl) ns s k))"
  by (induction ns arbitrary: s k)
    (auto simp: Let_def intro: converse_rtranclp_into_rtranclp sweep_step.intros)

lemma sweep_dirs_steps:
  "set ds \<subseteq> set (sweep_plan p) \<Longrightarrow> (sweep_step se p)\<^sup>*\<^sup>* s (fst (sweep_dirs se ds s k))"
proof (induction ds arbitrary: s k)
  case (Cons x ds)
  obtain d ttl where x: "x = (d, ttl)" by force
  have "(sweep_step se p)\<^sup>*\<^sup>* s (fst (remove_older se s d ttl))"
    using Cons.prems x sweep_entries_steps [of d ttl p se s]
    by (auto simp: remove_older_def Let_def split: sum.split)
  with Cons x show ?case by (auto simp: Let_def intro: rtranclp_trans split: sum.split)
qed simp

text \<open>A sweep is a sequence of such steps.\<close>
lemma sweep_steps: "(sweep_step se p)\<^sup>*\<^sup>* s (fst (sweep se root p s))"
  using sweep_dirs_steps [of "sweep_plan p" p] by (simp add: sweep_def)

text \<open>A held message leaves the queue by a sweep only when its last file is an outlived one of a sent or dead message.\<close>
definition expires :: "sweep_env \<Rightarrow> retention_policy \<Rightarrow> store \<Rightarrow> store \<Rightarrow> string \<Rightarrow> bool" where
  "expires se p s s' i \<longleftrightarrow>
     (\<exists>d \<in> {Sent, Dlq}. file_at s d (json_name i) \<noteq> None \<and> outlived se p d (json_name i) \<and>
        (\<forall>d' \<in> set live_dirs. d' \<noteq> d \<longrightarrow> file_at s d' (json_name i) = None))"

lemma sweep_step_held:
  assumes "sweep_step se p s s'" "held s i"
  shows "held s' i \<or> expires se p s s' i"
  using assms(1)
proof cases
  case (1 d ttl n)
  have plan: "d \<in> {Sent, Dlq, Poison}" "ttl = ttl_of p d" using 1(2) by (auto simp: sweep_plan_def)
  show ?thesis
  proof (cases "held s' i")
    case False
    obtain d0 where d0: "d0 \<in> set live_dirs" "file_at s d0 (json_name i) \<noteq> None" using assms(2) by (auto simp: held_def)
    have gone: "\<forall>d' \<in> set live_dirs. file_at s' d' (json_name i) = None" using False by (auto simp: held_def)
    have eq: "file_at s' d' (json_name i) = (if d' = d \<and> json_name i = n \<and> (\<exists>t. sw_mtime se d n = Some t \<and> t \<le> now (sw_env se) - ttl) \<and>
        \<not> io_fails (sw_env se) OpRemove d n then None else file_at s d' (json_name i))" for d'
      unfolding 1(1) by (rule sweep_entry_file_at)
    from eq [of d0] gone d0 have s: "d0 = d" "json_name i = n" "\<exists>t. sw_mtime se d n = Some t \<and> t \<le> now (sw_env se) - ttl"
      by (auto split: if_splits)
    have "\<forall>d' \<in> set live_dirs. d' \<noteq> d \<longrightarrow> file_at s d' (json_name i) = None" using eq gone by (metis (full_types))
    moreover have "outlived se p d (json_name i)" using s plan 1(3) by (auto simp: outlived_def older_def)
    moreover have "d \<in> {Sent, Dlq}" using plan d0(1) s(1) by auto
    ultimately show ?thesis using d0 s(1) unfolding expires_def by blast
  qed simp
qed

section \<open>The property\<close>

text \<open>C0: A sweep removes exactly what has outlived its time. Whatever fails, a file that is gone afterwards belonged to the sent, dead or
  poisoned messages, its directory has a positive time to live and the file was at least that old; when nothing fails, every such
  file is gone; a pending message is never touched, and every other file is as it was.\<close>
theorem retention_exact:
  assumes "root \<noteq> []"
  shows "(file_at (fst (sweep se root p s)) d n = file_at s d n \<or> file_at (fst (sweep se root p s)) d n = None \<and> outlived se p d n) \<and>
    (no_faults (sw_env se) \<longrightarrow> file_at (fst (sweep se root p s)) d n = (if outlived se p d n then None else file_at s d n)) \<and>
    (d \<in> set pending_dirs \<longrightarrow> file_at (fst (sweep se root p s)) d n = file_at s d n)"
proof -
  have "\<not> outlived se p d n" if "d \<in> set pending_dirs" using that by (auto simp: outlived_def older_def pending_dirs_def)
  then show ?thesis
    using assms sweep_dirs_only [of se "sweep_plan p" s 0 d n] sweep_dirs_all [of se "sweep_plan p" s 0 d n]
    unfolding plan_outlived by (auto simp: sweep_def)
qed

definition w_sweep :: sweep_env where
  "w_sweep = \<lparr>sw_env = w_env, sw_mtime = (\<lambda>d n. Some 20)\<rparr>"

definition w_retention :: retention_policy where
  "w_retention = \<lparr>sent_ttl = 80, dlq_ttl = 81, poison_ttl = 0, sweep_interval = 0\<rparr>"

definition w_old :: store where
  "w_old = w_store\<lparr>files := (\<lambda>d. [(''a.json'', JsonMsg w_msg1)])\<rparr>"

text \<open>At the age of 80 a sent message goes, a dead one that may stay for 81 does not.\<close>
theorem retention_exact_witness:
  "file_at (fst (sweep w_sweep ''/q'' w_retention w_old)) Sent ''a.json'' = None \<and>
   file_at (fst (sweep w_sweep ''/q'' w_retention w_old)) Dlq ''a.json'' = Some (JsonMsg w_msg1) \<and>
   file_at (fst (sweep w_sweep ''/q'' w_retention w_old)) Inbound ''a.json'' = Some (JsonMsg w_msg1)"
proof -
  have w: "no_faults (sw_env w_sweep)" "file_at w_old d ''a.json'' = Some (JsonMsg w_msg1)" for d
    using w_no_faults by (simp_all add: w_sweep_def w_old_def file_at_def)
  have o: "outlived w_sweep w_retention Sent ''a.json''" "\<not> outlived w_sweep w_retention Dlq ''a.json''"
    "\<not> outlived w_sweep w_retention Inbound ''a.json''"
    by (simp_all add: outlived_def older_def w_sweep_def w_retention_def w_env_def)
  show ?thesis
    using retention_exact [of "''/q''" w_sweep w_retention w_old Sent "''a.json''"] retention_exact [of "''/q''" w_sweep w_retention w_old Dlq "''a.json''"]
      retention_exact [of "''/q''" w_sweep w_retention w_old Inbound "''a.json''"] w o by simp
qed

end
