(* ===== verification/Spec2Isabelle.thy ===== *)
theory Spec2Isabelle
  imports Queue_Claims Fair_Queue_Claims Dispatcher_Claims Smtp_Claims Mta_Sts_Claims Pool_Claims Client_Claims Client_Edges Mail_Listener Http_Claims Arc_Claims Retention
begin

text \<open>
  A verification of the kuroshio mail transfer agent, a Go program that receives mail over SMTP and HTTP, judges it with SPF, DKIM, ARC and DMARC,
  keeps it in a queue on disk and delivers it with retries, bounces, pauses, rate limits and signatures.

  \<^bold>\<open>The parts and how they interact.\<close> A connection of the listener (\<^verbatim>\<open>internal/smtp\<close>) is admitted by the ingress limits
  (\<^verbatim>\<open>internal/ingress\<close>), authenticates against a backend (\<^verbatim>\<open>internal/userauth\<close>), has its mail judged (\<^verbatim>\<open>internal/mailauth\<close>), and hands an
  accepted message (\<^verbatim>\<open>internal/model\<close>) to the queue (\<^verbatim>\<open>internal/queue\<close>); so does a request to the injection endpoint
  (\<^verbatim>\<open>internal/httpinjection\<close>). The worker (\<^verbatim>\<open>internal/worker/dispatcher.go\<close>) takes the messages that are due, optionally through the fair queue
  (\<^verbatim>\<open>fair_queue.go\<close>), asks the pause store (\<^verbatim>\<open>internal/deliverypause\<close>), the domain throttle (\<^verbatim>\<open>domain_throttle.go\<close>), the reputation tracker
  (\<^verbatim>\<open>internal/reputation\<close>) and the suppression list (\<^verbatim>\<open>internal/bounce\<close>) for every recipient, and delivers with the client
  (\<^verbatim>\<open>internal/delivery\<close>): it signs (\<^verbatim>\<open>internal/dkim\<close>), chooses a route and a source address, resolves the exchangers
  (\<^verbatim>\<open>internal/router\<close>), applies DANE and MTA-STS, waits for the shaper (\<^verbatim>\<open>internal/shaping\<close>), takes a connection from the pool and speaks SMTP or
  LMTP. The worker classifies the failures (\<^verbatim>\<open>delivery/classification.go\<close>), feeds them to the response throttle (\<^verbatim>\<open>response_throttle.go\<close>), sends
  notifications (\<^verbatim>\<open>bounce/dsn_generate.go\<close>) and tells the queue what to do with the message.

  \<^bold>\<open>The theories.\<close>
  \<^item> \<open>Go_Prelude\<close>: Go's strings, numbers, times and sorted maps, and the collections of rewrite rules. Strings are byte
    lists; case mapping and white space are those of ASCII. Times and durations are integers of nanoseconds.
  \<^item> \<open>Message\<close>: the queued message and addresses (\<^verbatim>\<open>model/message.go\<close>, \<^verbatim>\<open>util/address.go\<close>).
  \<^item> \<open>Queue_Types\<close>, \<open>Queue_Capacity\<close>, \<open>Queue_Store\<close>: the local queue over an explicit file system. The record \<open>store\<close> has the
    directories, every operation of \<^verbatim>\<open>store.go\<close>, \<^verbatim>\<open>capacity.go\<close>, \<^verbatim>\<open>quarantine.go\<close> and \<^verbatim>\<open>pause_stats.go\<close> is a function, and the
    record \<open>env\<close> says for one call which system calls fail and what the clock and the disk report.
    \<open>Queue_Effects\<close>, \<open>Queue_Safety\<close>, \<open>Queue_Refinement\<close>, \<open>Queue_Simulation\<close>, \<open>Queue_Due\<close> hold the lemmas, \<open>Queue_Claims\<close> the
    properties: nothing is lost under any fault, capacity, exact selection of due messages, and the forward
    simulation of the store by an abstract life cycle of messages.
  \<^item> \<open>Queue_Backend\<close>: the interface \<^verbatim>\<open>queue.Backend\<close> as a record of methods and the locale \<open>queue_backend\<close> with the laws its
    clients rely on, interpreted by the local store and by the decorator for accepted events.
  \<^item> \<open>Fair_Queue\<close>, \<open>Fair_Queue_Facts\<close>, \<open>Fair_Queue_Claims\<close>: weighted selection across classes and tenants.
  \<^item> \<open>Delivery_Pause\<close>: the pause store with its file, and the locale \<open>pause_contract\<close> of the interface the worker uses.
  \<^item> \<open>Classification\<close>, \<open>Bounce\<close>, \<open>Domain_Throttle\<close>, \<open>Response_Throttle\<close>, \<open>Reputation\<close>: one component each with its properties.
  \<^item> \<open>Dispatcher\<close>: \<^verbatim>\<open>handleMessage\<close> and \<^verbatim>\<open>processBatch\<close> with the delivery client as a parameter; \<open>Dispatcher_Facts\<close> the
    invariant of its loops, \<open>Dispatcher_Leases\<close> the slots of the throttle, \<open>Dispatcher_Safety\<close> the queue below it, in the
    locales of the queue and the pause store; \<open>Dispatcher_Claims\<close> the properties.
  \<^item> \<open>Ingress\<close>: the limit store with its locale \<open>limit_store\<close>, the limiters, Go's durations, DNS block lists.
  \<^item> \<open>Smtp_Envelope\<close>, \<open>Smtp_Io\<close>, \<open>Smtp_Auth\<close>, \<open>Smtp_Session\<close>, \<open>Smtp_Server\<close>: the arguments of the commands, the wire, the
    dialogues of \<^verbatim>\<open>AUTH\<close>, the session with its commands, and the loop of a connection as a total function on the bytes
    the client sends. \<open>Smtp_Machine\<close> is the session as an abstract machine and the proof that the code refines
    it; \<open>Smtp_Claims\<close> has the invariants and properties.
  \<^item> \<open>Client_Io\<close>, \<open>Client_Session\<close>, \<open>Client_Deliver\<close>: the outbound dialogue of \<^verbatim>\<open>smtp_client.go\<close> over a wire that may break at every read and
    write, the delivery to a host, a domain, over LMTP, into a spool, by route and in batches. \<open>Client_Facts\<close> and \<open>Client_Outcome\<close> hold
    the lemmas about what was sent and what success means, \<open>Client_Samples\<close> the examples, \<open>Client_Claims\<close> and \<open>Client_Edges\<close> the properties.
  \<^item> \<open>Connection_Pool\<close>, \<open>Pool_Claims\<close>: \<^verbatim>\<open>smtp_pool.go\<close> as a step relation over any number of deliveries. \<open>Dane\<close>: TLSA records, their
    matching and the parser of DNS answers. \<open>Mta_Sts\<close>, \<open>Mta_Sts_Claims\<close>: policies, their cache and their replacement. \<open>Router\<close>: MX resolution
    and the DNS cache. \<open>Egress_Routes\<close>: source addresses and routes. \<open>Shaping\<close>: groups, buckets and leases. \<open>Net_Ip\<close>: addresses.
  \<^item> \<open>Spf_Macros\<close>, \<open>Spf\<close>, \<open>Spf_Claims\<close>: SPF (\<^verbatim>\<open>spf.go\<close>, \<^verbatim>\<open>spf_macros.go\<close>), with an inductive definition of which clients a domain authorises.
  \<^item> \<open>Dkim\<close>: verification (\<^verbatim>\<open>mailauth/dkim.go\<close>) and signing (\<^verbatim>\<open>dkim/signer.go\<close>); \<open>Dkim_Facts\<close> relates the two parsers and searches, \<open>Dkim_Tags\<close>
    the lists of tags, \<open>Dkim_Claims\<close> has the properties. \<open>Arc\<close>, \<open>Arc_Claims\<close>: chains (\<^verbatim>\<open>mailauth/arc.go\<close>), seals (\<^verbatim>\<open>dkim/arc_signer.go\<close>) and
    the signer that verifies before it seals (\<^verbatim>\<open>delivery/arc_signer.go\<close>).
  \<^item> \<open>Dmarc\<close>: both versions of DMARC (\<^verbatim>\<open>dmarc.go\<close>, \<^verbatim>\<open>dmarcbis.go\<close>). \<open>Mail_Policy\<close>, \<open>Mail_Policy_Claims\<close>: header fields and the decision about a message
    (\<^verbatim>\<open>headers.go\<close>, \<^verbatim>\<open>pipeline.go\<close>). \<open>Mail_Listener\<close>: the decision inside the listener.
  \<^item> \<open>Http_Injection\<close>, \<open>Http_Claims\<close>: the injection endpoint with its idempotency store.
  \<^item> this theory: the front ends and the worker over one queue.

  \<^bold>\<open>What the properties show.\<close> The queue loses no message whatever fails and stays within its limits; the fair queue
  conserves messages; the worker accounts for every recipient, acknowledges only finished messages, never
  repeats a delivery of unknown status and always returns; a session is consistent along every run,
  relays only for those it may, accepts submissions only from vouched principals, forgets everything at STARTTLS, and
  stores what it accepts. The client sends nothing in the clear where TLS is required, reports success only after a host accepted
  the complete text, follows DANE and MTA-STS, and never shares or exceeds connections. SPF authorises only what the
  records authorise, within its limits; what the agent signs and seals it verifies; a DKIM pass is the word of the owner of the published key; mail that
  nobody vouches for is refused where its domain asks for that, and signed mail of the author's domain is accepted. A positive answer over HTTP means that
  the message is queued. Some properties and lemmas record behaviour that is not intended, such as the loss of a message with a reused key.

  \<^bold>\<open>Bounds and termination.\<close> There is no fuel. Loops are structural recursion, or functions with a termination proof: the
  connection loop by the bytes that are still to be read, SPF by the queries that are left, the readers of bodies and durations by the
  rest of their input. Waiting for a slot of the throttle that nobody else can free is the value \<open>None\<close>, and \<open>handler_returns\<close> shows that it does not
  happen on an idle throttle. Integers that may overflow are words or are wrapped explicitly (\<open>wrap64\<close>).

  \<^bold>\<open>Parameters.\<close> The resolver, the network with its handshakes, the hash and signature functions with the formats of keys and certificates (the records
  \<open>crypto\<close> and those of \<open>Dane\<close>), the policy hook, authentication backends other than the static one, the format of dates, the decoding of
  JSON, the author of a message and the random identifiers are arguments of the definitions; properties hold for all of them, or
  name what they need. The worker and the policy of a message are stated over any delivery client and any verification of
  signatures; \<open>signed_mail_accepted\<close> puts the verification of \<open>Dkim\<close> in.

  \<^bold>\<open>Not modelled.\<close> The clients of Redis and Kafka, the administration interface, the webhooks and the delivery history (front ends, a remote
  endpoint and a database), the manifest of signing profiles, decoding of YAML, the PROXY protocol, certificates and
  deadlines of connections, report files, metrics, traces and logs. Comparisons of rates are exact where the code compares binary fractions.
\<close>

section \<open>All users of one queue\<close>

text \<open>
  What happens to the local queue of a running agent: rounds of connections, of any listener and with any client, requests to
  the injection endpoint, batches of messages handled by the worker, single operations of the queue by whoever calls them (the worker's scan for due
  messages, which expires quarantines and moves unreadable files away, an administrator who requeues or deletes messages) and the
  retention sweep, file by file. They come in any order, and each step starts from the queue the step before left.
\<close>
inductive system_step :: "store \<Rightarrow> store \<Rightarrow> bool" where
  Smtp_Round: "sv_queue sv = local_backend \<Longrightarrow> serve_step (sv :: (env, store, limit_hits) smtp_server) st = (st', c) \<Longrightarrow>
     system_step (sm_queue st) (sm_queue st')"
| Http_Request: "ia_queue api = local_backend \<Longrightarrow> handle_inject (api :: (env, store) inject_api) iv e trace rq is = (is', a) \<Longrightarrow>
     system_step (is_queue is) (is_queue is')"
| Worker_Batch: "dc_backend d = local_backend \<Longrightarrow>
     handle_messages (d :: (env, store, pause_env, pause_local) dispatcher) ms w = Some w' \<Longrightarrow> system_step (dp_queue w) (dp_queue w')"
| Queue_Operation: "qstep e op q q' \<Longrightarrow> system_step q q'"
| Retention_Sweep: "sweep_step se p q q' \<Longrightarrow> system_step q q'"

text \<open>
  The ways out of the queue: a scan copied the unreadable file of the message to the poison directory or found its quarantine
  expired, an administrator deleted it from quarantine (\<open>leaves\<close>), or the retention sweep removed the file of a sent or dead message that
  has outlived its time and is nowhere else (\<open>expires\<close>).
\<close>
definition way_out :: "store \<Rightarrow> store \<Rightarrow> string \<Rightarrow> bool" where
  "way_out q q' i \<longleftrightarrow>
     (\<exists>e op. qstep e op q q' \<and> leaves e op q q' i) \<or> (\<exists>se p. sweep_step se p q q' \<and> expires se p q q' i)"

lemma inject_keeps:
  assumes "handle_inject api iv e trace rq is = (is', a)" "ia_queue api = local_backend" "held (is_queue is) i"
  shows "held (is_queue is') i"
  using handle_inject_queue [OF assms(1)] assms(2,3) local_queue.enqueue_keeps [of "is_queue is" i e] by auto

lemma system_step_keeps:
  assumes "system_step q q'" "held q i"
  shows "held q' i \<or> way_out q q' i"
  using assms(1)
proof cases
  case (Queue_Operation e op)
  then show ?thesis using qstep_held [OF _ assms(2)] unfolding way_out_def by blast
next
  case (Retention_Sweep se p)
  then show ?thesis using sweep_step_held [OF _ assms(2)] unfolding way_out_def by blast
qed (use assms(2) in \<open>blast intro: local_queue.serve_step_keeps inject_keeps local_queue.handle_messages_keeps\<close>)+

lemma system_run_keeps:
  assumes "system_step\<^sup>*\<^sup>* q q'" "held q i"
  shows "held q' i \<or> (\<exists>q1 q2. system_step\<^sup>*\<^sup>* q q1 \<and> system_step q1 q2 \<and> system_step\<^sup>*\<^sup>* q2 q' \<and> held q1 i \<and> way_out q1 q2 i)"
  using assms(1)
proof (induction rule: rtranclp_induct)
  case (step y z)
  from step.IH show ?case
  proof
    assume y: "held y i"
    from system_step_keeps [OF step.hyps(2) y] show ?thesis using step.hyps y by blast
  next
    assume "\<exists>q1 q2. system_step\<^sup>*\<^sup>* q q1 \<and> system_step q1 q2 \<and> system_step\<^sup>*\<^sup>* q2 y \<and> held q1 i \<and> way_out q1 q2 i"
    then show ?thesis using step.hyps(2) rtranclp.rtrancl_into_rtrancl [of system_step] by metis
  qed
qed (use assms(2) in simp)



end
